(* ===== verification/Chetter_Prelude.thy ===== *)
theory Chetter_Prelude
  imports Main "HOL-Library.Sublist" "HOL-Library.Product_Lexorder"
begin

text \<open>
  Shared vocabulary of the development: the error values the Go code returns, the result
  monad, the SQL statements as operations on lists of rows, and the functions of Go's
  \<^verbatim>\<open>strings\<close> package the sources call, with the generic lemmas the component
  theories use.

  Times are integers counting nanoseconds (\<^verbatim>\<open>time.Time\<close> and
  \<^verbatim>\<open>time.Duration\<close>). Strings are byte strings; the case mappings and white
  space tests below are those of Go on ASCII text, and leave every other byte alone.
\<close>

named_theorems sql_defs \<open>definitions of the SQL statements\<close>
named_theorems go_defs \<open>definitions of the helpers written in Go\<close>
named_theorems keep_intros \<open>preservation of the store invariants\<close>

section \<open>Times\<close>

type_synonym time = int

definition second :: time where
  "second = 1000000000"

definition hour :: time where
  "hour = 3600 * second"

lemma second_pos [simp]: "0 < second" "second \<noteq> 0" "0 \<le> second"
  by (simp_all add: second_def)

lemma hour_pos [simp]: "0 < hour"
  by (simp add: hour_def)

section \<open>Errors and results\<close>

text \<open>
  The error values of the server: sentinel errors of the SQL driver and of the service, the
  typed errors of the MySQL and PostgreSQL drivers (number or code, and full text) and of the
  network layer, \<^verbatim>\<open>fmt.Errorf\<close> values with and without a wrapped cause (which \<open>WrapFirst\<close> prints first), the typed
  admission error, and \<^verbatim>\<open>connect.NewError\<close> with its code.
\<close>

datatype rpc_code = CodeInvalidArgument | CodeInternal | CodeFailedPrecondition | CodeCanceled
  | CodePermissionDenied | CodeUnavailable

datatype error =
    SqlNoRows
  | SqlDuplicateKey
  | MySQLError int string
  | PgError string string
  | NetOpError string
  | SyscallError string string
  | DbError string
  | ErrNoClaimableTask
  | ErrTaskNotClaimed
  | ErrEventCallbackRecursionLimit
  | CtxErr string
  | PendingTaskCapacity int int
  | Errorf string
  | Wrap string error
  | WrapFirst error string
  | ConnectError rpc_code error

text \<open>\<^verbatim>\<open>errors.Is\<close>: the chain of wrapped errors holds the target.\<close>

fun errors_is :: "error \<Rightarrow> error \<Rightarrow> bool" where
  "errors_is (Wrap m e) target = (Wrap m e = target \<or> errors_is e target)"
| "errors_is (WrapFirst e m) target = (WrapFirst e m = target \<or> errors_is e target)"
| "errors_is (ConnectError c e) target = (ConnectError c e = target \<or> errors_is e target)"
| "errors_is e target = (e = target)"

fun bind_res :: "error + 'a \<Rightarrow> ('a \<Rightarrow> error + 'b) \<Rightarrow> error + 'b" where
  "bind_res (Inl e) f = Inl e"
| "bind_res (Inr x) f = f x"

text \<open>\<^verbatim>\<open>if err != nil { return fmt.Errorf("msg: %w", err) }\<close>\<close>

fun wrap_err :: "string \<Rightarrow> error + 'a \<Rightarrow> error + 'a" where
  "wrap_err m (Inl e) = Inl (Wrap m e)"
| "wrap_err m (Inr x) = Inr x"

definition guard_res :: "bool \<Rightarrow> error \<Rightarrow> error + unit" where
  "guard_res ok e = (if ok then Inr () else Inl e)"

definition from_option :: "error \<Rightarrow> 'a option \<Rightarrow> error + 'a" where
  "from_option e m = (case m of None \<Rightarrow> Inl e | Some x \<Rightarrow> Inr x)"

lemma bind_res_Inr_iff [simp]:
  "bind_res m f = Inr y \<longleftrightarrow> (\<exists>x. m = Inr x \<and> f x = Inr y)"
  by (cases m) auto

lemma bind_res_Inl_iff:
  "bind_res m f = Inl e \<longleftrightarrow> m = Inl e \<or> (\<exists>x. m = Inr x \<and> f x = Inl e)"
  by (cases m) auto

lemma bind_res_cong [fundef_cong]:
  "m = m' \<Longrightarrow> (\<And>x. m' = Inr x \<Longrightarrow> f x = g x) \<Longrightarrow> bind_res m f = bind_res m' g"
  by (cases m') auto

lemma wrap_err_Inr_iff [simp]: "wrap_err m r = Inr x \<longleftrightarrow> r = Inr x"
  by (cases r) auto

lemma guard_res_Inr_iff [simp]: "guard_res ok e = Inr u \<longleftrightarrow> ok"
  by (simp add: guard_res_def)

lemma guard_res_Inl_iff [simp]: "guard_res ok e = Inl d \<longleftrightarrow> \<not> ok \<and> d = e"
  by (auto simp: guard_res_def)

lemma from_option_Inr_iff [simp]: "from_option e m = Inr x \<longleftrightarrow> m = Some x"
  by (auto simp: from_option_def split: option.splits)

lemma from_option_Inl_iff [simp]: "from_option e m = Inl d \<longleftrightarrow> m = None \<and> d = e"
  by (auto simp: from_option_def split: option.splits)

lemma guard_res_simps [simp]: "guard_res True e = Inr ()" "guard_res False e = Inl e"
  by (simp_all add: guard_res_def)

lemma from_option_simps [simp]: "from_option e None = Inl e" "from_option e (Some x) = Inr x"
  by (simp_all add: from_option_def)

text \<open>A result is not an error.\<close>

lemma not_isl_iff: "\<not> isl m \<longleftrightarrow> (\<exists>x. m = Inr x)"
  by (cases m) auto

lemma isl_bind_res: "isl (bind_res m f) \<longleftrightarrow> isl m \<or> isl (f (projr m))"
  by (cases m) auto

section \<open>Operations with partial effects\<close>

text \<open>
  An operation that is not one transaction may fail after some of its effects: it returns its error
  together with the state it leaves.
\<close>

type_synonym ('s, 'a) act = "'s \<Rightarrow> (error + 'a) \<times> 's"

definition act_bind :: "('s, 'a) act \<Rightarrow> ('a \<Rightarrow> ('s, 'b) act) \<Rightarrow> ('s, 'b) act" where
  "act_bind m f st = (case m st of (Inl e, st') \<Rightarrow> (Inl e, st') | (Inr x, st') \<Rightarrow> f x st')"

definition act_fail :: "error \<Rightarrow> ('s, 'a) act" where
  "act_fail e st = (Inl e, st)"

definition act_done :: "'a \<Rightarrow> ('s, 'a) act" where
  "act_done x st = (Inr x, st)"

text \<open>Replace the error of an operation, and lift a result that needs no state.\<close>

definition act_wrap :: "(error \<Rightarrow> error) \<Rightarrow> ('s, 'a) act \<Rightarrow> ('s, 'a) act" where
  "act_wrap w m st = (case m st of (Inl e, st') \<Rightarrow> (Inl (w e), st') | (Inr x, st') \<Rightarrow> (Inr x, st'))"

definition act_result :: "error + 'a \<Rightarrow> ('s, 'a) act" where
  "act_result r st = (r, st)"

lemmas act_simps = act_bind_def act_wrap_def act_fail_def act_done_def act_result_def

lemma act_bind_InrE:
  assumes "act_bind m f st = (Inr y, st')"
  obtains x st1 where "m st = (Inr x, st1)" and "f x st1 = (Inr y, st')"
  using assms by (auto simp: act_bind_def split: prod.splits sum.splits)

lemma act_wrap_Inr_iff [simp]: "act_wrap w m st = (Inr x, st') \<longleftrightarrow> m st = (Inr x, st')"
  by (auto simp: act_wrap_def split: prod.splits sum.splits)

section \<open>SQL statements on lists of rows\<close>

text \<open>
  A table is the list of its rows, in the order the database scans them. An
  \<^verbatim>\<open>UPDATE\<close> rewrites the matching rows and reports, as the MySQL driver does without
  \<^verbatim>\<open>clientFoundRows\<close>, the rows whose columns changed. An \<^verbatim>\<open>INSERT\<close> fails on a
  duplicate primary key. \<^verbatim>\<open>ORDER BY ... LIMIT 1\<close> returns the first row in scan order
  among those with the least (greatest) key.
\<close>

definition sql_update :: "('r \<Rightarrow> bool) \<Rightarrow> ('r \<Rightarrow> 'r) \<Rightarrow> 'r list \<Rightarrow> 'r list" where
  "sql_update p f rs = map (\<lambda>r. if p r then f r else r) rs"

definition sql_affected :: "('r \<Rightarrow> bool) \<Rightarrow> ('r \<Rightarrow> 'r) \<Rightarrow> 'r list \<Rightarrow> nat" where
  "sql_affected p f rs = length (filter (\<lambda>r. p r \<and> f r \<noteq> r) rs)"

definition sql_insert :: "('r \<Rightarrow> 'k) \<Rightarrow> 'r \<Rightarrow> 'r list \<Rightarrow> error + 'r list" where
  "sql_insert key r rs = (if key r \<in> key ` set rs then Inl SqlDuplicateKey else Inr (rs @ [r]))"

text \<open>The same for a table with a second unique key.\<close>

definition sql_insert2 :: "('r \<Rightarrow> 'k) \<Rightarrow> ('r \<Rightarrow> 'l) \<Rightarrow> 'r \<Rightarrow> 'r list \<Rightarrow> error + 'r list" where
  "sql_insert2 key uq r rs =
     (if key r \<in> key ` set rs \<or> uq r \<in> uq ` set rs then Inl SqlDuplicateKey else Inr (rs @ [r]))"

definition sql_one :: "('r \<Rightarrow> bool) \<Rightarrow> 'r list \<Rightarrow> error + 'r" where
  "sql_one p rs = from_option SqlNoRows (find p rs)"

fun sql_first_asc :: "('r \<Rightarrow> 'k::linorder) \<Rightarrow> 'r list \<Rightarrow> 'r option" where
  "sql_first_asc k [] = None"
| "sql_first_asc k (r # rs) =
     (case sql_first_asc k rs of None \<Rightarrow> Some r | Some s \<Rightarrow> if k s < k r then Some s else Some r)"

fun sql_first_desc :: "('r \<Rightarrow> 'k::linorder) \<Rightarrow> 'r list \<Rightarrow> 'r option" where
  "sql_first_desc k [] = None"
| "sql_first_desc k (r # rs) =
     (case sql_first_desc k rs of None \<Rightarrow> Some r | Some s \<Rightarrow> if k r < k s then Some s else Some r)"

text \<open>\<^verbatim>\<open>ORDER BY key ASC\<close> without a limit: a stable sort.\<close>

definition sql_order_asc :: "('r \<Rightarrow> 'k::linorder) \<Rightarrow> 'r list \<Rightarrow> 'r list" where
  "sql_order_asc k rs = sort_key k rs"

definition coalesce :: "'a option \<Rightarrow> 'a option \<Rightarrow> 'a option" where
  "coalesce x y = (case x of None \<Rightarrow> y | Some v \<Rightarrow> Some v)"

text \<open>\<^verbatim>\<open>NULLIF(s, '')\<close> and the Go helper \<^verbatim>\<open>nullString\<close> both turn the empty string into NULL.\<close>

definition nullString :: "string \<Rightarrow> string option" where
  "nullString s = (if s = [] then None else Some s)"

text \<open>\<^verbatim>\<open>sql.NullString.String\<close>: the empty string for NULL.\<close>

definition str_of :: "string option \<Rightarrow> string" where
  "str_of x = (case x of None \<Rightarrow> [] | Some s \<Rightarrow> s)"

lemma coalesce_simps [simp]: "coalesce None y = y" "coalesce (Some v) y = Some v"
  by (simp_all add: coalesce_def)

lemma str_of_simps [simp]: "str_of None = []" "str_of (Some s) = s"
  by (simp_all add: str_of_def)

lemma nullString_simps [simp]: "nullString [] = None" "nullString (c # cs) = Some (c # cs)"
  by (simp_all add: nullString_def)

lemma str_of_nullString [simp]: "str_of (nullString s) = s"
  by (simp add: nullString_def)

lemma length_sql_update [simp]: "length (sql_update p f rs) = length rs"
  by (simp add: sql_update_def)

lemma sql_update_Nil [simp]: "sql_update p f [] = []"
  by (simp add: sql_update_def)

lemma sql_update_Cons [simp]:
  "sql_update p f (r # rs) = (if p r then f r else r) # sql_update p f rs"
  by (simp add: sql_update_def)

lemma in_sql_update_iff:
  "r' \<in> set (sql_update p f rs) \<longleftrightarrow> (\<exists>r\<in>set rs. r' = (if p r then f r else r))"
  by (auto simp: sql_update_def)

lemma filter_sql_update: "(\<And>r. w r \<Longrightarrow> \<not> P r \<and> \<not> P (f r)) \<Longrightarrow> filter P (sql_update w f rs) = filter P rs"
  by (induction rs) (auto simp: sql_update_def)

lemma sql_update_no_match: "(\<And>r. r \<in> set rs \<Longrightarrow> \<not> p r) \<Longrightarrow> sql_update p f rs = rs"
  by (simp add: sql_update_def map_idI)

lemma map_sql_update_keep:
  "(\<And>r. g (f r) = g r) \<Longrightarrow> map g (sql_update p f rs) = map g rs"
  by (simp add: sql_update_def)

lemma sql_affected_zero_iff:
  "sql_affected p f rs = 0 \<longleftrightarrow> (\<forall>r\<in>set rs. p r \<longrightarrow> f r = r)"
  by (auto simp: sql_affected_def filter_empty_conv)

lemma sql_insert_fresh: "key r \<notin> key ` set rs \<Longrightarrow> sql_insert key r rs = Inr (rs @ [r])"
  by (simp add: sql_insert_def)

lemma sql_affected_pos_iff:
  "0 < sql_affected p f rs \<longleftrightarrow> (\<exists>r\<in>set rs. p r \<and> f r \<noteq> r)"
  using sql_affected_zero_iff [of p f rs] by auto

lemma sql_affected_witness:
  assumes "sql_affected p f rs \<noteq> 0"
  obtains r where "r \<in> set rs" and "p r" and "f r \<in> set (sql_update p f rs)"
proof -
  from assms obtain r where "r \<in> set rs" "p r" by (auto simp: sql_affected_pos_iff)
  moreover from this have "f r \<in> set (sql_update p f rs)" by (auto simp: in_sql_update_iff)
  ultimately show thesis by (rule that)
qed

lemma sql_affected_zero_update: "sql_affected p f rs = 0 \<Longrightarrow> sql_update p f rs = rs"
  by (auto simp: sql_affected_zero_iff sql_update_def intro: map_idI)

lemma sql_insert_Inr_iff [simp]:
  "sql_insert key r rs = Inr rs' \<longleftrightarrow> key r \<notin> key ` set rs \<and> rs' = rs @ [r]"
  by (auto simp: sql_insert_def)

lemma sql_insert2_Inr_iff [simp]:
  "sql_insert2 key uq r rs = Inr rs' \<longleftrightarrow>
     key r \<notin> key ` set rs \<and> uq r \<notin> uq ` set rs \<and> rs' = rs @ [r]"
  by (auto simp: sql_insert2_def)

lemma sql_one_Inr_iff: "sql_one p rs = Inr r \<longleftrightarrow> find p rs = Some r"
  by (simp add: sql_one_def)

lemma find_SomeD: "find p rs = Some r \<Longrightarrow> r \<in> set rs \<and> p r"
  by (auto simp: find_Some_iff)

lemma find_distinct_key:
  assumes "distinct (map key rs)" and "r \<in> set rs"
  shows "find (\<lambda>x. key x = key r) rs = Some r"
  using assms by (induction rs) (auto simp: image_iff)

lemma sql_first_asc_None [simp]: "sql_first_asc k rs = None \<longleftrightarrow> rs = []"
  by (cases rs) (auto split: option.splits)

lemma sql_first_asc_Some:
  "sql_first_asc k rs = Some r \<Longrightarrow> r \<in> set rs \<and> (\<forall>s\<in>set rs. k r \<le> k s)"
  by (induction rs arbitrary: r) (fastforce split: option.splits if_splits)+

lemma sql_first_desc_None [simp]: "sql_first_desc k rs = None \<longleftrightarrow> rs = []"
  by (cases rs) (auto split: option.splits)

lemma sql_first_desc_Some:
  "sql_first_desc k rs = Some r \<Longrightarrow> r \<in> set rs \<and> (\<forall>s\<in>set rs. k s \<le> k r)"
  by (induction rs arbitrary: r) (fastforce split: option.splits if_splits)+

lemma sql_first_asc_unique:
  assumes "r \<in> set rs" and "\<And>s. s \<in> set rs \<Longrightarrow> s \<noteq> r \<Longrightarrow> k r < k s"
  shows "sql_first_asc k rs = Some r"
proof (cases "sql_first_asc k rs")
  case None
  with assms(1) show ?thesis by auto
next
  case (Some s)
  with sql_first_asc_Some [OF Some] assms show ?thesis by force
qed

lemma sql_first_desc_unique:
  assumes "r \<in> set rs" and "\<And>s. s \<in> set rs \<Longrightarrow> s \<noteq> r \<Longrightarrow> k s < k r"
  shows "sql_first_desc k rs = Some r"
proof (cases "sql_first_desc k rs")
  case None
  with assms(1) show ?thesis by auto
next
  case (Some s)
  with sql_first_desc_Some [OF Some] assms show ?thesis by force
qed

lemma set_sql_order_asc [simp]: "set (sql_order_asc k rs) = set rs"
  by (simp add: sql_order_asc_def)

end
