(* ===== verification/Chetter_Strings.thy ===== *)
theory Chetter_Strings
  imports Chetter_Prelude
begin

text \<open>
  The functions of Go's \<^verbatim>\<open>strings\<close> and \<^verbatim>\<open>strconv\<close> packages that the server calls,
  as computable functions on byte strings, with the facts about substrings, trimming and
  replacement that the components rest on. \<^verbatim>\<open>strings.Contains\<close> is the library's
  \<^const>\<open>sublist\<close> relation (the arguments swapped), \<^verbatim>\<open>strings.HasPrefix\<close> its
  \<^const>\<open>prefix\<close>.
\<close>

section \<open>Substrings\<close>

fun contains :: "string \<Rightarrow> string \<Rightarrow> bool" where
  "contains [] sub = (sub = [])"
| "contains (c # cs) sub = (prefix sub (c # cs) \<or> contains cs sub)"

lemma contains_iff_sublist: "contains s sub \<longleftrightarrow> sublist sub s"
proof (induction s)
  case Nil
  show ?case by simp
next
  case (Cons c cs)
  then show ?case by (auto simp: sublist_Cons_right)
qed

lemma containsI: "contains (u @ sub @ v) sub"
  by (simp add: contains_iff_sublist)

lemma containsE:
  assumes "contains s sub"
  obtains u v where "s = u @ sub @ v"
  using assms by (auto simp: contains_iff_sublist sublist_def)

section \<open>Case and white space\<close>

text \<open>\<^verbatim>\<open>strings.ToLower\<close>, \<^verbatim>\<open>strings.ToUpper\<close> and \<^verbatim>\<open>unicode.IsSpace\<close> on ASCII.\<close>

definition lower_char :: "char \<Rightarrow> char" where
  "lower_char c = (let n = (of_char c :: nat) in
     if 65 \<le> n \<and> n \<le> 90 then char_of (n + 32) else c)"

definition upper_char :: "char \<Rightarrow> char" where
  "upper_char c = (let n = (of_char c :: nat) in
     if 97 \<le> n \<and> n \<le> 122 then char_of (n - 32) else c)"

definition to_lower :: "string \<Rightarrow> string" where
  "to_lower = map lower_char"

definition to_upper :: "string \<Rightarrow> string" where
  "to_upper = map upper_char"

definition is_space :: "char \<Rightarrow> bool" where
  "is_space c = (let n = (of_char c :: nat) in n = 32 \<or> (9 \<le> n \<and> n \<le> 13))"

definition trim_left :: "string \<Rightarrow> string" where
  "trim_left s = dropWhile is_space s"

definition trim_space :: "string \<Rightarrow> string" where
  "trim_space s = rev (dropWhile is_space (rev (dropWhile is_space s)))"

lemma lower_char_idem [simp]: "lower_char (lower_char c) = lower_char c"
proof -
  have "65 \<le> n \<and> n \<le> 90 \<Longrightarrow> n + 32 < 256" for n :: nat by simp
  then show ?thesis
    by (auto simp: lower_char_def Let_def of_char_of)
qed

lemma to_lower_idem [simp]: "to_lower (to_lower s) = to_lower s"
  by (simp add: to_lower_def comp_def)

lemma to_lower_append [simp]: "to_lower (s @ t) = to_lower s @ to_lower t"
  by (simp add: to_lower_def)

lemma to_lower_Nil [simp]: "to_lower [] = []"
  by (simp add: to_lower_def)

lemma to_lower_eq_Nil [simp]: "to_lower s = [] \<longleftrightarrow> s = []"
  by (simp add: to_lower_def)

lemma dropWhile_idem_hd: "dropWhile P (dropWhile P xs) = dropWhile P xs"
  by (induction xs) auto

lemma trim_space_Nil [simp]: "trim_space [] = []"
  by (simp add: trim_space_def)

lemma dropWhile_rev_keeps_hd:
  assumes "xs \<noteq> []" and "\<not> P (hd xs)"
  shows "dropWhile P (rev (dropWhile P (rev xs))) = rev (dropWhile P (rev xs))"
proof -
  from assms obtain y ys where xs: "xs = y # ys" and y: "\<not> P y" by (cases xs) auto
  have "dropWhile P (rev ys @ [y]) = dropWhile P (rev ys) @ [y]"
    using y by (induction "rev ys" arbitrary: ys) (auto simp: dropWhile_append3)
  with xs y show ?thesis by simp
qed

lemma trim_space_idem [simp]: "trim_space (trim_space s) = trim_space s"
proof (cases "dropWhile is_space s = []")
  case True
  then have "trim_space s = []" unfolding trim_space_def by (simp only: rev.simps dropWhile.simps)
  then show ?thesis by (simp only: trim_space_Nil)
next
  case False
  then have "\<not> is_space (hd (dropWhile is_space s))" by (rule hd_dropWhile)
  with False have "dropWhile is_space (trim_space s) = trim_space s"
    unfolding trim_space_def by (rule dropWhile_rev_keeps_hd)
  then show ?thesis
    by (simp add: trim_space_def dropWhile_idem_hd)
qed

text \<open>\<^verbatim>\<open>strings.EqualFold\<close> on ASCII.\<close>

definition equal_fold :: "string \<Rightarrow> string \<Rightarrow> bool" where
  "equal_fold s t = (to_lower s = to_lower t)"

abbreviation newline :: char where
  "newline \<equiv> char_of (10 :: nat)"

section \<open>Splitting and joining\<close>

text \<open>\<^verbatim>\<open>strings.Split\<close> on a one-byte separator; the result is never empty.\<close>

definition trim_prefix :: "string \<Rightarrow> string \<Rightarrow> string" where
  "trim_prefix p s = (if prefix p s then drop (length p) s else s)"

fun split_on :: "char \<Rightarrow> string \<Rightarrow> string list" where
  "split_on sep [] = [[]]"
| "split_on sep (c # cs) =
     (if c = sep then [] # split_on sep cs
      else (case split_on sep cs of [] \<Rightarrow> [[c]] | w # ws \<Rightarrow> (c # w) # ws))"

fun join_with :: "string \<Rightarrow> string list \<Rightarrow> string" where
  "join_with sep [] = []"
| "join_with sep [w] = w"
| "join_with sep (w # ws) = w @ sep @ join_with sep ws"

text \<open>\<^verbatim>\<open>strings.Fields\<close>: the maximal runs of non-space characters.\<close>

function strings_fields :: "string \<Rightarrow> string list" where
  "strings_fields s =
     (let t = dropWhile is_space s in
      if t = [] then []
      else takeWhile (\<lambda>c. \<not> is_space c) t # strings_fields (dropWhile (\<lambda>c. \<not> is_space c) t))"
  by pat_completeness auto
termination
proof (relation "measure length", simp, goal_cases)
  case (1 s x)
  let ?t = "dropWhile is_space s"
  have ne: "?t \<noteq> []" using 1 by (auto simp del: dropWhile_eq_Nil_conv)
  then have "\<not> is_space (hd ?t)" by (rule hd_dropWhile)
  then have "length (dropWhile (\<lambda>c. \<not> is_space c) ?t) < length ?t"
    using ne by (cases ?t) (auto intro: le_imp_less_Suc length_dropWhile_le)
  also have "\<dots> \<le> length s" by (rule length_dropWhile_le)
  finally show ?case using 1 by simp
qed

declare strings_fields.simps [simp del]

lemma split_on_not_Nil [simp]: "split_on sep s \<noteq> []"
  by (induction s) (auto split: list.splits)

lemma split_on_no_sep: "w \<in> set (split_on sep s) \<Longrightarrow> sep \<notin> set w"
proof (induction s arbitrary: w)
  case Nil
  then show ?case by simp
next
  case (Cons c cs)
  then show ?case by (cases "split_on sep cs") (auto split: if_splits)
qed

lemma join_split_on: "join_with [sep] (split_on sep s) = s"
proof (induction s)
  case Nil
  show ?case by simp
next
  case (Cons c cs)
  then show ?case
  proof (cases "split_on sep cs")
    case Nil
    then show ?thesis by simp
  next
    case (Cons w ws)
    with Cons.IH show ?thesis by (cases ws) auto
  qed
qed

section \<open>Replacement\<close>

text \<open>
  \<^verbatim>\<open>strings.ReplaceAll(s, old, new)\<close>: non-overlapping occurrences from the left; an empty
  \<open>old\<close> matches before every character and at the end.
\<close>

function replace_all :: "string \<Rightarrow> string \<Rightarrow> string \<Rightarrow> string" where
  "replace_all old new [] = (if old = [] then new else [])"
| "replace_all old new (c # cs) =
     (if old = [] then new @ c # replace_all old new cs
      else if prefix old (c # cs) then new @ replace_all old new (drop (length old) (c # cs))
      else c # replace_all old new cs)"
  by pat_completeness auto
termination
  by (relation "measure (\<lambda>(old, new, s). length s)") auto

lemma replace_all_absent: "old \<noteq> [] \<Longrightarrow> \<not> contains s old \<Longrightarrow> replace_all old new s = s"
  by (induction s) auto

section \<open>Decimal numbers\<close>

text \<open>\<^verbatim>\<open>fmt.Sprintf("%d", n)\<close> and \<^verbatim>\<open>strconv.Atoi\<close> on ASCII digits.\<close>

definition digit_char :: "nat \<Rightarrow> char" where
  "digit_char d = char_of (48 + d)"

fun show_nat :: "nat \<Rightarrow> string" where
  "show_nat n = (if n < 10 then [digit_char n] else show_nat (n div 10) @ [digit_char (n mod 10)])"

declare show_nat.simps [simp del]

definition show_int :: "int \<Rightarrow> string" where
  "show_int i = (if i < 0 then CHR ''-'' # show_nat (nat (- i)) else show_nat (nat i))"

definition is_digit :: "char \<Rightarrow> bool" where
  "is_digit c = (let n = (of_char c :: nat) in 48 \<le> n \<and> n \<le> 57)"

definition digit_val :: "char \<Rightarrow> nat" where
  "digit_val c = (of_char c :: nat) - 48"

definition read_nat :: "string \<Rightarrow> nat option" where
  "read_nat s = (if s \<noteq> [] \<and> list_all is_digit s
     then Some (foldl (\<lambda>acc c. acc * 10 + digit_val c) 0 s) else None)"

lemma show_nat_not_Nil [simp]: "show_nat n \<noteq> []"
  by (subst show_nat.simps) simp

lemma digit_char_props:
  assumes "d < 10"
  shows "is_digit (digit_char d)" and "digit_val (digit_char d) = d"
  using assms by (simp_all add: is_digit_def digit_val_def digit_char_def Let_def of_char_of)

lemma read_show_nat: "read_nat (show_nat n) = Some n"
proof (induction n rule: show_nat.induct)
  case (1 n)
  show ?case
  proof (cases "n < 10")
    case True
    then show ?thesis
      by (subst show_nat.simps) (simp add: read_nat_def digit_char_props)
  next
    case False
    with 1 have "read_nat (show_nat (n div 10)) = Some (n div 10)" by simp
    with False show ?thesis
      by (subst show_nat.simps)
         (auto simp: read_nat_def digit_char_props split: if_splits)
  qed
qed

lemma show_nat_inject [simp]: "show_nat m = show_nat n \<longleftrightarrow> m = n"
  by (metis option.inject read_show_nat)

section \<open>Quoting\<close>

text \<open>
  \<^verbatim>\<open>fmt.Sprintf("%q", s)\<close> on byte strings: quotes and backslashes are escaped, control
  characters by their short names or as two hexadecimal digits; every other byte stands for itself.
\<close>

definition hex_digit :: "nat \<Rightarrow> char" where
  "hex_digit d = (if d < 10 then char_of (48 + d) else char_of (87 + d))"

definition quote_char :: "char \<Rightarrow> string" where
  "quote_char c =
     (let n = (of_char c :: nat) in
      if n = 34 \<or> n = 92 then [char_of (92 :: nat), c]
      else if 7 \<le> n \<and> n \<le> 13 then [char_of (92 :: nat), ''abtnvfr'' ! (n - 7)]
      else if n < 32 \<or> n = 127 then [char_of (92 :: nat), CHR ''x'', hex_digit (n div 16), hex_digit (n mod 16)]
      else [c])"

definition go_quote :: "string \<Rightarrow> string" where
  "go_quote s = [char_of (34 :: nat)] @ concat (map quote_char s) @ [char_of (34 :: nat)]"

end
