(* ===== verification/Chetter_Store.thy ===== *)
theory Chetter_Store
  imports Chetter_Strings
begin

text \<open>
  The rows of the database (the structs of \<^verbatim>\<open>internal/repository/models.go\<close>), the messages
  the runner sends, and the record of all tables. Every column of the Go structs is a field;
  the fields of a table carry its prefix (\<open>t_\<close> tasks, \<open>s_\<close> agent sessions, \<open>p_\<close> user
  prompts, \<open>a_\<close> execution attempts, \<open>k_\<close> checkpoints, \<open>e_\<close> task events, \<open>r_\<close> runners,
  \<open>cb_\<close> event callbacks, \<open>d_\<close> callback deliveries, \<open>tr_\<close> trigger runs).
  \<^verbatim>\<open>sql.NullString\<close> and \<^verbatim>\<open>sql.NullTime\<close> are options. JSON columns hold the decoded
  value: a list of strings, an association list, or a set of repository references.
\<close>

section \<open>Repository references (store/repos.go)\<close>

record repo_ref =
  URL :: string
  Ref :: string
  Primary :: bool

section \<open>Rows\<close>

record task =
  t_id :: string
  t_status :: string
  t_prompt :: string
  t_git_url :: "string option"
  t_git_ref :: "string option"
  t_summary :: "string option"
  t_error :: "string option"
  t_created_at :: time
  t_updated_at :: time
  t_ended_at :: "time option"
  t_team_id :: "string option"
  t_trigger_name :: "string option"
  t_trigger_type :: "string option"
  t_max_attempts :: int
  t_search_text :: "string option"
  t_error_category :: "string option"
  t_submission_source :: string
  t_failure_category :: "string option"
  t_failure_message :: "string option"
  t_github_repo :: "string option"
  t_github_installation_id :: "int option"
  t_self_test_run_id :: "string option"
  t_self_test_profile :: "string option"
  t_self_test_check :: "string option"
  t_self_test_nonce :: "string option"
  t_callback_parent_task_id :: "string option"
  t_callback_depth :: int
  t_repos :: "repo_ref list option"

record agent_session =
  s_id :: string
  s_team_id :: "string option"
  s_status :: string
  s_resume_mode :: string
  s_pinned_runner_id :: "string option"
  s_pinned_runner_name :: "string option"
  s_checkpoint_id :: "string option"
  s_workspace_path :: "string option"
  s_container_name :: "string option"
  s_harness_session_id :: "string option"
  s_git_url :: "string option"
  s_git_ref :: "string option"
  s_agent_image :: "string option"
  s_agent :: "string option"
  s_provider_id :: "string option"
  s_model_id :: "string option"
  s_variant_id :: "string option"
  s_created_at :: time
  s_updated_at :: time
  s_paused_at :: "time option"
  s_expires_at :: "time option"
  s_pause_reason :: "string option"
  s_error :: "string option"
  s_search_text :: "string option"
  s_sequence :: int
  s_task_id :: string
  s_harness :: "string option"
  s_mcp_endpoints :: "string list option"
  s_commit_author_name :: "string option"
  s_commit_author_email :: "string option"
  s_git_identity_id :: "string option"
  s_skills :: "string list"
  s_env :: "(string \<times> string) list"
  s_summary :: "string option"
  s_started_at :: "time option"
  s_ended_at :: "time option"
  s_isolation_required :: bool
  s_repos :: "repo_ref list option"

record user_prompt =
  p_id :: string
  p_agent_session_id :: string
  p_task_id :: string
  p_status :: string
  p_prompt :: string
  p_summary :: "string option"
  p_error :: "string option"
  p_session_export :: "string option"
  p_created_at :: time
  p_updated_at :: time
  p_started_at :: "time option"
  p_ended_at :: "time option"
  p_sequence :: int
  p_source_user_prompt_id :: "string option"

record execution_attempt =
  a_id :: string
  a_user_prompt_id :: string
  a_sequence :: int
  a_status :: string
  a_runner_id :: "string option"
  a_required_runner_id :: "string option"
  a_claimed_at :: "time option"
  a_lease_expires_at :: "time option"
  a_started_at :: "time option"
  a_ended_at :: "time option"
  a_workspace_path :: "string option"
  a_container_name :: "string option"
  a_harness_execution_id :: "string option"
  a_summary :: "string option"
  a_error :: "string option"
  a_error_category :: "string option"
  a_session_export :: "string option"
  a_total_input_tokens :: int
  a_total_output_tokens :: int
  a_total_cache_read_tokens :: int
  a_total_cache_write_tokens :: int
  a_total_reasoning_tokens :: int
  a_cost_cents :: int
  a_created_at :: time
  a_updated_at :: time
  a_timeout_sec :: int
  a_last_event_at :: "time option"
  a_runner_image_digest :: "string option"
  a_claim_id :: string

record checkpoint =
  k_id :: string
  k_agent_session_id :: string
  k_runner_id :: string
  k_checkpoint_path :: string
  k_workspace_path :: string
  k_container_name :: "string option"
  k_runsc_version :: "string option"
  k_agent_image :: "string option"
  k_size_bytes :: int
  k_status :: string
  k_error :: "string option"
  k_created_at :: time
  k_updated_at :: time
  k_expires_at :: "time option"
  k_user_prompt_id :: "string option"

record runner =
  r_id :: string
  r_status :: string
  r_image_ref :: "string option"
  r_image_digest :: "string option"
  r_version :: "string option"
  r_max_concurrent :: int
  r_running_tasks :: int
  r_available_slots :: int
  r_total_started :: int
  r_total_completed :: int
  r_total_errors :: int
  r_started_at :: "time option"
  r_first_seen_at :: time
  r_last_seen_at :: time
  r_updated_at :: time
  r_relay_rejected :: int
  r_isolation_enabled :: bool

record runner_drain_request =
  dr_runner_id :: string
  dr_created_at :: time

record trigger_run =
  tr_id :: string
  tr_task_id :: string
  tr_status :: string
  tr_created_at :: time
  tr_team_id :: "string option"
  tr_trigger_id :: string
  tr_triggered_at :: time

section \<open>Runner messages (proto/runner/v1/runner.proto)\<close>

record token_usage =
  InputTokens :: int
  OutputTokens :: int
  CacheReadTokens :: int
  CacheWriteTokens :: int
  ReasoningTokens :: int
  CostCents :: int

record task_event_msg =
  TaskId :: string
  Status :: string
  Summary :: string
  Error :: string
  ProviderId :: string
  ModelId :: string
  VariantId :: string
  OpencodeSessionId :: string
  RunnerImageDigest :: string
  StartedAt :: string
  EndedAt :: string
  PayloadJson :: string
  SessionExport :: string
  CheckpointPath :: string
  WorkspacePath :: string
  ErrorCategory :: string
  TokenUsage :: "token_usage option"
  ExecutionId :: string
  AgentSessionId :: string
  UserPromptId :: string
  ClaimId :: string

text \<open>
  The payload column of \<^verbatim>\<open>task_events\<close>: JSON text passed through from the runner, the
  marshalled runner message, or the object \<^verbatim>\<open>mustMarshalJSON\<close> builds from a map.
\<close>

datatype jval = JStr string | JNum int | JTime "time option"

datatype payload =
    RawJson string
  | EventJson task_event_msg
  | JsonObject "(string \<times> jval) list"

record task_event =
  e_id :: string
  e_task_id :: string
  e_subject :: string
  e_status :: string
  e_payload :: payload
  e_created_at :: time
  e_agent_session_id :: "string option"
  e_user_prompt_id :: "string option"
  e_execution_attempt_id :: "string option"
  e_event_type :: string

section \<open>Event callbacks and their outbox\<close>

text \<open>The event handed to the callback dispatcher (\<^verbatim>\<open>TaskEventCallbackContext\<close>).\<close>

record callback_event =
  ev_id :: string
  ev_task_id :: string
  ev_team_id :: string
  ev_subject :: string
  ev_status :: string
  ev_event_type :: string
  ev_summary :: string
  ev_error :: string
  ev_error_category :: string
  ev_payload :: payload
  ev_created_at :: time

text \<open>
  The action configurations of a callback. The JSON column \<^verbatim>\<open>action_config\<close> holds what
  \<^verbatim>\<open>json.Unmarshal\<close> makes of it as each of the two structs: the value, or the message of
  the decoding error.
\<close>

record callbackCreateTaskConfig =
  ct_Prompt :: string
  ct_GitURL :: string
  ct_GitRef :: string
  ct_AgentImage :: string
  ct_Agent :: string
  ct_ProviderID :: string
  ct_ModelID :: string
  ct_VariantID :: string
  ct_Harness :: string
  ct_Skills :: "string list"
  ct_Env :: "(string \<times> string) list"
  ct_TimeoutSec :: int

record callbackWebhookConfig =
  wh_URL :: string
  wh_Method :: string
  wh_Headers :: "(string \<times> string) list"
  wh_Template :: string
  wh_Text :: string

record action_config =
  as_webhook :: "string + callbackWebhookConfig"
  as_create_task :: "string + callbackCreateTaskConfig"

text \<open>
  The text in the payload column of a delivery: a rendered template, the JSON object of a Slack
  message, the JSON object of the event, or the snapshot of a \<^verbatim>\<open>create_task\<close> callback
  (\<^verbatim>\<open>callbackCreateTaskDelivery\<close>).
\<close>

datatype delivery_body =
    RawBody string
  | SlackBody string
  | EventBody callback_event
  | Snapshot string callbackCreateTaskConfig callback_event

record event_callback =
  cb_id :: string
  cb_team_id :: "string option"
  cb_name :: string
  cb_event_type :: string
  cb_action_type :: string
  cb_action_config :: action_config
  cb_enabled :: bool
  cb_created_at :: time
  cb_updated_at :: time

record callback_delivery =
  d_id :: string
  d_callback_id :: string
  d_event_id :: string
  d_task_id :: "string option"
  d_team_id :: "string option"
  d_event_type :: string
  d_endpoint_url :: string
  d_method :: string
  d_headers :: "(string \<times> string) list option"
  d_payload :: delivery_body
  d_status :: string
  d_attempts :: int
  d_max_attempts :: int
  d_error :: "string option"
  d_lease_expires_at :: "time option"
  d_next_attempt_at :: "time option"
  d_processed_at :: "time option"
  d_created_at :: time
  d_updated_at :: time
  d_action_type :: string
  d_child_task_id :: "string option"

section \<open>The database\<close>

record db =
  tasks :: "task list"
  agent_sessions :: "agent_session list"
  user_prompts :: "user_prompt list"
  execution_attempts :: "execution_attempt list"
  checkpoints :: "checkpoint list"
  task_events :: "task_event list"
  runners :: "runner list"
  runner_drain_requests :: "runner_drain_request list"
  trigger_runs :: "trigger_run list"
  event_callbacks :: "event_callback list"
  callback_deliveries :: "callback_delivery list"
  claim_notify_counter :: int

definition empty_db :: db where
  "empty_db = \<lparr>tasks = [], agent_sessions = [], user_prompts = [], execution_attempts = [],
     checkpoints = [], task_events = [], runners = [], runner_drain_requests = [],
     trigger_runs = [], event_callbacks = [], callback_deliveries = [], claim_notify_counter = 0\<rparr>"

text \<open>The closure type of a transaction: the new database and a value, or an error and a rollback.\<close>

type_synonym 'a tx = "db \<Rightarrow> error + 'a \<times> db"

text \<open>
  Go's \<^verbatim>\<open>int32(x)\<close> conversion of an \<^verbatim>\<open>int\<close>: the low 32 bits, read as two's complement.
\<close>

definition to_int32 :: "int \<Rightarrow> int" where
  "to_int32 x = (x + 2 ^ 31) mod 2 ^ 32 - 2 ^ 31"

lemma to_int32_id: "- (2 ^ 31) \<le> x \<Longrightarrow> x < 2 ^ 31 \<Longrightarrow> to_int32 x = x"
  by (simp add: to_int32_def)

lemma to_int32_range: "- (2 ^ 31) \<le> to_int32 x \<and> to_int32 x < 2 ^ 31"
  using pos_mod_bound [of "2 ^ 32" "x + 2 ^ 31"] pos_mod_sign [of "2 ^ 32" "x + 2 ^ 31"]
  by (simp add: to_int32_def)

section \<open>Well-formed databases\<close>

text \<open>
  The primary keys of the tables, the unique sequence numbers of the hierarchy, and the references
  of the task hierarchy: an attempt belongs to a prompt, a prompt to a session and a task, and the
  session to the same task; and the sessions of a task agree on whether they require isolation.
\<close>

definition keys_ok :: "db \<Rightarrow> bool" where
  "keys_ok d \<longleftrightarrow> distinct (map t_id (tasks d)) \<and> distinct (map s_id (agent_sessions d)) \<and>
     distinct (map p_id (user_prompts d)) \<and> distinct (map a_id (execution_attempts d)) \<and>
     distinct (map (\<lambda>s. (s_task_id s, s_sequence s)) (agent_sessions d)) \<and>
     distinct (map (\<lambda>p. (p_agent_session_id p, p_sequence p)) (user_prompts d)) \<and>
     distinct (map (\<lambda>a. (a_user_prompt_id a, a_sequence a)) (execution_attempts d)) \<and>
     distinct (map r_id (runners d))"

definition refs_ok :: "db \<Rightarrow> bool" where
  "refs_ok d \<longleftrightarrow>
     (\<forall>a\<in>set (execution_attempts d). \<exists>p\<in>set (user_prompts d). p_id p = a_user_prompt_id a) \<and>
     (\<forall>p\<in>set (user_prompts d). \<exists>t\<in>set (tasks d). t_id t = p_task_id p) \<and>
     (\<forall>p\<in>set (user_prompts d). \<exists>s\<in>set (agent_sessions d).
        s_id s = p_agent_session_id p \<and> s_task_id s = p_task_id p) \<and>
     (\<forall>s\<in>set (agent_sessions d). \<exists>t\<in>set (tasks d). t_id t = s_task_id s)"

definition isolation_ok :: "db \<Rightarrow> bool" where
  "isolation_ok d \<longleftrightarrow>
     (\<forall>s\<in>set (agent_sessions d). \<forall>s'\<in>set (agent_sessions d).
        s_task_id s = s_task_id s' \<longrightarrow> s_isolation_required s = s_isolation_required s')"

definition wf_db :: "db \<Rightarrow> bool" where
  "wf_db d \<longleftrightarrow> keys_ok d \<and> refs_ok d \<and> isolation_ok d"

lemma wf_empty_db: "wf_db empty_db"
  by (simp add: wf_db_def keys_ok_def refs_ok_def isolation_ok_def empty_db_def)

section \<open>The columns no statement updates\<close>

text \<open>
  Keys, foreign keys, sequence numbers and the columns that are fixed when a row is inserted.
  The lists of these tuples are the shape of a database: an \<^verbatim>\<open>UPDATE\<close> keeps it, and the
  well-formedness of a database depends on nothing else.
\<close>

definition t_fixed :: "task \<Rightarrow> string \<times> int \<times> string option \<times> time" where
  "t_fixed t = (t_id t, t_max_attempts t, t_team_id t, t_created_at t)"

definition s_fixed :: "agent_session \<Rightarrow> string \<times> string \<times> int \<times> bool \<times> string" where
  "s_fixed s = (s_id s, s_task_id s, s_sequence s, s_isolation_required s, s_resume_mode s)"

definition p_fixed :: "user_prompt \<Rightarrow> string \<times> string \<times> string \<times> int \<times> string" where
  "p_fixed p = (p_id p, p_agent_session_id p, p_task_id p, p_sequence p, p_prompt p)"

definition a_fixed :: "execution_attempt \<Rightarrow> string \<times> string \<times> int \<times> string option \<times> time" where
  "a_fixed a = (a_id a, a_user_prompt_id a, a_sequence a, a_required_runner_id a, a_created_at a)"

lemmas fixed_defs = t_fixed_def s_fixed_def p_fixed_def a_fixed_def

definition same_shape :: "db \<Rightarrow> db \<Rightarrow> bool" where
  "same_shape d d' \<longleftrightarrow>
     map t_fixed (tasks d') = map t_fixed (tasks d) \<and>
     map s_fixed (agent_sessions d') = map s_fixed (agent_sessions d) \<and>
     map p_fixed (user_prompts d') = map p_fixed (user_prompts d) \<and>
     map a_fixed (execution_attempts d') = map a_fixed (execution_attempts d) \<and>
     map r_id (runners d') = map r_id (runners d)"

lemma same_shape_refl [simp]: "same_shape d d"
  by (simp add: same_shape_def)

lemma same_shape_trans: "same_shape d d1 \<Longrightarrow> same_shape d1 d2 \<Longrightarrow> same_shape d d2"
  by (simp add: same_shape_def)

lemma map_fixed_via: "map f xs = map f ys \<Longrightarrow> (\<And>x. g x = h (f x)) \<Longrightarrow> map g xs = map g ys"
proof -
  assume "map f xs = map f ys" and g: "\<And>x. g x = h (f x)"
  then have "map h (map f xs) = map h (map f ys)" by simp
  moreover from g have "g = h \<circ> f" by auto
  ultimately show ?thesis by simp
qed

lemma same_shape_maps:
  assumes "same_shape d d'"
  shows "map t_id (tasks d') = map t_id (tasks d)"
    and "map s_id (agent_sessions d') = map s_id (agent_sessions d)"
    and "map (\<lambda>s. (s_task_id s, s_sequence s)) (agent_sessions d') =
         map (\<lambda>s. (s_task_id s, s_sequence s)) (agent_sessions d)"
    and "map (\<lambda>s. (s_id s, s_task_id s)) (agent_sessions d') =
         map (\<lambda>s. (s_id s, s_task_id s)) (agent_sessions d)"
    and "map s_task_id (agent_sessions d') = map s_task_id (agent_sessions d)"
    and "map (\<lambda>s. (s_task_id s, s_isolation_required s)) (agent_sessions d') =
         map (\<lambda>s. (s_task_id s, s_isolation_required s)) (agent_sessions d)"
    and "map p_id (user_prompts d') = map p_id (user_prompts d)"
    and "map p_task_id (user_prompts d') = map p_task_id (user_prompts d)"
    and "map (\<lambda>p. (p_agent_session_id p, p_sequence p)) (user_prompts d') =
         map (\<lambda>p. (p_agent_session_id p, p_sequence p)) (user_prompts d)"
    and "map (\<lambda>p. (p_agent_session_id p, p_task_id p)) (user_prompts d') =
         map (\<lambda>p. (p_agent_session_id p, p_task_id p)) (user_prompts d)"
    and "map a_id (execution_attempts d') = map a_id (execution_attempts d)"
    and "map a_user_prompt_id (execution_attempts d') = map a_user_prompt_id (execution_attempts d)"
    and "map (\<lambda>a. (a_user_prompt_id a, a_sequence a)) (execution_attempts d') =
         map (\<lambda>a. (a_user_prompt_id a, a_sequence a)) (execution_attempts d)"
proof -
  note sh = assms [unfolded same_shape_def]
  note T = map_fixed_via [where f = t_fixed, OF conjunct1 [OF sh]]
    and S = map_fixed_via [where f = s_fixed, OF sh [THEN conjunct2, THEN conjunct1]]
    and P = map_fixed_via [where f = p_fixed, OF sh [THEN conjunct2, THEN conjunct2, THEN conjunct1]]
    and A = map_fixed_via [where f = a_fixed,
      OF sh [THEN conjunct2, THEN conjunct2, THEN conjunct2, THEN conjunct1]]
  show "map t_id (tasks d') = map t_id (tasks d)"
    by (rule T [where h = fst]) (simp add: fixed_defs)
  show "map s_id (agent_sessions d') = map s_id (agent_sessions d)"
    by (rule S [where h = fst]) (simp add: fixed_defs)
  show "map (\<lambda>s. (s_task_id s, s_sequence s)) (agent_sessions d') =
         map (\<lambda>s. (s_task_id s, s_sequence s)) (agent_sessions d)"
    by (rule S [where h = "\<lambda>(i, t, n, _). (t, n)"]) (simp add: fixed_defs)
  show "map (\<lambda>s. (s_id s, s_task_id s)) (agent_sessions d') =
         map (\<lambda>s. (s_id s, s_task_id s)) (agent_sessions d)"
    by (rule S [where h = "\<lambda>(i, t, n, _). (i, t)"]) (simp add: fixed_defs)
  show "map s_task_id (agent_sessions d') = map s_task_id (agent_sessions d)"
    by (rule S [where h = "\<lambda>(i, t, n, _). t"]) (simp add: fixed_defs)
  show "map (\<lambda>s. (s_task_id s, s_isolation_required s)) (agent_sessions d') =
         map (\<lambda>s. (s_task_id s, s_isolation_required s)) (agent_sessions d)"
    by (rule S [where h = "\<lambda>(i, t, n, iso_req, _). (t, iso_req)"]) (simp add: fixed_defs)
  show "map p_id (user_prompts d') = map p_id (user_prompts d)"
    by (rule P [where h = fst]) (simp add: fixed_defs)
  show "map p_task_id (user_prompts d') = map p_task_id (user_prompts d)"
    by (rule P [where h = "\<lambda>(i, s, t, n, _). t"]) (simp add: fixed_defs)
  show "map (\<lambda>p. (p_agent_session_id p, p_sequence p)) (user_prompts d') =
         map (\<lambda>p. (p_agent_session_id p, p_sequence p)) (user_prompts d)"
    by (rule P [where h = "\<lambda>(i, s, t, n, _). (s, n)"]) (simp add: fixed_defs)
  show "map (\<lambda>p. (p_agent_session_id p, p_task_id p)) (user_prompts d') =
         map (\<lambda>p. (p_agent_session_id p, p_task_id p)) (user_prompts d)"
    by (rule P [where h = "\<lambda>(i, s, t, n, _). (s, t)"]) (simp add: fixed_defs)
  show "map a_id (execution_attempts d') = map a_id (execution_attempts d)"
    by (rule A [where h = fst]) (simp add: fixed_defs)
  show "map a_user_prompt_id (execution_attempts d') = map a_user_prompt_id (execution_attempts d)"
    by (rule A [where h = "\<lambda>(i, p, n, _). p"]) (simp add: fixed_defs)
  show "map (\<lambda>a. (a_user_prompt_id a, a_sequence a)) (execution_attempts d') =
         map (\<lambda>a. (a_user_prompt_id a, a_sequence a)) (execution_attempts d)"
    by (rule A [where h = "\<lambda>(i, p, n, _). (p, n)"]) (simp add: fixed_defs)
qed

text \<open>The foreign keys as inclusions between the key lists.\<close>

lemma refs_ok_lists:
  "refs_ok d \<longleftrightarrow>
     set (map a_user_prompt_id (execution_attempts d)) \<subseteq> set (map p_id (user_prompts d)) \<and>
     set (map p_task_id (user_prompts d)) \<subseteq> set (map t_id (tasks d)) \<and>
     set (map (\<lambda>p. (p_agent_session_id p, p_task_id p)) (user_prompts d)) \<subseteq>
       set (map (\<lambda>s. (s_id s, s_task_id s)) (agent_sessions d)) \<and>
     set (map s_task_id (agent_sessions d)) \<subseteq> set (map t_id (tasks d))"
  unfolding refs_ok_def by (auto simp: image_iff subset_iff) (metis+)

lemma isolation_ok_lists:
  "isolation_ok d \<longleftrightarrow>
     single_valued (set (map (\<lambda>s. (s_task_id s, s_isolation_required s)) (agent_sessions d)))"
  unfolding isolation_ok_def single_valued_def by auto

lemma same_shape_wf: "same_shape d d' \<Longrightarrow> wf_db d' = wf_db d"
  using same_shape_maps [of d d']
  by (simp only: wf_db_def keys_ok_def refs_ok_lists isolation_ok_lists) (simp add: same_shape_def)

text \<open>The other tables, and the runners but for their keys, do not matter.\<close>

lemma wf_db_same_tables:
  "tasks d' = tasks d \<Longrightarrow> agent_sessions d' = agent_sessions d \<Longrightarrow> user_prompts d' = user_prompts d \<Longrightarrow>
   execution_attempts d' = execution_attempts d \<Longrightarrow> map r_id (runners d') = map r_id (runners d) \<Longrightarrow>
   wf_db d' = wf_db d"
  by (rule same_shape_wf) (simp add: same_shape_def)

end
