(* ===== verification/Chetter_Examples.thy ===== *)
theory Chetter_Examples
  imports Chetter_Store
begin

text \<open>
  A small deployment, the input on which the theorems of the development are tried out: one task
  with its session, its prompt and its pending attempt, one runner, and one event callback.
\<close>

definition ex_task :: task where
  "ex_task = \<lparr>t_id = ''t1'', t_status = ''pending'', t_prompt = ''p'', t_git_url = None,
     t_git_ref = None, t_summary = None, t_error = None, t_created_at = 0, t_updated_at = 0,
     t_ended_at = None, t_team_id = None, t_trigger_name = None, t_trigger_type = None,
     t_max_attempts = 3, t_search_text = None, t_error_category = None,
     t_submission_source = ''manual'', t_failure_category = None, t_failure_message = None,
     t_github_repo = None, t_github_installation_id = None, t_self_test_run_id = None,
     t_self_test_profile = None, t_self_test_check = None, t_self_test_nonce = None,
     t_callback_parent_task_id = None, t_callback_depth = 0, t_repos = None\<rparr>"

definition ex_session :: agent_session where
  "ex_session = \<lparr>s_id = ''s1'', s_team_id = None, s_status = ''running'', s_resume_mode = ''none'',
     s_pinned_runner_id = None, s_pinned_runner_name = None, s_checkpoint_id = None,
     s_workspace_path = None, s_container_name = None, s_harness_session_id = None,
     s_git_url = None, s_git_ref = None, s_agent_image = None, s_agent = None, s_provider_id = None,
     s_model_id = None, s_variant_id = None, s_created_at = 0, s_updated_at = 0, s_paused_at = None,
     s_expires_at = None, s_pause_reason = None, s_error = None, s_search_text = None,
     s_sequence = 1, s_task_id = ''t1'', s_harness = None, s_mcp_endpoints = None,
     s_commit_author_name = None, s_commit_author_email = None, s_git_identity_id = None,
     s_skills = [], s_env = [], s_summary = None, s_started_at = Some 0, s_ended_at = None,
     s_isolation_required = False, s_repos = None\<rparr>"

definition ex_prompt :: user_prompt where
  "ex_prompt = \<lparr>p_id = ''p1'', p_agent_session_id = ''s1'', p_task_id = ''t1'',
     p_status = ''pending'', p_prompt = ''p'', p_summary = None, p_error = None,
     p_session_export = None, p_created_at = 0, p_updated_at = 0, p_started_at = None,
     p_ended_at = None, p_sequence = 1, p_source_user_prompt_id = None\<rparr>"

definition ex_attempt :: execution_attempt where
  "ex_attempt = \<lparr>a_id = ''x1'', a_user_prompt_id = ''p1'', a_sequence = 1, a_status = ''pending'',
     a_runner_id = None, a_required_runner_id = None, a_claimed_at = None,
     a_lease_expires_at = None, a_started_at = None, a_ended_at = None, a_workspace_path = None,
     a_container_name = None, a_harness_execution_id = None, a_summary = None, a_error = None,
     a_error_category = None, a_session_export = None, a_total_input_tokens = 0,
     a_total_output_tokens = 0, a_total_cache_read_tokens = 0, a_total_cache_write_tokens = 0,
     a_total_reasoning_tokens = 0, a_cost_cents = 0, a_created_at = 0, a_updated_at = 0,
     a_timeout_sec = 600, a_last_event_at = None, a_runner_image_digest = None, a_claim_id = []\<rparr>"

definition ex_runner :: runner where
  "ex_runner = \<lparr>r_id = ''r1'', r_status = ''idle'', r_image_ref = None, r_image_digest = None,
     r_version = None, r_max_concurrent = 1, r_running_tasks = 0, r_available_slots = 1,
     r_total_started = 0, r_total_completed = 0, r_total_errors = 0, r_started_at = None,
     r_first_seen_at = 0, r_last_seen_at = 0, r_updated_at = 0, r_relay_rejected = 0,
     r_isolation_enabled = False\<rparr>"

definition ex_callback :: event_callback where
  "ex_callback = \<lparr>cb_id = ''c1'', cb_team_id = None, cb_name = ''notify'',
     cb_event_type = ''task.claimed'', cb_action_type = ''webhook'',
     cb_action_config = \<lparr>as_webhook = Inr \<lparr>wh_URL = ''https://h'', wh_Method = [], wh_Headers = [],
       wh_Template = [], wh_Text = []\<rparr>, as_create_task = Inl ''json''\<rparr>,
     cb_enabled = True, cb_created_at = 0, cb_updated_at = 0\<rparr>"

definition ex_db :: db where
  "ex_db = empty_db\<lparr>tasks := [ex_task], agent_sessions := [ex_session], user_prompts := [ex_prompt],
     execution_attempts := [ex_attempt], runners := [ex_runner], event_callbacks := [ex_callback]\<rparr>"

text \<open>The same task while the runner executes it under the claim \<open>c\<close>, with a lease until 100 s.\<close>

definition ex_running_attempt :: execution_attempt where
  "ex_running_attempt = ex_attempt\<lparr>a_status := ''running'', a_runner_id := Some ''r1'',
     a_claim_id := ''c'', a_claimed_at := Some 0, a_lease_expires_at := Some (100 * second),
     a_started_at := Some 0, a_last_event_at := Some 0\<rparr>"

definition ex_running_db :: db where
  "ex_running_db = ex_db\<lparr>tasks := [ex_task\<lparr>t_status := ''running''\<rparr>],
     user_prompts := [ex_prompt\<lparr>p_status := ''running''\<rparr>],
     execution_attempts := [ex_running_attempt]\<rparr>"

lemmas ex_row_defs = ex_task_def ex_session_def ex_prompt_def ex_attempt_def ex_runner_def
  ex_callback_def ex_running_attempt_def

lemmas ex_defs = ex_row_defs ex_db_def ex_running_db_def empty_db_def

lemma ex_db_wf: "wf_db ex_db" "wf_db ex_running_db"
  by (simp_all add: wf_db_def keys_ok_def refs_ok_def isolation_ok_def ex_defs)

end
