(* ===== verification/Chetter_Attempt_Queries.thy ===== *)
theory Chetter_Attempt_Queries
  imports Chetter_Store
begin

text \<open>
  The statements of \<^verbatim>\<open>internal/repository/execution_attempts.sql.go\<close> (the MySQL/TiDB text),
  one definition per statement: an \<^verbatim>\<open>:execrows\<close> statement returns the database and the rows
  affected, an \<^verbatim>\<open>INSERT\<close> fails on a duplicate key, a \<^verbatim>\<open>:one\<close> query returns
  \<^const>\<open>SqlNoRows\<close> when nothing matches. Parameters come in the order of the statement.
  \<^verbatim>\<open>NOW()\<close> and \<^verbatim>\<open>CURRENT_TIMESTAMP\<close> are the parameter \<open>dbnow\<close>, the clock of the
  database, which need not agree with the server's clock.
\<close>

section \<open>Joins\<close>

definition on_task :: "db \<Rightarrow> string \<Rightarrow> execution_attempt \<Rightarrow> bool" where
  "on_task d tid a = list_ex (\<lambda>p. p_id p = a_user_prompt_id a \<and> p_task_id p = tid) (user_prompts d)"

definition attempt_joins :: "db \<Rightarrow> (execution_attempt \<times> user_prompt) list" where
  "attempt_joins d = [(a, p). a \<leftarrow> execution_attempts d, p \<leftarrow> user_prompts d, p_id p = a_user_prompt_id a]"

definition attempt_task_joins :: "db \<Rightarrow> (execution_attempt \<times> user_prompt \<times> task) list" where
  "attempt_task_joins d =
     [(a, p, t). (a, p) \<leftarrow> attempt_joins d, t \<leftarrow> tasks d, t_id t = p_task_id p]"

definition upd_attempts ::
  "(execution_attempt \<Rightarrow> bool) \<Rightarrow> (execution_attempt \<Rightarrow> execution_attempt) \<Rightarrow> db \<Rightarrow> db \<times> nat" where
  "upd_attempts w f d =
     (d\<lparr>execution_attempts := sql_update w f (execution_attempts d)\<rparr>,
      sql_affected w f (execution_attempts d))"

section \<open>Queries\<close>

definition GetExecutionAttemptByID :: "string \<Rightarrow> db \<Rightarrow> error + execution_attempt" where
  "GetExecutionAttemptByID i d = sql_one (\<lambda>a. a_id a = i) (execution_attempts d)"

definition CountExecutionAttemptsByTask :: "string \<Rightarrow> db \<Rightarrow> int" where
  "CountExecutionAttemptsByTask tid d =
     int (length (filter (\<lambda>(a, p). p_task_id p = tid) (attempt_joins d)))"

record execution_context =
  x_execution_attempt_id :: string
  x_user_prompt_id :: string
  x_agent_session_id :: string
  x_task_id :: string

definition GetExecutionAttemptContext :: "string \<Rightarrow> db \<Rightarrow> error + execution_context" where
  "GetExecutionAttemptContext i d =
     bind_res (sql_one (\<lambda>(a, p). a_id a = i) (attempt_joins d))
       (\<lambda>(a, p). Inr \<lparr>x_execution_attempt_id = a_id a, x_user_prompt_id = p_id p,
          x_agent_session_id = p_agent_session_id p, x_task_id = p_task_id p\<rparr>)"

text \<open>
  \<^verbatim>\<open>GetClaimableExecutionAttemptForUpdate\<close>. \<open>locked\<close> holds of the attempts that
  concurrent transactions have locked, which \<^verbatim>\<open>SKIP LOCKED\<close> passes over.
\<close>

definition claimable :: "string \<Rightarrow> bool \<Rightarrow> db \<Rightarrow> execution_attempt \<times> user_prompt \<times> task \<Rightarrow> bool" where
  "claimable runner isolation d = (\<lambda>(a, p, t).
     a_status a = ''pending'' \<and> t_status t = ''pending'' \<and>
     (a_required_runner_id a = None \<or> a_required_runner_id a = Some [] \<or>
      a_required_runner_id a = Some runner) \<and>
     (\<not> list_ex (\<lambda>s. s_id s = p_agent_session_id p \<and> s_isolation_required s) (agent_sessions d) \<or>
      isolation))"

definition GetClaimableExecutionAttemptForUpdate ::
  "(execution_attempt \<Rightarrow> bool) \<Rightarrow> string \<Rightarrow> bool \<Rightarrow> db \<Rightarrow> error + execution_attempt \<times> user_prompt \<times> task" where
  "GetClaimableExecutionAttemptForUpdate locked runner isolation d =
     from_option SqlNoRows (sql_first_asc (\<lambda>(a, p, t). a_created_at a)
       (filter (\<lambda>j. claimable runner isolation d j \<and> \<not> locked (fst j)) (attempt_task_joins d)))"

definition ListExecutionAttemptsByPrompt :: "string \<Rightarrow> db \<Rightarrow> execution_attempt list" where
  "ListExecutionAttemptsByPrompt pid d =
     sql_order_asc (\<lambda>a. (a_sequence a, a_created_at a))
       (filter (\<lambda>a. a_user_prompt_id a = pid) (execution_attempts d))"

record heartbeat_row =
  h_execution_attempt_id :: string
  h_claim_id :: string
  h_status :: string
  h_error :: "string option"
  h_task_id :: string
  h_agent_session_id :: string
  h_user_prompt_id :: string

definition ListExecutionAttemptsForHeartbeat :: "string list \<Rightarrow> string \<Rightarrow> db \<Rightarrow> heartbeat_row list" where
  "ListExecutionAttemptsForHeartbeat ids runner d =
     map (\<lambda>(a, p). \<lparr>h_execution_attempt_id = a_id a, h_claim_id = a_claim_id a,
            h_status = a_status a, h_error = a_error a, h_task_id = p_task_id p,
            h_agent_session_id = p_agent_session_id p, h_user_prompt_id = p_id p\<rparr>)
       (filter (\<lambda>(a, p). a_id a \<in> set ids \<and> a_runner_id a = Some runner) (attempt_joins d))"

definition lease_expired :: "time \<Rightarrow> execution_attempt \<Rightarrow> bool" where
  "lease_expired before a =
     (case a_lease_expires_at a of None \<Rightarrow> False | Some l \<Rightarrow> l < before)"

definition lease_live :: "time \<Rightarrow> execution_attempt \<Rightarrow> bool" where
  "lease_live dbnow a = (case a_lease_expires_at a of None \<Rightarrow> False | Some l \<Rightarrow> dbnow < l)"

definition ListReclaimableExecutionAttemptsForUpdate ::
  "time \<Rightarrow> db \<Rightarrow> (execution_attempt \<times> user_prompt \<times> task) list" where
  "ListReclaimableExecutionAttemptsForUpdate before d =
     sql_order_asc (\<lambda>(a, p, t). case a_lease_expires_at a of None \<Rightarrow> 0 | Some l \<Rightarrow> l)
       (filter (\<lambda>(a, p, t). a_status a = ''running'' \<and> lease_expired before a) (attempt_task_joins d))"

definition ValidateRunnerExecutionClaim ::
  "time \<Rightarrow> string \<Rightarrow> string \<Rightarrow> string \<Rightarrow> string \<Rightarrow> db \<Rightarrow> error + execution_attempt \<times> user_prompt" where
  "ValidateRunnerExecutionClaim dbnow execution_id tid runner claim d =
     sql_one (\<lambda>(a, p). a_id a = execution_id \<and> p_task_id p = tid \<and> a_runner_id a = Some runner \<and>
                a_claim_id a = claim \<and> a_status a = ''running'' \<and> lease_live dbnow a)
       (attempt_joins d)"

definition GetExecutionAttemptUsageByTask :: "string \<Rightarrow> db \<Rightarrow> token_usage" where
  "GetExecutionAttemptUsageByTask tid d =
     (let as = map fst (filter (\<lambda>(a, p). p_task_id p = tid) (attempt_joins d)) in
      \<lparr>InputTokens = sum_list (map a_total_input_tokens as),
       OutputTokens = sum_list (map a_total_output_tokens as),
       CacheReadTokens = sum_list (map a_total_cache_read_tokens as),
       CacheWriteTokens = sum_list (map a_total_cache_write_tokens as),
       ReasoningTokens = sum_list (map a_total_reasoning_tokens as),
       CostCents = sum_list (map a_cost_cents as)\<rparr>)"

section \<open>Inserts\<close>

definition InsertPendingExecutionAttempt ::
  "string \<Rightarrow> string \<Rightarrow> int \<Rightarrow> string option \<Rightarrow> int \<Rightarrow> time \<Rightarrow> time \<Rightarrow> db \<Rightarrow> error + db" where
  "InsertPendingExecutionAttempt i pid sequence required timeout created updated d =
     bind_res (sql_insert2 a_id (\<lambda>x. (a_user_prompt_id x, a_sequence x))
       \<lparr>a_id = i, a_user_prompt_id = pid, a_sequence = sequence, a_status = ''pending'',
        a_runner_id = None, a_required_runner_id = required, a_claimed_at = None,
        a_lease_expires_at = None, a_started_at = None, a_ended_at = None,
        a_workspace_path = None, a_container_name = None, a_harness_execution_id = None,
        a_summary = None, a_error = None, a_error_category = None, a_session_export = None,
        a_total_input_tokens = 0, a_total_output_tokens = 0, a_total_cache_read_tokens = 0,
        a_total_cache_write_tokens = 0, a_total_reasoning_tokens = 0, a_cost_cents = 0,
        a_created_at = created, a_updated_at = updated, a_timeout_sec = timeout,
        a_last_event_at = None, a_runner_image_digest = None, a_claim_id = []\<rparr>
       (execution_attempts d))
     (\<lambda>as. Inr (d\<lparr>execution_attempts := as\<rparr>))"

section \<open>Updates\<close>

definition active_attempt :: "execution_attempt \<Rightarrow> bool" where
  "active_attempt a = (a_status a = ''pending'' \<or> a_status a = ''running'')"

definition CancelExecutionAttemptsByTask ::
  "string option \<Rightarrow> time option \<Rightarrow> time \<Rightarrow> string \<Rightarrow> db \<Rightarrow> db \<times> nat" where
  "CancelExecutionAttemptsByTask err ended updated tid d =
     upd_attempts (\<lambda>a. on_task d tid a \<and> active_attempt a)
       (\<lambda>a. a\<lparr>a_status := ''cancelled'', a_error := err, a_error_category := Some ''cancelled'',
              a_lease_expires_at := None, a_ended_at := coalesce (a_ended_at a) ended,
              a_updated_at := updated\<rparr>) d"

definition CancelPendingExecutionAttempts ::
  "string option \<Rightarrow> time option \<Rightarrow> time \<Rightarrow> db \<Rightarrow> db \<times> nat" where
  "CancelPendingExecutionAttempts err ended updated d =
     upd_attempts (\<lambda>a. a_status a = ''pending'')
       (\<lambda>a. a\<lparr>a_status := ''cancelled'', a_error := err, a_error_category := Some ''cancelled'',
              a_lease_expires_at := None, a_ended_at := coalesce (a_ended_at a) ended,
              a_updated_at := updated\<rparr>) d"

definition ExtendActiveExecutionAttemptTimeout :: "int \<Rightarrow> time \<Rightarrow> string \<Rightarrow> db \<Rightarrow> db \<times> nat" where
  "ExtendActiveExecutionAttemptTimeout extension updated tid d =
     upd_attempts (\<lambda>a. on_task d tid a \<and> active_attempt a)
       (\<lambda>a. a\<lparr>a_timeout_sec := a_timeout_sec a + extension, a_updated_at := updated\<rparr>) d"

definition FailAllExpiredExecutionAttempts :: "time option \<Rightarrow> time \<Rightarrow> time \<Rightarrow> db \<Rightarrow> db \<times> nat" where
  "FailAllExpiredExecutionAttempts ended updated before d =
     upd_attempts (\<lambda>a. a_status a = ''running'' \<and> lease_expired before a)
       (\<lambda>a. a\<lparr>a_status := ''error'',
              a_error := Some ''runner lease expired; auto-recovery disabled'',
              a_error_category := Some ''timeout'', a_ended_at := ended, a_updated_at := updated\<rparr>) d"

definition exhausted :: "db \<Rightarrow> execution_attempt \<Rightarrow> bool" where
  "exhausted d a = list_ex (\<lambda>(a', p, t). a_id a' = a_id a \<and>
     t_max_attempts t \<le> CountExecutionAttemptsByTask (t_id t) d) (attempt_task_joins d)"

definition task_of_attempt :: "db \<Rightarrow> execution_attempt \<Rightarrow> string option" where
  "task_of_attempt d a =
     map_option p_task_id (find (\<lambda>p. p_id p = a_user_prompt_id a) (user_prompts d))"

definition FailExpiredExecutionAttempts :: "time option \<Rightarrow> time \<Rightarrow> time \<Rightarrow> db \<Rightarrow> db \<times> nat" where
  "FailExpiredExecutionAttempts ended updated before d =
     upd_attempts (\<lambda>a. a_status a = ''running'' \<and> lease_expired before a \<and> exhausted d a)
       (\<lambda>a. a\<lparr>a_status := ''error'',
              a_error := Some (''runner lease expired after '' @
                show_int (CountExecutionAttemptsByTask (str_of (task_of_attempt d a)) d) @ '' attempts''),
              a_error_category := Some ''timeout'', a_ended_at := ended, a_updated_at := updated\<rparr>) d"

definition session_of_attempt :: "db \<Rightarrow> execution_attempt \<Rightarrow> (agent_session \<Rightarrow> bool) \<Rightarrow> bool" where
  "session_of_attempt d a q = list_ex (\<lambda>p. p_id p = a_user_prompt_id a \<and>
     list_ex (\<lambda>s. s_id s = p_agent_session_id p \<and> q s) (agent_sessions d)) (user_prompts d)"

definition runner_present :: "time \<Rightarrow> int \<Rightarrow> runner \<Rightarrow> bool" where
  "runner_present dbnow stale r = (dbnow - stale * second < r_last_seen_at r)"

definition FailPendingExecutionAttemptsForMissingRunner ::
  "time \<Rightarrow> time option \<Rightarrow> time \<Rightarrow> int \<Rightarrow> db \<Rightarrow> db \<times> nat" where
  "FailPendingExecutionAttemptsForMissingRunner dbnow ended updated stale d =
     upd_attempts
       (\<lambda>a. a_status a = ''pending'' \<and> session_of_attempt d a (\<lambda>s. s_status s = ''resuming'') \<and>
            a_required_runner_id a \<noteq> None \<and> a_required_runner_id a \<noteq> Some [] \<and>
            \<not> list_ex (\<lambda>r. Some (r_id r) = a_required_runner_id a \<and> r_status r = ''active'' \<and>
                         runner_present dbnow stale r) (runners d))
       (\<lambda>a. a\<lparr>a_status := ''error'',
              a_error := Some (''pinned runner '' @ str_of (a_required_runner_id a) @ '' is not alive''),
              a_error_category := Some ''runner_unavailable'', a_ended_at := ended,
              a_updated_at := updated\<rparr>) d"

definition capable_runner :: "time \<Rightarrow> int \<Rightarrow> runner \<Rightarrow> bool" where
  "capable_runner dbnow stale r =
     (r_isolation_enabled r \<and> r_status r \<in> {''active'', ''draining'', ''stopping''} \<and>
      runner_present dbnow stale r)"

definition FailPendingIsolationAttemptsWithoutCapableRunner ::
  "time \<Rightarrow> time option \<Rightarrow> time \<Rightarrow> int \<Rightarrow> db \<Rightarrow> db \<times> nat" where
  "FailPendingIsolationAttemptsWithoutCapableRunner dbnow ended updated stale d =
     upd_attempts
       (\<lambda>a. a_status a = ''pending'' \<and> session_of_attempt d a s_isolation_required \<and>
            \<not> list_ex (capable_runner dbnow stale) (runners d))
       (\<lambda>a. a\<lparr>a_status := ''error'',
              a_error := Some ''no active runner enforces isolation (gVisor) for this task'',
              a_error_category := Some ''isolation_unavailable'', a_ended_at := ended,
              a_updated_at := updated\<rparr>) d"

definition MarkExecutionAttemptClaimed ::
  "string option \<Rightarrow> string \<Rightarrow> time option \<Rightarrow> time option \<Rightarrow> time option \<Rightarrow> time option \<Rightarrow> time \<Rightarrow>
   string \<Rightarrow> db \<Rightarrow> db \<times> nat" where
  "MarkExecutionAttemptClaimed runner claim claimed lease started last_event updated i d =
     upd_attempts (\<lambda>a. a_id a = i \<and> a_status a = ''pending'')
       (\<lambda>a. a\<lparr>a_status := ''running'', a_runner_id := runner, a_claim_id := claim,
              a_claimed_at := claimed, a_lease_expires_at := lease, a_started_at := started,
              a_last_event_at := last_event, a_updated_at := updated\<rparr>) d"

definition MarkExecutionAttemptLost ::
  "string option \<Rightarrow> time option \<Rightarrow> time \<Rightarrow> string \<Rightarrow> db \<Rightarrow> db \<times> nat" where
  "MarkExecutionAttemptLost err ended updated i d =
     upd_attempts (\<lambda>a. a_id a = i \<and> a_status a = ''running'')
       (\<lambda>a. a\<lparr>a_status := ''lost'', a_error := err, a_ended_at := ended, a_updated_at := updated\<rparr>) d"

definition RenewExecutionAttemptLease ::
  "time option \<Rightarrow> time option \<Rightarrow> time \<Rightarrow> string \<Rightarrow> string option \<Rightarrow> string \<Rightarrow> db \<Rightarrow> db \<times> nat" where
  "RenewExecutionAttemptLease lease last_event updated i runner claim d =
     upd_attempts
       (\<lambda>a. a_id a = i \<and> runner \<noteq> None \<and> a_runner_id a = runner \<and> a_claim_id a = claim \<and>
            a_status a = ''running'')
       (\<lambda>a. a\<lparr>a_lease_expires_at := lease, a_last_event_at := last_event, a_updated_at := updated\<rparr>) d"

definition RequeueTaskAfterExecutionAttemptLost :: "time \<Rightarrow> string \<Rightarrow> db \<Rightarrow> db \<times> nat" where
  "RequeueTaskAfterExecutionAttemptLost updated tid d =
     (let w = (\<lambda>t. t_id t = tid \<and> t_status t = ''running'');
          f = (\<lambda>t. t\<lparr>t_status := ''pending'', t_summary := None, t_error := None,
                     t_error_category := None, t_ended_at := None, t_updated_at := updated\<rparr>)
      in (d\<lparr>tasks := sql_update w f (tasks d)\<rparr>, sql_affected w f (tasks d)))"

text \<open>The statement of a runner event, its 22 parameters gathered in a record.\<close>

record attempt_event_params =
  ae_status :: string
  ae_summary :: "string option"
  ae_error :: "string option"
  ae_error_category :: string
  ae_session_export :: "string option"
  ae_lease :: "time option"
  ae_started_at :: "time option"
  ae_ended_at :: "time option"
  ae_workspace_path :: string
  ae_harness_execution_id :: string
  ae_runner_image_digest :: string
  ae_usage :: token_usage
  ae_last_event_at :: "time option"
  ae_updated_at :: time
  ae_id :: string
  ae_runner_id :: "string option"
  ae_claim_id :: string

definition apply_attempt_event :: "attempt_event_params \<Rightarrow> execution_attempt \<Rightarrow> execution_attempt" where
  "apply_attempt_event q a = a\<lparr>
     a_status := ae_status q, a_summary := ae_summary q, a_error := ae_error q,
     a_error_category := coalesce (nullString (ae_error_category q)) (a_error_category a),
     a_session_export := coalesce (ae_session_export q) (a_session_export a),
     a_lease_expires_at := ae_lease q,
     a_started_at := coalesce (ae_started_at q) (a_started_at a),
     a_ended_at := coalesce (ae_ended_at q) (a_ended_at a),
     a_workspace_path := coalesce (nullString (ae_workspace_path q)) (a_workspace_path a),
     a_harness_execution_id :=
       coalesce (nullString (ae_harness_execution_id q)) (a_harness_execution_id a),
     a_runner_image_digest :=
       coalesce (nullString (ae_runner_image_digest q)) (a_runner_image_digest a),
     a_total_input_tokens := a_total_input_tokens a + InputTokens (ae_usage q),
     a_total_output_tokens := a_total_output_tokens a + OutputTokens (ae_usage q),
     a_total_cache_read_tokens := a_total_cache_read_tokens a + CacheReadTokens (ae_usage q),
     a_total_cache_write_tokens := a_total_cache_write_tokens a + CacheWriteTokens (ae_usage q),
     a_total_reasoning_tokens := a_total_reasoning_tokens a + ReasoningTokens (ae_usage q),
     a_cost_cents := a_cost_cents a + CostCents (ae_usage q),
     a_last_event_at := ae_last_event_at q, a_updated_at := ae_updated_at q\<rparr>"

definition UpdateExecutionAttemptFromRunnerEvent ::
  "time \<Rightarrow> attempt_event_params \<Rightarrow> db \<Rightarrow> db \<times> nat" where
  "UpdateExecutionAttemptFromRunnerEvent dbnow q d =
     upd_attempts
       (\<lambda>a. a_id a = ae_id q \<and> ae_runner_id q \<noteq> None \<and> a_runner_id a = ae_runner_id q \<and>
            a_claim_id a = ae_claim_id q \<and> a_status a = ''running'' \<and> lease_live dbnow a)
       (apply_attempt_event q) d"

lemmas attempt_updates [sql_defs] =
  upd_attempts_def CancelExecutionAttemptsByTask_def CancelPendingExecutionAttempts_def
  ExtendActiveExecutionAttemptTimeout_def FailAllExpiredExecutionAttempts_def
  FailExpiredExecutionAttempts_def FailPendingExecutionAttemptsForMissingRunner_def
  FailPendingIsolationAttemptsWithoutCapableRunner_def MarkExecutionAttemptClaimed_def
  MarkExecutionAttemptLost_def RenewExecutionAttemptLease_def
  RequeueTaskAfterExecutionAttemptLost_def UpdateExecutionAttemptFromRunnerEvent_def

end
