(* ===== verification/Chetter_Task_Queries.thy ===== *)
theory Chetter_Task_Queries
  imports Chetter_Attempt_Queries
begin

text \<open>
  The statements of \<^verbatim>\<open>internal/repository/tasks.sql.go\<close>, \<^verbatim>\<open>agent_sessions.sql.go\<close>,
  \<^verbatim>\<open>task_events.sql.go\<close> and \<^verbatim>\<open>triggers.sql.go\<close> that the task life cycle runs, in the
  conventions of the attempt queries. Where a multi-table \<^verbatim>\<open>UPDATE\<close> copies a column of a
  joined row and several joined rows match, the first in scan order is taken.
\<close>

section \<open>Tasks\<close>

definition upd_tasks :: "(task \<Rightarrow> bool) \<Rightarrow> (task \<Rightarrow> task) \<Rightarrow> db \<Rightarrow> db \<times> nat" where
  "upd_tasks w f d = (d\<lparr>tasks := sql_update w f (tasks d)\<rparr>, sql_affected w f (tasks d))"

record insert_task_params =
  it_id :: string
  it_team_id :: "string option"
  it_prompt :: string
  it_git_url :: "string option"
  it_git_ref :: "string option"
  it_repos :: "repo_ref list option"
  it_github_repo :: "string option"
  it_github_installation_id :: "int option"
  it_trigger_name :: "string option"
  it_trigger_type :: "string option"
  it_submission_source :: string
  it_self_test_run_id :: "string option"
  it_self_test_profile :: "string option"
  it_self_test_check :: "string option"
  it_self_test_nonce :: "string option"
  it_callback_parent_task_id :: "string option"
  it_callback_depth :: int
  it_search_text :: "string option"
  it_created_at :: time
  it_updated_at :: time

text \<open>
  \<^verbatim>\<open>InsertTask\<close> leaves \<^verbatim>\<open>max_attempts\<close> to the column default of the bootstrap schema
  (\<^verbatim>\<open>internal/store/schema.go\<close>), which is 3.
\<close>

definition default_max_attempts :: int where
  "default_max_attempts = 3"

definition InsertTask :: "insert_task_params \<Rightarrow> db \<Rightarrow> error + db" where
  "InsertTask q d =
     bind_res (sql_insert t_id
       \<lparr>t_id = it_id q, t_status = ''pending'', t_prompt = it_prompt q, t_git_url = it_git_url q,
        t_git_ref = it_git_ref q, t_summary = None, t_error = None, t_created_at = it_created_at q,
        t_updated_at = it_updated_at q, t_ended_at = None, t_team_id = it_team_id q,
        t_trigger_name = it_trigger_name q, t_trigger_type = it_trigger_type q,
        t_max_attempts = default_max_attempts, t_search_text = it_search_text q,
        t_error_category = None, t_submission_source = it_submission_source q,
        t_failure_category = None, t_failure_message = None, t_github_repo = it_github_repo q,
        t_github_installation_id = it_github_installation_id q,
        t_self_test_run_id = it_self_test_run_id q, t_self_test_profile = it_self_test_profile q,
        t_self_test_check = it_self_test_check q, t_self_test_nonce = it_self_test_nonce q,
        t_callback_parent_task_id = it_callback_parent_task_id q,
        t_callback_depth = it_callback_depth q, t_repos = it_repos q\<rparr> (tasks d))
     (\<lambda>ts. Inr (d\<lparr>tasks := ts\<rparr>))"

definition GetTaskByID :: "string \<Rightarrow> db \<Rightarrow> error + task" where
  "GetTaskByID i d = sql_one (\<lambda>t. t_id t = i) (tasks d)"

definition CountPendingTasks :: "db \<Rightarrow> int" where
  "CountPendingTasks d = int (length (filter (\<lambda>t. t_status t = ''pending'') (tasks d)))"

definition RequeueTaskForPrompt :: "time \<Rightarrow> string \<Rightarrow> db \<Rightarrow> db \<times> nat" where
  "RequeueTaskForPrompt updated i d =
     upd_tasks (\<lambda>t. t_id t = i \<and> t_status t \<in> {''done'', ''error'', ''cancelled''})
       (\<lambda>t. t\<lparr>t_status := ''pending'', t_summary := None, t_error := None, t_error_category := None,
              t_failure_category := None, t_failure_message := None, t_ended_at := None,
              t_updated_at := updated\<rparr>) d"

definition MarkTaskRunning :: "time \<Rightarrow> string \<Rightarrow> db \<Rightarrow> db \<times> nat" where
  "MarkTaskRunning updated i d =
     upd_tasks (\<lambda>t. t_id t = i \<and> t_status t = ''pending'')
       (\<lambda>t. t\<lparr>t_status := ''running'', t_updated_at := updated\<rparr>) d"

record task_event_params =
  te_status :: string
  te_summary :: "string option"
  te_error :: "string option"
  te_error_category :: string
  te_failure_category :: string
  te_failure_message :: "string option"
  te_ended_at :: "time option"
  te_updated_at :: time
  te_id :: string

definition UpdateTaskAggregateFromRunnerEvent :: "task_event_params \<Rightarrow> db \<Rightarrow> db \<times> nat" where
  "UpdateTaskAggregateFromRunnerEvent q d =
     upd_tasks (\<lambda>t. t_id t = te_id q \<and> (t_status t = ''running'' \<or> t_status t = te_status q))
       (\<lambda>t. t\<lparr>t_status := te_status q, t_summary := te_summary q, t_error := te_error q,
              t_error_category := coalesce (nullString (te_error_category q)) (t_error_category t),
              t_failure_category := coalesce (nullString (te_failure_category q)) (t_failure_category t),
              t_failure_message := coalesce (te_failure_message q) (t_failure_message t),
              t_ended_at := coalesce (te_ended_at q) (t_ended_at t),
              t_updated_at := te_updated_at q\<rparr>) d"

text \<open>The first attempt of a task, in scan order, that satisfies a condition.\<close>

definition attempt_on_task ::
  "db \<Rightarrow> (execution_attempt \<Rightarrow> bool) \<Rightarrow> task \<Rightarrow> execution_attempt option" where
  "attempt_on_task d q t = find (\<lambda>a. on_task d (t_id t) a \<and> q a) (execution_attempts d)"

definition expired_failure :: "time \<Rightarrow> execution_attempt \<Rightarrow> bool" where
  "expired_failure before a =
     (a_status a = ''error'' \<and> a_error_category a = Some ''timeout'' \<and> lease_expired before a)"

definition FailExpiredLeases :: "time option \<Rightarrow> time \<Rightarrow> time \<Rightarrow> db \<Rightarrow> db \<times> nat" where
  "FailExpiredLeases ended updated before d =
     upd_tasks (\<lambda>t. t_status t = ''running'' \<and> attempt_on_task d (expired_failure before) t \<noteq> None)
       (\<lambda>t. case attempt_on_task d (expired_failure before) t of
          None \<Rightarrow> t
        | Some a \<Rightarrow> t\<lparr>t_status := ''error'', t_error := a_error a,
              t_error_category := Some ''timeout'', t_failure_category := Some ''timeout'',
              t_failure_message := Some (''Task timed out after '' @
                 (case a_error a of None \<Rightarrow> ''lease expiry'' | Some e \<Rightarrow> e)),
              t_ended_at := ended, t_updated_at := updated\<rparr>) d"

definition CancelTask_sql ::
  "string option \<Rightarrow> string option \<Rightarrow> time option \<Rightarrow> time \<Rightarrow> string \<Rightarrow> db \<Rightarrow> db \<times> nat" where
  "CancelTask_sql err msg ended updated i d =
     upd_tasks (\<lambda>t. t_id t = i \<and> t_status t \<in> {''pending'', ''running''})
       (\<lambda>t. t\<lparr>t_status := ''cancelled'', t_error := err, t_error_category := Some ''cancelled'',
              t_failure_category := Some ''user_cancelled'', t_failure_message := msg,
              t_ended_at := coalesce (t_ended_at t) ended, t_updated_at := updated\<rparr>) d"

definition ClearPendingTasks ::
  "string option \<Rightarrow> string option \<Rightarrow> time option \<Rightarrow> time \<Rightarrow> db \<Rightarrow> db \<times> nat" where
  "ClearPendingTasks err msg ended updated d =
     upd_tasks (\<lambda>t. t_status t = ''pending'')
       (\<lambda>t. t\<lparr>t_status := ''cancelled'', t_error := err, t_error_category := Some ''cancelled'',
              t_failure_category := Some ''user_cancelled'', t_failure_message := msg,
              t_ended_at := coalesce (t_ended_at t) ended, t_updated_at := updated\<rparr>) d"

definition FailPendingIsolationTasks :: "time option \<Rightarrow> time \<Rightarrow> db \<Rightarrow> db \<times> nat" where
  "FailPendingIsolationTasks ended updated d =
     upd_tasks (\<lambda>t. t_status t = ''pending'' \<and>
         attempt_on_task d (\<lambda>a. a_status a = ''error'' \<and>
            a_error_category a = Some ''isolation_unavailable'') t \<noteq> None)
       (\<lambda>t. t\<lparr>t_status := ''error'',
              t_error := Some ''no active runner enforces isolation (gVisor) for this task'',
              t_error_category := Some ''isolation_unavailable'',
              t_failure_category := Some ''harness_error'',
              t_failure_message := Some ''No active runner enforces isolation (gVisor) for this task; it cannot run unsandboxed.'',
              t_ended_at := ended, t_updated_at := updated\<rparr>) d"

definition FailPendingResumeTasksForMissingRunner :: "time option \<Rightarrow> time \<Rightarrow> db \<Rightarrow> db \<times> nat" where
  "FailPendingResumeTasksForMissingRunner ended updated d =
     (let q = (\<lambda>a. a_status a = ''error'' \<and> a_error_category a = Some ''runner_unavailable'') in
      upd_tasks (\<lambda>t. t_status t = ''pending'' \<and> attempt_on_task d q t \<noteq> None)
        (\<lambda>t. case attempt_on_task d q t of
           None \<Rightarrow> t
         | Some a \<Rightarrow> t\<lparr>t_status := ''error'', t_error := a_error a,
               t_error_category := Some ''runner_unavailable'',
               t_failure_category := Some ''runner_lost'',
               t_failure_message := Some (''Runner unavailable: '' @
                  (case a_error a of None \<Rightarrow> ''unknown'' | Some e \<Rightarrow> e)),
               t_ended_at := ended, t_updated_at := updated\<rparr>) d)"

section \<open>Sessions\<close>

definition upd_sessions ::
  "(agent_session \<Rightarrow> bool) \<Rightarrow> (agent_session \<Rightarrow> agent_session) \<Rightarrow> db \<Rightarrow> db \<times> nat" where
  "upd_sessions w f d =
     (d\<lparr>agent_sessions := sql_update w f (agent_sessions d)\<rparr>, sql_affected w f (agent_sessions d))"

text \<open>
  \<^verbatim>\<open>InsertAgentSession\<close> takes the row with the columns the statement lists; the columns it
  does not list are NULL.
\<close>

definition unlisted_null :: "agent_session \<Rightarrow> agent_session" where
  "unlisted_null s = s\<lparr>s_pinned_runner_id := None, s_pinned_runner_name := None,
     s_checkpoint_id := None, s_workspace_path := None, s_container_name := None,
     s_harness_session_id := None, s_paused_at := None, s_error := None, s_summary := None,
     s_ended_at := None\<rparr>"

definition InsertAgentSession :: "agent_session \<Rightarrow> db \<Rightarrow> error + db" where
  "InsertAgentSession s d =
     bind_res (sql_insert2 s_id (\<lambda>x. (s_task_id x, s_sequence x)) (unlisted_null s) (agent_sessions d))
       (\<lambda>ss. Inr (d\<lparr>agent_sessions := ss\<rparr>))"

definition GetAgentSessionByID :: "string \<Rightarrow> db \<Rightarrow> error + agent_session" where
  "GetAgentSessionByID i d = sql_one (\<lambda>s. s_id s = i) (agent_sessions d)"

definition latest_session :: "string \<Rightarrow> db \<Rightarrow> agent_session option" where
  "latest_session tid d =
     sql_first_desc s_sequence (filter (\<lambda>s. s_task_id s = tid) (agent_sessions d))"

definition GetAgentSessionByTaskID :: "string \<Rightarrow> db \<Rightarrow> error + agent_session" where
  "GetAgentSessionByTaskID tid d = from_option SqlNoRows (latest_session tid d)"

definition is_latest_session :: "string \<Rightarrow> db \<Rightarrow> agent_session \<Rightarrow> bool" where
  "is_latest_session tid d s = (map_option s_id (latest_session tid d) = Some (s_id s))"

definition live_session :: "agent_session \<Rightarrow> bool" where
  "live_session s = (s_status s = ''running'' \<or> s_status s = ''resuming'')"

definition resumable_status :: "agent_session \<Rightarrow> bool" where
  "resumable_status s = (s_status s \<in> {''paused'', ''recoverable'', ''paused_waiting_review''})"

definition MarkAgentSessionTerminalByTask ::
  "string \<Rightarrow> string \<Rightarrow> string option \<Rightarrow> string option \<Rightarrow> time option \<Rightarrow> time \<Rightarrow> string \<Rightarrow> db \<Rightarrow> db \<times> nat" where
  "MarkAgentSessionTerminalByTask status harness summary err ended updated tid d =
     upd_sessions (\<lambda>s. is_latest_session tid d s \<and> live_session s)
       (\<lambda>s. s\<lparr>s_status := status,
              s_harness_session_id := coalesce (nullString harness) (s_harness_session_id s),
              s_summary := summary, s_error := err, s_ended_at := ended, s_updated_at := updated\<rparr>) d"

definition UpdateAgentSessionFromRunnerEvent ::
  "string \<Rightarrow> string \<Rightarrow> string \<Rightarrow> string \<Rightarrow> time \<Rightarrow> string \<Rightarrow> db \<Rightarrow> db \<times> nat" where
  "UpdateAgentSessionFromRunnerEvent provider model variant harness updated tid d =
     upd_sessions (\<lambda>s. is_latest_session tid d s \<and> live_session s)
       (\<lambda>s. s\<lparr>s_provider_id := coalesce (nullString provider) (s_provider_id s),
              s_model_id := coalesce (nullString model) (s_model_id s),
              s_variant_id := coalesce (nullString variant) (s_variant_id s),
              s_harness_session_id := coalesce (nullString harness) (s_harness_session_id s),
              s_updated_at := updated\<rparr>) d"

text \<open>\<^verbatim>\<open>COALESCE(NULLIF(x, ''), old)\<close> for a nullable parameter.\<close>

definition keep_unless :: "string option \<Rightarrow> string option \<Rightarrow> string option" where
  "keep_unless new old = coalesce (nullString (str_of new)) old"

definition PauseAgentSessionByTaskID ::
  "string \<Rightarrow> string option \<Rightarrow> string option \<Rightarrow> string option \<Rightarrow> string option \<Rightarrow> string option \<Rightarrow>
   time option \<Rightarrow> time \<Rightarrow> string \<Rightarrow> db \<Rightarrow> db \<times> nat" where
  "PauseAgentSessionByTaskID status pinned chk workspace container harness paused updated tid d =
     upd_sessions (\<lambda>s. is_latest_session tid d s \<and> live_session s)
       (\<lambda>s. s\<lparr>s_status := status,
              s_pinned_runner_id := keep_unless pinned (s_pinned_runner_id s),
              s_checkpoint_id := keep_unless chk (s_checkpoint_id s),
              s_workspace_path := keep_unless workspace (s_workspace_path s),
              s_container_name := keep_unless container (s_container_name s),
              s_harness_session_id := keep_unless harness (s_harness_session_id s),
              s_paused_at := paused, s_updated_at := updated\<rparr>) d"

definition MarkAgentSessionResuming :: "string \<Rightarrow> time \<Rightarrow> string \<Rightarrow> db \<Rightarrow> db \<times> nat" where
  "MarkAgentSessionResuming status updated i d =
     upd_sessions (\<lambda>s. s_id s = i \<and> resumable_status s)
       (\<lambda>s. s\<lparr>s_status := status, s_updated_at := updated\<rparr>) d"

definition AbandonAgentSession ::
  "string option \<Rightarrow> time option \<Rightarrow> time \<Rightarrow> string \<Rightarrow> db \<Rightarrow> db \<times> nat" where
  "AbandonAgentSession err ended updated i d =
     upd_sessions (\<lambda>s. s_id s = i \<and> live_session s)
       (\<lambda>s. s\<lparr>s_status := ''abandoned'', s_error := err, s_ended_at := ended, s_updated_at := updated\<rparr>) d"

definition IsRunnerAlive :: "time \<Rightarrow> string \<Rightarrow> int \<Rightarrow> db \<Rightarrow> bool" where
  "IsRunnerAlive dbnow rid stale d =
     list_ex (\<lambda>r. r_id r = rid \<and> r_status r = ''active'' \<and> runner_present dbnow stale r) (runners d)"

definition ExpirePausedSessions :: "time option \<Rightarrow> time \<Rightarrow> time \<Rightarrow> db \<Rightarrow> db \<times> nat" where
  "ExpirePausedSessions ended updated before d =
     upd_sessions
       (\<lambda>s. resumable_status s \<and>
            (case s_expires_at s of None \<Rightarrow> False | Some x \<Rightarrow> x < before) \<and>
            \<not> list_ex (\<lambda>p. p_agent_session_id p = s_id s \<and>
                 p_status p \<in> {''pending'', ''claimed'', ''running''}) (user_prompts d) \<and>
            \<not> list_ex (\<lambda>(a, p). p_agent_session_id p = s_id s \<and> active_attempt a) (attempt_joins d))
       (\<lambda>s. s\<lparr>s_status := ''expired'', s_ended_at := ended, s_updated_at := updated\<rparr>) d"

definition GetNextAgentSessionSequence :: "string \<Rightarrow> db \<Rightarrow> int" where
  "GetNextAgentSessionSequence tid d =
     (let ns = map s_sequence (filter (\<lambda>s. s_task_id s = tid) (agent_sessions d)) in
      (if ns = [] then 0 else Max (set ns)) + 1)"

section \<open>Prompts\<close>

definition upd_prompts ::
  "(user_prompt \<Rightarrow> bool) \<Rightarrow> (user_prompt \<Rightarrow> user_prompt) \<Rightarrow> db \<Rightarrow> db \<times> nat" where
  "upd_prompts w f d =
     (d\<lparr>user_prompts := sql_update w f (user_prompts d)\<rparr>, sql_affected w f (user_prompts d))"

definition InsertUserPrompt ::
  "string \<Rightarrow> string \<Rightarrow> string \<Rightarrow> int \<Rightarrow> string \<Rightarrow> string \<Rightarrow> string option \<Rightarrow> time \<Rightarrow> time \<Rightarrow> db \<Rightarrow> error + db" where
  "InsertUserPrompt i sid tid sequence status prompt source created updated d =
     bind_res (sql_insert2 p_id (\<lambda>x. (p_agent_session_id x, p_sequence x))
       \<lparr>p_id = i, p_agent_session_id = sid, p_task_id = tid, p_status = status, p_prompt = prompt,
        p_summary = None, p_error = None, p_session_export = None, p_created_at = created,
        p_updated_at = updated, p_started_at = None, p_ended_at = None, p_sequence = sequence,
        p_source_user_prompt_id = source\<rparr> (user_prompts d))
     (\<lambda>ps. Inr (d\<lparr>user_prompts := ps\<rparr>))"

definition GetUserPromptByID :: "string \<Rightarrow> db \<Rightarrow> error + user_prompt" where
  "GetUserPromptByID i d = sql_one (\<lambda>p. p_id p = i) (user_prompts d)"

definition latest_prompt :: "string \<Rightarrow> db \<Rightarrow> user_prompt option" where
  "latest_prompt tid d =
     map_option fst (sql_first_desc (\<lambda>(p, s). (s_sequence s, p_sequence p))
       [(p, s). p \<leftarrow> user_prompts d, s \<leftarrow> agent_sessions d,
          s_id s = p_agent_session_id p \<and> p_task_id p = tid])"

definition GetUserPromptByTaskID :: "string \<Rightarrow> db \<Rightarrow> error + user_prompt" where
  "GetUserPromptByTaskID tid d = from_option SqlNoRows (latest_prompt tid d)"

definition is_latest_prompt :: "string \<Rightarrow> db \<Rightarrow> user_prompt \<Rightarrow> bool" where
  "is_latest_prompt tid d p = (map_option p_id (latest_prompt tid d) = Some (p_id p))"

definition AbandonUserPrompt ::
  "string option \<Rightarrow> time option \<Rightarrow> time \<Rightarrow> string \<Rightarrow> db \<Rightarrow> db \<times> nat" where
  "AbandonUserPrompt err ended updated i d =
     upd_prompts (\<lambda>p. p_id p = i \<and> p_status p \<in> {''pending'', ''claimed'', ''running''})
       (\<lambda>p. p\<lparr>p_status := ''failed'', p_error := err, p_ended_at := ended, p_updated_at := updated\<rparr>) d"

definition GetNextUserPromptSequence :: "string \<Rightarrow> db \<Rightarrow> int" where
  "GetNextUserPromptSequence sid d =
     (let ns = map p_sequence (filter (\<lambda>p. p_agent_session_id p = sid) (user_prompts d)) in
      (if ns = [] then 0 else Max (set ns)) + 1)"

definition MarkUserPromptRunningByTask :: "time option \<Rightarrow> time \<Rightarrow> string \<Rightarrow> db \<Rightarrow> db \<times> nat" where
  "MarkUserPromptRunningByTask started updated tid d =
     upd_prompts (\<lambda>p. is_latest_prompt tid d p \<and> p_status p \<in> {''pending'', ''claimed''})
       (\<lambda>p. p\<lparr>p_status := ''running'', p_started_at := coalesce (p_started_at p) started,
              p_updated_at := updated\<rparr>) d"

definition MarkUserPromptTerminalByTask ::
  "string \<Rightarrow> string option \<Rightarrow> string option \<Rightarrow> string option \<Rightarrow> time option \<Rightarrow> time option \<Rightarrow> time \<Rightarrow>
   string \<Rightarrow> db \<Rightarrow> db \<times> nat" where
  "MarkUserPromptTerminalByTask status summary err export started ended updated tid d =
     upd_prompts (is_latest_prompt tid d)
       (\<lambda>p. p\<lparr>p_status := status, p_summary := summary, p_error := err,
              p_session_export := coalesce export (p_session_export p),
              p_started_at := coalesce (p_started_at p) started,
              p_ended_at := coalesce ended (p_ended_at p), p_updated_at := updated\<rparr>) d"

definition task_of_prompt :: "db \<Rightarrow> user_prompt \<Rightarrow> task option" where
  "task_of_prompt d p = find (\<lambda>t. t_id t = p_task_id p) (tasks d)"

definition opt_holds :: "('a \<Rightarrow> bool) \<Rightarrow> 'a option \<Rightarrow> bool" where
  "opt_holds q x = (case x of None \<Rightarrow> False | Some v \<Rightarrow> q v)"

definition runner_unavailable_task :: "task \<Rightarrow> bool" where
  "runner_unavailable_task t =
     (t_status t = ''error'' \<and> t_error_category t = Some ''runner_unavailable'')"

definition FailPendingUserPromptsForUnavailableRunner :: "time option \<Rightarrow> time \<Rightarrow> db \<Rightarrow> db \<times> nat" where
  "FailPendingUserPromptsForUnavailableRunner ended updated d =
     upd_prompts (\<lambda>p. p_status p = ''pending'' \<and> opt_holds runner_unavailable_task (task_of_prompt d p))
       (\<lambda>p. p\<lparr>p_status := ''failed'', p_error := Option.bind (task_of_prompt d p) t_error,
              p_ended_at := coalesce (p_ended_at p) ended, p_updated_at := updated\<rparr>) d"

definition failed_prompt_of_session :: "db \<Rightarrow> agent_session \<Rightarrow> user_prompt option" where
  "failed_prompt_of_session d s = find (\<lambda>p. p_agent_session_id p = s_id s \<and> p_status p = ''failed'' \<and>
     opt_holds runner_unavailable_task (task_of_prompt d p)) (user_prompts d)"

definition MarkResumingSessionsFailedForUnavailableRunner :: "time option \<Rightarrow> time \<Rightarrow> db \<Rightarrow> db \<times> nat" where
  "MarkResumingSessionsFailedForUnavailableRunner ended updated d =
     upd_sessions (\<lambda>s. s_status s = ''resuming'' \<and> failed_prompt_of_session d s \<noteq> None)
       (\<lambda>s. case failed_prompt_of_session d s of
          None \<Rightarrow> s
        | Some p \<Rightarrow> s\<lparr>s_status := ''error'',
              s_error := coalesce (p_error p) (Option.bind (task_of_prompt d p) t_error),
              s_ended_at := ended, s_updated_at := updated\<rparr>) d"

definition terminal_task :: "task \<Rightarrow> bool" where
  "terminal_task t = (t_status t \<in> {''done'', ''error'', ''cancelled''})"

definition ReapStaleUserPrompts :: "time \<Rightarrow> db \<Rightarrow> db \<times> nat" where
  "ReapStaleUserPrompts dbnow d =
     upd_prompts (\<lambda>p. p_status p = ''running'' \<and> opt_holds terminal_task (task_of_prompt d p))
       (\<lambda>p. case task_of_prompt d p of
          None \<Rightarrow> p
        | Some t \<Rightarrow> p\<lparr>p_status := (if t_status t = ''done'' then ''completed''
                          else if t_status t = ''cancelled'' then ''cancelled'' else ''failed''),
              p_error := coalesce (nullString (str_of (p_error p))) (coalesce (t_error t) (p_error p)),
              p_ended_at := coalesce (p_ended_at p) (coalesce (t_ended_at t) (Some dbnow)),
              p_updated_at := dbnow\<rparr>) d"

definition stale_run_of_session :: "db \<Rightarrow> agent_session \<Rightarrow> user_prompt option" where
  "stale_run_of_session d s = find (\<lambda>p. p_agent_session_id p = s_id s \<and>
     p_status p \<in> {''failed'', ''completed'', ''cancelled''} \<and>
     opt_holds terminal_task (task_of_prompt d p)) (user_prompts d)"

definition ReapStaleSessionsForTerminalRuns :: "time \<Rightarrow> db \<Rightarrow> db \<times> nat" where
  "ReapStaleSessionsForTerminalRuns dbnow d =
     upd_sessions (\<lambda>s. s_status s = ''running'' \<and> stale_run_of_session d s \<noteq> None)
       (\<lambda>s. case Option.bind (stale_run_of_session d s) (task_of_prompt d) of
          None \<Rightarrow> s
        | Some t \<Rightarrow> s\<lparr>s_status := (if t_status t = ''done'' then ''completed'' else ''error''),
              s_error := coalesce (nullString (str_of (s_error s))) (coalesce (t_error t) (s_error s)),
              s_summary := coalesce (nullString (str_of (s_summary s))) (coalesce (t_summary t) (s_summary s)),
              s_ended_at := coalesce (s_ended_at s) (coalesce (t_ended_at t) (Some dbnow)),
              s_updated_at := dbnow\<rparr>) d"

definition RevertOrphanedRunningUserPrompts :: "time \<Rightarrow> db \<Rightarrow> db \<times> nat" where
  "RevertOrphanedRunningUserPrompts dbnow d =
     upd_prompts (\<lambda>p. p_status p = ''running'' \<and>
         opt_holds (\<lambda>t. t_status t = ''pending'') (task_of_prompt d p))
       (\<lambda>p. p\<lparr>p_status := ''pending'', p_started_at := None, p_updated_at := dbnow\<rparr>) d"

section \<open>Checkpoints, events, trigger runs, runners\<close>

definition InsertAgentSessionCheckpoint :: "checkpoint \<Rightarrow> db \<Rightarrow> error + db" where
  "InsertAgentSessionCheckpoint k d =
     bind_res (sql_insert k_id k (checkpoints d)) (\<lambda>ks. Inr (d\<lparr>checkpoints := ks\<rparr>))"

definition GetLatestAgentSessionCheckpoint :: "string \<Rightarrow> db \<Rightarrow> error + checkpoint" where
  "GetLatestAgentSessionCheckpoint sid d =
     from_option SqlNoRows (sql_first_desc k_created_at
       (filter (\<lambda>k. k_agent_session_id k = sid) (checkpoints d)))"

definition InsertTaskEvent :: "task_event \<Rightarrow> db \<Rightarrow> error + db" where
  "InsertTaskEvent e d =
     bind_res (sql_insert e_id e (task_events d)) (\<lambda>es. Inr (d\<lparr>task_events := es\<rparr>))"

definition UpdateTriggerRunStatusByTask :: "string \<Rightarrow> string \<Rightarrow> db \<Rightarrow> db" where
  "UpdateTriggerRunStatusByTask status tid d =
     d\<lparr>trigger_runs := sql_update (\<lambda>r. tr_task_id r = tid) (\<lambda>r. r\<lparr>tr_status := status\<rparr>) (trigger_runs d)\<rparr>"

text \<open>\<^verbatim>\<open>CONCAT_WS(' ', ...)\<close> over columns that are never NULL after \<^verbatim>\<open>COALESCE(c, '')\<close>.\<close>

definition UpdateTaskSearchText :: "string \<Rightarrow> db \<Rightarrow> db" where
  "UpdateTaskSearchText i d =
     d\<lparr>tasks := sql_update (\<lambda>t. t_id t = i)
        (\<lambda>t. t\<lparr>t_search_text := Some (join_with '' ''
           [t_prompt t, str_of (t_summary t), str_of (t_error t),
            str_of (Option.bind (latest_session (t_id t) d) s_agent),
            str_of (Option.bind (latest_session (t_id t) d) s_model_id),
            str_of (t_trigger_name t), str_of (t_git_url t), str_of (t_github_repo t)])\<rparr>) (tasks d)\<rparr>"

definition GetRunnerIsolationEnabled :: "string \<Rightarrow> db \<Rightarrow> error + bool" where
  "GetRunnerIsolationEnabled rid d =
     bind_res (sql_one (\<lambda>r. r_id r = rid) (runners d)) (\<lambda>r. Inr (r_isolation_enabled r))"

lemmas task_updates [sql_defs] =
  upd_tasks_def RequeueTaskForPrompt_def MarkTaskRunning_def UpdateTaskAggregateFromRunnerEvent_def
  FailExpiredLeases_def CancelTask_sql_def ClearPendingTasks_def FailPendingIsolationTasks_def
  FailPendingResumeTasksForMissingRunner_def UpdateTaskSearchText_def

lemmas session_updates [sql_defs] =
  upd_sessions_def MarkAgentSessionTerminalByTask_def UpdateAgentSessionFromRunnerEvent_def
  PauseAgentSessionByTaskID_def MarkAgentSessionResuming_def AbandonAgentSession_def
  ExpirePausedSessions_def MarkResumingSessionsFailedForUnavailableRunner_def
  ReapStaleSessionsForTerminalRuns_def

lemmas prompt_updates [sql_defs] =
  upd_prompts_def AbandonUserPrompt_def MarkUserPromptRunningByTask_def
  MarkUserPromptTerminalByTask_def FailPendingUserPromptsForUnavailableRunner_def
  ReapStaleUserPrompts_def RevertOrphanedRunningUserPrompts_def

end
