(* ===== verification/Chetter_Evolution.thy ===== *)
theory Chetter_Evolution
  imports Chetter_Task_Queries
begin

text \<open>
  How the database may change. Every statement of the task life cycle keeps the fixed columns of
  the rows it touches, and moves an execution attempt only forward: an attempt that left
  \<^verbatim>\<open>pending\<close> never returns to it, its runner and claim id stay, and a terminal attempt is
  never written again (but for its session export, which is cleared after a while). The relation \<open>db_later\<close> gathers this for the whole database; it is
  reflexive and transitive, so it holds between any two states of a run once it is shown for each
  operation.
\<close>

section \<open>Attempts move forward\<close>

text \<open>
  The columns of an attempt other than the session export, which the artifact collector clears
  after a while, and the time of the last update.
\<close>

definition a_core :: "execution_attempt \<Rightarrow> execution_attempt" where
  "a_core a = a\<lparr>a_session_export := None, a_updated_at := 0\<rparr>"

definition attempt_later :: "execution_attempt \<Rightarrow> execution_attempt \<Rightarrow> bool" where
  "attempt_later a a' \<longleftrightarrow>
     a_fixed a' = a_fixed a \<and>
     (a_status a \<noteq> ''pending'' \<longrightarrow>
        a_status a' \<noteq> ''pending'' \<and> a_runner_id a' = a_runner_id a \<and> a_claim_id a' = a_claim_id a) \<and>
     (\<not> active_attempt a \<longrightarrow> a_core a' = a_core a)"

lemma a_core_active: "a_core a = a_core b \<Longrightarrow> active_attempt a = active_attempt b"
proof -
  assume "a_core a = a_core b"
  then have "a_status (a_core a) = a_status (a_core b)" by simp
  then show "active_attempt a = active_attempt b" by (simp add: a_core_def active_attempt_def)
qed

lemma attempt_later_refl [simp]: "attempt_later a a"
  by (simp add: attempt_later_def)

lemma attempt_later_trans: "attempt_later a b \<Longrightarrow> attempt_later b c \<Longrightarrow> attempt_later a c"
  using a_core_active [of b a] by (auto simp: attempt_later_def)

section \<open>Tables grow at the end\<close>

definition extends :: "('r \<Rightarrow> 'r \<Rightarrow> bool) \<Rightarrow> 'r list \<Rightarrow> 'r list \<Rightarrow> bool" where
  "extends later xs ys \<longleftrightarrow> (\<exists>old new. ys = old @ new \<and> list_all2 later xs old)"

lemma extends_refl: "(\<And>x. later x x) \<Longrightarrow> extends later xs xs"
  unfolding extends_def by (rule exI [of _ xs], rule exI [of _ "[]"]) (simp add: list_all2_refl)

lemma extends_trans:
  assumes later_trans: "\<And>x y z. later x y \<Longrightarrow> later y z \<Longrightarrow> later x z"
    and "extends later xs ys" and "extends later ys zs"
  shows "extends later xs zs"
proof -
  from assms(2) obtain o1 n1 where ys: "ys = o1 @ n1" and xo: "list_all2 later xs o1"
    by (auto simp: extends_def)
  from assms(3) obtain o2 n2 where zs: "zs = o2 @ n2" and yo: "list_all2 later (o1 @ n1) o2"
    unfolding ys by (auto simp: extends_def)
  from yo obtain u v where o2: "o2 = u @ v" and ou: "list_all2 later o1 u"
    by (auto simp: list_all2_append1)
  have "list_all2 later xs u"
    by (rule list_all2_trans [of later later later, OF _ xo ou]) (rule later_trans)
  then show ?thesis unfolding extends_def zs o2 by (intro exI [of _ u] exI [of _ "v @ n2"]) simp
qed

lemma extends_snoc: "(\<And>x. later x x) \<Longrightarrow> extends later xs (xs @ ys)"
  unfolding extends_def by (rule exI [of _ xs], rule exI [of _ ys]) (simp add: list_all2_refl)

lemma extends_update:
  assumes "\<And>x. later x x" and "\<And>x. x \<in> set xs \<Longrightarrow> w x \<Longrightarrow> later x (f x)"
  shows "extends later xs (sql_update w f xs)"
  unfolding extends_def
  by (rule exI [of _ "sql_update w f xs"], rule exI [of _ "[]"])
    (use assms in \<open>auto simp: sql_update_def list_all2_conv_all_nth\<close>)

lemma extends_in:
  assumes "extends later xs ys" and "x \<in> set xs"
  obtains y where "y \<in> set ys" and "later x y"
  using assms unfolding extends_def by (auto simp: in_set_conv_nth list_all2_conv_all_nth nth_append)
    (metis length_append nth_append nth_mem trans_less_add1)

definition same_fixed :: "('r \<Rightarrow> 'k) \<Rightarrow> 'r \<Rightarrow> 'r \<Rightarrow> bool" where
  "same_fixed key r r' \<longleftrightarrow> key r' = key r"

lemma same_fixed_refl [simp]: "same_fixed key r r"
  by (simp add: same_fixed_def)

lemma same_fixed_trans: "same_fixed key x y \<Longrightarrow> same_fixed key y z \<Longrightarrow> same_fixed key x z"
  by (simp add: same_fixed_def)

section \<open>The order on databases\<close>

definition db_later :: "db \<Rightarrow> db \<Rightarrow> bool" where
  "db_later d d' \<longleftrightarrow>
     extends (same_fixed t_fixed) (tasks d) (tasks d') \<and>
     extends (same_fixed s_fixed) (agent_sessions d) (agent_sessions d') \<and>
     extends (same_fixed p_fixed) (user_prompts d) (user_prompts d') \<and>
     extends attempt_later (execution_attempts d) (execution_attempts d')"

lemma db_later_refl [simp]: "db_later d d"
  by (simp add: db_later_def extends_refl)

lemma db_later_trans: "db_later d d1 \<Longrightarrow> db_later d1 d2 \<Longrightarrow> db_later d d2"
  unfolding db_later_def
  by (blast intro: extends_trans same_fixed_trans attempt_later_trans)

lemma db_later_same_tables:
  "tasks d' = tasks d \<Longrightarrow> agent_sessions d' = agent_sessions d \<Longrightarrow> user_prompts d' = user_prompts d \<Longrightarrow>
   execution_attempts d' = execution_attempts d \<Longrightarrow> db_later d d'"
  by (simp add: db_later_def extends_refl)

lemma db_later_attempt:
  assumes "db_later d d'" and "a \<in> set (execution_attempts d)"
  obtains a' where "a' \<in> set (execution_attempts d')" and "attempt_later a a'"
  using assms extends_in [of attempt_later "execution_attempts d" "execution_attempts d'" a]
  unfolding db_later_def by blast

text \<open>
  An update is good when it keeps the shape and moves attempts forward; both conditions are closed
  under composition.
\<close>

definition good_update :: "db \<Rightarrow> db \<Rightarrow> bool" where
  "good_update d d' \<longleftrightarrow> same_shape d d' \<and> db_later d d'"

lemma good_update_refl [simp]: "good_update d d"
  by (simp add: good_update_def)

lemma good_update_trans [trans]: "good_update d d1 \<Longrightarrow> good_update d1 d2 \<Longrightarrow> good_update d d2"
  by (auto simp: good_update_def intro: same_shape_trans db_later_trans)

lemma good_update_wf: "good_update d d' \<Longrightarrow> wf_db d' = wf_db d"
  by (simp add: good_update_def same_shape_wf)

lemma good_other_tables:
  "tasks d' = tasks d \<Longrightarrow> agent_sessions d' = agent_sessions d \<Longrightarrow> user_prompts d' = user_prompts d \<Longrightarrow>
   execution_attempts d' = execution_attempts d \<Longrightarrow> map r_id (runners d') = map r_id (runners d) \<Longrightarrow>
   good_update d d'"
  by (simp add: good_update_def same_shape_def db_later_same_tables)

lemma map_fixed_sql_update:
  "(\<And>x. x \<in> set xs \<Longrightarrow> w x \<Longrightarrow> key (f x) = key x) \<Longrightarrow> map key (sql_update w f xs) = map key xs"
  by (simp add: sql_update_def)

lemma good_upd_tasks:
  assumes "\<And>t. t_fixed (f t) = t_fixed t"
  shows "good_update d (fst (upd_tasks w f d))"
  using assms unfolding good_update_def same_shape_def db_later_def upd_tasks_def
  by (simp add: map_fixed_sql_update extends_refl extends_update same_fixed_def)

lemma good_upd_sessions:
  assumes "\<And>s. s_fixed (f s) = s_fixed s"
  shows "good_update d (fst (upd_sessions w f d))"
  using assms unfolding good_update_def same_shape_def db_later_def upd_sessions_def
  by (simp add: map_fixed_sql_update extends_refl extends_update same_fixed_def)

lemma good_upd_prompts:
  assumes "\<And>p. p_fixed (f p) = p_fixed p"
  shows "good_update d (fst (upd_prompts w f d))"
  using assms unfolding good_update_def same_shape_def db_later_def upd_prompts_def
  by (simp add: map_fixed_sql_update extends_refl extends_update same_fixed_def)

lemma good_upd_attempts:
  assumes "\<And>a. w a \<Longrightarrow> attempt_later a (f a)"
  shows "good_update d (fst (upd_attempts w f d))"
proof -
  have "a_fixed (f a) = a_fixed a" if "w a" for a
    using assms [OF that] by (simp add: attempt_later_def)
  with assms show ?thesis
    unfolding good_update_def same_shape_def db_later_def upd_attempts_def
    by (simp add: map_fixed_sql_update extends_refl extends_update)
qed

text \<open>
  An update of active attempts that keeps the fixed columns, runner and claim id, and does not
  write the status \<^verbatim>\<open>pending\<close> into a running attempt, moves forward.
\<close>

lemma attempt_laterI:
  assumes "a_fixed a' = a_fixed a" and "active_attempt a"
    and "a_status a \<noteq> ''pending'' \<Longrightarrow> a_status a' \<noteq> ''pending'' \<and> a_runner_id a' = a_runner_id a \<and> a_claim_id a' = a_claim_id a"
  shows "attempt_later a a'"
  using assms by (simp add: attempt_later_def)

section \<open>Every statement is a good update\<close>

lemma good_attempt_updates [keep_intros]:
  "good_update d (fst (CancelExecutionAttemptsByTask err ended updated tid d))"
  "good_update d (fst (CancelPendingExecutionAttempts err ended updated d))"
  "good_update d (fst (ExtendActiveExecutionAttemptTimeout ext updated tid d))"
  "good_update d (fst (FailAllExpiredExecutionAttempts ended updated before d))"
  "good_update d (fst (FailExpiredExecutionAttempts ended updated before d))"
  "good_update d (fst (FailPendingExecutionAttemptsForMissingRunner dbnow ended updated stale d))"
  "good_update d (fst (FailPendingIsolationAttemptsWithoutCapableRunner dbnow ended updated stale d))"
  "good_update d (fst (MarkExecutionAttemptClaimed runner claim claimed lease started ev updated i d))"
  "good_update d (fst (MarkExecutionAttemptLost err ended updated i d))"
  "good_update d (fst (RenewExecutionAttemptLease lease ev updated i runner claim d))"
  unfolding CancelExecutionAttemptsByTask_def CancelPendingExecutionAttempts_def
    ExtendActiveExecutionAttemptTimeout_def FailAllExpiredExecutionAttempts_def
    FailExpiredExecutionAttempts_def FailPendingExecutionAttemptsForMissingRunner_def
    FailPendingIsolationAttemptsWithoutCapableRunner_def MarkExecutionAttemptClaimed_def
    MarkExecutionAttemptLost_def RenewExecutionAttemptLease_def
  by (rule good_upd_attempts, rule attempt_laterI;
      simp add: fixed_defs active_attempt_def; fail)+

lemma good_attempt_event [keep_intros]:
  "ae_status q \<noteq> ''pending'' \<Longrightarrow> good_update d (fst (UpdateExecutionAttemptFromRunnerEvent dbnow q d))"
  unfolding UpdateExecutionAttemptFromRunnerEvent_def
  by (rule good_upd_attempts, rule attempt_laterI)
    (simp_all add: apply_attempt_event_def fixed_defs active_attempt_def)

lemma RequeueTaskAfterLost_upd:
  "RequeueTaskAfterExecutionAttemptLost updated tid d =
     upd_tasks (\<lambda>t. t_id t = tid \<and> t_status t = ''running'')
       (\<lambda>t. t\<lparr>t_status := ''pending'', t_summary := None, t_error := None,
              t_error_category := None, t_ended_at := None, t_updated_at := updated\<rparr>) d"
  by (simp add: RequeueTaskAfterExecutionAttemptLost_def upd_tasks_def Let_def)

lemma good_task_updates [keep_intros]:
  "good_update d (fst (RequeueTaskForPrompt updated i d))"
  "good_update d (fst (RequeueTaskAfterExecutionAttemptLost updated tid d))"
  "good_update d (fst (MarkTaskRunning updated i d))"
  "good_update d (fst (UpdateTaskAggregateFromRunnerEvent q d))"
  "good_update d (fst (FailExpiredLeases ended updated before d))"
  "good_update d (fst (CancelTask_sql err msg ended updated i d))"
  "good_update d (fst (ClearPendingTasks err msg ended updated d))"
  "good_update d (fst (FailPendingIsolationTasks ended updated d))"
  "good_update d (fst (FailPendingResumeTasksForMissingRunner ended updated d))"
  unfolding RequeueTaskForPrompt_def RequeueTaskAfterLost_upd MarkTaskRunning_def
    UpdateTaskAggregateFromRunnerEvent_def FailExpiredLeases_def CancelTask_sql_def
    ClearPendingTasks_def FailPendingIsolationTasks_def FailPendingResumeTasksForMissingRunner_def Let_def
  by (rule good_upd_tasks, simp add: fixed_defs split: option.splits; fail)+

lemma good_session_updates [keep_intros]:
  "good_update d (fst (MarkAgentSessionTerminalByTask status harness summary err ended updated tid d))"
  "good_update d (fst (UpdateAgentSessionFromRunnerEvent provider model variant harness updated tid d))"
  "good_update d (fst (PauseAgentSessionByTaskID status pinned chk workspace container hs paused updated tid d))"
  "good_update d (fst (MarkAgentSessionResuming status updated i d))"
  "good_update d (fst (AbandonAgentSession err ended updated i d))"
  "good_update d (fst (ExpirePausedSessions ended updated before d))"
  "good_update d (fst (MarkResumingSessionsFailedForUnavailableRunner ended updated d))"
  "good_update d (fst (ReapStaleSessionsForTerminalRuns dbnow d))"
  unfolding MarkAgentSessionTerminalByTask_def UpdateAgentSessionFromRunnerEvent_def
    PauseAgentSessionByTaskID_def MarkAgentSessionResuming_def AbandonAgentSession_def
    ExpirePausedSessions_def MarkResumingSessionsFailedForUnavailableRunner_def
    ReapStaleSessionsForTerminalRuns_def
  by (rule good_upd_sessions, simp add: fixed_defs split: option.splits; fail)+

lemma good_prompt_updates [keep_intros]:
  "good_update d (fst (AbandonUserPrompt err ended updated i d))"
  "good_update d (fst (MarkUserPromptRunningByTask started updated tid d))"
  "good_update d (fst (MarkUserPromptTerminalByTask status summary err export started ended updated tid d))"
  "good_update d (fst (FailPendingUserPromptsForUnavailableRunner ended updated d))"
  "good_update d (fst (ReapStaleUserPrompts dbnow d))"
  "good_update d (fst (RevertOrphanedRunningUserPrompts dbnow d))"
  unfolding AbandonUserPrompt_def MarkUserPromptRunningByTask_def MarkUserPromptTerminalByTask_def
    FailPendingUserPromptsForUnavailableRunner_def ReapStaleUserPrompts_def
    RevertOrphanedRunningUserPrompts_def
  by (rule good_upd_prompts, simp add: fixed_defs split: option.splits; fail)+

lemma good_search_text [keep_intros]: "good_update d (UpdateTaskSearchText i d)"
  unfolding good_update_def same_shape_def db_later_def UpdateTaskSearchText_def
  by (simp add: map_fixed_sql_update extends_refl extends_update same_fixed_def fixed_defs)

lemma good_trigger_run [keep_intros]: "good_update d (UpdateTriggerRunStatusByTask status tid d)"
  by (rule good_other_tables) (simp_all add: UpdateTriggerRunStatusByTask_def)

lemma good_inserts_other [keep_intros]:
  "InsertTaskEvent e d = Inr d' \<Longrightarrow> good_update d d'"
  "InsertAgentSessionCheckpoint k d = Inr d' \<Longrightarrow> good_update d d'"
  by (auto simp: InsertTaskEvent_def InsertAgentSessionCheckpoint_def intro!: good_other_tables)

section \<open>Inserts into the task hierarchy\<close>

lemma later_inserts:
  "InsertTask q d = Inr d' \<Longrightarrow> db_later d d'"
  "InsertAgentSession s d = Inr d' \<Longrightarrow> db_later d d'"
  "InsertUserPrompt i sid tid n st pr src c u d = Inr d' \<Longrightarrow> db_later d d'"
  "InsertPendingExecutionAttempt i pid n req tmo c u d = Inr d' \<Longrightarrow> db_later d d'"
  by (auto simp: InsertTask_def InsertAgentSession_def InsertUserPrompt_def
      InsertPendingExecutionAttempt_def db_later_def extends_refl extends_snoc)

text \<open>An insert keeps the database well formed when the row it refers to exists.\<close>

lemma wf_InsertTask: "InsertTask q d = Inr d' \<Longrightarrow> wf_db d \<Longrightarrow> wf_db d'"
  by (simp add: InsertTask_def wf_db_def keys_ok_def refs_ok_lists isolation_ok_lists, elim conjE, hypsubst)
    (simp add: subset_insertI2)

text \<open>A session fits a database when its task exists and its other sessions have the same isolation.\<close>

definition session_fits :: "agent_session \<Rightarrow> db \<Rightarrow> bool" where
  "session_fits s d \<longleftrightarrow>
     s_task_id s \<in> t_id ` set (tasks d) \<and>
     (\<forall>s'\<in>set (agent_sessions d). s_task_id s' = s_task_id s \<longrightarrow> s_isolation_required s' = s_isolation_required s)"

lemma single_valued_insert:
  "single_valued (insert (x, y) r) \<longleftrightarrow> single_valued r \<and> (\<forall>y'. (x, y') \<in> r \<longrightarrow> y' = y)"
  by (auto simp: single_valued_def)

lemma wf_InsertAgentSession:
  assumes "InsertAgentSession s d = Inr d'" and "wf_db d" and "session_fits s d"
  shows "wf_db d'"
proof -
  let ?k = "\<lambda>s. (s_task_id s, s_isolation_required s)"
  from assms(1) have d': "d' = d\<lparr>agent_sessions := agent_sessions d @ [unlisted_null s]\<rparr>"
    and new: "s_id s \<notin> s_id ` set (agent_sessions d)"
      "(s_task_id s, s_sequence s) \<notin> (\<lambda>x. (s_task_id x, s_sequence x)) ` set (agent_sessions d)"
    by (auto simp: InsertAgentSession_def unlisted_null_def)
  from assms(3) have fits: "s_task_id s \<in> t_id ` set (tasks d)"
    "\<forall>b. (s_task_id s, b) \<in> ?k ` set (agent_sessions d) \<longrightarrow> b = s_isolation_required s"
    by (auto simp: session_fits_def)
  show ?thesis
    using assms(2) new fits unfolding d' wf_db_def keys_ok_def refs_ok_lists isolation_ok_lists
    by (simp add: unlisted_null_def single_valued_insert subset_insertI2)
qed

lemma wf_InsertUserPrompt:
  assumes "InsertUserPrompt i sid tid n st pr src c u d = Inr d'" and "wf_db d"
    and "tid \<in> t_id ` set (tasks d)"
    and "(sid, tid) \<in> (\<lambda>s. (s_id s, s_task_id s)) ` set (agent_sessions d)"
  shows "wf_db d'"
  using assms by (simp add: InsertUserPrompt_def wf_db_def keys_ok_def refs_ok_lists isolation_ok_lists,
      elim conjE, hypsubst) (simp add: subset_insertI2)

lemma wf_InsertPendingExecutionAttempt:
  assumes "InsertPendingExecutionAttempt i pid n req tmo c u d = Inr d'" and "wf_db d"
    and "pid \<in> p_id ` set (user_prompts d)"
  shows "wf_db d'"
  using assms by (simp add: InsertPendingExecutionAttempt_def wf_db_def keys_ok_def refs_ok_lists
      isolation_ok_lists, elim conjE, hypsubst) simp

section \<open>Look-ups in a well-formed database\<close>

lemma attempt_task_joins_iff:
  "(a, p, t) \<in> set (attempt_task_joins d) \<longleftrightarrow>
     a \<in> set (execution_attempts d) \<and> p \<in> set (user_prompts d) \<and> t \<in> set (tasks d) \<and>
     p_id p = a_user_prompt_id a \<and> t_id t = p_task_id p"
  by (auto simp: attempt_task_joins_def attempt_joins_def)

lemma attempt_joins_iff:
  "(a, p) \<in> set (attempt_joins d) \<longleftrightarrow>
     a \<in> set (execution_attempts d) \<and> p \<in> set (user_prompts d) \<and> p_id p = a_user_prompt_id a"
  by (auto simp: attempt_joins_def)

lemma wf_lookups:
  assumes "wf_db d"
  shows "t \<in> set (tasks d) \<Longrightarrow> GetTaskByID (t_id t) d = Inr t"
    and "s \<in> set (agent_sessions d) \<Longrightarrow> GetAgentSessionByID (s_id s) d = Inr s"
    and "p \<in> set (user_prompts d) \<Longrightarrow> GetUserPromptByID (p_id p) d = Inr p"
    and "a \<in> set (execution_attempts d) \<Longrightarrow> GetExecutionAttemptByID (a_id a) d = Inr a"
  using assms
  by (simp_all add: GetTaskByID_def GetAgentSessionByID_def GetUserPromptByID_def
      GetExecutionAttemptByID_def sql_one_def find_distinct_key wf_db_def keys_ok_def)

lemma wf_session_of_prompt:
  assumes "wf_db d" and "p \<in> set (user_prompts d)"
  obtains s where "s \<in> set (agent_sessions d)" and "s_id s = p_agent_session_id p" and "s_task_id s = p_task_id p"
  using assms unfolding wf_db_def refs_ok_def by blast

lemma wf_task_of_attempt:
  assumes "wf_db d" and "a \<in> set (execution_attempts d)"
  obtains p t where "(a, p, t) \<in> set (attempt_task_joins d)"
  using assms unfolding wf_db_def refs_ok_def attempt_task_joins_iff by metis

lemma wf_unique:
  assumes "wf_db d"
  shows "a \<in> set (execution_attempts d) \<Longrightarrow> b \<in> set (execution_attempts d) \<Longrightarrow> a_id a = a_id b \<Longrightarrow> a = b"
    and "t \<in> set (tasks d) \<Longrightarrow> u \<in> set (tasks d) \<Longrightarrow> t_id t = t_id u \<Longrightarrow> t = u"
    and "p \<in> set (user_prompts d) \<Longrightarrow> q \<in> set (user_prompts d) \<Longrightarrow> p_id p = p_id q \<Longrightarrow> p = q"
    and "s \<in> set (agent_sessions d) \<Longrightarrow> r \<in> set (agent_sessions d) \<Longrightarrow> s_id s = s_id r \<Longrightarrow> s = r"
  using assms by (auto simp: wf_db_def keys_ok_def distinct_map inj_on_def)

lemma claimable_query:
  assumes "GetClaimableExecutionAttemptForUpdate locked runner isolation d = Inr (a, p, t)"
  shows "(a, p, t) \<in> set (attempt_task_joins d)" "claimable runner isolation d (a, p, t)" "\<not> locked a"
    and "\<And>b q u. (b, q, u) \<in> set (attempt_task_joins d) \<Longrightarrow> claimable runner isolation d (b, q, u) \<Longrightarrow>
           \<not> locked b \<Longrightarrow> a_created_at a \<le> a_created_at b"
  using assms
  by (auto simp: GetClaimableExecutionAttemptForUpdate_def dest!: sql_first_asc_Some) blast

section \<open>Advancing\<close>

text \<open>What every operation of the server does to the database: it keeps it well formed and moves it forward.\<close>

definition advances :: "db \<Rightarrow> db \<Rightarrow> bool" where
  "advances d d' \<longleftrightarrow> (wf_db d \<longrightarrow> wf_db d') \<and> db_later d d'"

lemma advances_refl [simp]: "advances d d"
  by (simp add: advances_def)

lemma advances_trans [trans]: "advances d d1 \<Longrightarrow> advances d1 d2 \<Longrightarrow> advances d d2"
  by (auto simp: advances_def intro: db_later_trans)

lemma good_advances: "good_update d d' \<Longrightarrow> advances d d'"
  by (simp add: advances_def good_update_wf) (simp add: good_update_def)

lemma advances_inserts:
  "InsertTask q d = Inr d' \<Longrightarrow> advances d d'"
  "InsertAgentSession s d = Inr d' \<Longrightarrow> (wf_db d \<Longrightarrow> session_fits s d) \<Longrightarrow> advances d d'"
  by (auto simp: advances_def intro: wf_InsertTask wf_InsertAgentSession later_inserts)

lemma advances_InsertUserPrompt:
  assumes "InsertUserPrompt i sid tid n st pr src c u d = Inr d'"
    and "tid \<in> t_id ` set (tasks d)"
    and "(sid, tid) \<in> (\<lambda>s. (s_id s, s_task_id s)) ` set (agent_sessions d)"
  shows "advances d d'"
  using wf_InsertUserPrompt [OF assms(1) _ assms(2,3)] later_inserts(3) [OF assms(1)]
  by (simp add: advances_def)

lemma advances_InsertPendingExecutionAttempt:
  assumes "InsertPendingExecutionAttempt i pid n req tmo c u d = Inr d'"
    and "pid \<in> p_id ` set (user_prompts d)"
  shows "advances d d'"
  using wf_InsertPendingExecutionAttempt [OF assms(1) _ assms(2)] later_inserts(4) [OF assms(1)]
  by (simp add: advances_def)

lemma extends_keys: "extends (same_fixed key) xs ys \<Longrightarrow> key ` set xs \<subseteq> key ` set ys"
proof -
  assume "extends (same_fixed key) xs ys"
  then obtain old new where ys: "ys = old @ new" and "list_all2 (same_fixed key) xs old"
    by (auto simp: extends_def)
  from this(2) have "key ` set xs = key ` set old"
    by (induction rule: list_all2_induct) (auto simp: same_fixed_def)
  with ys show ?thesis by auto
qed

lemma image_via:
  assumes "f ` A \<subseteq> f ` B" and "\<And>x. g x = h (f x)"
  shows "g ` A \<subseteq> g ` B"
proof -
  have "g ` A = h ` f ` A" "g ` B = h ` f ` B" by (auto simp: assms(2) image_image)
  with assms(1) show ?thesis by (simp only: image_mono)
qed

lemma later_keys:
  assumes "db_later d d'"
  shows "t_id ` set (tasks d) \<subseteq> t_id ` set (tasks d')"
    and "(\<lambda>s. (s_id s, s_task_id s)) ` set (agent_sessions d) \<subseteq> (\<lambda>s. (s_id s, s_task_id s)) ` set (agent_sessions d')"
    and "p_id ` set (user_prompts d) \<subseteq> p_id ` set (user_prompts d')"
proof -
  have ts: "t_fixed ` set (tasks d) \<subseteq> t_fixed ` set (tasks d')"
    and ss: "s_fixed ` set (agent_sessions d) \<subseteq> s_fixed ` set (agent_sessions d')"
    and ps: "p_fixed ` set (user_prompts d) \<subseteq> p_fixed ` set (user_prompts d')"
    using assms by (auto simp only: db_later_def dest!: extends_keys)
  show "t_id ` set (tasks d) \<subseteq> t_id ` set (tasks d')"
    by (rule image_via [OF ts, where h = fst]) (simp add: fixed_defs)
  show "(\<lambda>s. (s_id s, s_task_id s)) ` set (agent_sessions d) \<subseteq> (\<lambda>s. (s_id s, s_task_id s)) ` set (agent_sessions d')"
    by (rule image_via [OF ss, where h = "\<lambda>(i, t, _). (i, t)"]) (simp add: fixed_defs)
  show "p_id ` set (user_prompts d) \<subseteq> p_id ` set (user_prompts d')"
    by (rule image_via [OF ps, where h = fst]) (simp add: fixed_defs)
qed

text \<open>
  The pattern of every operation that starts an execution: a session, its first prompt, and the
  pending attempt of the prompt, for a task that exists.
\<close>

lemma advances_new_execution:
  assumes "InsertAgentSession s d = Inr d1" and "InsertUserPrompt pid (s_id s) (s_task_id s) n st pr src c u d1 = Inr d2"
    and "InsertPendingExecutionAttempt aid pid m req tmo c' u' d2 = Inr d3"
    and "s_task_id s \<in> t_id ` set (tasks d)" and "wf_db d \<Longrightarrow> session_fits s d"
  shows "advances d d3"
proof -
  have "advances d d1" using assms(1,5) by (rule advances_inserts)
  also have "advances d1 d2"
    using assms by (intro advances_InsertUserPrompt [OF assms(2)])
      (auto simp: InsertAgentSession_def unlisted_null_def)
  also have "advances d2 d3"
    using assms(2) by (intro advances_InsertPendingExecutionAttempt [OF assms(3)])
      (auto simp: InsertUserPrompt_def)
  finally show ?thesis .
qed

text \<open>The two ways a new session fits: it follows an older one of its task, or its task is new.\<close>

lemma wf_session_task: "wf_db d \<Longrightarrow> s \<in> set (agent_sessions d) \<Longrightarrow> s_task_id s \<in> t_id ` set (tasks d)"
proof -
  assume "wf_db d" and "s \<in> set (agent_sessions d)"
  then have "s_task_id s \<in> set (map s_task_id (agent_sessions d))"
    and "set (map s_task_id (agent_sessions d)) \<subseteq> set (map t_id (tasks d))"
    by (simp_all only: wf_db_def refs_ok_lists set_map image_eqI simp_thms)
  then show ?thesis by auto
qed

lemma fits_successor:
  assumes "wf_db d" and "old \<in> set (agent_sessions d)"
    and "s_task_id s = s_task_id old" and "s_isolation_required s = s_isolation_required old"
  shows "session_fits s d"
proof -
  have iso_ok: "isolation_ok d" using assms(1) by (simp add: wf_db_def)
  have "s_isolation_required s' = s_isolation_required s"
    if "s' \<in> set (agent_sessions d)" "s_task_id s' = s_task_id s" for s'
    using iso_ok [unfolded isolation_ok_def, rule_format, OF that(1) assms(2)] that(2) assms(3,4) by simp
  with wf_session_task [OF assms(1,2)] assms(3) show ?thesis by (simp add: session_fits_def)
qed

lemma fits_new_task:
  assumes "wf_db d" and "InsertTask q d = Inr d1" and "s_task_id s = it_id q"
  shows "session_fits s d1"
proof -
  from assms(2) have "it_id q \<notin> t_id ` set (tasks d)" "it_id q \<in> t_id ` set (tasks d1)"
    "agent_sessions d1 = agent_sessions d" by (auto simp: InsertTask_def)
  moreover have "s_task_id s' \<noteq> it_id q" if "s' \<in> set (agent_sessions d)" for s'
    using wf_session_task [OF assms(1) that] calculation(1) by metis
  ultimately show ?thesis using assms(3) by (simp add: session_fits_def)
qed

lemma latest_session_in:
  "GetAgentSessionByTaskID tid d = Inr s \<Longrightarrow> s \<in> set (agent_sessions d) \<and> s_task_id s = tid"
  by (auto simp: GetAgentSessionByTaskID_def latest_session_def dest!: sql_first_desc_Some)

lemma session_fits_lists:
  "session_fits s d \<longleftrightarrow>
     s_task_id s \<in> set (map t_id (tasks d)) \<and>
     (\<forall>b. (s_task_id s, b) \<in> set (map (\<lambda>s. (s_task_id s, s_isolation_required s)) (agent_sessions d)) \<longrightarrow>
        b = s_isolation_required s)"
  by (simp add: session_fits_def image_iff) metis

lemma fits_update: "good_update d d' \<Longrightarrow> session_fits s d' = session_fits s d"
  using same_shape_maps [of d d'] by (simp only: good_update_def session_fits_lists)

end
