(* ===== verification/Chetter_Tx.thy ===== *)
theory Chetter_Tx
  imports Chetter_Store
begin

text \<open>
  Transactions and retries: \<^verbatim>\<open>internal/service/tx.go\<close> and
  \<^verbatim>\<open>internal/store/retry.go\<close>. What the database does in one attempt (the error of
  \<^verbatim>\<open>BeginTx\<close>, the state the transaction reads, whether the commit reports an error and
  whether it took effect nevertheless) is an environment indexed by the attempt.
\<close>

section \<open>Classification of database errors\<close>

fun rpc_code_text :: "rpc_code \<Rightarrow> string" where
  "rpc_code_text CodeInvalidArgument = ''invalid_argument''"
| "rpc_code_text CodeInternal = ''internal''"
| "rpc_code_text CodeFailedPrecondition = ''failed_precondition''"
| "rpc_code_text CodeCanceled = ''canceled''"
| "rpc_code_text CodePermissionDenied = ''permission_denied''"
| "rpc_code_text CodeUnavailable = ''unavailable''"

text \<open>\<^verbatim>\<open>err.Error()\<close>.\<close>

fun err_text :: "error \<Rightarrow> string" where
  "err_text SqlNoRows = ''sql: no rows in result set''"
| "err_text SqlDuplicateKey = ''Error 1062 (23000): Duplicate entry''"
| "err_text (MySQLError n m) = m"
| "err_text (PgError c m) = m"
| "err_text (NetOpError m) = m"
| "err_text (SyscallError c m) = m"
| "err_text (DbError m) = m"
| "err_text ErrNoClaimableTask = ''no claimable task''"
| "err_text ErrTaskNotClaimed = ''task is not claimed by runner''"
| "err_text ErrEventCallbackRecursionLimit = ''event_callback_recursion_limit''"
| "err_text (CtxErr m) = m"
| "err_text (PendingTaskCapacity limit current) =
     ''pending task admission limit reached ('' @ show_int current @ '' pending, limit '' @
     show_int limit @ ''): retry when capacity frees up''"
| "err_text (Errorf m) = m"
| "err_text (Wrap m e) = m @ '': '' @ err_text e"
| "err_text (WrapFirst e m) = err_text e @ '': '' @ m"
| "err_text (ConnectError c e) = rpc_code_text c @ '': '' @ err_text e"

text \<open>\<^verbatim>\<open>errors.As\<close> with the driver's error types: the first of the type in the chain.\<close>

fun as_mysql :: "error \<Rightarrow> int option" where
  "as_mysql (MySQLError n m) = Some n"
| "as_mysql SqlDuplicateKey = Some 1062"
| "as_mysql (Wrap m e) = as_mysql e"
| "as_mysql (WrapFirst e m) = as_mysql e"
| "as_mysql (ConnectError c e) = as_mysql e"
| "as_mysql e = None"

fun as_postgres :: "error \<Rightarrow> string option" where
  "as_postgres (PgError c m) = Some c"
| "as_postgres (Wrap m e) = as_postgres e"
| "as_postgres (WrapFirst e m) = as_postgres e"
| "as_postgres (ConnectError c e) = as_postgres e"
| "as_postgres e = None"

fun as_net :: "error \<Rightarrow> bool" where
  "as_net (NetOpError m) = True"
| "as_net (Wrap m e) = as_net e"
| "as_net (WrapFirst e m) = as_net e"
| "as_net (ConnectError c e) = as_net e"
| "as_net e = False"

fun is_syscall :: "error \<Rightarrow> string list \<Rightarrow> bool" where
  "is_syscall (SyscallError c m) codes = (c \<in> set codes)"
| "is_syscall (Wrap m e) codes = is_syscall e codes"
| "is_syscall (WrapFirst e m) codes = is_syscall e codes"
| "is_syscall (ConnectError c e) codes = is_syscall e codes"
| "is_syscall e codes = False"

definition text_has :: "error \<Rightarrow> string list \<Rightarrow> bool" where
  "text_has e subs = list_ex (contains (err_text e)) subs"

definition isRetryableTxError :: "error \<Rightarrow> bool" where
  "isRetryableTxError e =
     ((case as_mysql e of None \<Rightarrow> False | Some n \<Rightarrow> n \<in> {1205, 1213, 8028, 9007}) \<or>
      (case as_postgres e of None \<Rightarrow> False | Some c \<Rightarrow> c \<in> {''40001'', ''40P01'', ''55P03''}) \<or>
      text_has e [''Deadlock'', ''Lock wait timeout'', ''Write conflict'', ''try again later''])"

definition isNetworkError :: "error \<Rightarrow> bool" where
  "isNetworkError e =
     (as_net e \<or> is_syscall e [''ECONNREFUSED'', ''EPIPE'', ''ECONNRESET''] \<or>
      (text_has e [''connect:''] \<and> text_has e [''connection refused'', ''no route to host'']))"

definition IsTransientError :: "error \<Rightarrow> bool" where
  "IsTransientError e =
     (isNetworkError e \<or>
      (case as_mysql e of None \<Rightarrow> False
       | Some n \<Rightarrow> n \<in> {1205, 1213, 2002, 2003, 2006, 2013, 8028, 9007}) \<or>
      (case as_postgres e of None \<Rightarrow> False
       | Some c \<Rightarrow> c \<in> {''08000'', ''08001'', ''08003'', ''08004'', ''08006'', ''08007'', ''40001'',
           ''40P01'', ''53P00'', ''55P03'', ''57P01'', ''57P02'', ''57P03''}) \<or>
      text_has e [''connection refused'', ''broken pipe'', ''connection reset by peer'',
        ''i/o timeout'', ''no such host'', ''try again later'', ''Deadlock'', ''Lock wait timeout'',
        ''Write conflict''])"

definition isDuplicateKeyError :: "error \<Rightarrow> bool" where
  "isDuplicateKeyError e =
     text_has e [''Duplicate entry'', ''duplicate key'', ''unique constraint'']"

definition isInboundPermanentTaskError :: "error \<Rightarrow> bool" where
  "isInboundPermanentTaskError e =
     (\<not> isRetryableTxError e \<and> \<not> IsTransientError e \<and>
      \<not> list_ex (contains (to_lower (err_text e)))
        [''database not available'', ''connection refused'', ''connection reset'', ''dial tcp'',
         ''context deadline exceeded'', ''i/o timeout'', ''write conflict'', ''lock wait timeout'',
         ''deadlock'', ''too many connections''])"

section \<open>withTxRetry\<close>

record tx_env =
  ctx_err :: "error option"
  begin_err :: "error option"
  snapshot :: db
  commit_err :: "error option"
  commit_applied :: bool

text \<open>
  What one call of \<^verbatim>\<open>withTxRetryOptions\<close> did: the value it returned, the states written by
  those of its transactions that took effect, in their order, how often it ran the closure, and the
  delays it slept, in milliseconds.
\<close>

record 'a tx_outcome =
  tx_res :: "error + 'a"
  tx_applied :: "db list"
  tx_runs :: nat
  tx_delays :: "nat list"

definition txMaxAttempts :: nat where
  "txMaxAttempts = 3"

fun withTxRetry_from ::
  "(nat \<Rightarrow> tx_env) \<Rightarrow> 'a tx \<Rightarrow> nat \<Rightarrow> nat \<Rightarrow> error \<Rightarrow> 'a tx_outcome" where
  "withTxRetry_from env fn 0 attempt lastErr =
     \<lparr>tx_res = Inl lastErr, tx_applied = [], tx_runs = 0, tx_delays = []\<rparr>"
| "withTxRetry_from env fn (Suc left) attempt lastErr =
     (case ctx_err (env attempt) of
        Some e \<Rightarrow> \<lparr>tx_res = Inl e, tx_applied = [], tx_runs = 0, tx_delays = []\<rparr>
      | None \<Rightarrow>
     (case begin_err (env attempt) of
        Some e \<Rightarrow>
          if IsTransientError e \<and> left > 0 then
            (let r = withTxRetry_from env fn left (Suc attempt) e
             in r\<lparr>tx_delays := (attempt + 1) * 25 # tx_delays r\<rparr>)
          else \<lparr>tx_res = Inl e, tx_applied = [], tx_runs = 0, tx_delays = []\<rparr>
      | None \<Rightarrow>
     (case fn (snapshot (env attempt)) of
        Inl e \<Rightarrow>
          if isRetryableTxError e \<and> left > 0 then
            (let r = withTxRetry_from env fn left (Suc attempt) e
             in r\<lparr>tx_runs := Suc (tx_runs r), tx_delays := (attempt + 1) * 25 # tx_delays r\<rparr>)
          else \<lparr>tx_res = Inl e, tx_applied = [], tx_runs = 1, tx_delays = []\<rparr>
      | Inr (x, d') \<Rightarrow>
          (case commit_err (env attempt) of
             Some e \<Rightarrow> \<lparr>tx_res = Inl e,
               tx_applied = (if commit_applied (env attempt) then [d'] else []),
               tx_runs = 1, tx_delays = []\<rparr>
           | None \<Rightarrow> \<lparr>tx_res = Inr x, tx_applied = [d'], tx_runs = 1, tx_delays = []\<rparr>))))"

definition withTxRetry :: "(nat \<Rightarrow> tx_env) \<Rightarrow> 'a tx \<Rightarrow> 'a tx_outcome" where
  "withTxRetry env fn = withTxRetry_from env fn txMaxAttempts 0 (Errorf [])"

section \<open>retryTransient\<close>

text \<open>In milliseconds.\<close>

definition transientBackoff :: "nat list" where
  "transientBackoff = [100, 500, 1000, 2000, 5000]"

definition transientMaxRetries :: nat where
  "transientMaxRetries = 3"

text \<open>
  \<open>ctx n\<close> is the error of the context before call \<open>n\<close>, \<open>cancelled n\<close> its error if it ends during
  the delay after call \<open>n\<close>, and \<open>fn n\<close> the error of the operation in call \<open>n\<close>. The result is the
  error returned, the number of calls made and the delays.
\<close>

fun retryTransient_from ::
  "(nat \<Rightarrow> error option) \<Rightarrow> (nat \<Rightarrow> error option) \<Rightarrow> (nat \<Rightarrow> error option) \<Rightarrow> nat \<Rightarrow> nat \<Rightarrow>
   error option \<times> nat \<times> nat list" where
  "retryTransient_from ctx cancelled fn left attempt =
     (case ctx attempt of Some e \<Rightarrow> (Some e, 0, [])
      | None \<Rightarrow>
     (case fn attempt of None \<Rightarrow> (None, 1, [])
      | Some e \<Rightarrow>
          if \<not> IsTransientError e then (Some e, 1, [])
          else (case left of 0 \<Rightarrow> (Some e, 1, [])
           | Suc l \<Rightarrow>
               let delay = transientBackoff ! min attempt (length transientBackoff - 1) in
               (case cancelled attempt of Some c \<Rightarrow> (Some c, 1, [delay])
                | None \<Rightarrow> (let (r, n, ds) = retryTransient_from ctx cancelled fn l (Suc attempt)
                         in (r, Suc n, delay # ds))))))"

declare retryTransient_from.simps [simp del]

definition RetryTransient ::
  "(nat \<Rightarrow> error option) \<Rightarrow> (nat \<Rightarrow> error option) \<Rightarrow> (nat \<Rightarrow> error option) \<Rightarrow>
   error option \<times> nat \<times> nat list" where
  "RetryTransient ctx cancelled fn = retryTransient_from ctx cancelled fn transientMaxRetries 0"

section \<open>Lemmas\<close>

text \<open>A deadlock, a lock wait or a write conflict is both retryable and transient.\<close>

lemma retryable_is_transient: "isRetryableTxError e \<Longrightarrow> IsTransientError e"
  by (auto simp: isRetryableTxError_def IsTransientError_def text_has_def split: option.splits)

lemma no_rows_not_retryable: "\<not> isRetryableTxError SqlNoRows"
  by (code_simp)

lemma withTxRetry_runs: "tx_runs (withTxRetry_from env fn n k e) \<le> n"
  by (induction env fn n k e rule: withTxRetry_from.induct)
    (auto simp: Let_def split: option.splits sum.splits)

text \<open>One attempt either ends the call or hands it to the next attempt.\<close>

lemma withTxRetry_step:
  assumes r_def: "r = withTxRetry_from env fn (Suc n) k e"
  obtains (fail) e' where "tx_res r = Inl e'" and "tx_applied r = []"
    | (commit) x d' where "fn (snapshot (env k)) = Inr (x, d')" and "commit_err (env k) = None"
        and "tx_res r = Inr x" and "tx_applied r = [d']"
    | (ambiguous) x d' e' where "fn (snapshot (env k)) = Inr (x, d')" and "commit_err (env k) = Some e'"
        and "tx_res r = Inl e'" and "tx_applied r = (if commit_applied (env k) then [d'] else [])"
    | (again) e' where "tx_res r = tx_res (withTxRetry_from env fn n (Suc k) e')"
        and "tx_applied r = tx_applied (withTxRetry_from env fn n (Suc k) e')"
proof -
  consider (ctx) e' where "ctx_err (env k) = Some e'"
    | (nobegin) e' where "ctx_err (env k) = None" "begin_err (env k) = Some e'"
    | (err) e' where "ctx_err (env k) = None" "begin_err (env k) = None"
        "fn (snapshot (env k)) = Inl e'"
    | (ok) x d' where "ctx_err (env k) = None" "begin_err (env k) = None"
        "fn (snapshot (env k)) = Inr (x, d')"
    by (cases "ctx_err (env k)"; cases "begin_err (env k)"; cases "fn (snapshot (env k))") auto
  then show thesis
  proof cases
    case ctx
    then show thesis using fail by (simp add: r_def)
  next
    case (nobegin e')
    then show thesis using fail again [of e']
      by (cases "IsTransientError e' \<and> n > 0") (auto simp: r_def Let_def)
  next
    case (err e')
    then show thesis using fail again [of e']
      by (cases "isRetryableTxError e' \<and> n > 0") (auto simp: r_def Let_def)
  next
    case (ok x d')
    then show thesis using commit [of x d'] ambiguous [of x d']
      by (cases "commit_err (env k)") (auto simp: r_def)
  qed
qed

text \<open>Whatever is returned as success was computed by the closure on a snapshot and committed.\<close>

lemma withTxRetry_success:
  "tx_res (withTxRetry_from env fn n k e) = Inr x \<Longrightarrow>
   \<exists>j d'. k \<le> j \<and> j < k + n \<and> fn (snapshot (env j)) = Inr (x, d') \<and> commit_err (env j) = None \<and>
     tx_applied (withTxRetry_from env fn n k e) = [d']"
proof (induction n arbitrary: k e)
  case (Suc n)
  show ?case
  proof (cases rule: withTxRetry_step [OF refl, of env fn n k e, case_names fail commit ambiguous again])
    case (again e')
    with Suc.IH [of "Suc k" e'] Suc.prems obtain j d' where
      "Suc k \<le> j" "j < Suc k + n" "fn (snapshot (env j)) = Inr (x, d')" "commit_err (env j) = None"
      "tx_applied (withTxRetry_from env fn n (Suc k) e') = [d']" by auto
    with again show ?thesis by (intro exI [of _ j] exI [of _ d']) simp
  qed (use Suc.prems in \<open>auto simp del: withTxRetry_from.simps intro!: exI [of _ k]\<close>)
qed simp

text \<open>At most one transaction of a call takes effect.\<close>

lemma withTxRetry_once: "length (tx_applied (withTxRetry_from env fn n k e)) \<le> 1"
proof (induction n arbitrary: k e)
  case (Suc n)
  show ?case
    by (cases rule: withTxRetry_step [OF refl, of env fn n k e, case_names fail commit ambiguous again])
      (use Suc.IH in \<open>auto simp del: withTxRetry_from.simps\<close>)
qed simp

text \<open>Nothing is written when an error is returned, unless the commit itself reported the error.\<close>

lemma withTxRetry_rollback:
  "d' \<in> set (tx_applied (withTxRetry_from env fn n k e)) \<Longrightarrow>
   \<exists>j x. k \<le> j \<and> j < k + n \<and> fn (snapshot (env j)) = Inr (x, d') \<and>
     (commit_err (env j) = None \<or> commit_applied (env j))"
proof (induction n arbitrary: k e)
  case (Suc n)
  show ?case
  proof (cases rule: withTxRetry_step [OF refl, of env fn n k e, case_names fail commit ambiguous again])
    case (again e')
    with Suc.IH [of "Suc k" e'] Suc.prems obtain j x where
      "Suc k \<le> j" "j < Suc k + n" "fn (snapshot (env j)) = Inr (x, d')"
      "commit_err (env j) = None \<or> commit_applied (env j)" by auto
    then show ?thesis by (intro exI [of _ j] exI [of _ x]) simp
  qed (use Suc.prems in \<open>auto simp del: withTxRetry_from.simps intro!: exI [of _ k] split: if_splits\<close>)
qed simp

text \<open>With nothing failing around it, the call is the closure.\<close>

lemma withTxRetry_quiet:
  assumes "\<And>k. ctx_err (env k) = None \<and> begin_err (env k) = None \<and> commit_err (env k) = None"
    and "\<And>k. snapshot (env k) = d"
    and "\<And>e. fn d = Inl e \<Longrightarrow> \<not> isRetryableTxError e"
  shows "tx_res (withTxRetry env fn) = map_sum id fst (fn d)"
    and "tx_applied (withTxRetry env fn) = (case fn d of Inl e \<Rightarrow> [] | Inr (x, d') \<Rightarrow> [d'])"
  using assms
  by (auto simp: withTxRetry_def txMaxAttempts_def numeral_3_eq_3 split: sum.splits)

lemma retryTransient_calls: "fst (snd (retryTransient_from ctx cancelled fn n k)) \<le> Suc n"
proof (induction n arbitrary: k)
  case 0
  show ?case by (subst retryTransient_from.simps) (simp split: option.splits)
next
  case (Suc n)
  from Suc [of "Suc k"] show ?case
    by (subst retryTransient_from.simps) (auto simp: Let_def split: option.splits prod.splits)
qed

text \<open>
  An error that is not transient is returned at once; success of some call within the budget is
  reported as success when the calls before it failed transiently and the context lives.
\<close>

lemma retryTransient_permanent:
  "ctx k = None \<Longrightarrow> fn k = Some e \<Longrightarrow> \<not> IsTransientError e \<Longrightarrow>
     retryTransient_from ctx cancelled fn n k = (Some e, 1, [])"
  by (subst retryTransient_from.simps) simp

lemma retryTransient_recovers:
  assumes "\<And>i. ctx i = None \<and> cancelled i = None"
    and "\<And>i. i < m \<Longrightarrow> \<exists>e. fn (k + i) = Some e \<and> IsTransientError e" and "fn (k + m) = None" and "m \<le> n"
  shows "fst (retryTransient_from ctx cancelled fn n k) = None \<and>
         fst (snd (retryTransient_from ctx cancelled fn n k)) = Suc m"
  using assms(2-)
proof (induction m arbitrary: n k)
  case 0
  then show ?case using assms(1) by (subst (1 2) retryTransient_from.simps) simp
next
  case (Suc m)
  from Suc.prems(3) obtain l where n: "n = Suc l" by (cases n) auto
  from Suc.prems(1) [of 0] obtain e where e: "fn k = Some e" "IsTransientError e" by auto
  have "\<exists>e. fn (Suc k + i) = Some e \<and> IsTransientError e" if "i < m" for i
    using Suc.prems(1) [of "Suc i"] that by simp
  then have "fst (retryTransient_from ctx cancelled fn l (Suc k)) = None \<and>
      fst (snd (retryTransient_from ctx cancelled fn l (Suc k))) = Suc m"
    using Suc.prems(2,3) n by (intro Suc.IH) auto
  then show ?case using e n assms(1)
    by (subst (1 2) retryTransient_from.simps) (auto simp: Let_def split: prod.splits)
qed

end
