(* ===== verification/Chetter_Classify.thy ===== *)
theory Chetter_Classify
  imports Chetter_Strings
begin

text \<open>
  The pure helpers of \<^verbatim>\<open>internal/service/runner_rpc.go\<close>: the maps from a runner's event
  status to the statuses of the attempt, the prompt and the session, the classification of
  failures, event types, and the parsing of time stamps.
\<close>

section \<open>Status maps\<close>

definition executionAttemptStatus :: "string \<Rightarrow> string" where
  "executionAttemptStatus taskStatus =
     (if taskStatus = ''done'' \<or> taskStatus = ''completed'' then ''succeeded''
      else if taskStatus = ''error'' then ''failed''
      else if taskStatus = ''cancelled'' then ''cancelled''
      else ''running'')"

text \<open>The pair (run status, session status), or \<open>None\<close> where the source returns \<open>ok = false\<close>.\<close>

definition sessionTerminalStatuses :: "string \<Rightarrow> (string \<times> string) option" where
  "sessionTerminalStatuses taskStatus =
     (if taskStatus = ''done'' \<or> taskStatus = ''completed'' then Some (''completed'', ''completed'')
      else if taskStatus = ''error'' then Some (''failed'', ''error'')
      else if taskStatus = ''cancelled'' then Some (''cancelled'', ''error'')
      else None)"

definition statusIsErrorCategoryCandidate :: "string \<Rightarrow> bool" where
  "statusIsErrorCategoryCandidate status = (status = ''error'' \<or> status = ''cancelled'')"

definition errorCategories :: "string list" where
  "errorCategories = [''budget_exceeded'', ''model_error'', ''runtime_error'', ''timeout'',
     ''transport_error'', ''stuck'', ''resource_limit'', ''cancelled'', ''unknown'',
     ''sandbox_start_failed'', ''sandbox_crashed'']"

definition normalizeErrorCategory :: "string \<Rightarrow> string" where
  "normalizeErrorCategory category =
     (if category \<in> set errorCategories then category else [])"

definition isRecoverablePromptError :: "string \<Rightarrow> bool" where
  "isRecoverablePromptError errorCategory =
     (errorCategory = ''timeout'' \<or> errorCategory = ''transport_error'')"

section \<open>Failure classification\<close>

definition contains_any :: "string \<Rightarrow> string list \<Rightarrow> bool" where
  "contains_any s subs = list_ex (contains s) subs"

definition isPromptTransportFailureMessage :: "string \<Rightarrow> bool" where
  "isPromptTransportFailureMessage lower =
     (contains lower ''post /message'' \<and>
      contains_any lower [''eof'', ''connection reset'', ''broken pipe'', ''server closed'',
        ''connection refused''])"

definition classifyTaskErrorCategory :: "string \<Rightarrow> string \<Rightarrow> string" where
  "classifyTaskErrorCategory status message =
     (if status = ''cancelled'' then ''cancelled'' else
      let lower = to_lower message in
      if contains_any lower [''sandbox failed to start'', ''sandbox_start_failed'']
        then ''sandbox_start_failed''
      else if contains_any lower [''sandbox crashed'', ''sandbox_crashed''] then ''sandbox_crashed''
      else if contains_any lower [''budget'', ''cost limit'', ''max budget''] then ''budget_exceeded''
      else if contains_any lower [''oomkilled'', ''out of memory'', ''memory limit'',
        ''resource limit'', ''cgroup memory''] then ''resource_limit''
      else if contains_any lower [''timeout'', ''deadline exceeded'', ''context deadline'',
        ''lease expired''] then ''timeout''
      else if isPromptTransportFailureMessage lower then ''transport_error''
      else if contains_any lower [''stuck'', ''loop''] then ''stuck''
      else if contains_any lower [''model'', ''llm'', ''rate limit'', ''provider'', ''api error'']
        then ''model_error''
      else if message = [] then ''unknown''
      else ''runtime_error'')"

definition classifyFailureCategory :: "string \<Rightarrow> string" where
  "classifyFailureCategory errorCategory =
     (if errorCategory = ''timeout'' then ''timeout''
      else if errorCategory = ''cancelled'' then ''user_cancelled''
      else if errorCategory = ''budget_exceeded'' then ''quota_exceeded''
      else if errorCategory = ''model_error'' then ''internal_error''
      else if errorCategory = ''resource_limit'' then ''resource_limit''
      else if errorCategory \<in> {''runtime_error'', ''transport_error'', ''stuck'',
        ''isolation_unavailable'', ''sandbox_start_failed'', ''sandbox_crashed''} then ''harness_error''
      else ''unknown'')"

definition truncateTo500 :: "string \<Rightarrow> string" where
  "truncateTo500 s = (if length s \<le> 500 then s else take 497 s @ ''...'')"

section \<open>Event types\<close>

definition event_type_char :: "char \<Rightarrow> bool" where
  "event_type_char c = (let n = (of_char c :: nat) in
     (97 \<le> n \<and> n \<le> 122) \<or> (48 \<le> n \<and> n \<le> 57) \<or> c = CHR ''.'' \<or> c = CHR ''_'' \<or> c = CHR ''-'')"

definition sanitizeEventTypePart :: "string \<Rightarrow> string" where
  "sanitizeEventTypePart part =
     (if part = [] then ''unknown''
      else let b = map (\<lambda>c. if event_type_char c then c else CHR ''_'') (to_lower part)
           in if b = [] then ''unknown'' else b)"

definition taskEventType :: "string \<Rightarrow> string \<Rightarrow> bool \<Rightarrow> string" where
  "taskEventType status errorCategory heartbeat =
     (if heartbeat then ''task.heartbeat''
      else if status = ''done'' \<or> status = ''completed'' then ''task.completed''
      else if status = ''error'' then
        ''task.failed.'' @ (if errorCategory = [] then ''unknown'' else errorCategory)
      else if status = ''cancelled'' then ''task.cancelled''
      else if status = ''running'' then ''task.progress''
      else ''task.'' @ sanitizeEventTypePart status)"

definition isHeartbeatSummary :: "string \<Rightarrow> bool" where
  "isHeartbeatSummary summary = contains summary ''server.heartbeat''"

section \<open>Lists of names\<close>

fun normalize_seen :: "string list \<Rightarrow> string list \<Rightarrow> string list" where
  "normalize_seen seen [] = []"
| "normalize_seen seen (v # vs) =
     (let value = trim_space v in
      if value = [] \<or> value \<in> set seen then normalize_seen seen vs
      else value # normalize_seen (value # seen) vs)"

definition normalizeTeamNames :: "string list \<Rightarrow> string list" where
  "normalizeTeamNames values = normalize_seen [] values"

definition splitCSV :: "string \<Rightarrow> string list" where
  "splitCSV value =
     (if trim_space value = [] then [] else normalizeTeamNames (split_on (CHR '','') value))"

section \<open>Lemmas\<close>

text \<open>The two switches over the task status agree on which statuses end an execution.\<close>

lemma attempt_running_iff_not_terminal:
  "executionAttemptStatus st = ''running'' \<longleftrightarrow> sessionTerminalStatuses st = None"
  by (simp add: executionAttemptStatus_def sessionTerminalStatuses_def)

lemma executionAttemptStatus_range:
  "executionAttemptStatus st \<in> {''running'', ''succeeded'', ''failed'', ''cancelled''}"
  by (simp add: executionAttemptStatus_def)

lemma executionAttemptStatus_not_pending [simp]: "executionAttemptStatus st \<noteq> ''pending''"
  by (simp add: executionAttemptStatus_def)

lemma sessionTerminalStatuses_Some:
  "sessionTerminalStatuses st = Some (run, ses) \<Longrightarrow>
     run \<in> {''completed'', ''failed'', ''cancelled''} \<and> ses \<in> {''completed'', ''error''}"
  by (simp add: sessionTerminalStatuses_def split: if_splits) auto

lemma normalizeErrorCategory_idem:
  "normalizeErrorCategory (normalizeErrorCategory c) = normalizeErrorCategory c"
  by (simp add: normalizeErrorCategory_def errorCategories_def)

lemma classifyTaskErrorCategory_known: "classifyTaskErrorCategory st msg \<in> set errorCategories"
  by (simp add: classifyTaskErrorCategory_def errorCategories_def Let_def)

lemma classifyTaskErrorCategory_normal:
  "normalizeErrorCategory (classifyTaskErrorCategory st msg) = classifyTaskErrorCategory st msg"
  using classifyTaskErrorCategory_known [of st msg] by (simp add: normalizeErrorCategory_def)

lemma classifyFailureCategory_range:
  "classifyFailureCategory c \<in> {''timeout'', ''harness_error'', ''internal_error'',
     ''user_cancelled'', ''quota_exceeded'', ''unknown'', ''resource_limit''}"
  by (simp add: classifyFailureCategory_def)

lemma length_truncateTo500: "length (truncateTo500 s) \<le> 500"
  by (simp add: truncateTo500_def)

lemma truncateTo500_short: "length s \<le> 500 \<Longrightarrow> truncateTo500 s = s"
  by (simp add: truncateTo500_def)

lemma sanitizeEventTypePart_chars:
  "sanitizeEventTypePart part \<noteq> [] \<and> list_all event_type_char (sanitizeEventTypePart part)"
proof -
  have us: "event_type_char (CHR ''_'')" by (simp add: event_type_char_def)
  have unk: "list_all event_type_char ''unknown''"
    by (simp add: event_type_char_def Let_def)
  have "list_all event_type_char (map (\<lambda>c. if event_type_char c then c else CHR ''_'') xs)" for xs
    using us by (induction xs) auto
  with unk show ?thesis by (simp add: sanitizeEventTypePart_def Let_def)
qed

lemma normalize_seen_set:
  "set (normalize_seen seen vs) = trim_space ` set vs - insert [] (set seen)"
  by (induction seen vs rule: normalize_seen.induct) (auto simp: Let_def)

lemma normalize_seen_distinct: "distinct (normalize_seen seen vs)"
  by (induction seen vs rule: normalize_seen.induct) (auto simp: Let_def normalize_seen_set)

lemma normalizeTeamNames_set: "set (normalizeTeamNames vs) = trim_space ` set vs - {[]}"
  by (simp add: normalizeTeamNames_def normalize_seen_set)

lemma normalizeTeamNames_distinct: "distinct (normalizeTeamNames vs)"
  by (simp add: normalizeTeamNames_def normalize_seen_distinct)

lemma normalize_seen_id:
  "distinct vs \<Longrightarrow> \<forall>v\<in>set vs. trim_space v = v \<and> v \<noteq> [] \<and> v \<notin> set seen \<Longrightarrow> normalize_seen seen vs = vs"
proof (induction vs arbitrary: seen)
  case Nil
  show ?case by simp
next
  case (Cons v vs)
  then have "normalize_seen (v # seen) vs = vs" by (intro Cons.IH) auto
  with Cons.prems show ?case by simp
qed

lemma normalizeTeamNames_idem: "normalizeTeamNames (normalizeTeamNames vs) = normalizeTeamNames vs"
proof -
  have "\<forall>v\<in>set (normalizeTeamNames vs). trim_space v = v \<and> v \<noteq> [] \<and> v \<notin> set []"
    by (auto simp: normalizeTeamNames_set)
  then have "normalize_seen [] (normalizeTeamNames vs) = normalizeTeamNames vs"
    by (intro normalize_seen_id normalizeTeamNames_distinct)
  then show ?thesis by (simp add: normalizeTeamNames_def)
qed

end
