(* ===== verification/Chetter_Lease.thy ===== *)
theory Chetter_Lease
  imports Chetter_Prelude
begin

text \<open>
  The contract of the two queues that replicas drain under leases, the callback outbox
  (\<^verbatim>\<open>callback_deliveries.go\<close>) and the inbox of inbound webhooks (\<^verbatim>\<open>inbound_deliveries.go\<close>):
  a claim takes rows that are due, keeps the keys of the table, and leaves the rows it took not due
  until its lease has run out. In the locale this gives exclusive claims, over any number of later
  claims by any workers.
\<close>

text \<open>Claims of several workers, one after the other: what each of them got.\<close>

fun claim_all ::
  "(('r \<Rightarrow> bool) \<Rightarrow> time \<Rightarrow> 's \<Rightarrow> 'r list \<times> 's) \<Rightarrow> (('r \<Rightarrow> bool) \<times> time) list \<Rightarrow> 's \<Rightarrow> 'r list list \<times> 's" where
  "claim_all claim [] s = ([], s)"
| "claim_all claim ((locked, now) # cs) s =
     (let (items, s1) = claim locked now s; (rest, s2) = claim_all claim cs s1 in (items # rest, s2))"

locale leased_queue =
  fixes rows :: "'s \<Rightarrow> 'r list" and key :: "'r \<Rightarrow> string" and due :: "time \<Rightarrow> 'r \<Rightarrow> bool"
    and claim :: "('r \<Rightarrow> bool) \<Rightarrow> time \<Rightarrow> 's \<Rightarrow> 'r list \<times> 's" and duration :: time
  assumes claim_takes_due:
      "claim locked now s = (items, s') \<Longrightarrow> r \<in> set items \<Longrightarrow> \<exists>x \<in> set (rows s). key x = key r \<and> due now x"
    and claim_keeps_keys: "claim locked now s = (items, s') \<Longrightarrow> map key (rows s') = map key (rows s)"
    and claim_holds:
      "claim locked now s = (items, s') \<Longrightarrow> distinct (map key (rows s)) \<Longrightarrow> x \<in> set (rows s') \<Longrightarrow>
       key x \<in> key ` set items \<Longrightarrow> now' \<le> now + duration \<Longrightarrow> \<not> due now' x"
    and claim_keeps_others:
      "claim locked now s = (items, s') \<Longrightarrow> x \<in> set (rows s') \<Longrightarrow> key x \<notin> key ` set items \<Longrightarrow> x \<in> set (rows s)"
begin

text \<open>A row that is not due in a stretch of time is taken by no claim in it, and stays as it is.\<close>

lemma claim_all_skip:
  assumes "claim_all claim cs s = (got, s')" and "distinct (map key (rows s))"
    and "list_all (\<lambda>c. \<not> list_ex (\<lambda>x. key x = k \<and> due (snd c) x) (rows s)) cs"
  shows "list_all (\<lambda>items. k \<notin> key ` set items) got"
  using assms
proof (induction cs arbitrary: s got s')
  case (Cons c cs)
  obtain locked now where c: "c = (locked, now)" by (cases c)
  obtain items s1 where one: "claim locked now s = (items, s1)" by (cases "claim locked now s")
  obtain rest s2 where more: "claim_all claim cs s1 = (rest, s2)" by (cases "claim_all claim cs s1")
  have free: "k \<notin> key ` set items"
    using claim_takes_due [OF one] Cons.prems(3) by (fastforce simp: c list_ex_iff)
  have keys: "distinct (map key (rows s1))" using claim_keeps_keys [OF one] Cons.prems(2) by simp
  have "list_all (\<lambda>c. \<not> list_ex (\<lambda>x. key x = k \<and> due (snd c) x) (rows s1)) cs"
    using claim_keeps_others [OF one] free Cons.prems(3) by (auto simp: list_all_iff list_ex_iff c)
  with Cons.IH [OF more keys] free Cons.prems(1) show ?case by (auto simp: c one more)
qed simp

lemma lease_is_exclusive:
  assumes "claim locked now s = (items, s1)" and "claim_all claim cs s1 = (got, s2)" and "distinct (map key (rows s))"
    and "list_all (\<lambda>c. snd c \<le> now + duration) cs" and "k \<in> key ` set items"
  shows "list_all (\<lambda>items'. k \<notin> key ` set items') got"
proof (rule claim_all_skip [OF assms(2)])
  show "distinct (map key (rows s1))" using claim_keeps_keys [OF assms(1)] assms(3) by simp
  show "list_all (\<lambda>c. \<not> list_ex (\<lambda>x. key x = k \<and> due (snd c) x) (rows s1)) cs"
    using claim_holds [OF assms(1,3)] assms(4,5) by (auto simp: list_all_iff list_ex_iff)
qed

end

end
