(* ===== verification/Chetter_Callbacks.thy ===== *)
theory Chetter_Callbacks
  imports Chetter_Tx Chetter_Classify Chetter_Lease
begin

text \<open>
  The durable outbox of event callbacks: \<^verbatim>\<open>internal/service/callback_deliveries.go\<close>,
  the rendering half of \<^verbatim>\<open>event_callbacks.go\<close> and the statements of
  \<^verbatim>\<open>internal/repository/callback_deliveries.sql.go\<close> and \<^verbatim>\<open>event_callbacks.sql.go\<close>.

  The Go interface \<^verbatim>\<open>TaskEventCallbackDispatcher\<close>, through which claiming and event
  recording reach this component inside their own transactions, is the locale
  \<open>callback_dispatcher\<close>; its interpretations are the two values the field \<^verbatim>\<open>s.callbacks\<close>
  takes, nil and the service of this theory. Template rendering (\<^verbatim>\<open>text/template\<close>) and the
  destination policy are parameters: \<open>cbe_render\<close> gives the rendered text or an error message,
  \<open>cbe_dest_ok\<close> tells whether \<^verbatim>\<open>validateWebhookDestination\<close> returns nil.
\<close>

section \<open>Statements\<close>

text \<open>The \<^verbatim>\<open>LIKE\<close> operator, pattern first: \<open>%\<close> any string, \<open>_\<close> any character, backslash quotes.\<close>

function sql_like :: "string \<Rightarrow> string \<Rightarrow> bool" where
  "sql_like [] s = (s = [])"
| "sql_like (c # cs) s =
     (if s = [] then c = CHR ''%'' \<and> sql_like cs s
      else if c = CHR ''%'' then sql_like cs s \<or> sql_like (c # cs) (tl s)
      else if c = CHR ''_'' then sql_like cs (tl s)
      else if c = CHR 0x5C \<and> cs \<noteq> [] then hd s = hd cs \<and> sql_like (tl cs) (tl s)
      else hd s = c \<and> sql_like cs (tl s))"
  by pat_completeness auto
termination
  by (relation "measure (\<lambda>(p, s). length p + length s)") (auto simp: neq_Nil_conv)

definition event_type_matches :: "string \<Rightarrow> string \<Rightarrow> bool" where
  "event_type_matches pat ty =
     (pat = ty \<or>
      (2 \<le> length pat \<and> drop (length pat - 2) pat = ''.*'' \<and>
       sql_like (butlast pat @ ''%'') ty))"

definition ListEnabledEventCallbacksForEvent ::
  "string option \<Rightarrow> string \<Rightarrow> db \<Rightarrow> event_callback list" where
  "ListEnabledEventCallbacksForEvent team ty d =
     sql_order_asc cb_created_at
       (filter (\<lambda>c. cb_enabled c \<and> (cb_team_id c = team \<or> cb_team_id c = None) \<and>
                    event_type_matches (cb_event_type c) ty) (event_callbacks d))"

text \<open>
  \<^verbatim>\<open>ON DUPLICATE KEY UPDATE id = id\<close>: nothing changes when the id or the pair
  \<^verbatim>\<open>(callback_id, event_id)\<close> is present.
\<close>

definition InsertCallbackDelivery :: "callback_delivery \<Rightarrow> db \<Rightarrow> db" where
  "InsertCallbackDelivery r d =
     (if d_id r \<in> d_id ` set (callback_deliveries d) \<or>
         (d_callback_id r, d_event_id r) \<in> (\<lambda>x. (d_callback_id x, d_event_id x)) ` set (callback_deliveries d)
      then d else d\<lparr>callback_deliveries := callback_deliveries d @ [r]\<rparr>)"

definition upd_deliveries ::
  "(callback_delivery \<Rightarrow> bool) \<Rightarrow> (callback_delivery \<Rightarrow> callback_delivery) \<Rightarrow> db \<Rightarrow> db \<times> nat" where
  "upd_deliveries w f d =
     (d\<lparr>callback_deliveries := sql_update w f (callback_deliveries d)\<rparr>,
      sql_affected w f (callback_deliveries d))"

definition FailCallbackDelivery ::
  "string \<Rightarrow> string option \<Rightarrow> time option \<Rightarrow> time \<Rightarrow> string \<Rightarrow> db \<Rightarrow> db \<times> nat" where
  "FailCallbackDelivery status err next_at updated i d =
     upd_deliveries (\<lambda>r. d_id r = i \<and> d_status r = ''in_flight'')
       (\<lambda>r. r\<lparr>d_status := status, d_attempts := d_attempts r + 1, d_error := err,
              d_lease_expires_at := None, d_next_attempt_at := next_at, d_processed_at := None,
              d_updated_at := updated\<rparr>) d"

definition MarkCallbackDeliveryInFlight ::
  "time option \<Rightarrow> time \<Rightarrow> string \<Rightarrow> time \<Rightarrow> db \<Rightarrow> db \<times> nat" where
  "MarkCallbackDeliveryInFlight lease updated i now d =
     upd_deliveries (\<lambda>r. d_id r = i \<and>
         (d_status r \<in> {''pending'', ''failed''} \<or>
          (d_status r = ''in_flight'' \<and>
           (case d_lease_expires_at r of None \<Rightarrow> False | Some l \<Rightarrow> l < now))))
       (\<lambda>r. r\<lparr>d_status := ''in_flight'', d_lease_expires_at := lease, d_updated_at := updated\<rparr>) d"

definition MarkCallbackDeliverySucceeded ::
  "string option \<Rightarrow> time option \<Rightarrow> time \<Rightarrow> string \<Rightarrow> db \<Rightarrow> db \<times> nat" where
  "MarkCallbackDeliverySucceeded child processed updated i d =
     upd_deliveries (\<lambda>r. d_id r = i \<and> d_status r = ''in_flight'')
       (\<lambda>r. r\<lparr>d_status := ''completed'', d_error := None, d_lease_expires_at := None,
              d_next_attempt_at := None, d_child_task_id := child, d_processed_at := processed,
              d_updated_at := updated\<rparr>) d"

definition ResetCallbackDeliveryForRetry :: "time option \<Rightarrow> time \<Rightarrow> string \<Rightarrow> db \<Rightarrow> db \<times> nat" where
  "ResetCallbackDeliveryForRetry next_at updated i d =
     upd_deliveries (\<lambda>r. d_id r = i \<and> d_status r \<in> {''failed'', ''dead_letter''})
       (\<lambda>r. r\<lparr>d_status := ''pending'', d_attempts := 0, d_error := None, d_lease_expires_at := None,
              d_next_attempt_at := next_at, d_processed_at := None, d_updated_at := updated\<rparr>) d"

lemmas delivery_updates [sql_defs] =
  upd_deliveries_def FailCallbackDelivery_def MarkCallbackDeliveryInFlight_def
  MarkCallbackDeliverySucceeded_def ResetCallbackDeliveryForRetry_def

section \<open>Enqueueing\<close>

definition defaultCallbackDeliveryMaxAttempts :: int where
  "defaultCallbackDeliveryMaxAttempts = 3"

text \<open>
  What the component takes from outside: the server's clock, the random identifier drawn for a
  callback (\<open>None\<close> when the random source fails), the template engine and the destination policy.
\<close>

record callback_env =
  cbe_now :: time
  cbe_id :: "event_callback \<Rightarrow> string option"
  cbe_render :: "string \<Rightarrow> callback_event \<Rightarrow> string + string"
  cbe_dest_ok :: "string \<Rightarrow> bool"

definition randomID_err :: error where
  "randomID_err = Wrap ''generate callback delivery id'' (Errorf ''generate id'')"

definition renderWebhookBody ::
  "callback_env \<Rightarrow> string \<Rightarrow> callbackWebhookConfig \<Rightarrow> callback_event \<Rightarrow> string + delivery_body" where
  "renderWebhookBody env actionType cfg ev =
     (if wh_Template cfg \<noteq> [] then
        (case cbe_render env (wh_Template cfg) ev of
           Inl m \<Rightarrow> Inl (''render webhook template: '' @ m) | Inr s \<Rightarrow> Inr (RawBody s))
      else if actionType = ''slack'' then
        (let text = (if wh_Text cfg = [] then
             ''Chetter event '' @ ev_event_type ev @ '' for task '' @ ev_task_id ev else wh_Text cfg) in
         case cbe_render env text ev of
           Inl m \<Rightarrow> Inl (''render slack text: '' @ m) | Inr s \<Rightarrow> Inr (SlackBody s))
      else Inr (EventBody ev))"

text \<open>The columns every new delivery row shares.\<close>

definition delivery_row ::
  "time \<Rightarrow> string \<Rightarrow> event_callback \<Rightarrow> callback_event \<Rightarrow> string \<Rightarrow> callback_delivery" where
  "delivery_row now i cb ev actionType =
     \<lparr>d_id = i, d_callback_id = cb_id cb, d_event_id = ev_id ev,
      d_task_id = nullString (ev_task_id ev), d_team_id = nullString (ev_team_id ev),
      d_event_type = ev_event_type ev, d_endpoint_url = [], d_method = [], d_headers = None,
      d_payload = RawBody [], d_status = ''pending'', d_attempts = 0,
      d_max_attempts = defaultCallbackDeliveryMaxAttempts, d_error = None,
      d_lease_expires_at = None, d_next_attempt_at = Some now, d_processed_at = None,
      d_created_at = now, d_updated_at = now, d_action_type = actionType, d_child_task_id = None\<rparr>"

definition enqueueBrokenCallbackDelivery ::
  "callback_env \<Rightarrow> callback_event \<Rightarrow> event_callback \<Rightarrow> string \<Rightarrow> string \<Rightarrow> db \<Rightarrow> error + db" where
  "enqueueBrokenCallbackDelivery env ev cb actionType msg d =
     bind_res (from_option randomID_err (cbe_id env cb)) (\<lambda>i.
       let act = (if actionType = [] then cb_action_type cb else actionType) in
       Inr (InsertCallbackDelivery
         ((delivery_row (cbe_now env) i cb ev act)\<lparr>d_method := ''POST'', d_status := ''dead_letter'',
            d_attempts := 1, d_error := Some msg, d_next_attempt_at := None\<rparr>) d))"

definition enqueueCreateTaskCallbackDelivery ::
  "callback_env \<Rightarrow> callback_event \<Rightarrow> event_callback \<Rightarrow> db \<Rightarrow> error + db" where
  "enqueueCreateTaskCallbackDelivery env ev cb d =
     (case as_create_task (cb_action_config cb) of
        Inl m \<Rightarrow> enqueueBrokenCallbackDelivery env ev cb ''create_task'' (''parse action_config: '' @ m) d
      | Inr cfg \<Rightarrow>
          if ct_Prompt cfg = [] then
            enqueueBrokenCallbackDelivery env ev cb ''create_task''
              ''create_task action_config.prompt is required'' d
          else bind_res (from_option randomID_err (cbe_id env cb)) (\<lambda>i.
            Inr (InsertCallbackDelivery
              ((delivery_row (cbe_now env) i cb ev ''create_task'')
                 \<lparr>d_payload := Snapshot (cb_name cb) cfg ev\<rparr>) d)))"

definition enqueueCallbackDelivery ::
  "callback_env \<Rightarrow> callback_event \<Rightarrow> event_callback \<Rightarrow> db \<Rightarrow> error + db" where
  "enqueueCallbackDelivery env ev cb d =
     (case as_webhook (cb_action_config cb) of
        Inl m \<Rightarrow> enqueueBrokenCallbackDelivery env ev cb (cb_action_type cb)
                   (''parse action_config: '' @ m) d
      | Inr cfg \<Rightarrow>
          if trim_space (wh_URL cfg) = [] then
            enqueueBrokenCallbackDelivery env ev cb (cb_action_type cb)
              ''webhook action_config.url is required'' d
          else if \<not> cbe_dest_ok env (wh_URL cfg) then Inr d
          else (case renderWebhookBody env (cb_action_type cb) cfg ev of
             Inl m \<Rightarrow> enqueueBrokenCallbackDelivery env ev cb (cb_action_type cb)
                        (''render payload: '' @ m) d
           | Inr body \<Rightarrow>
               bind_res (from_option randomID_err (cbe_id env cb)) (\<lambda>i.
                 Inr (InsertCallbackDelivery
                   ((delivery_row (cbe_now env) i cb ev (cb_action_type cb))
                      \<lparr>d_endpoint_url := wh_URL cfg,
                       d_method := (if wh_Method cfg = [] then ''POST'' else wh_Method cfg),
                       d_headers := (if wh_Headers cfg = [] then None else Some (wh_Headers cfg)),
                       d_payload := body\<rparr>) d))))"

definition enqueue_one :: "callback_env \<Rightarrow> callback_event \<Rightarrow> event_callback \<Rightarrow> db \<Rightarrow> error + db" where
  "enqueue_one env ev cb d =
     (if cb_action_type cb = ''webhook'' \<or> cb_action_type cb = ''slack''
        then enqueueCallbackDelivery env ev cb d
      else if cb_action_type cb = ''create_task'' then enqueueCreateTaskCallbackDelivery env ev cb d
      else Inr d)"

fun enqueue_all ::
  "callback_env \<Rightarrow> callback_event \<Rightarrow> event_callback list \<Rightarrow> db \<Rightarrow> error + db" where
  "enqueue_all env ev [] d = Inr d"
| "enqueue_all env ev (cb # cbs) d = bind_res (enqueue_one env ev cb d) (enqueue_all env ev cbs)"

definition EnqueueTaskEventCallbackDeliveries ::
  "callback_env \<Rightarrow> callback_event \<Rightarrow> db \<Rightarrow> error + db" where
  "EnqueueTaskEventCallbackDeliveries env ev d =
     enqueue_all env ev
       (ListEnabledEventCallbacksForEvent (nullString (ev_team_id ev)) (ev_event_type ev) d) d"

section \<open>The delivery state machine\<close>

text \<open>\<^verbatim>\<open>callbackDeliveryBackoff\<close>, in the time unit of the model.\<close>

definition callbackDeliveryBackoff :: "int \<Rightarrow> time" where
  "callbackDeliveryBackoff attempts =
     (if attempts \<ge> 4 then 30 * second
      else if attempts = 3 then 15 * second
      else if attempts = 2 then 5 * second
      else second)"

text \<open>The status and, when the delivery is retried, the time of the next attempt.\<close>

definition nextCallbackDeliveryAttempt ::
  "time \<Rightarrow> int \<Rightarrow> int \<Rightarrow> (int \<Rightarrow> time) \<Rightarrow> string \<times> time option" where
  "nextCallbackDeliveryAttempt now attemptsAfter maxAttempts backoff =
     (if attemptsAfter \<ge> maxAttempts then (''dead_letter'', None)
      else (''failed'', Some (now + backoff attemptsAfter)))"

definition callbackDeliveryLease :: time where
  "callbackDeliveryLease = 60 * second"

definition callbackDeliveryClaimLimit :: nat where
  "callbackDeliveryClaimLimit = 50"

definition delivery_due :: "time \<Rightarrow> callback_delivery \<Rightarrow> bool" where
  "delivery_due now r =
     ((d_status r = ''pending'' \<and> (case d_next_attempt_at r of None \<Rightarrow> False | Some n \<Rightarrow> n \<le> now)) \<or>
      (d_status r = ''failed'' \<and> (case d_next_attempt_at r of None \<Rightarrow> False | Some n \<Rightarrow> n \<le> now)) \<or>
      (d_status r = ''in_flight'' \<and> (case d_lease_expires_at r of None \<Rightarrow> False | Some l \<Rightarrow> l < now)))"

text \<open>
  \<^verbatim>\<open>ORDER BY next_attempt_at ASC LIMIT 50 ... SKIP LOCKED\<close>; NULL sorts first. \<open>locked\<close> holds
  of the rows other transactions have locked.
\<close>

definition due_deliveries ::
  "(callback_delivery \<Rightarrow> bool) \<Rightarrow> time \<Rightarrow> db \<Rightarrow> callback_delivery list" where
  "due_deliveries locked now d =
     take callbackDeliveryClaimLimit
       (sql_order_asc (\<lambda>r. case d_next_attempt_at r of None \<Rightarrow> (False, 0) | Some n \<Rightarrow> (True, n))
         (filter (\<lambda>r. delivery_due now r \<and> \<not> locked r) (callback_deliveries d)))"

fun mark_in_flight :: "time \<Rightarrow> callback_delivery list \<Rightarrow> db \<Rightarrow> db" where
  "mark_in_flight now [] d = d"
| "mark_in_flight now (r # rs) d =
     mark_in_flight now rs
       (fst (MarkCallbackDeliveryInFlight (Some (now + callbackDeliveryLease)) now (d_id r) now d))"

definition claimDueCallbackDeliveries ::
  "(callback_delivery \<Rightarrow> bool) \<Rightarrow> time \<Rightarrow> callback_delivery list tx" where
  "claimDueCallbackDeliveries locked now d =
     (let items = due_deliveries locked now d in Inr (items, mark_in_flight now items d))"

definition completeCallbackDelivery :: "callback_delivery \<Rightarrow> string \<Rightarrow> time \<Rightarrow> db \<Rightarrow> db" where
  "completeCallbackDelivery r child now d =
     fst (MarkCallbackDeliverySucceeded (nullString child) (Some now) now (d_id r) d)"

text \<open>\<^verbatim>\<open>delivery.Attempts+1\<close> is 32-bit arithmetic; the increment of the column is not.\<close>

definition failCallbackDelivery ::
  "callback_delivery \<Rightarrow> time \<Rightarrow> bool \<Rightarrow> error \<Rightarrow> (int \<Rightarrow> time) \<Rightarrow> db \<Rightarrow> db" where
  "failCallbackDelivery r now terminal cause backoff d =
     (let (status, next_at) =
            (if terminal then (''dead_letter'', None)
             else nextCallbackDeliveryAttempt now (to_int32 (d_attempts r + 1)) (d_max_attempts r) backoff)
      in fst (FailCallbackDelivery status (Some (truncateTo500 (err_text cause))) next_at now (d_id r) d))"

definition getCallbackDelivery :: "string \<Rightarrow> db \<Rightarrow> error + callback_delivery" where
  "getCallbackDelivery i d =
     wrap_err ''get callback delivery'' (sql_one (\<lambda>r. d_id r = i) (callback_deliveries d))"

definition RetryCallbackDelivery :: "bool \<Rightarrow> time \<Rightarrow> string \<Rightarrow> callback_delivery tx" where
  "RetryCallbackDelivery admin now deliveryID d =
     (if \<not> admin then Inl (Errorf ''admin access required'') else
      let i = trim_space deliveryID in
      if i = [] then Inl (Errorf ''delivery_id is required'') else
      (case getCallbackDelivery i d of
         Inl e \<Rightarrow> if errors_is e SqlNoRows
                  then Inl (Errorf (''callback delivery '' @ i @ '' not found'')) else Inl e
       | Inr previous \<Rightarrow>
           let (d', affected) = ResetCallbackDeliveryForRetry (Some now) now i d in
           if affected = 0 then
             Inl (Errorf (''callback delivery '' @ i @ '' cannot be retried from status '' @ d_status previous))
           else bind_res (getCallbackDelivery i d') (\<lambda>r. Inr (r, d'))))"

section \<open>The dispatcher interface\<close>

type_synonym dispatcher = "(callback_event \<Rightarrow> db \<Rightarrow> error + db) option"

text \<open>\<^verbatim>\<open>if s.callbacks != nil { err := s.callbacks.Enqueue...(ctx, q, event) }\<close>\<close>

definition dispatch :: "dispatcher \<Rightarrow> callback_event \<Rightarrow> db \<Rightarrow> error + db" where
  "dispatch cbs ev d = (case cbs of None \<Rightarrow> Inr d | Some f \<Rightarrow> f ev d)"

text \<open>The outbox has the rows it had, in front of new ones; every other table is as before.\<close>

definition outbox_grows :: "db \<Rightarrow> db \<Rightarrow> bool" where
  "outbox_grows d d' \<longleftrightarrow> (\<exists>ds. d' = d\<lparr>callback_deliveries := callback_deliveries d @ ds\<rparr>)"

lemma outbox_grows_refl [simp]: "outbox_grows d d"
  by (simp add: outbox_grows_def exI [of _ "[]"])

lemma outbox_grows_append [simp]:
  "outbox_grows d (d\<lparr>callback_deliveries := callback_deliveries d @ ds\<rparr>)"
  by (auto simp: outbox_grows_def)

lemma outbox_grows_trans: "outbox_grows d d1 \<Longrightarrow> outbox_grows d1 d2 \<Longrightarrow> outbox_grows d d2"
  by (auto simp: outbox_grows_def)

text \<open>
  The contract claiming and event recording rely on: a dispatcher only appends to the outbox, so
  running it inside their transaction cannot disturb the task hierarchy.
\<close>

locale callback_dispatcher =
  fixes cbs :: dispatcher
  assumes dispatch_appends:
    "cbs = Some f \<Longrightarrow> f ev d = Inr d' \<Longrightarrow> outbox_grows d d'"
begin

lemma dispatch_frame: "dispatch cbs ev d = Inr d' \<Longrightarrow> outbox_grows d d'"
  using dispatch_appends by (cases cbs) (auto simp: dispatch_def)

lemma dispatch_keeps:
  assumes "dispatch cbs ev d = Inr d'"
  shows "tasks d' = tasks d" and "agent_sessions d' = agent_sessions d"
    and "user_prompts d' = user_prompts d" and "execution_attempts d' = execution_attempts d"
    and "task_events d' = task_events d" and "runners d' = runners d"
    and "runner_drain_requests d' = runner_drain_requests d" and "checkpoints d' = checkpoints d"
    and "trigger_runs d' = trigger_runs d" and "event_callbacks d' = event_callbacks d"
    and "claim_notify_counter d' = claim_notify_counter d"
  using dispatch_frame [OF assms] by (auto simp: outbox_grows_def)

lemma dispatch_wf: "dispatch cbs ev d = Inr d' \<Longrightarrow> wf_db d' = wf_db d"
  using dispatch_keeps [of ev d d'] wf_db_same_tables [of d' d] by auto

end

interpretation no_callbacks: callback_dispatcher None
  by unfold_locales simp

lemma InsertCallbackDelivery_grows [simp]: "outbox_grows d (InsertCallbackDelivery r d)"
  by (simp add: InsertCallbackDelivery_def)

lemma enqueueBroken_grows:
  "enqueueBrokenCallbackDelivery env ev cb a m d = Inr d' \<Longrightarrow> outbox_grows d d'"
  by (auto simp: enqueueBrokenCallbackDelivery_def Let_def)

lemma enqueue_one_grows: "enqueue_one env ev cb d = Inr d' \<Longrightarrow> outbox_grows d d'"
  by (auto simp: enqueue_one_def enqueueCallbackDelivery_def enqueueCreateTaskCallbackDelivery_def
      split: if_splits sum.splits dest: enqueueBroken_grows)

lemma enqueue_all_grows: "enqueue_all env ev cs d = Inr d' \<Longrightarrow> outbox_grows d d'"
  by (induction cs arbitrary: d) (auto dest: enqueue_one_grows intro: outbox_grows_trans)

interpretation outbox: callback_dispatcher "Some (EnqueueTaskEventCallbackDeliveries env)" for env
  by unfold_locales (auto simp: EnqueueTaskEventCallbackDeliveries_def intro: enqueue_all_grows)

text \<open>Enqueueing cannot fail while identifiers can be drawn: a broken callback gets a dead row.\<close>

lemma enqueueBroken_total:
  "cbe_id env cb \<noteq> None \<Longrightarrow> \<not> isl (enqueueBrokenCallbackDelivery env ev cb a m d)"
  by (auto simp: enqueueBrokenCallbackDelivery_def isl_bind_res Let_def)

lemma enqueue_one_total: "cbe_id env cb \<noteq> None \<Longrightarrow> \<not> isl (enqueue_one env ev cb d)"
  by (auto simp: enqueue_one_def enqueueCallbackDelivery_def enqueueCreateTaskCallbackDelivery_def
      isl_bind_res enqueueBroken_total split: sum.split)

lemma enqueue_all_total: "(\<And>cb. cbe_id env cb \<noteq> None) \<Longrightarrow> \<not> isl (enqueue_all env ev cs d)"
  by (induction cs arbitrary: d) (simp_all add: isl_bind_res enqueue_one_total)

lemma dispatch_total:
  "(\<And>cb. cbe_id env cb \<noteq> None) \<Longrightarrow> \<not> isl (dispatch (Some (EnqueueTaskEventCallbackDeliveries env)) ev d)"
  by (simp add: dispatch_def EnqueueTaskEventCallbackDeliveries_def enqueue_all_total)

section \<open>Every matching callback has its delivery row\<close>

definition has_delivery :: "event_callback \<Rightarrow> callback_event \<Rightarrow> db \<Rightarrow> bool" where
  "has_delivery cb ev d =
     list_ex (\<lambda>r. d_callback_id r = cb_id cb \<and> d_event_id r = ev_id ev) (callback_deliveries d)"

text \<open>The one case in which the code skips a callback: the policy rejects its destination.\<close>

definition destination_rejected :: "callback_env \<Rightarrow> event_callback \<Rightarrow> bool" where
  "destination_rejected env cb =
     (cb_action_type cb \<in> {''webhook'', ''slack''} \<and>
      (case as_webhook (cb_action_config cb) of Inl m \<Rightarrow> False
       | Inr cfg \<Rightarrow> trim_space (wh_URL cfg) \<noteq> [] \<and> \<not> cbe_dest_ok env (wh_URL cfg)))"

definition delivery_ids :: "db \<Rightarrow> string set" where
  "delivery_ids d = d_id ` set (callback_deliveries d)"

lemma has_delivery_mono: "outbox_grows d d' \<Longrightarrow> has_delivery cb ev d \<Longrightarrow> has_delivery cb ev d'"
  by (auto simp: outbox_grows_def has_delivery_def)

lemma Insert_has_delivery:
  assumes "d_callback_id r = cb_id cb" "d_event_id r = ev_id ev" "d_id r \<notin> delivery_ids d"
  shows "has_delivery cb ev (InsertCallbackDelivery r d)"
    and "delivery_ids (InsertCallbackDelivery r d) \<subseteq> insert (d_id r) (delivery_ids d)"
  using assms
  by (auto simp: InsertCallbackDelivery_def has_delivery_def delivery_ids_def list_ex_iff)

lemma delivery_row_ids [simp]:
  "d_id (delivery_row now i cb ev a) = i" "d_callback_id (delivery_row now i cb ev a) = cb_id cb"
  "d_event_id (delivery_row now i cb ev a) = ev_id ev"
  by (simp_all add: delivery_row_def)

definition fresh_id :: "callback_env \<Rightarrow> event_callback \<Rightarrow> db \<Rightarrow> bool" where
  "fresh_id env cb d = (\<forall>i\<in>set_option (cbe_id env cb). i \<notin> delivery_ids d)"

definition covers :: "callback_env \<Rightarrow> callback_event \<Rightarrow> event_callback \<Rightarrow> db \<Rightarrow> db \<Rightarrow> bool" where
  "covers env ev cb d d' =
     (has_delivery cb ev d' \<and> delivery_ids d' \<subseteq> set_option (cbe_id env cb) \<union> delivery_ids d)"

lemma Insert_covers:
  assumes "cbe_id env cb = Some (d_id r)" and "fresh_id env cb d"
    and "d_callback_id r = cb_id cb" "d_event_id r = ev_id ev"
  shows "covers env ev cb d (InsertCallbackDelivery r d)"
  using assms Insert_has_delivery [of r cb ev d] by (simp add: covers_def fresh_id_def)

lemma enqueueBroken_covers:
  "enqueueBrokenCallbackDelivery env ev cb a m d = Inr d' \<Longrightarrow> fresh_id env cb d \<Longrightarrow> covers env ev cb d d'"
  by (auto simp: enqueueBrokenCallbackDelivery_def Let_def intro!: Insert_covers)

lemma enqueue_one_covers:
  assumes "enqueue_one env ev cb d = Inr d'" and "fresh_id env cb d"
    and "cb_action_type cb \<in> {''webhook'', ''slack'', ''create_task''}" and "\<not> destination_rejected env cb"
  shows "covers env ev cb d d'"
  using assms
  by (auto simp: enqueue_one_def enqueueCallbackDelivery_def enqueueCreateTaskCallbackDelivery_def
      destination_rejected_def
      split: if_splits sum.splits intro!: Insert_covers elim!: enqueueBroken_covers)

lemma enqueue_one_ids:
  assumes "enqueue_one env ev cb d = Inr d'" and "fresh_id env cb d"
  shows "delivery_ids d' \<subseteq> set_option (cbe_id env cb) \<union> delivery_ids d"
proof (cases "cb_action_type cb \<in> {''webhook'', ''slack'', ''create_task''} \<and> \<not> destination_rejected env cb")
  case True
  with enqueue_one_covers [OF assms] show ?thesis by (simp add: covers_def)
next
  case False
  then have "d' = d"
    using assms(1) by (auto simp: enqueue_one_def destination_rejected_def enqueueCallbackDelivery_def
        split: if_splits sum.splits)
  then show ?thesis by simp
qed

lemma enqueue_all_covers:
  assumes "enqueue_all env ev cs d = Inr d'" and "distinct cs" and "inj_on (cbe_id env) (set cs)"
    and "\<And>c. c \<in> set cs \<Longrightarrow> fresh_id env c d"
    and "cb \<in> set cs" and "cb_action_type cb \<in> {''webhook'', ''slack'', ''create_task''}"
    and "\<not> destination_rejected env cb"
  shows "has_delivery cb ev d'"
  using assms(1-5)
proof (induction cs arbitrary: d)
  case (Cons c cs)
  from Cons.prems(1) obtain d1 where one: "enqueue_one env ev c d = Inr d1"
    and rest: "enqueue_all env ev cs d1 = Inr d'" by auto
  have fresh: "fresh_id env c d" using Cons.prems(4) by simp
  show ?case
  proof (cases "cb = c")
    case True
    with enqueue_one_covers [OF one fresh] assms(6,7) have "has_delivery cb ev d1"
      by (simp add: covers_def)
    with enqueue_all_grows [OF rest] show ?thesis by (rule has_delivery_mono)
  next
    case False
    have "fresh_id env c' d1" if c': "c' \<in> set cs" for c'
    proof -
      have "c' \<noteq> c" using Cons.prems(2) c' by auto
      then have "cbe_id env c' \<noteq> cbe_id env c" using Cons.prems(3) c' by (auto simp: inj_on_def)
      moreover have "fresh_id env c' d" using Cons.prems(4) c' by simp
      ultimately show ?thesis
        using enqueue_one_ids [OF one fresh] by (auto simp: fresh_id_def)
    qed
    with False Cons.prems rest show ?thesis by (intro Cons.IH) auto
  qed
qed simp

section \<open>Claiming deliveries\<close>

definition markable :: "time \<Rightarrow> callback_delivery \<Rightarrow> bool" where
  "markable now r =
     (d_status r \<in> {''pending'', ''failed''} \<or>
      (d_status r = ''in_flight'' \<and>
       (case d_lease_expires_at r of None \<Rightarrow> False | Some l \<Rightarrow> l < now)))"

definition leased :: "time \<Rightarrow> callback_delivery \<Rightarrow> callback_delivery" where
  "leased now r = r\<lparr>d_status := ''in_flight'',
     d_lease_expires_at := Some (now + callbackDeliveryLease), d_updated_at := now\<rparr>"

lemma lease_pos: "0 < callbackDeliveryLease"
  by (simp add: callbackDeliveryLease_def)

lemma leased_fields [simp]:
  "d_id (leased now r) = d_id r" "d_status (leased now r) = ''in_flight''"
  "d_lease_expires_at (leased now r) = Some (now + callbackDeliveryLease)"
  by (simp_all add: leased_def)

lemma not_markable_leased: "\<not> markable now (leased now r)"
  using lease_pos by (simp add: markable_def)

lemma due_markable: "delivery_due now r \<Longrightarrow> markable now r"
  by (auto simp: delivery_due_def markable_def)

lemma mark_one:
  "callback_deliveries (fst (MarkCallbackDeliveryInFlight (Some (now + callbackDeliveryLease)) now i now d)) =
   map (\<lambda>r. if d_id r = i \<and> markable now r then leased now r else r) (callback_deliveries d)"
  by (simp add: MarkCallbackDeliveryInFlight_def upd_deliveries_def sql_update_def markable_def
      leased_def cong: if_cong)

lemma mark_in_flight_rows:
  "callback_deliveries (mark_in_flight now rs d) =
   map (\<lambda>r. if d_id r \<in> d_id ` set rs \<and> markable now r then leased now r else r) (callback_deliveries d)"
proof (induction rs arbitrary: d)
  case Nil
  show ?case by simp
next
  case (Cons x rs)
  show ?case
    unfolding mark_in_flight.simps Cons.IH mark_one map_map
    by (rule map_cong) (auto simp: not_markable_leased)
qed

lemma due_deliveries_due:
  assumes "r \<in> set (due_deliveries locked now d)"
  shows "r \<in> set (callback_deliveries d)" "delivery_due now r" "\<not> locked r"
  using assms by (auto simp: due_deliveries_def dest: in_set_takeD)

lemma length_due_deliveries: "length (due_deliveries locked now d) \<le> callbackDeliveryClaimLimit"
  by (simp add: due_deliveries_def)

text \<open>After a claim, the rows claimed are leased, and no claim before the lease ends returns them.\<close>

lemma claimed_leased:
  assumes "claimDueCallbackDeliveries locked now d = Inr (items, d1)"
    and "distinct (map d_id (callback_deliveries d))" and "r \<in> set (callback_deliveries d1)"
    and "d_id r \<in> d_id ` set items"
  shows "d_status r = ''in_flight'' \<and> d_lease_expires_at r = Some (now + callbackDeliveryLease)"
proof -
  from assms(1) have items: "items = due_deliveries locked now d"
    and d1: "d1 = mark_in_flight now items d"
    by (auto simp: claimDueCallbackDeliveries_def Let_def)
  from assms(3) obtain r0 where r0: "r0 \<in> set (callback_deliveries d)"
    and r: "r = (if d_id r0 \<in> d_id ` set items \<and> markable now r0 then leased now r0 else r0)"
    unfolding d1 mark_in_flight_rows by auto
  have id: "d_id r = d_id r0" using r by simp
  with assms(4) obtain i where i: "i \<in> set items" "d_id i = d_id r0" by auto
  then have "i \<in> set (callback_deliveries d)" "delivery_due now i"
    using due_deliveries_due items by auto
  with assms(2) i r0 have "i = r0" by (auto simp: distinct_map inj_on_def)
  with \<open>delivery_due now i\<close> have "markable now r0" by (simp add: due_markable)
  with r assms(4) id show ?thesis by simp
qed

text \<open>The outbox keeps the contract of a leased queue.\<close>

definition claim_outbox ::
  "(callback_delivery \<Rightarrow> bool) \<Rightarrow> time \<Rightarrow> db \<Rightarrow> callback_delivery list \<times> db" where
  "claim_outbox locked now d = projr (claimDueCallbackDeliveries locked now d)"

lemma claim_outbox_eq:
  "claim_outbox locked now d = (items, d') \<longleftrightarrow> claimDueCallbackDeliveries locked now d = Inr (items, d')"
  by (simp add: claim_outbox_def claimDueCallbackDeliveries_def Let_def)

interpretation outbox_queue: leased_queue callback_deliveries d_id delivery_due claim_outbox callbackDeliveryLease
proof unfold_locales
  fix locked now s items s' r
  assume "claim_outbox locked now s = (items, s')"
  then have c: "claimDueCallbackDeliveries locked now s = Inr (items, s')" by (simp add: claim_outbox_eq)
  then have items: "items = due_deliveries locked now s" and s': "s' = mark_in_flight now items s"
    by (auto simp: claimDueCallbackDeliveries_def Let_def)
  show "\<exists>x \<in> set (callback_deliveries s). d_id x = d_id r \<and> delivery_due now x" if "r \<in> set items"
    using that due_deliveries_due items by blast
  show "map d_id (callback_deliveries s') = map d_id (callback_deliveries s)"
    unfolding s' mark_in_flight_rows by (simp cong: if_cong)
  fix x
  assume x: "x \<in> set (callback_deliveries s')"
  show "x \<in> set (callback_deliveries s)" if "d_id x \<notin> d_id ` set items"
    using x that unfolding s' mark_in_flight_rows by (auto split: if_split_asm)
  show "\<not> delivery_due now' x"
    if "distinct (map d_id (callback_deliveries s))" "d_id x \<in> d_id ` set items" "now' \<le> now + callbackDeliveryLease" for now'
    using claimed_leased [OF c that(1) x that(2)] that(3) by (simp add: delivery_due_def)
qed

end
