(* ===== verification/Chetter_Coordination.thy ===== *)
theory Chetter_Coordination
  imports Chetter_Tx
begin

text \<open>
  \<^verbatim>\<open>internal/service/coordination.go\<close>: what the replicas of the server share through the
  database. The claim notification counter, the lock that gives one scheduled interval of a
  trigger to one replica, and the durable drain requests of runners.
\<close>

section \<open>The claim notification counter\<close>

definition bumpClaimNotifyCounter :: "db \<Rightarrow> db" where
  "bumpClaimNotifyCounter d = d\<lparr>claim_notify_counter := claim_notify_counter d + 1\<rparr>"

definition getClaimNotifyCounter :: "db \<Rightarrow> int" where
  "getClaimNotifyCounter d = claim_notify_counter d"

text \<open>
  One tick of \<^verbatim>\<open>pollClaimNotifications\<close>: the counter it remembers and whether it wakes the
  waiting claims of its process. A read error leaves the memory as it is.
\<close>

definition poll_tick :: "int option \<Rightarrow> int \<Rightarrow> int \<times> bool" where
  "poll_tick res seen = (case res of None \<Rightarrow> (seen, False) | Some current \<Rightarrow>
     if current \<noteq> seen then (current, True) else (seen, False))"

section \<open>The trigger lock\<close>

text \<open>
  The table \<^verbatim>\<open>trigger_locks\<close>: trigger id and time of the last interval run. \<open>parse\<close> stands
  for the cron library: it gives the function \<^verbatim>\<open>schedule.Next\<close>, or nothing for a bad
  expression. The outcome is an error, a nil \<^verbatim>\<open>finish\<close> (\<open>Skip\<close>), or a transaction whose
  commit writes the table given.
\<close>

type_synonym trigger_locks = "(string \<times> time option) list"

datatype lock_outcome = LockError error | Skip | Acquired trigger_locks

definition ensure_lock_row :: "string \<Rightarrow> trigger_locks \<Rightarrow> trigger_locks" where
  "ensure_lock_row trig locks =
     (if list_ex (\<lambda>(i, _). i = trig) locks then locks else locks @ [(trig, None)])"

definition acquireTriggerLock ::
  "(string \<Rightarrow> (time \<Rightarrow> time) option) \<Rightarrow> string \<Rightarrow> string \<Rightarrow> time \<Rightarrow> trigger_locks \<Rightarrow>
   trigger_locks \<times> lock_outcome" where
  "acquireTriggerLock parse trig cron at locks =
     (let locks1 = ensure_lock_row trig locks in
      (locks1,
       case find (\<lambda>(i, _). i = trig) locks1 of
         None \<Rightarrow> Skip
       | Some (_, lastAt) \<Rightarrow>
           (case parse cron of
              None \<Rightarrow> LockError (Wrap ''parse trigger schedule'' (Errorf cron))
            | Some schedule_next \<Rightarrow>
                if (case lastAt of None \<Rightarrow> False | Some l \<Rightarrow> at < schedule_next l) then Skip
                else Acquired (sql_update (\<lambda>(i, _). i = trig) (\<lambda>(i, _). (i, Some at)) locks1))))"

text \<open>The returned \<^verbatim>\<open>finish\<close>: the table after the transaction and the flag that makes it idempotent.\<close>

definition finish :: "bool \<Rightarrow> trigger_locks \<Rightarrow> trigger_locks \<Rightarrow> bool \<Rightarrow> bool \<times> trigger_locks" where
  "finish success locks written finished =
     (if finished then (True, locks) else (True, if success then written else locks))"

definition isLockWaitTimeout :: "error \<Rightarrow> bool" where
  "isLockWaitTimeout e =
     text_has e [''Lock wait timeout exceeded'', ''Error 1205'', ''Deadlock found'',
       ''deadlock detected'', ''lock timeout'']"

section \<open>Drain requests\<close>

definition drainRequestDeadRunnerGrace :: time where
  "drainRequestDeadRunnerGrace = 24 * hour"

text \<open>\<^verbatim>\<open>INSERT IGNORE\<close>: a request that is present stays as it is.\<close>

definition requestRunnerDrainDB :: "time \<Rightarrow> string \<Rightarrow> db \<Rightarrow> db" where
  "requestRunnerDrainDB now rid d =
     (if rid \<in> dr_runner_id ` set (runner_drain_requests d) then d
      else d\<lparr>runner_drain_requests := runner_drain_requests d @ [\<lparr>dr_runner_id = rid, dr_created_at = now\<rparr>]\<rparr>)"

definition peekRunnerDrainDB :: "string \<Rightarrow> db \<Rightarrow> bool" where
  "peekRunnerDrainDB rid d = list_ex (\<lambda>r. dr_runner_id r = rid) (runner_drain_requests d)"

definition ackRunnerDrainDB :: "string \<Rightarrow> db \<Rightarrow> db" where
  "ackRunnerDrainDB rid d =
     d\<lparr>runner_drain_requests := filter (\<lambda>r. dr_runner_id r \<noteq> rid) (runner_drain_requests d)\<rparr>"

definition reapStaleRunnerDrains :: "time \<Rightarrow> time \<Rightarrow> db \<Rightarrow> db \<times> nat" where
  "reapStaleRunnerDrains now grace d =
     (let cutoff = now - grace;
          known = (\<lambda>q. dr_runner_id q \<in> r_id ` set (runners d));
          dead = (\<lambda>q. list_ex (\<lambda>r. r_id r = dr_runner_id q \<and> r_last_seen_at r < cutoff) (runners d));
          kept1 = filter known (runner_drain_requests d);
          kept2 = filter (\<lambda>q. \<not> dead q) kept1
      in (d\<lparr>runner_drain_requests := kept2\<rparr>,
          length (filter (\<lambda>q. \<not> known q) (runner_drain_requests d)) + length (filter dead kept1)))"

section \<open>Lemmas\<close>

lemma peek_after_request [simp]: "peekRunnerDrainDB rid (requestRunnerDrainDB now rid d)"
  by (auto simp: peekRunnerDrainDB_def requestRunnerDrainDB_def list_ex_iff)

lemma peek_request_other: "rid' \<noteq> rid \<Longrightarrow> peekRunnerDrainDB rid' (requestRunnerDrainDB now rid d) = peekRunnerDrainDB rid' d"
  by (simp add: peekRunnerDrainDB_def requestRunnerDrainDB_def)

lemma peek_after_ack [simp]: "\<not> peekRunnerDrainDB rid (ackRunnerDrainDB rid d)"
  by (simp add: peekRunnerDrainDB_def ackRunnerDrainDB_def list_ex_iff)

lemma peek_ack_other: "rid' \<noteq> rid \<Longrightarrow> peekRunnerDrainDB rid' (ackRunnerDrainDB rid d) = peekRunnerDrainDB rid' d"
  by (auto simp: peekRunnerDrainDB_def ackRunnerDrainDB_def list_ex_iff)

lemma request_idempotent:
  "requestRunnerDrainDB now' rid (requestRunnerDrainDB now rid d) = requestRunnerDrainDB now rid d"
  by (auto simp: requestRunnerDrainDB_def)

lemma drain_ops_keep_wf [keep_intros]:
  "wf_db (requestRunnerDrainDB now rid d) = wf_db d"
  "wf_db (ackRunnerDrainDB rid d) = wf_db d"
  "wf_db (fst (reapStaleRunnerDrains now grace d)) = wf_db d"
  "wf_db (bumpClaimNotifyCounter d) = wf_db d"
  by (rule wf_db_same_tables; simp add: requestRunnerDrainDB_def ackRunnerDrainDB_def
      reapStaleRunnerDrains_def bumpClaimNotifyCounter_def Let_def)+

text \<open>A reaped request is of a runner that is unknown or silent for the grace period.\<close>

lemma reap_keeps_live_iff:
  "peekRunnerDrainDB rid (fst (reapStaleRunnerDrains now grace d)) \<longleftrightarrow>
     peekRunnerDrainDB rid d \<and> rid \<in> r_id ` set (runners d) \<and>
     (\<forall>r\<in>set (runners d). r_id r = rid \<longrightarrow> now - grace \<le> r_last_seen_at r)"
  by (auto simp: peekRunnerDrainDB_def reapStaleRunnerDrains_def Let_def list_ex_iff not_less)

text \<open>An interval that was committed is not given out again before the next one is due.\<close>

lemma find_lock_updated:
  "find (\<lambda>(i, _). i = trig) (sql_update (\<lambda>(i, _). i = trig) (\<lambda>(i, _). (i, Some at)) locks) =
     map_option (\<lambda>(i, _). (i, Some at)) (find (\<lambda>(i, _). i = trig) locks)"
  by (induction locks) auto

lemma ensure_lock_row_present: "list_ex (\<lambda>(i, _). i = trig) (ensure_lock_row trig locks)"
  by (auto simp: ensure_lock_row_def list_ex_iff)

lemma ensure_lock_row_id: "list_ex (\<lambda>(i, _). i = trig) locks \<Longrightarrow> ensure_lock_row trig locks = locks"
  by (simp add: ensure_lock_row_def)

lemma find_ex: "list_ex P xs \<Longrightarrow> \<exists>x. find P xs = Some x"
  by (induction xs) auto

lemma acquired_then_skip:
  assumes "acquireTriggerLock parse trig cron at locks = (locks1, Acquired written)"
    and "parse cron = Some nxt" and "at' < nxt at"
  shows "snd (acquireTriggerLock parse trig cron at' written) = Skip"
proof -
  have locks1: "locks1 = ensure_lock_row trig locks"
    and written: "written = sql_update (\<lambda>(i, _). i = trig) (\<lambda>(i, _). (i, Some at)) locks1"
    using assms(1,2) by (auto simp: acquireTriggerLock_def Let_def split: option.splits if_splits)
  from find_ex [OF ensure_lock_row_present] obtain x
    where "find (\<lambda>(i, _). i = trig) locks1 = Some x" unfolding locks1 by blast
  then have f: "find (\<lambda>(i, _). i = trig) written = Some (fst x, Some at)"
    unfolding written find_lock_updated by (simp add: case_prod_unfold)
  then have "list_ex (\<lambda>(i, _). i = trig) written"
    using find_SomeD [OF f] by (fastforce simp: list_ex_iff)
  with f assms(2,3) show ?thesis
    by (simp add: acquireTriggerLock_def ensure_lock_row_id)
qed

section \<open>Properties\<close>

text \<open>
  C1. An interval of a scheduled trigger runs on one replica: once a replica has committed the lock at
  time \<open>at\<close>, every attempt of any replica before the next scheduled time is told to skip.
\<close>

theorem trigger_interval_runs_once:
  assumes "acquireTriggerLock parse trig cron at locks = (locks1, Acquired written)"
    and "parse cron = Some nxt" and "at' < nxt at"
  shows "snd (acquireTriggerLock parse trig cron at' (snd (finish True locks1 written False))) = Skip"
  using acquired_then_skip [OF assms] by (simp add: finish_def)

theorem trigger_interval_runs_once_witness:
  "\<exists>written. acquireTriggerLock (\<lambda>_. Some (\<lambda>t. t + 10)) ''g'' ''c'' 5 [] = ([(''g'', None)], Acquired written) \<and>
     snd (acquireTriggerLock (\<lambda>_. Some (\<lambda>t. t + 10)) ''g'' ''c'' 14 written) = Skip"
proof -
  let ?p = "\<lambda>_::string. Some (\<lambda>t::time. t + 10)"
  have a: "acquireTriggerLock ?p ''g'' ''c'' 5 [] = ([(''g'', None)], Acquired [(''g'', Some 5)])"
    by (simp add: acquireTriggerLock_def ensure_lock_row_def)
  from trigger_interval_runs_once [OF a refl, of 14] a show ?thesis by (simp add: finish_def)
qed

end
