(* ===== verification/Chetter_Claim.thy ===== *)
theory Chetter_Claim
  imports Chetter_Evolution Chetter_Callbacks Chetter_Coordination
begin

text \<open>
  Claiming: \<^verbatim>\<open>claimOnce\<close> and the parameter handling of \<^verbatim>\<open>ClaimTask\<close> in
  \<^verbatim>\<open>internal/service/runner_rpc.go\<close>. The closure given to \<^verbatim>\<open>withTxRetry\<close> is
  \<open>claim_tx\<close>; it runs against the state its transaction reads and either gives the state to
  commit or an error, with everything rolled back.
\<close>

section \<open>The claim transaction\<close>

record claimedExecution =
  c_Task :: task
  c_Session :: agent_session
  c_Prompt :: user_prompt
  c_Attempt :: execution_attempt
  c_AttemptNumber :: int

text \<open>
  Clock and random identifiers (\<open>None\<close> when the random source fails), the attempts that
  concurrent transactions have locked, and the error of the drain check, if it fails.
\<close>

record claim_env =
  ce_now :: time
  ce_event_id :: "string option"
  ce_claim_id :: "string option"
  ce_locked :: "execution_attempt \<Rightarrow> bool"
  ce_peek_err :: "error option"

definition generate_id_err :: error where
  "generate_id_err = Errorf ''generate id''"

definition runnerEventSubject :: string where
  "runnerEventSubject = ''connect.runner''"

definition event_subject :: "string \<Rightarrow> string \<Rightarrow> string" where
  "event_subject runner tid = runnerEventSubject @ ''.'' @ runner @ ''.'' @ tid"

definition claim_summary :: "int \<Rightarrow> string" where
  "claim_summary n = ''Task claimed by runner for attempt '' @ show_int n"

definition claim_payload :: "string \<Rightarrow> string \<Rightarrow> string \<Rightarrow> string \<Rightarrow> int \<Rightarrow> payload" where
  "claim_payload tid runner execution claim n = JsonObject
     [(''task_id'', JStr tid), (''runner_id'', JStr runner), (''execution_id'', JStr execution),
      (''claim_id'', JStr claim), (''attempt'', JNum n), (''status'', JStr ''running''),
      (''summary'', JStr (claim_summary n))]"

definition claimed_attempt :: "time \<Rightarrow> time \<Rightarrow> string \<Rightarrow> string \<Rightarrow> execution_attempt \<Rightarrow> execution_attempt" where
  "claimed_attempt now lease runner claim a =
     a\<lparr>a_status := ''running'', a_runner_id := nullString runner, a_claim_id := claim,
       a_claimed_at := Some now, a_lease_expires_at := Some (now + lease), a_started_at := Some now,
       a_updated_at := now\<rparr>"

definition claimed_event_row ::
  "time \<Rightarrow> string \<Rightarrow> string \<Rightarrow> string \<Rightarrow> task \<Rightarrow> user_prompt \<Rightarrow> payload \<Rightarrow> task_event" where
  "claimed_event_row now event_id runner executionID task prompt pay =
     \<lparr>e_id = event_id, e_task_id = t_id task, e_subject = event_subject runner (t_id task),
      e_status = ''running'', e_payload = pay, e_created_at = now,
      e_agent_session_id = nullString (p_agent_session_id prompt),
      e_user_prompt_id = nullString (p_id prompt),
      e_execution_attempt_id = nullString executionID, e_event_type = ''task.claimed''\<rparr>"

definition claimed_event_ctx ::
  "time \<Rightarrow> string \<Rightarrow> string \<Rightarrow> task \<Rightarrow> int \<Rightarrow> payload \<Rightarrow> callback_event" where
  "claimed_event_ctx now event_id runner task n pay =
     \<lparr>ev_id = event_id, ev_task_id = t_id task, ev_team_id = str_of (t_team_id task),
      ev_subject = event_subject runner (t_id task), ev_status = ''running'',
      ev_event_type = ''task.claimed'', ev_summary = claim_summary n, ev_error = [],
      ev_error_category = [], ev_payload = pay, ev_created_at = now\<rparr>"

text \<open>The writes of the transaction, after the reads that choose the attempt.\<close>

definition claim_writes ::
  "claim_env \<Rightarrow> dispatcher \<Rightarrow> string \<Rightarrow> time \<Rightarrow> string \<Rightarrow> string \<Rightarrow> string \<Rightarrow>
   task \<Rightarrow> int \<Rightarrow> execution_attempt \<Rightarrow> user_prompt \<Rightarrow> agent_session \<Rightarrow> claimedExecution tx" where
  "claim_writes env cbs runner lease event_id claimID executionID task n attempt prompt session d =
     (let now = ce_now env;
          (d1, attemptRows) = MarkExecutionAttemptClaimed (nullString runner) claimID (Some now)
             (Some (now + lease)) (Some now) (Some now) now executionID d in
      bind_res (guard_res (attemptRows \<noteq> 0) ErrNoClaimableTask) (\<lambda>_.
      let (d2, rows) = MarkTaskRunning now (t_id task) d1 in
      bind_res (guard_res (rows \<noteq> 0) ErrNoClaimableTask) (\<lambda>_.
      let d3 = fst (MarkUserPromptRunningByTask (Some now) now (t_id task) d2);
          pay = claim_payload (t_id task) runner executionID claimID n in
      bind_res (InsertTaskEvent (claimed_event_row now event_id runner executionID task prompt pay) d3) (\<lambda>d4.
      bind_res (dispatch cbs (claimed_event_ctx now event_id runner task n pay) d4) (\<lambda>d5.
      Inr (\<lparr>c_Task = task\<lparr>t_status := ''running'', t_updated_at := now\<rparr>, c_Session = session,
            c_Prompt = prompt, c_Attempt = claimed_attempt now lease runner claimID attempt,
            c_AttemptNumber = n\<rparr>, d5))))))"

definition claim_tx ::
  "claim_env \<Rightarrow> dispatcher \<Rightarrow> string \<Rightarrow> time \<Rightarrow> string \<Rightarrow> bool \<Rightarrow> claimedExecution tx" where
  "claim_tx env cbs runner lease event_id isolation d =
     (case GetClaimableExecutionAttemptForUpdate (ce_locked env) runner isolation d of
        Inl e \<Rightarrow> Inl (if errors_is e SqlNoRows then ErrNoClaimableTask else e)
      | Inr (qa, qp, qt) \<Rightarrow>
      bind_res (GetTaskByID (t_id qt) d) (\<lambda>task.
      let attemptNumber = CountExecutionAttemptsByTask (t_id task) d in
      bind_res (guard_res (attemptNumber \<le> t_max_attempts task)
        (Errorf (''task '' @ t_id task @ '' exceeded its execution attempt limit''))) (\<lambda>_.
      bind_res (GetExecutionAttemptByID (a_id qa) d) (\<lambda>attempt.
      bind_res (from_option generate_id_err (ce_claim_id env)) (\<lambda>claimID.
      bind_res (GetUserPromptByID (a_user_prompt_id attempt) d) (\<lambda>prompt.
      bind_res (GetAgentSessionByID (p_agent_session_id prompt) d) (\<lambda>session.
      claim_writes env cbs runner lease event_id claimID (a_id qa) task attemptNumber attempt prompt
        session d)))))))"

definition claimOnce ::
  "claim_env \<Rightarrow> dispatcher \<Rightarrow> string \<Rightarrow> time \<Rightarrow> claimedExecution tx" where
  "claimOnce env cbs runner lease d =
     (if runner = [] then Inl (ConnectError CodeInvalidArgument (Errorf ''runner_id is required''))
      else if ce_peek_err env = None \<and> peekRunnerDrainDB runner d then Inl ErrNoClaimableTask
      else bind_res (from_option (ConnectError CodeInternal generate_id_err) (ce_event_id env)) (\<lambda>event_id.
      case GetRunnerIsolationEnabled runner d of
        Inl e \<Rightarrow> if errors_is e SqlNoRows then claim_tx env cbs runner lease event_id False d
                 else Inl (ConnectError CodeInternal (Wrap ''get runner isolation capability'' e))
      | Inr isolationEnabled \<Rightarrow> claim_tx env cbs runner lease event_id isolationEnabled d))"

section \<open>ClaimTask\<close>

definition defaultClaimWaitSec :: int where
  "defaultClaimWaitSec = 30"

definition defaultTaskLeaseSec :: int where
  "defaultTaskLeaseSec = 120"

definition claim_wait :: "int \<Rightarrow> error + int" where
  "claim_wait wait_seconds =
     (let w = (if wait_seconds = 0 then defaultClaimWaitSec else wait_seconds) in
      if w < 0 then Inl (ConnectError CodeInvalidArgument (Errorf ''wait_seconds must be non-negative''))
      else Inr (min w defaultClaimWaitSec))"

definition claim_lease :: "int \<Rightarrow> error + int" where
  "claim_lease lease_seconds =
     (let l = (if lease_seconds = 0 then defaultTaskLeaseSec else lease_seconds) in
      if l < 0 then Inl (ConnectError CodeInvalidArgument (Errorf ''lease_seconds must be non-negative''))
      else Inr (min l 3600))"

definition claimPollInterval :: time where
  "claimPollInterval = 15 * second"

text \<open>
  The long poll. Round \<open>i\<close> runs \<^const>\<open>claimOnce\<close> on the state \<open>fst (world i)\<close> in the environment
  \<open>snd (world i)\<close> at the time \<open>ce_now\<close>; \<open>woken i\<close> tells what ended the wait after the round: the
  request was cancelled (\<open>None\<close>), or the notifier or the timer woke it (\<open>Some ()\<close>). The clock of
  every round is past the previous one, and a round that waits for the timer ends at the deadline
  or a poll interval later, so the number of rounds is bounded by \<open>fuel\<close>; running out of fuel is
  the value \<open>None\<close>.
\<close>

fun claim_poll ::
  "(nat \<Rightarrow> db \<times> claim_env) \<Rightarrow> (nat \<Rightarrow> unit option) \<Rightarrow> dispatcher \<Rightarrow> string \<Rightarrow> time \<Rightarrow> time \<Rightarrow>
   nat \<Rightarrow> nat \<Rightarrow> (error + (claimedExecution \<times> db) option) option" where
  "claim_poll world woken cbs runner lease deadline 0 i = None"
| "claim_poll world woken cbs runner lease deadline (Suc fuel) i =
     (case claimOnce (snd (world i)) cbs runner lease (fst (world i)) of
        Inr (c, d') \<Rightarrow> Some (Inr (Some (c, d')))
      | Inl e \<Rightarrow>
          if \<not> errors_is e ErrNoClaimableTask then Some (Inl (ConnectError CodeInternal e))
          else if ce_now (snd (world i)) > deadline then Some (Inr None)
          else (case woken i of
             None \<Rightarrow> Some (Inl (ConnectError CodeCanceled (CtxErr ''context canceled'')))
           | Some _ \<Rightarrow> claim_poll world woken cbs runner lease deadline fuel (Suc i)))"

definition ClaimTask ::
  "(nat \<Rightarrow> db \<times> claim_env) \<Rightarrow> (nat \<Rightarrow> unit option) \<Rightarrow> dispatcher \<Rightarrow> string \<Rightarrow> int \<Rightarrow> int \<Rightarrow> time \<Rightarrow>
   nat \<Rightarrow> (error + (claimedExecution \<times> db) option) option" where
  "ClaimTask world woken cbs runner wait_seconds lease_seconds start fuel =
     (case claim_wait wait_seconds of Inl e \<Rightarrow> Some (Inl e)
      | Inr waitSec \<Rightarrow>
     (case claim_lease lease_seconds of Inl e \<Rightarrow> Some (Inl e)
      | Inr leaseSec \<Rightarrow>
          claim_poll world woken cbs runner (leaseSec * second) (start + waitSec * second) fuel 0))"

section \<open>What a successful claim did\<close>

definition isolation_of :: "string \<Rightarrow> db \<Rightarrow> bool" where
  "isolation_of runner d =
     (case find (\<lambda>r. r_id r = runner) (runners d) of None \<Rightarrow> False | Some r \<Rightarrow> r_isolation_enabled r)"

text \<open>
  What a runner may execute, said on the rows: a pending attempt of a pending task, pinned to no
  runner or to this one, and with isolation required only if the runner's row has it.
\<close>

definition may_execute :: "string \<Rightarrow> db \<Rightarrow> execution_attempt \<times> user_prompt \<times> task \<Rightarrow> bool" where
  "may_execute runner d = (\<lambda>(a, p, t).
     a_status a = ''pending'' \<and> t_status t = ''pending'' \<and>
     (\<forall>pinned. a_required_runner_id a = Some pinned \<longrightarrow> pinned \<noteq> [] \<longrightarrow> pinned = runner) \<and>
     ((\<exists>s\<in>set (agent_sessions d). s_id s = p_agent_session_id p \<and> s_isolation_required s) \<longrightarrow>
      (\<exists>r\<in>set (runners d). r_id r = runner \<and> r_isolation_enabled r)))"

lemma find_runner_isolation:
  "distinct (map r_id rs) \<Longrightarrow> (case find (\<lambda>r. r_id r = runner) rs of None \<Rightarrow> False | Some r \<Rightarrow> r_isolation_enabled r) \<longleftrightarrow>
      (\<exists>r\<in>set rs. r_id r = runner \<and> r_isolation_enabled r)"
proof (induction rs)
  case (Cons r rs)
  have "r_id r \<notin> r_id ` set rs" using Cons.prems by simp
  then have "r_id x \<noteq> r_id r" if "x \<in> set rs" for x using that by (metis imageI)
  with Cons show ?case by auto
qed simp

lemma runner_isolation:
  "wf_db d \<Longrightarrow> isolation_of runner d \<longleftrightarrow> (\<exists>r\<in>set (runners d). r_id r = runner \<and> r_isolation_enabled r)"
  unfolding isolation_of_def by (rule find_runner_isolation) (simp add: wf_db_def keys_ok_def)

lemma claimable_may_execute: "wf_db d \<Longrightarrow> claimable runner (isolation_of runner d) d j \<longleftrightarrow> may_execute runner d j"
  by (cases j) (auto simp: claimable_def may_execute_def runner_isolation list_ex_iff)

lemma GetRunnerIsolationEnabled_cases:
  "GetRunnerIsolationEnabled runner d =
     (case find (\<lambda>r. r_id r = runner) (runners d) of
        None \<Rightarrow> Inl SqlNoRows | Some r \<Rightarrow> Inr (r_isolation_enabled r))"
  by (simp add: GetRunnerIsolationEnabled_def sql_one_def split: option.splits)

lemma claimOnce_tx_eq:
  assumes "runner \<noteq> []" and "ce_peek_err env = None \<Longrightarrow> \<not> peekRunnerDrainDB runner d"
    and "ce_event_id env = Some event_id"
  shows "claimOnce env cbs runner lease d =
    claim_tx env cbs runner lease event_id (isolation_of runner d) d"
  using assms
  by (auto simp: claimOnce_def GetRunnerIsolationEnabled_cases isolation_of_def split: option.splits)

lemma claimOnce_tx:
  assumes "claimOnce env cbs runner lease d = Inr (c, d')"
  obtains event_id where "ce_event_id env = Some event_id" and "runner \<noteq> []"
    and "ce_peek_err env = None \<Longrightarrow> \<not> peekRunnerDrainDB runner d"
    and "claim_tx env cbs runner lease event_id (isolation_of runner d) d = Inr (c, d')"
proof -
  from assms obtain event_id where *: "ce_event_id env = Some event_id" "runner \<noteq> []"
    "ce_peek_err env = None \<Longrightarrow> \<not> peekRunnerDrainDB runner d"
    by (auto simp: claimOnce_def split: if_splits)
  with assms that show thesis using claimOnce_tx_eq [of runner env d event_id cbs lease] by simp
qed

lemma claim_tx_reads:
  assumes "claim_tx env cbs runner lease event_id isolation d = Inr (c, d')"
  obtains a p t task attempt claimID prompt session where
    "GetClaimableExecutionAttemptForUpdate (ce_locked env) runner isolation d = Inr (a, p, t)"
    "GetTaskByID (t_id t) d = Inr task" "CountExecutionAttemptsByTask (t_id task) d \<le> t_max_attempts task"
    "GetExecutionAttemptByID (a_id a) d = Inr attempt" "ce_claim_id env = Some claimID"
    "GetUserPromptByID (a_user_prompt_id attempt) d = Inr prompt"
    "GetAgentSessionByID (p_agent_session_id prompt) d = Inr session"
    "claim_writes env cbs runner lease event_id claimID (a_id a) task
       (CountExecutionAttemptsByTask (t_id task) d) attempt prompt session d = Inr (c, d')"
  using assms by (auto simp: claim_tx_def Let_def split: sum.splits)

text \<open>The row written for the claimed attempt.\<close>

definition claim_row :: "time \<Rightarrow> time \<Rightarrow> string \<Rightarrow> string \<Rightarrow> execution_attempt \<Rightarrow> execution_attempt" where
  "claim_row now lease runner claim a =
     (claimed_attempt now lease runner claim a)\<lparr>a_last_event_at := Some now\<rparr>"

lemma claim_row_changes: "a_status a = ''pending'' \<Longrightarrow> claim_row now lease runner claim a \<noteq> a"
proof
  assume "a_status a = ''pending''" and "claim_row now lease runner claim a = a"
  then have "a_status (claim_row now lease runner claim a) = ''pending''" by simp
  then show False by (simp add: claim_row_def claimed_attempt_def)
qed

definition run_row :: "time \<Rightarrow> task \<Rightarrow> task" where
  "run_row now t = t\<lparr>t_status := ''running'', t_updated_at := now\<rparr>"

lemma run_row_changes: "t_status t = ''pending'' \<Longrightarrow> run_row now t \<noteq> t"
proof
  assume "t_status t = ''pending''" and "run_row now t = t"
  then have "t_status (run_row now t) = ''pending''" by simp
  then show False by (simp add: run_row_def)
qed

lemma mark_claimed_eq:
  "MarkExecutionAttemptClaimed (nullString runner) claim (Some now) (Some (now + lease)) (Some now)
     (Some now) now i d =
   upd_attempts (\<lambda>a. a_id a = i \<and> a_status a = ''pending'') (claim_row now lease runner claim) d"
proof -
  have "(\<lambda>a. a\<lparr>a_status := ''running'', a_runner_id := nullString runner, a_claim_id := claim,
      a_claimed_at := Some now, a_lease_expires_at := Some (now + lease), a_started_at := Some now,
      a_last_event_at := Some now, a_updated_at := now\<rparr>) = claim_row now lease runner claim"
    by (rule ext) (simp add: claim_row_def claimed_attempt_def)
  then show ?thesis by (simp add: MarkExecutionAttemptClaimed_def)
qed

lemma mark_running_eq:
  "MarkTaskRunning now i d =
   upd_tasks (\<lambda>t. t_id t = i \<and> t_status t = ''pending'') (run_row now) d"
  by (simp add: MarkTaskRunning_def run_row_def [abs_def])

text \<open>The states between the statements of the transaction.\<close>

lemma claim_writes_cases:
  assumes "claim_writes env cbs runner lease event_id claimID i task n attempt prompt session d = Inr (c, d')"
  obtains d1 d2 d3 d4 pay where
    "d1 = fst (upd_attempts (\<lambda>a. a_id a = i \<and> a_status a = ''pending'')
       (claim_row (ce_now env) lease runner claimID) d)"
    "d2 = fst (upd_tasks (\<lambda>t. t_id t = t_id task \<and> t_status t = ''pending'') (run_row (ce_now env)) d1)"
    "\<exists>t\<in>set (tasks d1). t_id t = t_id task \<and> t_status t = ''pending''"
    "d3 = fst (MarkUserPromptRunningByTask (Some (ce_now env)) (ce_now env) (t_id task) d2)"
    "InsertTaskEvent (claimed_event_row (ce_now env) event_id runner i task prompt pay) d3 = Inr d4"
    "dispatch cbs (claimed_event_ctx (ce_now env) event_id runner task n pay) d4 = Inr d'"
    "c_Attempt c = claimed_attempt (ce_now env) lease runner claimID attempt"
    "t_id (c_Task c) = t_id task" "c_Session c = session" "c_Prompt c = prompt" "c_AttemptNumber c = n"
proof -
  let ?now = "ce_now env"
  let ?d1 = "fst (upd_attempts (\<lambda>a. a_id a = i \<and> a_status a = ''pending'')
       (claim_row ?now lease runner claimID) d)"
  let ?r2 = "upd_tasks (\<lambda>t. t_id t = t_id task \<and> t_status t = ''pending'') (run_row ?now) ?d1"
  have "snd ?r2 \<noteq> 0"
    using assms by (auto simp: claim_writes_def Let_def mark_claimed_eq mark_running_eq case_prod_unfold)
  then have task: "\<exists>t\<in>set (tasks ?d1). t_id t = t_id task \<and> t_status t = ''pending''"
    by (auto simp: upd_tasks_def sql_affected_pos_iff)
  show thesis
    using assms that [OF refl refl task refl]
    by (auto simp: claim_writes_def Let_def mark_claimed_eq mark_running_eq case_prod_unfold)
qed

context callback_dispatcher
begin

lemma claim_writes_good:
  assumes "claim_writes env cbs runner lease event_id claimID i task n attempt prompt session d = Inr (c, d')"
  shows "good_update d d'"
  using assms
proof (rule claim_writes_cases)
  fix d1 d2 d3 d4 pay
  assume d1: "d1 = fst (upd_attempts (\<lambda>a. a_id a = i \<and> a_status a = ''pending'')
       (claim_row (ce_now env) lease runner claimID) d)"
    and d2: "d2 = fst (upd_tasks (\<lambda>t. t_id t = t_id task \<and> t_status t = ''pending'') (run_row (ce_now env)) d1)"
    and d3: "d3 = fst (MarkUserPromptRunningByTask (Some (ce_now env)) (ce_now env) (t_id task) d2)"
    and d4: "InsertTaskEvent (claimed_event_row (ce_now env) event_id runner i task prompt pay) d3 = Inr d4"
    and d': "dispatch cbs (claimed_event_ctx (ce_now env) event_id runner task n pay) d4 = Inr d'"
  have "good_update d d1" unfolding d1 mark_claimed_eq [symmetric] by (rule keep_intros)
  also have "good_update d1 d2" unfolding d2 mark_running_eq [symmetric] by (rule keep_intros)
  also have "good_update d2 d3" unfolding d3 by (rule keep_intros)
  also have "good_update d3 d4" using d4 by (rule keep_intros)
  also have "good_update d4 d'" using dispatch_keeps [OF d'] by (intro good_other_tables) auto
  finally show ?thesis .
qed

lemma claim_writes_tables:
  assumes "claim_writes env cbs runner lease event_id claimID i task n attempt prompt session d = Inr (c, d')"
  shows "execution_attempts d' = sql_update (\<lambda>a. a_id a = i \<and> a_status a = ''pending'')
           (claim_row (ce_now env) lease runner claimID) (execution_attempts d) \<and>
         tasks d' = sql_update (\<lambda>t. t_id t = t_id task \<and> t_status t = ''pending'')
           (run_row (ce_now env)) (tasks d) \<and>
         agent_sessions d' = agent_sessions d \<and>
         runner_drain_requests d' = runner_drain_requests d \<and>
         (\<exists>pay. task_events d' =
            task_events d @ [claimed_event_row (ce_now env) event_id runner i task prompt pay]) \<and>
         (\<exists>t\<in>set (tasks d). t_id t = t_id task \<and> t_status t = ''pending'')"
  using assms
  by (rule claim_writes_cases)
    (auto simp: dispatch_keeps InsertTaskEvent_def upd_attempts_def upd_tasks_def
        MarkUserPromptRunningByTask_def upd_prompts_def)

lemma claimOnce_good:
  assumes "claimOnce env cbs runner lease d = Inr (c, d')"
  shows "good_update d d'"
  using assms
proof (rule claimOnce_tx)
  fix event_id
  assume "claim_tx env cbs runner lease event_id (isolation_of runner d) d = Inr (c, d')"
  then show ?thesis by (rule claim_tx_reads) (rule claim_writes_good)
qed

text \<open>
  A claim takes the oldest attempt among those the runner may take and nobody has locked, and
  turns exactly this attempt and its task into running ones.
\<close>

lemma claimOnce_effect:
  assumes "claimOnce env cbs runner lease d = Inr (c, d')" and wf: "wf_db d"
  obtains a p t claimID where
    "(a, p, t) \<in> set (attempt_task_joins d)" "claimable runner (isolation_of runner d) d (a, p, t)"
    "\<not> ce_locked env a"
    "\<And>b q u. (b, q, u) \<in> set (attempt_task_joins d) \<Longrightarrow>
       claimable runner (isolation_of runner d) d (b, q, u) \<Longrightarrow> \<not> ce_locked env b \<Longrightarrow>
       a_created_at a \<le> a_created_at b"
    "runner \<noteq> []" "ce_peek_err env = None \<Longrightarrow> \<not> peekRunnerDrainDB runner d"
    "CountExecutionAttemptsByTask (t_id t) d \<le> t_max_attempts t"
    "ce_claim_id env = Some claimID"
    "c_Attempt c = claimed_attempt (ce_now env) lease runner claimID a" "t_id (c_Task c) = t_id t"
    "execution_attempts d' = sql_update (\<lambda>b. a_id b = a_id a \<and> a_status b = ''pending'')
       (claim_row (ce_now env) lease runner claimID) (execution_attempts d)"
    "tasks d' = sql_update (\<lambda>u. t_id u = t_id t \<and> t_status u = ''pending'') (run_row (ce_now env)) (tasks d)"
    "\<exists>e. ce_event_id env = Some (e_id e) \<and> e_event_type e = ''task.claimed'' \<and>
       e_execution_attempt_id e = nullString (a_id a) \<and> task_events d' = task_events d @ [e]"
  using assms(1)
proof (rule claimOnce_tx)
  fix event_id
  assume ev: "ce_event_id env = Some event_id" and runner: "runner \<noteq> []"
    and drain: "ce_peek_err env = None \<Longrightarrow> \<not> peekRunnerDrainDB runner d"
    and "claim_tx env cbs runner lease event_id (isolation_of runner d) d = Inr (c, d')"
  from this(4) show thesis
  proof (rule claim_tx_reads)
    fix a p t task attempt claimID prompt session
    assume q: "GetClaimableExecutionAttemptForUpdate (ce_locked env) runner (isolation_of runner d) d = Inr (a, p, t)"
      and task: "GetTaskByID (t_id t) d = Inr task"
      and n: "CountExecutionAttemptsByTask (t_id task) d \<le> t_max_attempts task"
      and attempt: "GetExecutionAttemptByID (a_id a) d = Inr attempt"
      and claim: "ce_claim_id env = Some claimID"
      and w: "claim_writes env cbs runner lease event_id claimID (a_id a) task
         (CountExecutionAttemptsByTask (t_id task) d) attempt prompt session d = Inr (c, d')"
    note in_join = claimable_query(1) [OF q]
    then have "t \<in> set (tasks d)" "a \<in> set (execution_attempts d)"
      by (simp_all add: attempt_task_joins_iff)
    then have "task = t" "attempt = a"
      using task attempt wf_lookups(1,4) [OF wf] by simp_all
    moreover have "c_Attempt c = claimed_attempt (ce_now env) lease runner claimID attempt"
      "t_id (c_Task c) = t_id task" using w by (auto elim: claim_writes_cases)
    ultimately show thesis
      using claim_writes_tables [OF w] claimable_query [OF q] claim n ev
      by (intro that [of a p t claimID]) (auto simp: claimed_event_row_def runner drain)
  qed
qed

text \<open>The attempt of the claim, found in the state after it.\<close>

lemma claimOnce_row:
  assumes "claimOnce env cbs runner lease d = Inr (c, d')" and "wf_db d"
  obtains a claimID where "a \<in> set (execution_attempts d)" "a_status a = ''pending''"
    "ce_claim_id env = Some claimID" "a_id (c_Attempt c) = a_id a"
    "claim_row (ce_now env) lease runner claimID a \<in> set (execution_attempts d')"
    "\<And>b. b \<in> set (execution_attempts d) \<Longrightarrow> a_id b \<noteq> a_id a \<Longrightarrow> b \<in> set (execution_attempts d')"
  using assms
proof (rule claimOnce_effect)
  fix a p t claimID
  assume j: "(a, p, t) \<in> set (attempt_task_joins d)" and cl: "claimable runner (isolation_of runner d) d (a, p, t)"
    and id: "ce_claim_id env = Some claimID"
    and c: "c_Attempt c = claimed_attempt (ce_now env) lease runner claimID a"
    and tab: "execution_attempts d' = sql_update (\<lambda>b. a_id b = a_id a \<and> a_status b = ''pending'')
       (claim_row (ce_now env) lease runner claimID) (execution_attempts d)"
  from cl have st: "a_status a = ''pending''" by (simp add: claimable_def)
  from j have a: "a \<in> set (execution_attempts d)" by (simp add: attempt_task_joins_iff)
  show thesis
  proof (rule that [OF a st id])
    show "a_id (c_Attempt c) = a_id a" by (simp add: c claimed_attempt_def)
    show "claim_row (ce_now env) lease runner claimID a \<in> set (execution_attempts d')"
      using a st by (auto simp: tab in_sql_update_iff)
    show "b \<in> set (execution_attempts d')" if "b \<in> set (execution_attempts d)" "a_id b \<noteq> a_id a" for b
      using that by (auto simp: tab in_sql_update_iff)
  qed
qed

end

section \<open>When a claim succeeds and when it fails\<close>

lemma claim_drained:
  "runner \<noteq> [] \<Longrightarrow> ce_peek_err env = None \<Longrightarrow> peekRunnerDrainDB runner d \<Longrightarrow>
     claimOnce env cbs runner lease d = Inl ErrNoClaimableTask"
  by (simp add: claimOnce_def)

lemma affected_attempt:
  "a \<in> set (execution_attempts d) \<Longrightarrow> a_status a = ''pending'' \<Longrightarrow>
     snd (upd_attempts (\<lambda>b. a_id b = a_id a \<and> a_status b = ''pending'') (claim_row now lease runner claim) d) \<noteq> 0"
  by (auto simp: upd_attempts_def sql_affected_zero_iff claim_row_changes)

lemma affected_task:
  "t \<in> set (tasks d) \<Longrightarrow> t_status t = ''pending'' \<Longrightarrow>
     snd (upd_tasks (\<lambda>u. t_id u = t_id t \<and> t_status u = ''pending'') (run_row now) d) \<noteq> 0"
  by (auto simp: upd_tasks_def sql_affected_zero_iff run_row_changes)

lemma claim_writes_succeeds:
  assumes "a \<in> set (execution_attempts d)" "a_status a = ''pending''"
    and "t \<in> set (tasks d)" "t_status t = ''pending''"
    and "event_id \<notin> e_id ` set (task_events d)" and disp: "\<And>ev d. \<exists>d'. dispatch cbs ev d = Inr d'"
  shows "\<exists>c d'. claim_writes env cbs runner lease event_id claimID (a_id a) t n attempt prompt session d = Inr (c, d')"
proof -
  let ?d1 = "fst (upd_attempts (\<lambda>b. a_id b = a_id a \<and> a_status b = ''pending'')
       (claim_row (ce_now env) lease runner claimID) d)"
  have ev: "task_events (fst (MarkUserPromptRunningByTask u v w
      (fst (upd_tasks x y ?d1)))) = task_events d" for u v w x y
    by (simp add: upd_attempts_def upd_tasks_def MarkUserPromptRunningByTask_def upd_prompts_def)
  have t1: "t \<in> set (tasks ?d1)" using assms(3) by (simp add: upd_attempts_def)
  show ?thesis
    using assms(5) affected_attempt [OF assms(1,2)] affected_task [OF t1 assms(4)] disp
    by (simp add: claim_writes_def Let_def mark_claimed_eq mark_running_eq case_prod_unfold
        InsertTaskEvent_def ev claimed_event_row_def)
qed

lemma claim_tx_succeeds:
  assumes wf: "wf_db d" and ids: "ce_claim_id env = Some claimID"
    and "event_id \<notin> e_id ` set (task_events d)"
    and "(b, q, u) \<in> set (attempt_task_joins d)" "claimable runner isolation d (b, q, u)" "\<not> ce_locked env b"
    and limit: "\<And>t. t \<in> set (tasks d) \<Longrightarrow> t_status t = ''pending'' \<Longrightarrow>
          CountExecutionAttemptsByTask (t_id t) d \<le> t_max_attempts t"
    and disp: "\<And>ev d. \<exists>d'. dispatch cbs ev d = Inr d'"
  shows "\<exists>c d'. claim_tx env cbs runner lease event_id isolation d = Inr (c, d')"
proof -
  have "\<exists>a p t. GetClaimableExecutionAttemptForUpdate (ce_locked env) runner isolation d = Inr (a, p, t)"
    using assms(4-6) by (force simp: GetClaimableExecutionAttemptForUpdate_def from_option_def
        filter_empty_conv split: option.splits)
  then obtain a p t where q: "GetClaimableExecutionAttemptForUpdate (ce_locked env) runner isolation d = Inr (a, p, t)"
    by blast
  from claimable_query(1,2) [OF q] have rows: "a \<in> set (execution_attempts d)" "p \<in> set (user_prompts d)"
    "t \<in> set (tasks d)" "p_id p = a_user_prompt_id a"
    and st: "a_status a = ''pending''" "t_status t = ''pending''"
    by (simp_all add: attempt_task_joins_iff claimable_def)
  obtain s where s: "s \<in> set (agent_sessions d)" "s_id s = p_agent_session_id p"
    using wf_session_of_prompt [OF wf rows(2)] by blast
  have "GetUserPromptByID (a_user_prompt_id a) d = Inr p" using wf_lookups(3) [OF wf rows(2)] rows(4) by simp
  moreover have "GetAgentSessionByID (p_agent_session_id p) d = Inr s" using wf_lookups(2) [OF wf s(1)] s(2) by simp
  ultimately show ?thesis
    using wf_lookups(1) [OF wf rows(3)] wf_lookups(4) [OF wf rows(1)] q limit [OF rows(3) st(2)] ids
      claim_writes_succeeds [OF rows(1) st(1) rows(3) st(2) assms(3) disp]
    by (simp add: claim_tx_def)
qed

text \<open>
  When the oldest claimable attempt belongs to a task that already has more attempts than it may,
  the claim fails, whatever else is in the queue.
\<close>

lemma claim_tx_over_limit:
  assumes "wf_db d" and "GetClaimableExecutionAttemptForUpdate (ce_locked env) runner isolation d = Inr (a, p, t)"
    and "t_max_attempts t < CountExecutionAttemptsByTask (t_id t) d"
  shows "claim_tx env cbs runner lease event_id isolation d =
    Inl (Errorf (''task '' @ t_id t @ '' exceeded its execution attempt limit''))"
  using assms wf_lookups(1) [OF assms(1), of t] claimable_query(1) [OF assms(2)]
  by (simp add: claim_tx_def attempt_task_joins_iff)

section \<open>The long poll\<close>

lemma claim_wait_range: "claim_wait w = Inr n \<Longrightarrow> 0 < n \<and> n \<le> 30"
  by (auto simp: claim_wait_def Let_def defaultClaimWaitSec_def split: if_splits)

lemma claim_lease_range: "claim_lease l = Inr n \<Longrightarrow> 0 < n \<and> n \<le> 3600"
  by (auto simp: claim_lease_def Let_def defaultTaskLeaseSec_def split: if_splits)

text \<open>
  The poll returns: when the clock has passed the deadline by round \<open>n\<close>, fuel for \<open>n + 1\<close> rounds is
  enough.
\<close>

lemma claim_poll_returns:
  assumes "ce_now (snd (world (i + n))) > deadline" and "n < fuel"
  shows "\<exists>r. claim_poll world woken cbs runner lease deadline fuel i = Some r"
  using assms
proof (induction n arbitrary: i fuel)
  case 0
  then obtain f where "fuel = Suc f" by (cases fuel) auto
  with 0 show ?case by (auto split: sum.splits)
next
  case (Suc n)
  then obtain f where f: "fuel = Suc f" "n < f" by (cases fuel) auto
  from Suc.IH [of "Suc i" f] Suc.prems f
  have "\<exists>r. claim_poll world woken cbs runner lease deadline f (Suc i) = Some r" by simp
  with f show ?case by (auto split: sum.splits option.splits)
qed

end
