(* ===== verification/Chetter_Time.thy ===== *)
theory Chetter_Time
  imports Chetter_Strings
begin

text \<open>
  \<^verbatim>\<open>parseOptionalTime\<close> of \<^verbatim>\<open>internal/service/runner_rpc.go\<close>: Go's
  \<^verbatim>\<open>time.Parse\<close> for the layout \<^verbatim>\<open>RFC3339Nano\<close>, read as nanoseconds since the Unix
  epoch. As in Go, the hour may have one digit, a fraction of any length is accepted (digits
  after the ninth are dropped) and may start with a comma, and the offset may reach 24:60.
\<close>

section \<open>The civil calendar\<close>

definition leap_year :: "int \<Rightarrow> bool" where
  "leap_year y = (4 dvd y \<and> (\<not> 100 dvd y \<or> 400 dvd y))"

definition days_in_month :: "int \<Rightarrow> int \<Rightarrow> int" where
  "days_in_month y m =
     (if m = 2 then (if leap_year y then 29 else 28)
      else if m \<in> {4, 6, 9, 11} then 30 else 31)"

text \<open>Days from 1970-01-01 to a date of the proleptic Gregorian calendar.\<close>

definition days_before_year :: "int \<Rightarrow> int" where
  "days_before_year y = (let k = y - 1 in 365 * k + k div 4 - k div 100 + k div 400)"

definition days_from_civil :: "int \<Rightarrow> int \<Rightarrow> int \<Rightarrow> int" where
  "days_from_civil y m d =
     days_before_year y - days_before_year 1970 +
     sum_list (map (days_in_month y) [1..m - 1]) + (d - 1)"

section \<open>The parser\<close>

definition digit :: "char \<Rightarrow> int option" where
  "digit c = (let n = (of_char c :: int) in if 48 \<le> n \<and> n \<le> 57 then Some (n - 48) else None)"

text \<open>Exactly \<open>n\<close> digits.\<close>

fun take_digits :: "nat \<Rightarrow> int \<Rightarrow> string \<Rightarrow> (int \<times> string) option" where
  "take_digits 0 acc s = Some (acc, s)"
| "take_digits (Suc n) acc [] = None"
| "take_digits (Suc n) acc (c # cs) =
     (case digit c of None \<Rightarrow> None | Some v \<Rightarrow> take_digits n (10 * acc + v) cs)"

text \<open>\<^verbatim>\<open>getnum(value, false)\<close>: two digits, or one.\<close>

definition getnum :: "string \<Rightarrow> (int \<times> string) option" where
  "getnum s = (case take_digits 2 0 s of Some r \<Rightarrow> Some r | None \<Rightarrow> take_digits 1 0 s)"

definition expect :: "char \<Rightarrow> string \<Rightarrow> string option" where
  "expect c s = (case s of [] \<Rightarrow> None | x # xs \<Rightarrow> if x = c then Some xs else None)"

fun digits_prefix :: "string \<Rightarrow> string \<times> string" where
  "digits_prefix [] = ([], [])"
| "digits_prefix (c # cs) =
     (if digit c = None then ([], c # cs) else (let (ds, r) = digits_prefix cs in (c # ds, r)))"

text \<open>A fraction needs one digit at least; the value is in nanoseconds.\<close>

definition fraction :: "string \<Rightarrow> int \<times> string" where
  "fraction s = (case s of
      [] \<Rightarrow> (0, [])
    | c # cs \<Rightarrow>
        if (c = CHR ''.'' \<or> c = CHR '','') \<and> fst (digits_prefix cs) \<noteq> [] then
          (let (ds, r) = digits_prefix cs; kept = take 9 ds in
           case take_digits (length kept) 0 kept of
             None \<Rightarrow> (0, s)
           | Some (v, _) \<Rightarrow> (v * 10 ^ (9 - length kept), r))
        else (0, s))"

text \<open>\<^verbatim>\<open>Z07:00\<close>: the offset in seconds; nothing may follow it.\<close>

definition zone :: "string \<Rightarrow> int option" where
  "zone s = (case s of
      [] \<Rightarrow> None
    | c # cs \<Rightarrow>
        if c = CHR ''Z'' then (if cs = [] then Some 0 else None)
        else if c = CHR ''+'' \<or> c = CHR ''-'' then
          Option.bind (take_digits 2 0 cs) (\<lambda>(hh, r).
          Option.bind (expect (CHR '':'') r) (\<lambda>r.
          Option.bind (take_digits 2 0 r) (\<lambda>(mm, r).
            if r = [] \<and> hh \<le> 24 \<and> mm \<le> 60
            then Some ((if c = CHR ''+'' then 1 else - 1) * (hh * 60 + mm) * 60)
            else None)))
        else None)"

definition parse_rfc3339 :: "string \<Rightarrow> time option" where
  "parse_rfc3339 s =
     Option.bind (take_digits 4 0 s) (\<lambda>(year, s).
     Option.bind (expect (CHR ''-'') s) (\<lambda>s.
     Option.bind (take_digits 2 0 s) (\<lambda>(month, s).
     Option.bind (expect (CHR ''-'') s) (\<lambda>s.
     Option.bind (take_digits 2 0 s) (\<lambda>(day, s).
     Option.bind (expect (CHR ''T'') s) (\<lambda>s.
     Option.bind (getnum s) (\<lambda>(hr, s).
     Option.bind (expect (CHR '':'') s) (\<lambda>s.
     Option.bind (take_digits 2 0 s) (\<lambda>(mi, s).
     Option.bind (expect (CHR '':'') s) (\<lambda>s.
     Option.bind (take_digits 2 0 s) (\<lambda>(sec, s).
       let (nanos, s) = fraction s in
     Option.bind (zone s) (\<lambda>offset.
       if 1 \<le> month \<and> month \<le> 12 \<and> 1 \<le> day \<and> day \<le> days_in_month year month \<and>
          hr < 24 \<and> mi < 60 \<and> sec < 60
       then Some ((((days_from_civil year month day * 24 + hr) * 60 + mi) * 60 + sec - offset) * second
                  + nanos)
       else None))))))))))))"

definition parseOptionalTime :: "string \<Rightarrow> time option" where
  "parseOptionalTime value = (if value = [] then None else parse_rfc3339 value)"

section \<open>Lemmas\<close>

lemma parseOptionalTime_Nil [simp]: "parseOptionalTime [] = None"
  by (simp add: parseOptionalTime_def)

lemma div_pred_step:
  fixes y n :: int
  assumes "0 < n"
  shows "y div n - (y - 1) div n = (if n dvd y then 1 else 0)"
proof (cases "n dvd y")
  case True
  then obtain k where y: "y = n * k" by blast
  then have "(y - 1) div n = k - 1"
    using assms by (intro int_div_pos_eq [where r = "n - 1"]) (auto simp: algebra_simps)
  with y assms show ?thesis by simp
next
  case False
  then have "0 < y mod n" using assms pos_mod_sign [of n y] by (auto simp: dvd_eq_mod_eq_0 less_le)
  then have "(y - 1) div n = y div n"
    using assms less_trans [OF _ pos_mod_bound [OF assms, of y], of "y mod n - 1"]
    by (intro int_div_pos_eq [where r = "y mod n - 1"]) auto
  with False show ?thesis by simp
qed

text \<open>The calendar counts a leap year as 366 days and any other as 365.\<close>

lemma days_before_year_step:
  "days_before_year (y + 1) - days_before_year y = (if leap_year y then 366 else 365)"
proof -
  have *: "100 dvd y" if "400 dvd y"
    using that by (rule dvd_trans [rotated]) simp
  have **: "4 dvd y" if "100 dvd y"
    using that by (rule dvd_trans [rotated]) simp
  have "days_before_year (y + 1) - days_before_year y =
      365 + (y div 4 - (y - 1) div 4) - (y div 100 - (y - 1) div 100) +
      (y div 400 - (y - 1) div 400)"
    unfolding days_before_year_def Let_def by simp
  also have "\<dots> = 365 + (if 4 dvd y then 1 else 0) - (if 100 dvd y then 1 else 0) +
      (if 400 dvd y then 1 else 0)"
    by (simp only: div_pred_step [of 4 y] div_pred_step [of 100 y] div_pred_step [of 400 y]
          zero_less_numeral)
  also have "\<dots> = (if leap_year y then 366 else 365)"
    using * ** by (cases "400 dvd y"; cases "100 dvd y"; cases "4 dvd y")
      (simp_all only: leap_year_def if_True if_False simp_thms, simp_all)
  finally show ?thesis .
qed

lemma year_length:
  "sum_list (map (days_in_month y) [1..12]) = (if leap_year y then 366 else 365)"
  by (simp add: days_in_month_def upto_rec1)

lemma days_from_civil_next_year:
  "days_from_civil (y + 1) 1 1 = days_from_civil y 12 31 + 1"
proof -
  have "sum_list (map (days_in_month y) [1..11]) + 31 = (if leap_year y then 366 else 365)"
    by (simp add: days_in_month_def upto_rec1)
  with days_before_year_step [of y] show ?thesis by (simp add: days_from_civil_def)
qed

lemma days_from_civil_epoch: "days_from_civil 1970 1 1 = 0"
  by (simp add: days_from_civil_def)

lemma days_from_civil_next_month:
  assumes "1 \<le> m" and "m < 12"
  shows "days_from_civil y (m + 1) 1 = days_from_civil y m (days_in_month y m) + 1"
proof -
  have "[1..m] = [1..m - 1] @ [m]" using assms by (simp add: upto_rec2)
  then show ?thesis by (simp add: days_from_civil_def)
qed

end
