(* ===== verification/Chetter_Redact.thy ===== *)
theory Chetter_Redact
  imports Chetter_Strings
begin

text \<open>
  \<^verbatim>\<open>internal/redact/redact.go\<close>: the set of secret values taken from an environment and its
  application to the output of a runner. Go iterates over the environment map in an arbitrary
  order; the model takes the entries as a list in the order of one such iteration, so a statement
  about every list is a statement about every order.
\<close>

definition sensitive_key :: "string \<Rightarrow> bool" where
  "sensitive_key key =
     (let upper = to_upper key in
      contains upper ''SECRET'' \<or> contains upper ''TOKEN'' \<or> contains upper ''KEY'' \<or>
      contains upper ''PASSWORD'')"

fun collect_values :: "string list \<Rightarrow> (string \<times> string) list \<Rightarrow> string list" where
  "collect_values seen [] = []"
| "collect_values seen ((key, value) # env) =
     (if value = [] then collect_values seen env
      else if \<not> sensitive_key key then collect_values seen env
      else if value \<in> set seen then collect_values seen env
      else value # collect_values (value # seen) env)"

definition NewSet :: "(string \<times> string) list \<Rightarrow> string list" where
  "NewSet env = (if env = [] then [] else collect_values [] env)"

definition redacted :: string where
  "redacted = ''[REDACTED]''"

fun redact_all :: "string list \<Rightarrow> string \<Rightarrow> string" where
  "redact_all [] out = out"
| "redact_all (v # vs) out =
     redact_all vs (if length v < 4 then out else replace_all v redacted out)"

definition Apply :: "string list \<Rightarrow> string \<Rightarrow> string" where
  "Apply values out = (if values = [] \<or> out = [] then out else redact_all values out)"

section \<open>The values of a set\<close>

lemma collect_values_set:
  "set (collect_values seen env) =
     {v. v \<noteq> [] \<and> v \<notin> set seen \<and> (\<exists>k. sensitive_key k \<and> (k, v) \<in> set env)}"
proof (induction env arbitrary: seen)
  case Nil
  show ?case by simp
next
  case (Cons kv env)
  obtain k v where kv: "kv = (k, v)" by (cases kv)
  show ?case
    unfolding kv collect_values.simps by (cases "v \<in> set seen") (simp_all add: Cons.IH, blast+)
qed

lemma collect_values_distinct: "distinct (collect_values seen env)"
  by (induction seen env rule: collect_values.induct) (auto simp: collect_values_set)

lemma NewSet_set: "set (NewSet env) = {v. v \<noteq> [] \<and> (\<exists>k. sensitive_key k \<and> (k, v) \<in> set env)}"
  by (simp add: NewSet_def collect_values_set)

section \<open>Applying a set\<close>

text \<open>
  A secret that the replacement out cannot recreate: at least four bytes, no bracket, and not
  part of the word in the brackets.
\<close>

definition plain_secret :: "string \<Rightarrow> bool" where
  "plain_secret v \<longleftrightarrow> 4 \<le> length v \<and> CHR ''['' \<notin> set v \<and> CHR '']'' \<notin> set v \<and> \<not> contains ''REDACTED'' v"

lemma sublist_separator:
  assumes "sublist v (xs @ x # ys)" and "x \<notin> set v"
  shows "sublist v xs \<or> sublist v ys"
proof -
  from assms(1) obtain us vs where eq: "xs @ x # ys = us @ v @ vs" by (auto simp: sublist_def)
  show ?thesis
  proof (cases "length us + length v \<le> length xs")
    case True
    then have "take (length us + length v) (xs @ x # ys) = take (length us + length v) xs" by simp
    then have "take (length us + length v) xs = us @ v" by (simp add: eq)
    then have "xs = us @ v @ drop (length us + length v) xs"
      by (metis append.assoc append_take_drop_id)
    then show ?thesis by (metis sublist_appendI)
  next
    case False
    have "length us > length xs"
    proof (rule ccontr)
      assume "\<not> length xs < length us"
      with False have "(us @ v @ vs) ! length xs = v ! (length xs - length us)"
        and "length xs - length us < length v" by (auto simp: nth_append)
      then have "x \<in> set v" by (metis eq nth_append_length nth_mem)
      with assms(2) show False by simp
    qed
    then have "drop (Suc (length xs)) (us @ v @ vs) = drop (Suc (length xs)) us @ v @ vs" by simp
    moreover have "drop (Suc (length xs)) (us @ v @ vs) = ys" by (simp add: eq [symmetric])
    ultimately show ?thesis by (metis sublist_appendI)
  qed
qed

lemma sublist_redacted:
  assumes "plain_secret v" and "sublist v (redacted @ rest)"
  shows "sublist v rest"
proof -
  have "redacted @ rest = ''[REDACTED'' @ CHR '']'' # rest" by (simp add: redacted_def)
  with assms have "sublist v ''[REDACTED'' \<or> sublist v rest"
    by (metis plain_secret_def sublist_separator)
  moreover have "\<not> sublist v ''[REDACTED''"
  proof
    assume "sublist v ''[REDACTED''"
    then have "sublist v ([] @ CHR ''['' # ''REDACTED'')" by simp
    with assms(1) have "sublist v [] \<or> sublist v ''REDACTED''"
      by (metis plain_secret_def sublist_separator)
    with assms(1) show False by (auto simp: plain_secret_def contains_iff_sublist)
  qed
  ultimately show ?thesis by simp
qed

lemma prefix_replaced:
  "CHR ''['' \<notin> set v \<Longrightarrow> w \<noteq> [] \<Longrightarrow> prefix v (replace_all w redacted s) \<Longrightarrow> prefix v s"
proof (induction v arbitrary: s)
  case (Cons x v)
  note prems = Cons.prems and IH = Cons.IH
  show ?case
  proof (cases s)
    case Nil
    with prems show ?thesis by simp
  next
    case (Cons c cs)
    show ?thesis
    proof (cases "prefix w (c # cs)")
      case True
      then have "replace_all w redacted s = CHR ''['' # tl redacted @ replace_all w redacted (drop (length w) s)"
        using prems(2) Cons by (simp add: redacted_def)
      with prems show ?thesis by simp
    next
      case False
      then have "replace_all w redacted s = c # replace_all w redacted cs" using prems(2) Cons by simp
      with prems IH [of cs] Cons show ?thesis by simp
    qed
  qed
qed simp

text \<open>A replacement neither leaves the value it replaces nor creates another plain secret.\<close>

lemma replace_creates_nothing:
  assumes "plain_secret v" and "w \<noteq> []" and "contains (replace_all w redacted s) v"
  shows "contains s v"
  using assms(2,3)
proof (induction w redacted s rule: replace_all.induct)
  case (1 w)
  then show ?case by simp
next
  case (2 w c cs)
  show ?case
  proof (cases "prefix w (c # cs)")
    case True
    then have "replace_all w redacted (c # cs) = redacted @ replace_all w redacted (drop (length w) (c # cs))"
      using 2 by simp
    with 2 True sublist_redacted [OF assms(1)]
    have "contains (drop (length w) (c # cs)) v" by (simp add: contains_iff_sublist)
    then show ?thesis by (metis contains_iff_sublist sublist_drop sublist_order.order.trans)
  next
    case False
    with 2 have "prefix v (c # replace_all w redacted cs) \<or> contains (replace_all w redacted cs) v"
      by (auto simp: contains_iff_sublist sublist_Cons_right)
    moreover have "prefix v (c # cs)" if "prefix v (c # replace_all w redacted cs)"
      using that 2(4) assms(1) prefix_replaced [of "tl v" w cs]
      by (cases v) (auto simp: plain_secret_def)
    ultimately show ?thesis using 2 False by auto
  qed
qed

lemma replace_removes:
  assumes "plain_secret v"
  shows "\<not> contains (replace_all v redacted s) v"
proof (induction s rule: length_induct)
  case (1 s)
  have ne: "v \<noteq> []" using assms by (auto simp: plain_secret_def)
  show ?case
  proof (cases s)
    case Nil
    with ne show ?thesis by simp
  next
    case (Cons c cs)
    show ?thesis
    proof (cases "prefix v (c # cs)")
      case True
      have "length (drop (length v) (c # cs)) < length s" using ne Cons by (cases v) auto
      with 1 have "\<not> contains (replace_all v redacted (drop (length v) (c # cs))) v" by blast
      moreover have "replace_all v redacted s = redacted @ replace_all v redacted (drop (length v) (c # cs))"
        using True ne Cons by simp
      ultimately show ?thesis using sublist_redacted [OF assms] by (auto simp: contains_iff_sublist)
    next
      case False
      have "\<not> contains (replace_all v redacted cs) v" using 1 Cons by simp
      moreover have "\<not> prefix v (c # replace_all v redacted cs)"
        using False ne assms prefix_replaced [of "tl v" v cs] by (cases v) (auto simp: plain_secret_def)
      ultimately show ?thesis using False ne Cons by (auto simp: contains_iff_sublist sublist_Cons_right)
    qed
  qed
qed

lemma redact_all_creates_nothing:
  "plain_secret v \<Longrightarrow> contains (redact_all vs out) v \<Longrightarrow> contains out v"
proof (induction vs arbitrary: out)
  case (Cons w vs)
  then have "contains (if length w < 4 then out else replace_all w redacted out) v" by simp
  then show ?case using replace_creates_nothing [OF Cons.prems(1), of w out] by (cases w) (auto split: if_splits)
qed simp

lemma redact_all_removes:
  "plain_secret v \<Longrightarrow> v \<in> set vs \<Longrightarrow> \<not> contains (redact_all vs out) v"
proof (induction vs arbitrary: out)
  case (Cons w vs)
  show ?case
  proof (cases "v = w")
    case True
    with Cons.prems replace_removes [of v out] redact_all_creates_nothing [of v vs "replace_all v redacted out"]
    show ?thesis by (auto simp: plain_secret_def)
  next
    case False
    with Cons show ?thesis by simp
  qed
qed simp

lemma Apply_removes: "plain_secret v \<Longrightarrow> v \<in> set vs \<Longrightarrow> \<not> contains (Apply vs out) v"
  using redact_all_removes [of v vs out] by (auto simp: Apply_def plain_secret_def)

lemma Apply_clean: "(\<And>v. v \<in> set vs \<Longrightarrow> 4 \<le> length v \<Longrightarrow> \<not> contains out v) \<Longrightarrow> Apply vs out = out"
proof -
  have "(\<And>v. v \<in> set vs \<Longrightarrow> 4 \<le> length v \<Longrightarrow> \<not> contains out v) \<Longrightarrow> redact_all vs out = out"
  proof (induction vs)
    case (Cons w vs)
    then show ?case using replace_all_absent [of w out redacted] by (cases w) auto
  qed simp
  then show "(\<And>v. v \<in> set vs \<Longrightarrow> 4 \<le> length v \<Longrightarrow> \<not> contains out v) \<Longrightarrow> Apply vs out = out"
    by (simp add: Apply_def)
qed

end
