(* ===== verification/Chetter_Json.thy ===== *)
theory Chetter_Json
  imports Chetter_Strings
begin

text \<open>
  Go's \<^verbatim>\<open>json.Valid\<close>: whether a byte string is one JSON value. Each recogniser returns what
  follows the part it recognised. As in Go, bytes of a string literal are not checked to be
  UTF-8, and a value nested more than 10000 deep is not valid. The recursion of
  \<open>json_value\<close> is bounded by fuel, two units per byte of the input and two more: each byte is
  the start of at most one value and one list of elements or members.
\<close>

definition json_space :: "char \<Rightarrow> bool" where
  "json_space c = (let n = (of_char c :: nat) in n = 32 \<or> n = 9 \<or> n = 10 \<or> n = 13)"

definition skip_space :: "string \<Rightarrow> string" where
  "skip_space s = dropWhile json_space s"

definition json_hex :: "char \<Rightarrow> bool" where
  "json_hex c = (let n = (of_char c :: nat) in
     (48 \<le> n \<and> n \<le> 57) \<or> (65 \<le> n \<and> n \<le> 70) \<or> (97 \<le> n \<and> n \<le> 102))"

text \<open>The rest of a string literal, after its opening quote.\<close>

fun json_string :: "string \<Rightarrow> string option" where
  "json_string [] = None"
| "json_string (c # cs) =
     (if c = CHR 0x22 then Some cs
      else if c = CHR 0x5C then
        (case cs of
           [] \<Rightarrow> None
         | e # es \<Rightarrow>
             if e \<in> {CHR 0x22, CHR 0x5C, CHR ''/'', CHR ''b'', CHR ''f'', CHR ''n'', CHR ''r'', CHR ''t''}
               then json_string es
             else if e = CHR ''u'' then
               (case es of h1 # h2 # h3 # h4 # es' \<Rightarrow>
                    if json_hex h1 \<and> json_hex h2 \<and> json_hex h3 \<and> json_hex h4 then json_string es' else None
                | _ \<Rightarrow> None)
             else None)
      else if (of_char c :: nat) < 32 then None
      else json_string cs)"

definition json_digits :: "string \<Rightarrow> string option" where
  "json_digits s = (if s \<noteq> [] \<and> is_digit (hd s) then Some (dropWhile is_digit s) else None)"

definition json_fraction :: "string \<Rightarrow> string option" where
  "json_fraction s = (case s of c # cs \<Rightarrow> if c = CHR ''.'' then json_digits cs else Some s | [] \<Rightarrow> Some [])"

definition json_exponent :: "string \<Rightarrow> string option" where
  "json_exponent s = (case s of
      c # cs \<Rightarrow>
        if c = CHR ''e'' \<or> c = CHR ''E'' then
          json_digits (case cs of x # xs \<Rightarrow> if x = CHR ''+'' \<or> x = CHR ''-'' then xs else cs | [] \<Rightarrow> [])
        else Some s
    | [] \<Rightarrow> Some [])"

definition json_number :: "string \<Rightarrow> string option" where
  "json_number s =
     (let u = (case s of c # cs \<Rightarrow> if c = CHR ''-'' then cs else s | [] \<Rightarrow> []) in
      Option.bind (case u of [] \<Rightarrow> None
        | c # cs \<Rightarrow> if c = CHR ''0'' then Some cs else json_digits u) (\<lambda>r.
      Option.bind (json_fraction r) json_exponent))"

definition json_literal :: "string \<Rightarrow> string \<Rightarrow> string option" where
  "json_literal lit s = (if prefix lit s then Some (drop (length lit) s) else None)"

definition json_depth_limit :: nat where
  "json_depth_limit = 10000"

fun json_value :: "nat \<Rightarrow> nat \<Rightarrow> string \<Rightarrow> string option"
  and json_elems :: "nat \<Rightarrow> nat \<Rightarrow> string \<Rightarrow> string option"
  and json_members :: "nat \<Rightarrow> nat \<Rightarrow> string \<Rightarrow> string option" where
  "json_value 0 depth s = None"
| "json_value (Suc fuel) depth s =
     (case skip_space s of
        [] \<Rightarrow> None
      | c # cs \<Rightarrow>
          if c = CHR 0x22 then json_string cs
          else if c = CHR ''['' then
            (if json_depth_limit \<le> depth then None
             else case skip_space cs of
                 x # r \<Rightarrow> if x = CHR '']'' then Some r else json_elems fuel (Suc depth) cs
               | [] \<Rightarrow> None)
          else if c = CHR ''{'' then
            (if json_depth_limit \<le> depth then None
             else case skip_space cs of
                 x # r \<Rightarrow> if x = CHR ''}'' then Some r else json_members fuel (Suc depth) cs
               | [] \<Rightarrow> None)
          else if c = CHR ''t'' then json_literal ''true'' (c # cs)
          else if c = CHR ''f'' then json_literal ''false'' (c # cs)
          else if c = CHR ''n'' then json_literal ''null'' (c # cs)
          else json_number (c # cs))"
| "json_elems 0 depth s = None"
| "json_elems (Suc fuel) depth s =
     (case json_value fuel depth s of
        None \<Rightarrow> None
      | Some r \<Rightarrow> (case skip_space r of
            x # q \<Rightarrow> if x = CHR '','' then json_elems fuel depth q
                    else if x = CHR '']'' then Some q else None
          | [] \<Rightarrow> None))"
| "json_members 0 depth s = None"
| "json_members (Suc fuel) depth s =
     (case skip_space s of
        c # cs \<Rightarrow>
          if c = CHR 0x22 then
            (case json_string cs of
               None \<Rightarrow> None
             | Some r \<Rightarrow> (case skip_space r of
                   x # q \<Rightarrow>
                     if x = CHR '':'' then
                       (case json_value fuel depth q of
                          None \<Rightarrow> None
                        | Some r2 \<Rightarrow> (case skip_space r2 of
                              y # q2 \<Rightarrow> if y = CHR '','' then json_members fuel depth q2
                                       else if y = CHR ''}'' then Some q2 else None
                            | [] \<Rightarrow> None))
                     else None
                 | [] \<Rightarrow> None))
          else None
      | [] \<Rightarrow> None)"

definition json_valid :: "string \<Rightarrow> bool" where
  "json_valid s =
     (case json_value (2 * length s + 2) 0 s of None \<Rightarrow> False | Some r \<Rightarrow> skip_space r = [])"

lemma json_valid_Nil [simp]: "\<not> json_valid []"
  by (simp add: json_valid_def skip_space_def numeral_2_eq_2)

end
