(* ===== verification/Chetter_Events.thy ===== *)
theory Chetter_Events
  imports Chetter_Claim Chetter_Time Chetter_Redact Chetter_Json
begin

text \<open>
  Recording the events a runner reports: \<^verbatim>\<open>recordTaskEvent\<close> of
  \<^verbatim>\<open>internal/service/runner_rpc.go\<close> with the in-process state it uses, the time of the last
  stored heartbeat of a task and the redaction sets of the sessions. The function is split where
  the source has its stages: redaction and classification, the transaction, and what follows the
  commit.
\<close>

section \<open>In-process state\<close>

record rpc_state =
  heartbeatSeen :: "string \<Rightarrow> time option"
  redactSets :: "string \<Rightarrow> string list option"

definition heartbeatEventMinInterval :: time where
  "heartbeatEventMinInterval = 60 * second"

definition shouldStoreHeartbeat :: "time \<Rightarrow> string \<Rightarrow> rpc_state \<Rightarrow> bool \<times> rpc_state" where
  "shouldStoreHeartbeat now tid st =
     (if (case heartbeatSeen st tid of None \<Rightarrow> False | Some l \<Rightarrow> now - l < heartbeatEventMinInterval)
      then (False, st)
      else (True, st\<lparr>heartbeatSeen := (heartbeatSeen st)(tid := Some now)\<rparr>))"

definition cleanupHeartbeatSeen :: "time \<Rightarrow> rpc_state \<Rightarrow> rpc_state" where
  "cleanupHeartbeatSeen now st =
     st\<lparr>heartbeatSeen := (\<lambda>tid. case heartbeatSeen st tid of None \<Rightarrow> None
        | Some l \<Rightarrow> if l < now - heartbeatEventMinInterval * 2 then None else Some l)\<rparr>"

definition RegisterRedactSet :: "string \<Rightarrow> string list option \<Rightarrow> rpc_state \<Rightarrow> rpc_state" where
  "RegisterRedactSet sid set_opt st =
     (case set_opt of None \<Rightarrow> st | Some vs \<Rightarrow> st\<lparr>redactSets := (redactSets st)(sid := Some vs)\<rparr>)"

definition cachedRedactSet :: "string \<Rightarrow> rpc_state \<Rightarrow> string list option" where
  "cachedRedactSet sid st = (if sid = [] then None else redactSets st sid)"

definition evictRedactSet :: "string \<Rightarrow> rpc_state \<Rightarrow> rpc_state" where
  "evictRedactSet sid st = (if sid \<noteq> [] then st\<lparr>redactSets := (redactSets st)(sid := None)\<rparr> else st)"

section \<open>Redaction and classification\<close>

definition redact_event :: "rpc_state \<Rightarrow> task_event_msg \<Rightarrow> task_event_msg" where
  "redact_event st ev =
     (case cachedRedactSet (AgentSessionId ev) st of
        None \<Rightarrow> ev
      | Some vs \<Rightarrow> ev\<lparr>Summary := Apply vs (Summary ev), Error := Apply vs (Error ev),
            SessionExport := Apply vs (SessionExport ev), PayloadJson := Apply vs (PayloadJson ev)\<rparr>)"

definition event_payload :: "task_event_msg \<Rightarrow> payload" where
  "event_payload ev =
     (if PayloadJson ev = [] \<or> \<not> json_valid (PayloadJson ev) then EventJson ev
      else RawJson (PayloadJson ev))"

definition event_status :: "task_event_msg \<Rightarrow> string" where
  "event_status ev = (if Status ev = [] then ''running'' else Status ev)"

definition event_error_category :: "task_event_msg \<Rightarrow> string" where
  "event_error_category ev =
     (let c = normalizeErrorCategory (ErrorCategory ev) in
      if c = [] \<and> statusIsErrorCategoryCandidate (event_status ev)
      then classifyTaskErrorCategory (event_status ev) (Error ev) else c)"

definition event_is_heartbeat :: "task_event_msg \<Rightarrow> bool" where
  "event_is_heartbeat ev = (event_status ev = ''running'' \<and> isHeartbeatSummary (Summary ev))"

definition event_type :: "task_event_msg \<Rightarrow> string" where
  "event_type ev = taskEventType (event_status ev) (event_error_category ev) (event_is_heartbeat ev)"

text \<open>The six \<^verbatim>\<open>tokenUsage...\<close> accessors: zero when the message has no usage.\<close>

definition event_usage :: "task_event_msg \<Rightarrow> token_usage" where
  "event_usage ev = (case TokenUsage ev of Some u \<Rightarrow> u
     | None \<Rightarrow> \<lparr>InputTokens = 0, OutputTokens = 0, CacheReadTokens = 0, CacheWriteTokens = 0,
         ReasoningTokens = 0, CostCents = 0\<rparr>)"

definition attempt_params :: "time \<Rightarrow> string \<Rightarrow> task_event_msg \<Rightarrow> attempt_event_params" where
  "attempt_params now runner ev =
     (let st = executionAttemptStatus (event_status ev); ended = parseOptionalTime (EndedAt ev) in
      \<lparr>ae_status = st, ae_summary = nullString (Summary ev), ae_error = nullString (Error ev),
       ae_error_category = event_error_category ev, ae_session_export = nullString (SessionExport ev),
       ae_lease = (if event_status ev = ''running'' then Some (now + defaultTaskLeaseSec * second) else None),
       ae_started_at = parseOptionalTime (StartedAt ev),
       ae_ended_at = (if st \<noteq> ''running'' \<and> ended = None then Some now else ended),
       ae_workspace_path = WorkspacePath ev, ae_harness_execution_id = OpencodeSessionId ev,
       ae_runner_image_digest = RunnerImageDigest ev, ae_usage = event_usage ev,
       ae_last_event_at = Some now, ae_updated_at = now, ae_id = ExecutionId ev,
       ae_runner_id = nullString runner, ae_claim_id = ClaimId ev\<rparr>)"

definition task_params :: "time \<Rightarrow> task_event_msg \<Rightarrow> task_event_params" where
  "task_params now ev =
     (let cand = statusIsErrorCategoryCandidate (event_status ev) in
      \<lparr>te_status = event_status ev, te_summary = nullString (Summary ev), te_error = nullString (Error ev),
       te_error_category = event_error_category ev,
       te_failure_category = (if cand then classifyFailureCategory (event_error_category ev) else []),
       te_failure_message = (if cand \<and> Error ev \<noteq> [] then Some (truncateTo500 (Error ev)) else None),
       te_ended_at = parseOptionalTime (EndedAt ev), te_updated_at = now, te_id = TaskId ev\<rparr>)"

definition event_row :: "time \<Rightarrow> string \<Rightarrow> string \<Rightarrow> task_event_msg \<Rightarrow> task_event" where
  "event_row now event_id runner ev =
     \<lparr>e_id = event_id, e_task_id = TaskId ev, e_subject = event_subject runner (TaskId ev),
      e_status = event_status ev, e_payload = event_payload ev, e_created_at = now,
      e_agent_session_id = nullString (AgentSessionId ev),
      e_user_prompt_id = nullString (UserPromptId ev),
      e_execution_attempt_id = nullString (ExecutionId ev), e_event_type = event_type ev\<rparr>"

definition event_ctx :: "time \<Rightarrow> string \<Rightarrow> string \<Rightarrow> task \<Rightarrow> task_event_msg \<Rightarrow> callback_event" where
  "event_ctx now event_id runner task ev =
     \<lparr>ev_id = event_id, ev_task_id = TaskId ev, ev_team_id = str_of (t_team_id task),
      ev_subject = event_subject runner (TaskId ev), ev_status = event_status ev,
      ev_event_type = event_type ev, ev_summary = Summary ev, ev_error = Error ev,
      ev_error_category = event_error_category ev, ev_payload = event_payload ev,
      ev_created_at = now\<rparr>"

section \<open>The transaction\<close>

record event_env =
  ee_now :: time
  ee_dbnow :: time
  ee_event_id :: "string option"
  ee_checkpoint_id :: "string option"

definition owns :: "task_event_msg \<Rightarrow> execution_context \<Rightarrow> bool" where
  "owns ev x = (x_task_id x = TaskId ev \<and> x_agent_session_id x = AgentSessionId ev \<and>
     x_user_prompt_id x = UserPromptId ev)"

text \<open>The pause statement of a session that can be resumed; its parameters differ in three columns.\<close>

definition pause_session ::
  "time \<Rightarrow> string \<Rightarrow> task_event_msg \<Rightarrow> string \<Rightarrow> string option \<Rightarrow> string option \<Rightarrow> db \<Rightarrow> db" where
  "pause_session now runner ev status chk container d =
     fst (PauseAgentSessionByTaskID status (nullString runner) chk (nullString (WorkspacePath ev))
       container (nullString (OpencodeSessionId ev)) (Some now) now (TaskId ev) d)"

definition new_checkpoint :: "time \<Rightarrow> string \<Rightarrow> string \<Rightarrow> agent_session \<Rightarrow> task_event_msg \<Rightarrow> checkpoint" where
  "new_checkpoint now chkID runner session ev =
     \<lparr>k_id = chkID, k_agent_session_id = s_id session, k_runner_id = runner,
      k_checkpoint_path = CheckpointPath ev, k_workspace_path = WorkspacePath ev,
      k_container_name = nullString (''chetter-task-'' @ TaskId ev @ ''-'' @ ExecutionId ev),
      k_runsc_version = None, k_agent_image = None, k_size_bytes = 0, k_status = ''ready'',
      k_error = None, k_created_at = now, k_updated_at = now, k_expires_at = None,
      k_user_prompt_id = None\<rparr>"

text \<open>
  The switch over the resume mode: the database, and whether the session was paused instead of
  ended.
\<close>

definition pause_for_resume ::
  "event_env \<Rightarrow> string \<Rightarrow> task_event_msg \<Rightarrow> string \<Rightarrow> agent_session \<Rightarrow> bool tx" where
  "pause_for_resume env runner ev terminalSessionStatus session d =
     (let now = ee_now env; harness = (s_resume_mode session = ''harness_session'');
          gvisor = (s_resume_mode session = ''gvisor_checkpoint'') in
      if terminalSessionStatus = ''error'' \<and> isRecoverablePromptError (event_error_category ev) \<and>
         harness \<and> OpencodeSessionId ev \<noteq> [] then
        Inr (True, pause_session now runner ev ''recoverable'' None None d)
      else if terminalSessionStatus = ''completed'' \<and> gvisor \<and> CheckpointPath ev \<noteq> [] then
        (let chkID = str_of (ee_checkpoint_id env) in
         bind_res (InsertAgentSessionCheckpoint (new_checkpoint now chkID runner session ev) d) (\<lambda>d1.
         Inr (True, pause_session now runner ev ''paused'' (nullString chkID)
           (nullString (''chetter-task-'' @ TaskId ev @ ''-'' @ ExecutionId ev)) d1)))
      else if terminalSessionStatus = ''completed'' \<and> (harness \<or> gvisor) then
        Inr (True, pause_session now runner ev ''paused'' None None d)
      else Inr (False, d))"

text \<open>The value of \<^verbatim>\<open>sessionTerminal\<close> and the database.\<close>

definition finish_session ::
  "event_env \<Rightarrow> string \<Rightarrow> task_event_msg \<Rightarrow> string \<Rightarrow> bool tx" where
  "finish_session env runner ev terminalSessionStatus d =
     bind_res
       (case (if WorkspacePath ev = [] then Inl SqlNoRows else GetAgentSessionByTaskID (TaskId ev) d) of
          Inl _ \<Rightarrow> Inr (False, d)
        | Inr session \<Rightarrow> pause_for_resume env runner ev terminalSessionStatus session d)
     (\<lambda>(paused, d1).
       if paused then Inr (False, d1)
       else Inr (True, fst (MarkAgentSessionTerminalByTask terminalSessionStatus (OpencodeSessionId ev)
              (nullString (Summary ev)) (nullString (Error ev)) (Some (ee_now env)) (ee_now env)
              (TaskId ev) d1)))"

definition terminal_writes :: "event_env \<Rightarrow> string \<Rightarrow> task_event_msg \<Rightarrow> bool tx" where
  "terminal_writes env runner ev d =
     (case sessionTerminalStatuses (event_status ev) of
        None \<Rightarrow> Inr (False, d)
      | Some (runStatus, sessionStatus) \<Rightarrow>
          let now = ee_now env; ended = parseOptionalTime (EndedAt ev);
              d1 = fst (MarkUserPromptTerminalByTask runStatus (nullString (Summary ev))
                (nullString (Error ev)) (nullString (SessionExport ev)) (parseOptionalTime (StartedAt ev))
                (if ended = None then Some now else ended) now (TaskId ev) d)
          in finish_session env runner ev sessionStatus d1)"

definition store_event ::
  "event_env \<Rightarrow> dispatcher \<Rightarrow> string \<Rightarrow> string \<Rightarrow> task_event_msg \<Rightarrow> db \<Rightarrow> error + db" where
  "store_event env cbs event_id runner ev d =
     bind_res (InsertTaskEvent (event_row (ee_now env) event_id runner ev) d) (\<lambda>d1.
       case cbs of
         None \<Rightarrow> Inr d1
       | Some _ \<Rightarrow>
           bind_res (wrap_err ''load task for callback delivery enqueue'' (GetTaskByID (TaskId ev) d1)) (\<lambda>task.
             dispatch cbs (event_ctx (ee_now env) event_id runner task ev) d1))"

definition event_tx ::
  "event_env \<Rightarrow> dispatcher \<Rightarrow> string \<Rightarrow> string \<Rightarrow> bool \<Rightarrow> task_event_msg \<Rightarrow> bool tx" where
  "event_tx env cbs event_id runner skipEventRow ev d =
     (let now = ee_now env; status = event_status ev in
      bind_res (case GetExecutionAttemptContext (ExecutionId ev) d of
          Inl _ \<Rightarrow> Inl ErrTaskNotClaimed
        | Inr x \<Rightarrow> guard_res (owns ev x) ErrTaskNotClaimed) (\<lambda>_.
      let (d1, attemptRows) = UpdateExecutionAttemptFromRunnerEvent (ee_dbnow env)
             (attempt_params now runner ev) d in
      bind_res (guard_res (attemptRows \<noteq> 0) ErrTaskNotClaimed) (\<lambda>_.
      let (d2, rows) = UpdateTaskAggregateFromRunnerEvent (task_params now ev) d1 in
      bind_res (guard_res (rows \<noteq> 0) ErrTaskNotClaimed) (\<lambda>_.
      let d3 = fst (UpdateAgentSessionFromRunnerEvent (ProviderId ev) (ModelId ev) (VariantId ev)
             (OpencodeSessionId ev) now (TaskId ev) d2);
          d4 = UpdateTaskSearchText (TaskId ev) d3;
          d5 = (if status \<noteq> ''running'' \<and> status \<noteq> ''pending''
                then UpdateTriggerRunStatusByTask status (TaskId ev) d4 else d4) in
      bind_res (terminal_writes env runner ev d5) (\<lambda>(sessionTerminal, d6).
      if skipEventRow then Inr (sessionTerminal, d6)
      else bind_res (store_event env cbs event_id runner ev d6) (\<lambda>d7. Inr (sessionTerminal, d7)))))))"

section \<open>recordTaskEvent\<close>

text \<open>The mapping of the transaction's error to the one the runner sees.\<close>

definition event_error :: "string \<Rightarrow> error \<Rightarrow> error" where
  "event_error runner e =
     (if errors_is e ErrTaskNotClaimed
      then ConnectError CodeFailedPrecondition (Errorf (''task is not running for runner '' @ runner))
      else ConnectError CodeInternal e)"

definition recordTaskEvent ::
  "event_env \<Rightarrow> dispatcher \<Rightarrow> string \<Rightarrow> task_event_msg option \<Rightarrow> rpc_state \<times> db \<Rightarrow>
   (error + unit) \<times> rpc_state \<times> db" where
  "recordTaskEvent env cbs runner msg = (\<lambda>(st, d).
     if runner = [] then
       (Inl (ConnectError CodeInvalidArgument (Errorf ''runner_id is required'')), st, d)
     else (case msg of
        None \<Rightarrow> (Inl (ConnectError CodeInvalidArgument (Errorf ''task_id is required'')), st, d)
      | Some ev0 \<Rightarrow>
     if TaskId ev0 = [] then
       (Inl (ConnectError CodeInvalidArgument (Errorf ''task_id is required'')), st, d)
     else if ExecutionId ev0 = [] then
       (Inl (ConnectError CodeInvalidArgument (Errorf ''execution_id is required'')), st, d)
     else (case ee_event_id env of
        None \<Rightarrow> (Inl (ConnectError CodeInternal generate_id_err), st, d)
      | Some event_id \<Rightarrow>
          let ev = redact_event st ev0;
              (store, st1) = (if event_is_heartbeat ev then shouldStoreHeartbeat (ee_now env) (TaskId ev) st
                              else (True, st)) in
          (case event_tx env cbs event_id runner (\<not> store) ev d of
             Inl e \<Rightarrow> (Inl (event_error runner e), st1, d)
           | Inr (sessionTerminal, d') \<Rightarrow>
               (Inr (), if sessionTerminal then evictRedactSet (AgentSessionId ev) st1 else st1, d')))))"

text \<open>\<^verbatim>\<open>ReportTaskEvents\<close> records the events of a request in order and stops at the first error.\<close>

fun record_events ::
  "(nat \<Rightarrow> event_env) \<Rightarrow> nat \<Rightarrow> dispatcher \<Rightarrow> string \<Rightarrow> task_event_msg option list \<Rightarrow> rpc_state \<times> db \<Rightarrow>
   (error + unit) \<times> rpc_state \<times> db" where
  "record_events env i cbs runner [] s = (Inr (), s)"
| "record_events env i cbs runner (m # ms) s =
     (case recordTaskEvent (env i) cbs runner m s of
        (Inl e, s') \<Rightarrow> (Inl e, s')
      | (Inr _, s') \<Rightarrow> record_events env (Suc i) cbs runner ms s')"

definition ReportTaskEvents ::
  "(nat \<Rightarrow> event_env) \<Rightarrow> dispatcher \<Rightarrow> string \<Rightarrow> task_event_msg option list \<Rightarrow> rpc_state \<times> db \<Rightarrow>
   (error + unit) \<times> rpc_state \<times> db" where
  "ReportTaskEvents env cbs runner events s =
     (if runner = [] then (Inl (ConnectError CodeInvalidArgument (Errorf ''runner_id is required'')), s)
      else if events = [] then (Inl (ConnectError CodeInvalidArgument (Errorf ''events are required'')), s)
      else record_events env 0 cbs runner events s)"

section \<open>The states of the transaction\<close>

lemma event_tx_cases:
  assumes "event_tx env cbs event_id runner skip ev d = Inr (fin, d')"
  obtains x d1 d2 d3 d4 d5 d6 where
    "GetExecutionAttemptContext (ExecutionId ev) d = Inr x" "owns ev x"
    "d1 = fst (UpdateExecutionAttemptFromRunnerEvent (ee_dbnow env) (attempt_params (ee_now env) runner ev) d)"
    "snd (UpdateExecutionAttemptFromRunnerEvent (ee_dbnow env) (attempt_params (ee_now env) runner ev) d) \<noteq> 0"
    "d2 = fst (UpdateTaskAggregateFromRunnerEvent (task_params (ee_now env) ev) d1)"
    "snd (UpdateTaskAggregateFromRunnerEvent (task_params (ee_now env) ev) d1) \<noteq> 0"
    "d3 = fst (UpdateAgentSessionFromRunnerEvent (ProviderId ev) (ModelId ev) (VariantId ev)
             (OpencodeSessionId ev) (ee_now env) (TaskId ev) d2)"
    "d4 = UpdateTaskSearchText (TaskId ev) d3"
    "d5 = d4 \<or> d5 = UpdateTriggerRunStatusByTask (event_status ev) (TaskId ev) d4"
    "terminal_writes env runner ev d5 = Inr (fin, d6)"
    "if skip then d' = d6 else store_event env cbs event_id runner ev d6 = Inr d'"
proof -
  let ?r1 = "UpdateExecutionAttemptFromRunnerEvent (ee_dbnow env) (attempt_params (ee_now env) runner ev) d"
  let ?r2 = "UpdateTaskAggregateFromRunnerEvent (task_params (ee_now env) ev) (fst ?r1)"
  let ?d3 = "fst (UpdateAgentSessionFromRunnerEvent (ProviderId ev) (ModelId ev) (VariantId ev)
             (OpencodeSessionId ev) (ee_now env) (TaskId ev) (fst ?r2))"
  let ?d4 = "UpdateTaskSearchText (TaskId ev) ?d3"
  let ?d5 = "if event_status ev \<noteq> ''running'' \<and> event_status ev \<noteq> ''pending''
     then UpdateTriggerRunStatusByTask (event_status ev) (TaskId ev) ?d4 else ?d4"
  have own: "\<exists>x. GetExecutionAttemptContext (ExecutionId ev) d = Inr x \<and> owns ev x"
    and rows: "snd ?r1 \<noteq> 0" "snd ?r2 \<noteq> 0"
    and last: "\<exists>d6. terminal_writes env runner ev ?d5 = Inr (fin, d6) \<and>
       (if skip then d' = d6 else store_event env cbs event_id runner ev d6 = Inr d')"
    using assms
    by (auto simp: event_tx_def Let_def case_prod_unfold split: sum.splits if_splits)
  have d5: "?d5 = ?d4 \<or> ?d5 = UpdateTriggerRunStatusByTask (event_status ev) (TaskId ev) ?d4" by simp
  from own last that [OF _ _ refl rows(1) refl rows(2) refl refl d5] show thesis by blast
qed

lemma good_pause_session: "good_update d (pause_session now runner ev status chk container d)"
  unfolding pause_session_def by (rule keep_intros)

lemma good_pause_for_resume:
  assumes "pause_for_resume env runner ev status session d = Inr (paused, d')"
  shows "good_update d d'"
  using assms good_pause_session good_update_trans [OF good_inserts_other(2) good_pause_session]
  by (auto simp: pause_for_resume_def Let_def split: if_splits)

lemma good_finish_session:
  assumes "finish_session env runner ev status d = Inr (fin, d')"
  shows "good_update d d'"
  using assms
  by (auto simp: finish_session_def split: sum.splits if_splits dest!: good_pause_for_resume
      intro: good_session_updates(1) good_update_trans [OF _ good_session_updates(1)])

lemma good_terminal_writes:
  assumes "terminal_writes env runner ev d = Inr (fin, d')"
  shows "good_update d d'"
  using assms good_update_trans [OF good_prompt_updates(3) good_finish_session]
  by (auto simp: terminal_writes_def Let_def split: option.splits)

lemma attempt_params_status [simp]:
  "ae_status (attempt_params now runner ev) = executionAttemptStatus (event_status ev)"
  "ae_id (attempt_params now runner ev) = ExecutionId ev"
  "ae_runner_id (attempt_params now runner ev) = nullString runner"
  "ae_claim_id (attempt_params now runner ev) = ClaimId ev"
  by (simp_all add: attempt_params_def Let_def)

text \<open>The attempt an event may write: claimed by this runner under this claim, running, lease live.\<close>

definition holds_claim :: "time \<Rightarrow> string \<Rightarrow> task_event_msg \<Rightarrow> execution_attempt \<Rightarrow> bool" where
  "holds_claim dbnow runner ev a =
     (a_id a = ExecutionId ev \<and> a_runner_id a = Some runner \<and> a_claim_id a = ClaimId ev \<and>
      a_status a = ''running'' \<and> lease_live dbnow a)"

lemma update_attempt_eq:
  "runner \<noteq> [] \<Longrightarrow>
   UpdateExecutionAttemptFromRunnerEvent dbnow (attempt_params now runner ev) d =
   upd_attempts (holds_claim dbnow runner ev) (apply_attempt_event (attempt_params now runner ev)) d"
  by (cases runner)
    (auto simp: UpdateExecutionAttemptFromRunnerEvent_def holds_claim_def upd_attempts_def
      sql_update_def sql_affected_def cong: if_cong intro!: arg_cong [where f = length] filter_cong)

text \<open>Ending a prompt and a session writes neither attempts nor tasks nor events.\<close>

lemma pause_session_frame [simp]:
  "execution_attempts (pause_session now runner ev status chk container d) = execution_attempts d"
  "tasks (pause_session now runner ev status chk container d) = tasks d"
  "task_events (pause_session now runner ev status chk container d) = task_events d"
  by (simp_all add: pause_session_def PauseAgentSessionByTaskID_def upd_sessions_def)

lemma terminal_writes_frame:
  assumes "terminal_writes env runner ev d = Inr (fin, d')"
  shows "execution_attempts d' = execution_attempts d \<and> tasks d' = tasks d \<and> task_events d' = task_events d"
proof -
  have pause: "execution_attempts d2 = execution_attempts d1 \<and> tasks d2 = tasks d1 \<and> task_events d2 = task_events d1"
    if "pause_for_resume env runner ev status session d1 = Inr (paused, d2)" for status session paused d1 d2
    using that
    by (auto simp: pause_for_resume_def Let_def InsertAgentSessionCheckpoint_def split: if_splits)
  have finish: "execution_attempts d2 = execution_attempts d1 \<and> tasks d2 = tasks d1 \<and> task_events d2 = task_events d1"
    if "finish_session env runner ev status d1 = Inr (tm, d2)" for status tm d1 d2
    using that
    by (auto simp: finish_session_def MarkAgentSessionTerminalByTask_def upd_sessions_def
        split: sum.splits if_splits dest!: pause)
  from assms show ?thesis
    by (auto simp: terminal_writes_def Let_def MarkUserPromptTerminalByTask_def upd_prompts_def
        split: option.splits dest!: finish)
qed

lemma search_text_keeps:
  assumes "t \<in> set (tasks d)"
  shows "\<exists>t'\<in>set (tasks (UpdateTaskSearchText i d)). t_id t' = t_id t \<and> t_status t' = t_status t \<and>
     t_summary t' = t_summary t \<and> t_error t' = t_error t"
proof -
  let ?f = "\<lambda>t. t\<lparr>t_search_text := Some (join_with '' ''
           [t_prompt t, str_of (t_summary t), str_of (t_error t),
            str_of (Option.bind (latest_session (t_id t) d) s_agent),
            str_of (Option.bind (latest_session (t_id t) d) s_model_id),
            str_of (t_trigger_name t), str_of (t_git_url t), str_of (t_github_repo t)])\<rparr>"
  have "(if t_id t = i then ?f t else t) \<in> set (tasks (UpdateTaskSearchText i d))"
    using assms unfolding UpdateTaskSearchText_def by (auto simp: in_sql_update_iff)
  then show ?thesis by (rule bexI [rotated]) simp
qed

lemma middle_updates_frame:
  "execution_attempts (fst (UpdateTaskAggregateFromRunnerEvent q d)) = execution_attempts d"
  "execution_attempts (fst (UpdateAgentSessionFromRunnerEvent pr mo va ha up tid d)) = execution_attempts d"
  "execution_attempts (UpdateTaskSearchText tid d) = execution_attempts d"
  "execution_attempts (UpdateTriggerRunStatusByTask st tid d) = execution_attempts d"
  "task_events (fst (UpdateTaskAggregateFromRunnerEvent q d)) = task_events d"
  "task_events (fst (UpdateAgentSessionFromRunnerEvent pr mo va ha up tid d)) = task_events d"
  "task_events (UpdateTaskSearchText tid d) = task_events d"
  "task_events (UpdateTriggerRunStatusByTask st tid d) = task_events d"
  "tasks (fst (UpdateAgentSessionFromRunnerEvent pr mo va ha up tid d)) = tasks d"
  "tasks (UpdateTriggerRunStatusByTask st tid d) = tasks d"
  by (simp_all add: UpdateTaskAggregateFromRunnerEvent_def upd_tasks_def upd_sessions_def
      UpdateAgentSessionFromRunnerEvent_def UpdateTaskSearchText_def UpdateTriggerRunStatusByTask_def)

context callback_dispatcher
begin

lemma good_store_event:
  assumes "store_event env cbs event_id runner ev d = Inr d'"
  shows "good_update d d'"
proof -
  from assms obtain d1 where ins: "InsertTaskEvent (event_row (ee_now env) event_id runner ev) d = Inr d1"
    and rest: "d' = d1 \<or> (\<exists>ctx. dispatch cbs ctx d1 = Inr d')"
    by (auto simp: store_event_def split: option.splits)
  have "good_update d1 d'" if "dispatch cbs ctx d1 = Inr d'" for ctx
    using dispatch_keeps [OF that] by (intro good_other_tables) auto
  then have "good_update d1 d'" using rest by auto
  with good_inserts_other(1) [OF ins] show ?thesis by (rule good_update_trans)
qed

lemma good_event_tx:
  assumes "event_tx env cbs event_id runner skip ev d = Inr (fin, d')"
  shows "good_update d d'"
  using assms
proof (rule event_tx_cases)
  fix x d1 d2 d3 d4 d5 d6
  assume d1: "d1 = fst (UpdateExecutionAttemptFromRunnerEvent (ee_dbnow env) (attempt_params (ee_now env) runner ev) d)"
    and d2: "d2 = fst (UpdateTaskAggregateFromRunnerEvent (task_params (ee_now env) ev) d1)"
    and d3: "d3 = fst (UpdateAgentSessionFromRunnerEvent (ProviderId ev) (ModelId ev) (VariantId ev)
             (OpencodeSessionId ev) (ee_now env) (TaskId ev) d2)"
    and d4: "d4 = UpdateTaskSearchText (TaskId ev) d3"
    and d5: "d5 = d4 \<or> d5 = UpdateTriggerRunStatusByTask (event_status ev) (TaskId ev) d4"
    and d6: "terminal_writes env runner ev d5 = Inr (fin, d6)"
    and d': "if skip then d' = d6 else store_event env cbs event_id runner ev d6 = Inr d'"
  have "good_update d d1" unfolding d1 by (rule good_attempt_event) simp
  also have "good_update d1 d2" unfolding d2 by (rule keep_intros)
  also have "good_update d2 d3" unfolding d3 by (rule keep_intros)
  also have "good_update d3 d4" unfolding d4 by (rule keep_intros)
  also have "good_update d4 d5" using d5 good_trigger_run by auto
  also have "good_update d5 d6" using d6 by (rule good_terminal_writes)
  also have "good_update d6 d'" using d' good_store_event by (auto split: if_splits)
  finally show ?thesis .
qed

lemma store_event_frame:
  assumes "store_event env cbs event_id runner ev d = Inr d'"
  shows "execution_attempts d' = execution_attempts d" "tasks d' = tasks d"
    "task_events d' = task_events d @ [event_row (ee_now env) event_id runner ev]"
  using assms
  by (auto simp: store_event_def InsertTaskEvent_def dispatch_keeps split: option.splits)

lemma event_tx_attempts:
  assumes "event_tx env cbs event_id runner skip ev d = Inr (fin, d')" and runner: "runner \<noteq> []"
  shows "execution_attempts d' = sql_update (holds_claim (ee_dbnow env) runner ev)
           (apply_attempt_event (attempt_params (ee_now env) runner ev)) (execution_attempts d) \<and>
         (\<exists>a\<in>set (execution_attempts d). holds_claim (ee_dbnow env) runner ev a) \<and>
         task_events d' = task_events d @
           (if skip then [] else [event_row (ee_now env) event_id runner ev])"
  using assms(1)
proof (rule event_tx_cases)
  fix x d1 d2 d3 d4 d5 d6
  assume d1: "d1 = fst (UpdateExecutionAttemptFromRunnerEvent (ee_dbnow env) (attempt_params (ee_now env) runner ev) d)"
    and rows: "snd (UpdateExecutionAttemptFromRunnerEvent (ee_dbnow env) (attempt_params (ee_now env) runner ev) d) \<noteq> 0"
    and d2: "d2 = fst (UpdateTaskAggregateFromRunnerEvent (task_params (ee_now env) ev) d1)"
    and d3: "d3 = fst (UpdateAgentSessionFromRunnerEvent (ProviderId ev) (ModelId ev) (VariantId ev)
             (OpencodeSessionId ev) (ee_now env) (TaskId ev) d2)"
    and d4: "d4 = UpdateTaskSearchText (TaskId ev) d3"
    and d5: "d5 = d4 \<or> d5 = UpdateTriggerRunStatusByTask (event_status ev) (TaskId ev) d4"
    and d6: "terminal_writes env runner ev d5 = Inr (fin, d6)"
    and d': "if skip then d' = d6 else store_event env cbs event_id runner ev d6 = Inr d'"
  have "execution_attempts d5 = execution_attempts d1 \<and> task_events d5 = task_events d1"
    using d5 by (auto simp: d2 d3 d4 middle_updates_frame)
  moreover have "execution_attempts d' = execution_attempts d6 \<and>
      task_events d' = task_events d6 @ (if skip then [] else [event_row (ee_now env) event_id runner ev])"
    using d' store_event_frame [of env event_id runner ev d6 d'] by (auto split: if_splits)
  ultimately show ?thesis
    using terminal_writes_frame [OF d6] rows
    by (auto simp: d1 update_attempt_eq [OF runner] upd_attempts_def sql_affected_pos_iff)
qed

lemma event_tx_task:
  assumes "event_tx env cbs event_id runner skip ev d = Inr (fin, d')"
  shows "(\<exists>t\<in>set (tasks d'). t_id t = TaskId ev \<and> t_status t = event_status ev \<and>
      t_summary t = nullString (Summary ev) \<and> t_error t = nullString (Error ev)) \<and>
    filter (\<lambda>t. t_id t \<noteq> TaskId ev) (tasks d') = filter (\<lambda>t. t_id t \<noteq> TaskId ev) (tasks d)"
  using assms
proof (rule event_tx_cases)
  fix x d1 d2 d3 d4 d5 d6
  let ?good = "\<lambda>t. t_id t = TaskId ev \<and> t_status t = event_status ev \<and> t_summary t = nullString (Summary ev) \<and> t_error t = nullString (Error ev)"
  assume d1: "d1 = fst (UpdateExecutionAttemptFromRunnerEvent (ee_dbnow env) (attempt_params (ee_now env) runner ev) d)"
    and d2: "d2 = fst (UpdateTaskAggregateFromRunnerEvent (task_params (ee_now env) ev) d1)"
    and rows: "snd (UpdateTaskAggregateFromRunnerEvent (task_params (ee_now env) ev) d1) \<noteq> 0"
    and d3: "d3 = fst (UpdateAgentSessionFromRunnerEvent (ProviderId ev) (ModelId ev) (VariantId ev)
             (OpencodeSessionId ev) (ee_now env) (TaskId ev) d2)"
    and d4: "d4 = UpdateTaskSearchText (TaskId ev) d3"
    and d5: "d5 = d4 \<or> d5 = UpdateTriggerRunStatusByTask (event_status ev) (TaskId ev) d4"
    and d6: "terminal_writes env runner ev d5 = Inr (fin, d6)"
    and d': "if skip then d' = d6 else store_event env cbs event_id runner ev d6 = Inr d'"
  have others: "filter (\<lambda>t. t_id t \<noteq> i) (sql_update w f ts) = filter (\<lambda>t. t_id t \<noteq> i) ts"
    if "\<And>t. w t \<Longrightarrow> t_id t = i \<and> t_id (f t) = i" for w f i ts
    using that by (induction ts) auto
  have "\<exists>t\<in>set (tasks d2). ?good t"
    using rows unfolding d2 UpdateTaskAggregateFromRunnerEvent_def upd_tasks_def snd_conv
    by (rule sql_affected_witness, intro bexI) (auto simp: task_params_def Let_def)
  then obtain t where "t \<in> set (tasks d3)" "?good t"
    unfolding d3 middle_updates_frame by blast
  with search_text_keeps [of t d3 "TaskId ev"] have "\<exists>t\<in>set (tasks d4). ?good t" unfolding d4 by auto
  then have "\<exists>t\<in>set (tasks d6). ?good t" using d5 terminal_writes_frame [OF d6] by (auto simp: middle_updates_frame)
  moreover have "filter (\<lambda>t. t_id t \<noteq> TaskId ev) (tasks d6) = filter (\<lambda>t. t_id t \<noteq> TaskId ev) (tasks d1)"
  proof -
    have 2: "filter (\<lambda>t. t_id t \<noteq> TaskId ev) (tasks d2) = filter (\<lambda>t. t_id t \<noteq> TaskId ev) (tasks d1)"
      unfolding d2 UpdateTaskAggregateFromRunnerEvent_def upd_tasks_def by (simp, rule others) (simp add: task_params_def Let_def)
    have 4: "filter (\<lambda>t. t_id t \<noteq> TaskId ev) (tasks d4) = filter (\<lambda>t. t_id t \<noteq> TaskId ev) (tasks d3)"
      unfolding d4 UpdateTaskSearchText_def by (simp del: join_with.simps, rule others) simp
    have "tasks d6 = tasks d4" "tasks d3 = tasks d2"
      using d5 terminal_writes_frame [OF d6] by (auto simp: d3 middle_updates_frame)
    then show ?thesis using 2 4 by simp
  qed
  moreover have "tasks d1 = tasks d" by (simp add: d1 UpdateExecutionAttemptFromRunnerEvent_def upd_attempts_def)
  ultimately show ?thesis using d' store_event_frame [of env event_id runner ev d6 d'] by (auto split: if_splits)
qed

text \<open>
  \<^verbatim>\<open>recordTaskEvent\<close> in terms of its transaction: an error leaves the database as it was.
\<close>

lemma recordTaskEvent_cases:
  assumes "recordTaskEvent env cbs runner msg (st, d) = (r, st', d')"
  obtains (rejected) e where "r = Inl e" and "d' = d"
    | (stored) ev0 event_id skip fin where "r = Inr ()" and "msg = Some ev0" and "runner \<noteq> []"
        and "ee_event_id env = Some event_id" and "TaskId ev0 \<noteq> []"
        and "skip \<longrightarrow> event_is_heartbeat (redact_event st ev0)"
        and "event_tx env cbs event_id runner skip (redact_event st ev0) d = Inr (fin, d')"
  using assms
  by (auto simp: recordTaskEvent_def Let_def shouldStoreHeartbeat_def
      split: if_splits option.splits sum.splits prod.splits)

lemma recordTaskEvent_good:
  assumes "recordTaskEvent env cbs runner msg (st, d) = (r, st', d')"
  shows "good_update d d'"
  using recordTaskEvent_cases [OF assms] by (cases rule: recordTaskEvent_cases [OF assms]) (auto dest: good_event_tx)

end

lemma redact_event_ids [simp]:
  "ExecutionId (redact_event st ev) = ExecutionId ev" "ClaimId (redact_event st ev) = ClaimId ev"
  "event_status (redact_event st ev) = event_status ev"
  by (simp_all add: redact_event_def event_status_def split: option.split)

section \<open>A live claim is heard\<close>

text \<open>The statements before the terminal writes touch neither checkpoints nor events, and keep the task.\<close>

lemma event_updates_frame:
  "checkpoints (fst (UpdateExecutionAttemptFromRunnerEvent dbnow q d)) = checkpoints d"
  "checkpoints (fst (UpdateTaskAggregateFromRunnerEvent r d)) = checkpoints d"
  "checkpoints (fst (UpdateAgentSessionFromRunnerEvent pr mo va ha up tid d)) = checkpoints d"
  "checkpoints (UpdateTaskSearchText tid d) = checkpoints d"
  "checkpoints (UpdateTriggerRunStatusByTask st tid d) = checkpoints d"
  "checkpoints (fst (MarkUserPromptTerminalByTask a b c e f g h tid d)) = checkpoints d"
  "task_events (fst (UpdateExecutionAttemptFromRunnerEvent dbnow q d)) = task_events d"
  "tasks (fst (UpdateExecutionAttemptFromRunnerEvent dbnow q d)) = tasks d"
  by (simp_all add: UpdateExecutionAttemptFromRunnerEvent_def upd_attempts_def
      UpdateTaskAggregateFromRunnerEvent_def upd_tasks_def UpdateAgentSessionFromRunnerEvent_def upd_sessions_def
      UpdateTaskSearchText_def UpdateTriggerRunStatusByTask_def MarkUserPromptTerminalByTask_def upd_prompts_def)

lemma pause_for_resume_total:
  "str_of (ee_checkpoint_id env) \<notin> k_id ` set (checkpoints d) \<Longrightarrow>
   \<not> isl (pause_for_resume env runner ev status session d)"
  by (simp add: pause_for_resume_def Let_def InsertAgentSessionCheckpoint_def sql_insert_fresh new_checkpoint_def isl_bind_res)

lemma terminal_writes_total:
  assumes "str_of (ee_checkpoint_id env) \<notin> k_id ` set (checkpoints d)"
  shows "\<not> isl (terminal_writes env runner ev d)"
proof -
  have "\<not> isl (finish_session env runner ev status d1)" if "checkpoints d1 = checkpoints d" for status d1
    using pause_for_resume_total [of env d1] assms that
    by (simp add: finish_session_def isl_bind_res case_prod_unfold split: sum.split)
  then show ?thesis
    by (auto simp: terminal_writes_def Let_def event_updates_frame split: option.split)
qed

lemma task_present: "i \<in> t_id ` set (tasks d) \<Longrightarrow> \<not> isl (GetTaskByID i d)"
  by (cases "find (\<lambda>t. t_id t = i) (tasks d)") (auto simp: GetTaskByID_def sql_one_def find_None_iff)

lemma store_event_total:
  assumes "event_id \<notin> e_id ` set (task_events d)" and "TaskId ev \<in> t_id ` set (tasks d)"
    and disp: "\<And>ev d. \<not> isl (dispatch cbs ev d)"
  shows "\<not> isl (store_event env cbs event_id runner ev d)"
proof -
  have "\<not> isl (wrap_err m (GetTaskByID (TaskId ev) d1))" if "tasks d1 = tasks d" for d1 m
    using task_present [of "TaskId ev" d1] assms(2) that by (cases "GetTaskByID (TaskId ev) d1") auto
  then show ?thesis
    using assms(1) disp
    by (simp add: store_event_def InsertTaskEvent_def sql_insert_fresh event_row_def isl_bind_res split: option.split)
      (use disp in auto)
qed

lemma redact_event_keys [simp]:
  "TaskId (redact_event st ev) = TaskId ev" "AgentSessionId (redact_event st ev) = AgentSessionId ev"
  "UserPromptId (redact_event st ev) = UserPromptId ev"
  by (simp_all add: redact_event_def split: option.split)

lemma event_context:
  assumes "wf_db d" and "(a, p, t) \<in> set (attempt_task_joins d)"
  shows "GetExecutionAttemptContext (a_id a) d =
    Inr \<lparr>x_execution_attempt_id = a_id a, x_user_prompt_id = p_id p, x_agent_session_id = p_agent_session_id p,
      x_task_id = p_task_id p\<rparr>"
proof -
  let ?P = "\<lambda>(b, q). a_id b = a_id a"
  have in_joins: "(a, p) \<in> set (attempt_joins d)" using assms(2) by (auto simp: attempt_task_joins_iff attempt_joins_iff)
  then obtain b q where f: "find ?P (attempt_joins d) = Some (b, q)"
    by (cases "find ?P (attempt_joins d)") (auto simp: find_None_iff)
  then have bq: "(b, q) \<in> set (attempt_joins d)" "a_id b = a_id a" by (auto dest: find_SomeD)
  have "b = a" using assms(1) bq in_joins by (auto simp: attempt_joins_iff wf_db_def keys_ok_def distinct_map inj_on_def)
  moreover from this have "q = p" using assms(1) bq in_joins
    by (auto simp: attempt_joins_iff wf_db_def keys_ok_def distinct_map inj_on_def)
  ultimately show ?thesis using f by (simp add: GetExecutionAttemptContext_def sql_one_def)
qed

lemma event_tx_total:
  assumes wf: "wf_db d" and join: "(a, p, t) \<in> set (attempt_task_joins d)"
    and held: "holds_claim (ee_dbnow env) runner ev a" and "runner \<noteq> []"
    and own: "t_id t = TaskId ev" "p_agent_session_id p = AgentSessionId ev" "p_id p = UserPromptId ev"
    and "t_status t = ''running''" and moved: "a_updated_at a \<noteq> ee_now env" "t_updated_at t \<noteq> ee_now env"
    and fresh: "event_id \<notin> e_id ` set (task_events d)" "str_of (ee_checkpoint_id env) \<notin> k_id ` set (checkpoints d)"
    and disp: "\<And>ev d. \<not> isl (dispatch cbs ev d)"
  shows "\<not> isl (event_tx env cbs event_id runner skip ev d)"
proof -
  let ?q = "attempt_params (ee_now env) runner ev" let ?r = "task_params (ee_now env) ev"
  let ?u1 = "UpdateExecutionAttemptFromRunnerEvent (ee_dbnow env) ?q d"
  let ?u2 = "UpdateTaskAggregateFromRunnerEvent ?r (fst ?u1)"
  let ?d4 = "UpdateTaskSearchText (TaskId ev) (fst (UpdateAgentSessionFromRunnerEvent (ProviderId ev) (ModelId ev)
     (VariantId ev) (OpencodeSessionId ev) (ee_now env) (TaskId ev) (fst ?u2)))"
  let ?d5 = "if event_status ev \<noteq> ''running'' \<and> event_status ev \<noteq> ''pending''
     then UpdateTriggerRunStatusByTask (event_status ev) (TaskId ev) ?d4 else ?d4"
  have a: "a \<in> set (execution_attempts d)" "t \<in> set (tasks d)" "p_task_id p = t_id t"
    using join by (auto simp: attempt_task_joins_iff)
  have id: "a_id a = ExecutionId ev" using held by (simp add: holds_claim_def)
  have ctx: "\<exists>x. GetExecutionAttemptContext (ExecutionId ev) d = Inr x \<and> owns ev x"
    using event_context [OF wf join] own a(3) by (simp add: id owns_def)
  have "a_updated_at (apply_attempt_event ?q a) = ee_now env"
    by (simp add: apply_attempt_event_def attempt_params_def Let_def)
  with moved(1) have "apply_attempt_event ?q a \<noteq> a" by auto
  with a(1) held have u1: "snd ?u1 \<noteq> 0"
    unfolding update_attempt_eq [OF \<open>runner \<noteq> []\<close>] by (auto simp: upd_attempts_def sql_affected_zero_iff)
  have "t_updated_at (t\<lparr>t_updated_at := ee_now env\<rparr>) \<noteq> t_updated_at t" using moved(2) by simp
  then have u2: "snd ?u2 \<noteq> 0"
    using a(2) assms(8) own(1) moved(2)
    unfolding UpdateTaskAggregateFromRunnerEvent_def upd_tasks_def
    by (auto simp: sql_affected_zero_iff event_updates_frame task_params_def Let_def intro!: bexI [of _ t] dest: arg_cong [where f = t_updated_at])
  have frames: "checkpoints ?d5 = checkpoints d" "task_events ?d5 = task_events d"
    by (auto simp: event_updates_frame middle_updates_frame)
  obtain fin d6 where tw: "terminal_writes env runner ev ?d5 = Inr (fin, d6)"
    using terminal_writes_total [of env ?d5 runner ev] fresh(2) unfolding frames(1) not_isl_iff by auto
  have "map t_id (tasks (fst ?u2)) = map t_id (tasks d)"
    by (simp add: UpdateTaskAggregateFromRunnerEvent_def upd_tasks_def event_updates_frame map_fixed_sql_update)
  then have "t_id ` set (tasks (fst ?u2)) = t_id ` set (tasks d)" by (metis list.set_map)
  then have "TaskId ev \<in> t_id ` set (tasks (fst ?u2))" using imageI [OF a(2), of t_id] own(1) by simp
  then obtain t' where t': "t' \<in> set (tasks (fst ?u2))" "t_id t' = TaskId ev" by (elim imageE) simp
  then have "TaskId ev \<in> t_id ` set (tasks ?d4)"
    using search_text_keeps [of t' "fst (UpdateAgentSessionFromRunnerEvent (ProviderId ev) (ModelId ev)
     (VariantId ev) (OpencodeSessionId ev) (ee_now env) (TaskId ev) (fst ?u2))" "TaskId ev"]
    by (auto simp: middle_updates_frame intro: image_eqI [OF sym])
  then have "TaskId ev \<in> t_id ` set (tasks d6)" and "task_events d6 = task_events d"
    using terminal_writes_frame [OF tw] frames(2) by (auto simp: middle_updates_frame)
  then have "\<not> isl (store_event env cbs event_id runner ev d6)"
    using fresh(1) disp by (intro store_event_total) simp_all
  with ctx u1 u2 tw show ?thesis
    by (cases skip) (auto simp: event_tx_def Let_def case_prod_unfold isl_bind_res split del: if_split)
qed

lemma recordTaskEvent_accepts:
  assumes "wf_db d" and "(a, p, t) \<in> set (attempt_task_joins d)"
    and "holds_claim (ee_dbnow env) runner ev a" and "runner \<noteq> []" "TaskId ev \<noteq> []" "ExecutionId ev \<noteq> []"
    and "t_id t = TaskId ev" "p_agent_session_id p = AgentSessionId ev" "p_id p = UserPromptId ev"
    and "t_status t = ''running''" and "a_updated_at a \<noteq> ee_now env" "t_updated_at t \<noteq> ee_now env"
    and "ee_event_id env = Some event_id" "event_id \<notin> e_id ` set (task_events d)"
    and "str_of (ee_checkpoint_id env) \<notin> k_id ` set (checkpoints d)"
    and "\<And>ev d. \<not> isl (dispatch cbs ev d)"
  shows "\<exists>st' d'. recordTaskEvent env cbs runner (Some ev) (st, d) = (Inr (), st', d')"
proof -
  have "holds_claim (ee_dbnow env) runner (redact_event st ev) a" using assms(3) by (simp add: holds_claim_def)
  then have tx: "\<not> isl (event_tx env cbs event_id runner skip (redact_event st ev) d)" for skip
    using assms by (intro event_tx_total [of d a p t]) auto
  show ?thesis
    using assms(4-6,13) tx unfolding recordTaskEvent_def
    by (simp add: Let_def case_prod_unfold not_isl_iff split: sum.split) (metis sum.distinct(1))
qed

section \<open>Secrets\<close>

text \<open>
  The texts of a report that the tables hold: summaries, errors and session exports of attempts, prompts,
  sessions and tasks, and the payloads of events. (A payload that is the message itself holds its four texts.)
\<close>

definition silent :: "string \<Rightarrow> string option \<Rightarrow> bool" where
  "silent v x = (case x of None \<Rightarrow> True | Some s \<Rightarrow> \<not> contains s v)"

fun silent_payload :: "string \<Rightarrow> payload \<Rightarrow> bool" where
  "silent_payload v (RawJson s) = (\<not> contains s v)"
| "silent_payload v (EventJson ev) =
     (\<not> contains (Summary ev) v \<and> \<not> contains (Error ev) v \<and> \<not> contains (SessionExport ev) v \<and> \<not> contains (PayloadJson ev) v)"
| "silent_payload v (JsonObject kvs) = True"

definition secret_free :: "string \<Rightarrow> db \<Rightarrow> bool" where
  "secret_free v d =
     (list_all (\<lambda>a. silent v (a_summary a) \<and> silent v (a_error a) \<and> silent v (a_session_export a)) (execution_attempts d) \<and>
      list_all (\<lambda>p. silent v (p_summary p) \<and> silent v (p_error p) \<and> silent v (p_session_export p)) (user_prompts d) \<and>
      list_all (\<lambda>s. silent v (s_summary s) \<and> silent v (s_error s)) (agent_sessions d) \<and>
      list_all (\<lambda>t. silent v (t_summary t) \<and> silent v (t_error t)) (tasks d) \<and>
      list_all (\<lambda>e. silent_payload v (e_payload e)) (task_events d))"

definition silent_event :: "string \<Rightarrow> task_event_msg \<Rightarrow> bool" where
  "silent_event v ev =
     (\<not> contains (Summary ev) v \<and> \<not> contains (Error ev) v \<and> \<not> contains (SessionExport ev) v \<and> \<not> contains (PayloadJson ev) v)"

lemma redacted_silent:
  "cachedRedactSet (AgentSessionId ev) st = Some vs \<Longrightarrow> v \<in> set vs \<Longrightarrow> plain_secret v \<Longrightarrow> silent_event v (redact_event st ev)"
  using Apply_removes [of v vs] by (simp add: redact_event_def silent_event_def)

lemma list_all_sql_update: "list_all P rs \<Longrightarrow> (\<And>r. P r \<Longrightarrow> w r \<Longrightarrow> P (f r)) \<Longrightarrow> list_all P (sql_update w f rs)"
  by (auto simp: list_all_iff in_sql_update_iff)

lemma silent_simps [simp]: "silent v None" "silent v (nullString s) \<longleftrightarrow> s = [] \<or> \<not> contains s v"
  by (auto simp: silent_def nullString_def)

lemma silent_coalesce: "silent v x \<Longrightarrow> silent v y \<Longrightarrow> silent v (coalesce x y)"
  by (auto simp: coalesce_def split: option.split)

lemma pause_secret_free: "secret_free v d \<Longrightarrow> secret_free v (pause_session now runner ev status chk container d)"
  by (auto simp: secret_free_def pause_session_def PauseAgentSessionByTaskID_def upd_sessions_def intro!: list_all_sql_update)

lemma terminal_secret_free:
  assumes "terminal_writes env runner ev d = Inr (fin, d')" and "silent_event v ev" and "secret_free v d"
  shows "secret_free v d'"
proof -
  have pause: "secret_free v d2" if "pause_for_resume env runner ev status session d1 = Inr (paused, d2)" "secret_free v d1" for status session paused d1 d2
  proof -
    have "secret_free v (d1\<lparr>checkpoints := ks\<rparr>)" for ks using that(2) by (simp add: secret_free_def)
    then show ?thesis using that
      by (auto simp: pause_for_resume_def Let_def InsertAgentSessionCheckpoint_def split: if_splits intro!: pause_secret_free)
  qed
  have mark: "secret_free v (fst (MarkAgentSessionTerminalByTask status h (nullString (Summary ev)) (nullString (Error ev)) e u i x))"
    if "secret_free v x" for status h e u i x
    using that assms(2)
    by (auto simp: secret_free_def silent_event_def MarkAgentSessionTerminalByTask_def upd_sessions_def intro!: list_all_sql_update)
  have finish: "secret_free v d2" if "finish_session env runner ev status d1 = Inr (tm, d2)" "secret_free v d1" for status tm d1 d2
    using that by (auto simp: finish_session_def split: sum.splits if_splits dest!: pause intro!: mark)
  have prompts: "secret_free v (fst (MarkUserPromptTerminalByTask status (nullString (Summary ev)) (nullString (Error ev))
      (nullString (SessionExport ev)) s e u i x))" if "secret_free v x" for status s e u i x
    using that assms(2)
    by (auto simp: secret_free_def silent_event_def MarkUserPromptTerminalByTask_def upd_prompts_def
        intro!: list_all_sql_update silent_coalesce)
  show ?thesis using assms(1,3)
    by (auto simp: terminal_writes_def Let_def split: option.splits dest!: finish intro!: prompts)
qed

context callback_dispatcher
begin

lemma event_tx_secret_free:
  assumes "event_tx env cbs event_id runner skip ev d = Inr (fin, d')" and ev: "silent_event v ev" and free: "secret_free v d"
  shows "secret_free v d'"
  using assms(1)
proof (rule event_tx_cases)
  fix x d1 d2 d3 d4 d5 d6
  assume d1: "d1 = fst (UpdateExecutionAttemptFromRunnerEvent (ee_dbnow env) (attempt_params (ee_now env) runner ev) d)"
    and d2: "d2 = fst (UpdateTaskAggregateFromRunnerEvent (task_params (ee_now env) ev) d1)"
    and d3: "d3 = fst (UpdateAgentSessionFromRunnerEvent (ProviderId ev) (ModelId ev) (VariantId ev)
             (OpencodeSessionId ev) (ee_now env) (TaskId ev) d2)"
    and d4: "d4 = UpdateTaskSearchText (TaskId ev) d3"
    and d5: "d5 = d4 \<or> d5 = UpdateTriggerRunStatusByTask (event_status ev) (TaskId ev) d4"
    and d6: "terminal_writes env runner ev d5 = Inr (fin, d6)"
    and d': "if skip then d' = d6 else store_event env cbs event_id runner ev d6 = Inr d'"
  have 1: "secret_free v d1"
    using free ev unfolding d1
    by (auto simp: secret_free_def silent_event_def UpdateExecutionAttemptFromRunnerEvent_def upd_attempts_def apply_attempt_event_def
        attempt_params_def Let_def intro!: list_all_sql_update silent_coalesce)
  have 2: "secret_free v d2"
    using 1 ev unfolding d2
    by (auto simp: secret_free_def silent_event_def UpdateTaskAggregateFromRunnerEvent_def upd_tasks_def task_params_def Let_def
        intro!: list_all_sql_update)
  have 3: "secret_free v d3"
    using 2 unfolding d3 by (auto simp: secret_free_def UpdateAgentSessionFromRunnerEvent_def upd_sessions_def intro!: list_all_sql_update)
  have 4: "secret_free v d4" using 3 unfolding d4 by (auto simp: secret_free_def UpdateTaskSearchText_def intro!: list_all_sql_update)
  have 5: "secret_free v d5" using 4 d5 by (auto simp: secret_free_def UpdateTriggerRunStatusByTask_def)
  have 6: "secret_free v d6" by (rule terminal_secret_free [OF d6 ev 5])
  have "silent_payload v (event_payload ev)" using ev by (simp add: event_payload_def silent_event_def)
  moreover have "agent_sessions d' = agent_sessions d6 \<and> user_prompts d' = user_prompts d6" if "\<not> skip"
    using that d' by (auto simp: store_event_def InsertTaskEvent_def dispatch_keeps split: option.splits)
  ultimately show ?thesis
    using 6 d' store_event_frame [of env event_id runner ev d6 d'] by (auto simp: secret_free_def event_row_def split: if_splits)
qed

end

text \<open>An accepted report in terms of its transaction, with the throttle of heartbeats written out.\<close>

definition heartbeat_throttled :: "time \<Rightarrow> rpc_state \<Rightarrow> task_event_msg \<Rightarrow> bool" where
  "heartbeat_throttled now st ev =
     (event_status ev = ''running'' \<and> isHeartbeatSummary (Summary ev) \<and>
      (case heartbeatSeen st (TaskId ev) of None \<Rightarrow> False | Some l \<Rightarrow> now - l < 60 * second))"

lemma accepted_event:
  assumes "recordTaskEvent env cbs runner (Some ev) (st, d) = (Inr u, st', d')"
  obtains event_id fin where "runner \<noteq> []" and "ee_event_id env = Some event_id"
    and "event_tx env cbs event_id runner (heartbeat_throttled (ee_now env) st (redact_event st ev)) (redact_event st ev) d = Inr (fin, d')"
    and "heartbeatSeen st' = (if event_is_heartbeat (redact_event st ev) \<and> \<not> heartbeat_throttled (ee_now env) st (redact_event st ev)
      then (heartbeatSeen st)(TaskId ev := Some (ee_now env)) else heartbeatSeen st)"
proof -
  let ?ev = "redact_event st ev"
  have task: "TaskId ?ev = TaskId ev" by (simp add: redact_event_def split: option.split)
  have evict: "heartbeatSeen (evictRedactSet i s) = heartbeatSeen s" for i s by (simp add: evictRedactSet_def)
  have store: "fst (if event_is_heartbeat ?ev then shouldStoreHeartbeat (ee_now env) (TaskId ?ev) st else (True, st)) =
      (\<not> heartbeat_throttled (ee_now env) st ?ev)"
    by (auto simp: shouldStoreHeartbeat_def heartbeat_throttled_def event_is_heartbeat_def heartbeatEventMinInterval_def split: option.splits)
  have seen: "heartbeatSeen (snd (if event_is_heartbeat ?ev then shouldStoreHeartbeat (ee_now env) (TaskId ?ev) st else (True, st))) =
      (if event_is_heartbeat ?ev \<and> \<not> heartbeat_throttled (ee_now env) st ?ev
       then (heartbeatSeen st)(TaskId ev := Some (ee_now env)) else heartbeatSeen st)"
    by (auto simp: shouldStoreHeartbeat_def heartbeat_throttled_def event_is_heartbeat_def heartbeatEventMinInterval_def task split: option.splits)
  from assms show thesis
    using that store seen
    by (auto simp: recordTaskEvent_def Let_def case_prod_unfold evict split: if_splits option.splits sum.splits)
qed

end
