(* ===== verification/Chetter_Heartbeat.thy ===== *)
theory Chetter_Heartbeat
  imports Chetter_Events Chetter_Examples
begin

text \<open>
  Runner registration, heartbeats and workspace pruning of
  \<^verbatim>\<open>internal/service/runner_rpc.go\<close>: \<^verbatim>\<open>upsertRunner\<close>, the audit of rejected relay
  requests, \<^verbatim>\<open>runnerCommands\<close> with lease renewal, cancel commands and drain delivery, and
  \<^verbatim>\<open>PruneWorkspaces\<close>. The metadata column is reduced to the one number the code reads back
  from it.
\<close>

section \<open>Messages\<close>

record running_execution =
  re_TaskId :: string
  re_ExecutionId :: string
  re_AgentSessionId :: string
  re_UserPromptId :: string
  re_ClaimId :: string

record runner_info =
  ri_RunnerId :: string
  ri_Status :: string
  ri_ImageRef :: string
  ri_ImageDigest :: string
  ri_Version :: string
  ri_MaxConcurrent :: int
  ri_RunningTasks :: int
  ri_AvailableSlots :: int
  ri_TotalStarted :: int
  ri_TotalCompleted :: int
  ri_TotalErrors :: int
  ri_StartedAt :: string
  ri_CurrentExecutions :: "running_execution list"
  ri_McpRelayRejectedRequests :: int
  ri_EnforcedIsolation :: bool

record runner_command =
  rc_Type :: string
  rc_TaskId :: string
  rc_Reason :: string
  rc_ExecutionId :: string
  rc_AgentSessionId :: string
  rc_UserPromptId :: string

section \<open>Registration\<close>

definition UpsertRunnerHeartbeat :: "runner \<Rightarrow> db \<Rightarrow> db" where
  "UpsertRunnerHeartbeat r d =
     (if r_id r \<in> r_id ` set (runners d)
      then d\<lparr>runners := sql_update (\<lambda>x. r_id x = r_id r)
              (\<lambda>x. r\<lparr>r_started_at := coalesce (r_started_at r) (r_started_at x),
                     r_first_seen_at := r_first_seen_at x\<rparr>) (runners d)\<rparr>
      else d\<lparr>runners := runners d @ [r]\<rparr>)"

definition GetRunnerHeartbeatMetadata :: "string \<Rightarrow> db \<Rightarrow> error + int" where
  "GetRunnerHeartbeatMetadata rid d =
     bind_res (sql_one (\<lambda>r. r_id r = rid) (runners d)) (\<lambda>r. Inr (r_relay_rejected r))"

text \<open>
  \<^verbatim>\<open>auditMCPRelayRejections\<close>: the increment an audit event records, if one is written.
  \<open>audited\<close> tells whether a security audit logger is configured.
\<close>

definition auditMCPRelayRejections :: "bool \<Rightarrow> runner_info \<Rightarrow> db \<Rightarrow> int option" where
  "auditMCPRelayRejections audited info d =
     (if \<not> audited \<or> ri_McpRelayRejectedRequests info \<le> 0 then None
      else let previous = (case GetRunnerHeartbeatMetadata (ri_RunnerId info) d of Inl _ \<Rightarrow> 0 | Inr n \<Rightarrow> n) in
        if ri_McpRelayRejectedRequests info \<le> previous then None
        else Some (ri_McpRelayRejectedRequests info - previous))"

definition runner_row :: "time \<Rightarrow> runner_info \<Rightarrow> runner" where
  "runner_row now info =
     \<lparr>r_id = ri_RunnerId info,
      r_status = (if ri_Status info = [] then ''active'' else ri_Status info),
      r_image_ref = nullString (ri_ImageRef info), r_image_digest = nullString (ri_ImageDigest info),
      r_version = nullString (ri_Version info), r_max_concurrent = ri_MaxConcurrent info,
      r_running_tasks = ri_RunningTasks info, r_available_slots = ri_AvailableSlots info,
      r_total_started = ri_TotalStarted info, r_total_completed = ri_TotalCompleted info,
      r_total_errors = ri_TotalErrors info, r_started_at = parseOptionalTime (ri_StartedAt info),
      r_first_seen_at = now, r_last_seen_at = now, r_updated_at = now,
      r_relay_rejected = ri_McpRelayRejectedRequests info,
      r_isolation_enabled = ri_EnforcedIsolation info\<rparr>"

definition upsertRunner :: "time \<Rightarrow> runner_info option \<Rightarrow> db \<Rightarrow> error + db" where
  "upsertRunner now info_opt d =
     (case info_opt of
        None \<Rightarrow> Inl (ConnectError CodeInvalidArgument (Errorf ''runner_id is required''))
      | Some info \<Rightarrow>
          if ri_RunnerId info = [] then
            Inl (ConnectError CodeInvalidArgument (Errorf ''runner_id is required''))
          else Inr (UpsertRunnerHeartbeat (runner_row now info) d))"

section \<open>Commands\<close>

definition executionCancelCommand :: "running_execution \<Rightarrow> string \<Rightarrow> runner_command" where
  "executionCancelCommand x reason =
     \<lparr>rc_Type = ''cancel'', rc_TaskId = re_TaskId x, rc_Reason = reason,
      rc_ExecutionId = re_ExecutionId x, rc_AgentSessionId = re_AgentSessionId x,
      rc_UserPromptId = re_UserPromptId x\<rparr>"

definition executionAttemptCancelCommand :: "heartbeat_row \<Rightarrow> string \<Rightarrow> runner_command" where
  "executionAttemptCancelCommand row reason =
     \<lparr>rc_Type = ''cancel'', rc_TaskId = h_task_id row, rc_Reason = reason,
      rc_ExecutionId = h_execution_attempt_id row, rc_AgentSessionId = h_agent_session_id row,
      rc_UserPromptId = h_user_prompt_id row\<rparr>"

definition drain_command :: runner_command where
  "drain_command = \<lparr>rc_Type = ''drain'', rc_TaskId = [], rc_Reason = [], rc_ExecutionId = [],
     rc_AgentSessionId = [], rc_UserPromptId = []\<rparr>"

definition runningExecutionAttemptIDs :: "running_execution list \<Rightarrow> string list" where
  "runningExecutionAttemptIDs xs = filter (\<lambda>i. i \<noteq> []) (map re_ExecutionId xs)"

text \<open>The drain half: a draining runner acknowledges its request, any other has it delivered.\<close>

definition drain_commands :: "runner_info \<Rightarrow> db \<Rightarrow> runner_command list \<times> db" where
  "drain_commands info d =
     (if ri_RunnerId info = [] then ([], d)
      else if ri_Status info = ''draining'' \<or> ri_Status info = ''drained''
        then ([], ackRunnerDrainDB (ri_RunnerId info) d)
      else if peekRunnerDrainDB (ri_RunnerId info) d then ([drain_command], d)
      else ([], d))"

definition matches_row :: "running_execution \<Rightarrow> heartbeat_row \<Rightarrow> bool" where
  "matches_row x row =
     (h_task_id row = re_TaskId x \<and> h_agent_session_id row = re_AgentSessionId x \<and>
      h_user_prompt_id row = re_UserPromptId x \<and> h_claim_id row = re_ClaimId x)"

text \<open>What one reported execution gets: commands, and the database with its lease renewed.\<close>

definition execution_command ::
  "time \<Rightarrow> string \<Rightarrow> heartbeat_row list \<Rightarrow> running_execution \<Rightarrow> db \<Rightarrow> runner_command list \<times> db" where
  "execution_command now runner rows x d =
     (case find (\<lambda>row. h_execution_attempt_id row = re_ExecutionId x) rows of
        None \<Rightarrow> ([executionCancelCommand x ''execution attempt is no longer owned by this runner''], d)
      | Some row \<Rightarrow>
          if \<not> matches_row x row then
            ([executionCancelCommand x ''execution hierarchy or claim does not match the claimed attempt''], d)
          else if h_status row = ''cancelled'' then
            ([executionAttemptCancelCommand row
               (if str_of (h_error row) = [] then ''cancelled by operator'' else str_of (h_error row))], d)
          else if h_status row = ''lost'' then
            ([executionAttemptCancelCommand row ''lease reclaimed; please stop''], d)
          else if h_status row = ''running'' then
            (let (d', renewed) = RenewExecutionAttemptLease (Some (now + defaultTaskLeaseSec * second))
                   (Some now) now (re_ExecutionId x) (nullString runner) (re_ClaimId x) d in
             if renewed = 0
             then ([executionAttemptCancelCommand row ''execution attempt is no longer running''], d')
             else ([], d'))
          else ([executionAttemptCancelCommand row ''execution attempt is no longer running''], d))"

fun execution_commands ::
  "time \<Rightarrow> string \<Rightarrow> heartbeat_row list \<Rightarrow> running_execution list \<Rightarrow> db \<Rightarrow> runner_command list \<times> db" where
  "execution_commands now runner rows [] d = ([], d)"
| "execution_commands now runner rows (x # xs) d =
     (let (cs, d1) = execution_command now runner rows x d;
          (cs', d2) = execution_commands now runner rows xs d1
      in (cs @ cs', d2))"

definition runnerCommands :: "time \<Rightarrow> runner_info option \<Rightarrow> db \<Rightarrow> runner_command list \<times> db" where
  "runnerCommands now info_opt d =
     (case info_opt of
        None \<Rightarrow> ([], d)
      | Some info \<Rightarrow>
          let (cs, d1) = drain_commands info d in
          if ri_CurrentExecutions info = [] then (cs, d1)
          else let rows = ListExecutionAttemptsForHeartbeat
                     (runningExecutionAttemptIDs (ri_CurrentExecutions info)) (ri_RunnerId info) d1;
                   (cs', d2) = execution_commands now (ri_RunnerId info) rows (ri_CurrentExecutions info) d1
               in (cs @ cs', d2))"

definition RegisterRunner :: "time \<Rightarrow> runner_info option \<Rightarrow> db \<Rightarrow> error + db" where
  "RegisterRunner now info_opt d = upsertRunner now info_opt d"

definition Heartbeat :: "time \<Rightarrow> runner_info option \<Rightarrow> runner_command list tx" where
  "Heartbeat now info_opt d =
     bind_res (upsertRunner now info_opt d) (\<lambda>d1. Inr (runnerCommands now info_opt d1))"

section \<open>Workspace pruning\<close>

record workspace_candidate =
  wc_TaskId :: string
  wc_ExecutionId :: string
  wc_WorkspacePath :: string

definition workspace_protected :: "bool \<Rightarrow> string \<Rightarrow> workspace_candidate \<Rightarrow> db \<Rightarrow> bool" where
  "workspace_protected containerScope runner c d =
     (let pathUnknown = (wc_WorkspacePath c = []) in
      list_ex (\<lambda>(a, p). a_id a = wc_ExecutionId c \<and> p_task_id p = wc_TaskId c \<and> a_status a = ''running'' \<and>
        (containerScope \<or> a_runner_id a = Some runner)) (attempt_joins d) \<or>
      list_ex (\<lambda>s. \<not> containerScope \<and> s_task_id s = wc_TaskId c \<and>
        (s_workspace_path s = Some (wc_WorkspacePath c) \<or> pathUnknown) \<and>
        s_status s \<in> {''running'', ''resuming'', ''paused'', ''recoverable'', ''paused_waiting_review''} \<and>
        (containerScope \<or> s_pinned_runner_id s = None \<or> s_pinned_runner_id s = Some [] \<or>
         s_pinned_runner_id s = Some runner)) (agent_sessions d) \<or>
      list_ex (\<lambda>k. list_ex (\<lambda>s. s_id s = k_agent_session_id k \<and> s_task_id s = wc_TaskId c) (agent_sessions d) \<and>
        (k_workspace_path k = wc_WorkspacePath c \<or> pathUnknown) \<and> k_status k = ''ready'' \<and>
        k_checkpoint_path k \<noteq> [] \<and> (containerScope \<or> k_runner_id k = runner)) (checkpoints d))"

fun prune_candidates ::
  "bool \<Rightarrow> string \<Rightarrow> workspace_candidate list \<Rightarrow> db \<Rightarrow> error + (string \<times> string) list" where
  "prune_candidates containerScope runner [] d = Inr []"
| "prune_candidates containerScope runner (c # cs) d =
     (if wc_TaskId c = [] \<or> wc_ExecutionId c = [] then
        Inl (ConnectError CodeInvalidArgument
          (Errorf ''workspace candidate task_id and execution_id are required''))
      else if wc_WorkspacePath c = [] \<and> \<not> containerScope then
        Inl (ConnectError CodeInvalidArgument (Errorf ''workspace candidate workspace_path is required''))
      else bind_res (prune_candidates containerScope runner cs d) (\<lambda>safe.
        Inr (if workspace_protected containerScope runner c d then safe
             else (wc_TaskId c, wc_ExecutionId c) # safe)))"

definition PruneWorkspaces ::
  "bool \<Rightarrow> string \<Rightarrow> workspace_candidate list \<Rightarrow> db \<Rightarrow> error + (string \<times> string) list" where
  "PruneWorkspaces containerScope runner cs d =
     (if runner = [] then Inl (ConnectError CodeInvalidArgument (Errorf ''runner_id is required''))
      else if cs = [] then Inr []
      else prune_candidates containerScope runner cs d)"

section \<open>Lemmas\<close>

lemma map_id_upsert_present:
  "map r_id (sql_update (\<lambda>x. r_id x = r_id r)
     (\<lambda>x. r\<lparr>r_started_at := coalesce (r_started_at r) (r_started_at x), r_first_seen_at := r_first_seen_at x\<rparr>) rs)
   = map r_id rs"
  by (induction rs) auto

lemma wf_upsert: "wf_db d \<Longrightarrow> wf_db (UpsertRunnerHeartbeat r d)"
  by (simp add: UpsertRunnerHeartbeat_def wf_db_def keys_ok_def refs_ok_lists isolation_ok_lists
      map_id_upsert_present)

lemma later_upsert: "db_later d (UpsertRunnerHeartbeat r d)"
  by (rule db_later_same_tables) (simp_all add: UpsertRunnerHeartbeat_def)

lemma upsert_present: "\<exists>x\<in>set (runners (UpsertRunnerHeartbeat r d)).
    r_id x = r_id r \<and> r_status x = r_status r \<and> r_last_seen_at x = r_last_seen_at r"
proof (cases "r_id r \<in> r_id ` set (runners d)")
  case True
  then obtain x where x: "x \<in> set (runners d)" "r_id x = r_id r" by auto
  let ?y = "r\<lparr>r_started_at := coalesce (r_started_at r) (r_started_at x), r_first_seen_at := r_first_seen_at x\<rparr>"
  have "?y \<in> set (runners (UpsertRunnerHeartbeat r d))"
    using True x by (auto simp: UpsertRunnerHeartbeat_def in_sql_update_iff intro!: bexI [of _ x])
  then show ?thesis by (rule bexI [rotated]) simp
next
  case False
  then show ?thesis by (simp add: UpsertRunnerHeartbeat_def)
qed

lemma good_execution_command: "good_update d (snd (execution_command now runner rows x d))"
  by (auto simp: execution_command_def Let_def case_prod_unfold good_attempt_updates split: option.splits)

lemma good_execution_commands: "good_update d (snd (execution_commands now runner rows xs d))"
proof (induction xs arbitrary: d)
  case (Cons x xs)
  then show ?case
    using good_update_trans [OF good_execution_command Cons.IH] by (simp add: Let_def case_prod_unfold)
qed simp

lemma good_drain_commands: "good_update d (snd (drain_commands info d))"
  by (auto simp: drain_commands_def ackRunnerDrainDB_def intro!: good_other_tables)

lemma good_runnerCommands: "good_update d (snd (runnerCommands now info_opt d))"
proof (cases info_opt)
  case None
  then show ?thesis by (simp add: runnerCommands_def)
next
  case (Some info)
  show ?thesis
    using good_drain_commands [of d info]
      good_update_trans [OF good_drain_commands good_execution_commands]
    by (simp add: runnerCommands_def Some Let_def case_prod_unfold)
qed

lemma Heartbeat_wf_later:
  assumes "Heartbeat now info_opt d = Inr (cs, d')"
  shows "wf_db d \<Longrightarrow> wf_db d'" and "db_later d d'"
proof -
  from assms obtain info where d': "runnerCommands now info_opt (UpsertRunnerHeartbeat (runner_row now info) d) = (cs, d')"
    by (auto simp: Heartbeat_def upsertRunner_def split: option.splits if_splits)
  then have g: "good_update (UpsertRunnerHeartbeat (runner_row now info) d) d'"
    using good_runnerCommands by (metis snd_conv)
  then show "wf_db d \<Longrightarrow> wf_db d'" using wf_upsert good_update_wf by blast
  from g later_upsert show "db_later d d'" by (auto simp: good_update_def intro: db_later_trans)
qed

text \<open>
  A renewed lease belongs to a running attempt claimed by the runner under the reported claim;
  every other attempt keeps its row.
\<close>

lemma renew_only_claimed:
  assumes "(cs, d') = execution_command now runner rows x d" and "a \<in> set (execution_attempts d)"
  shows "a \<in> set (execution_attempts d') \<or>
    (a_id a = re_ExecutionId x \<and> a_runner_id a = Some runner \<and> a_claim_id a = re_ClaimId x \<and>
     a_status a = ''running'' \<and>
     a\<lparr>a_lease_expires_at := Some (now + defaultTaskLeaseSec * second), a_last_event_at := Some now,
       a_updated_at := now\<rparr> \<in> set (execution_attempts d'))"
proof (cases "d' = d")
  case True
  with assms(2) show ?thesis by simp
next
  case False
  then have d': "d' = fst (RenewExecutionAttemptLease (Some (now + defaultTaskLeaseSec * second))
                   (Some now) now (re_ExecutionId x) (nullString runner) (re_ClaimId x) d)"
    using assms(1) by (auto simp: execution_command_def Let_def case_prod_unfold split: option.splits if_splits)
  let ?w = "\<lambda>a. a_id a = re_ExecutionId x \<and> nullString runner \<noteq> None \<and> a_runner_id a = nullString runner \<and>
            a_claim_id a = re_ClaimId x \<and> a_status a = ''running''"
  show ?thesis
  proof (cases "?w a")
    case True
    then have "a_runner_id a = Some runner" by (cases runner) auto
    with True assms(2) show ?thesis
      by (auto simp: d' RenewExecutionAttemptLease_def upd_attempts_def in_sql_update_iff)
  next
    case False
    then have "a \<in> set (execution_attempts d')"
      using assms(2) by (auto simp: d' RenewExecutionAttemptLease_def upd_attempts_def in_sql_update_iff
          intro!: bexI [of _ a])
    then show ?thesis by simp
  qed
qed

text \<open>Pruning answers with candidates, in order, that nothing protects.\<close>

lemma prune_safe:
  "prune_candidates cs_scope runner cs d = Inr safe \<Longrightarrow>
     safe = map (\<lambda>c. (wc_TaskId c, wc_ExecutionId c))
       (filter (\<lambda>c. \<not> workspace_protected cs_scope runner c d) cs)"
  by (induction cs arbitrary: safe) (auto split: if_splits)

section \<open>Renewal\<close>

definition renewed :: "time \<Rightarrow> execution_attempt \<Rightarrow> execution_attempt" where
  "renewed now a = a\<lparr>a_lease_expires_at := Some (now + defaultTaskLeaseSec * second), a_last_event_at := Some now,
       a_updated_at := now\<rparr>"

definition reported_by :: "string \<Rightarrow> running_execution list \<Rightarrow> execution_attempt \<Rightarrow> bool" where
  "reported_by runner xs a =
     (a_status a = ''running'' \<and> a_runner_id a = Some runner \<and>
      list_ex (\<lambda>x. re_ExecutionId x = a_id a \<and> re_ClaimId x = a_claim_id a) xs)"

lemma renewed_renewed [simp]: "renewed now (renewed now a) = renewed now a"
  by (simp add: renewed_def)

lemma reported_by_renewed [simp]: "reported_by runner xs (renewed now a) = reported_by runner xs a"
  by (simp add: reported_by_def renewed_def)

lemma renew_reported:
  assumes "a \<in> set (execution_attempts d)"
  shows "a \<in> set (execution_attempts (snd (execution_commands now runner rows xs d))) \<or>
    (reported_by runner xs a \<and> renewed now a \<in> set (execution_attempts (snd (execution_commands now runner rows xs d))))"
  using assms
proof (induction xs arbitrary: d a)
  case (Cons x xs)
  obtain cs d1 where one: "execution_command now runner rows x d = (cs, d1)" by fastforce
  have snd_eq: "snd (execution_commands now runner rows (x # xs) d) = snd (execution_commands now runner rows xs d1)"
    by (simp add: one Let_def case_prod_unfold)
  have weak: "reported_by runner xs b \<Longrightarrow> reported_by runner (x # xs) b" for b by (auto simp: reported_by_def)
  from renew_only_claimed [OF one [symmetric] Cons.prems]
  show ?case
  proof
    assume "a \<in> set (execution_attempts d1)"
    from Cons.IH [OF this] weak show ?thesis unfolding snd_eq by blast
  next
    assume r: "a_id a = re_ExecutionId x \<and> a_runner_id a = Some runner \<and> a_claim_id a = re_ClaimId x \<and>
     a_status a = ''running'' \<and>
     a\<lparr>a_lease_expires_at := Some (now + defaultTaskLeaseSec * second), a_last_event_at := Some now,
       a_updated_at := now\<rparr> \<in> set (execution_attempts d1)"
    then have "reported_by runner (x # xs) a" by (simp add: reported_by_def)
    moreover have "renewed now a \<in> set (execution_attempts d1)" using r by (simp add: renewed_def)
    ultimately show ?thesis using Cons.IH [of "renewed now a" d1] unfolding snd_eq by auto
  qed
qed simp

text \<open>
  C16. A heartbeat renews leases only for what the runner holds: each attempt keeps its row, or it is
  running, claimed by this runner, reported with its claim id, and gets a full lease and nothing else.
\<close>

theorem heartbeat_renews_only_own_claims:
  assumes "Heartbeat now (Some info) d = Inr (cs, d')" and "a \<in> set (execution_attempts d)"
  shows "a \<in> set (execution_attempts d') \<or>
    (reported_by (ri_RunnerId info) (ri_CurrentExecutions info) a \<and> renewed now a \<in> set (execution_attempts d'))"
proof -
  let ?d1 = "snd (drain_commands info (UpsertRunnerHeartbeat (runner_row now info) d))"
  have a: "a \<in> set (execution_attempts ?d1)"
    using assms(2) by (simp add: drain_commands_def ackRunnerDrainDB_def UpsertRunnerHeartbeat_def)
  have "d' = ?d1 \<or> (\<exists>rows. d' = snd (execution_commands now (ri_RunnerId info) rows (ri_CurrentExecutions info) ?d1))"
    using assms(1)
    by (auto simp: Heartbeat_def upsertRunner_def runnerCommands_def Let_def case_prod_unfold split: if_splits)
  then show ?thesis using a renew_reported [OF a] by auto
qed

definition ex_info :: runner_info where
  "ex_info = \<lparr>ri_RunnerId = ''r1'', ri_Status = ''active'', ri_ImageRef = [], ri_ImageDigest = [], ri_Version = [],
     ri_MaxConcurrent = 1, ri_RunningTasks = 1, ri_AvailableSlots = 0, ri_TotalStarted = 1, ri_TotalCompleted = 0,
     ri_TotalErrors = 0, ri_StartedAt = [],
     ri_CurrentExecutions = [\<lparr>re_TaskId = ''t1'', re_ExecutionId = ''x1'', re_AgentSessionId = ''s1'',
       re_UserPromptId = ''p1'', re_ClaimId = ''c''\<rparr>],
     ri_McpRelayRejectedRequests = 0, ri_EnforcedIsolation = False\<rparr>"

theorem heartbeat_renews_only_own_claims_witness:
  "\<exists>d'. Heartbeat (50 * second) (Some ex_info) ex_running_db = Inr ([], d') \<and>
     renewed (50 * second) ex_running_attempt \<in> set (execution_attempts d')"
proof -
  have run: "case Heartbeat (50 * second) (Some ex_info) ex_running_db of Inl e \<Rightarrow> False
    | Inr (cs, d') \<Rightarrow> cs = [] \<and> list_all (\<lambda>a. a_lease_expires_at a \<noteq> Some (100 * second)) (execution_attempts d')" by code_simp
  then obtain d' where h: "Heartbeat (50 * second) (Some ex_info) ex_running_db = Inr ([], d')"
    and other: "\<forall>a\<in>set (execution_attempts d'). a_lease_expires_at a \<noteq> Some (100 * second)"
    by (auto simp: list_all_iff split: sum.split_asm prod.split_asm)
  have mem: "ex_running_attempt \<in> set (execution_attempts ex_running_db)" by (simp add: ex_running_db_def)
  have "ex_running_attempt \<notin> set (execution_attempts d')" using other by (auto simp: ex_running_attempt_def)
  with heartbeat_renews_only_own_claims [OF h mem] h show ?thesis by blast
qed

text \<open>
  Workspace pruning clears, in the order asked, exactly the candidates nothing protects: no
  running attempt, no session that may still resume in the workspace, no ready checkpoint.
\<close>

theorem pruning_spares_protected_workspaces:
  assumes "PruneWorkspaces scope runner cs d = Inr safe"
  shows "safe = map (\<lambda>c. (wc_TaskId c, wc_ExecutionId c)) (filter (\<lambda>c. \<not> workspace_protected scope runner c d) cs)"
  using assms prune_safe by (auto simp: PruneWorkspaces_def split: if_splits)

theorem pruning_spares_protected_workspaces_witness:
  "PruneWorkspaces False ''r1'' [\<lparr>wc_TaskId = ''t1'', wc_ExecutionId = ''x1'', wc_WorkspacePath = ''/w''\<rparr>,
       \<lparr>wc_TaskId = ''t0'', wc_ExecutionId = ''x0'', wc_WorkspacePath = ''/v''\<rparr>] ex_running_db = Inr [(''t0'', ''x0'')] \<and>
   workspace_protected False ''r1'' \<lparr>wc_TaskId = ''t1'', wc_ExecutionId = ''x1'', wc_WorkspacePath = ''/w''\<rparr> ex_running_db"
proof -
  let ?c = "\<lparr>wc_TaskId = ''t1'', wc_ExecutionId = ''x1'', wc_WorkspacePath = ''/w''\<rparr>"
  let ?cs = "[?c, \<lparr>wc_TaskId = ''t0'', wc_ExecutionId = ''x0'', wc_WorkspacePath = ''/v''\<rparr>]"
  have p: "PruneWorkspaces False ''r1'' ?cs ex_running_db = Inr [(''t0'', ''x0'')]" by code_simp
  from pruning_spares_protected_workspaces [OF p] p show ?thesis by (auto split: if_splits)
qed

end
