(* ===== verification/Chetter_Retention.thy ===== *)
theory Chetter_Retention
  imports Chetter_Evolution
begin

text \<open>
  Retention: the artifact collector (\<^verbatim>\<open>reapExpiredSessionArtifacts\<close> and its three
  statements), and the batched pruning of old rows (\<^verbatim>\<open>PruneOldRows\<close>,
  \<^verbatim>\<open>PruneTerminalDeliveries\<close>, \<^verbatim>\<open>execPruneBatches\<close> of \<^verbatim>\<open>internal/store/store.go\<close>,
  \<^verbatim>\<open>pruneJobs\<close> and \<^verbatim>\<open>pruneRetainedRows\<close> of \<^verbatim>\<open>internal/service/service.go\<close>).
\<close>

section \<open>The artifact collector\<close>

definition collectable_session :: "time \<Rightarrow> int \<Rightarrow> agent_session \<Rightarrow> bool" where
  "collectable_session dbnow ttl s =
     (s_status s \<in> {''completed'', ''failed'', ''cancelled'', ''timed_out'', ''expired'', ''abandoned'', ''error''} \<and>
      s_updated_at s < dbnow - ttl * second)"

definition ClearExpiredSessionCheckpoints :: "time \<Rightarrow> int \<Rightarrow> db \<Rightarrow> db \<times> nat" where
  "ClearExpiredSessionCheckpoints dbnow ttl d =
     (let w = (\<lambda>k. list_ex (\<lambda>s. s_id s = k_agent_session_id k \<and> collectable_session dbnow ttl s)
                  (agent_sessions d) \<and> k_checkpoint_path k \<noteq> []);
          f = (\<lambda>k. k\<lparr>k_checkpoint_path := [], k_updated_at := dbnow\<rparr>)
      in (d\<lparr>checkpoints := sql_update w f (checkpoints d)\<rparr>, sql_affected w f (checkpoints d)))"

definition ClearExpiredUserPromptExports :: "time \<Rightarrow> int \<Rightarrow> db \<Rightarrow> db \<times> nat" where
  "ClearExpiredUserPromptExports dbnow ttl d =
     upd_prompts (\<lambda>p. list_ex (\<lambda>s. s_id s = p_agent_session_id p \<and> collectable_session dbnow ttl s)
         (agent_sessions d) \<and> p_session_export p \<noteq> None)
       (\<lambda>p. p\<lparr>p_session_export := None, p_updated_at := dbnow\<rparr>) d"

definition ClearExpiredExecutionAttemptExports :: "time \<Rightarrow> int \<Rightarrow> db \<Rightarrow> db \<times> nat" where
  "ClearExpiredExecutionAttemptExports dbnow ttl d =
     upd_attempts (\<lambda>a. session_of_attempt d a (collectable_session dbnow ttl) \<and> a_session_export a \<noteq> None)
       (\<lambda>a. a\<lparr>a_session_export := None, a_updated_at := dbnow\<rparr>) d"

text \<open>\<open>ttl\<close> is \<^verbatim>\<open>int64(SessionArtifactTTL.Seconds())\<close>, \<open>enabled\<close> whether the TTL is positive.\<close>

definition reapExpiredSessionArtifacts :: "bool \<Rightarrow> time \<Rightarrow> int \<Rightarrow> db \<Rightarrow> db" where
  "reapExpiredSessionArtifacts enabled dbnow ttl d =
     (if \<not> enabled then d
      else fst (ClearExpiredExecutionAttemptExports dbnow ttl
        (fst (ClearExpiredUserPromptExports dbnow ttl
          (fst (ClearExpiredSessionCheckpoints dbnow ttl d))))))"

section \<open>Batched deletion\<close>

definition pruneBatchSize :: nat where
  "pruneBatchSize = 1000"

text \<open>\<^verbatim>\<open>DELETE ... WHERE ... LIMIT n\<close>: the rows kept and the number deleted.\<close>

fun delete_limit :: "nat \<Rightarrow> ('r \<Rightarrow> bool) \<Rightarrow> 'r list \<Rightarrow> 'r list \<times> nat" where
  "delete_limit n w [] = ([], 0)"
| "delete_limit n w (r # rs) =
     (if n > 0 \<and> w r then (let (ks, m) = delete_limit (n - 1) w rs in (ks, Suc m))
      else (let (ks, m) = delete_limit n w rs in (r # ks, m)))"

lemma delete_limit_length:
  "length (fst (delete_limit n w rs)) + snd (delete_limit n w rs) = length rs"
  by (induction n w rs rule: delete_limit.induct) (auto simp: Let_def case_prod_unfold)

lemma delete_limit_le: "snd (delete_limit n w rs) \<le> n"
  by (induction n w rs rule: delete_limit.induct) (auto simp: Let_def case_prod_unfold)

text \<open>
  What can end the loop early in a pass: the context ended, the statement failed (and was applied nevertheless,
  or not), or the number of rows is not known.
\<close>

datatype batch_fault = CtxEnded error | ExecFailed bool error | CountFailed error

text \<open>The rows kept, the count and the error returned; \<open>faults k\<close> is what happens in pass \<open>k\<close>.\<close>

function execPruneBatches ::
  "(nat \<Rightarrow> batch_fault option) \<Rightarrow> nat \<Rightarrow> string \<Rightarrow> ('r \<Rightarrow> bool) \<Rightarrow> 'r list \<Rightarrow> 'r list \<times> nat \<times> error option" where
  "execPruneBatches faults k errorLabel w rs =
     (let (kept, n) = delete_limit pruneBatchSize w rs in
      case faults k of
        Some (CtxEnded e) \<Rightarrow> (rs, 0, Some e)
      | Some (ExecFailed applied e) \<Rightarrow> (if applied then kept else rs, 0, Some (Wrap (''prune '' @ errorLabel) e))
      | Some (CountFailed e) \<Rightarrow> (kept, 0, Some (Wrap (''prune '' @ errorLabel @ '' rows affected'') e))
      | None \<Rightarrow>
          if n < pruneBatchSize then (kept, n, None)
          else (let (kept', total, err) = execPruneBatches faults (Suc k) errorLabel w kept in (kept', n + total, err)))"
  by pat_completeness auto
termination
proof (relation "measure (\<lambda>(faults, k, errorLabel, w, rs). length rs)", simp, goal_cases)
  case (1 faults k errorLabel w rs p kept n)
  then have "length kept + n = length rs" using delete_limit_length [of pruneBatchSize w rs]
    by (metis fst_conv snd_conv)
  then show ?case using 1 by (simp add: pruneBatchSize_def)
qed

declare execPruneBatches.simps [simp del]

text \<open>The loop deletes exactly the matching rows, in as many passes as it takes.\<close>

lemma delete_limit_partial:
  "snd (delete_limit n w rs) < n \<Longrightarrow> fst (delete_limit n w rs) = filter (\<lambda>r. \<not> w r) rs"
  by (induction n w rs rule: delete_limit.induct) (auto simp: Let_def case_prod_unfold split: if_splits)

lemma delete_limit_filter:
  "filter (\<lambda>r. \<not> w r) (fst (delete_limit n w rs)) = filter (\<lambda>r. \<not> w r) rs"
  by (induction n w rs rule: delete_limit.induct) (auto simp: Let_def case_prod_unfold)

text \<open>Every way out of the loop keeps the rows that do not match, and counts no row that is still there.\<close>

lemma execPruneBatches_result:
  assumes "execPruneBatches faults k label w rs = (kept, n, err)"
  shows "filter (\<lambda>r. \<not> w r) kept = filter (\<lambda>r. \<not> w r) rs \<and> length kept + n \<le> length rs \<and>
    (err = None \<longrightarrow> kept = filter (\<lambda>r. \<not> w r) rs \<and> length kept + n = length rs) \<and>
    ((\<forall>j. faults j = None) \<longrightarrow> err = None)"
  using assms
proof (induction faults k label w rs arbitrary: kept n err rule: execPruneBatches.induct)
  case (1 faults k label w rs)
  obtain kept1 n1 where dl: "delete_limit pruneBatchSize w rs = (kept1, n1)" by fastforce
  have len: "length kept1 + n1 = length rs" using delete_limit_length [of pruneBatchSize w rs] dl by simp
  have flt: "filter (\<lambda>r. \<not> w r) kept1 = filter (\<lambda>r. \<not> w r) rs" using delete_limit_filter [of w pruneBatchSize rs] dl by simp
  note run = "1.prems" [unfolded execPruneBatches.simps [of faults k label w rs] dl Let_def prod.case]
  show ?case
  proof (cases "faults k")
    case (Some f)
    then show ?thesis using run len flt by (auto split: batch_fault.splits if_splits)
  next
    case None
    show ?thesis
    proof (cases "n1 < pruneBatchSize")
      case True
      then have "kept1 = filter (\<lambda>r. \<not> w r) rs" using delete_limit_partial [of pruneBatchSize w rs] dl by simp
      then show ?thesis using run None True len flt by auto
    next
      case False
      obtain kept2 n2 err2 where rest: "execPruneBatches faults (Suc k) label w kept1 = (kept2, n2, err2)" by (metis prod_cases3)
      then have out: "kept = kept2" "n = n1 + n2" "err = err2"
        using run None False by auto
      from "1.IH" [OF dl [symmetric] refl None False rest] show ?thesis using len flt unfolding out by auto
    qed
  qed
qed

lemma execPruneBatches_kept:
  assumes "r \<in> set rs" and "\<not> w r"
  shows "r \<in> set (fst (execPruneBatches faults k label w rs))"
proof -
  obtain kept n err where run: "execPruneBatches faults k label w rs = (kept, n, err)" by (metis prod_cases3)
  have "r \<in> set (filter (\<lambda>r. \<not> w r) kept)" using execPruneBatches_result [OF run] assms by simp
  then show ?thesis using run by simp
qed

section \<open>Pruning jobs\<close>

record pruneJob =
  pj_table :: string
  pj_ttl :: time
  pj_terminalOnly :: bool

record retention_config =
  EventsRetentionDays :: int
  AuditRetentionDays :: int
  ArtifactRetentionDays :: int
  DeliveryRetentionDays :: int

definition days :: "int \<Rightarrow> time" where
  "days n = n * 24 * hour"

definition pruneJobs :: "retention_config \<Rightarrow> pruneJob list" where
  "pruneJobs cfg =
     (if EventsRetentionDays cfg > 0 then
        [\<lparr>pj_table = ''task_events'', pj_ttl = days (EventsRetentionDays cfg), pj_terminalOnly = False\<rparr>] else []) @
     (if AuditRetentionDays cfg > 0 then
        [\<lparr>pj_table = ''audit_log'', pj_ttl = days (AuditRetentionDays cfg), pj_terminalOnly = False\<rparr>] else []) @
     (if ArtifactRetentionDays cfg > 0 then
        [\<lparr>pj_table = ''task_artifacts'', pj_ttl = days (ArtifactRetentionDays cfg), pj_terminalOnly = False\<rparr>,
         \<lparr>pj_table = ''agent_sessions'', pj_ttl = days (ArtifactRetentionDays cfg), pj_terminalOnly = False\<rparr>] else []) @
     (if DeliveryRetentionDays cfg > 0 then
        map (\<lambda>t. \<lparr>pj_table = t, pj_ttl = days (DeliveryRetentionDays cfg), pj_terminalOnly = True\<rparr>)
          [''callback_deliveries'', ''inbound_deliveries'', ''webhook_deliveries''] else [])"

text \<open>
  The tables of the model among those the two functions accept; the others
  (\<^verbatim>\<open>audit_log\<close>, \<^verbatim>\<open>task_artifacts\<close>, and the two inbound delivery tables) are not part
  of the state and are left alone.
\<close>

type_synonym prune_faults = "string \<Rightarrow> nat \<Rightarrow> batch_fault option"

text \<open>The error and the state: what a failed job deleted stays deleted.\<close>

definition PruneOldRows :: "prune_faults \<Rightarrow> time \<Rightarrow> string \<Rightarrow> time \<Rightarrow> db \<Rightarrow> error option \<times> db" where
  "PruneOldRows faults now table ttl d =
     (if ttl \<le> 0 then (None, d)
      else if table = ''task_events'' then
        (case execPruneBatches (faults table) 0 table (\<lambda>e. e_created_at e < now - ttl) (task_events d) of
           (kept, n, err) \<Rightarrow> (err, d\<lparr>task_events := kept\<rparr>))
      else if table = ''agent_sessions'' then
        (case execPruneBatches (faults table) 0 table (\<lambda>s. s_created_at s < now - ttl) (agent_sessions d) of
           (kept, n, err) \<Rightarrow> (err, d\<lparr>agent_sessions := kept\<rparr>))
      else if table \<in> {''audit_log'', ''task_artifacts''} then (None, d)
      else (Some (Errorf (''prune: unknown retention table '' @ table)), d))"

definition callback_terminal :: "string \<Rightarrow> bool" where
  "callback_terminal status = (status \<in> {''completed'', ''dead_letter''})"

definition PruneTerminalDeliveries :: "prune_faults \<Rightarrow> time \<Rightarrow> string \<Rightarrow> time \<Rightarrow> db \<Rightarrow> error option \<times> db" where
  "PruneTerminalDeliveries faults now table ttl d =
     (if ttl \<le> 0 then (None, d)
      else if table = ''callback_deliveries'' then
        (case execPruneBatches (faults table) 0 table
            (\<lambda>r. d_created_at r < now - ttl \<and> callback_terminal (d_status r)) (callback_deliveries d) of
           (kept, n, err) \<Rightarrow> (err, d\<lparr>callback_deliveries := kept\<rparr>))
      else if table \<in> {''inbound_deliveries'', ''webhook_deliveries''} then (None, d)
      else (Some (Errorf (''prune: unknown delivery retention table '' @ table)), d))"

text \<open>The error of a job is logged, and the next job runs.\<close>

definition run_prune_job :: "prune_faults \<Rightarrow> time \<Rightarrow> pruneJob \<Rightarrow> db \<Rightarrow> db" where
  "run_prune_job faults now j d =
     snd (if pj_terminalOnly j then PruneTerminalDeliveries faults now (pj_table j) (pj_ttl j) d
          else PruneOldRows faults now (pj_table j) (pj_ttl j) d)"

fun run_prune_jobs :: "prune_faults \<Rightarrow> time \<Rightarrow> pruneJob list \<Rightarrow> db \<Rightarrow> db" where
  "run_prune_jobs faults now [] d = d"
| "run_prune_jobs faults now (j # js) d = run_prune_jobs faults now js (run_prune_job faults now j d)"

definition pruneRetainedRows :: "prune_faults \<Rightarrow> time \<Rightarrow> retention_config \<Rightarrow> db \<Rightarrow> db" where
  "pruneRetainedRows faults now cfg d = run_prune_jobs faults now (pruneJobs cfg) d"

section \<open>Lemmas\<close>

lemma good_artifacts: "good_update d (reapExpiredSessionArtifacts enabled dbnow ttl d)"
proof -
  have k: "good_update x (fst (ClearExpiredSessionCheckpoints dbnow ttl x))" for x
    by (rule good_other_tables) (simp_all add: ClearExpiredSessionCheckpoints_def Let_def)
  have p: "good_update x (fst (ClearExpiredUserPromptExports dbnow ttl x))" for x
    unfolding ClearExpiredUserPromptExports_def by (rule good_upd_prompts) (simp add: fixed_defs)
  have a: "good_update x (fst (ClearExpiredExecutionAttemptExports dbnow ttl x))" for x
    unfolding ClearExpiredExecutionAttemptExports_def
    by (rule good_upd_attempts) (simp add: attempt_later_def fixed_defs a_core_def)
  show ?thesis
    unfolding reapExpiredSessionArtifacts_def
    using good_update_trans [OF good_update_trans [OF k p] a] by simp
qed

text \<open>
  Delivery pruning deletes terminal rows only, and every job leaves the task rows, the prompts and
  the attempts alone.
\<close>

lemma prune_deliveries_rows:
  assumes "r \<in> set (callback_deliveries d)" and "\<not> callback_terminal (d_status r)"
  shows "r \<in> set (callback_deliveries (run_prune_job faults now j d))"
proof -
  let ?w = "\<lambda>r. d_created_at r < now - pj_ttl j \<and> callback_terminal (d_status r)"
  have "r \<in> set (fst (execPruneBatches (faults t) 0 t ?w (callback_deliveries d)))" for t
    using assms by (intro execPruneBatches_kept) auto
  then show ?thesis using assms(1)
    by (auto simp: run_prune_job_def PruneTerminalDeliveries_def PruneOldRows_def split: prod.split)
      (metis fst_conv)
qed

lemma prune_job_keeps:
  "tasks (run_prune_job faults now j d) = tasks d \<and> user_prompts (run_prune_job faults now j d) = user_prompts d \<and>
   execution_attempts (run_prune_job faults now j d) = execution_attempts d"
  by (auto simp: run_prune_job_def PruneTerminalDeliveries_def PruneOldRows_def split: prod.split)

lemma prune_keeps:
  "tasks (run_prune_jobs faults now js d) = tasks d \<and> user_prompts (run_prune_jobs faults now js d) = user_prompts d \<and>
   execution_attempts (run_prune_jobs faults now js d) = execution_attempts d"
  by (induction js arbitrary: d) (simp_all add: prune_job_keeps)

lemma prune_disabled:
  "EventsRetentionDays cfg \<le> 0 \<Longrightarrow> AuditRetentionDays cfg \<le> 0 \<Longrightarrow> ArtifactRetentionDays cfg \<le> 0 \<Longrightarrow>
   DeliveryRetentionDays cfg \<le> 0 \<Longrightarrow> pruneRetainedRows faults now cfg d = d"
  by (simp add: pruneRetainedRows_def pruneJobs_def)

lemma run_prune_live:
  "r \<in> set (callback_deliveries d) \<Longrightarrow> \<not> callback_terminal (d_status r) \<Longrightarrow>
     r \<in> set (callback_deliveries (run_prune_jobs faults now js d))"
  by (induction js arbitrary: d) (simp_all add: prune_deliveries_rows)

lemma faultless_batches: "fst (execPruneBatches (\<lambda>_. None) k label w rs) = filter (\<lambda>r. \<not> w r) rs"
proof -
  obtain kept n err where run: "execPruneBatches (\<lambda>_. None) k label w rs = (kept, n, err)" by (metis prod_cases3)
  then show ?thesis using execPruneBatches_result [OF run] by simp
qed

text \<open>What a cycle of retention leaves of the sessions when no statement fails.\<close>

lemma pruned_sessions:
  "agent_sessions (run_prune_jobs (\<lambda>_ _. None) now js d) =
     filter (\<lambda>s. \<not> (\<exists>j\<in>set js. \<not> pj_terminalOnly j \<and> 0 < pj_ttl j \<and> pj_table j = ''agent_sessions'' \<and> s_created_at s < now - pj_ttl j))
       (agent_sessions d)"
proof (induction js arbitrary: d)
  case (Cons j js)
  have "agent_sessions (run_prune_job (\<lambda>_ _. None) now j d) =
      (if \<not> pj_terminalOnly j \<and> 0 < pj_ttl j \<and> pj_table j = ''agent_sessions''
       then filter (\<lambda>s. \<not> s_created_at s < now - pj_ttl j) (agent_sessions d) else agent_sessions d)"
    by (auto simp: run_prune_job_def PruneTerminalDeliveries_def PruneOldRows_def case_prod_unfold faultless_batches)
  with Cons.IH [of "run_prune_job (\<lambda>_ _. None) now j d"] show ?case by (auto intro!: filter_cong)
qed simp

text \<open>
  C20. The batched deletion loop ends. Whatever goes wrong, it deletes only rows that match, and counts no
  more than it deleted; when it returns no error, and it returns none when nothing goes wrong, it equals one
  filter: exactly the matching rows are gone and each was counted once, however many batches it took.
\<close>

theorem prune_batches_delete_matching:
  "case execPruneBatches faults k label w rs of (kept, n, err) \<Rightarrow>
     filter (\<lambda>r. \<not> w r) kept = filter (\<lambda>r. \<not> w r) rs \<and> length kept + n \<le> length rs \<and>
     (err = None \<longrightarrow> kept = filter (\<lambda>r. \<not> w r) rs \<and> n = length (filter w rs)) \<and>
     ((\<forall>j. faults j = None) \<longrightarrow> err = None)"
proof (cases "execPruneBatches faults k label w rs")
  case (fields kept n err)
  from execPruneBatches_result [OF fields] sum_length_filter_compl [of w rs] show ?thesis by (auto simp: fields)
qed

theorem prune_batches_delete_matching_witness:
  "execPruneBatches (\<lambda>_. None) 0 ''t'' (\<lambda>r. r < 2) [0::nat, 1, 2] = ([2], 2, None) \<and>
   execPruneBatches (\<lambda>_. Some (CtxEnded (Errorf ''gone''))) 0 ''t'' (\<lambda>r. r < 2) [0::nat, 1, 2] = ([0, 1, 2], 0, Some (Errorf ''gone''))"
proof
  obtain kept n err where run: "execPruneBatches (\<lambda>_. None) 0 ''t'' (\<lambda>r. r < 2) [0::nat, 1, 2] = (kept, n, err)" by (metis prod_cases3)
  then show "execPruneBatches (\<lambda>_. None) 0 ''t'' (\<lambda>r. r < 2) [0::nat, 1, 2] = ([2], 2, None)"
    using prune_batches_delete_matching [where faults = "\<lambda>_. None" and k = 0 and label = "''t''" and w = "\<lambda>r. r < 2" and rs = "[0::nat, 1, 2]"] by simp
  show "execPruneBatches (\<lambda>_. Some (CtxEnded (Errorf ''gone''))) 0 ''t'' (\<lambda>r. r < 2) [0::nat, 1, 2] = ([0, 1, 2], 0, Some (Errorf ''gone''))"
    by (subst execPruneBatches.simps) (simp add: case_prod_unfold)
qed

end
