(* ===== verification/Chetter_Reaper.thy ===== *)
theory Chetter_Reaper
  imports Chetter_Heartbeat Chetter_Retention
begin

text \<open>
  The reaper of \<^verbatim>\<open>internal/service/service.go\<close> and \<^verbatim>\<open>ReapStaleTasks\<close> of
  \<^verbatim>\<open>internal/store/store.go\<close>: the steps of a reaper cycle, in the order
  \<^verbatim>\<open>New\<close> lists them. A step that fails is logged and leaves the database as it was; the next
  step runs on it.
\<close>

section \<open>ReapStaleTasks\<close>

text \<open>\<^verbatim>\<open>TIMESTAMPDIFF(SECOND, started_at, NOW())\<close>, which truncates toward zero.\<close>

definition seconds_between :: "time \<Rightarrow> time \<Rightarrow> int" where
  "seconds_between from until =
     (if from \<le> until then (until - from) div second else - ((from - until) div second))"

definition overran :: "time \<Rightarrow> int \<Rightarrow> execution_attempt \<Rightarrow> bool" where
  "overran dbnow grace a =
     (a_status a = ''running'' \<and>
      (case a_started_at a of None \<Rightarrow> False
       | Some s \<Rightarrow> seconds_between s dbnow > a_timeout_sec a + grace))"

definition reaperGrace :: int where
  "reaperGrace = 120"

definition ReapStaleTasks :: "time \<Rightarrow> time \<Rightarrow> int \<Rightarrow> db \<Rightarrow> db \<times> nat" where
  "ReapStaleTasks now dbnow grace d =
     (let d1 = fst (upd_attempts (overran dbnow grace)
            (\<lambda>a. a\<lparr>a_status := ''error'',
               a_error := Some (''runner timeout: execution ran for '' @
                 (case a_started_at a of None \<Rightarrow> [] | Some s \<Rightarrow> show_int (seconds_between s dbnow)) @
                 '' seconds (timeout was '' @ show_int (a_timeout_sec a) @ ''s)''),
               a_error_category := Some ''timeout'', a_ended_at := Some now, a_updated_at := now\<rparr>) d);
          q = (\<lambda>a. a_status a = ''error'' \<and> a_error_category a = Some ''timeout'' \<and> a_ended_at a = Some now)
      in upd_tasks (\<lambda>t. t_status t = ''running'' \<and> attempt_on_task d1 q t \<noteq> None)
           (\<lambda>t. case attempt_on_task d1 q t of None \<Rightarrow> t
            | Some a \<Rightarrow> t\<lparr>t_status := ''error'', t_error := a_error a, t_error_category := Some ''timeout'',
                t_ended_at := Some now, t_updated_at := now\<rparr>) d1)"

section \<open>Reclaiming one attempt\<close>

text \<open>The five identifiers drawn for a reclaimed attempt.\<close>

record reclaim_ids =
  ri_session :: "string option"
  ri_prompt :: "string option"
  ri_attempt :: "string option"
  ri_event :: "string option"
  ri_restart :: "string option"

record reaper_env =
  rv_now :: time
  rv_dbnow :: time
  rv_ids :: "execution_attempt \<Rightarrow> reclaim_ids"
  rv_auto_recovery :: bool

definition runnerIsDeliberatelyDrained :: "string \<Rightarrow> db \<Rightarrow> bool" where
  "runnerIsDeliberatelyDrained rid d =
     (rid \<noteq> [] \<and>
      (case find (\<lambda>r. r_id r = rid) (runners d) of None \<Rightarrow> False
       | Some r \<Rightarrow> r_status r = ''draining'' \<or> r_status r = ''stopping''))"

definition reclaim_error :: "int \<Rightarrow> string" where
  "reclaim_error n = ''runner lease expired after attempt '' @ show_int n"

text \<open>The session that replaces the abandoned one: its settings, but not its \<^verbatim>\<open>repos\<close>.\<close>

definition restarted_session :: "time \<Rightarrow> string \<Rightarrow> int \<Rightarrow> string \<Rightarrow> agent_session \<Rightarrow> agent_session" where
  "restarted_session now i sequence tid old =
     old\<lparr>s_id := i, s_task_id := tid, s_sequence := sequence, s_status := ''running'',
       s_search_text := nullString (join_with '' '' (strings_fields (i @ '' '' @ str_of (s_agent old) @ '' '' @
         str_of (s_model_id old) @ '' '' @ str_of (s_git_url old)))),
       s_repos := None, s_created_at := now, s_updated_at := now, s_started_at := Some now\<rparr>"

text \<open>The part that ends the lost execution and starts a fresh one.\<close>

definition reclaim_hierarchy ::
  "time \<Rightarrow> int \<Rightarrow> string \<Rightarrow> string \<Rightarrow> string \<Rightarrow> execution_attempt \<Rightarrow> task \<Rightarrow> agent_session \<Rightarrow> user_prompt \<Rightarrow>
   db \<Rightarrow> error + db" where
  "reclaim_hierarchy now n sid pid aid a t oldSession oldPrompt d =
     (let sequence = GetNextAgentSessionSequence (t_id t) d; err = nullString (reclaim_error n);
          (d1, rows) = MarkExecutionAttemptLost err (Some now) now (a_id a) d in
      bind_res (guard_res (rows = 1)
        (Errorf (''execution attempt '' @ a_id a @ '' is no longer running''))) (\<lambda>_.
      let (d2, rows2) = RequeueTaskAfterExecutionAttemptLost now (t_id t) d1 in
      bind_res (guard_res (rows2 = 1)
        (Errorf (''task '' @ t_id t @ '' is no longer running execution attempt '' @ a_id a))) (\<lambda>_.
      let d3 = fst (AbandonUserPrompt err (Some now) now (p_id oldPrompt) d2);
          d4 = fst (AbandonAgentSession err (Some now) now (s_id oldSession) d3) in
      bind_res (wrap_err ''insert reclaimed task session''
        (InsertAgentSession (restarted_session now sid sequence (t_id t) oldSession) d4)) (\<lambda>d5.
      bind_res (wrap_err ''insert reclaimed task prompt''
        (InsertUserPrompt pid sid (t_id t) 1 ''pending'' (p_prompt oldPrompt) None now now d5)) (\<lambda>d6.
      wrap_err ''insert reclaimed execution attempt''
        (InsertPendingExecutionAttempt aid pid 1 None (a_timeout_sec a) now now d6))))))"

definition reaper_event ::
  "time \<Rightarrow> string \<Rightarrow> task \<Rightarrow> string \<Rightarrow> string \<Rightarrow> string \<Rightarrow> string \<Rightarrow> string \<Rightarrow> payload \<Rightarrow> task_event" where
  "reaper_event now i t sid pid aid ty summary pay =
     \<lparr>e_id = i, e_task_id = t_id t, e_subject = ''control.reaper.'' @ t_id t, e_status = ''pending'',
      e_payload = pay, e_created_at = now, e_agent_session_id = nullString sid,
      e_user_prompt_id = nullString pid, e_execution_attempt_id = nullString aid, e_event_type = ty\<rparr>"

definition reaper_ctx :: "time \<Rightarrow> string \<Rightarrow> task \<Rightarrow> string \<Rightarrow> string \<Rightarrow> payload \<Rightarrow> callback_event" where
  "reaper_ctx now i t ty summary pay =
     \<lparr>ev_id = i, ev_task_id = t_id t, ev_team_id = str_of (t_team_id t),
      ev_subject = ''control.reaper.'' @ t_id t, ev_status = ''pending'', ev_event_type = ty,
      ev_summary = summary, ev_error = [], ev_error_category = [], ev_payload = pay, ev_created_at = now\<rparr>"

definition reclaim_events ::
  "time \<Rightarrow> dispatcher \<Rightarrow> int \<Rightarrow> reclaim_ids \<Rightarrow> string \<Rightarrow> string \<Rightarrow> execution_attempt \<Rightarrow> task \<Rightarrow>
   agent_session \<Rightarrow> user_prompt \<Rightarrow> db \<Rightarrow> error + db" where
  "reclaim_events now cbs n ids sid pid a t oldSession oldPrompt d =
     bind_res (from_option generate_id_err (ri_event ids)) (\<lambda>eventID.
     let summary = ''Runner lease expired after attempt '' @ show_int n @
           ''; task reclaimed for a fresh execution'';
         pay = JsonObject [(''task_id'', JStr (t_id t)), (''runner_id'', JStr (str_of (a_runner_id a))),
           (''execution_id'', JStr (a_id a)), (''attempt'', JNum n),
           (''lease_expires_at'', JTime (a_lease_expires_at a)), (''status'', JStr ''pending''),
           (''summary'', JStr summary)] in
     bind_res (InsertTaskEvent (reaper_event now eventID t (s_id oldSession) (p_id oldPrompt) (a_id a)
       ''task.reclaimed'' summary pay) d) (\<lambda>d1.
     bind_res (dispatch cbs (reaper_ctx now eventID t ''task.reclaimed'' summary pay) d1) (\<lambda>d2.
     bind_res (from_option generate_id_err (ri_restart ids)) (\<lambda>restartID.
     let summary2 = ''Started agent session '' @ sid @ '' after '' @ s_id oldSession @ '' was abandoned'';
         pay2 = JsonObject [(''task_id'', JStr (t_id t)), (''old_agent_session_id'', JStr (s_id oldSession)),
           (''new_agent_session_id'', JStr sid), (''old_user_prompt_id'', JStr (p_id oldPrompt)),
           (''new_user_prompt_id'', JStr pid), (''execution_id'', JStr (a_id a)),
           (''reason'', JStr ''lease_expired''), (''status'', JStr ''pending''),
           (''summary'', JStr summary2)] in
     bind_res (InsertTaskEvent (reaper_event now restartID t sid pid [] ''task.session_restarted''
       summary2 pay2) d2) (\<lambda>d3.
     dispatch cbs (reaper_ctx now restartID t ''task.session_restarted'' summary2 pay2) d3)))))"

text \<open>One candidate of the loop: whether it was reclaimed, and the database.\<close>

definition reclaim_one ::
  "reaper_env \<Rightarrow> dispatcher \<Rightarrow> execution_attempt \<times> user_prompt \<times> task \<Rightarrow> bool tx" where
  "reclaim_one env cbs = (\<lambda>(a, p, t) d.
     let now = rv_now env; count = CountExecutionAttemptsByTask (t_id t) d; n = to_int32 count;
         ids = rv_ids env a in
     if count \<ge> t_max_attempts t then Inr (False, d)
     else if runnerIsDeliberatelyDrained (str_of (a_runner_id a)) d then Inr (False, d)
     else
       bind_res (wrap_err ''get reclaimed task session'' (GetAgentSessionByTaskID (t_id t) d)) (\<lambda>oldSession.
       bind_res (wrap_err ''get reclaimed task prompt'' (GetUserPromptByTaskID (t_id t) d)) (\<lambda>oldPrompt.
       bind_res (from_option generate_id_err (ri_session ids)) (\<lambda>sid.
       bind_res (from_option generate_id_err (ri_prompt ids)) (\<lambda>pid.
       bind_res (from_option generate_id_err (ri_attempt ids)) (\<lambda>aid.
       bind_res (reclaim_hierarchy now n sid pid aid a t oldSession oldPrompt d) (\<lambda>d1.
       bind_res (reclaim_events now cbs n ids sid pid a t oldSession oldPrompt d1) (\<lambda>d2.
       Inr (True, d2)))))))))"

fun reclaim_all ::
  "reaper_env \<Rightarrow> dispatcher \<Rightarrow> (execution_attempt \<times> user_prompt \<times> task) list \<Rightarrow> nat tx" where
  "reclaim_all env cbs [] d = Inr (0, d)"
| "reclaim_all env cbs (c # cs) d =
     bind_res (reclaim_one env cbs c d) (\<lambda>(r, d1).
     bind_res (reclaim_all env cbs cs d1) (\<lambda>(m, d2). Inr ((if r then Suc m else m), d2)))"

section \<open>The steps\<close>

text \<open>The transaction of \<^verbatim>\<open>reapExpiredLeases\<close>: reclaimed attempts and failed tasks.\<close>

definition lease_candidates :: "reaper_env \<Rightarrow> db \<Rightarrow> (execution_attempt \<times> user_prompt \<times> task) list" where
  "lease_candidates env d =
     (if rv_auto_recovery env then ListReclaimableExecutionAttemptsForUpdate (rv_now env) d else [])"

definition fail_expired_attempts :: "reaper_env \<Rightarrow> db \<Rightarrow> db" where
  "fail_expired_attempts env d =
     (if rv_auto_recovery env then fst (FailExpiredExecutionAttempts (Some (rv_now env)) (rv_now env) (rv_now env) d)
      else fst (FailAllExpiredExecutionAttempts (Some (rv_now env)) (rv_now env) (rv_now env) d))"

definition reap_leases_tx :: "reaper_env \<Rightarrow> dispatcher \<Rightarrow> (nat \<times> nat) tx" where
  "reap_leases_tx env cbs d =
     bind_res (reclaim_all env cbs (lease_candidates env d) d) (\<lambda>(reclaimed, d1).
       let (d2, failed) = FailExpiredLeases (Some (rv_now env)) (rv_now env) (rv_now env)
             (fail_expired_attempts env d1)
       in Inr ((reclaimed, failed), d2))"

definition reapExpiredLeases :: "reaper_env \<Rightarrow> dispatcher \<Rightarrow> db \<Rightarrow> db" where
  "reapExpiredLeases env cbs d =
     (case reap_leases_tx env cbs d of
        Inl _ \<Rightarrow> d
      | Inr ((reclaimed, failed), d') \<Rightarrow> if reclaimed > 0 then bumpClaimNotifyCounter d' else d')"

definition runnerPresenceMaxSec :: int where
  "runnerPresenceMaxSec = 60"

definition reapUnavailablePinnedResumeTasks :: "reaper_env \<Rightarrow> db \<Rightarrow> db" where
  "reapUnavailablePinnedResumeTasks env d =
     (let now = rv_now env;
          d1 = fst (FailPendingExecutionAttemptsForMissingRunner (rv_dbnow env) (Some now) now runnerPresenceMaxSec d);
          d2 = fst (FailPendingResumeTasksForMissingRunner (Some now) now d1);
          d3 = fst (FailPendingUserPromptsForUnavailableRunner (Some now) now d2)
      in fst (MarkResumingSessionsFailedForUnavailableRunner (Some now) now d3))"

definition reapIsolationUnavailableTasks :: "reaper_env \<Rightarrow> db \<Rightarrow> db" where
  "reapIsolationUnavailableTasks env d =
     (let now = rv_now env;
          d1 = fst (FailPendingIsolationAttemptsWithoutCapableRunner (rv_dbnow env) (Some now) now runnerPresenceMaxSec d)
      in fst (FailPendingIsolationTasks (Some now) now d1))"

definition reapStaleTasks :: "reaper_env \<Rightarrow> db \<Rightarrow> db" where
  "reapStaleTasks env d = fst (ReapStaleTasks (rv_now env) (rv_dbnow env) reaperGrace d)"

definition reapStaleUserPrompts :: "reaper_env \<Rightarrow> db \<Rightarrow> db" where
  "reapStaleUserPrompts env d =
     fst (ReapStaleSessionsForTerminalRuns (rv_dbnow env)
       (fst (RevertOrphanedRunningUserPrompts (rv_dbnow env)
         (fst (ReapStaleUserPrompts (rv_dbnow env) d)))))"

definition reapExpiredSessions :: "reaper_env \<Rightarrow> db \<Rightarrow> db" where
  "reapExpiredSessions env d = fst (ExpirePausedSessions (Some (rv_now env)) (rv_now env) (rv_now env) d)"

text \<open>
  A cycle up to the retention jobs. (\<^verbatim>\<open>pruneRetainedRows\<close> follows, then a database ping and
  the clean-up of the heartbeat cache, which touch nothing here.)
\<close>

definition reaper_cycle :: "reaper_env \<Rightarrow> dispatcher \<Rightarrow> bool \<Rightarrow> int \<Rightarrow> db \<Rightarrow> db" where
  "reaper_cycle env cbs artifact_gc ttl d =
     (let d1 = reapStaleTasks env d;
          d2 = reapExpiredLeases env cbs d1;
          d3 = reapStaleUserPrompts env d2;
          d4 = reapUnavailablePinnedResumeTasks env d3;
          d5 = reapIsolationUnavailableTasks env d4;
          d6 = reapExpiredSessions env d5;
          d7 = reapExpiredSessionArtifacts artifact_gc (rv_dbnow env) ttl d6
      in fst (reapStaleRunnerDrains (rv_now env) drainRequestDeadRunnerGrace d7))"

definition runReaperCycle ::
  "reaper_env \<Rightarrow> dispatcher \<Rightarrow> bool \<Rightarrow> int \<Rightarrow> prune_faults \<Rightarrow> retention_config \<Rightarrow> db \<Rightarrow> db" where
  "runReaperCycle env cbs artifact_gc ttl faults cfg d =
     pruneRetainedRows faults (rv_now env) cfg (reaper_cycle env cbs artifact_gc ttl d)"

section \<open>Every step advances the database\<close>

lemma good_ReapStaleTasks: "good_update d (reapStaleTasks env d)"
proof -
  let ?u = "upd_attempts (overran (rv_dbnow env) reaperGrace)
            (\<lambda>a. a\<lparr>a_status := ''error'',
               a_error := Some (''runner timeout: execution ran for '' @
                 (case a_started_at a of None \<Rightarrow> [] | Some s \<Rightarrow> show_int (seconds_between s (rv_dbnow env))) @
                 '' seconds (timeout was '' @ show_int (a_timeout_sec a) @ ''s)''),
               a_error_category := Some ''timeout'', a_ended_at := Some (rv_now env), a_updated_at := rv_now env\<rparr>) d"
  have "good_update d (fst ?u)"
    by (rule good_upd_attempts, rule attempt_laterI)
      (simp_all add: fixed_defs overran_def active_attempt_def)
  also have "good_update (fst ?u) (reapStaleTasks env d)"
    unfolding reapStaleTasks_def ReapStaleTasks_def Let_def
    by (rule good_upd_tasks) (simp add: fixed_defs split: option.splits)
  finally show ?thesis .
qed

lemma reclaim_hierarchy_advances:
  assumes "reclaim_hierarchy now n sid pid aid a t oldSession oldPrompt d = Inr d'"
    and "oldSession \<in> set (agent_sessions d)" "s_task_id oldSession = t_id t"
  shows "advances d d'"
proof -
  let ?err = "nullString (reclaim_error n)"
  let ?r1 = "MarkExecutionAttemptLost ?err (Some now) now (a_id a) d"
  let ?r2 = "RequeueTaskAfterExecutionAttemptLost now (t_id t) (fst ?r1)"
  let ?d4 = "fst (AbandonAgentSession ?err (Some now) now (s_id oldSession)
     (fst (AbandonUserPrompt ?err (Some now) now (p_id oldPrompt) (fst ?r2))))"
  let ?s = "restarted_session now sid (GetNextAgentSessionSequence (t_id t) d) (t_id t) oldSession"
  from assms(1) obtain d5 d6 where ins: "InsertAgentSession ?s ?d4 = Inr d5"
      "InsertUserPrompt pid sid (t_id t) 1 ''pending'' (p_prompt oldPrompt) None now now d5 = Inr d6"
      "InsertPendingExecutionAttempt aid pid 1 None (a_timeout_sec a) now now d6 = Inr d'"
    and rows: "snd ?r2 = 1"
    by (auto simp: reclaim_hierarchy_def Let_def case_prod_unfold)
  have "good_update d (fst ?r1)" by (rule keep_intros)
  also have "good_update (fst ?r1) (fst ?r2)" by (rule keep_intros)
  also have "good_update (fst ?r2) ?d4" by (rule good_update_trans) (rule keep_intros)+
  finally have good: "good_update d ?d4" .
  have "t_id t \<in> t_id ` set (tasks (fst ?r1))"
    using rows by (auto simp: RequeueTaskAfterLost_upd upd_tasks_def sql_affected_def length_Suc_conv
        filter_eq_Cons_iff)
  then have "t_id t \<in> t_id ` set (tasks d)"
    by (simp add: MarkExecutionAttemptLost_def upd_attempts_def)
  with good have "t_id t \<in> t_id ` set (tasks ?d4)"
    using later_keys(1) [of d ?d4] by (auto simp: good_update_def)
  moreover have "session_fits ?s ?d4" if "wf_db ?d4"
  proof -
    have "wf_db d" using that good_update_wf [OF good] by simp
    then have "session_fits ?s d"
      using assms(2,3) by (intro fits_successor [of d oldSession]) (simp_all add: restarted_session_def)
    then show ?thesis by (simp only: fits_update [OF good])
  qed
  ultimately have "advances ?d4 d'"
    using ins by (intro advances_new_execution [of ?s]) (simp_all add: restarted_session_def)
  with good_advances [OF good] show ?thesis by (rule advances_trans)
qed

context callback_dispatcher
begin

lemma dispatch_good: "dispatch cbs ev d = Inr d' \<Longrightarrow> good_update d d'"
  using dispatch_keeps [of ev d d'] by (intro good_other_tables) auto

lemma reclaim_events_good:
  assumes "reclaim_events now cbs n ids sid pid a t oldSession oldPrompt d = Inr d'"
  shows "good_update d d'"
  using assms unfolding reclaim_events_def Let_def bind_res_Inr_iff
  by (elim exE conjE)
    (rule good_update_trans [OF good_update_trans [OF good_update_trans]],
     (erule good_inserts_other(1) dispatch_good)+)

lemma reclaim_one_advances:
  assumes "reclaim_one env cbs c d = Inr (r, d')"
  shows "advances d d'"
proof -
  obtain a p t where c: "c = (a, p, t)" by (cases c)
  show ?thesis
  proof (cases r)
    case False
    then show ?thesis using assms by (auto simp: reclaim_one_def c Let_def split: if_splits)
  next
    case True
    with assms obtain n sid pid aid oldSession oldPrompt d1 where
      old: "GetAgentSessionByTaskID (t_id t) d = Inr oldSession" and
      h: "reclaim_hierarchy (rv_now env) n sid pid aid a t oldSession oldPrompt d = Inr d1" and
      e: "reclaim_events (rv_now env) cbs n (rv_ids env a) sid pid a t oldSession oldPrompt d1 = Inr d'"
      by (auto simp: reclaim_one_def c Let_def split: if_splits)
    have "advances d d1"
      using latest_session_in [OF old] by (intro reclaim_hierarchy_advances [OF h]) auto
    then show ?thesis by (rule advances_trans [OF _ good_advances [OF reclaim_events_good [OF e]]])
  qed
qed

lemma reclaim_all_advances: "reclaim_all env cbs cs d = Inr (m, d') \<Longrightarrow> advances d d'"
proof (induction cs arbitrary: d m)
  case (Cons c cs)
  then obtain r d1 k where "reclaim_one env cbs c d = Inr (r, d1)" and "reclaim_all env cbs cs d1 = Inr (k, d')"
    by auto
  then show ?case using Cons.IH reclaim_one_advances by (blast intro: advances_trans)
qed simp

lemma reapExpiredLeases_advances: "advances d (reapExpiredLeases env cbs d)"
proof (cases "reap_leases_tx env cbs d")
  case (Inl e)
  then show ?thesis by (simp add: reapExpiredLeases_def)
next
  case (Inr r)
  obtain m f d' where r: "r = ((m, f), d')" by (cases r) auto
  with Inr obtain d1 where all: "reclaim_all env cbs (lease_candidates env d) d = Inr (m, d1)"
    and d': "d' = fst (FailExpiredLeases (Some (rv_now env)) (rv_now env) (rv_now env) (fail_expired_attempts env d1))"
    by (auto simp: reap_leases_tx_def case_prod_unfold Let_def)
  let ?d2 = "fail_expired_attempts env d1"
  have "advances d d1" using all by (rule reclaim_all_advances)
  also have "advances d1 ?d2"
    unfolding fail_expired_attempts_def by (auto intro!: good_advances good_attempt_updates)
  also have "advances ?d2 d'" unfolding d' by (intro good_advances good_task_updates)
  also have "advances d' (reapExpiredLeases env cbs d)"
    unfolding reapExpiredLeases_def Inr r
    by (auto simp: bumpClaimNotifyCounter_def intro!: good_advances good_other_tables)
  finally show ?thesis .
qed

lemma reaper_cycle_advances: "advances d (reaper_cycle env cbs gc ttl d)"
proof -
  let ?d1 = "reapStaleTasks env d"
  let ?d2 = "reapExpiredLeases env cbs ?d1"
  let ?d3 = "reapStaleUserPrompts env ?d2"
  let ?d4 = "reapUnavailablePinnedResumeTasks env ?d3"
  let ?d5 = "reapIsolationUnavailableTasks env ?d4"
  let ?d6 = "reapExpiredSessions env ?d5"
  let ?d7 = "reapExpiredSessionArtifacts gc (rv_dbnow env) ttl ?d6"
  have "advances d ?d1" by (rule good_advances [OF good_ReapStaleTasks])
  also have "advances ?d1 ?d2" by (rule reapExpiredLeases_advances)
  also have "advances ?d2 ?d3"
    unfolding reapStaleUserPrompts_def
    by (rule good_advances [OF good_update_trans [OF good_update_trans [OF good_prompt_updates(5)
          good_prompt_updates(6)] good_session_updates(8)]])
  also have "advances ?d3 ?d4"
    unfolding reapUnavailablePinnedResumeTasks_def Let_def
    by (rule good_advances [OF good_update_trans [OF good_update_trans [OF good_update_trans
          [OF good_attempt_updates(6) good_task_updates(9)] good_prompt_updates(4)] good_session_updates(7)]])
  also have "advances ?d4 ?d5"
    unfolding reapIsolationUnavailableTasks_def Let_def
    by (rule good_advances [OF good_update_trans [OF good_attempt_updates(7) good_task_updates(8)]])
  also have "advances ?d5 ?d6"
    unfolding reapExpiredSessions_def by (intro good_advances good_session_updates)
  also have "advances ?d6 ?d7" by (rule good_advances [OF good_artifacts])
  also have "advances ?d7 (reaper_cycle env cbs gc ttl d)"
    unfolding reaper_cycle_def Let_def reapStaleRunnerDrains_def
    by (rule good_advances, rule good_other_tables) simp_all
  finally show ?thesis .
qed

end

section \<open>A recovered task\<close>

lemma in_upd_tasks: "t \<in> set (tasks d) \<Longrightarrow> w t \<Longrightarrow> f t \<in> set (tasks (fst (upd_tasks w f d)))"
  by (auto simp: upd_tasks_def sql_update_def)

text \<open>
  The lease reaper fails a task that has been recovered: an old attempt that ended with a timeout
  still matches the statement, so a running task is marked failed although another of its attempts
  runs under a live lease.
\<close>

theorem recovered_task_is_failed_by_reaper:
  assumes "lease_candidates env d = []"
    and "t \<in> set (tasks d)" and "t_status t = ''running''"
    and "a \<in> set (execution_attempts d)" and "on_task d (t_id t) a" and "expired_failure (rv_now env) a"
    and "b \<in> set (execution_attempts d)" and "on_task d (t_id t) b" and "a_status b = ''running''" and "lease_live (rv_now env) b"
  shows "(\<exists>t'\<in>set (tasks (reapExpiredLeases env cbs d)). t_id t' = t_id t \<and> t_status t' = ''error'') \<and>
    b \<in> set (execution_attempts (reapExpiredLeases env cbs d))"
proof
  let ?d1 = "fail_expired_attempts env d"
  have keep: "x \<in> set (execution_attempts ?d1)" if "x \<in> set (execution_attempts d)"
    "a_status x \<noteq> ''running'' \<or> \<not> lease_expired (rv_now env) x" for x
    using that by (auto simp: fail_expired_attempts_def FailExpiredExecutionAttempts_def FailAllExpiredExecutionAttempts_def
        upd_attempts_def in_sql_update_iff intro!: bexI [of _ x])
  have same: "tasks ?d1 = tasks d" "on_task ?d1 = on_task d"
    by (auto simp: fail_expired_attempts_def FailExpiredExecutionAttempts_def FailAllExpiredExecutionAttempts_def
        upd_attempts_def on_task_def [abs_def])
  have run: "reapExpiredLeases env cbs d = fst (FailExpiredLeases (Some (rv_now env)) (rv_now env) (rv_now env) ?d1)"
    by (simp add: reapExpiredLeases_def reap_leases_tx_def assms(1) case_prod_unfold Let_def)
  have a: "a \<in> set (execution_attempts ?d1)" using assms(4,6) by (intro keep) (auto simp: expired_failure_def)
  then have hit: "attempt_on_task ?d1 (expired_failure (rv_now env)) t \<noteq> None"
    using assms(5,6) same by (auto simp: attempt_on_task_def find_None_iff)
  then obtain x where x: "attempt_on_task ?d1 (expired_failure (rv_now env)) t = Some x" by blast
  have "\<exists>y. y \<in> set (tasks (reapExpiredLeases env cbs d)) \<and> t_id y = t_id t \<and> t_status y = ''error''"
    unfolding run FailExpiredLeases_def by (rule exI, rule conjI, rule in_upd_tasks [of t]) (simp_all add: assms(2,3) same x)
  then show "\<exists>t'\<in>set (tasks (reapExpiredLeases env cbs d)). t_id t' = t_id t \<and> t_status t' = ''error''" by blast
  show "b \<in> set (execution_attempts (reapExpiredLeases env cbs d))"
    unfolding run using assms(7,9,10) keep [of b]
    by (auto simp: FailExpiredLeases_def upd_tasks_def lease_live_def lease_expired_def split: option.split_asm)
qed

text \<open>The task of the example, running its second attempt after the first one timed out.\<close>

definition ex_recovered_db :: db where
  "ex_recovered_db = ex_running_db\<lparr>execution_attempts := [ex_attempt\<lparr>a_id := ''x0'', a_status := ''error'',
     a_error_category := Some ''timeout'', a_lease_expires_at := Some (20 * second)\<rparr>, ex_running_attempt]\<rparr>"

definition ex_reaper_env :: reaper_env where
  "ex_reaper_env = \<lparr>rv_now = 50 * second, rv_dbnow = 50 * second,
     rv_ids = (\<lambda>_. \<lparr>ri_session = Some ''s2'', ri_prompt = Some ''p2'', ri_attempt = Some ''x2'', ri_event = Some ''e2'',
       ri_restart = Some ''e3''\<rparr>), rv_auto_recovery = True\<rparr>"

theorem recovered_task_is_failed_by_reaper_witness:
  "(\<exists>t'\<in>set (tasks (reapExpiredLeases ex_reaper_env None ex_recovered_db)). t_id t' = ''t1'' \<and> t_status t' = ''error'') \<and>
   ex_running_attempt \<in> set (execution_attempts (reapExpiredLeases ex_reaper_env None ex_recovered_db))"
proof -
  let ?t = "ex_task\<lparr>t_status := ''running''\<rparr>" and ?a = "ex_attempt\<lparr>a_id := ''x0'', a_status := ''error'',
     a_error_category := Some ''timeout'', a_lease_expires_at := Some (20 * second)\<rparr>"
  have c: "lease_candidates ex_reaper_env ex_recovered_db = []" by code_simp
  have m: "?t \<in> set (tasks ex_recovered_db)" "?a \<in> set (execution_attempts ex_recovered_db)"
      "ex_running_attempt \<in> set (execution_attempts ex_recovered_db)"
    by (simp_all add: ex_recovered_db_def ex_running_db_def)
  have o: "on_task ex_recovered_db (t_id ?t) ?a" "expired_failure (rv_now ex_reaper_env) ?a"
      "on_task ex_recovered_db (t_id ?t) ex_running_attempt" "a_status ex_running_attempt = ''running''"
      "lease_live (rv_now ex_reaper_env) ex_running_attempt" "t_status ?t = ''running''" "t_id ?t = ''t1''"
    by code_simp+
  from recovered_task_is_failed_by_reaper [OF c m(1) o(6) m(2) o(1,2) m(3) o(3,4,5)] o(7) show ?thesis by simp
qed


end
