(* ===== verification/Chetter_Repos.thy ===== *)
theory Chetter_Repos
  imports Chetter_Store
begin

text \<open>
  The repository set of a task and where its checkouts go: \<^verbatim>\<open>internal/store/repos.go\<close>,
  the merging functions of \<^verbatim>\<open>internal/service/service.go\<close> and
  \<^verbatim>\<open>tools.go\<close>, the workspace layout of \<^verbatim>\<open>internal/githubrepo/layout.go\<close>, and the
  image references of \<^verbatim>\<open>internal/service/agent_image.go\<close>. The lemmas show that a normalized
  set has one primary repository, at its head, no two equal URLs, and is its own normal form; and
  that the checkouts of the secondary repositories get pairwise distinct directories whose names
  are single, harmless path segments.
\<close>

section \<open>Repository sets (store/repos.go)\<close>

text \<open>The state of the loop of \<^verbatim>\<open>NormalizeRepoRefs\<close>; \<open>primaryIndex < 0\<close> is \<open>None\<close>.\<close>

record norm_state =
  seen :: "string list"
  deduped :: "repo_ref list"
  primaryIndex :: "nat option"

definition trim_ref :: "repo_ref \<Rightarrow> repo_ref" where
  "trim_ref ref = ref\<lparr>URL := trim_space (URL ref), Ref := trim_space (Ref ref)\<rparr>"

definition norm_step :: "repo_ref \<Rightarrow> norm_state \<Rightarrow> norm_state" where
  "norm_step ref0 st =
     (let ref = trim_ref ref0; key = to_lower (URL ref) in
      if URL ref = [] then st
      else if key \<in> set (seen st) then st
      else \<lparr>seen = key # seen st, deduped = deduped st @ [ref],
            primaryIndex = (if Primary ref \<and> primaryIndex st = None
                            then Some (length (deduped st)) else primaryIndex st)\<rparr>)"

definition norm_loop :: "repo_ref list \<Rightarrow> norm_state" where
  "norm_loop refs = fold norm_step refs \<lparr>seen = [], deduped = [], primaryIndex = None\<rparr>"

definition secondary :: "repo_ref \<Rightarrow> repo_ref" where
  "secondary ref = \<lparr>URL = URL ref, Ref = Ref ref, Primary = False\<rparr>"

definition order_refs :: "nat \<Rightarrow> repo_ref list \<Rightarrow> repo_ref list" where
  "order_refs i refs =
     \<lparr>URL = URL (refs ! i), Ref = Ref (refs ! i), Primary = True\<rparr> #
     map secondary (take i refs @ drop (Suc i) refs)"

definition NormalizeRepoRefs :: "repo_ref list \<Rightarrow> repo_ref list" where
  "NormalizeRepoRefs refs =
     (let st = norm_loop refs in
      if deduped st = [] then []
      else order_refs (case primaryIndex st of None \<Rightarrow> 0 | Some i \<Rightarrow> i) (deduped st))"

definition PrimaryRepoRef :: "repo_ref list \<Rightarrow> repo_ref option" where
  "PrimaryRepoRef refs =
     (case refs of [] \<Rightarrow> None | ref # _ \<Rightarrow> if URL ref = [] then None else Some ref)"

text \<open>
  The stored column: nothing for an empty set, else the normalized set. (The JSON text and its
  decoding are the identity on sets; text that does not decode is nothing.)
\<close>

definition MarshalRepoRefs :: "repo_ref list \<Rightarrow> repo_ref list option" where
  "MarshalRepoRefs refs = (let n = NormalizeRepoRefs refs in if n = [] then None else Some n)"

definition UnmarshalRepoRefs :: "repo_ref list option \<Rightarrow> repo_ref list" where
  "UnmarshalRepoRefs raw = (case raw of None \<Rightarrow> [] | Some refs \<Rightarrow> NormalizeRepoRefs refs)"

section \<open>Merging with the single-repository fields\<close>

definition normalizeSubmitRepoRefs :: "repo_ref list \<Rightarrow> string \<Rightarrow> string \<Rightarrow> repo_ref list" where
  "normalizeSubmitRepoRefs repos gitURL0 gitRef =
     (let gitURL = trim_space gitURL0; legacy = \<lparr>URL = gitURL, Ref = gitRef, Primary = True\<rparr> in
      if repos = [] then (if gitURL = [] then [] else NormalizeRepoRefs [legacy])
      else if gitURL \<noteq> [] \<and> \<not> list_ex (\<lambda>ref. equal_fold (trim_space (URL ref)) gitURL) repos
      then NormalizeRepoRefs (legacy # repos)
      else NormalizeRepoRefs repos)"

definition taskRepoRefs :: "task \<Rightarrow> agent_session \<Rightarrow> repo_ref list" where
  "taskRepoRefs t s =
     (let refs = UnmarshalRepoRefs (t_repos t);
          refs' = (if refs = [] then UnmarshalRepoRefs (s_repos s) else refs) in
      if refs' = [] \<and> str_of (t_git_url t) \<noteq> []
      then NormalizeRepoRefs [\<lparr>URL = str_of (t_git_url t), Ref = str_of (t_git_ref t), Primary = True\<rparr>]
      else refs')"

definition sessionRepoRefs :: "agent_session \<Rightarrow> repo_ref list" where
  "sessionRepoRefs s =
     (let refs = UnmarshalRepoRefs (s_repos s) in
      if refs = [] \<and> str_of (s_git_url s) \<noteq> []
      then NormalizeRepoRefs [\<lparr>URL = str_of (s_git_url s), Ref = str_of (s_git_ref s), Primary = True\<rparr>]
      else refs)"

section \<open>Checkout directories (githubrepo/layout.go)\<close>

text \<open>\<^verbatim>\<open>strings.Trim\<close>, \<^verbatim>\<open>TrimRight\<close> and \<^verbatim>\<open>TrimSuffix\<close>.\<close>

definition trim_right_set :: "char list \<Rightarrow> string \<Rightarrow> string" where
  "trim_right_set cs s = rev (dropWhile (\<lambda>c. c \<in> set cs) (rev s))"

definition trim_set :: "char list \<Rightarrow> string \<Rightarrow> string" where
  "trim_set cs s = trim_right_set cs (dropWhile (\<lambda>c. c \<in> set cs) s)"

definition trim_suffix :: "string \<Rightarrow> string \<Rightarrow> string" where
  "trim_suffix suf s = (if suffix suf s then take (length s - length suf) s else s)"

text \<open>The text after the first occurrence of a separator, if there is one.\<close>

fun after_first :: "string \<Rightarrow> string \<Rightarrow> string option" where
  "after_first sep [] = (if sep = [] then Some [] else None)"
| "after_first sep (c # cs) =
     (if prefix sep (c # cs) then Some (drop (length sep) (c # cs)) else after_first sep cs)"

text \<open>The text after the last character of a set, and after the first one.\<close>

definition after_last_of :: "char list \<Rightarrow> string \<Rightarrow> string option" where
  "after_last_of cs s =
     (if list_ex (\<lambda>c. c \<in> set cs) s then Some (rev (takeWhile (\<lambda>c. c \<notin> set cs) (rev s))) else None)"

definition after_first_of :: "char list \<Rightarrow> string \<Rightarrow> string option" where
  "after_first_of cs s =
     (if list_ex (\<lambda>c. c \<in> set cs) s then Some (tl (dropWhile (\<lambda>c. c \<notin> set cs) s)) else None)"

definition or_else :: "'a option \<Rightarrow> 'a \<Rightarrow> 'a" where
  "or_else x y = (case x of None \<Rightarrow> y | Some v \<Rightarrow> v)"

definition segment_char :: "char \<Rightarrow> bool" where
  "segment_char c =
     (let n = (of_char c :: nat) in
      (97 \<le> n \<and> n \<le> 122) \<or> (48 \<le> n \<and> n \<le> 57) \<or> c \<in> set ''._-'')"

definition segment_map :: "char \<Rightarrow> string" where
  "segment_map c = (if segment_char c then [c] else if is_space c then ''-'' else [])"

definition sanitizeSegment :: "string \<Rightarrow> string" where
  "sanitizeSegment value = trim_set ''.-'' (concat (map segment_map (to_lower (trim_space value))))"

definition RepoSlug :: "string \<Rightarrow> string" where
  "RepoSlug raw =
     (let v1 = trim_suffix ''.git'' (trim_right_set ''/'' (trim_space raw));
          v2 = or_else (after_first ''://'' v1) v1;
          v3 = (case after_last_of ''@'' v2 of None \<Rightarrow> v2
                | Some rest \<Rightarrow> if list_ex (\<lambda>c. c \<in> set ''/:'') rest then rest else v2);
          v4 = or_else (after_first_of ''/:'' v3) v3;
          v5 = or_else (after_last_of ''/:'' v4) v4;
          slug = sanitizeSegment v5
      in if slug = [] then ''repo'' else slug)"

text \<open>
  The numbered candidates of a base name, tried until one is free. Only finitely many of them can
  be taken, because the numbers are written in decimal.
\<close>

definition numbered :: "string \<Rightarrow> nat \<Rightarrow> string" where
  "numbered base n = base @ ''-'' @ show_nat n"

lemma numbered_inject [simp]: "numbered base m = numbered base n \<longleftrightarrow> m = n"
  by (simp add: numbered_def)

lemma finite_taken: "finite {m. numbered base m \<in> set used}"
proof (rule finite_imageD)
  show "finite (numbered base ` {m. numbered base m \<in> set used})"
    by (rule finite_subset [of _ "set used"]) auto
  show "inj_on (numbered base) {m. numbered base m \<in> set used}" by (simp add: inj_on_def)
qed

function free_candidate :: "string list \<Rightarrow> string \<Rightarrow> nat \<Rightarrow> string" where
  "free_candidate used base n =
     (if numbered base n \<in> set used then free_candidate used base (Suc n) else numbered base n)"
  by pat_completeness auto
termination
proof (relation "measure (\<lambda>(used, base, n). card {m. n \<le> m \<and> numbered base m \<in> set used})")
  show "wf (measure (\<lambda>(used, base, n). card {m. n \<le> m \<and> numbered base m \<in> set used}))"
    by simp
next
  fix used base n
  assume taken: "numbered base n \<in> set used"
  let ?A = "\<lambda>k. {m. k \<le> m \<and> numbered base m \<in> set used}"
  have "?A (Suc n) \<subseteq> ?A n" by auto
  moreover have "?A (Suc n) \<noteq> ?A n"
  proof
    assume "?A (Suc n) = ?A n"
    moreover have "n \<in> ?A n" using taken by simp
    ultimately have "n \<in> ?A (Suc n)" by (simp only:)
    then show False by simp
  qed
  ultimately have "?A (Suc n) \<subset> ?A n" by (rule psubsetI)
  then show "((used, base, Suc n), used, base, n) \<in>
      measure (\<lambda>(used, base, n). card {m. n \<le> m \<and> numbered base m \<in> set used})"
    using finite_subset [OF _ finite_taken [of base used]] by (auto intro!: psubset_card_mono)
qed

declare free_candidate.simps [simp del]

definition choose_dir :: "string list \<Rightarrow> string \<Rightarrow> string" where
  "choose_dir used base = (if base \<in> set used then free_candidate used base 2 else base)"

fun choose_dirs :: "string list \<Rightarrow> string list \<Rightarrow> string list" where
  "choose_dirs used [] = []"
| "choose_dirs used (raw # raws) =
     (let candidate = choose_dir used (RepoSlug raw)
      in candidate # choose_dirs (candidate # used) raws)"

definition SecondarySubdirs :: "string list \<Rightarrow> string list" where
  "SecondarySubdirs urls = map (\<lambda>dir. ''repos/'' @ dir) (choose_dirs [] urls)"

section \<open>Image references (agent_image.go)\<close>

definition isRegistryQualifiedImageRef :: "string \<Rightarrow> bool" where
  "isRegistryQualifiedImageRef img =
     (CHR ''/'' \<in> set img \<and>
      (let first = takeWhile (\<lambda>c. c \<noteq> CHR ''/'') img
       in first = ''localhost'' \<or> contains first ''.'' \<or> contains first '':''))"

definition resolveAgentImageRef :: "string \<Rightarrow> string \<Rightarrow> string" where
  "resolveAgentImageRef img0 prefix0 =
     (let img = trim_space img0; pre = trim_set ''/'' (trim_space prefix0) in
      if img = [] \<or> pre = [] \<or> isRegistryQualifiedImageRef img then img
      else pre @ ''/'' @ img)"

section \<open>Normalized sets\<close>

definition url_key :: "repo_ref \<Rightarrow> string" where
  "url_key ref = to_lower (URL ref)"

definition clean_ref :: "repo_ref \<Rightarrow> bool" where
  "clean_ref ref \<longleftrightarrow> URL ref \<noteq> [] \<and> trim_ref ref = ref"

text \<open>One primary repository, at the head; clean entries; no URL twice.\<close>

definition repo_set_ok :: "repo_ref list \<Rightarrow> bool" where
  "repo_set_ok refs \<longleftrightarrow>
     (case refs of [] \<Rightarrow> True | p # rest \<Rightarrow> Primary p \<and> list_all (\<lambda>ref. \<not> Primary ref) rest) \<and>
     list_all clean_ref refs \<and> distinct (map url_key refs)"

text \<open>The invariant of the loop.\<close>

definition norm_inv :: "norm_state \<Rightarrow> bool" where
  "norm_inv st \<longleftrightarrow>
     set (seen st) = url_key ` set (deduped st) \<and> distinct (map url_key (deduped st)) \<and>
     list_all clean_ref (deduped st) \<and>
     (case primaryIndex st of None \<Rightarrow> True | Some i \<Rightarrow> i < length (deduped st))"

lemma trim_ref_idem [simp]: "trim_ref (trim_ref ref) = trim_ref ref"
  by (simp add: trim_ref_def)

lemma norm_step_inv: "norm_inv st \<Longrightarrow> norm_inv (norm_step ref st)"
  by (auto simp: norm_inv_def norm_step_def Let_def clean_ref_def url_key_def less_Suc_eq
      split: option.splits)

lemma fold_norm_inv: "norm_inv st \<Longrightarrow> norm_inv (fold norm_step refs st)"
  by (induction refs arbitrary: st) (auto intro: norm_step_inv)

lemma norm_loop_inv: "norm_inv (norm_loop refs)"
  unfolding norm_loop_def by (rule fold_norm_inv) (simp add: norm_inv_def)

lemma clean_copy: "clean_ref ref \<Longrightarrow> clean_ref \<lparr>URL = URL ref, Ref = Ref ref, Primary = b\<rparr>"
  by (cases ref) (simp add: clean_ref_def trim_ref_def)

lemma url_key_secondary [simp]: "url_key (secondary ref) = url_key ref"
  by (simp add: url_key_def secondary_def)

lemma order_refs_ok:
  assumes "i < length refs" and "list_all clean_ref refs" and "distinct (map url_key refs)"
  shows "repo_set_ok (order_refs i refs)"
proof -
  have split: "refs = take i refs @ refs ! i # drop (Suc i) refs"
    using assms(1) by (rule id_take_nth_drop)
  define rest where "rest = take i refs @ drop (Suc i) refs"
  have clean: "clean_ref (refs ! i)" "list_all clean_ref rest"
    using assms(1,2) by (auto simp: list_all_iff rest_def dest: in_set_takeD in_set_dropD)
  have "distinct (map url_key (refs ! i # rest))"
    using assms(3) unfolding rest_def by (subst (asm) split) auto
  moreover have "map url_key (map secondary rest) = map url_key rest" by (simp add: comp_def)
  moreover have "list_all (\<lambda>ref. \<not> Primary ref) (map secondary rest)"
    by (simp add: list_all_iff secondary_def)
  moreover have "list_all clean_ref (map secondary rest)"
    using clean(2) by (auto simp: list_all_iff secondary_def intro: clean_copy)
  moreover have "url_key \<lparr>URL = URL (refs ! i), Ref = Ref (refs ! i), Primary = True\<rparr> = url_key (refs ! i)"
    by (simp add: url_key_def)
  ultimately show ?thesis
    using clean_copy [OF clean(1)] unfolding order_refs_def rest_def [symmetric] repo_set_ok_def
    by (auto simp: comp_def)
qed

lemma NormalizeRepoRefs_ok: "repo_set_ok (NormalizeRepoRefs refs)"
proof (cases "deduped (norm_loop refs) = []")
  case True
  then show ?thesis by (simp add: NormalizeRepoRefs_def repo_set_ok_def Let_def)
next
  case False
  then show ?thesis
    using norm_loop_inv [of refs] unfolding NormalizeRepoRefs_def Let_def norm_inv_def
    by (auto intro!: order_refs_ok split: option.splits)
qed

text \<open>A normalized set goes through the loop unchanged.\<close>

lemma norm_step_clean:
  assumes "clean_ref r" and "url_key r \<notin> set (seen st)"
  shows "norm_step r st = \<lparr>seen = url_key r # seen st, deduped = deduped st @ [r],
    primaryIndex = (if Primary r \<and> primaryIndex st = None then Some (length (deduped st)) else primaryIndex st)\<rparr>"
  using assms by (simp add: norm_step_def Let_def clean_ref_def url_key_def)

lemma fold_norm_clean:
  assumes "list_all clean_ref refs" and "distinct (map url_key refs)"
    and "url_key ` set refs \<inter> set (seen st) = {}" and "primaryIndex st = Some i"
  shows "deduped (fold norm_step refs st) = deduped st @ refs \<and> primaryIndex (fold norm_step refs st) = Some i"
  using assms
proof (induction refs arbitrary: st)
  case (Cons r refs)
  have "norm_step r st = \<lparr>seen = url_key r # seen st, deduped = deduped st @ [r], primaryIndex = Some i\<rparr>"
    using Cons.prems norm_step_clean [of r st] by simp
  with Cons.IH [of "norm_step r st"] Cons.prems show ?case by auto
qed simp

lemma NormalizeRepoRefs_fixed: "repo_set_ok refs \<Longrightarrow> NormalizeRepoRefs refs = refs"
proof (cases refs)
  case Nil
  then show ?thesis by (simp add: NormalizeRepoRefs_def norm_loop_def)
next
  case (Cons p rest)
  assume ok: "repo_set_ok refs"
  then have p: "Primary p" "clean_ref p" and rest: "\<forall>ref\<in>set rest. \<not> Primary ref"
    and clean: "list_all clean_ref rest" and dist: "distinct (map url_key rest)" "url_key p \<notin> url_key ` set rest"
    using Cons by (auto simp: repo_set_ok_def list_all_iff)
  let ?st = "norm_step p \<lparr>seen = [], deduped = [], primaryIndex = None\<rparr>"
  have st: "?st = \<lparr>seen = [url_key p], deduped = [p], primaryIndex = Some 0\<rparr>"
    using p by (simp add: norm_step_def Let_def clean_ref_def url_key_def)
  have loop: "norm_loop refs = fold norm_step rest ?st" by (simp add: norm_loop_def Cons)
  have "deduped (norm_loop refs) = refs" "primaryIndex (norm_loop refs) = Some 0"
    unfolding loop using fold_norm_clean [OF clean dist(1), of ?st] dist(2) st Cons by auto
  moreover have "map secondary rest = rest" using rest by (intro map_idI) (simp add: secondary_def)
  ultimately show ?thesis using p Cons by (simp add: NormalizeRepoRefs_def Let_def order_refs_def)
qed

text \<open>No usable URL is lost.\<close>

lemma fold_norm_keys:
  "set (seen (fold norm_step refs st)) =
     set (seen st) \<union> {to_lower (trim_space (URL ref)) | ref. ref \<in> set refs \<and> trim_space (URL ref) \<noteq> []}"
  by (induction refs arbitrary: st) (auto simp: norm_step_def Let_def trim_ref_def)

lemma order_refs_keys: "i < length refs \<Longrightarrow> url_key ` set (order_refs i refs) = url_key ` set refs"
proof -
  assume "i < length refs"
  then have "set refs = insert (refs ! i) (set (take i refs @ drop (Suc i) refs))"
    by (subst id_take_nth_drop [of i refs]) auto
  then show ?thesis by (auto simp: order_refs_def url_key_def secondary_def image_Un image_image)
qed

lemma NormalizeRepoRefs_keys:
  "url_key ` set (NormalizeRepoRefs refs) =
     {to_lower (trim_space (URL ref)) | ref. ref \<in> set refs \<and> trim_space (URL ref) \<noteq> []}"
proof -
  have seen: "set (seen (norm_loop refs)) =
     {to_lower (trim_space (URL ref)) | ref. ref \<in> set refs \<and> trim_space (URL ref) \<noteq> []}"
    by (simp add: norm_loop_def fold_norm_keys)
  have inv: "set (seen (norm_loop refs)) = url_key ` set (deduped (norm_loop refs))"
    using norm_loop_inv [of refs] by (simp add: norm_inv_def)
  show ?thesis
  proof (cases "deduped (norm_loop refs) = []")
    case True
    with seen inv show ?thesis by (simp add: NormalizeRepoRefs_def Let_def)
  next
    case False
    then have "url_key ` set (NormalizeRepoRefs refs) = url_key ` set (deduped (norm_loop refs))"
      using norm_loop_inv [of refs] unfolding NormalizeRepoRefs_def Let_def norm_inv_def
      by (auto simp: order_refs_keys split: option.splits)
    with seen inv show ?thesis by simp
  qed
qed

section \<open>Directories\<close>

lemma free_candidate_free: "free_candidate used base n \<notin> set used"
  by (induction used base n rule: free_candidate.induct) (subst free_candidate.simps, simp)

lemma free_candidate_shape: "\<exists>m. free_candidate used base n = numbered base m"
  by (induction used base n rule: free_candidate.induct) (subst free_candidate.simps, auto)

lemma choose_dirs_distinct: "distinct (choose_dirs used urls) \<and> set (choose_dirs used urls) \<inter> set used = {}"
proof (induction urls arbitrary: used)
  case (Cons raw urls)
  have "choose_dir used (RepoSlug raw) \<notin> set used"
    by (simp add: choose_dir_def free_candidate_free)
  with Cons [of "choose_dir used (RepoSlug raw) # used"] show ?case by (auto simp: Let_def)
qed simp

text \<open>A path segment that is a plain name: no separator, not empty, no leading dot or dash.\<close>

definition safe_segment :: "string \<Rightarrow> bool" where
  "safe_segment dir \<longleftrightarrow> dir \<noteq> [] \<and> list_all segment_char dir \<and> hd dir \<notin> set ''.-''"

lemma set_trim_set: "set (trim_set cs s) \<subseteq> set s"
  by (auto simp: trim_set_def trim_right_set_def dest!: set_dropWhileD)

lemma hd_trim_set: "trim_set cs s \<noteq> [] \<Longrightarrow> hd (trim_set cs s) \<notin> set cs"
proof -
  assume ne: "trim_set cs s \<noteq> []"
  let ?t = "dropWhile (\<lambda>c. c \<in> set cs) s"
  obtain u where u: "?t = trim_set cs s @ u"
  proof -
    have "rev ?t = takeWhile (\<lambda>c. c \<in> set cs) (rev ?t) @ dropWhile (\<lambda>c. c \<in> set cs) (rev ?t)" by simp
    then have "?t = rev (dropWhile (\<lambda>c. c \<in> set cs) (rev ?t)) @ rev (takeWhile (\<lambda>c. c \<in> set cs) (rev ?t))"
      by (metis rev_append rev_rev_ident)
    then show thesis using that unfolding trim_set_def trim_right_set_def by blast
  qed
  with ne have "hd (trim_set cs s) = hd ?t" "?t \<noteq> []" by auto
  then show ?thesis using hd_dropWhile [of "\<lambda>c. c \<in> set cs" s] by simp
qed

lemma segment_map_chars: "c \<in> set (segment_map d) \<Longrightarrow> segment_char c"
  by (auto simp: segment_map_def segment_char_def split: if_splits)

lemma sanitizeSegment_safe: "sanitizeSegment value \<noteq> [] \<Longrightarrow> safe_segment (sanitizeSegment value)"
  using set_trim_set [of "''.-''" "concat (map segment_map (to_lower (trim_space value)))"]
    hd_trim_set [of "''.-''" "concat (map segment_map (to_lower (trim_space value)))"]
  unfolding safe_segment_def sanitizeSegment_def list_all_iff
  by (auto dest!: segment_map_chars subsetD)

lemma RepoSlug_safe: "safe_segment (RepoSlug raw)"
proof -
  have "safe_segment ''repo''" by (simp add: safe_segment_def segment_char_def)
  then show ?thesis using sanitizeSegment_safe by (simp add: RepoSlug_def Let_def)
qed

lemma show_nat_segment: "list_all segment_char (show_nat n)"
proof -
  have "list_all is_digit (show_nat n)"
    using read_show_nat [of n] by (auto simp: read_nat_def split: if_splits)
  then show ?thesis by (auto simp: list_all_iff is_digit_def segment_char_def Let_def)
qed

lemma numbered_safe: "safe_segment base \<Longrightarrow> safe_segment (numbered base n)"
  using show_nat_segment [of n] by (auto simp: safe_segment_def numbered_def segment_char_def Let_def)

lemma choose_dirs_safe: "dir \<in> set (choose_dirs used urls) \<Longrightarrow> safe_segment dir"
proof (induction urls arbitrary: used)
  case (Cons raw urls)
  have "safe_segment (choose_dir used (RepoSlug raw))"
    using RepoSlug_safe [of raw] free_candidate_shape [of used "RepoSlug raw" 2] numbered_safe
    by (auto simp: choose_dir_def)
  with Cons show ?case by (auto simp: Let_def)
qed simp

lemma safe_segment_no_slash: "safe_segment dir \<Longrightarrow> CHR ''/'' \<notin> set dir \<and> dir \<noteq> ''.'' \<and> dir \<noteq> ''..''"
  by (auto simp: safe_segment_def list_all_iff segment_char_def Let_def)

lemma length_choose_dirs: "length (choose_dirs used urls) = length urls"
  by (induction urls arbitrary: used) (auto simp: Let_def)

section \<open>Properties\<close>

text \<open>
  C39. A normalized repository set has its primary repository at the head and no other primary, every
  entry trimmed with a URL that is not empty, no two entries with the same URL up to case, and it
  holds exactly the usable URLs of the input.
\<close>

theorem normalized_repo_set:
  "repo_set_ok (NormalizeRepoRefs refs) \<and>
   url_key ` set (NormalizeRepoRefs refs) =
     {to_lower (trim_space (URL ref)) | ref. ref \<in> set refs \<and> trim_space (URL ref) \<noteq> []}"
  using NormalizeRepoRefs_ok NormalizeRepoRefs_keys by simp

text \<open>
  C1. The secondary repositories of a task get as many checkout directories as there are
  repositories, pairwise distinct, each a single plain path segment below \<open>repos\<close> with no separator
  and no leading dot: no URL can place its checkout outside the workspace or on another one.
\<close>

theorem checkout_dirs_are_safe:
  "length (SecondarySubdirs urls) = length urls \<and> distinct (SecondarySubdirs urls) \<and>
   list_all (\<lambda>path. prefix ''repos/'' path \<and> safe_segment (drop 6 path) \<and> CHR ''/'' \<notin> set (drop 6 path))
     (SecondarySubdirs urls)"
proof (intro conjI)
  show "length (SecondarySubdirs urls) = length urls" by (simp add: SecondarySubdirs_def length_choose_dirs)
  show "distinct (SecondarySubdirs urls)"
    using choose_dirs_distinct [of "[]" urls] by (simp add: SecondarySubdirs_def distinct_map inj_on_def)
  show "list_all (\<lambda>path. prefix ''repos/'' path \<and> safe_segment (drop 6 path) \<and> CHR ''/'' \<notin> set (drop 6 path)) (SecondarySubdirs urls)"
    using choose_dirs_safe [of _ "[]" urls] safe_segment_no_slash by (auto simp: SecondarySubdirs_def list_all_iff)
qed

text \<open>
  The stored repository column gives back what was stored: marshalling a set and unmarshalling the
  column is normalization, and unmarshalling again changes nothing.
\<close>

theorem repos_roundtrip:
  "UnmarshalRepoRefs (MarshalRepoRefs refs) = NormalizeRepoRefs refs \<and>
   UnmarshalRepoRefs (MarshalRepoRefs (UnmarshalRepoRefs raw)) = UnmarshalRepoRefs raw"
proof -
  have rt: "UnmarshalRepoRefs (MarshalRepoRefs rs) = NormalizeRepoRefs rs" for rs
    by (simp add: UnmarshalRepoRefs_def MarshalRepoRefs_def Let_def NormalizeRepoRefs_fixed NormalizeRepoRefs_ok)
  moreover have "NormalizeRepoRefs (UnmarshalRepoRefs raw) = UnmarshalRepoRefs raw"
    by (cases raw) (simp_all add: UnmarshalRepoRefs_def NormalizeRepoRefs_fixed NormalizeRepoRefs_ok, simp add: NormalizeRepoRefs_def norm_loop_def)
  ultimately show ?thesis by simp
qed

end
