(* ===== verification/Chetter_GitHub.thy ===== *)
theory Chetter_GitHub
  imports Chetter_Repos
begin

text \<open>
  GitHub repository names and clone URLs (\<^verbatim>\<open>internal/githubrepo/repo.go\<close>), with the part
  of \<^verbatim>\<open>net/url\<close> that \<^verbatim>\<open>Parse\<close> looks at. The lemmas show that what is accepted is a
  pair of safe names and that the canonical name of an accepted value reads back as itself.
\<close>

section \<open>URLs (net/url)\<close>

record url_parts =
  u_scheme :: string
  u_user :: "(string \<times> string option) option"
  u_hostname :: string
  u_port :: string
  u_path :: string
  u_query :: string
  u_fragment :: string

definition is_alpha :: "char \<Rightarrow> bool" where
  "is_alpha c = (let n = (of_char c :: nat) in (65 \<le> n \<and> n \<le> 90) \<or> (97 \<le> n \<and> n \<le> 122))"

definition is_alnum :: "char \<Rightarrow> bool" where
  "is_alnum c = (is_alpha c \<or> is_digit c)"

definition hex_val :: "char \<Rightarrow> nat option" where
  "hex_val c =
     (let n = (of_char c :: nat) in
      if 48 \<le> n \<and> n \<le> 57 then Some (n - 48)
      else if 97 \<le> n \<and> n \<le> 102 then Some (n - 87)
      else if 65 \<le> n \<and> n \<le> 70 then Some (n - 55)
      else None)"

text \<open>
  Percent decoding. \<open>escape_ok\<close> tells which encoded bytes and \<open>plain_ok\<close> which plain ones the
  component admits: all of them but in a host.
\<close>

fun url_unescape :: "(nat \<Rightarrow> bool) \<Rightarrow> (char \<Rightarrow> bool) \<Rightarrow> string \<Rightarrow> string option" where
  "url_unescape escape_ok plain_ok [] = Some []"
| "url_unescape escape_ok plain_ok (c # cs) =
     (if c = CHR ''%'' then
        (case cs of
           a # b # rest \<Rightarrow>
             (case (hex_val a, hex_val b) of
                (Some x, Some y) \<Rightarrow>
                  if escape_ok (16 * x + y)
                  then map_option (Cons (char_of (16 * x + y))) (url_unescape escape_ok plain_ok rest)
                  else None
              | _ \<Rightarrow> None)
         | _ \<Rightarrow> None)
      else if plain_ok c then map_option (Cons c) (url_unescape escape_ok plain_ok cs)
      else None)"

definition unescape_any :: "string \<Rightarrow> string option" where
  "unescape_any = url_unescape (\<lambda>_. True) (\<lambda>_. True)"

text \<open>In a host, bytes from 128 on and the percent sign may be encoded, and few others stand plain.\<close>

definition host_char :: "char \<Rightarrow> bool" where
  "host_char c =
     (is_alnum c \<or> 128 \<le> (of_char c :: nat) \<or> c \<in> set ''-_.~!$&()*+,;=:[]<>'' \<or>
      c = char_of (39 :: nat) \<or> c = char_of (34 :: nat))"

definition unescape_host :: "string \<Rightarrow> string option" where
  "unescape_host = url_unescape (\<lambda>n. 128 \<le> n \<or> n = 37) host_char"

definition userinfo_char :: "char \<Rightarrow> bool" where
  "userinfo_char c = (is_alnum c \<or> c \<in> set ''-._:~!$&()*+,;=%@'' \<or> c = char_of (39 :: nat))"

text \<open>\<^verbatim>\<open>strings.Cut\<close> on one byte, and the cut at its last occurrence.\<close>

fun cut_at :: "char \<Rightarrow> string \<Rightarrow> string \<times> string option" where
  "cut_at sep [] = ([], None)"
| "cut_at sep (c # cs) =
     (if c = sep then ([], Some cs) else (let (u, v) = cut_at sep cs in (c # u, v)))"

definition cut_last :: "char \<Rightarrow> string \<Rightarrow> (string \<times> string) option" where
  "cut_last sep s =
     (case cut_at sep (rev s) of (_, None) \<Rightarrow> None | (v, Some u) \<Rightarrow> Some (rev u, rev v))"

text \<open>\<^verbatim>\<open>getScheme\<close>: the scheme and the rest, no scheme (\<open>[]\<close>), or an error.\<close>

fun scheme_loop :: "string \<Rightarrow> string \<Rightarrow> string \<Rightarrow> (string \<times> string) option" where
  "scheme_loop raw acc [] = Some ([], raw)"
| "scheme_loop raw acc (c # cs) =
     (if is_alpha c then scheme_loop raw (acc @ [c]) cs
      else if is_digit c \<or> c \<in> set ''+-.'' then
        (if acc = [] then Some ([], raw) else scheme_loop raw (acc @ [c]) cs)
      else if c = CHR '':'' then (if acc = [] then None else Some (acc, cs))
      else Some ([], raw))"

text \<open>
  \<^verbatim>\<open>parseHost\<close>, giving host name and port. A bracketed host is an IPv6 address or an error;
  neither is the host looked for here, and both are the error of this function.
\<close>

definition parse_host :: "string \<Rightarrow> (string \<times> string) option" where
  "parse_host host =
     (if CHR ''['' \<in> set host then None
      else (case cut_last (CHR '':'') host of
          None \<Rightarrow> map_option (\<lambda>h. (h, [])) (unescape_host host)
        | Some (h, p) \<Rightarrow>
            if list_all is_digit p \<and> CHR '':'' \<notin> set h
            then map_option (\<lambda>h'. (h', p)) (unescape_host h) else None))"

definition parse_user :: "string \<Rightarrow> (string \<times> string option) option" where
  "parse_user userinfo =
     (if \<not> list_all userinfo_char userinfo then None
      else (case cut_at (CHR '':'') userinfo of
          (name, None) \<Rightarrow> map_option (\<lambda>n. (n, None)) (unescape_any name)
        | (name, Some pw) \<Rightarrow>
            (case (unescape_any name, unescape_any pw) of
               (Some n, Some p) \<Rightarrow> Some (n, Some p) | _ \<Rightarrow> None)))"

text \<open>User and host of an authority.\<close>

definition parse_authority ::
  "string \<Rightarrow> ((string \<times> string option) option \<times> string \<times> string) option" where
  "parse_authority authority =
     (case cut_last (CHR ''@'') authority of
        None \<Rightarrow> map_option (\<lambda>h. (None, h)) (parse_host authority)
      | Some (userinfo, host) \<Rightarrow>
          (case (parse_host host, parse_user userinfo) of
             (Some h, Some u) \<Rightarrow> Some (Some u, h) | _ \<Rightarrow> None))"

definition is_ctl :: "char \<Rightarrow> bool" where
  "is_ctl c = (let n = (of_char c :: nat) in n < 32 \<or> n = 127)"

text \<open>
  \<^verbatim>\<open>url.Parse\<close>, for a URL with a scheme. Without one the result has an empty scheme, which
  the caller rejects as it rejects an error; the text of an error is not kept.
\<close>

definition url_Parse :: "string \<Rightarrow> url_parts option" where
  "url_Parse raw =
     (case cut_at (CHR ''#'') raw of (base, fragment) \<Rightarrow>
      if list_ex is_ctl base then None else
      (case scheme_loop base [] base of
         None \<Rightarrow> None
       | Some (scheme, rest0) \<Rightarrow>
           if scheme = [] then None else
           (case cut_at (CHR ''?'') rest0 of (rest, query) \<Rightarrow>
            let none = \<lparr>u_scheme = to_lower scheme, u_user = None, u_hostname = [], u_port = [],
                  u_path = [], u_query = str_of query, u_fragment = []\<rparr> in
            case unescape_any (str_of fragment) of
              None \<Rightarrow> None
            | Some frag \<Rightarrow>
              if \<not> prefix ''/'' rest then Some (none\<lparr>u_fragment := frag\<rparr>)
              else if \<not> prefix ''//'' rest then
                map_option (\<lambda>p. none\<lparr>u_path := p, u_fragment := frag\<rparr>) (unescape_any rest)
              else
                (let authority = takeWhile (\<lambda>c. c \<noteq> CHR ''/'') (drop 2 rest);
                     path = dropWhile (\<lambda>c. c \<noteq> CHR ''/'') (drop 2 rest) in
                 case (parse_authority authority, unescape_any path) of
                   (Some (user, host, port), Some p) \<Rightarrow>
                     Some (none\<lparr>u_user := user, u_hostname := host, u_port := port, u_path := p,
                       u_fragment := frag\<rparr>)
                 | _ \<Rightarrow> None))))"

section \<open>Repositories (repo.go)\<close>

record Repository =
  Owner :: string
  Name :: string

definition FullName :: "Repository \<Rightarrow> string" where
  "FullName r = Owner r @ ''/'' @ Name r"

definition Normalized :: "Repository \<Rightarrow> string" where
  "Normalized r = to_lower (FullName r)"

text \<open>\<^verbatim>\<open>ownerPattern\<close> and \<^verbatim>\<open>repoPattern\<close>.\<close>

definition owner_ok :: "string \<Rightarrow> bool" where
  "owner_ok s =
     (s \<noteq> [] \<and> length s \<le> 39 \<and> is_alnum (hd s) \<and> is_alnum (last s) \<and>
      list_all (\<lambda>c. is_alnum c \<or> c = CHR ''-'') s)"

definition repo_ok :: "string \<Rightarrow> bool" where
  "repo_ok s =
     (s \<noteq> [] \<and> length s \<le> 100 \<and> list_all (\<lambda>c. is_alnum c \<or> c \<in> set ''._-'') s)"

definition parse_error :: "string \<Rightarrow> error + 'a" where
  "parse_error m = Inl (Errorf m)"

definition github_url_path :: "string \<Rightarrow> error + string" where
  "github_url_path val =
     (case url_Parse val of
        None \<Rightarrow> parse_error ''parse GitHub repository URL''
      | Some u \<Rightarrow>
          if u_query u \<noteq> [] \<or> u_fragment u \<noteq> [] \<or> u_port u \<noteq> [] \<or> \<not> equal_fold (u_hostname u) ''github.com'' then
            parse_error ''repository URL must target github.com without a port, query, or fragment''
          else if u_scheme u = ''https'' then
            (if u_user u \<noteq> None
             then parse_error ''GitHub HTTPS repository URL must not contain credentials''
             else Inr (if prefix ''/'' (u_path u) then tl (u_path u) else u_path u))
          else if u_scheme u = ''ssh'' then
            (case u_user u of
               None \<Rightarrow> parse_error ''GitHub SSH repository URL must use the git user''
             | Some (name, pw) \<Rightarrow>
                 if name \<noteq> ''git'' then parse_error ''GitHub SSH repository URL must use the git user''
                 else if pw \<noteq> None
                 then parse_error ''GitHub SSH repository URL must not contain a password''
                 else Inr (if prefix ''/'' (u_path u) then tl (u_path u) else u_path u))
          else parse_error ''GitHub repository URL scheme must be https or ssh'')"

definition github_path :: "string \<Rightarrow> error + string" where
  "github_path val =
     (if prefix ''git@github.com:'' (to_lower val) then Inr (drop (length ''git@github.com:'') val)
      else if contains val ''://'' then github_url_path val
      else Inr val)"

definition repository_of :: "string list \<Rightarrow> error + Repository" where
  "repository_of parts =
     (if length parts \<noteq> 2 \<or> \<not> owner_ok (parts ! 0) \<or> contains (parts ! 0) ''--'' \<or> \<not> repo_ok (parts ! 1) \<or>
         parts ! 1 = ''.'' \<or> parts ! 1 = ''..''
      then parse_error ''GitHub repository must be a valid owner/repo name''
      else Inr \<lparr>Owner = parts ! 0, Name = parts ! 1\<rparr>)"

definition Parse :: "string \<Rightarrow> error + Repository" where
  "Parse value0 =
     (let val = trim_space value0 in
      if val = [] then parse_error ''GitHub repository is empty''
      else bind_res (github_path val) (\<lambda>name.
        repository_of (split_on (CHR ''/'') (trim_suffix ''.git'' (trim_suffix ''/'' name)))))"

definition Same :: "string \<Rightarrow> string \<Rightarrow> bool" where
  "Same left right =
     (case Parse left of Inl _ \<Rightarrow> False
      | Inr a \<Rightarrow> (case Parse right of Inl _ \<Rightarrow> False | Inr b \<Rightarrow> Normalized a = Normalized b))"

section \<open>Canonical names\<close>

definition repository_ok :: "Repository \<Rightarrow> bool" where
  "repository_ok r =
     (owner_ok (Owner r) \<and> \<not> contains (Owner r) ''--'' \<and> repo_ok (Name r) \<and> Name r \<noteq> ''.'' \<and> Name r \<noteq> ''..'')"

lemma repository_of_ok: "repository_of parts = Inr r \<Longrightarrow> repository_ok r"
  by (auto simp: repository_of_def parse_error_def repository_ok_def split: if_split_asm)

lemma Parse_ok: "Parse v = Inr r \<Longrightarrow> repository_ok r"
  by (auto simp: Parse_def Let_def parse_error_def split: if_split_asm dest: repository_of_ok)

text \<open>The characters of a canonical name: no space, no colon, no slash.\<close>

lemma name_chars:
  assumes "is_alnum c \<or> c \<in> set ''._-''"
  shows "\<not> is_space c" and "c \<noteq> CHR '':''" and "c \<noteq> CHR ''/''"
  using assms by (auto simp: is_alnum_def is_alpha_def is_digit_def is_space_def Let_def)

lemma repository_chars:
  assumes "repository_ok r"
  shows "\<forall>c\<in>set (Owner r). is_alnum c \<or> c \<in> set ''._-''" and "\<forall>c\<in>set (Name r). is_alnum c \<or> c \<in> set ''._-''"
    and "Owner r \<noteq> []" and "Name r \<noteq> []"
  using assms by (auto simp: repository_ok_def owner_ok_def repo_ok_def list_all_iff)

lemma trim_no_space: "(\<And>c. c \<in> set s \<Longrightarrow> \<not> is_space c) \<Longrightarrow> trim_space s = s"
proof (cases "s = []")
  case False
  assume "\<And>c. c \<in> set s \<Longrightarrow> \<not> is_space c"
  then have "\<not> is_space (hd s)" "\<not> is_space (last s)" using False by simp_all
  then have "dropWhile is_space s = s" "dropWhile is_space (rev s) = rev s"
    by (simp_all add: dropWhile_eq_self_iff hd_rev)
  then show ?thesis by (simp add: trim_space_def)
qed simp

lemma slash_plain: "\<not> is_space (CHR ''/'')" "CHR ''/'' \<noteq> CHR '':''"
  by (simp_all add: is_space_def)

lemma FullName_plain:
  assumes "repository_ok r"
  shows "trim_space (FullName r) = FullName r" and "CHR '':'' \<notin> set (FullName r)"
    and "FullName r \<noteq> []" and "\<not> suffix ''/'' (FullName r)"
proof -
  note chars = repository_chars [OF assms]
  have "set (FullName r) \<subseteq> {c. is_alnum c \<or> c \<in> set ''._-''} \<union> {CHR ''/''}"
    using chars(1,2) unfolding FullName_def by fastforce
  then have plain: "\<not> is_space c \<and> c \<noteq> CHR '':''" if "c \<in> set (FullName r)" for c
    using that name_chars(1,2) [of c] slash_plain by blast
  then show "trim_space (FullName r) = FullName r" by (intro trim_no_space) blast
  show "CHR '':'' \<notin> set (FullName r)" using plain by blast
  show "FullName r \<noteq> []" by (simp add: FullName_def)
  have "last (Name r) \<noteq> CHR ''/''" using chars(2,4) name_chars(3) last_in_set by blast
  then have "last (FullName r) \<noteq> CHR ''/''" using chars(4) by (simp add: FullName_def)
  then show "\<not> suffix ''/'' (FullName r)" by (auto simp: suffix_def)
qed

lemma lower_colon: "lower_char c = CHR '':'' \<Longrightarrow> c = CHR '':''"
proof (rule ccontr)
  assume low: "lower_char c = CHR '':''" and ne: "c \<noteq> CHR '':''"
  let ?n = "of_char c :: nat"
  from low ne have n: "65 \<le> ?n" "?n \<le> 90" and eq: "char_of (?n + 32) = CHR '':''"
    by (auto simp: lower_char_def Let_def split: if_splits)
  from eq have "(of_char (char_of (?n + 32) :: char) :: nat) = of_char (CHR '':'')" by (simp only:)
  with n show False by (simp add: of_char_of)
qed

lemma github_path_plain: "CHR '':'' \<notin> set v \<Longrightarrow> github_path v = Inr v"
proof -
  assume v: "CHR '':'' \<notin> set v"
  have "CHR '':'' \<notin> set (to_lower v)"
    using v by (auto simp: to_lower_def dest: lower_colon [OF sym])
  then have "\<not> prefix ''git@github.com:'' (to_lower v)" by (auto simp: prefix_def)
  moreover have "\<not> contains v ''://''" using v by (auto elim!: containsE)
  ultimately show ?thesis by (simp add: github_path_def)
qed

lemma split_on_two:
  assumes "sep \<notin> set u" and "sep \<notin> set v"
  shows "split_on sep (u @ sep # v) = [u, v]"
proof -
  have "split_on sep v = [v]" using assms(2) by (induction v) auto
  then show ?thesis using assms(1) by (induction u) auto
qed

lemma Parse_FullName:
  assumes "repository_ok r" and "\<not> suffix ''.git'' (Name r)"
  shows "Parse (FullName r) = Inr r"
proof -
  note chars = repository_chars [OF assms(1)] and plain = FullName_plain [OF assms(1)]
  have no_git: "\<not> suffix ''.git'' (FullName r)"
  proof
    assume "suffix ''.git'' (FullName r)"
    then have "suffix ''.git'' ((Owner r @ ''/'') @ Name r)" by (simp add: FullName_def)
    with assms(2) obtain xs where xs: "''.git'' = xs @ Name r" "suffix xs (Owner r @ ''/'')"
      unfolding suffix_append by blast
    with assms(2) have "xs \<noteq> []" by auto
    with xs(2) have "CHR ''/'' \<in> set xs"
      by (metis last_in_set last_snoc suffix_def last_appendR)
    then have "CHR ''/'' \<in> set ''.git''" unfolding xs(1) by simp
    then show False by simp
  qed
  have "split_on (CHR ''/'') (FullName r) = [Owner r, Name r]"
    using chars(1,2) name_chars(3) split_on_two [of "CHR ''/''" "Owner r" "Name r"]
    by (auto simp: FullName_def)
  then show ?thesis
    using assms(1) plain no_git github_path_plain [OF plain(2)]
    by (simp add: Parse_def Let_def trim_suffix_def repository_ok_def repository_of_def)
qed

text \<open>
  The name of a repository determines it: parsing the printed full name of a well-formed
  repository gives the repository back.
\<close>

theorem github_name_roundtrip:
  assumes "repository_ok r" and "\<not> suffix ''.git'' (Name r)"
  shows "Parse (FullName r) = Inr r"
  by (rule Parse_FullName [OF assms])

theorem github_name_roundtrip_witness:
  "Parse (FullName \<lparr>Owner = ''flatout-works'', Name = ''chetter''\<rparr>) = Inr \<lparr>Owner = ''flatout-works'', Name = ''chetter''\<rparr>"
proof (rule github_name_roundtrip)
  show "repository_ok \<lparr>Owner = ''flatout-works'', Name = ''chetter''\<rparr>" by code_simp
  show "\<not> suffix ''.git'' (Name \<lparr>Owner = ''flatout-works'', Name = ''chetter''\<rparr>)" by (simp add: suffix_def)
qed

end
