(* ===== verification/Chetter_Validation.thy ===== *)
theory Chetter_Validation
  imports Chetter_Strings
begin

text \<open>
  The checks on what a submission may carry: \<^verbatim>\<open>internal/validation/env.go\<close> and
  \<^verbatim>\<open>task.go\<close>. An environment is the list of its entries in the order the map is iterated.
  The lemmas say what an accepted input satisfies; the blocked names and prefixes are compared in
  upper case.
\<close>

section \<open>Errors\<close>

record ValidationError =
  Field :: string
  Message :: string

definition ValidationError_text :: "ValidationError \<Rightarrow> string" where
  "ValidationError_text e = Field e @ '': '' @ Message e"

definition joinErrors :: "ValidationError list \<Rightarrow> string \<Rightarrow> error option" where
  "joinErrors errs label =
     (case errs of
        [] \<Rightarrow> None
      | [e] \<Rightarrow> Some (Errorf (ValidationError_text e))
      | _ \<Rightarrow> Some (Errorf (label @ '': '' @ join_with ''; '' (map ValidationError_text errs))))"

section \<open>Environment variables (env.go)\<close>

definition env_start_char :: "char \<Rightarrow> bool" where
  "env_start_char c =
     (let n = (of_char c :: nat) in (65 \<le> n \<and> n \<le> 90) \<or> (97 \<le> n \<and> n \<le> 122) \<or> n = 95)"

definition IsValidEnvName :: "string \<Rightarrow> bool" where
  "IsValidEnvName name =
     (case name of [] \<Rightarrow> False
      | c # cs \<Rightarrow> env_start_char c \<and> list_all (\<lambda>d. env_start_char d \<or> is_digit d) cs)"

record env_config =
  BlockedPrefixes :: "string list"
  BlockedNames :: "string list"
  MaxCount :: int
  MaxNameLength :: int
  MaxValueLength :: int

definition Defaults :: env_config where
  "Defaults =
     \<lparr>BlockedPrefixes = [''CHETTER_'', ''RUNNER_'', ''MCP_AUTH'', ''DATABASE_'', ''GITHUB_APP_'',
        ''ARCANE_'', ''LLM_''],
      BlockedNames = [''PATH'', ''HOME'', ''SHELL'', ''LD_PRELOAD'', ''LD_LIBRARY_PATH''],
      MaxCount = 64, MaxNameLength = 256, MaxValueLength = 4096\<rparr>"

definition env_field :: "string \<Rightarrow> string" where
  "env_field key = ''env['' @ key @ '']''"

definition env_entry_errors :: "env_config \<Rightarrow> string \<times> string \<Rightarrow> ValidationError list" where
  "env_entry_errors cfg = (\<lambda>(key, val).
     if \<not> IsValidEnvName key then
       [\<lparr>Field = env_field key, Message = ''invalid environment variable name '' @ go_quote key\<rparr>]
     else
       (let upper = to_upper (trim_space key) in
        (if int (length key) > MaxNameLength cfg then
           [\<lparr>Field = env_field key, Message = ''name too long: '' @ show_int (int (length key)) @
              '' characters (max '' @ show_int (MaxNameLength cfg) @ '')''\<rparr>] else []) @
        (if int (length val) > MaxValueLength cfg then
           [\<lparr>Field = env_field key, Message = ''value too long: '' @ show_int (int (length val)) @
              '' characters (max '' @ show_int (MaxValueLength cfg) @ '')''\<rparr>] else []) @
        (if list_ex (\<lambda>blocked. upper = to_upper blocked) (BlockedNames cfg) then
           [\<lparr>Field = env_field key, Message = ''blocked environment variable name '' @ go_quote key\<rparr>]
         else []) @
        (case find (\<lambda>p. prefix (to_upper p) upper) (BlockedPrefixes cfg) of
           None \<Rightarrow> []
         | Some p \<Rightarrow> [\<lparr>Field = env_field key, Message = ''blocked environment variable prefix: '' @
              go_quote key @ '' starts with reserved prefix '' @ go_quote p\<rparr>])))"

definition ValidateTaskEnv :: "(string \<times> string) list \<Rightarrow> env_config \<Rightarrow> error option" where
  "ValidateTaskEnv env cfg =
     (if env = [] then None
      else if int (length env) > MaxCount cfg then
        joinErrors [\<lparr>Field = ''env'', Message = ''too many environment variables: '' @
          show_int (int (length env)) @ '' (max '' @ show_int (MaxCount cfg) @ '')''\<rparr>]
          ''environment variable validation failed''
      else joinErrors (concat (map (env_entry_errors cfg) env)) ''environment variable validation failed'')"

section \<open>Task fields (task.go)\<close>

definition SupportedHarnesses :: "string list" where
  "SupportedHarnesses = [''opencode'', ''claude-code'', ''pi'', ''codewhale'', ''codex'', ''niffler'']"

definition TriggerTypes :: "string list" where
  "TriggerTypes = [''cron'', ''pr_review'', ''issue'']"

definition maxPauseReasonLen :: int where
  "maxPauseReasonLen = 1024"

record TaskLimits =
  MaxTimeoutSec :: int
  MaxTTLHours :: int

definition DefaultTaskLimits :: TaskLimits where
  "DefaultTaskLimits = \<lparr>MaxTimeoutSec = 24 * 3600, MaxTTLHours = 24 * 30\<rparr>"

record TaskInput =
  ti_Harness :: string
  ti_SessionMode :: string
  ti_PauseReason :: string
  ti_TTLHours :: int
  ti_TimeoutSec :: int

definition joinQuoted :: "string list \<Rightarrow> string" where
  "joinQuoted values = join_with '', '' (map go_quote values)"

definition bound_errors :: "string \<Rightarrow> int \<Rightarrow> int \<Rightarrow> ValidationError list" where
  "bound_errors field n cap =
     (if n < 0 then
        [\<lparr>Field = field, Message = field @ '' must be non-negative, got '' @ show_int n\<rparr>]
      else if cap > 0 \<and> n > cap then
        [\<lparr>Field = field, Message = field @ '' '' @ show_int n @ '' exceeds maximum '' @ show_int cap\<rparr>]
      else [])"

definition validateTaskFields :: "TaskInput \<Rightarrow> TaskLimits \<Rightarrow> ValidationError list" where
  "validateTaskFields inp limits =
     (let mode = trim_space (ti_SessionMode inp) in
      (if ti_Harness inp \<noteq> [] \<and> ti_Harness inp \<notin> set SupportedHarnesses then
         [\<lparr>Field = ''harness'', Message = ''unsupported harness '' @ go_quote (ti_Harness inp) @
            '' (supported: '' @ joinQuoted SupportedHarnesses @ '')''\<rparr>] else []) @
      (if mode \<noteq> [] \<and> mode \<noteq> ''none'' \<and> mode \<noteq> ''resumable'' then
         [\<lparr>Field = ''session_mode'', Message = ''unsupported session_mode '' @
            go_quote (ti_SessionMode inp) @ '' (supported: none, resumable)''\<rparr>] else []) @
      bound_errors ''timeout_sec'' (ti_TimeoutSec inp) (MaxTimeoutSec limits) @
      bound_errors ''ttl_hours'' (ti_TTLHours inp) (MaxTTLHours limits) @
      (if int (length (ti_PauseReason inp)) > maxPauseReasonLen then
         [\<lparr>Field = ''pause_reason'', Message = ''pause_reason too long: '' @
            show_int (int (length (ti_PauseReason inp))) @ '' characters (max '' @
            show_int maxPauseReasonLen @ '')''\<rparr>] else []))"

definition ValidateTaskInput :: "TaskInput \<Rightarrow> TaskLimits \<Rightarrow> error option" where
  "ValidateTaskInput inp limits = joinErrors (validateTaskFields inp limits) ''task validation failed''"

section \<open>Trigger fields\<close>

definition owner_repo_char :: "char \<Rightarrow> bool" where
  "owner_repo_char c =
     (let n = (of_char c :: nat) in
      (97 \<le> n \<and> n \<le> 122) \<or> (65 \<le> n \<and> n \<le> 90) \<or> (48 \<le> n \<and> n \<le> 57) \<or> c \<in> set ''-_.'')"

definition isOwnerRepoSegment :: "string \<Rightarrow> bool" where
  "isOwnerRepoSegment s =
     (s \<noteq> [] \<and> length s \<le> 100 \<and> list_all owner_repo_char s \<and> replace_all ''.'' [] s \<noteq> [])"

definition ValidOwnerRepo :: "string \<Rightarrow> bool" where
  "ValidOwnerRepo s =
     (case split_on (CHR ''/'') (trim_space s) of
        [owner, repo] \<Rightarrow> isOwnerRepoSegment owner \<and> isOwnerRepoSegment repo
      | _ \<Rightarrow> False)"

definition IsGitHubTriggerType :: "string \<Rightarrow> bool" where
  "IsGitHubTriggerType t = (t = ''pr_review'' \<or> t = ''issue'')"

record TriggerInput =
  tri_TriggerType :: string
  tri_task :: TaskInput
  tri_Repo :: string

definition ValidateTriggerInput :: "TriggerInput \<Rightarrow> TaskLimits \<Rightarrow> error option" where
  "ValidateTriggerInput inp limits =
     joinErrors
       ((if tri_TriggerType inp \<noteq> [] \<and> tri_TriggerType inp \<notin> set TriggerTypes then
           [\<lparr>Field = ''trigger_type'', Message = ''unsupported trigger_type '' @
              go_quote (tri_TriggerType inp) @ '' (supported: '' @ joinQuoted TriggerTypes @ '')''\<rparr>] else []) @
        validateTaskFields (tri_task inp) limits @
        (if IsGitHubTriggerType (tri_TriggerType inp) \<and> tri_Repo inp \<noteq> [] \<and> \<not> ValidOwnerRepo (tri_Repo inp) then
           [\<lparr>Field = ''repo'', Message = ''repo '' @ go_quote (tri_Repo inp) @
              '' is not canonical owner/repo syntax (e.g. flatout-works/chetter)''\<rparr>] else []))
       ''trigger validation failed''"

section \<open>What an accepted input satisfies\<close>

lemma joinErrors_None_iff [simp]: "joinErrors errs label = None \<longleftrightarrow> errs = []"
  by (auto simp: joinErrors_def split: list.splits)

definition env_entry_ok :: "env_config \<Rightarrow> string \<times> string \<Rightarrow> bool" where
  "env_entry_ok cfg = (\<lambda>(key, val).
     IsValidEnvName key \<and> int (length key) \<le> MaxNameLength cfg \<and> int (length val) \<le> MaxValueLength cfg \<and>
     to_upper key \<notin> to_upper ` set (BlockedNames cfg) \<and>
     \<not> (\<exists>p\<in>set (BlockedPrefixes cfg). prefix (to_upper p) (to_upper key)))"

lemma valid_name_no_space: "IsValidEnvName key \<Longrightarrow> c \<in> set key \<Longrightarrow> \<not> is_space c"
  by (cases key)
    (auto simp: IsValidEnvName_def env_start_char_def is_digit_def is_space_def Let_def list_all_iff)

lemma valid_name_trim: "IsValidEnvName key \<Longrightarrow> trim_space key = key"
proof -
  assume "IsValidEnvName key"
  then have "dropWhile is_space key = key" "dropWhile is_space (rev key) = rev key"
    using valid_name_no_space [of key] by (auto simp: dropWhile_eq_self_iff hd_rev)
  then show ?thesis by (simp add: trim_space_def)
qed

lemma env_entry_errors_iff: "env_entry_errors cfg e = [] \<longleftrightarrow> env_entry_ok cfg e"
  by (cases e)
    (auto simp: env_entry_errors_def env_entry_ok_def Let_def valid_name_trim list_ex_iff find_None_iff
      find_Some_iff split: option.splits dest: nth_mem)

lemma ValidateTaskEnv_iff:
  "ValidateTaskEnv env cfg = None \<longleftrightarrow>
     env = [] \<or> (int (length env) \<le> MaxCount cfg \<and> list_all (env_entry_ok cfg) env)"
  by (auto simp: ValidateTaskEnv_def env_entry_errors_iff list_all_iff not_less)

text \<open>A valid name holds no equals sign, so the runner cannot read a different name out of it.\<close>

lemma valid_name_no_equals: "IsValidEnvName key \<Longrightarrow> CHR ''='' \<notin> set key"
  by (cases key) (auto simp: IsValidEnvName_def env_start_char_def is_digit_def Let_def list_all_iff)

lemma ValidateTaskInput_iff:
  "ValidateTaskInput inp limits = None \<longleftrightarrow>
     (ti_Harness inp = [] \<or> ti_Harness inp \<in> set SupportedHarnesses) \<and>
     trim_space (ti_SessionMode inp) \<in> {[], ''none'', ''resumable''} \<and>
     0 \<le> ti_TimeoutSec inp \<and> (MaxTimeoutSec limits > 0 \<longrightarrow> ti_TimeoutSec inp \<le> MaxTimeoutSec limits) \<and>
     0 \<le> ti_TTLHours inp \<and> (MaxTTLHours limits > 0 \<longrightarrow> ti_TTLHours inp \<le> MaxTTLHours limits) \<and>
     int (length (ti_PauseReason inp)) \<le> maxPauseReasonLen"
  unfolding ValidateTaskInput_def validateTaskFields_def bound_errors_def Let_def
  by (auto split: if_splits)

section \<open>Properties\<close>

text \<open>
  An environment that passes the default validation is small and harmless: at most 64 entries, and
  every entry has a proper name without an equals sign, of bounded length, that is neither one of the
  blocked names nor has a reserved prefix, in any case of its letters.
\<close>

theorem accepted_env_is_harmless:
  assumes "ValidateTaskEnv env Defaults = None" and "(key, val) \<in> set env"
  shows "length env \<le> 64 \<and> IsValidEnvName key \<and> CHR ''='' \<notin> set key \<and> length key \<le> 256 \<and> length val \<le> 4096 \<and>
    to_upper key \<notin> {''PATH'', ''HOME'', ''SHELL'', ''LD_PRELOAD'', ''LD_LIBRARY_PATH''} \<and>
    \<not> list_ex (\<lambda>p. prefix p (to_upper key)) (BlockedPrefixes Defaults)"
proof -
  have "env \<noteq> []" using assms(2) by auto
  then have n: "int (length env) \<le> MaxCount Defaults" and ok: "env_entry_ok Defaults (key, val)"
    using assms by (auto simp: ValidateTaskEnv_iff list_all_iff)
  have up: "to_upper p = p" if "p \<in> set (BlockedPrefixes Defaults @ BlockedNames Defaults)" for p
  proof -
    have "list_all (\<lambda>p. to_upper p = p) (BlockedPrefixes Defaults @ BlockedNames Defaults)" by code_simp
    then show ?thesis using that unfolding list_all_iff by blast
  qed
  have "to_upper key \<notin> set (BlockedNames Defaults)"
    using ok up unfolding env_entry_ok_def by (auto simp: image_iff)
  moreover have "\<not> list_ex (\<lambda>p. prefix p (to_upper key)) (BlockedPrefixes Defaults)"
    using ok up unfolding env_entry_ok_def list_ex_iff by (auto simp: image_iff)
  ultimately show ?thesis
    using n ok valid_name_no_equals [of key] by (simp add: env_entry_ok_def Defaults_def)
qed

theorem accepted_env_is_harmless_witness:
  "ValidateTaskEnv [(''GOFLAGS'', ''-race'')] Defaults = None \<and> to_upper ''GOFLAGS'' \<noteq> ''PATH''"
proof -
  have v: "ValidateTaskEnv [(''GOFLAGS'', ''-race'')] Defaults = None" by code_simp
  from accepted_env_is_harmless [OF v, of "''GOFLAGS''" "''-race''"] v show ?thesis by simp
qed

end
