(* ===== verification/Chetter_Auth.thy ===== *)
theory Chetter_Auth
  imports Chetter_Store
begin

text \<open>
  Team scopes: \<^verbatim>\<open>internal/auth/auth.go\<close> and the access checks of
  \<^verbatim>\<open>internal/service/service.go\<close> and \<^verbatim>\<open>tools.go\<close>. The scope a request carries in its
  context is \<open>Some\<close> scope, a request without one is \<open>None\<close>. The lemmas show that a caller bound
  to teams never sees or owns anything outside them.
\<close>

section \<open>Scopes\<close>

record Scope =
  TeamID :: string
  TeamIDs :: "string list"
  TokenID :: string
  TokenName :: string
  Admin :: bool

definition Teams :: "Scope \<Rightarrow> string list" where
  "Teams s = (if TeamIDs s \<noteq> [] then TeamIDs s else if TeamID s \<noteq> [] then [TeamID s] else [])"

definition HasTeam :: "Scope \<Rightarrow> string \<Rightarrow> bool" where
  "HasTeam s team = (team \<noteq> [] \<and> list_ex (\<lambda>i. i = team) (Teams s))"

text \<open>The values of a list that are not empty, each at its first occurrence.\<close>

fun unique_from :: "string list \<Rightarrow> string list \<Rightarrow> string list" where
  "unique_from been [] = []"
| "unique_from been (v # vs) =
     (if v = [] \<or> v \<in> set been then unique_from been vs else v # unique_from (v # been) vs)"

definition uniqueNonEmpty :: "string list \<Rightarrow> string list" where
  "uniqueNonEmpty values = unique_from [] values"

record TeamFilter =
  filter_TeamIDs :: "string list"
  Constrained :: bool
  Empty :: bool

definition ResolveTeamFilter :: "Scope option \<Rightarrow> string list \<Rightarrow> TeamFilter" where
  "ResolveTeamFilter ctx requested0 =
     (let requested = uniqueNonEmpty requested0 in
      case ctx of
        None \<Rightarrow>
          (if requested = [] then \<lparr>filter_TeamIDs = [], Constrained = False, Empty = False\<rparr>
           else \<lparr>filter_TeamIDs = requested, Constrained = True, Empty = False\<rparr>)
      | Some scope \<Rightarrow>
          if Admin scope then
            (if requested = [] then \<lparr>filter_TeamIDs = [], Constrained = False, Empty = False\<rparr>
             else \<lparr>filter_TeamIDs = requested, Constrained = True, Empty = False\<rparr>)
          else
            (let allowed = uniqueNonEmpty (Teams scope) in
             if requested = [] then
               \<lparr>filter_TeamIDs = allowed, Constrained = True, Empty = (allowed = [])\<rparr>
             else
               (let intersection = filter (\<lambda>t. t \<in> set allowed) requested in
                if intersection = [] then \<lparr>filter_TeamIDs = [], Constrained = True, Empty = True\<rparr>
                else \<lparr>filter_TeamIDs = intersection, Constrained = True, Empty = False\<rparr>)))"

section \<open>Access checks\<close>

text \<open>\<^verbatim>\<open>!scoped || scope.Admin\<close>: no scope in the context, or an administrator's.\<close>

definition unrestricted :: "Scope option \<Rightarrow> bool" where
  "unrestricted ctx = (case ctx of None \<Rightarrow> True | Some scope \<Rightarrow> Admin scope)"

definition may_access :: "Scope option \<Rightarrow> string option \<Rightarrow> bool" where
  "may_access ctx team =
     (case ctx of None \<Rightarrow> True
      | Some scope \<Rightarrow> Admin scope \<or> (case team of None \<Rightarrow> False | Some t \<Rightarrow> HasTeam scope t))"

definition authorizeTaskToolAccess :: "Scope option \<Rightarrow> task \<Rightarrow> error + unit" where
  "authorizeTaskToolAccess ctx t = guard_res (may_access ctx (t_team_id t)) (Errorf ''task not found'')"

definition authorizeAgentSessionAccess :: "Scope option \<Rightarrow> agent_session \<Rightarrow> error + unit" where
  "authorizeAgentSessionAccess ctx s =
     guard_res (may_access ctx (s_team_id s)) (Errorf ''agent session not found'')"

definition isAdmin :: "Scope option \<Rightarrow> bool" where
  "isAdmin ctx = (case ctx of None \<Rightarrow> False | Some scope \<Rightarrow> Admin scope)"

text \<open>\<open>team_by_name\<close> is the lookup in the table of teams.\<close>

definition lookup_team :: "(string \<Rightarrow> string option) \<Rightarrow> string \<Rightarrow> error + string" where
  "lookup_team team_by_name name =
     from_option (Errorf (''team '' @ go_quote name @ '' not found'')) (team_by_name name)"

definition resolveOwnerTeamID ::
  "Scope option \<Rightarrow> (string \<Rightarrow> string option) \<Rightarrow> string \<Rightarrow> string \<Rightarrow> error + string" where
  "resolveOwnerTeamID ctx team_by_name requestedID requestedName =
     (if unrestricted ctx then
        (if requestedID \<noteq> [] then Inr requestedID
         else if requestedName \<noteq> [] then lookup_team team_by_name requestedName
         else Inr [])
      else (case ctx of None \<Rightarrow> Inr []
      | Some scope \<Rightarrow>
          bind_res (if requestedName \<noteq> [] then lookup_team team_by_name requestedName
                    else Inr requestedID) (\<lambda>wanted.
          if wanted \<noteq> [] then
            bind_res (guard_res (HasTeam scope wanted)
              (Errorf (''team '' @ go_quote wanted @ '' is not in token scope''))) (\<lambda>_. Inr wanted)
          else (case Teams scope of
              [t] \<Rightarrow> Inr t
            | [] \<Rightarrow> Inl (Errorf ''token has no team scope'')
            | _ \<Rightarrow> Inl (Errorf ''team_id or team_name is required for multi-team tokens'')))))"

section \<open>Lemmas\<close>

lemma unique_from_set: "set (unique_from been vs) = {v \<in> set vs. v \<noteq> [] \<and> v \<notin> set been}"
  by (induction been vs rule: unique_from.induct) auto

lemma uniqueNonEmpty_set: "set (uniqueNonEmpty vs) = {v \<in> set vs. v \<noteq> []}"
  by (simp add: uniqueNonEmpty_def unique_from_set)

lemma unique_from_distinct: "distinct (unique_from been vs)"
  by (induction been vs rule: unique_from.induct) (auto simp: unique_from_set)

lemma HasTeam_iff: "HasTeam s t \<longleftrightarrow> t \<noteq> [] \<and> t \<in> set (Teams s)"
  by (auto simp: HasTeam_def list_ex_iff)

text \<open>
  What a filter lets through: everything when it is not constrained, nothing when it is empty, else
  the rows of its teams.
\<close>

definition filter_admits :: "TeamFilter \<Rightarrow> string \<Rightarrow> bool" where
  "filter_admits f team \<longleftrightarrow> (\<not> Constrained f \<or> (\<not> Empty f \<and> team \<in> set (filter_TeamIDs f)))"

lemma ResolveTeamFilter_scoped:
  assumes "\<not> unrestricted ctx" and "ctx = Some scope"
  shows "filter_admits (ResolveTeamFilter ctx requested) team \<longleftrightarrow>
    HasTeam scope team \<and> (team \<in> set requested \<or> list_all (\<lambda>r. r = []) requested)"
proof -
  have adm: "\<not> Admin scope" using assms by (simp add: unrestricted_def)
  have empty_iff: "uniqueNonEmpty requested = [] \<longleftrightarrow> list_all (\<lambda>r. r = []) requested"
    using uniqueNonEmpty_set [of requested] by (auto simp: list_all_iff set_empty [symmetric] simp del: set_empty)
  show ?thesis
    using adm assms(2) uniqueNonEmpty_set [of requested] uniqueNonEmpty_set [of "Teams scope"] empty_iff
    by (auto simp: ResolveTeamFilter_def Let_def filter_admits_def HasTeam_iff filter_empty_conv list_all_iff)
qed

lemma resolveOwnerTeamID_scoped:
  assumes "\<not> unrestricted ctx" and "ctx = Some scope" and "resolveOwnerTeamID ctx team_by_name i name = Inr team"
  shows "team \<in> set (Teams scope)"
  using assms
  by (auto simp: resolveOwnerTeamID_def lookup_team_def HasTeam_iff split: if_splits list.splits)

section \<open>Properties\<close>



end
