(* ===== verification/Chetter_Submit.thy ===== *)
theory Chetter_Submit
  imports Chetter_Claim Chetter_GitHub Chetter_Validation Chetter_Auth Chetter_Redact Chetter_Events
begin

text \<open>
  The operations that put work into the queue or take it out: \<^verbatim>\<open>SubmitTask\<close>,
  \<^verbatim>\<open>RecoverTask\<close>, \<^verbatim>\<open>RerunTask\<close>, \<^verbatim>\<open>ResumeAgentSession\<close> of
  \<^verbatim>\<open>internal/service/service.go\<close>, and \<^verbatim>\<open>CancelTask\<close>, \<^verbatim>\<open>ExtendTaskTimeout\<close>,
  \<^verbatim>\<open>ClearQueue\<close> of \<^verbatim>\<open>api.go\<close>, with the admission gate the first four share. Audit
  events and the views they return to the caller are left out; what they write to the database,
  their order and every rejection are here.
\<close>

section \<open>Configuration and environment\<close>

record svc_config =
  MaxPendingTasks :: int
  DefaultAgentImage :: string
  AgentImagePrefix :: string
  DefaultTaskTimeoutSec :: int
  AllowUnisolated :: bool
  cfg_TaskLimits :: TaskLimits
  EnvValidation :: env_config
  CallbackMaxDepth :: int

record git_identity =
  gi_ID :: string
  gi_AuthorName :: string
  gi_AuthorEmail :: string

text \<open>
  What a call takes from outside the modelled tables: the clocks, the random identifiers (\<open>None\<close>
  when the random source fails), the scope of the caller, and the answers of the lookups in the
  tables of teams, identities, endpoint definitions and triggers; \<open>sv_lock_err\<close> is the error of
  taking the admission lock, if it fails.
\<close>

record submit_env =
  sv_now :: time
  sv_dbnow :: time
  sv_task_id :: "string option"
  sv_session_id :: "string option"
  sv_prompt_id :: "string option"
  sv_attempt_id :: "string option"
  sv_event_id :: "string option"
  sv_run_id :: "string option"
  sv_scope :: "Scope option"
  sv_team_by_name :: "string \<Rightarrow> string option"
  sv_identity :: "string \<Rightarrow> string \<Rightarrow> string \<Rightarrow> error + git_identity"
  sv_endpoints :: "string list \<Rightarrow> string \<Rightarrow> error + unit"
  sv_trigger_by_name :: "string \<Rightarrow> string option"
  sv_lock_err :: "error option"

record SubmitTaskRequest =
  rq_TeamID :: string
  rq_TeamName :: string
  rq_Prompt :: string
  rq_GitURL :: string
  rq_GitRef :: string
  rq_Repos :: "repo_ref list"
  rq_GitHubRepo :: string
  rq_GitHubInstallationID :: int
  rq_AgentImage :: string
  rq_Agent :: string
  rq_ProviderID :: string
  rq_ModelID :: string
  rq_VariantID :: string
  rq_Harness :: string
  rq_Skills :: "string list"
  rq_McpEndpoints :: "string list"
  rq_Env :: "(string \<times> string) list"
  rq_TimeoutSec :: int
  rq_TriggerName :: string
  rq_TriggerType :: string
  rq_SubmissionSource :: string
  rq_CallbackParentTaskID :: string
  rq_CallbackDepth :: int
  rq_ExplicitTaskID :: string
  rq_SelfTestRunID :: string
  rq_SelfTestProfile :: string
  rq_SelfTestCheck :: string
  rq_SelfTestNonce :: string
  rq_SessionMode :: string
  rq_PauseReason :: string
  rq_TTLHours :: int
  rq_Isolation :: string

section \<open>Helpers\<close>

definition withPendingTaskAdmission :: "svc_config \<Rightarrow> submit_env \<Rightarrow> 'a tx \<Rightarrow> 'a tx" where
  "withPendingTaskAdmission cfg env fn d =
     (if MaxPendingTasks cfg \<le> 0 then fn d
      else (case sv_lock_err env of
          Some e \<Rightarrow> Inl (Wrap ''acquire admission lock'' e)
        | None \<Rightarrow>
            let current = CountPendingTasks d in
            if current \<ge> MaxPendingTasks cfg
            then Inl (PendingTaskCapacity (MaxPendingTasks cfg) current)
            else fn d))"

definition notifyTaskClaimable :: "db \<Rightarrow> db" where
  "notifyTaskClaimable d = bumpClaimNotifyCounter d"

definition need_id :: "string \<Rightarrow> string option \<Rightarrow> error + string" where
  "need_id what i = from_option (Wrap what generate_id_err) i"

text \<open>The replacements, in the order of the loop; an empty value is written \<^verbatim>\<open>unknown\<close>.\<close>

definition expand_var :: "string \<times> string \<Rightarrow> string \<Rightarrow> string" where
  "expand_var = (\<lambda>(key, val) prompt.
     let v = (if val = [] then ''unknown'' else val) in
     replace_all (''$'' @ key) v (replace_all (''${'' @ key @ ''}'') v prompt))"

definition expandChetterPromptVars :: "string \<Rightarrow> (string \<times> string) list \<Rightarrow> string" where
  "expandChetterPromptVars prompt values =
     fold (\<lambda>key. expand_var (key, str_of (map_of values key)))
       [''CHETTER_RUNNER_IMAGE_DIGEST'', ''CHETTER_RUNNER_IMAGE'', ''CHETTER_AGENT_NAME'',
        ''CHETTER_MODEL_ID'', ''CHETTER_TASK_ID''] prompt"

definition sanitize_entry :: "string \<times> string \<Rightarrow> string \<times> string" where
  "sanitize_entry = (\<lambda>(key, val).
     let upper = to_upper key in
     (key, if contains upper ''SECRET'' \<or> contains upper ''TOKEN'' \<or> contains upper ''KEY'' \<or>
              contains upper ''PASSWORD'' then ''[redacted]'' else val))"

definition sanitizeTaskEnv :: "(string \<times> string) list \<Rightarrow> (string \<times> string) list" where
  "sanitizeTaskEnv env = map sanitize_entry env"

fun endpoint_names :: "string list \<Rightarrow> string list \<Rightarrow> string list" where
  "endpoint_names been [] = []"
| "endpoint_names been (v # vs) =
     (let w = trim_space v in
      if w = [] \<or> w \<in> set been then endpoint_names been vs else w # endpoint_names (w # been) vs)"

definition normalizeMcpEndpointNames :: "string list \<Rightarrow> string list" where
  "normalizeMcpEndpointNames values = endpoint_names [] values"

definition taskGitHubMetadata ::
  "SubmitTaskRequest \<Rightarrow> error + string \<times> int" where
  "taskGitHubMetadata inp =
     (if rq_GitHubInstallationID inp < 0 then Inl (Errorf ''github_installation_id must be positive'')
      else if trim_space (rq_GitHubRepo inp) \<noteq> [] then
        bind_res (wrap_err ''invalid trusted github_repo'' (Parse (rq_GitHubRepo inp)))
          (\<lambda>repo. Inr (FullName repo, rq_GitHubInstallationID inp))
      else if rq_GitHubInstallationID inp > 0 then
        Inl (Errorf ''github_installation_id requires github_repo'')
      else if trim_space (rq_GitURL inp) = [] then Inr ([], 0)
      else (case Parse (rq_GitURL inp) of Inl _ \<Rightarrow> Inr ([], 0) | Inr repo \<Rightarrow> Inr (FullName repo, 0)))"

definition nullInt64 :: "int \<Rightarrow> int option" where
  "nullInt64 v = (if v = 0 then None else Some v)"

definition search_text :: "string list \<Rightarrow> string option" where
  "search_text parts = nullString (join_with '' '' (strings_fields (join_with '' '' parts)))"

section \<open>SubmitTask\<close>

text \<open>The input after normalization of the repositories.\<close>

definition with_primary_repo :: "SubmitTaskRequest \<Rightarrow> SubmitTaskRequest" where
  "with_primary_repo inp =
     (let repos = normalizeSubmitRepoRefs (rq_Repos inp) (rq_GitURL inp) (rq_GitRef inp);
          inp1 = inp\<lparr>rq_Repos := repos\<rparr> in
      case PrimaryRepoRef repos of
        None \<Rightarrow> inp1
      | Some p \<Rightarrow> inp1\<lparr>rq_GitURL := URL p, rq_GitRef := Ref p\<rparr>)"

definition submit_checks :: "svc_config \<Rightarrow> SubmitTaskRequest \<Rightarrow> error + unit" where
  "submit_checks cfg inp =
     (case ValidateTaskInput \<lparr>ti_Harness = rq_Harness inp, ti_SessionMode = rq_SessionMode inp,
         ti_PauseReason = rq_PauseReason inp, ti_TTLHours = rq_TTLHours inp,
         ti_TimeoutSec = rq_TimeoutSec inp\<rparr> (cfg_TaskLimits cfg) of
        Some e \<Rightarrow> Inl e
      | None \<Rightarrow>
     (case ValidateTaskEnv (rq_Env inp) (EnvValidation cfg) of Some e \<Rightarrow> Inl e | None \<Rightarrow> Inr ()))"

definition submit_defaults :: "svc_config \<Rightarrow> SubmitTaskRequest \<Rightarrow> error + SubmitTaskRequest" where
  "submit_defaults cfg inp =
     bind_res
       (if rq_AgentImage inp = [] then
          (if DefaultAgentImage cfg = []
           then Inl (Errorf ''agent_image is required (no default configured)'')
           else Inr (DefaultAgentImage cfg))
        else Inr (rq_AgentImage inp))
     (\<lambda>img. Inr (inp\<lparr>rq_AgentImage := resolveAgentImageRef img (AgentImagePrefix cfg),
        rq_TimeoutSec := (if rq_TimeoutSec inp = 0 then DefaultTaskTimeoutSec cfg else rq_TimeoutSec inp)\<rparr>))"

definition submit_resume_mode :: "SubmitTaskRequest \<Rightarrow> string" where
  "submit_resume_mode inp = (if rq_SessionMode inp = ''resumable'' then ''harness_session'' else ''none'')"

definition submit_expires_at :: "time \<Rightarrow> SubmitTaskRequest \<Rightarrow> time option" where
  "submit_expires_at now inp =
     (if rq_SessionMode inp = ''resumable''
      then Some (now + (if rq_TTLHours inp > 0 then rq_TTLHours inp else 72) * hour) else None)"

definition submit_isolation :: "svc_config \<Rightarrow> SubmitTaskRequest \<Rightarrow> bool" where
  "submit_isolation cfg inp =
     (submit_resume_mode inp \<noteq> ''none'' \<or> rq_Isolation inp = ''required'' \<or> \<not> AllowUnisolated cfg)"

definition submit_source :: "SubmitTaskRequest \<Rightarrow> string" where
  "submit_source inp = (if rq_SubmissionSource inp = [] then ''manual'' else rq_SubmissionSource inp)"

definition submitted_task ::
  "time \<Rightarrow> string \<Rightarrow> string \<Rightarrow> string \<Rightarrow> int \<Rightarrow> SubmitTaskRequest \<Rightarrow> insert_task_params" where
  "submitted_task now taskID teamID githubRepo installation inp =
     \<lparr>it_id = taskID, it_team_id = nullString teamID, it_prompt = rq_Prompt inp,
      it_git_url = nullString (rq_GitURL inp), it_git_ref = nullString (rq_GitRef inp),
      it_repos = MarshalRepoRefs (rq_Repos inp), it_github_repo = nullString githubRepo,
      it_github_installation_id = nullInt64 installation,
      it_trigger_name = nullString (rq_TriggerName inp), it_trigger_type = nullString (rq_TriggerType inp),
      it_submission_source = submit_source inp, it_self_test_run_id = nullString (rq_SelfTestRunID inp),
      it_self_test_profile = nullString (rq_SelfTestProfile inp),
      it_self_test_check = nullString (rq_SelfTestCheck inp),
      it_self_test_nonce = nullString (rq_SelfTestNonce inp),
      it_callback_parent_task_id = nullString (rq_CallbackParentTaskID inp),
      it_callback_depth = to_int32 (rq_CallbackDepth inp),
      it_search_text = search_text [rq_Prompt inp, rq_Agent inp, rq_ModelID inp, rq_TriggerName inp,
        rq_GitURL inp, githubRepo],
      it_created_at = now, it_updated_at = now\<rparr>"

definition submitted_session ::
  "svc_config \<Rightarrow> time \<Rightarrow> string \<Rightarrow> string \<Rightarrow> string \<Rightarrow> git_identity \<Rightarrow> SubmitTaskRequest \<Rightarrow> agent_session" where
  "submitted_session cfg now sessionID taskID teamID identity inp =
     \<lparr>s_id = sessionID, s_team_id = nullString teamID, s_status = ''running'',
      s_resume_mode = submit_resume_mode inp, s_pinned_runner_id = None, s_pinned_runner_name = None,
      s_checkpoint_id = None, s_workspace_path = None, s_container_name = None,
      s_harness_session_id = None, s_git_url = nullString (rq_GitURL inp),
      s_git_ref = nullString (rq_GitRef inp), s_agent_image = nullString (rq_AgentImage inp),
      s_agent = nullString (rq_Agent inp), s_provider_id = nullString (rq_ProviderID inp),
      s_model_id = nullString (rq_ModelID inp), s_variant_id = nullString (rq_VariantID inp),
      s_created_at = now, s_updated_at = now, s_paused_at = None,
      s_expires_at = submit_expires_at now inp,
      s_pause_reason = (if rq_SessionMode inp = ''resumable'' then nullString (rq_PauseReason inp) else None),
      s_error = None,
      s_search_text = search_text [sessionID, rq_Agent inp, rq_ModelID inp, rq_GitURL inp],
      s_sequence = 1, s_task_id = taskID, s_harness = nullString (rq_Harness inp),
      s_mcp_endpoints = Some (normalizeMcpEndpointNames (rq_McpEndpoints inp)),
      s_commit_author_name = Some (gi_AuthorName identity),
      s_commit_author_email = Some (gi_AuthorEmail identity),
      s_git_identity_id = nullString (gi_ID identity), s_skills = rq_Skills inp,
      s_env = sanitizeTaskEnv (rq_Env inp), s_summary = None, s_started_at = Some now,
      s_ended_at = None, s_isolation_required = submit_isolation cfg inp,
      s_repos = MarshalRepoRefs (rq_Repos inp)\<rparr>"

definition submit_tx ::
  "svc_config \<Rightarrow> time \<Rightarrow> string \<Rightarrow> string \<Rightarrow> string \<Rightarrow> string \<Rightarrow> string \<Rightarrow> string \<Rightarrow> int \<Rightarrow> git_identity \<Rightarrow>
   SubmitTaskRequest \<Rightarrow> task tx" where
  "submit_tx cfg now taskID sessionID promptID attemptID teamID githubRepo installation identity inp d =
     bind_res (wrap_err ''insert task''
       (InsertTask (submitted_task now taskID teamID githubRepo installation inp) d)) (\<lambda>d1.
     bind_res (wrap_err ''insert agent session''
       (InsertAgentSession (submitted_session cfg now sessionID taskID teamID identity inp) d1)) (\<lambda>d2.
     bind_res (wrap_err ''insert user prompt''
       (InsertUserPrompt promptID sessionID taskID 1 ''pending'' (rq_Prompt inp) None now now d2)) (\<lambda>d3.
     bind_res (wrap_err ''insert pending execution attempt''
       (InsertPendingExecutionAttempt attemptID promptID 1 None (to_int32 (rq_TimeoutSec inp)) now now d3)) (\<lambda>d4.
     bind_res (wrap_err ''get task'' (GetTaskByID taskID d4)) (\<lambda>t. Inr (t, d4))))))"

text \<open>The row of \<^verbatim>\<open>trigger_runs\<close>, written after the commit; its errors are only logged.\<close>

definition InsertTriggerRun :: "trigger_run \<Rightarrow> db \<Rightarrow> db" where
  "InsertTriggerRun r d =
     (if tr_id r \<in> tr_id ` set (trigger_runs d)
      then d\<lparr>trigger_runs := sql_update (\<lambda>x. tr_id x = tr_id r) (\<lambda>x. x\<lparr>tr_status := tr_status r\<rparr>) (trigger_runs d)\<rparr>
      else d\<lparr>trigger_runs := trigger_runs d @ [r]\<rparr>)"

definition record_trigger_run ::
  "submit_env \<Rightarrow> string \<Rightarrow> string \<Rightarrow> SubmitTaskRequest \<Rightarrow> db \<Rightarrow> db" where
  "record_trigger_run env taskID teamID inp d =
     (if rq_TriggerName inp = [] then d
      else (case sv_trigger_by_name env (rq_TriggerName inp) of
          None \<Rightarrow> d
        | Some trig \<Rightarrow>
            (case sv_run_id env of None \<Rightarrow> d
             | Some runID \<Rightarrow> InsertTriggerRun
                 \<lparr>tr_id = runID, tr_task_id = taskID, tr_status = ''submitted'', tr_created_at = sv_now env,
                  tr_team_id = nullString teamID, tr_trigger_id = trig, tr_triggered_at = sv_now env\<rparr> d)))"

definition submit_prompt :: "string \<Rightarrow> SubmitTaskRequest \<Rightarrow> string" where
  "submit_prompt taskID inp =
     expandChetterPromptVars (rq_Prompt inp)
       [(''CHETTER_AGENT_NAME'', rq_Agent inp), (''CHETTER_MODEL_ID'', rq_ModelID inp),
        (''CHETTER_TASK_ID'', taskID), (''CHETTER_RUNNER_IMAGE'', rq_AgentImage inp),
        (''CHETTER_RUNNER_IMAGE_DIGEST'', ''unknown'')]"

text \<open>
  The result is the stored task; the state is the database and the in-process redaction sets. A
  rejected submission leaves both as they were.
\<close>

definition SubmitTask ::
  "svc_config \<Rightarrow> submit_env \<Rightarrow> SubmitTaskRequest \<Rightarrow> rpc_state \<times> db \<Rightarrow> error + task \<times> rpc_state \<times> db" where
  "SubmitTask cfg env inp0 = (\<lambda>(st, d).
     bind_res (guard_res (rq_Prompt inp0 \<noteq> []) (Errorf ''prompt is required'')) (\<lambda>_.
     let inp1 = with_primary_repo inp0 in
     bind_res (submit_checks cfg inp1) (\<lambda>_.
     bind_res (submit_defaults cfg inp1) (\<lambda>inp2.
     bind_res (resolveOwnerTeamID (sv_scope env) (sv_team_by_name env) (rq_TeamID inp2) (rq_TeamName inp2)) (\<lambda>teamID.
     bind_res (taskGitHubMetadata inp2) (\<lambda>(githubRepo, installation).
     bind_res (sv_identity env (rq_Agent inp2) teamID (rq_GitURL inp2)) (\<lambda>identity.
     bind_res (if rq_ExplicitTaskID inp2 \<noteq> [] then Inr (rq_ExplicitTaskID inp2)
               else need_id ''generate task id'' (sv_task_id env)) (\<lambda>taskID.
     let inp3 = inp2\<lparr>rq_Prompt := submit_prompt taskID inp2\<rparr> in
     bind_res (need_id ''generate session id'' (sv_session_id env)) (\<lambda>sessionID.
     bind_res (need_id ''generate user prompt id'' (sv_prompt_id env)) (\<lambda>promptID.
     bind_res (need_id ''generate execution attempt id'' (sv_attempt_id env)) (\<lambda>attemptID.
     bind_res (let names = normalizeMcpEndpointNames (rq_McpEndpoints inp3)
               in if names = [] then Inr () else sv_endpoints env names teamID) (\<lambda>_.
     bind_res (withPendingTaskAdmission cfg env
         (submit_tx cfg (sv_now env) taskID sessionID promptID attemptID teamID githubRepo installation
           identity inp3) d) (\<lambda>(t, d1).
     Inr (t,
       (if rq_Env inp3 = [] then st else RegisterRedactSet sessionID (Some (NewSet (rq_Env inp3))) st),
       record_trigger_run env taskID teamID inp3 (notifyTaskClaimable d1)))))))))))))))"

section \<open>RecoverTask and RerunTask\<close>

definition taskForToolAccess :: "submit_env \<Rightarrow> string \<Rightarrow> db \<Rightarrow> error + task" where
  "taskForToolAccess env tid d =
     bind_res (GetTaskByID tid d) (\<lambda>t.
     bind_res (authorizeTaskToolAccess (sv_scope env) t) (\<lambda>_. Inr t))"

definition terminal_status :: "string \<Rightarrow> bool" where
  "terminal_status st = (st = ''error'' \<or> st = ''done'' \<or> st = ''cancelled'')"

definition terminal_original :: "submit_env \<Rightarrow> string \<Rightarrow> db \<Rightarrow> error + task" where
  "terminal_original env tid d =
     bind_res (wrap_err ''get original task'' (taskForToolAccess env tid d)) (\<lambda>orig.
     bind_res (guard_res (terminal_status (t_status orig))
       (Errorf (''task '' @ tid @ '' is '' @ t_status orig @ '', not a terminal state''))) (\<lambda>_. Inr orig))"

text \<open>The dash in the recovery prompt, in UTF-8.\<close>

definition em_dash :: string where
  "em_dash = map char_of [226 :: nat, 128, 148]"

definition recovery_prompt :: "string \<Rightarrow> string \<Rightarrow> string \<Rightarrow> string" where
  "recovery_prompt tid customPrompt original =
     (if trim_space customPrompt \<noteq> [] then trim_space customPrompt
      else ''The file chetter_recovery_'' @ tid @
        ''.md in the workspace is the complete transcript of a previous session that attempted this work but did not succeed. '' @
        ''Please review the previous session thoroughly, understand what was accomplished and what went wrong, then finish the work. '' @
        ''Use the context from the previous session to continue efficiently '' @ em_dash @
        '' you don't need to redo work that was already completed successfully.'' @ [char_of (10 :: nat), char_of (10 :: nat)] @
        ''Original task:'' @ [char_of (10 :: nat)] @ original)"

text \<open>The timeout of the last attempt of a prompt, or the default.\<close>

definition last_timeout :: "int \<Rightarrow> execution_attempt list \<Rightarrow> int" where
  "last_timeout dflt attempts = (if attempts = [] then dflt else a_timeout_sec (last attempts))"

text \<open>
  The settings a new session takes over from an old one: every column of the insert but the
  identifiers, the times, the expiry and the search text. The repository set is not among them.
\<close>

definition inherited_session ::
  "time \<Rightarrow> string \<Rightarrow> string \<Rightarrow> int \<Rightarrow> time option \<Rightarrow> string option \<Rightarrow> agent_session \<Rightarrow> agent_session" where
  "inherited_session now sid tid sequence expires searchText old =
     old\<lparr>s_id := sid, s_task_id := tid, s_sequence := sequence, s_status := ''running'',
       s_expires_at := expires, s_search_text := searchText, s_repos := None,
       s_created_at := now, s_updated_at := now, s_started_at := Some now\<rparr>"

definition recovery_summary :: "string \<Rightarrow> agent_session \<Rightarrow> string" where
  "recovery_summary sid old = ''Started recovery session '' @ sid @ '' from '' @ s_id old"

definition recovery_payload ::
  "string \<Rightarrow> string \<Rightarrow> string \<Rightarrow> agent_session \<Rightarrow> user_prompt \<Rightarrow> payload" where
  "recovery_payload tid sid pid old oldPrompt = JsonObject
     [(''task_id'', JStr tid), (''old_agent_session_id'', JStr (s_id old)),
      (''new_agent_session_id'', JStr sid), (''old_user_prompt_id'', JStr (p_id oldPrompt)),
      (''new_user_prompt_id'', JStr pid), (''reason'', JStr ''explicit_recovery''),
      (''status'', JStr ''pending''), (''summary'', JStr (recovery_summary sid old))]"

definition recovery_event ::
  "time \<Rightarrow> string \<Rightarrow> task \<Rightarrow> string \<Rightarrow> payload \<Rightarrow> callback_event" where
  "recovery_event now event_id orig summary pay =
     \<lparr>ev_id = event_id, ev_task_id = t_id orig, ev_team_id = str_of (t_team_id orig),
      ev_subject = ''control.recovery.'' @ t_id orig, ev_status = ''pending'',
      ev_event_type = ''task.session_restarted'', ev_summary = summary, ev_error = [],
      ev_error_category = [], ev_payload = pay, ev_created_at = now\<rparr>"

definition recovery_event_row :: "callback_event \<Rightarrow> string \<Rightarrow> string \<Rightarrow> task_event" where
  "recovery_event_row ev sid pid =
     \<lparr>e_id = ev_id ev, e_task_id = ev_task_id ev, e_subject = ev_subject ev, e_status = ev_status ev,
      e_payload = ev_payload ev, e_created_at = ev_created_at ev, e_agent_session_id = nullString sid,
      e_user_prompt_id = nullString pid, e_execution_attempt_id = None,
      e_event_type = ev_event_type ev\<rparr>"

text \<open>Session, prompt and attempt of a recovery, for the task that was requeued.\<close>

definition recover_hierarchy ::
  "time \<Rightarrow> string \<Rightarrow> string \<Rightarrow> string \<Rightarrow> string \<Rightarrow> string \<Rightarrow> int \<Rightarrow> int \<Rightarrow> agent_session \<Rightarrow> user_prompt \<Rightarrow>
   db \<Rightarrow> error + db" where
  "recover_hierarchy now tid sid pid aid prompt sequence timeout oldSession oldPrompt d =
     bind_res (wrap_err ''insert recovery session'' (InsertAgentSession
       (inherited_session now sid tid sequence
         (if s_resume_mode oldSession \<noteq> ''none'' then Some (now + 72 * hour) else None)
         (search_text [sid, str_of (s_agent oldSession), str_of (s_model_id oldSession), str_of (s_git_url oldSession)])
         oldSession) d)) (\<lambda>d1.
     bind_res (wrap_err ''insert recovery prompt''
       (InsertUserPrompt pid sid tid 1 ''pending'' prompt (nullString (p_id oldPrompt)) now now d1)) (\<lambda>d2.
     wrap_err ''insert recovery execution attempt''
       (InsertPendingExecutionAttempt aid pid 1 None timeout now now d2)))"

definition recover_tx ::
  "svc_config \<Rightarrow> time \<Rightarrow> dispatcher \<Rightarrow> string \<Rightarrow> string \<Rightarrow> string \<Rightarrow> string \<Rightarrow> string \<Rightarrow> task \<Rightarrow> unit tx" where
  "recover_tx cfg now cbs sid pid aid event_id prompt orig d =
     (let tid = t_id orig in
      bind_res (wrap_err ''get recovery source session'' (GetAgentSessionByTaskID tid d)) (\<lambda>oldSession.
      bind_res (wrap_err ''get recovery source prompt'' (GetUserPromptByTaskID tid d)) (\<lambda>oldPrompt.
      bind_res (guard_res (trim_space (str_of (p_session_export oldPrompt)) \<noteq> [])
        (Errorf (''no session export available for task '' @ tid))) (\<lambda>_.
      let timeout = last_timeout (to_int32 (DefaultTaskTimeoutSec cfg))
            (ListExecutionAttemptsByPrompt (p_id oldPrompt) d);
          sequence = GetNextAgentSessionSequence tid d;
          (d1, rows) = RequeueTaskForPrompt now tid d in
      bind_res (guard_res (rows \<noteq> 0) (Errorf (''task '' @ tid @ '' is not in a terminal state''))) (\<lambda>_.
      bind_res (recover_hierarchy now tid sid pid aid prompt sequence timeout oldSession oldPrompt d1) (\<lambda>d2.
      let ev = recovery_event now event_id orig (recovery_summary sid oldSession)
            (recovery_payload tid sid pid oldSession oldPrompt) in
      bind_res (wrap_err ''insert recovery event'' (InsertTaskEvent (recovery_event_row ev sid pid) d2)) (\<lambda>d3.
      bind_res (wrap_err ''enqueue recovery event callback deliveries'' (dispatch cbs ev d3)) (\<lambda>d4.
      Inr ((), d4)))))))))"

definition RecoverTask ::
  "svc_config \<Rightarrow> submit_env \<Rightarrow> dispatcher \<Rightarrow> string \<Rightarrow> string \<Rightarrow> unit tx" where
  "RecoverTask cfg env cbs tid customPrompt d =
     bind_res (terminal_original env tid d) (\<lambda>orig.
     bind_res (need_id ''generate recovery session id'' (sv_session_id env)) (\<lambda>sid.
     bind_res (need_id ''generate recovery prompt id'' (sv_prompt_id env)) (\<lambda>pid.
     bind_res (need_id ''generate recovery attempt id'' (sv_attempt_id env)) (\<lambda>aid.
     bind_res (need_id ''generate recovery event id'' (sv_event_id env)) (\<lambda>event_id.
     bind_res (withPendingTaskAdmission cfg env
       (recover_tx cfg (sv_now env) cbs sid pid aid event_id
         (recovery_prompt tid customPrompt (t_prompt orig)) orig) d) (\<lambda>(_, d1).
     Inr ((), notifyTaskClaimable d1)))))))"

definition rerun_task :: "time \<Rightarrow> string \<Rightarrow> task \<Rightarrow> agent_session \<Rightarrow> insert_task_params" where
  "rerun_task now newID orig session =
     \<lparr>it_id = newID, it_team_id = nullString (str_of (t_team_id orig)), it_prompt = t_prompt orig,
      it_git_url = t_git_url orig, it_git_ref = t_git_ref orig, it_repos = None,
      it_github_repo = t_github_repo orig, it_github_installation_id = t_github_installation_id orig,
      it_trigger_name = None, it_trigger_type = None, it_submission_source = ''rerun'',
      it_self_test_run_id = None, it_self_test_profile = None, it_self_test_check = None,
      it_self_test_nonce = None, it_callback_parent_task_id = None, it_callback_depth = 0,
      it_search_text = search_text [t_prompt orig, str_of (s_agent session), str_of (s_model_id session),
        str_of (t_git_url orig)],
      it_created_at = now, it_updated_at = now\<rparr>"

definition rerun_tx ::
  "time \<Rightarrow> string \<Rightarrow> string \<Rightarrow> string \<Rightarrow> string \<Rightarrow> int \<Rightarrow> task \<Rightarrow> agent_session \<Rightarrow> unit tx" where
  "rerun_tx now newID sid pid aid timeout orig session d =
     bind_res (wrap_err ''insert rerun task'' (InsertTask (rerun_task now newID orig session) d)) (\<lambda>d1.
     bind_res (wrap_err ''insert rerun agent session'' (InsertAgentSession
       (inherited_session now sid newID 1 None
         (search_text [sid, str_of (s_agent session), str_of (s_model_id session), str_of (t_git_url orig)])
         session) d1)) (\<lambda>d2.
     bind_res (wrap_err ''insert rerun user prompt''
       (InsertUserPrompt pid sid newID 1 ''pending'' (t_prompt orig) None now now d2)) (\<lambda>d3.
     bind_res (wrap_err ''insert rerun execution attempt''
       (InsertPendingExecutionAttempt aid pid 1 None (to_int32 timeout) now now d3)) (\<lambda>d4.
     Inr ((), d4)))))"

definition RerunTask :: "svc_config \<Rightarrow> submit_env \<Rightarrow> string \<Rightarrow> string tx" where
  "RerunTask cfg env tid d =
     bind_res (terminal_original env tid d) (\<lambda>orig.
     bind_res (wrap_err ''get source agent session'' (GetAgentSessionByTaskID tid d)) (\<lambda>session.
     bind_res (wrap_err ''get source user prompt'' (GetUserPromptByTaskID tid d)) (\<lambda>prompt.
     let timeout = last_timeout (DefaultTaskTimeoutSec cfg) (ListExecutionAttemptsByPrompt (p_id prompt) d) in
     bind_res (need_id ''generate new task id'' (sv_task_id env)) (\<lambda>newID.
     bind_res (need_id ''generate new session id'' (sv_session_id env)) (\<lambda>sid.
     bind_res (need_id ''generate new prompt id'' (sv_prompt_id env)) (\<lambda>pid.
     bind_res (need_id ''generate new attempt id'' (sv_attempt_id env)) (\<lambda>aid.
     bind_res (withPendingTaskAdmission cfg env
       (rerun_tx (sv_now env) newID sid pid aid timeout orig session) d) (\<lambda>(_, d1).
     Inr (newID, notifyTaskClaimable d1)))))))))"

section \<open>ResumeAgentSession\<close>

definition resume_checks :: "submit_env \<Rightarrow> string \<Rightarrow> db \<Rightarrow> error + agent_session" where
  "resume_checks env sid d =
     bind_res (wrap_err ''get agent session'' (GetAgentSessionByID sid d)) (\<lambda>s.
     bind_res (authorizeAgentSessionAccess (sv_scope env) s) (\<lambda>_.
     bind_res (guard_res (resumable_status s)
       (Errorf (''agent session is not resumable from status: '' @ s_status s))) (\<lambda>_.
     bind_res (guard_res (s_resume_mode s = ''gvisor_checkpoint'' \<or> s_resume_mode s = ''harness_session'')
       (Errorf (''agent session is not resumable (resume_mode: '' @ s_resume_mode s @ '')''))) (\<lambda>_.
     bind_res (guard_res (str_of (s_pinned_runner_id s) \<noteq> []) (Errorf ''agent session has no pinned runner'')) (\<lambda>_.
     bind_res (guard_res (str_of (s_workspace_path s) \<noteq> []) (Errorf ''agent session has no workspace path'')) (\<lambda>_.
     bind_res
       (if s_resume_mode s = ''gvisor_checkpoint'' then
          bind_res (guard_res (str_of (s_checkpoint_id s) \<noteq> []) (Errorf ''agent session has no checkpoint'')) (\<lambda>_.
          bind_res (wrap_err ''get checkpoint'' (GetLatestAgentSessionCheckpoint sid d)) (\<lambda>k.
          guard_res (k_status k = ''ready'')
            (Errorf (''checkpoint not ready (status: '' @ k_status k @ '')''))))
        else guard_res (str_of (s_harness_session_id s) \<noteq> [])
          (Errorf ''agent session has no harness session ID'')) (\<lambda>_.
     bind_res
       (let names = (case s_mcp_endpoints s of None \<Rightarrow> [] | Some ns \<Rightarrow> ns) in
        if names = [] then Inr ()
        else wrap_err ''resolve session MCP endpoints'' (sv_endpoints env names (str_of (s_team_id s)))) (\<lambda>_.
     bind_res (guard_res (IsRunnerAlive (sv_dbnow env) (str_of (s_pinned_runner_id s)) 120 d)
       (Errorf (''pinned runner '' @ str_of (s_pinned_runner_id s) @ '' is not alive''))) (\<lambda>_.
     bind_res (guard_res (s_task_id s \<noteq> []) (Errorf ''agent session has no task'')) (\<lambda>_. Inr s))))))))))"

definition resume_tx ::
  "time \<Rightarrow> string \<Rightarrow> string \<Rightarrow> string \<Rightarrow> int \<Rightarrow> agent_session \<Rightarrow> task tx" where
  "resume_tx now pid aid prompt timeout s d =
     (let sid = s_id s; tid = s_task_id s; sequence = GetNextUserPromptSequence sid d;
          (d1, rows) = RequeueTaskForPrompt now tid d in
      bind_res (guard_res (rows \<noteq> 0) (Errorf (''task '' @ tid @ '' is not in a terminal state''))) (\<lambda>_.
      bind_res (wrap_err ''insert user prompt''
        (InsertUserPrompt pid sid tid sequence ''pending'' prompt None now now d1)) (\<lambda>d2.
      bind_res (wrap_err ''insert pending execution attempt''
        (InsertPendingExecutionAttempt aid pid 1 (Some (str_of (s_pinned_runner_id s))) (to_int32 timeout)
          now now d2)) (\<lambda>d3.
      let (d4, resumed) = MarkAgentSessionResuming ''resuming'' now sid d3 in
      bind_res (guard_res (resumed \<noteq> 0)
        (Errorf (''agent session '' @ sid @ '' is no longer resumable (status changed)''))) (\<lambda>_.
      bind_res (wrap_err ''get task'' (GetTaskByID tid d4)) (\<lambda>t. Inr (t, d4)))))))"

definition ResumeAgentSession ::
  "svc_config \<Rightarrow> submit_env \<Rightarrow> string \<Rightarrow> string \<Rightarrow> int \<Rightarrow> task tx" where
  "ResumeAgentSession cfg env sid prompt timeoutSec d =
     bind_res (resume_checks env sid d) (\<lambda>s.
     bind_res (need_id ''generate user prompt id'' (sv_prompt_id env)) (\<lambda>pid.
     bind_res (need_id ''generate execution attempt id'' (sv_attempt_id env)) (\<lambda>aid.
     bind_res (withPendingTaskAdmission cfg env
       (resume_tx (sv_now env) pid aid prompt
         (if timeoutSec = 0 then DefaultTaskTimeoutSec cfg else timeoutSec) s) d) (\<lambda>(t, d1).
     Inr (t, notifyTaskClaimable d1)))))"

section \<open>CancelTask, ExtendTaskTimeout and ClearQueue\<close>

definition cancel_tx :: "time \<Rightarrow> string \<Rightarrow> string \<Rightarrow> unit tx" where
  "cancel_tx now reason tid d =
     (let (d1, rows) = CancelExecutionAttemptsByTask (Some reason) (Some now) now tid d in
      bind_res (guard_res (rows \<noteq> 0) (Errorf (''task '' @ tid @ '' is not pending or running''))) (\<lambda>_.
      let (d2, rows2) = CancelTask_sql (Some reason) (Some reason) (Some now) now tid d1 in
      bind_res (guard_res (rows2 \<noteq> 0) (Errorf (''task '' @ tid @ '' is not pending or running''))) (\<lambda>_.
      Inr ((), d2))))"

definition CancelTask :: "submit_env \<Rightarrow> string \<Rightarrow> string \<Rightarrow> unit tx" where
  "CancelTask env tid reason0 d =
     bind_res (taskForToolAccess env tid d) (\<lambda>_.
     bind_res (cancel_tx (sv_now env) (if reason0 = [] then ''cancelled by operator'' else reason0) tid d)
       (\<lambda>(_, d1). Inr ((), UpdateTriggerRunStatusByTask ''cancelled'' tid d1)))"

definition ExtendTaskTimeout :: "submit_env \<Rightarrow> string \<Rightarrow> int \<Rightarrow> unit tx" where
  "ExtendTaskTimeout env tid extensionSec d =
     bind_res (guard_res (extensionSec > 0) (Errorf ''extension must be greater than zero'')) (\<lambda>_.
     bind_res (taskForToolAccess env tid d) (\<lambda>_.
     let (d1, rows) = ExtendActiveExecutionAttemptTimeout (to_int32 extensionSec) (sv_now env) tid d in
     bind_res (guard_res (rows \<noteq> 0) (Errorf (''task '' @ tid @ '' is not pending or running''))) (\<lambda>_.
     Inr ((), d1))))"

definition ClearQueue :: "submit_env \<Rightarrow> nat tx" where
  "ClearQueue env d =
     bind_res (guard_res (isAdmin (sv_scope env)) (Errorf ''admin access required'')) (\<lambda>_.
     let reason = Some ''cancelled by chetter_clear_queue''; now = sv_now env;
         d1 = fst (CancelPendingExecutionAttempts reason (Some now) now d);
         (d2, cancelled) = ClearPendingTasks reason reason (Some now) now d1
     in Inr (cancelled, d2))"

section \<open>Every operation advances the database\<close>

lemma admission_Inr:
  assumes "withPendingTaskAdmission cfg env fn d = Inr r"
  shows "fn d = Inr r \<and> (0 < MaxPendingTasks cfg \<longrightarrow> CountPendingTasks d < MaxPendingTasks cfg)"
  using assms by (auto simp: withPendingTaskAdmission_def Let_def split: if_splits option.splits)

lemma good_notify: "good_update d (notifyTaskClaimable d)"
  by (rule good_other_tables) (simp_all add: notifyTaskClaimable_def bumpClaimNotifyCounter_def)

lemma submitted_session_key [simp]:
  "s_id (submitted_session cfg now sid tid team identity inp) = sid"
  "s_task_id (submitted_session cfg now sid tid team identity inp) = tid"
  "s_isolation_required (submitted_session cfg now sid tid team identity inp) = submit_isolation cfg inp"
  by (simp_all add: submitted_session_def)

lemma inherited_session_key [simp]:
  "s_id (inherited_session now sid tid n ex st old) = sid"
  "s_task_id (inherited_session now sid tid n ex st old) = tid"
  "s_isolation_required (inherited_session now sid tid n ex st old) = s_isolation_required old"
  "s_resume_mode (inherited_session now sid tid n ex st old) = s_resume_mode old"
  by (simp_all add: inherited_session_def)

lemma task_params_key [simp]:
  "it_id (submitted_task now tid team repo inst inp) = tid"
  "it_id (rerun_task now tid orig session) = tid"
  by (simp_all add: submitted_task_def rerun_task_def)

lemma InsertTask_adds: "InsertTask q d = Inr d' \<Longrightarrow> it_id q \<in> t_id ` set (tasks d')"
  by (auto simp: InsertTask_def)

text \<open>A new task with its first session, prompt and attempt.\<close>

lemma advances_new_task:
  assumes task: "InsertTask q d = Inr d1" and "InsertAgentSession s d1 = Inr d2"
    and "InsertUserPrompt pid (s_id s) (s_task_id s) n st pr src c u d2 = Inr d3"
    and "InsertPendingExecutionAttempt aid pid m req tmo c' u' d3 = Inr d4"
    and key: "s_task_id s = it_id q"
  shows "advances d d4"
proof -
  have later: "db_later d d1" using task by (rule later_inserts)
  have "session_fits s d1" if "wf_db d" using that task key by (rule fits_new_task)
  moreover have "s_task_id s \<in> t_id ` set (tasks d1)" using InsertTask_adds [OF task] key by simp
  ultimately have "wf_db d4" if "wf_db d"
    using that advances_new_execution [OF assms(2-4)] wf_InsertTask [OF task] by (simp add: advances_def)
  moreover have "db_later d1 d4"
    using later_inserts(2) [OF assms(2)] later_inserts(3) [OF assms(3)] later_inserts(4) [OF assms(4)]
    by (blast intro: db_later_trans)
  ultimately show ?thesis using db_later_trans [OF later] by (simp add: advances_def)
qed

lemma submit_tx_advances:
  assumes "submit_tx cfg now tid sid pid aid team repo inst identity inp d = Inr (t, d')"
  shows "advances d d'"
proof -
  let ?q = "submitted_task now tid team repo inst inp"
  let ?s = "submitted_session cfg now sid tid team identity inp"
  from assms obtain d1 d2 d3 where ins: "InsertTask ?q d = Inr d1"
      "InsertAgentSession ?s d1 = Inr d2" "InsertUserPrompt pid sid tid 1 ''pending'' (rq_Prompt inp) None now now d2 = Inr d3"
      "InsertPendingExecutionAttempt aid pid 1 None (to_int32 (rq_TimeoutSec inp)) now now d3 = Inr d'"
    by (auto simp: submit_tx_def)
  then show ?thesis by (intro advances_new_task [of ?q d d1 ?s]) simp_all
qed

lemma record_trigger_run_good: "good_update d (record_trigger_run env tid team inp d)"
  by (rule good_other_tables)
    (simp_all add: record_trigger_run_def InsertTriggerRun_def split: option.splits)

lemma SubmitTask_tx:
  assumes "SubmitTask cfg env inp (st, d) = Inr (t, st', d')"
  obtains inp3 tid sid pid aid team repo inst identity d1 where
    "withPendingTaskAdmission cfg env
       (submit_tx cfg (sv_now env) tid sid pid aid team repo inst identity inp3) d = Inr (t, d1)"
    "d' = record_trigger_run env tid team inp3 (notifyTaskClaimable d1)"
    "submit_isolation cfg inp3 = submit_isolation cfg (with_primary_repo inp)"
    "submit_checks cfg (with_primary_repo inp) = Inr ()"
    "resolveOwnerTeamID (sv_scope env) (sv_team_by_name env) (rq_TeamID inp) (rq_TeamName inp) = Inr team"
    "rq_Env inp3 = rq_Env inp" "sv_session_id env = Some sid"
    "st' = (if rq_Env inp = [] then st else RegisterRedactSet sid (Some (NewSet (rq_Env inp))) st)"
    "rq_CallbackDepth inp3 = rq_CallbackDepth inp" "rq_CallbackParentTaskID inp3 = rq_CallbackParentTaskID inp"
    "rq_ExplicitTaskID inp \<noteq> [] \<Longrightarrow> tid = rq_ExplicitTaskID inp"
proof -
  have team: "rq_TeamID (with_primary_repo inp) = rq_TeamID inp" "rq_TeamName (with_primary_repo inp) = rq_TeamName inp"
    "rq_Env (with_primary_repo inp) = rq_Env inp"
    "rq_CallbackDepth (with_primary_repo inp) = rq_CallbackDepth inp"
    "rq_CallbackParentTaskID (with_primary_repo inp) = rq_CallbackParentTaskID inp"
    "rq_ExplicitTaskID (with_primary_repo inp) = rq_ExplicitTaskID inp"
    by (simp_all add: with_primary_repo_def Let_def split: option.splits)
  obtain inp2 team repo inst identity tid sid pid aid d1 where
      checks: "submit_checks cfg (with_primary_repo inp) = Inr ()"
      and dflt: "submit_defaults cfg (with_primary_repo inp) = Inr inp2"
      and owner: "resolveOwnerTeamID (sv_scope env) (sv_team_by_name env) (rq_TeamID inp2) (rq_TeamName inp2) = Inr team"
      and tid: "(if rq_ExplicitTaskID inp2 \<noteq> [] then Inr (rq_ExplicitTaskID inp2)
         else need_id ''generate task id'' (sv_task_id env)) = Inr tid"
      and sid: "need_id ''generate session id'' (sv_session_id env) = Inr sid"
      and adm: "withPendingTaskAdmission cfg env (submit_tx cfg (sv_now env) tid sid pid aid team repo inst identity
           (inp2\<lparr>rq_Prompt := submit_prompt tid inp2\<rparr>)) d = Inr (t, d1)"
      and d': "d' = record_trigger_run env tid team (inp2\<lparr>rq_Prompt := submit_prompt tid inp2\<rparr>) (notifyTaskClaimable d1)"
      and st': "st' = (if rq_Env inp2 = [] then st else RegisterRedactSet sid
         (Some (NewSet (rq_Env (inp2\<lparr>rq_Prompt := submit_prompt tid inp2\<rparr>)))) st)"
    using assms unfolding SubmitTask_def Let_def by (auto simp del: if_not_P if_P split del: if_split)
  from dflt have inp2: "rq_TeamID inp2 = rq_TeamID inp" "rq_TeamName inp2 = rq_TeamName inp" "rq_Env inp2 = rq_Env inp"
      "rq_CallbackDepth inp2 = rq_CallbackDepth inp" "rq_CallbackParentTaskID inp2 = rq_CallbackParentTaskID inp"
      "rq_ExplicitTaskID inp2 = rq_ExplicitTaskID inp"
      "submit_isolation cfg inp2 = submit_isolation cfg (with_primary_repo inp)"
    by (auto simp: submit_defaults_def submit_isolation_def submit_resume_mode_def team)
  have iso: "submit_isolation cfg (inp2\<lparr>rq_Prompt := x\<rparr>) = submit_isolation cfg inp2" for x
    by (simp add: submit_isolation_def submit_resume_mode_def)
  from sid have sid': "sv_session_id env = Some sid" by (simp add: need_id_def)
  have tid': "tid = rq_ExplicitTaskID inp" if "rq_ExplicitTaskID inp \<noteq> []" using tid that inp2(6) by simp
  show thesis
    by (rule that [OF adm d']) (use inp2 iso checks owner sid' st' tid' in simp_all)
qed

lemma SubmitTask_advances: "SubmitTask cfg env inp (st, d) = Inr (t, st', d') \<Longrightarrow> advances d d'"
proof (erule SubmitTask_tx)
  fix inp3 tid sid pid aid team repo inst identity d1
  assume "withPendingTaskAdmission cfg env
       (submit_tx cfg (sv_now env) tid sid pid aid team repo inst identity inp3) d = Inr (t, d1)"
    and d': "d' = record_trigger_run env tid team inp3 (notifyTaskClaimable d1)"
  then have "advances d d1" using admission_Inr submit_tx_advances by blast
  moreover have "good_update d1 d'"
    unfolding d' by (rule good_update_trans [OF good_notify record_trigger_run_good])
  ultimately show "advances d d'" using good_advances advances_trans by blast
qed

lemma requeue_task_exists:
  assumes "snd (RequeueTaskForPrompt now tid d) \<noteq> 0"
  shows "tid \<in> t_id ` set (tasks (fst (RequeueTaskForPrompt now tid d)))"
proof -
  from assms obtain t where "t \<in> set (tasks d)" "t_id t = tid"
    by (auto simp: RequeueTaskForPrompt_def upd_tasks_def sql_affected_pos_iff)
  moreover have "good_update d (fst (RequeueTaskForPrompt now tid d))" by (rule keep_intros)
  then have "t_id ` set (tasks d) \<subseteq> t_id ` set (tasks (fst (RequeueTaskForPrompt now tid d)))"
    unfolding good_update_def by (intro later_keys) simp
  ultimately show ?thesis by auto
qed

lemma recover_hierarchy_advances:
  assumes "recover_hierarchy now tid sid pid aid prompt n timeout old oldPrompt d = Inr d'"
    and "tid \<in> t_id ` set (tasks d)" and "old \<in> set (agent_sessions d)" "s_task_id old = tid"
  shows "advances d d'"
proof -
  from assms(1) obtain ex stx d1 d2 where ins: "InsertAgentSession (inherited_session now sid tid n ex stx old) d = Inr d1"
      "InsertUserPrompt pid sid tid 1 ''pending'' prompt (nullString (p_id oldPrompt)) now now d1 = Inr d2"
      "InsertPendingExecutionAttempt aid pid 1 None timeout now now d2 = Inr d'"
    by (auto simp: recover_hierarchy_def)
  then show ?thesis
    using assms(2-4) by (intro advances_new_execution [of "inherited_session now sid tid n ex stx old"])
      (simp_all add: fits_successor)
qed

lemma rerun_tx_advances:
  assumes "rerun_tx now newID sid pid aid timeout orig session d = Inr (u, d')"
  shows "advances d d'"
proof -
  from assms obtain stx d1 d2 d3 where ins: "InsertTask (rerun_task now newID orig session) d = Inr d1"
      "InsertAgentSession (inherited_session now sid newID 1 None stx session) d1 = Inr d2"
      "InsertUserPrompt pid sid newID 1 ''pending'' (t_prompt orig) None now now d2 = Inr d3"
      "InsertPendingExecutionAttempt aid pid 1 None (to_int32 timeout) now now d3 = Inr d'"
    by (auto simp: rerun_tx_def)
  then show ?thesis
    by (intro advances_new_task [of "rerun_task now newID orig session" d d1
          "inherited_session now sid newID 1 None stx session"]) simp_all
qed

lemma RerunTask_advances:
  assumes "RerunTask cfg env tid d = Inr (newID, d')"
  shows "advances d d'"
proof -
  from assms obtain sid pid aid timeout orig session u d1 where
    "withPendingTaskAdmission cfg env (rerun_tx (sv_now env) newID sid pid aid timeout orig session) d = Inr (u, d1)"
    and d': "d' = notifyTaskClaimable d1"
    by (auto simp: RerunTask_def Let_def)
  then have "advances d d1" using admission_Inr rerun_tx_advances by blast
  then show ?thesis unfolding d' using advances_trans good_advances [OF good_notify] by blast
qed

lemma resume_checks_session: "resume_checks env sid d = Inr s \<Longrightarrow> s \<in> set (agent_sessions d) \<and> s_id s = sid"
  by (auto simp: resume_checks_def Let_def GetAgentSessionByID_def sql_one_Inr_iff dest!: find_SomeD)

lemma resume_tx_advances:
  assumes "resume_tx now pid aid prompt timeout s d = Inr (t, d')" and "s \<in> set (agent_sessions d)"
  shows "advances d d'"
proof -
  let ?r = "RequeueTaskForPrompt now (s_task_id s) d"
  from assms(1) obtain n req tmo d2 d3 where rows: "snd ?r \<noteq> 0"
      and ins: "InsertUserPrompt pid (s_id s) (s_task_id s) n ''pending'' prompt None now now (fst ?r) = Inr d2"
      "InsertPendingExecutionAttempt aid pid 1 req tmo now now d2 = Inr d3"
      and d': "d' = fst (MarkAgentSessionResuming ''resuming'' now (s_id s) d3)"
    by (auto simp: resume_tx_def Let_def case_prod_unfold)
  have good: "good_update d (fst ?r)" by (rule keep_intros)
  have "(s_id s, s_task_id s) \<in> (\<lambda>s. (s_id s, s_task_id s)) ` set (agent_sessions (fst ?r))"
    using assms(2) by (auto simp: RequeueTaskForPrompt_def upd_tasks_def)
  then have "advances (fst ?r) d2"
    using advances_InsertUserPrompt [OF ins(1)] requeue_task_exists [OF rows] by simp
  also have "advances d2 d3"
    using ins(1) by (intro advances_InsertPendingExecutionAttempt [OF ins(2)]) (auto simp: InsertUserPrompt_def)
  also have "advances d3 d'" unfolding d' by (intro good_advances keep_intros)
  finally show ?thesis using advances_trans [OF good_advances [OF good]] by blast
qed

lemma ResumeAgentSession_advances:
  assumes "ResumeAgentSession cfg env sid prompt timeoutSec d = Inr (t, d')"
  shows "advances d d'"
proof -
  from assms obtain s pid aid tmo d1 where s: "resume_checks env sid d = Inr s"
    and "withPendingTaskAdmission cfg env (resume_tx (sv_now env) pid aid prompt tmo s) d = Inr (t, d1)"
    and d': "d' = notifyTaskClaimable d1"
    by (auto simp: ResumeAgentSession_def)
  then have "advances d d1" using admission_Inr resume_tx_advances resume_checks_session [OF s] by blast
  then show ?thesis unfolding d' using advances_trans good_advances [OF good_notify] by blast
qed

lemma CancelTask_good: "CancelTask env tid reason d = Inr (u, d') \<Longrightarrow> good_update d d'"
  by (auto simp: CancelTask_def cancel_tx_def Let_def case_prod_unfold
      intro: good_update_trans [OF good_update_trans [OF good_attempt_updates(1) good_task_updates(6)] good_trigger_run])

lemma ExtendTaskTimeout_good: "ExtendTaskTimeout env tid ext d = Inr (u, d') \<Longrightarrow> good_update d d'"
  by (auto simp: ExtendTaskTimeout_def Let_def case_prod_unfold intro: good_attempt_updates(3))

lemma ClearQueue_good: "ClearQueue env d = Inr (n, d') \<Longrightarrow> good_update d d'"
  by (auto simp: ClearQueue_def Let_def case_prod_unfold
      intro: good_update_trans [OF good_attempt_updates(2) good_task_updates(7)])

context callback_dispatcher
begin

lemma recover_tx_advances:
  assumes "recover_tx cfg now cbs sid pid aid event_id prompt orig d = Inr (u, d')"
  shows "advances d d'"
proof -
  let ?r = "RequeueTaskForPrompt now (t_id orig) d"
  from assms obtain old oldPrompt n tmo ev row d2 d3 where rows: "snd ?r \<noteq> 0"
      and old: "GetAgentSessionByTaskID (t_id orig) d = Inr old"
      and h: "recover_hierarchy now (t_id orig) sid pid aid prompt n tmo old oldPrompt (fst ?r) = Inr d2"
      and e: "InsertTaskEvent row d2 = Inr d3" and c: "dispatch cbs ev d3 = Inr d'"
    by (auto simp: recover_tx_def Let_def case_prod_unfold)
  have "advances d (fst ?r)" by (intro good_advances keep_intros)
  also have "advances (fst ?r) d2"
    using h requeue_task_exists [OF rows] latest_session_in [OF old]
    by (intro recover_hierarchy_advances) (auto simp: RequeueTaskForPrompt_def upd_tasks_def)
  also have "advances d2 d3" using e by (intro good_advances good_inserts_other)
  also have "advances d3 d'" using dispatch_keeps [OF c] by (intro good_advances good_other_tables) auto
  finally show ?thesis .
qed

lemma RecoverTask_advances:
  assumes "RecoverTask cfg env cbs tid custom d = Inr (u, d')"
  shows "advances d d'"
proof -
  from assms obtain orig sid pid aid event_id prompt v d1 where
    "withPendingTaskAdmission cfg env (recover_tx cfg (sv_now env) cbs sid pid aid event_id prompt orig) d = Inr (v, d1)"
    and d': "d' = notifyTaskClaimable d1"
    by (auto simp: RecoverTask_def)
  then have "advances d d1" using admission_Inr recover_tx_advances by blast
  then show ?thesis unfolding d' using advances_trans good_advances [OF good_notify] by blast
qed

end

section \<open>The admission bound\<close>

abbreviation pending_task :: "task \<Rightarrow> bool" where
  "pending_task t \<equiv> t_status t = ''pending''"

text \<open>A statement that names one task by its key changes the number of pending tasks by at most one.\<close>

lemma update_one_pending:
  assumes "distinct (map t_id ts)" and "\<And>t. w t \<Longrightarrow> t_id t = i"
  shows "length (filter pending_task (sql_update w f ts)) \<le> Suc (length (filter pending_task ts))"
  using assms(1)
proof (induction ts)
  case (Cons t ts)
  show ?case
  proof (cases "w t")
    case True
    have "\<not> w u" if "u \<in> set ts" for u
    proof
      assume "w u"
      then have "t_id u = t_id t" using assms(2) [OF True] assms(2) [of u] by simp
      then have "t_id t \<in> t_id ` set ts" using that by (metis image_eqI)
      with Cons.prems show False by simp
    qed
    then have "sql_update w f ts = ts" by (rule sql_update_no_match)
    then show ?thesis using True by simp
  next
    case False
    with Cons show ?thesis by auto
  qed
qed simp

lemma CountPending_insert: "InsertTask q d = Inr d' \<Longrightarrow> CountPendingTasks d' = CountPendingTasks d + 1"
  by (auto simp: InsertTask_def CountPendingTasks_def)

lemma CountPending_requeue:
  assumes "wf_db d"
  shows "CountPendingTasks (fst (RequeueTaskForPrompt now tid d)) \<le> CountPendingTasks d + 1"
proof -
  have "distinct (map t_id (tasks d))" using assms by (simp add: wf_db_def keys_ok_def)
  then have "length (filter pending_task (tasks (fst (RequeueTaskForPrompt now tid d))))
      \<le> Suc (length (filter pending_task (tasks d)))"
    unfolding RequeueTaskForPrompt_def upd_tasks_def
    by (simp, intro update_one_pending [where i = tid]) auto
  then show ?thesis unfolding CountPendingTasks_def by linarith
qed

lemma CountPending_same: "tasks d' = tasks d \<Longrightarrow> CountPendingTasks d' = CountPendingTasks d"
  by (simp add: CountPendingTasks_def)

lemma hierarchy_inserts_tasks:
  "InsertAgentSession s d = Inr d' \<Longrightarrow> tasks d' = tasks d"
  "InsertUserPrompt i sid tid n st pr src c u d = Inr d' \<Longrightarrow> tasks d' = tasks d"
  "InsertPendingExecutionAttempt i pid n req tmo c u d = Inr d' \<Longrightarrow> tasks d' = tasks d"
  "InsertTaskEvent e d = Inr d' \<Longrightarrow> tasks d' = tasks d"
  by (auto simp: InsertAgentSession_def InsertUserPrompt_def InsertPendingExecutionAttempt_def InsertTaskEvent_def)

lemma notify_tasks [simp]: "tasks (notifyTaskClaimable d) = tasks d"
  by (simp add: notifyTaskClaimable_def bumpClaimNotifyCounter_def)

lemma record_run_tasks [simp]: "tasks (record_trigger_run env tid team inp d) = tasks d"
  by (simp add: record_trigger_run_def InsertTriggerRun_def split: option.splits)

lemma new_execution_tasks:
  assumes "InsertAgentSession s d = Inr d1" and "InsertUserPrompt pid sid tid n st pr src c u d1 = Inr d2"
    and "InsertPendingExecutionAttempt aid pid' m req tmo c' u' d2 = Inr d3"
  shows "tasks d3 = tasks d"
  using hierarchy_inserts_tasks(1) [OF assms(1)] hierarchy_inserts_tasks(2) [OF assms(2)]
    hierarchy_inserts_tasks(3) [OF assms(3)] by simp

text \<open>A submission adds one pending task, under the id the caller pinned if it did.\<close>

lemma InsertTask_row:
  "InsertTask q d = Inr d' \<Longrightarrow> \<exists>row. tasks d' = tasks d @ [row] \<and> t_id row = it_id q \<and> t_status row = ''pending'' \<and>
     t_callback_depth row = it_callback_depth q \<and> t_callback_parent_task_id row = it_callback_parent_task_id q \<and>
     it_id q \<notin> t_id ` set (tasks d)"
  by (auto simp: InsertTask_def)

lemma SubmitTask_row:
  assumes "SubmitTask cfg env inp (st, d) = Inr (t, st', d')"
  shows "\<exists>row. tasks d' = tasks d @ [row] \<and> t_status row = ''pending'' \<and> t_id row \<notin> t_id ` set (tasks d) \<and>
     t_callback_depth row = to_int32 (rq_CallbackDepth inp) \<and>
     t_callback_parent_task_id row = nullString (rq_CallbackParentTaskID inp) \<and>
     (rq_ExplicitTaskID inp \<noteq> [] \<longrightarrow> t_id row = rq_ExplicitTaskID inp)"
  using assms
proof (rule SubmitTask_tx)
  fix inp3 tid sid pid aid team repo inst identity d1
  assume adm: "withPendingTaskAdmission cfg env
       (submit_tx cfg (sv_now env) tid sid pid aid team repo inst identity inp3) d = Inr (t, d1)"
    and d': "d' = record_trigger_run env tid team inp3 (notifyTaskClaimable d1)"
    and eqs: "rq_CallbackDepth inp3 = rq_CallbackDepth inp" "rq_CallbackParentTaskID inp3 = rq_CallbackParentTaskID inp"
      "rq_ExplicitTaskID inp \<noteq> [] \<Longrightarrow> tid = rq_ExplicitTaskID inp"
  from admission_Inr [OF adm]
  have "submit_tx cfg (sv_now env) tid sid pid aid team repo inst identity inp3 d = Inr (t, d1)" by blast
  then obtain e1 e2 e3 where ins: "InsertTask (submitted_task (sv_now env) tid team repo inst inp3) d = Inr e1"
      "InsertAgentSession (submitted_session cfg (sv_now env) sid tid team identity inp3) e1 = Inr e2"
      "InsertUserPrompt pid sid tid 1 ''pending'' (rq_Prompt inp3) None (sv_now env) (sv_now env) e2 = Inr e3"
      "InsertPendingExecutionAttempt aid pid 1 None (to_int32 (rq_TimeoutSec inp3)) (sv_now env) (sv_now env) e3 = Inr d1"
    by (auto simp: submit_tx_def)
  have "tasks d' = tasks e1" using new_execution_tasks [OF ins(2-4)] by (simp add: d')
  with InsertTask_row [OF ins(1)] eqs show ?thesis by (auto simp: submitted_task_def)
qed

lemma submit_tx_count:
  assumes "submit_tx cfg now tid sid pid aid team repo inst identity inp d = Inr (t, d')"
  shows "CountPendingTasks d' = CountPendingTasks d + 1"
proof -
  from assms obtain d1 d2 d3 where "InsertTask (submitted_task now tid team repo inst inp) d = Inr d1"
      "InsertAgentSession (submitted_session cfg now sid tid team identity inp) d1 = Inr d2"
      "InsertUserPrompt pid sid tid 1 ''pending'' (rq_Prompt inp) None now now d2 = Inr d3"
      "InsertPendingExecutionAttempt aid pid 1 None (to_int32 (rq_TimeoutSec inp)) now now d3 = Inr d'"
    by (auto simp: submit_tx_def)
  then show ?thesis using CountPending_insert CountPending_same [OF new_execution_tasks] by metis
qed

lemma rerun_tx_count:
  assumes "rerun_tx now newID sid pid aid timeout orig session d = Inr (u, d')"
  shows "CountPendingTasks d' = CountPendingTasks d + 1"
proof -
  from assms obtain stx d1 d2 d3 where "InsertTask (rerun_task now newID orig session) d = Inr d1"
      "InsertAgentSession (inherited_session now sid newID 1 None stx session) d1 = Inr d2"
      "InsertUserPrompt pid sid newID 1 ''pending'' (t_prompt orig) None now now d2 = Inr d3"
      "InsertPendingExecutionAttempt aid pid 1 None (to_int32 timeout) now now d3 = Inr d'"
    by (auto simp: rerun_tx_def)
  then show ?thesis using CountPending_insert CountPending_same [OF new_execution_tasks] by metis
qed

lemma resume_tx_count:
  assumes "resume_tx now pid aid prompt timeout s d = Inr (t, d')" and "wf_db d"
  shows "CountPendingTasks d' \<le> CountPendingTasks d + 1"
proof -
  let ?r = "RequeueTaskForPrompt now (s_task_id s) d"
  from assms(1) obtain n req tmo d2 d3 where
      ins: "InsertUserPrompt pid (s_id s) (s_task_id s) n ''pending'' prompt None now now (fst ?r) = Inr d2"
      "InsertPendingExecutionAttempt aid pid 1 req tmo now now d2 = Inr d3"
      and d': "d' = fst (MarkAgentSessionResuming ''resuming'' now (s_id s) d3)"
    by (auto simp: resume_tx_def Let_def case_prod_unfold)
  have "tasks d' = tasks (fst ?r)"
    using hierarchy_inserts_tasks(2) [OF ins(1)] hierarchy_inserts_tasks(3) [OF ins(2)]
    by (simp add: d' MarkAgentSessionResuming_def upd_sessions_def)
  then show ?thesis using CountPending_same CountPending_requeue [OF assms(2)] by metis
qed

text \<open>With the gate on, an operation that goes through it leaves at most the limit pending.\<close>

lemma SubmitTask_bound:
  assumes "SubmitTask cfg env inp (st, d) = Inr (t, st', d')" and "0 < MaxPendingTasks cfg"
  shows "CountPendingTasks d' \<le> MaxPendingTasks cfg"
  using assms(1)
proof (rule SubmitTask_tx)
  fix inp3 tid sid pid aid team repo inst identity d1
  assume adm: "withPendingTaskAdmission cfg env
       (submit_tx cfg (sv_now env) tid sid pid aid team repo inst identity inp3) d = Inr (t, d1)"
    and d': "d' = record_trigger_run env tid team inp3 (notifyTaskClaimable d1)"
  have "CountPendingTasks d' = CountPendingTasks d1" by (rule CountPending_same) (simp add: d')
  moreover have "CountPendingTasks d1 = CountPendingTasks d + 1"
    using admission_Inr [OF adm] by (intro submit_tx_count) blast
  ultimately show ?thesis using admission_Inr [OF adm] assms(2) by simp
qed

lemma RerunTask_bound:
  assumes "RerunTask cfg env tid d = Inr (newID, d')" and "0 < MaxPendingTasks cfg"
  shows "CountPendingTasks d' \<le> MaxPendingTasks cfg"
proof -
  from assms(1) obtain sid pid aid timeout orig session u d1 where
    adm: "withPendingTaskAdmission cfg env (rerun_tx (sv_now env) newID sid pid aid timeout orig session) d = Inr (u, d1)"
    and d': "d' = notifyTaskClaimable d1"
    by (auto simp: RerunTask_def Let_def)
  have "CountPendingTasks d' = CountPendingTasks d1" by (rule CountPending_same) (simp add: d')
  moreover have "CountPendingTasks d1 = CountPendingTasks d + 1"
    using admission_Inr [OF adm] by (intro rerun_tx_count) blast
  ultimately show ?thesis using admission_Inr [OF adm] assms(2) by simp
qed

lemma ResumeAgentSession_bound:
  assumes "ResumeAgentSession cfg env sid prompt timeoutSec d = Inr (t, d')" and "0 < MaxPendingTasks cfg"
    and "wf_db d"
  shows "CountPendingTasks d' \<le> MaxPendingTasks cfg"
proof -
  from assms(1) obtain s pid aid tmo d1 where
    adm: "withPendingTaskAdmission cfg env (resume_tx (sv_now env) pid aid prompt tmo s) d = Inr (t, d1)"
    and d': "d' = notifyTaskClaimable d1"
    by (auto simp: ResumeAgentSession_def)
  have "CountPendingTasks d' = CountPendingTasks d1" by (rule CountPending_same) (simp add: d')
  moreover have "CountPendingTasks d1 \<le> CountPendingTasks d + 1"
    using admission_Inr [OF adm] assms(3) by (intro resume_tx_count) auto
  ultimately show ?thesis using admission_Inr [OF adm] assms(2) by simp
qed

context callback_dispatcher
begin

lemma recover_tx_count:
  assumes "recover_tx cfg now cbs sid pid aid event_id prompt orig d = Inr (u, d')" and "wf_db d"
  shows "CountPendingTasks d' \<le> CountPendingTasks d + 1"
proof -
  let ?r = "RequeueTaskForPrompt now (t_id orig) d"
  from assms(1) obtain old oldPrompt n tmo ev row d2 d3 where
      h: "recover_hierarchy now (t_id orig) sid pid aid prompt n tmo old oldPrompt (fst ?r) = Inr d2"
      and e: "InsertTaskEvent row d2 = Inr d3" and c: "dispatch cbs ev d3 = Inr d'"
    by (auto simp: recover_tx_def Let_def case_prod_unfold)
  from h have "tasks d2 = tasks (fst ?r)"
    by (auto simp: recover_hierarchy_def elim: new_execution_tasks)
  then have "tasks d' = tasks (fst ?r)" using hierarchy_inserts_tasks(4) [OF e] dispatch_keeps(1) [OF c] by simp
  then show ?thesis using CountPending_same CountPending_requeue [OF assms(2)] by metis
qed

lemma RecoverTask_bound:
  assumes "RecoverTask cfg env cbs tid custom d = Inr (u, d')" and "0 < MaxPendingTasks cfg" and "wf_db d"
  shows "CountPendingTasks d' \<le> MaxPendingTasks cfg"
proof -
  from assms(1) obtain orig sid pid aid event_id prompt v d1 where
    adm: "withPendingTaskAdmission cfg env (recover_tx cfg (sv_now env) cbs sid pid aid event_id prompt orig) d = Inr (v, d1)"
    and d': "d' = notifyTaskClaimable d1"
    by (auto simp: RecoverTask_def)
  have "CountPendingTasks d' = CountPendingTasks d1" by (rule CountPending_same) (simp add: d')
  moreover have "CountPendingTasks d1 \<le> CountPendingTasks d + 1"
    using admission_Inr [OF adm] assms(3) by (intro recover_tx_count) auto
  ultimately show ?thesis using admission_Inr [OF adm] assms(2) by simp
qed

end

section \<open>A valid submission is stored\<close>

lemma new_execution_total:
  assumes wf: "wf_db d" and fresh: "tid \<notin> t_id ` set (tasks d)" "sid \<notin> s_id ` set (agent_sessions d)"
    "pid \<notin> p_id ` set (user_prompts d)" "aid \<notin> a_id ` set (execution_attempts d)"
  shows "(tid, n) \<notin> (\<lambda>s. (s_task_id s, s_sequence s)) ` set (agent_sessions d)"
    and "(sid, n) \<notin> (\<lambda>p. (p_agent_session_id p, p_sequence p)) ` set (user_prompts d)"
    and "(pid, n) \<notin> (\<lambda>a. (a_user_prompt_id a, a_sequence a)) ` set (execution_attempts d)"
proof -
  from wf have refs: "s_task_id ` set (agent_sessions d) \<subseteq> t_id ` set (tasks d)"
      "a_user_prompt_id ` set (execution_attempts d) \<subseteq> p_id ` set (user_prompts d)"
      "(\<lambda>p. (p_agent_session_id p, p_task_id p)) ` set (user_prompts d) \<subseteq> (\<lambda>s. (s_id s, s_task_id s)) ` set (agent_sessions d)"
    unfolding wf_db_def refs_ok_lists by simp_all
  from refs(1) fresh(1) show "(tid, n) \<notin> (\<lambda>s. (s_task_id s, s_sequence s)) ` set (agent_sessions d)" by blast
  from refs(2) fresh(3) show "(pid, n) \<notin> (\<lambda>a. (a_user_prompt_id a, a_sequence a)) ` set (execution_attempts d)" by blast
  from image_mono [OF refs(3), of fst] have "p_agent_session_id ` set (user_prompts d) \<subseteq> s_id ` set (agent_sessions d)"
    by (simp add: image_image)
  with fresh(2) show "(sid, n) \<notin> (\<lambda>p. (p_agent_session_id p, p_sequence p)) ` set (user_prompts d)" by blast
qed

text \<open>The four inserts on fresh keys.\<close>

lemma unlisted_null_keys:
  "s_id (unlisted_null s) = s_id s" "s_task_id (unlisted_null s) = s_task_id s" "s_sequence (unlisted_null s) = s_sequence s"
  by (simp_all add: unlisted_null_def)

lemma insert_fresh:
  "it_id q \<notin> t_id ` set (tasks d) \<Longrightarrow> \<exists>row. t_id row = it_id q \<and> InsertTask q d = Inr (d\<lparr>tasks := tasks d @ [row]\<rparr>)"
  "s_id s \<notin> s_id ` set (agent_sessions d) \<Longrightarrow>
     (s_task_id s, s_sequence s) \<notin> (\<lambda>s. (s_task_id s, s_sequence s)) ` set (agent_sessions d) \<Longrightarrow>
     \<exists>row. InsertAgentSession s d = Inr (d\<lparr>agent_sessions := agent_sessions d @ [row]\<rparr>)"
  "pid \<notin> p_id ` set (user_prompts d) \<Longrightarrow>
     (sid, n) \<notin> (\<lambda>p. (p_agent_session_id p, p_sequence p)) ` set (user_prompts d) \<Longrightarrow>
     \<exists>row. InsertUserPrompt pid sid tid n st pr src c u d = Inr (d\<lparr>user_prompts := user_prompts d @ [row]\<rparr>)"
  "aid \<notin> a_id ` set (execution_attempts d) \<Longrightarrow>
     (pid, n) \<notin> (\<lambda>a. (a_user_prompt_id a, a_sequence a)) ` set (execution_attempts d) \<Longrightarrow>
     \<exists>row. InsertPendingExecutionAttempt aid pid n req tmo c u d = Inr (d\<lparr>execution_attempts := execution_attempts d @ [row]\<rparr>)"
  subgoal unfolding InsertTask_def by (simp add: sql_insert_fresh) (rule exI, rule conjI [rotated], rule refl, simp)
  subgoal unfolding InsertAgentSession_def sql_insert2_def by (simp add: unlisted_null_keys, rule exI, rule refl)
  subgoal unfolding InsertUserPrompt_def sql_insert2_def by (simp, rule exI, rule refl)
  subgoal unfolding InsertPendingExecutionAttempt_def sql_insert2_def by (simp, rule exI, rule refl)
  done

lemma submitted_keys:
  "it_id (submitted_task now tid team repo inst inp) = tid"
  "s_id (submitted_session cfg now sid tid team identity inp) = sid"
  "s_task_id (submitted_session cfg now sid tid team identity inp) = tid"
  "s_sequence (submitted_session cfg now sid tid team identity inp) = 1"
  by (simp_all add: submitted_task_def submitted_session_def)

lemma submit_tx_total:
  assumes "wf_db d" and "tid \<notin> t_id ` set (tasks d)" "sid \<notin> s_id ` set (agent_sessions d)"
    "pid \<notin> p_id ` set (user_prompts d)" "aid \<notin> a_id ` set (execution_attempts d)"
  shows "\<not> isl (submit_tx cfg now tid sid pid aid team repo inst identity inp d)"
proof -
  note pairs = new_execution_total [OF assms, of 1]
  obtain row where row: "t_id row = tid"
      "InsertTask (submitted_task now tid team repo inst inp) d = Inr (d\<lparr>tasks := tasks d @ [row]\<rparr>)" (is "_ = Inr ?d1")
    using insert_fresh(1) [of "submitted_task now tid team repo inst inp" d] assms(2) by (auto simp: submitted_keys)
  obtain ses where ses: "InsertAgentSession (submitted_session cfg now sid tid team identity inp) ?d1
      = Inr (?d1\<lparr>agent_sessions := agent_sessions d @ [ses]\<rparr>)" (is "_ = Inr ?d2")
    using insert_fresh(2) [of "submitted_session cfg now sid tid team identity inp" ?d1] assms(3) pairs(1)
    by (auto simp: submitted_keys)
  obtain pr where pr: "InsertUserPrompt pid sid tid 1 ''pending'' (rq_Prompt inp) None now now ?d2
      = Inr (?d2\<lparr>user_prompts := user_prompts d @ [pr]\<rparr>)" (is "_ = Inr ?d3")
    using insert_fresh(3) [of pid ?d2 sid 1 tid "''pending''" "rq_Prompt inp" None now now] assms(4) pairs(2) by auto
  obtain att where att: "InsertPendingExecutionAttempt aid pid 1 None (to_int32 (rq_TimeoutSec inp)) now now ?d3
      = Inr (?d3\<lparr>execution_attempts := execution_attempts d @ [att]\<rparr>)" (is "_ = Inr ?d4")
    using insert_fresh(4) [of aid ?d3 pid 1 None "to_int32 (rq_TimeoutSec inp)" now now] assms(5) pairs(3) by auto
  have "\<not> isl (GetTaskByID tid ?d4)" using row(1) by (intro task_present) simp
  then obtain t where "GetTaskByID tid ?d4 = Inr t" unfolding not_isl_iff by blast
  then show ?thesis unfolding submit_tx_def by (simp add: row ses pr att)
qed

text \<open>Past its checks, a submission is what the admitted transaction makes of it.\<close>

lemma SubmitTask_eq:
  assumes "rq_Prompt inp \<noteq> []"
    and "submit_checks cfg (with_primary_repo inp) = Inr ()" and "submit_defaults cfg (with_primary_repo inp) = Inr inp2"
    and "resolveOwnerTeamID (sv_scope env) (sv_team_by_name env) (rq_TeamID inp2) (rq_TeamName inp2) = Inr team"
    and "taskGitHubMetadata inp2 = Inr meta"
    and "sv_identity env (rq_Agent inp2) team (rq_GitURL inp2) = Inr identity"
    and tid: "tid = (if rq_ExplicitTaskID inp2 \<noteq> [] then rq_ExplicitTaskID inp2 else the (sv_task_id env))"
      "rq_ExplicitTaskID inp2 \<noteq> [] \<or> sv_task_id env \<noteq> None"
    and "sv_session_id env = Some sid" "sv_prompt_id env = Some pid" "sv_attempt_id env = Some aid"
    and "normalizeMcpEndpointNames (rq_McpEndpoints inp2) = [] \<or>
         sv_endpoints env (normalizeMcpEndpointNames (rq_McpEndpoints inp2)) team = Inr ()"
  shows "\<exists>cont. SubmitTask cfg env inp (st, d) =
    bind_res (withPendingTaskAdmission cfg env (submit_tx cfg (sv_now env) tid sid pid aid team (fst meta) (snd meta) identity
      (inp2\<lparr>rq_Prompt := submit_prompt tid inp2\<rparr>)) d) (\<lambda>r. Inr (cont r))"
proof -
  let ?inp3 = "inp2\<lparr>rq_Prompt := submit_prompt tid inp2\<rparr>"
  have id: "(if rq_ExplicitTaskID inp2 \<noteq> [] then Inr (rq_ExplicitTaskID inp2) else need_id ''generate task id'' (sv_task_id env)) = Inr tid"
    using tid by (auto simp: need_id_def)
  have ids: "need_id m (sv_session_id env) = Inr sid" "need_id m (sv_prompt_id env) = Inr pid"
      "need_id m (sv_attempt_id env) = Inr aid" for m
    using assms(9-11) by (simp_all add: need_id_def)
  have ends: "(let names = normalizeMcpEndpointNames (rq_McpEndpoints ?inp3) in
      if names = [] then Inr () else sv_endpoints env names team) = Inr ()"
    using assms(12) by (auto simp: Let_def)
  show ?thesis
    unfolding SubmitTask_def Let_def prod.case
    by (simp only: assms(1-6) id ids ends [unfolded Let_def] guard_res_simps bind_res.simps not_False_eq_True prod.case case_prod_unfold)
      (rule exI, rule refl)
qed

lemma SubmitTask_accepts:
  assumes "wf_db d" and "rq_Prompt inp \<noteq> []"
    and "submit_checks cfg (with_primary_repo inp) = Inr ()" and "submit_defaults cfg (with_primary_repo inp) = Inr inp2"
    and "resolveOwnerTeamID (sv_scope env) (sv_team_by_name env) (rq_TeamID inp2) (rq_TeamName inp2) = Inr team"
    and "taskGitHubMetadata inp2 = Inr meta"
    and "sv_identity env (rq_Agent inp2) team (rq_GitURL inp2) = Inr identity"
    and tid: "tid = (if rq_ExplicitTaskID inp2 \<noteq> [] then rq_ExplicitTaskID inp2 else the (sv_task_id env))"
      "rq_ExplicitTaskID inp2 \<noteq> [] \<or> sv_task_id env \<noteq> None"
    and "sv_session_id env = Some sid" "sv_prompt_id env = Some pid" "sv_attempt_id env = Some aid"
    and "normalizeMcpEndpointNames (rq_McpEndpoints inp2) = [] \<or>
         sv_endpoints env (normalizeMcpEndpointNames (rq_McpEndpoints inp2)) team = Inr ()"
    and "MaxPendingTasks cfg \<le> 0 \<or> (sv_lock_err env = None \<and> CountPendingTasks d < MaxPendingTasks cfg)"
    and "tid \<notin> t_id ` set (tasks d)" "sid \<notin> s_id ` set (agent_sessions d)"
      "pid \<notin> p_id ` set (user_prompts d)" "aid \<notin> a_id ` set (execution_attempts d)"
  shows "\<exists>t st' d'. SubmitTask cfg env inp (st, d) = Inr (t, st', d')"
proof -
  let ?tx = "submit_tx cfg (sv_now env) tid sid pid aid team (fst meta) (snd meta) identity
    (inp2\<lparr>rq_Prompt := submit_prompt tid inp2\<rparr>)"
  have "\<not> isl (?tx d)" using assms by (intro submit_tx_total)
  then obtain r where "?tx d = Inr r" unfolding not_isl_iff by blast
  then have adm: "withPendingTaskAdmission cfg env ?tx d = Inr r"
    using assms(14) by (auto simp: withPendingTaskAdmission_def Let_def)
  obtain cont where "SubmitTask cfg env inp (st, d) = bind_res (withPendingTaskAdmission cfg env ?tx d) (\<lambda>r. Inr (cont r))"
    using SubmitTask_eq [OF assms(2-13)] by blast
  then show ?thesis using adm by (cases "cont r") auto
qed

text \<open>What an accepted submission leaves in the tables.\<close>

lemma submit_tx_rows:
  assumes "submit_tx cfg now tid sid pid aid team repo inst identity inp d = Inr (t, d')"
  shows "tasks d' = tasks d @ [t] \<and> t_id t = tid \<and> t_status t = ''pending'' \<and> t_prompt t = rq_Prompt inp \<and> t_team_id t = nullString team \<and>
    (\<exists>s p a. agent_sessions d' = agent_sessions d @ [s] \<and> s_id s = sid \<and> s_task_id s = tid \<and>
       user_prompts d' = user_prompts d @ [p] \<and> p_id p = pid \<and> p_agent_session_id p = sid \<and> p_task_id p = tid \<and>
       p_prompt p = rq_Prompt inp \<and> p_status p = ''pending'' \<and>
       execution_attempts d' = execution_attempts d @ [a] \<and> a_id a = aid \<and> a_user_prompt_id a = pid \<and> a_status a = ''pending'')"
proof -
  obtain d1 d2 d3 where ins: "InsertTask (submitted_task now tid team repo inst inp) d = Inr d1"
      "InsertAgentSession (submitted_session cfg now sid tid team identity inp) d1 = Inr d2"
      "InsertUserPrompt pid sid tid 1 ''pending'' (rq_Prompt inp) None now now d2 = Inr d3"
      "InsertPendingExecutionAttempt aid pid 1 None (to_int32 (rq_TimeoutSec inp)) now now d3 = Inr d'"
    and get: "GetTaskByID tid d' = Inr t"
    using assms by (auto simp: submit_tx_def)
  obtain row where row: "d1 = d\<lparr>tasks := tasks d @ [row]\<rparr>" "t_id row = tid" "t_status row = ''pending''" "t_prompt row = rq_Prompt inp"
      "t_team_id row = nullString team" "tid \<notin> t_id ` set (tasks d)"
    using ins(1) by (auto simp: InsertTask_def submitted_task_def)
  have tasks: "tasks d' = tasks d @ [row]"
    using ins(2-4) row(1) by (auto simp: InsertAgentSession_def InsertUserPrompt_def InsertPendingExecutionAttempt_def)
  have "find (\<lambda>x. t_id x = tid) (ts @ [row]) = Some row" if "tid \<notin> t_id ` set ts" for ts
    using that row(2) by (induction ts) auto
  then have "t = row" using get row(6) by (simp add: GetTaskByID_def sql_one_def tasks)
  moreover have "\<exists>s p a. agent_sessions d' = agent_sessions d @ [s] \<and> s_id s = sid \<and> s_task_id s = tid \<and>
       user_prompts d' = user_prompts d @ [p] \<and> p_id p = pid \<and> p_agent_session_id p = sid \<and> p_task_id p = tid \<and>
       p_prompt p = rq_Prompt inp \<and> p_status p = ''pending'' \<and>
       execution_attempts d' = execution_attempts d @ [a] \<and> a_id a = aid \<and> a_user_prompt_id a = pid \<and> a_status a = ''pending''"
    using ins(2-4) row(1)
    by (auto simp: InsertAgentSession_def InsertUserPrompt_def InsertPendingExecutionAttempt_def submitted_session_def unlisted_null_def)
  ultimately show ?thesis using tasks row by simp
qed

lemma after_commit_frame [simp]:
  "agent_sessions (record_trigger_run env tid team inp (notifyTaskClaimable d)) = agent_sessions d"
  "user_prompts (record_trigger_run env tid team inp (notifyTaskClaimable d)) = user_prompts d"
  "execution_attempts (record_trigger_run env tid team inp (notifyTaskClaimable d)) = execution_attempts d"
  by (simp_all add: record_trigger_run_def InsertTriggerRun_def notifyTaskClaimable_def bumpClaimNotifyCounter_def split: option.splits)

lemma SubmitTask_stores:
  assumes "rq_Prompt inp \<noteq> []"
    and "submit_checks cfg (with_primary_repo inp) = Inr ()" and "submit_defaults cfg (with_primary_repo inp) = Inr inp2"
    and "resolveOwnerTeamID (sv_scope env) (sv_team_by_name env) (rq_TeamID inp2) (rq_TeamName inp2) = Inr team"
    and "taskGitHubMetadata inp2 = Inr meta"
    and "sv_identity env (rq_Agent inp2) team (rq_GitURL inp2) = Inr identity"
    and tid: "tid = (if rq_ExplicitTaskID inp2 \<noteq> [] then rq_ExplicitTaskID inp2 else the (sv_task_id env))"
      "rq_ExplicitTaskID inp2 \<noteq> [] \<or> sv_task_id env \<noteq> None"
    and "sv_session_id env = Some sid" "sv_prompt_id env = Some pid" "sv_attempt_id env = Some aid"
    and "normalizeMcpEndpointNames (rq_McpEndpoints inp2) = [] \<or>
         sv_endpoints env (normalizeMcpEndpointNames (rq_McpEndpoints inp2)) team = Inr ()"
    and run: "SubmitTask cfg env inp (st, d) = Inr (t, st', d')"
  shows "\<exists>d1. submit_tx cfg (sv_now env) tid sid pid aid team (fst meta) (snd meta) identity (inp2\<lparr>rq_Prompt := submit_prompt tid inp2\<rparr>) d = Inr (t, d1) \<and>
    d' = record_trigger_run env tid team (inp2\<lparr>rq_Prompt := submit_prompt tid inp2\<rparr>) (notifyTaskClaimable d1)"
proof -
  let ?inp3 = "inp2\<lparr>rq_Prompt := submit_prompt tid inp2\<rparr>"
  have id: "(if rq_ExplicitTaskID inp2 \<noteq> [] then Inr (rq_ExplicitTaskID inp2) else need_id ''generate task id'' (sv_task_id env)) = Inr tid"
    using tid by (auto simp: need_id_def)
  have ids: "need_id m (sv_session_id env) = Inr sid" "need_id m (sv_prompt_id env) = Inr pid"
      "need_id m (sv_attempt_id env) = Inr aid" for m
    using assms(9-11) by (simp_all add: need_id_def)
  have ends: "(let names = normalizeMcpEndpointNames (rq_McpEndpoints ?inp3) in
      if names = [] then Inr () else sv_endpoints env names team) = Inr ()"
    using assms(12) by (auto simp: Let_def)
  have "\<exists>d1. withPendingTaskAdmission cfg env (submit_tx cfg (sv_now env) tid sid pid aid team (fst meta) (snd meta) identity ?inp3) d = Inr (t, d1) \<and>
      d' = record_trigger_run env tid team ?inp3 (notifyTaskClaimable d1)"
    using run unfolding SubmitTask_def Let_def prod.case
    by (simp only: assms(2-6) guard_res_simps assms(1) bind_res.simps id ids ends [unfolded Let_def] case_prod_unfold fst_conv snd_conv
        bind_res_Inr_iff sum.inject prod.inject) (auto simp: prod_eq_iff)
  then show ?thesis using admission_Inr by blast
qed

end
