(* ===== verification/Chetter_Delivery.thy ===== *)
theory Chetter_Delivery
  imports Chetter_Submit
begin

text \<open>
  The worker that drains the callback outbox: the delivery half of
  \<^verbatim>\<open>internal/service/callback_deliveries.go\<close> and the spawning of tasks in
  \<^verbatim>\<open>event_callbacks.go\<close>. A delivery is sent over HTTP or spawns a task; the outcome moves its
  row to \<^verbatim>\<open>completed\<close>, back to \<^verbatim>\<open>failed\<close> with a time for the next attempt, or to
  \<^verbatim>\<open>dead_letter\<close>. Template engine, hash function, and the HTTP client with its destination
  policy are parameters; audit events are left out.
\<close>

section \<open>HTTP delivery\<close>

record http_request =
  hr_method :: string
  hr_url :: string
  hr_headers :: "(string \<times> string) list"
  hr_body :: delivery_body

text \<open>What \<^verbatim>\<open>client.Do\<close> gives: the policy's refusal, another error, or a response.\<close>

datatype http_outcome = PolicyRefusal string | TransportError error | StatusCode int

record delivery_env =
  dv_now :: time
  dv_submit :: submit_env
  dv_event_id :: "string option"
  dv_render :: "string \<Rightarrow> callback_event \<Rightarrow> string + string"
  dv_sha256_hex :: "string \<Rightarrow> string"
  dv_new_request :: "string \<Rightarrow> string \<Rightarrow> error option"
  dv_do :: "http_request \<Rightarrow> http_outcome"

text \<open>
  \<^verbatim>\<open>textproto.CanonicalMIMEHeaderKey\<close>: upper case at the start and after a hyphen, lower case
  elsewhere; a key with a byte that is not a token character is left alone.
\<close>

definition token_char :: "char \<Rightarrow> bool" where
  "token_char c = (is_alnum c \<or> c \<in> set ''!#$%&*+-.^_`|~'' \<or> c = char_of (39 :: nat))"

fun canonical_from :: "bool \<Rightarrow> string \<Rightarrow> string" where
  "canonical_from upper [] = []"
| "canonical_from upper (c # cs) =
     (if upper then upper_char c else lower_char c) # canonical_from (c = CHR ''-'') cs"

definition canonical_header :: "string \<Rightarrow> string" where
  "canonical_header k = (if list_all token_char k then canonical_from True k else k)"

text \<open>\<^verbatim>\<open>m[k] = v\<close> and \<^verbatim>\<open>req.Header.Set(k, v)\<close> on the list of entries.\<close>

definition map_set :: "'k \<Rightarrow> 'v \<Rightarrow> ('k \<times> 'v) list \<Rightarrow> ('k \<times> 'v) list" where
  "map_set k v m = filter (\<lambda>e. fst e \<noteq> k) m @ [(k, v)]"

definition header_set :: "string \<times> string \<Rightarrow> (string \<times> string) list \<Rightarrow> (string \<times> string) list" where
  "header_set e hs = map_set (canonical_header (fst e)) (snd e) hs"

definition buildCallbackHTTPRequest ::
  "delivery_env \<Rightarrow> string \<Rightarrow> string \<Rightarrow> (string \<times> string) list \<Rightarrow> delivery_body \<Rightarrow> error + http_request" where
  "buildCallbackHTTPRequest env method rawURL headers body =
     (let m = (if method = [] then ''POST'' else method) in
      case dv_new_request env m rawURL of
        Some e \<Rightarrow> Inl e
      | None \<Rightarrow> Inr \<lparr>hr_method = m, hr_url = rawURL,
          hr_headers = fold header_set headers [(''Content-Type'', ''application/json'')],
          hr_body = body\<rparr>)"

text \<open>
  \<^verbatim>\<open>sendCallbackDelivery\<close>: \<open>None\<close> on success, else the error and whether
  \<^verbatim>\<open>errors.As(err, *ssrf.Error)\<close> holds of it. The stored headers are decoded rows.
\<close>

definition sendCallbackDelivery :: "delivery_env \<Rightarrow> callback_delivery \<Rightarrow> (error \<times> bool) option" where
  "sendCallbackDelivery env r =
     (case buildCallbackHTTPRequest env (d_method r) (d_endpoint_url r)
        (case d_headers r of None \<Rightarrow> [] | Some hs \<Rightarrow> hs) (d_payload r) of
        Inl e \<Rightarrow> Some (e, False)
      | Inr req \<Rightarrow>
          (case dv_do env req of
             PolicyRefusal m \<Rightarrow> Some (Errorf m, True)
           | TransportError e \<Rightarrow> Some (e, False)
           | StatusCode n \<Rightarrow>
               if n < 200 \<or> n \<ge> 300 then Some (Errorf (''webhook returned HTTP '' @ show_int n), False)
               else None))"

section \<open>Spawning a task from an event\<close>

definition callbackTaskGitHubMetadata :: "task \<Rightarrow> string \<Rightarrow> string \<times> int" where
  "callbackTaskGitHubMetadata src gitURL =
     (if trim_space gitURL = [] then
        (str_of (t_github_repo src),
         case t_github_installation_id src of None \<Rightarrow> 0 | Some n \<Rightarrow> n)
      else (case Parse gitURL of
          Inl _ \<Rightarrow> ([], 0)
        | Inr repo \<Rightarrow>
            (FullName repo,
             case t_github_repo src of
               None \<Rightarrow> 0
             | Some own \<Rightarrow>
                 if Same own (FullName repo)
                 then (case t_github_installation_id src of None \<Rightarrow> 0 | Some n \<Rightarrow> n) else 0)))"

text \<open>The provenance variables, after the configured ones.\<close>

definition spawn_env ::
  "callbackCreateTaskConfig \<Rightarrow> callback_event \<Rightarrow> string \<Rightarrow> int \<Rightarrow> (string \<times> string) list" where
  "spawn_env ct ev name childDepth =
     map_set ''CHETTER_EVENT_PARENT_TASK_ID'' (ev_task_id ev)
    (map_set ''CHETTER_EVENT_CALLBACK_DEPTH'' (show_int childDepth)
    (map_set ''CHETTER_EVENT_CALLBACK'' name
    (map_set ''CHETTER_EVENT_TASK_ID'' (ev_task_id ev)
    (map_set ''CHETTER_EVENT_TYPE'' (ev_event_type ev)
    (map_set ''CHETTER_EVENT_ID'' (ev_id ev) (ct_Env ct))))))"

definition spawn_request ::
  "callbackCreateTaskConfig \<Rightarrow> callback_event \<Rightarrow> string \<Rightarrow> string \<Rightarrow> task \<Rightarrow> int \<Rightarrow> string \<Rightarrow> SubmitTaskRequest" where
  "spawn_request ct ev name prompt src childDepth explicitTaskID =
     (let (githubRepo, installation) = callbackTaskGitHubMetadata src (ct_GitURL ct) in
      \<lparr>rq_TeamID = ev_team_id ev, rq_TeamName = [], rq_Prompt = prompt, rq_GitURL = ct_GitURL ct,
       rq_GitRef = ct_GitRef ct, rq_Repos = [], rq_GitHubRepo = githubRepo,
       rq_GitHubInstallationID = installation, rq_AgentImage = ct_AgentImage ct, rq_Agent = ct_Agent ct,
       rq_ProviderID = ct_ProviderID ct, rq_ModelID = ct_ModelID ct, rq_VariantID = ct_VariantID ct,
       rq_Harness = ct_Harness ct, rq_Skills = ct_Skills ct, rq_McpEndpoints = [],
       rq_Env = spawn_env ct ev name childDepth, rq_TimeoutSec = ct_TimeoutSec ct,
       rq_TriggerName = name, rq_TriggerType = ''event_callback'',
       rq_SubmissionSource = ''event_callback'', rq_CallbackParentTaskID = ev_task_id ev,
       rq_CallbackDepth = childDepth, rq_ExplicitTaskID = explicitTaskID, rq_SelfTestRunID = [],
       rq_SelfTestProfile = [], rq_SelfTestCheck = [], rq_SelfTestNonce = [], rq_SessionMode = [],
       rq_PauseReason = [], rq_TTLHours = 0, rq_Isolation = []\<rparr>)"

definition rejection_payload ::
  "svc_config \<Rightarrow> time \<Rightarrow> callback_event \<Rightarrow> string \<Rightarrow> task \<Rightarrow> int \<Rightarrow> payload" where
  "rejection_payload cfg now ev name src childDepth = JsonObject
     [(''task_id'', JStr (ev_task_id ev)), (''parent_task_id'', JStr (ev_task_id ev)),
      (''callback'', JStr name), (''callback_depth'', JNum childDepth),
      (''max_depth'', JNum (CallbackMaxDepth cfg)), (''event_type'', JStr (ev_event_type ev)),
      (''error'', JStr ''event_callback_recursion_limit''), (''rejected_at'', JTime (Some now)),
      (''source_submission'', JStr (t_submission_source src))]"

text \<open>The rejection is recorded on the parent task; the result is always an error.\<close>

definition rejectCallbackTaskSpawn ::
  "svc_config \<Rightarrow> delivery_env \<Rightarrow> callback_event \<Rightarrow> string \<Rightarrow> task \<Rightarrow> int \<Rightarrow> db \<Rightarrow> error \<times> db" where
  "rejectCallbackTaskSpawn cfg env ev name src childDepth d =
     (case dv_event_id env of
        None \<Rightarrow> (Wrap ''generate callback rejection event id'' generate_id_err, d)
      | Some event_id \<Rightarrow>
          (case InsertTaskEvent
             \<lparr>e_id = event_id, e_task_id = ev_task_id ev,
              e_subject = ''control.event_callback.'' @ ev_task_id ev, e_status = ''error'',
              e_payload = rejection_payload cfg (dv_now env) ev name src childDepth,
              e_created_at = dv_now env, e_agent_session_id = None, e_user_prompt_id = None,
              e_execution_attempt_id = None, e_event_type = ''task.callback_rejected''\<rparr> d of
             Inl e \<Rightarrow> (Wrap ''record callback recursion rejection'' e, d)
           | Inr d' \<Rightarrow>
               (WrapFirst ErrEventCallbackRecursionLimit
                  (''callback '' @ go_quote name @ '' would create task at depth '' @ show_int childDepth @
                   '' (limit '' @ show_int (CallbackMaxDepth cfg) @ '')''), d')))"

definition depth_exceeded :: "svc_config \<Rightarrow> int \<Rightarrow> bool" where
  "depth_exceeded cfg childDepth =
     (CallbackMaxDepth cfg > 0 \<and> childDepth > to_int32 (CallbackMaxDepth cfg))"

definition spawnCreateTaskFromEvent ::
  "svc_config \<Rightarrow> delivery_env \<Rightarrow> callback_event \<Rightarrow> string \<Rightarrow> callbackCreateTaskConfig \<Rightarrow> string \<Rightarrow>
   rpc_state \<times> db \<Rightarrow> error option \<times> rpc_state \<times> db" where
  "spawnCreateTaskFromEvent cfg env ev name ct explicitTaskID = (\<lambda>(st, d).
     if ct_Prompt ct = [] then (Some (Errorf ''create_task action_config.prompt is required''), st, d) else
     case dv_render env (ct_Prompt ct) ev of
       Inl m \<Rightarrow> (Some (Wrap ''render prompt'' (Errorf m)), st, d)
     | Inr prompt \<Rightarrow>
     (case GetTaskByID (ev_task_id ev) d of
       Inl e \<Rightarrow> (Some (Wrap ''load callback source task'' e), st, d)
     | Inr src \<Rightarrow>
       let childDepth = to_int32 (t_callback_depth src + 1) in
       if depth_exceeded cfg childDepth then
         (let (e, d') = rejectCallbackTaskSpawn cfg env ev name src childDepth d in (Some e, st, d'))
       else
         (case SubmitTask cfg (dv_submit env)
            (spawn_request ct ev name prompt src childDepth explicitTaskID) (st, d) of
            Inl e \<Rightarrow> (Some e, st, d)
          | Inr (t, st', d') \<Rightarrow> (None, st', d'))))"

text \<open>\<^verbatim>\<open>runCreateTaskCallback\<close>: the same without the outbox, with an id drawn at random.\<close>

definition runCreateTaskCallback ::
  "svc_config \<Rightarrow> delivery_env \<Rightarrow> callback_event \<Rightarrow> event_callback \<Rightarrow>
   rpc_state \<times> db \<Rightarrow> error option \<times> rpc_state \<times> db" where
  "runCreateTaskCallback cfg env ev cb s =
     (case as_create_task (cb_action_config cb) of
        Inl m \<Rightarrow> (Some (Wrap ''parse action_config'' (Errorf m)), s)
      | Inr ct \<Rightarrow> spawnCreateTaskFromEvent cfg env ev (cb_name cb) ct [] s)"

section \<open>The delivery worker\<close>

definition callbackDeliveryTaskID :: "(string \<Rightarrow> string) \<Rightarrow> string \<Rightarrow> string" where
  "callbackDeliveryTaskID sha256_hex deliveryRowID =
     ''task_'' @ take 32 (sha256_hex (''callback_delivery:'' @ deliveryRowID))"

definition isCallbackDeliveryPermanentError :: "error \<Rightarrow> bool" where
  "isCallbackDeliveryPermanentError e = isInboundPermanentTaskError e"

text \<open>
  The snapshot in the payload; any other body does not decode as one. The result is the error the
  worker logs, \<open>None\<close> when the delivery completed.
\<close>

definition deliverCreateTaskCallback ::
  "svc_config \<Rightarrow> delivery_env \<Rightarrow> callback_delivery \<Rightarrow> rpc_state \<times> db \<Rightarrow> error option \<times> rpc_state \<times> db" where
  "deliverCreateTaskCallback cfg env r = (\<lambda>(st, d).
     let now = dv_now env;
         fail = (\<lambda>terminal e st d. (Some e, st, failCallbackDelivery r now terminal e callbackDeliveryBackoff d)) in
     case d_payload r of
       Snapshot name ct ev \<Rightarrow>
         (let child = callbackDeliveryTaskID (dv_sha256_hex env) (d_id r) in
          case spawnCreateTaskFromEvent cfg env ev name ct child (st, d) of
            (None, st', d') \<Rightarrow> (None, st', completeCallbackDelivery r child now d')
          | (Some e, st', d') \<Rightarrow>
              if isDuplicateKeyError e \<and> \<not> isl (GetTaskByID child d')
              then (None, st', completeCallbackDelivery r child now d')
              else fail (errors_is e ErrEventCallbackRecursionLimit \<or> isCallbackDeliveryPermanentError e) e st' d')
     | _ \<Rightarrow> fail True (Errorf ''parse create_task delivery snapshot'') st d)"

definition deliverCallbackDelivery ::
  "svc_config \<Rightarrow> delivery_env \<Rightarrow> callback_delivery \<Rightarrow> rpc_state \<times> db \<Rightarrow> error option \<times> rpc_state \<times> db" where
  "deliverCallbackDelivery cfg env r = (\<lambda>(st, d).
     if d_action_type r = ''create_task'' then deliverCreateTaskCallback cfg env r (st, d)
     else (case sendCallbackDelivery env r of
         None \<Rightarrow> (None, st, completeCallbackDelivery r [] (dv_now env) d)
       | Some (e, policy) \<Rightarrow>
           (Some e, st, failCallbackDelivery r (dv_now env) policy e callbackDeliveryBackoff d)))"

text \<open>One cycle: every claimed delivery in turn, each with its own environment.\<close>

fun deliver_all ::
  "svc_config \<Rightarrow> (callback_delivery \<Rightarrow> delivery_env) \<Rightarrow> callback_delivery list \<Rightarrow> rpc_state \<times> db \<Rightarrow> rpc_state \<times> db" where
  "deliver_all cfg envs [] s = s"
| "deliver_all cfg envs (r # rs) s = deliver_all cfg envs rs (snd (deliverCallbackDelivery cfg (envs r) r s))"

definition processDueCallbackDeliveries ::
  "svc_config \<Rightarrow> (callback_delivery \<Rightarrow> delivery_env) \<Rightarrow> (callback_delivery \<Rightarrow> bool) \<Rightarrow> time \<Rightarrow>
   rpc_state \<times> db \<Rightarrow> rpc_state \<times> db" where
  "processDueCallbackDeliveries cfg envs locked now = (\<lambda>(st, d).
     case claimDueCallbackDeliveries locked now d of
       Inl e \<Rightarrow> (st, d)
     | Inr (items, d1) \<Rightarrow> deliver_all cfg envs items (st, d1))"

section \<open>What a spawn does\<close>

lemma spawn_cases:
  assumes "spawnCreateTaskFromEvent cfg env ev name ct eid (st, d) = (e, st', d')"
  obtains (same) e0 where "e = Some e0" "st' = st" "d' = d"
  | (reject) e0 row where "e = Some e0" "st' = st" "InsertTaskEvent row d = Inr d'"
  | (spawn) prompt src t where "e = None" "GetTaskByID (ev_task_id ev) d = Inr src"
      "\<not> depth_exceeded cfg (to_int32 (t_callback_depth src + 1))"
      "SubmitTask cfg (dv_submit env)
         (spawn_request ct ev name prompt src (to_int32 (t_callback_depth src + 1)) eid) (st, d) = Inr (t, st', d')"
  using assms
  by (auto simp: spawnCreateTaskFromEvent_def rejectCallbackTaskSpawn_def Let_def
      split: if_split_asm sum.split_asm option.split_asm)

lemma spawn_request_fields [simp]:
  "rq_CallbackDepth (spawn_request ct ev name prompt src depth eid) = depth"
  "rq_CallbackParentTaskID (spawn_request ct ev name prompt src depth eid) = ev_task_id ev"
  "rq_ExplicitTaskID (spawn_request ct ev name prompt src depth eid) = eid"
  "rq_Env (spawn_request ct ev name prompt src depth eid) = spawn_env ct ev name depth"
  by (simp_all add: spawn_request_def case_prod_unfold Let_def)

lemma spawn_advances:
  assumes "spawnCreateTaskFromEvent cfg env ev name ct eid (st, d) = (e, st', d')"
  shows "advances d d'"
  using assms
proof (cases rule: spawn_cases)
  case reject
  then show ?thesis by (intro good_advances good_inserts_other(1))
next
  case spawn
  then show ?thesis by (intro SubmitTask_advances)
qed simp

lemma InsertTaskEvent_frame:
  "InsertTaskEvent row d = Inr d' \<Longrightarrow> tasks d' = tasks d \<and> callback_deliveries d' = callback_deliveries d"
  by (auto simp: InsertTaskEvent_def)

lemma submit_tx_deliveries:
  assumes "submit_tx cfg now tid sid pid aid team repo inst identity inp d = Inr (t, d')"
  shows "callback_deliveries d' = callback_deliveries d"
proof -
  from assms obtain d1 d2 d3 where "InsertTask (submitted_task now tid team repo inst inp) d = Inr d1"
      "InsertAgentSession (submitted_session cfg now sid tid team identity inp) d1 = Inr d2"
      "InsertUserPrompt pid sid tid 1 ''pending'' (rq_Prompt inp) None now now d2 = Inr d3"
      "InsertPendingExecutionAttempt aid pid 1 None (to_int32 (rq_TimeoutSec inp)) now now d3 = Inr d'"
    by (auto simp: submit_tx_def)
  then show ?thesis
    by (auto simp: InsertTask_def InsertAgentSession_def InsertUserPrompt_def InsertPendingExecutionAttempt_def)
qed

lemma SubmitTask_deliveries:
  assumes "SubmitTask cfg env inp (st, d) = Inr (t, st', d')"
  shows "callback_deliveries d' = callback_deliveries d"
  using assms
proof (rule SubmitTask_tx)
  fix inp3 tid sid pid aid team repo inst identity d1
  assume adm: "withPendingTaskAdmission cfg env
       (submit_tx cfg (sv_now env) tid sid pid aid team repo inst identity inp3) d = Inr (t, d1)"
    and d': "d' = record_trigger_run env tid team inp3 (notifyTaskClaimable d1)"
  have "callback_deliveries d' = callback_deliveries d1"
    by (simp add: d' record_trigger_run_def InsertTriggerRun_def notifyTaskClaimable_def
        bumpClaimNotifyCounter_def split: option.split)
  with admission_Inr [OF adm] submit_tx_deliveries show ?thesis by metis
qed

lemma spawn_deliveries:
  assumes "spawnCreateTaskFromEvent cfg env ev name ct eid (st, d) = (e, st', d')"
  shows "callback_deliveries d' = callback_deliveries d"
  using assms
  by (cases rule: spawn_cases) (auto dest: InsertTaskEvent_frame SubmitTask_deliveries)

text \<open>The depth of every task stays within the limit.\<close>

definition depth_ok :: "svc_config \<Rightarrow> db \<Rightarrow> bool" where
  "depth_ok cfg d = list_all (\<lambda>t. 0 \<le> t_callback_depth t \<and> t_callback_depth t \<le> CallbackMaxDepth cfg) (tasks d)"

lemma spawn_depth:
  assumes "spawnCreateTaskFromEvent cfg env ev name ct eid (st, d) = (e, st', d')"
    and "0 < CallbackMaxDepth cfg" and "CallbackMaxDepth cfg < 2 ^ 31 - 1" and "depth_ok cfg d"
  shows "depth_ok cfg d'"
  using assms(1)
proof (cases rule: spawn_cases)
  case reject
  then show ?thesis using assms(4) by (auto simp: depth_ok_def dest: InsertTaskEvent_frame)
next
  case (spawn prompt src t)
  let ?n = "t_callback_depth src + 1"
  have src: "src \<in> set (tasks d)"
    using spawn(2) by (auto simp: GetTaskByID_def sql_one_Inr_iff dest!: find_SomeD)
  then have "0 \<le> t_callback_depth src" "t_callback_depth src \<le> CallbackMaxDepth cfg"
    using assms(4) by (simp_all add: depth_ok_def list_all_iff)
  then have n: "to_int32 ?n = ?n" "to_int32 (CallbackMaxDepth cfg) = CallbackMaxDepth cfg"
    using assms(3) by (simp_all add: to_int32_id)
  with spawn(3) assms(2) have le: "?n \<le> CallbackMaxDepth cfg" by (simp add: depth_exceeded_def)
  from SubmitTask_row [OF spawn(4)] n obtain row where "tasks d' = tasks d @ [row]" "t_callback_depth row = ?n"
    by auto
  then show ?thesis using assms(4) le \<open>0 \<le> t_callback_depth src\<close> by (simp add: depth_ok_def)
qed (use assms in simp)

text \<open>Reserved prefix: the worker's own variables are refused by the check they pass through.\<close>

lemma spawn_env_reserved:
  "(''CHETTER_EVENT_PARENT_TASK_ID'', ev_task_id ev) \<in> set (spawn_env ct ev name depth)"
  by (simp add: spawn_env_def map_set_def)

lemma reserved_name_blocked:
  assumes "''CHETTER_'' \<in> set (BlockedPrefixes vcfg)"
  shows "\<not> env_entry_ok vcfg (''CHETTER_EVENT_PARENT_TASK_ID'', v)"
proof -
  have "prefix (to_upper ''CHETTER_'') (to_upper ''CHETTER_EVENT_PARENT_TASK_ID'')" by code_simp
  then show ?thesis using assms by (auto simp: env_entry_ok_def)
qed

lemma spawn_blocked:
  assumes "''CHETTER_'' \<in> set (BlockedPrefixes (EnvValidation cfg))"
    and "spawnCreateTaskFromEvent cfg env ev name ct eid (st, d) = (e, st', d')"
  shows "e \<noteq> None \<and> tasks d' = tasks d"
  using assms(2)
proof (cases rule: spawn_cases)
  case (spawn prompt src t)
  let ?inp = "spawn_request ct ev name prompt src (to_int32 (t_callback_depth src + 1)) eid"
  have "rq_Env (with_primary_repo ?inp) = rq_Env ?inp"
    by (simp add: with_primary_repo_def Let_def split: option.split)
  moreover obtain v where "(''CHETTER_EVENT_PARENT_TASK_ID'', v) \<in> set (rq_Env ?inp)"
    using spawn_env_reserved [of ev ct name "to_int32 (t_callback_depth src + 1)"] by auto
  ultimately have "ValidateTaskEnv (rq_Env (with_primary_repo ?inp)) (EnvValidation cfg) \<noteq> None"
    using reserved_name_blocked [OF assms(1)] by (auto simp: ValidateTaskEnv_iff list_all_iff)
  then have "submit_checks cfg (with_primary_repo ?inp) \<noteq> Inr ()"
    by (auto simp: submit_checks_def split: option.split)
  with spawn(4) show ?thesis by (elim SubmitTask_tx) blast
qed (auto dest: InsertTaskEvent_frame)

section \<open>Delivery rows\<close>

text \<open>
  A row that is not in a final state has attempts left, and a time at which a claim takes it: the
  next attempt when it waits, the end of the lease when a worker holds it.
\<close>

definition delivery_ok :: "callback_delivery \<Rightarrow> bool" where
  "delivery_ok r =
     (d_max_attempts r = defaultCallbackDeliveryMaxAttempts \<and>
      (d_status r = ''completed'' \<or> d_status r = ''dead_letter'' \<or>
       (0 \<le> d_attempts r \<and> d_attempts r < d_max_attempts r \<and>
        (((d_status r = ''pending'' \<or> d_status r = ''failed'') \<and> d_next_attempt_at r \<noteq> None) \<or>
         (d_status r = ''in_flight'' \<and> d_lease_expires_at r \<noteq> None)))))"

definition deliveries_ok :: "db \<Rightarrow> bool" where
  "deliveries_ok d = (list_all delivery_ok (callback_deliveries d) \<and> distinct (map d_id (callback_deliveries d)))"

lemma deliveries_okD: "deliveries_ok d \<Longrightarrow> r \<in> set (callback_deliveries d) \<Longrightarrow> delivery_ok r"
  by (simp add: deliveries_ok_def list_all_iff)

text \<open>An update of rows by id that keeps the ids keeps the table in order if it keeps each row so.\<close>

lemma deliveries_ok_update:
  assumes "deliveries_ok d" and "callback_deliveries d' = sql_update w f (callback_deliveries d)"
    and "\<And>r. r \<in> set (callback_deliveries d) \<Longrightarrow> w r \<Longrightarrow> delivery_ok (f r) \<and> d_id (f r) = d_id r"
  shows "deliveries_ok d'"
proof -
  have "map d_id (callback_deliveries d') = map d_id (callback_deliveries d)"
    unfolding assms(2) using assms(3) by (intro map_fixed_sql_update) blast
  moreover have "delivery_ok x" if "x \<in> set (callback_deliveries d')" for x
    using that assms by (auto simp: sql_update_def deliveries_ok_def list_all_iff)
  ultimately show ?thesis using assms(1) by (simp add: deliveries_ok_def list_all_iff)
qed

lemma InsertCallbackDelivery_ok:
  "deliveries_ok d \<Longrightarrow> delivery_ok r \<Longrightarrow> deliveries_ok (InsertCallbackDelivery r d)"
  by (auto simp: deliveries_ok_def InsertCallbackDelivery_def)

lemma delivery_row_ok:
  "delivery_ok (delivery_row now i cb ev a)"
  "delivery_ok ((delivery_row now i cb ev a)\<lparr>d_payload := b\<rparr>)"
  "delivery_ok ((delivery_row now i cb ev a)\<lparr>d_endpoint_url := u, d_method := m, d_headers := h, d_payload := b\<rparr>)"
  "delivery_ok ((delivery_row now i cb ev a)\<lparr>d_method := m, d_status := ''dead_letter'', d_attempts := n,
     d_error := x, d_next_attempt_at := None\<rparr>)"
  by (simp_all add: delivery_ok_def delivery_row_def defaultCallbackDeliveryMaxAttempts_def)

lemma enqueueBroken_ok:
  "enqueueBrokenCallbackDelivery env ev cb a m d = Inr d' \<Longrightarrow> deliveries_ok d \<Longrightarrow> deliveries_ok d'"
  by (auto simp: enqueueBrokenCallbackDelivery_def Let_def intro!: InsertCallbackDelivery_ok delivery_row_ok)

lemma enqueue_one_ok: "enqueue_one env ev cb d = Inr d' \<Longrightarrow> deliveries_ok d \<Longrightarrow> deliveries_ok d'"
  by (auto simp: enqueue_one_def enqueueCallbackDelivery_def enqueueCreateTaskCallbackDelivery_def
      split: if_split_asm sum.split_asm intro!: InsertCallbackDelivery_ok delivery_row_ok elim!: enqueueBroken_ok)

lemma enqueue_all_ok: "enqueue_all env ev cs d = Inr d' \<Longrightarrow> deliveries_ok d \<Longrightarrow> deliveries_ok d'"
  by (induction cs arbitrary: d) (auto dest: enqueue_one_ok)

lemma Enqueue_ok:
  "EnqueueTaskEventCallbackDeliveries env ev d = Inr d' \<Longrightarrow> deliveries_ok d \<Longrightarrow> deliveries_ok d'"
  unfolding EnqueueTaskEventCallbackDeliveries_def by (rule enqueue_all_ok)

lemma mark_in_flight_update:
  "callback_deliveries (mark_in_flight now rs d) =
   sql_update (\<lambda>r. d_id r \<in> d_id ` set rs \<and> markable now r) (leased now) (callback_deliveries d)"
  by (simp add: mark_in_flight_rows sql_update_def)

lemma claim_ok:
  assumes "claimDueCallbackDeliveries locked now d = Inr (items, d')" and "deliveries_ok d"
  shows "deliveries_ok d'"
proof -
  have "delivery_ok (leased now r)" if "delivery_ok r" "markable now r" for r
    using that by (auto simp: delivery_ok_def markable_def leased_def)
  with assms(2) have "deliveries_ok (mark_in_flight now items d)"
    by (intro deliveries_ok_update [OF assms(2) mark_in_flight_update]) (auto dest: deliveries_okD)
  with assms(1) show ?thesis by (auto simp: claimDueCallbackDeliveries_def Let_def)
qed

lemma Retry_ok:
  assumes "RetryCallbackDelivery admin now i d = Inr (r, d')" and "deliveries_ok d"
  shows "deliveries_ok d'"
proof -
  have "deliveries_ok (fst (ResetCallbackDeliveryForRetry (Some now) now (trim_space i) d))"
    unfolding ResetCallbackDeliveryForRetry_def upd_deliveries_def
    by (simp, rule deliveries_ok_update [OF assms(2)], simp)
      (auto simp: delivery_ok_def defaultCallbackDeliveryMaxAttempts_def dest!: deliveries_okD [OF assms(2)])
  with assms(1) show ?thesis
    by (auto simp: RetryCallbackDelivery_def Let_def case_prod_unfold split: if_split_asm sum.split_asm)
qed

section \<open>The outcome of a delivery\<close>

text \<open>
  The copy the worker holds agrees with the table on attempts: nobody else has settled the row
  since it was claimed.
\<close>

definition in_step :: "callback_delivery \<Rightarrow> db \<Rightarrow> bool" where
  "in_step r d =
     list_all (\<lambda>x. d_id x = d_id r \<longrightarrow> d_attempts x = d_attempts r \<and> d_max_attempts x = d_max_attempts r)
       (callback_deliveries d)"

definition completed :: "string \<Rightarrow> time \<Rightarrow> callback_delivery \<Rightarrow> callback_delivery" where
  "completed child now x =
     x\<lparr>d_status := ''completed'', d_error := None, d_lease_expires_at := None, d_next_attempt_at := None,
       d_child_task_id := nullString child, d_processed_at := Some now, d_updated_at := now\<rparr>"

definition failed ::
  "callback_delivery \<Rightarrow> time \<Rightarrow> bool \<Rightarrow> error \<Rightarrow> callback_delivery \<Rightarrow> callback_delivery" where
  "failed r now terminal e x =
     (let dead = (terminal \<or> to_int32 (d_attempts r + 1) \<ge> d_max_attempts r) in
      x\<lparr>d_status := (if dead then ''dead_letter'' else ''failed''), d_attempts := d_attempts x + 1,
        d_error := Some (truncateTo500 (err_text e)), d_lease_expires_at := None,
        d_next_attempt_at :=
          (if dead then None else Some (now + callbackDeliveryBackoff (to_int32 (d_attempts r + 1)))),
        d_processed_at := None, d_updated_at := now\<rparr>)"

abbreviation in_flight_as :: "callback_delivery \<Rightarrow> callback_delivery \<Rightarrow> bool" where
  "in_flight_as r x \<equiv> d_id x = d_id r \<and> d_status x = ''in_flight''"

lemma complete_rows:
  "callback_deliveries (completeCallbackDelivery r child now d) =
   sql_update (in_flight_as r) (completed child now) (callback_deliveries d)"
  by (simp add: completeCallbackDelivery_def MarkCallbackDeliverySucceeded_def upd_deliveries_def completed_def [abs_def])

lemma fail_rows:
  "callback_deliveries (failCallbackDelivery r now terminal e callbackDeliveryBackoff d) =
   sql_update (in_flight_as r) (failed r now terminal e) (callback_deliveries d)"
  by (simp add: failCallbackDelivery_def FailCallbackDelivery_def upd_deliveries_def failed_def [abs_def]
      nextCallbackDeliveryAttempt_def Let_def)

lemma deliver_rows:
  assumes "deliverCallbackDelivery cfg env r (st, d) = (e, st', d')"
  shows "(e = None \<and> (\<exists>child. callback_deliveries d' = sql_update (in_flight_as r) (completed child (dv_now env)) (callback_deliveries d)))
    \<or> (\<exists>terminal e0. e = Some e0 \<and>
         callback_deliveries d' = sql_update (in_flight_as r) (failed r (dv_now env) terminal e0) (callback_deliveries d))"
proof (cases "d_action_type r = ''create_task''")
  case False
  with assms show ?thesis
    by (auto simp: deliverCallbackDelivery_def complete_rows fail_rows split: option.split_asm)
next
  case True
  then have run: "deliverCreateTaskCallback cfg env r (st, d) = (e, st', d')"
    using assms by (simp add: deliverCallbackDelivery_def)
  show ?thesis
  proof (cases "\<exists>name ct ev. d_payload r = Snapshot name ct ev")
    case False
    then show ?thesis using run
      by (auto simp: deliverCreateTaskCallback_def Let_def fail_rows split: delivery_body.split_asm)
  next
    case True
    then obtain name ct ev where pay: "d_payload r = Snapshot name ct ev" by blast
    let ?child = "callbackDeliveryTaskID (dv_sha256_hex env) (d_id r)"
    obtain e1 st1 d1 where sp: "spawnCreateTaskFromEvent cfg env ev name ct ?child (st, d) = (e1, st1, d1)"
      by (cases "spawnCreateTaskFromEvent cfg env ev name ct ?child (st, d)") auto
    show ?thesis using run spawn_deliveries [OF sp] unfolding deliverCreateTaskCallback_def
      by (auto simp: pay sp Let_def complete_rows fail_rows split: option.split_asm if_split_asm)
  qed
qed

lemma completed_fields [simp]:
  "d_id (completed child now x) = d_id x" "d_status (completed child now x) = ''completed''"
  "d_max_attempts (completed child now x) = d_max_attempts x" "d_attempts (completed child now x) = d_attempts x"
  by (simp_all add: completed_def)

lemma failed_fields [simp]:
  "d_id (failed r now terminal e x) = d_id x" "d_max_attempts (failed r now terminal e x) = d_max_attempts x"
  "d_attempts (failed r now terminal e x) = d_attempts x + 1"
  "d_status (failed r now terminal e x) =
     (if terminal \<or> to_int32 (d_attempts r + 1) \<ge> d_max_attempts r then ''dead_letter'' else ''failed'')"
  by (simp_all add: failed_def Let_def)

lemma failed_ok:
  assumes "delivery_ok x" and "d_status x = ''in_flight''" and "d_attempts x = d_attempts r" "d_max_attempts x = d_max_attempts r"
  shows "delivery_ok (failed r now terminal e x)"
proof -
  have "0 \<le> d_attempts r" "d_attempts r < d_max_attempts r" "d_max_attempts r = 3"
    using assms by (auto simp: delivery_ok_def defaultCallbackDeliveryMaxAttempts_def)
  then have "to_int32 (d_attempts r + 1) = d_attempts r + 1" by (intro to_int32_id) auto
  with assms show ?thesis by (auto simp: delivery_ok_def failed_def Let_def)
qed

lemma deliver_ok:
  assumes "deliverCallbackDelivery cfg env r (st, d) = (e, st', d')" and "deliveries_ok d" and "in_step r d"
  shows "deliveries_ok d'"
proof -
  have "delivery_ok (completed child now x)" if "x \<in> set (callback_deliveries d)" for child now x
    using deliveries_okD [OF assms(2) that] by (simp add: delivery_ok_def)
  moreover have "delivery_ok (failed r now terminal e x)"
    if "x \<in> set (callback_deliveries d)" "in_flight_as r x" for now terminal e x
    using deliveries_okD [OF assms(2) that(1)] that assms(3) by (intro failed_ok) (auto simp: in_step_def list_all_iff)
  ultimately show ?thesis
    using deliver_rows [OF assms(1)] by (elim disjE exE conjE) (rule deliveries_ok_update [OF assms(2)], assumption, simp)+
qed

text \<open>A delivery writes its own row and no other.\<close>

lemma deliver_other_rows:
  assumes "deliverCallbackDelivery cfg env r (st, d) = (e, st', d')" and "x' \<in> set (callback_deliveries d')" "d_id x' \<noteq> d_id r"
  shows "x' \<in> set (callback_deliveries d)"
  using deliver_rows [OF assms(1)] assms(2,3) by (auto simp: sql_update_def split: if_split_asm)

lemma deliver_own_row:
  assumes "deliverCallbackDelivery cfg env r (st, d) = (e, st', d')" and "x' \<in> set (callback_deliveries d')" "d_id x' = d_id r"
  shows "d_status x' \<noteq> ''in_flight''"
  using deliver_rows [OF assms(1)] assms(2,3) by (auto simp: sql_update_def split: if_split_asm)

lemma deliver_in_step:
  assumes "deliverCallbackDelivery cfg env r (st, d) = (e, st', d')" and "in_step q d" and "d_id q \<noteq> d_id r"
  shows "in_step q d'"
  using deliver_other_rows [OF assms(1)] assms(2,3) unfolding in_step_def list_all_iff by metis

lemma deliver_all_ok:
  assumes "deliveries_ok d" and "distinct (map d_id rs)" and "\<And>r. r \<in> set rs \<Longrightarrow> in_step r d"
    and "deliver_all cfg envs rs (st, d) = (st', d')"
  shows "deliveries_ok d'"
  using assms
proof (induction rs arbitrary: st d)
  case (Cons r rs)
  obtain e st1 d1 where one: "deliverCallbackDelivery cfg (envs r) r (st, d) = (e, st1, d1)"
    by (cases "deliverCallbackDelivery cfg (envs r) r (st, d)") auto
  have "in_step q d1" if "q \<in> set rs" for q
  proof (rule deliver_in_step [OF one])
    have "d_id q \<in> d_id ` set rs" using that by (rule imageI)
    then show "d_id q \<noteq> d_id r" using Cons.prems(2) by auto
    show "in_step q d" using Cons.prems(3) that by simp
  qed
  with Cons.prems deliver_ok [OF one] one show ?case by (intro Cons.IH [of d1 st1]) auto
qed simp

text \<open>Every row of the batch that was in flight is settled when the loop ends.\<close>

lemma deliver_all_settles:
  assumes "deliver_all cfg envs rs (st, d) = (st', d')" and "x' \<in> set (callback_deliveries d')"
    and "d_id x' \<in> d_id ` set rs"
  shows "d_status x' \<noteq> ''in_flight''"
proof -
  have settled: "x \<in> set (callback_deliveries d') \<Longrightarrow> d_status x = ''in_flight'' \<Longrightarrow> d_id x \<notin> d_id ` set rs \<and> x \<in> set (callback_deliveries d)" for x
    using assms(1)
  proof (induction rs arbitrary: st d)
    case (Cons r rs)
    obtain e st1 d1 where one: "deliverCallbackDelivery cfg (envs r) r (st, d) = (e, st1, d1)"
      by (cases "deliverCallbackDelivery cfg (envs r) r (st, d)") auto
    with Cons.prems Cons.IH [of st1 d1] have "d_id x \<notin> d_id ` set rs" "x \<in> set (callback_deliveries d1)" by auto
    with Cons.prems(2) deliver_own_row [OF one] deliver_other_rows [OF one] show ?case by auto
  qed simp
  show ?thesis using settled assms(2,3) by blast
qed

lemma distinct_due: "deliveries_ok d \<Longrightarrow> distinct (map d_id (due_deliveries locked now d))"
  by (auto simp: deliveries_ok_def due_deliveries_def distinct_map sql_order_asc_def
      intro!: distinct_take inj_on_subset [of d_id "set (callback_deliveries d)"] dest!: in_set_takeD)

lemma claim_in_step:
  assumes "claimDueCallbackDeliveries locked now d = Inr (items, d')" and "deliveries_ok d" and "r \<in> set items"
  shows "in_step r d'"
proof -
  have r: "r \<in> set (callback_deliveries d)" and d': "d' = mark_in_flight now items d"
    using assms by (auto simp: claimDueCallbackDeliveries_def Let_def dest: due_deliveries_due)
  have "d_attempts (leased now x) = d_attempts x" "d_max_attempts (leased now x) = d_max_attempts x" for x
    by (simp_all add: leased_def)
  moreover have "x = r" if "x \<in> set (callback_deliveries d)" "d_id x = d_id r" for x
    using that r assms(2) by (auto simp: deliveries_ok_def distinct_map inj_on_def)
  ultimately show ?thesis
    unfolding in_step_def list_all_iff d' mark_in_flight_update
    by (fastforce simp: sql_update_def split: if_split_asm)
qed

lemma process_ok:
  assumes "processDueCallbackDeliveries cfg envs locked now (st, d) = (st', d')" and "deliveries_ok d"
  shows "deliveries_ok d'"
proof -
  obtain items d1 where c: "claimDueCallbackDeliveries locked now d = Inr (items, d1)"
    by (simp add: claimDueCallbackDeliveries_def Let_def)
  then have "items = due_deliveries locked now d" by (simp add: claimDueCallbackDeliveries_def Let_def)
  with assms c show ?thesis
    by (intro deliver_all_ok [OF claim_ok [OF c assms(2)]]) (auto simp: processDueCallbackDeliveries_def distinct_due claim_in_step)
qed

section \<open>Spawning once\<close>

lemma child_id_not_Nil [simp]: "callbackDeliveryTaskID h i \<noteq> []"
  by (simp add: callbackDeliveryTaskID_def)

lemma settle_tasks [simp]:
  "tasks (completeCallbackDelivery r child now d) = tasks d"
  "tasks (failCallbackDelivery r now terminal e backoff d) = tasks d"
  by (simp_all add: completeCallbackDelivery_def failCallbackDelivery_def delivery_updates Let_def case_prod_unfold)

lemma task_found: "\<not> isl (GetTaskByID i d) \<Longrightarrow> i \<in> t_id ` set (tasks d)"
  by (cases "GetTaskByID i d") (auto simp: GetTaskByID_def sql_one_Inr_iff dest!: find_SomeD)

lemma deliver_create_tasks:
  assumes "deliverCreateTaskCallback cfg env r (st, d) = (e, st', d')"
  defines "child \<equiv> callbackDeliveryTaskID (dv_sha256_hex env) (d_id r)"
  shows "(tasks d' = tasks d \<and> (e = None \<longrightarrow> child \<in> t_id ` set (tasks d)))
    \<or> (child \<notin> t_id ` set (tasks d) \<and> (\<exists>row. tasks d' = tasks d @ [row] \<and> t_id row = child))"
proof (cases "\<exists>name ct ev. d_payload r = Snapshot name ct ev")
  case False
  then show ?thesis using assms(1)
    by (auto simp: deliverCreateTaskCallback_def Let_def split: delivery_body.split_asm)
next
  case True
  then obtain name ct ev where pay: "d_payload r = Snapshot name ct ev" by blast
  obtain e1 st1 d1 where sp: "spawnCreateTaskFromEvent cfg env ev name ct child (st, d) = (e1, st1, d1)"
    by (cases "spawnCreateTaskFromEvent cfg env ev name ct child (st, d)") auto
  have tasks: "tasks d' = tasks d1"
    and found: "e = None \<Longrightarrow> e1 \<noteq> None \<Longrightarrow> child \<in> t_id ` set (tasks d1)"
    using assms(1) sp unfolding deliverCreateTaskCallback_def child_def [symmetric]
    by (auto simp: pay Let_def split: option.split_asm if_split_asm dest!: task_found)
  from sp show ?thesis
  proof (cases rule: spawn_cases)
    case same
    then show ?thesis using tasks found by auto
  next
    case reject
    then show ?thesis using tasks found by (auto dest: InsertTaskEvent_frame)
  next
    case (spawn prompt src t)
    have "child \<noteq> []" by (simp add: child_def)
    with SubmitTask_row [OF spawn(4)] tasks show ?thesis by auto
  qed
qed

section \<open>The worker moves the database forward\<close>

lemma good_settle:
  "good_update d (completeCallbackDelivery r child now d)"
  "good_update d (failCallbackDelivery r now terminal e backoff d)"
  by (rule good_other_tables; simp add: completeCallbackDelivery_def failCallbackDelivery_def delivery_updates
      Let_def case_prod_unfold)+

lemma deliver_advances:
  assumes "deliverCallbackDelivery cfg env r (st, d) = (e, st', d')"
  shows "advances d d'"
proof (cases "\<exists>name ct ev. d_action_type r = ''create_task'' \<and> d_payload r = Snapshot name ct ev")
  case False
  then show ?thesis using assms
    by (auto simp: deliverCallbackDelivery_def deliverCreateTaskCallback_def Let_def good_advances good_settle
        split: if_split_asm option.split_asm delivery_body.split_asm)
next
  case True
  then obtain name ct ev where pay: "d_action_type r = ''create_task''" "d_payload r = Snapshot name ct ev" by blast
  let ?child = "callbackDeliveryTaskID (dv_sha256_hex env) (d_id r)"
  obtain e1 st1 d1 where sp: "spawnCreateTaskFromEvent cfg env ev name ct ?child (st, d) = (e1, st1, d1)"
    by (cases "spawnCreateTaskFromEvent cfg env ev name ct ?child (st, d)") auto
  have "advances d1 d'"
    using assms unfolding deliverCallbackDelivery_def deliverCreateTaskCallback_def
    by (auto simp: pay sp Let_def good_advances good_settle split: option.split_asm if_split_asm)
  with spawn_advances [OF sp] show ?thesis by (rule advances_trans)
qed

lemma good_mark_in_flight: "good_update d (mark_in_flight now rs d)"
proof (induction rs arbitrary: d)
  case (Cons r rs)
  have "good_update d (fst (MarkCallbackDeliveryInFlight lease now (d_id r) now d))" for lease
    by (rule good_other_tables) (simp_all add: delivery_updates)
  then show ?case using Cons.IH good_update_trans by fastforce
qed simp

lemma good_claim_deliveries: "claimDueCallbackDeliveries locked now d = Inr (items, d') \<Longrightarrow> good_update d d'"
  by (auto simp: claimDueCallbackDeliveries_def Let_def intro: good_mark_in_flight)

lemma good_retry_delivery: "RetryCallbackDelivery admin now i d = Inr (r, d') \<Longrightarrow> good_update d d'"
  by (auto simp: RetryCallbackDelivery_def Let_def case_prod_unfold delivery_updates
      split: if_split_asm sum.split_asm intro!: good_other_tables)

section \<open>A full queue\<close>

text \<open>The characters of a printed number.\<close>

lemma show_nat_digits: "list_all is_digit (show_nat n)"
  using read_show_nat [of n] by (simp add: read_nat_def split: if_split_asm)

definition number_char :: "char \<Rightarrow> bool" where
  "number_char c = (is_digit c \<or> c = CHR ''-'')"

lemma show_int_chars: "c \<in> set (show_int n) \<Longrightarrow> number_char c"
  using show_nat_digits by (auto simp: show_int_def number_char_def list_all_iff split: if_split_asm)

text \<open>
  A word that has none of the separators of the message, does not occur in its fixed ends, and has
  a character that neither a number nor the text next to one contains, does not occur in it.
\<close>

definition foreign_word :: "string \<Rightarrow> bool" where
  "foreign_word m =
     (CHR ''('' \<notin> set m \<and> CHR '','' \<notin> set m \<and> CHR '')'' \<notin> set m \<and>
      \<not> contains ''pending task admission limit reached '' m \<and>
      \<not> contains '': retry when capacity frees up'' m \<and>
      list_ex (\<lambda>c. \<not> number_char c \<and> c \<notin> set '' pending'') m \<and>
      list_ex (\<lambda>c. \<not> number_char c \<and> c \<notin> set '' limit '') m)"

lemma capacity_text_foreign:
  assumes "foreign_word m"
  shows "\<not> contains (err_text (PendingTaskCapacity limit current)) m"
proof
  let ?n = "show_int current" and ?k = "show_int limit"
  note fw = assms [unfolded foreign_word_def contains_iff_sublist]
  assume "contains (err_text (PendingTaskCapacity limit current)) m"
  then have s: "sublist m (''pending task admission limit reached '' @ CHR ''('' #
      (?n @ '' pending, limit '' @ ?k @ ''): retry when capacity frees up''))"
    by (simp add: contains_iff_sublist)
  from sublist_separator [OF s] fw have
    "sublist m ((?n @ '' pending'') @ CHR '','' # ('' limit '' @ ?k @ ''): retry when capacity frees up''))" by simp
  from sublist_separator [OF this] fw consider "sublist m (?n @ '' pending'')"
    | "sublist m (('' limit '' @ ?k) @ CHR '')'' # '': retry when capacity frees up'')" by auto
  then show False
  proof cases
    case 1
    then have "set m \<subseteq> set ?n \<union> set '' pending''" by (metis set_append set_mono_sublist)
    then show False using fw show_int_chars [of _ current] unfolding list_ex_iff by blast
  next
    case 2
    from sublist_separator [OF this] fw have "sublist m ('' limit '' @ ?k)" by simp
    then have "set m \<subseteq> set '' limit '' \<union> set ?k" by (metis set_append set_mono_sublist)
    then show False using fw show_int_chars [of _ limit] unfolding list_ex_iff by blast
  qed
qed

lemma lower_number: "number_char c \<Longrightarrow> lower_char c = c"
  by (auto simp: number_char_def is_digit_def lower_char_def Let_def)

lemma lower_show_int: "to_lower (show_int n) = show_int n"
  unfolding to_lower_def using show_int_chars lower_number by (simp add: map_idI)

lemma lower_capacity_text:
  "to_lower (err_text (PendingTaskCapacity limit current)) = err_text (PendingTaskCapacity limit current)"
proof -
  have "to_lower ''pending task admission limit reached ('' = ''pending task admission limit reached (''"
    "to_lower '' pending, limit '' = '' pending, limit ''"
    "to_lower ''): retry when capacity frees up'' = ''): retry when capacity frees up''" by code_simp+
  then show ?thesis by (simp only: err_text.simps to_lower_append lower_show_int)
qed

lemma capacity_markers:
  "list_all foreign_word
     [''Deadlock'', ''Lock wait timeout'', ''Write conflict'', ''try again later'', ''connect:'', ''connection refused'',
      ''broken pipe'', ''connection reset by peer'', ''i/o timeout'', ''no such host'', ''no route to host'',
      ''database not available'', ''connection reset'', ''dial tcp'', ''context deadline exceeded'', ''write conflict'',
      ''lock wait timeout'', ''deadlock'', ''too many connections'', ''Duplicate entry'', ''duplicate key'', ''unique constraint'']"
  by code_simp

lemma capacity_permanent:
  "isCallbackDeliveryPermanentError (PendingTaskCapacity limit current)"
  "\<not> isDuplicateKeyError (PendingTaskCapacity limit current)"
proof -
  let ?e = "PendingTaskCapacity limit current"
  have free: "\<not> contains (err_text ?e) m" if "foreign_word m" for m using capacity_text_foreign [OF that] .
  show "\<not> isDuplicateKeyError ?e"
    using capacity_markers free unfolding isDuplicateKeyError_def text_has_def by (simp del: err_text.simps)
  show "isCallbackDeliveryPermanentError ?e"
    using capacity_markers free
    unfolding isCallbackDeliveryPermanentError_def isInboundPermanentTaskError_def isRetryableTxError_def IsTransientError_def
      isNetworkError_def text_has_def lower_capacity_text by (simp del: err_text.simps)
qed

lemma full_queue_rows:
  assumes "d_action_type r = ''create_task''" and "d_payload r = Snapshot name ct ev"
    and "fst (spawnCreateTaskFromEvent cfg env ev name ct (callbackDeliveryTaskID (dv_sha256_hex env) (d_id r)) (st, d))
       = Some (PendingTaskCapacity limit current)"
  shows "callback_deliveries (snd (snd (deliverCallbackDelivery cfg env r (st, d)))) =
    sql_update (in_flight_as r) (failed r (dv_now env) True (PendingTaskCapacity limit current)) (callback_deliveries d)"
proof -
  let ?child = "callbackDeliveryTaskID (dv_sha256_hex env) (d_id r)"
  obtain st1 d1 where sp: "spawnCreateTaskFromEvent cfg env ev name ct ?child (st, d)
      = (Some (PendingTaskCapacity limit current), st1, d1)"
    using assms(3) by (cases "spawnCreateTaskFromEvent cfg env ev name ct ?child (st, d)") auto
  show ?thesis
    by (simp add: deliverCallbackDelivery_def deliverCreateTaskCallback_def assms(1,2) sp Let_def capacity_permanent
        fail_rows spawn_deliveries [OF sp])
qed

end
