(* ===== verification/Chetter_Lifecycle.thy ===== *)
theory Chetter_Lifecycle
  imports Chetter_Events Chetter_Heartbeat Chetter_Retention Chetter_Reaper Chetter_Submit Chetter_Delivery
begin

text \<open>
  The server as a state machine: a labelled step relation over the in-process state and the
  database with one rule for every operation of the other theories, in any order, as concurrent
  requests, several replicas and the background loops interleave their transactions. Runs are
  sequences of steps. The theory also holds the abstract view of the attempt table, a queue of
  jobs that are claimed once and reported on by the holder of the claim, and the proof that the
  operations implement it.
\<close>

section \<open>Steps\<close>

datatype label =
    Claimed string string string
  | Reported string string string
  | Quiet

abbreviation live_outbox :: "callback_env \<Rightarrow> dispatcher" where
  "live_outbox cbe \<equiv> Some (EnqueueTaskEventCallbackDeliveries cbe)"

inductive step :: "svc_config \<Rightarrow> rpc_state \<times> db \<Rightarrow> label \<Rightarrow> rpc_state \<times> db \<Rightarrow> bool" for cfg where
  claim: "claimOnce env (live_outbox cbe) runner lease d = Inr (c, d') \<Longrightarrow>
    step cfg (st, d) (Claimed (a_id (c_Attempt c)) runner (a_claim_id (c_Attempt c))) (st, d')"
| report: "recordTaskEvent env (live_outbox cbe) runner (Some ev) (st, d) = (Inr (), st', d') \<Longrightarrow>
    step cfg (st, d) (Reported (ExecutionId ev) runner (ClaimId ev)) (st', d')"
| report_rejected: "recordTaskEvent env (live_outbox cbe) runner msg (st, d) = (Inl e, st', d') \<Longrightarrow>
    step cfg (st, d) Quiet (st', d')"
| register: "RegisterRunner now info d = Inr d' \<Longrightarrow> step cfg (st, d) Quiet (st, d')"
| heartbeat: "Heartbeat now info d = Inr (cs, d') \<Longrightarrow> step cfg (st, d) Quiet (st, d')"
| drain: "step cfg (st, d) Quiet (st, requestRunnerDrainDB now rid d)"
| submit: "SubmitTask cfg senv inp (st, d) = Inr (t, st', d') \<Longrightarrow> step cfg (st, d) Quiet (st', d')"
| recover: "RecoverTask cfg senv (live_outbox cbe) tid prompt d = Inr (u, d') \<Longrightarrow> step cfg (st, d) Quiet (st, d')"
| rerun: "RerunTask cfg senv tid d = Inr (newID, d') \<Longrightarrow> step cfg (st, d) Quiet (st, d')"
| resume: "ResumeAgentSession cfg senv sid prompt timeout d = Inr (t, d') \<Longrightarrow> step cfg (st, d) Quiet (st, d')"
| cancel: "CancelTask senv tid reason d = Inr (u, d') \<Longrightarrow> step cfg (st, d) Quiet (st, d')"
| extend: "ExtendTaskTimeout senv tid ext d = Inr (u, d') \<Longrightarrow> step cfg (st, d) Quiet (st, d')"
| clear: "ClearQueue senv d = Inr (n, d') \<Longrightarrow> step cfg (st, d) Quiet (st, d')"
| reap: "step cfg (st, d) Quiet (st, reaper_cycle renv (live_outbox cbe) gc ttl d)"
| prune: "ArtifactRetentionDays rcfg \<le> 0 \<Longrightarrow> step cfg (st, d) Quiet (st, pruneRetainedRows faults now rcfg d)"
| claim_deliveries: "claimDueCallbackDeliveries locked now d = Inr (items, d') \<Longrightarrow> step cfg (st, d) Quiet (st, d')"
| deliver: "deliverCallbackDelivery cfg denv r (st, d) = (e, st', d') \<Longrightarrow> step cfg (st, d) Quiet (st', d')"
| retry_delivery: "RetryCallbackDelivery admin now i d = Inr (r, d') \<Longrightarrow> step cfg (st, d) Quiet (st, d')"

inductive_cases claim_stepE: "step cfg s (Claimed i runner claim) s'"
inductive_cases report_stepE: "step cfg s (Reported i runner claim) s'"

inductive run :: "svc_config \<Rightarrow> rpc_state \<times> db \<Rightarrow> label list \<Rightarrow> rpc_state \<times> db \<Rightarrow> bool" for cfg where
  start: "run cfg s [] s"
| more: "run cfg s ls s' \<Longrightarrow> step cfg s' l s'' \<Longrightarrow> run cfg s (ls @ [l]) s''"

section \<open>Every step advances the database\<close>

lemma good_prune:
  assumes "ArtifactRetentionDays rcfg \<le> 0"
  shows "good_update d (pruneRetainedRows faults now rcfg d)"
proof -
  have "good_update x (run_prune_jobs faults now js x)"
    if "\<forall>j\<in>set js. pj_table j \<noteq> ''agent_sessions''" for js x
    using that
  proof (induction js arbitrary: x)
    case (Cons j js)
    have "good_update x (run_prune_job faults now j x)"
      using Cons.prems
      by (auto simp: run_prune_job_def PruneTerminalDeliveries_def PruneOldRows_def split: prod.split intro!: good_other_tables)
    then show ?case using Cons good_update_trans by fastforce
  qed simp
  moreover have "\<forall>j\<in>set (pruneJobs rcfg). pj_table j \<noteq> ''agent_sessions''"
    using assms by (auto simp: pruneJobs_def)
  ultimately show ?thesis unfolding pruneRetainedRows_def by blast
qed

lemma register_advances: "RegisterRunner now info d = Inr d' \<Longrightarrow> advances d d'"
  by (auto simp: RegisterRunner_def upsertRunner_def advances_def wf_upsert later_upsert
      split: if_split_asm option.split_asm)

lemma step_advances: "step cfg s l s' \<Longrightarrow> advances (snd s) (snd s')"
proof (induction rule: step.induct)
  case claim
  then show ?case by (auto dest: outbox.claimOnce_good intro: good_advances)
next
  case report
  then show ?case by (auto dest: outbox.recordTaskEvent_good intro: good_advances)
next
  case report_rejected
  then show ?case by (auto dest: outbox.recordTaskEvent_good intro: good_advances)
next
  case heartbeat
  then show ?case by (auto simp: advances_def dest: Heartbeat_wf_later)
next
  case drain
  show ?case by (auto simp: requestRunnerDrainDB_def intro!: good_advances good_other_tables)
qed (auto intro: register_advances SubmitTask_advances outbox.RecoverTask_advances RerunTask_advances
    ResumeAgentSession_advances deliver_advances outbox.reaper_cycle_advances
    good_advances CancelTask_good ExtendTaskTimeout_good ClearQueue_good good_prune
    good_claim_deliveries good_retry_delivery)

lemma run_advances: "run cfg s ls s' \<Longrightarrow> advances (snd s) (snd s')"
  by (induction rule: run.induct) (auto intro: advances_trans step_advances)

section \<open>Who owns an attempt\<close>

text \<open>A claim or a report in a run is remembered by the attempt row: not pending, runner and claim id.\<close>

definition owned_by :: "string \<Rightarrow> string \<Rightarrow> string \<Rightarrow> db \<Rightarrow> bool" where
  "owned_by i runner claim d =
     list_ex (\<lambda>a. a_id a = i \<and> a_status a \<noteq> ''pending'' \<and> a_runner_id a = Some runner \<and> a_claim_id a = claim)
       (execution_attempts d)"

fun owned :: "label \<Rightarrow> db \<Rightarrow> bool" where
  "owned (Claimed i runner claim) d = owned_by i runner claim d"
| "owned (Reported i runner claim) d = owned_by i runner claim d"
| "owned Quiet d = True"

lemma owned_by_later:
  assumes "owned_by i runner claim d" and "db_later d d'"
  shows "owned_by i runner claim d'"
proof -
  from assms(1) obtain a where a: "a \<in> set (execution_attempts d)" "a_id a = i" "a_status a \<noteq> ''pending''"
      "a_runner_id a = Some runner" "a_claim_id a = claim"
    by (auto simp: owned_by_def list_ex_iff)
  from db_later_attempt [OF assms(2) a(1)] obtain a' where "a' \<in> set (execution_attempts d')" "attempt_later a a'"
    by blast
  with a show ?thesis by (auto simp: owned_by_def list_ex_iff attempt_later_def fixed_defs)
qed

lemma owned_later: "owned l d \<Longrightarrow> db_later d d' \<Longrightarrow> owned l d'"
  by (cases l) (auto intro: owned_by_later)

lemma attempt_unique:
  "wf_db d \<Longrightarrow> a \<in> set (execution_attempts d) \<Longrightarrow> b \<in> set (execution_attempts d) \<Longrightarrow> a_id a = a_id b \<Longrightarrow> a = b"
  by (auto simp: wf_db_def keys_ok_def distinct_map inj_on_def)

lemma owned_by_unique:
  assumes "wf_db d" and "owned_by i runner claim d" and "owned_by i runner' claim' d"
  shows "runner' = runner \<and> claim' = claim"
  using assms attempt_unique [OF assms(1)] unfolding owned_by_def list_ex_iff by fastforce

lemma claim_row_fields [simp]:
  "a_id (claim_row now lease runner claim a) = a_id a" "a_status (claim_row now lease runner claim a) = ''running''"
  "a_runner_id (claim_row now lease runner claim a) = nullString runner"
  "a_claim_id (claim_row now lease runner claim a) = claim"
  by (simp_all add: claim_row_def claimed_attempt_def)

text \<open>A claim finds the attempt pending and leaves it owned.\<close>

lemma claim_owned:
  assumes "claimOnce env (live_outbox cbe) runner lease d = Inr (c, d')" and wf: "wf_db d"
  shows "owned_by (a_id (c_Attempt c)) runner (a_claim_id (c_Attempt c)) d'"
    and "\<not> owned_by (a_id (c_Attempt c)) r' c' d"
proof -
  from assms obtain a p t claimID where join: "(a, p, t) \<in> set (attempt_task_joins d)"
      "claimable runner (isolation_of runner d) d (a, p, t)"
      and c: "c_Attempt c = claimed_attempt (ce_now env) lease runner claimID a" and runner: "runner \<noteq> []"
      and rows: "execution_attempts d' = sql_update (\<lambda>b. a_id b = a_id a \<and> a_status b = ''pending'')
         (claim_row (ce_now env) lease runner claimID) (execution_attempts d)"
    by (rule outbox.claimOnce_effect)
  have a: "a \<in> set (execution_attempts d)" "a_status a = ''pending''"
    using join by (auto simp: attempt_task_joins_def attempt_joins_def claimable_def)
  have ids: "a_id (c_Attempt c) = a_id a" "a_claim_id (c_Attempt c) = claimID" by (simp_all add: c claimed_attempt_def)
  have "claim_row (ce_now env) lease runner claimID a \<in> set (execution_attempts d')"
    using a unfolding rows by (auto simp: sql_update_def)
  then show "owned_by (a_id (c_Attempt c)) runner (a_claim_id (c_Attempt c)) d'"
    using runner ids unfolding owned_by_def list_ex_iff by (intro bexI) (simp_all add: nullString_def)
  show "\<not> owned_by (a_id (c_Attempt c)) r' c' d"
    using a(2) attempt_unique [OF wf a(1)] unfolding ids owned_by_def list_ex_iff by metis
qed

text \<open>A report is accepted from the owner only.\<close>

lemma report_owned:
  assumes "recordTaskEvent env (live_outbox cbe) runner (Some ev) (st, d) = (Inr (), st', d')"
  shows "owned_by (ExecutionId ev) runner (ClaimId ev) d"
  using assms
proof (cases rule: outbox.recordTaskEvent_cases)
  case (stored ev0 event_id skip fin)
  then have "\<exists>a\<in>set (execution_attempts d). holds_claim (ee_dbnow env) runner (redact_event st ev) a"
    using outbox.event_tx_attempts by blast
  then show ?thesis by (auto simp: owned_by_def list_ex_iff holds_claim_def)
qed simp

lemma step_owned:
  assumes "step cfg s l s'" and "wf_db (snd s)"
  shows "owned l (snd s')"
proof -
  have later: "db_later (snd s) (snd s')" using step_advances [OF assms(1)] by (simp add: advances_def)
  show ?thesis
  proof (cases l)
    case (Claimed i runner claim)
    with assms show ?thesis by (auto elim!: claim_stepE dest: claim_owned(1))
  next
    case (Reported i runner claim)
    with assms(1) have "owned_by i runner claim (snd s)" by (auto elim!: report_stepE dest: report_owned)
    then show ?thesis using Reported later by (auto intro: owned_by_later)
  qed simp
qed

lemma run_owned: "run cfg s ls s' \<Longrightarrow> wf_db (snd s) \<Longrightarrow> l \<in> set ls \<Longrightarrow> owned l (snd s')"
proof (induction rule: run.induct)
  case (more s ls s' l' s'')
  have "wf_db (snd s')" using run_advances [OF more.hyps(1)] more.prems by (simp add: advances_def)
  with more step_advances [OF more.hyps(2)] show ?case
    by (auto simp: advances_def intro: step_owned owned_later)
qed simp

fun claims :: "label list \<Rightarrow> string list" where
  "claims [] = []"
| "claims (Claimed i runner claim # ls) = i # claims ls"
| "claims (_ # ls) = claims ls"

lemma claims_append [simp]: "claims (ls @ ls') = claims ls @ claims ls'"
  by (induction ls rule: claims.induct) auto

lemma claims_in: "i \<in> set (claims ls) \<Longrightarrow> \<exists>runner claim. Claimed i runner claim \<in> set ls"
  by (induction ls rule: claims.induct) auto

lemma run_claims_distinct: "run cfg s ls s' \<Longrightarrow> wf_db (snd s) \<Longrightarrow> distinct (claims ls)"
proof (induction rule: run.induct)
  case (more s ls s' l s'')
  have wf: "wf_db (snd s')" using run_advances [OF more.hyps(1)] more.prems by (simp add: advances_def)
  show ?case
  proof (cases l)
    case (Claimed i runner claim)
    have "i \<notin> set (claims ls)"
    proof
      assume "i \<in> set (claims ls)"
      then obtain r' c' where "Claimed i r' c' \<in> set ls" using claims_in by blast
      then have "owned_by i r' c' (snd s')" using run_owned [OF more.hyps(1)] more.prems by fastforce
      with more.hyps(2) wf Claimed show False by (auto elim!: claim_stepE dest: claim_owned(2))
    qed
    with more Claimed show ?thesis by simp
  qed (use more in simp_all)
qed simp

lemma run_owner_unique:
  assumes "run cfg s ls s'" and "wf_db (snd s)"
    and "Claimed i runner claim \<in> set ls" and "Reported i runner' claim' \<in> set ls"
  shows "runner' = runner \<and> claim' = claim"
proof -
  have "wf_db (snd s')" using run_advances [OF assms(1)] assms(2) by (simp add: advances_def)
  with run_owned [OF assms(1,2,3)] run_owned [OF assms(1,2,4)] show ?thesis
    by (auto dest: owned_by_unique)
qed

section \<open>The abstract queue\<close>

datatype phase = Waiting | Held string string | Ended

type_synonym queue = "string \<rightharpoonup> phase"

definition phase_of :: "execution_attempt \<Rightarrow> phase" where
  "phase_of a =
     (if a_status a = ''pending'' then Waiting
      else if a_status a = ''running'' then Held (str_of (a_runner_id a)) (a_claim_id a)
      else Ended)"

definition queue_of :: "db \<Rightarrow> queue" where
  "queue_of d = map_of (map (\<lambda>a. (a_id a, phase_of a)) (execution_attempts d))"

text \<open>The specification: a waiting job is claimed; its holder reports on it until it ends.\<close>

definition queue_claim :: "string \<Rightarrow> string \<Rightarrow> string \<Rightarrow> queue \<Rightarrow> queue option" where
  "queue_claim i runner claim q = (if q i = Some Waiting then Some (q(i \<mapsto> Held runner claim)) else None)"

definition queue_report :: "string \<Rightarrow> string \<Rightarrow> string \<Rightarrow> bool \<Rightarrow> queue \<Rightarrow> queue option" where
  "queue_report i runner claim finished q =
     (if q i = Some (Held runner claim)
      then Some (if finished then q(i \<mapsto> Ended) else q) else None)"

lemma map_of_sql_update:
  assumes "distinct (map key xs)" and "x \<in> set xs" and "w x" and "\<And>y. y \<in> set xs \<Longrightarrow> w y \<Longrightarrow> key y = key x"
    and "key (f x) = key x"
  shows "map_of (map (\<lambda>y. (key y, g y)) (sql_update w f xs)) = (map_of (map (\<lambda>y. (key y, g y)) xs))(key x \<mapsto> g (f x))"
  using assms
proof (induction xs)
  case (Cons z zs)
  show ?case
  proof (cases "z = x")
    case True
    have "\<not> w y" if "y \<in> set zs" for y
    proof
      assume "w y"
      then have "key y = key x" using Cons.prems(4) that by simp
      moreover have "key y \<in> key ` set zs" using that by (rule imageI)
      ultimately show False using Cons.prems(1) True by simp
    qed
    then have "sql_update w f zs = zs" by (rule sql_update_no_match)
    with True Cons.prems(3,5) show ?thesis by (auto simp: fun_eq_iff)
  next
    case False
    then have x: "x \<in> set zs" using Cons.prems(2) by simp
    have "key z \<noteq> key x" using Cons.prems(1) imageI [OF x, of key] by auto
    moreover from this have "\<not> w z" using Cons.prems(4) [of z] by auto
    moreover have "map_of (map (\<lambda>y. (key y, g y)) (sql_update w f zs)) =
        (map_of (map (\<lambda>y. (key y, g y)) zs))(key x \<mapsto> g (f x))"
    proof (rule Cons.IH [OF _ x Cons.prems(3) _ Cons.prems(5)])
      show "distinct (map key zs)" using Cons.prems(1) by simp
      show "key y = key x" if "y \<in> set zs" "w y" for y using that by (intro Cons.prems(4)) simp_all
    qed
    ultimately show ?thesis by (auto simp: fun_eq_iff)
  qed
qed simp

lemma queue_of_in: "wf_db d \<Longrightarrow> a \<in> set (execution_attempts d) \<Longrightarrow> queue_of d (a_id a) = Some (phase_of a)"
  unfolding queue_of_def
  by (rule map_of_is_SomeI) (auto simp: wf_db_def keys_ok_def comp_def)

lemma queue_of_update:
  assumes "wf_db d" and "execution_attempts d' = sql_update w f (execution_attempts d)"
    and "a \<in> set (execution_attempts d)" and "w a" and "\<And>b. w b \<Longrightarrow> a_id b = a_id a" and "a_id (f a) = a_id a"
  shows "queue_of d' = (queue_of d)(a_id a \<mapsto> phase_of (f a))"
proof -
  have "distinct (map a_id (execution_attempts d))" using assms(1) by (simp add: wf_db_def keys_ok_def)
  from map_of_sql_update [OF this assms(3), of w f phase_of, OF assms(4) _ assms(6)] assms(5)
  show ?thesis unfolding queue_of_def assms(2) by blast
qed

lemma claim_refines:
  assumes "claimOnce env (live_outbox cbe) runner lease d = Inr (c, d')" and wf: "wf_db d"
  shows "queue_claim (a_id (c_Attempt c)) runner (a_claim_id (c_Attempt c)) (queue_of d) = Some (queue_of d')"
proof -
  from assms obtain a p t claimID where join: "(a, p, t) \<in> set (attempt_task_joins d)"
      "claimable runner (isolation_of runner d) d (a, p, t)"
      and c: "c_Attempt c = claimed_attempt (ce_now env) lease runner claimID a"
      and rows: "execution_attempts d' = sql_update (\<lambda>b. a_id b = a_id a \<and> a_status b = ''pending'')
         (claim_row (ce_now env) lease runner claimID) (execution_attempts d)"
    by (rule outbox.claimOnce_effect)
  have a: "a \<in> set (execution_attempts d)" "a_status a = ''pending''"
    using join by (auto simp: attempt_task_joins_def attempt_joins_def claimable_def)
  have "queue_of d' = (queue_of d)(a_id a \<mapsto> phase_of (claim_row (ce_now env) lease runner claimID a))"
    by (rule queue_of_update [OF wf rows]) (use a in auto)
  moreover have "phase_of (claim_row (ce_now env) lease runner claimID a) = Held runner claimID"
    by (simp add: phase_of_def nullString_def str_of_def)
  ultimately show ?thesis
    using queue_of_in [OF wf a(1)] a(2) by (simp add: queue_claim_def c claimed_attempt_def phase_of_def)
qed

lemma report_refines:
  assumes "recordTaskEvent env (live_outbox cbe) runner (Some ev) (st, d) = (Inr (), st', d')" and wf: "wf_db d"
  shows "queue_report (ExecutionId ev) runner (ClaimId ev)
      (executionAttemptStatus (event_status ev) \<noteq> ''running'') (queue_of d) = Some (queue_of d')"
  using assms(1)
proof (cases rule: outbox.recordTaskEvent_cases)
  case (stored ev0 event_id skip fin)
  let ?ev = "redact_event st ev" let ?f = "apply_attempt_event (attempt_params (ee_now env) runner ?ev)"
  from stored have rows: "execution_attempts d' = sql_update (holds_claim (ee_dbnow env) runner ?ev) ?f (execution_attempts d)"
    and "\<exists>a\<in>set (execution_attempts d). holds_claim (ee_dbnow env) runner ?ev a"
    using outbox.event_tx_attempts by blast+
  then obtain a where a: "a \<in> set (execution_attempts d)" "holds_claim (ee_dbnow env) runner ?ev a" by blast
  then have held: "a_id a = ExecutionId ev" "a_runner_id a = Some runner" "a_claim_id a = ClaimId ev" "a_status a = ''running''"
    by (auto simp: holds_claim_def)
  have "queue_of d' = (queue_of d)(a_id a \<mapsto> phase_of (?f a))"
    by (rule queue_of_update [OF wf rows a]) (auto simp: holds_claim_def held apply_attempt_event_def)
  moreover have "phase_of (?f a) = (if executionAttemptStatus (event_status ev) = ''running''
      then Held runner (ClaimId ev) else Ended)"
    by (simp add: phase_of_def apply_attempt_event_def held str_of_def)
  moreover have "queue_of d (ExecutionId ev) = Some (Held runner (ClaimId ev))"
    using queue_of_in [OF wf a(1)] by (simp add: held phase_of_def str_of_def)
  ultimately show ?thesis by (auto simp: queue_report_def held)
qed simp

end
