(* ===== verification/Chetter_Inbound.thy ===== *)
theory Chetter_Inbound
  imports Chetter_Delivery
begin

text \<open>
  The receiver of inbound webhooks, \<^verbatim>\<open>internal/inbound/handler.go\<close>, and its store,
  \<^verbatim>\<open>internal/service/inbound_webhooks.go\<close>. A request is authenticated, counted against the
  limits of its endpoint and written to the inbox before it is answered with 202.

  The Go interface \<^verbatim>\<open>inbound.Store\<close> is the record \<open>Store\<close> of its three methods; the promises
  written beside it in Go are the locale \<open>inbound_store\<close>, in which the facts about
  \<^verbatim>\<open>ServeHTTP\<close> are proved, and the interpretation on \<open>inboundStore\<close> discharges them for the
  statements the server runs. HMAC-SHA-256 and the process environment are parameters. Header keys
  and the JSON column \<^verbatim>\<open>accepted_events\<close> are held in the form they are decoded to.
\<close>

section \<open>Rows\<close>

record webhook_endpoint =
  w_id :: string
  w_public_id :: string
  w_name :: string
  w_scope :: string
  w_team_id :: "string option"
  w_source_path :: string
  w_enabled :: bool
  w_auth_type :: string
  w_secret_env :: string
  w_signature_header :: "string option"
  w_signature_prefix :: "string option"
  w_delivery_id_header :: "string option"
  w_event_type_header :: "string option"
  w_accepted_events :: "string list option"
  w_action_type :: string
  w_action_prompt :: string
  w_action_agent :: "string option"
  w_action_timeout_sec :: "int option"
  w_created_at :: time
  w_updated_at :: time

record inbound_delivery =
  i_id :: string
  i_endpoint_id :: string
  i_team_id :: "string option"
  i_delivery_id :: "string option"
  i_event_type :: "string option"
  i_source_ip :: "string option"
  i_payload :: string
  i_status :: string
  i_attempts :: int
  i_max_attempts :: int
  i_error :: "string option"
  i_task_id :: "string option"
  i_lease_expires_at :: "time option"
  i_next_attempt_at :: "time option"
  i_processed_at :: "time option"
  i_created_at :: time
  i_updated_at :: time

record inbox =
  webhook_endpoints :: "webhook_endpoint list"
  inbound_deliveries :: "inbound_delivery list"

text \<open>
  The unique keys of the two tables; a row whose \<^verbatim>\<open>delivery_id\<close> is NULL never collides on the
  pair \<^verbatim>\<open>(endpoint_id, delivery_id)\<close>.
\<close>

definition replay_of :: "string \<Rightarrow> string option \<Rightarrow> inbound_delivery \<Rightarrow> bool" where
  "replay_of endpoint key r = (key \<noteq> None \<and> i_endpoint_id r = endpoint \<and> i_delivery_id r = key)"

definition inbox_ok :: "inbox \<Rightarrow> bool" where
  "inbox_ok b =
     (distinct (map w_id (webhook_endpoints b)) \<and> distinct (map w_public_id (webhook_endpoints b)) \<and>
      distinct (map w_source_path (webhook_endpoints b)) \<and> distinct (map i_id (inbound_deliveries b)) \<and>
      distinct (map (\<lambda>r. (i_endpoint_id r, i_delivery_id r))
        (filter (\<lambda>r. i_delivery_id r \<noteq> None) (inbound_deliveries b))))"

section \<open>The store interface\<close>

record Endpoint =
  ep_ID :: string
  ep_PublicID :: string
  ep_Name :: string
  ep_Scope :: string
  ep_TeamID :: string
  ep_Enabled :: bool
  ep_AuthType :: string
  ep_SecretEnv :: string
  ep_SignatureHeader :: string
  ep_SignaturePrefix :: string
  ep_DeliveryIDHeader :: string
  ep_EventTypeHeader :: string

record DeliveryInsert =
  di_EndpointID :: string
  di_TeamID :: string
  di_DeliveryID :: string
  di_EventType :: string
  di_SourceIP :: string
  di_Payload :: string

record 's Store =
  GetEndpointByPublicID :: "string \<Rightarrow> 's \<Rightarrow> error + Endpoint option"
  InsertDelivery :: "DeliveryInsert \<Rightarrow> 's \<Rightarrow> error + bool \<times> 's"
  PendingDeliveryCount :: "string \<Rightarrow> 's \<Rightarrow> error + int"

section \<open>The receiver\<close>

record Config =
  MaxBodyBytes :: int
  RateLimit :: int
  RateWindow :: time
  MaxPending :: int
  SecretEnv :: "(string \<Rightarrow> string option) option"

definition withDefaults :: "(string \<Rightarrow> string option) \<Rightarrow> Config \<Rightarrow> Config" where
  "withDefaults lookup_env c =
     \<lparr>MaxBodyBytes = (if MaxBodyBytes c \<le> 0 then 2 ^ 20 else MaxBodyBytes c),
      RateLimit = (if RateLimit c \<le> 0 then 60 else RateLimit c),
      RateWindow = (if RateWindow c \<le> 0 then 60 * second else RateWindow c),
      MaxPending = (if MaxPending c \<le> 0 then 200 else MaxPending c),
      SecretEnv = (case SecretEnv c of None \<Rightarrow> Some lookup_env | Some f \<Rightarrow> Some f)\<rparr>"

definition MaxDeliveryIDLength :: nat where
  "MaxDeliveryIDLength = 128"

definition MaxEventTypeLength :: nat where
  "MaxEventTypeLength = 128"

text \<open>
  What the handler reads of a request. \<open>q_body\<close> is the body up to its end, or up to the read error
  in \<open>q_body_err\<close>; the header keys are canonical.
\<close>

record http_in =
  q_method :: string
  q_path :: string
  q_headers :: "(string \<times> string) list"
  q_body :: string
  q_body_err :: "error option"
  q_remote_addr :: string

definition header_get :: "(string \<times> string) list \<Rightarrow> string \<Rightarrow> string" where
  "header_get hs k = (case find (\<lambda>e. fst e = canonical_header k) hs of None \<Rightarrow> [] | Some e \<Rightarrow> snd e)"

text \<open>\<^verbatim>\<open>io.ReadAll(io.LimitReader(body, n))\<close>.\<close>

definition read_limited :: "nat \<Rightarrow> http_in \<Rightarrow> error + string" where
  "read_limited n q =
     (if n \<le> length (q_body q) then Inr (take n (q_body q))
      else (case q_body_err q of None \<Rightarrow> Inr (q_body q) | Some e \<Rightarrow> Inl e))"

definition headerValue :: "http_in \<Rightarrow> string \<Rightarrow> string" where
  "headerValue q name = (if name = [] then [] else trim_space (header_get (q_headers q) name))"

text \<open>\<^verbatim>\<open>net.SplitHostPort\<close>: the last colon ends the host, which is in brackets if it has colons.\<close>

definition last_colon :: "string \<Rightarrow> (string \<times> string) option" where
  "last_colon s =
     (if CHR '':'' \<in> set s
      then Some (rev (tl (dropWhile (\<lambda>c. c \<noteq> CHR '':'') (rev s))), rev (takeWhile (\<lambda>c. c \<noteq> CHR '':'') (rev s)))
      else None)"

definition SplitHostPort :: "string \<Rightarrow> (string \<times> string) option" where
  "SplitHostPort s =
     (case last_colon s of
        None \<Rightarrow> None
      | Some (before, port) \<Rightarrow>
          if hd s = CHR ''['' then
            (let host = takeWhile (\<lambda>c. c \<noteq> CHR '']'') (tl s) in
             if before = CHR ''['' # host @ '']'' \<and> CHR ''['' \<notin> set (tl s) \<and>
                CHR '']'' \<notin> set port
             then Some (host, port) else None)
          else if CHR '':'' \<in> set before \<or> CHR ''['' \<in> set s \<or> CHR '']'' \<in> set s then None
          else Some (before, port))"

definition clientIP :: "http_in \<Rightarrow> string" where
  "clientIP q = (case SplitHostPort (q_remote_addr q) of Some (host, _) \<Rightarrow> host | None \<Rightarrow> q_remote_addr q)"

text \<open>\<^verbatim>\<open>hmac_hex secret body\<close> stands for \<^verbatim>\<open>hmacSHA256Hex\<close>; a constant-time comparison is equality.\<close>

definition authenticated ::
  "(string \<Rightarrow> string \<Rightarrow> string) \<Rightarrow> Endpoint \<Rightarrow> string \<Rightarrow> http_in \<Rightarrow> string \<Rightarrow> bool" where
  "authenticated hmac_hex ep secret q body =
     (if ep_AuthType ep = ''hmac_sha256'' then
        header_get (q_headers q) (ep_SignatureHeader ep) =
          (if ep_SignaturePrefix ep \<noteq> [] then ep_SignaturePrefix ep @ hmac_hex secret body
           else hmac_hex secret body)
      else if ep_AuthType ep = ''bearer'' then
        (let authz = header_get (q_headers q) ''Authorization'' in
         prefix ''Bearer '' authz \<and> trim_space (drop 7 authz) = secret)
      else False)"

subsection \<open>Rate limit\<close>

record fixedWindow =
  fw_start :: time
  fw_count :: int

type_synonym limiter = "(string \<times> fixedWindow) list"

text \<open>The window the request is counted in, and the table with that window entered if it is new.\<close>

definition open_window :: "Config \<Rightarrow> time \<Rightarrow> string \<Rightarrow> limiter \<Rightarrow> fixedWindow \<times> limiter" where
  "open_window cfg now publicID lim =
     (case map_of lim publicID of
        Some entry \<Rightarrow>
          if now - fw_start entry \<ge> RateWindow cfg
          then (\<lparr>fw_start = now, fw_count = 0\<rparr>,
                map_set publicID \<lparr>fw_start = now, fw_count = 0\<rparr> (if length lim > 4096 then [] else lim))
          else (entry, lim)
      | None \<Rightarrow>
          (\<lparr>fw_start = now, fw_count = 0\<rparr>,
           map_set publicID \<lparr>fw_start = now, fw_count = 0\<rparr> (if length lim > 4096 then [] else lim)))"

definition allow :: "Config \<Rightarrow> time \<Rightarrow> string \<Rightarrow> limiter \<Rightarrow> bool \<times> limiter" where
  "allow cfg now publicID lim =
     (let (entry, lim1) = open_window cfg now publicID lim in
      if fw_count entry \<ge> RateLimit cfg then (False, lim1)
      else (True, map_set publicID (entry\<lparr>fw_count := fw_count entry + 1\<rparr>) lim1))"

subsection \<open>ServeHTTP\<close>

text \<open>\<^verbatim>\<open>strings.Trim(s, "/")\<close>.\<close>

definition trim_slashes :: "string \<Rightarrow> string" where
  "trim_slashes s = rev (dropWhile (\<lambda>c. c = CHR ''/'') (rev (dropWhile (\<lambda>c. c = CHR ''/'') s)))"

definition public_id_of :: "http_in \<Rightarrow> string" where
  "public_id_of q = trim_slashes (trim_prefix ''/hooks/inbound/'' (q_path q))"

definition json_content :: "string \<Rightarrow> bool" where
  "json_content contentType =
     (let mediaType = to_lower (trim_space (takeWhile (\<lambda>c. c \<noteq> CHR '';'') contentType)) in
      contentType \<noteq> [] \<and>
      (mediaType = ''application/json'' \<or> mediaType = ''application/*+json'' \<or> suffix ''+json'' mediaType))"

text \<open>The answer: status code, body text, and the audit event it leaves, if any.\<close>

record response =
  rs_code :: nat
  rs_text :: string
  rs_audit :: "(string \<times> string \<times> string \<times> string) option"

definition answer :: "nat \<Rightarrow> string \<Rightarrow> response" where
  "answer code msg = \<lparr>rs_code = code, rs_text = msg, rs_audit = None\<rparr>"

definition answer_audited :: "nat \<Rightarrow> string \<Rightarrow> string \<Rightarrow> Endpoint \<Rightarrow> string \<Rightarrow> response" where
  "answer_audited code msg event ep detail =
     \<lparr>rs_code = code, rs_text = msg, rs_audit = Some (event, ep_ID ep, ep_Name ep, detail)\<rparr>"

definition delivery_insert :: "Endpoint \<Rightarrow> http_in \<Rightarrow> string \<Rightarrow> DeliveryInsert" where
  "delivery_insert ep q body =
     \<lparr>di_EndpointID = ep_ID ep, di_TeamID = ep_TeamID ep,
      di_DeliveryID = take MaxDeliveryIDLength (headerValue q (ep_DeliveryIDHeader ep)),
      di_EventType = take MaxEventTypeLength (headerValue q (ep_EventTypeHeader ep)),
      di_SourceIP = clientIP q, di_Payload = body\<rparr>"

text \<open>The part of the handler after authentication: backlog bound and durable write.\<close>

definition enqueue_delivery ::
  "Config \<Rightarrow> 's Store \<Rightarrow> Endpoint \<Rightarrow> http_in \<Rightarrow> string \<Rightarrow> 's \<Rightarrow> response \<times> 's" where
  "enqueue_delivery cfg store ep q body s =
     (case PendingDeliveryCount store (ep_ID ep) s of
        Inl e \<Rightarrow> (answer 503 ''receiver unavailable'', s)
      | Inr pending \<Rightarrow>
          if pending \<ge> MaxPending cfg then
            (answer_audited 429 ''too many requests'' ''inbound_request_rejected'' ep ''delivery backlog limit reached'', s)
          else (let di = delivery_insert ep q body in
            case InsertDelivery store di s of
              Inl e \<Rightarrow> (answer 503 ''delivery queue unavailable'', s)
            | Inr (created, s') \<Rightarrow>
                if \<not> created then
                  (answer_audited 202 [] ''inbound_delivery_replay'' ep ''duplicate delivery_id ignored'', s')
                else
                  (answer_audited 202 [] ''inbound_delivery_received'' ep
                     (''event='' @ di_EventType di @ '' delivery_id='' @ di_DeliveryID di @
                      '' source_ip='' @ di_SourceIP di), s')))"

definition authenticate_and_enqueue ::
  "(string \<Rightarrow> string \<Rightarrow> string) \<Rightarrow> Config \<Rightarrow> 's Store \<Rightarrow> Endpoint \<Rightarrow> http_in \<Rightarrow> 's \<Rightarrow> response \<times> 's" where
  "authenticate_and_enqueue hmac_hex cfg store ep q s =
     (case read_limited (nat (MaxBodyBytes cfg + 1)) q of
        Inl e \<Rightarrow> (answer 400 ''read error'', s)
      | Inr body \<Rightarrow>
          if int (length body) > MaxBodyBytes cfg then
            (answer_audited 413 ''payload too large'' ''inbound_request_rejected'' ep ''payload exceeds size limit'', s)
          else if body = [] then
            (answer_audited 400 ''empty body'' ''inbound_request_rejected'' ep ''empty body'', s)
          else (case Option.bind (SecretEnv cfg) (\<lambda>lookup. lookup (ep_SecretEnv ep)) of
              None \<Rightarrow> (answer_audited 503 ''receiver not configured'' ''inbound_auth_unavailable'' ep
                        ''secret environment variable not configured'', s)
            | Some secret \<Rightarrow>
                if secret = [] then
                  (answer_audited 503 ''receiver not configured'' ''inbound_auth_unavailable'' ep
                     ''secret environment variable not configured'', s)
                else if \<not> authenticated hmac_hex ep secret q body then
                  (answer_audited 401 ''unauthorized'' ''inbound_auth_failed'' ep ''authentication failed'', s)
                else enqueue_delivery cfg store ep q body s))"

definition ServeHTTP ::
  "(string \<Rightarrow> string \<Rightarrow> string) \<Rightarrow> Config \<Rightarrow> 's Store option \<Rightarrow> time \<Rightarrow> http_in \<Rightarrow> limiter \<times> 's \<Rightarrow>
   response \<times> limiter \<times> 's" where
  "ServeHTTP hmac_hex cfg store now q = (\<lambda>(lim, s).
     case store of
       None \<Rightarrow> (answer 503 ''receiver unavailable'', lim, s)
     | Some st \<Rightarrow>
         let publicID = public_id_of q in
         if publicID = [] \<or> CHR ''/'' \<in> set publicID \<or> length publicID > 128
           then (answer 404 ''not found'', lim, s)
         else if q_method q \<noteq> ''POST'' then (answer 405 ''method not allowed'', lim, s)
         else if \<not> json_content (header_get (q_headers q) ''Content-Type'')
           then (answer 415 ''content-type must be application/json'', lim, s)
         else (case GetEndpointByPublicID st publicID s of
             Inl e \<Rightarrow> (answer 503 ''receiver unavailable'', lim, s)
           | Inr None \<Rightarrow> (answer 404 ''not found'', lim, s)
           | Inr (Some ep) \<Rightarrow>
               if \<not> ep_Enabled ep then (answer 404 ''not found'', lim, s)
               else (let (ok, lim') = allow cfg now publicID lim in
                 if \<not> ok then
                   (answer_audited 429 ''too many requests'' ''inbound_request_rate_limited'' ep
                      ''request rate limited'', lim', s)
                 else (let (r, s') = authenticate_and_enqueue hmac_hex cfg st ep q s in (r, lim', s')))))"

section \<open>The store of the server\<close>

text \<open>
  What one request takes from outside: the clock, the random identifier, and for each of the three
  statements the error of the driver, if it fails.
\<close>

record store_env =
  se_now :: time
  se_id :: "string option"
  se_get_err :: "error option"
  se_insert_err :: "error option"
  se_count_err :: "error option"

definition endpoint_view :: "webhook_endpoint \<Rightarrow> Endpoint" where
  "endpoint_view w =
     \<lparr>ep_ID = w_id w, ep_PublicID = w_public_id w, ep_Name = w_name w, ep_Scope = w_scope w,
      ep_TeamID = str_of (w_team_id w), ep_Enabled = w_enabled w, ep_AuthType = w_auth_type w,
      ep_SecretEnv = w_secret_env w, ep_SignatureHeader = str_of (w_signature_header w),
      ep_SignaturePrefix = str_of (w_signature_prefix w),
      ep_DeliveryIDHeader = str_of (w_delivery_id_header w),
      ep_EventTypeHeader = str_of (w_event_type_header w)\<rparr>"

definition inboundStore_GetEndpointByPublicID ::
  "store_env \<Rightarrow> string \<Rightarrow> inbox \<Rightarrow> error + Endpoint option" where
  "inboundStore_GetEndpointByPublicID env publicID b =
     (case se_get_err env of
        Some e \<Rightarrow> Inl (Wrap ''get endpoint by public id'' e)
      | None \<Rightarrow> Inr (map_option endpoint_view
          (find (\<lambda>w. w_public_id w = publicID \<and> w_enabled w) (webhook_endpoints b))))"

definition defaultInboundDeliveryMaxAttempts :: int where
  "defaultInboundDeliveryMaxAttempts = 3"

definition inbound_row :: "time \<Rightarrow> string \<Rightarrow> DeliveryInsert \<Rightarrow> inbound_delivery" where
  "inbound_row now i di =
     \<lparr>i_id = i, i_endpoint_id = di_EndpointID di, i_team_id = nullString (di_TeamID di),
      i_delivery_id = nullString (di_DeliveryID di), i_event_type = nullString (di_EventType di),
      i_source_ip = Some (di_SourceIP di), i_payload = di_Payload di, i_status = ''pending'',
      i_attempts = 0, i_max_attempts = defaultInboundDeliveryMaxAttempts, i_error = None,
      i_task_id = None, i_lease_expires_at = None, i_next_attempt_at = Some now,
      i_processed_at = None, i_created_at = now, i_updated_at = now\<rparr>"

definition insert_inbound :: "inbound_delivery \<Rightarrow> inbox \<Rightarrow> error + inbox" where
  "insert_inbound r b =
     (if i_id r \<in> i_id ` set (inbound_deliveries b) \<or>
         list_ex (replay_of (i_endpoint_id r) (i_delivery_id r)) (inbound_deliveries b)
      then Inl SqlDuplicateKey
      else Inr (b\<lparr>inbound_deliveries := inbound_deliveries b @ [r]\<rparr>))"

definition inboundStore_InsertDelivery ::
  "store_env \<Rightarrow> DeliveryInsert \<Rightarrow> inbox \<Rightarrow> error + bool \<times> inbox" where
  "inboundStore_InsertDelivery env di b =
     bind_res (from_option generate_id_err (se_id env)) (\<lambda>i.
       case (case se_insert_err env of
               Some e \<Rightarrow> Inl e | None \<Rightarrow> insert_inbound (inbound_row (se_now env) i di) b) of
         Inl e \<Rightarrow> if isDuplicateKeyError e then Inr (False, b) else Inl (Wrap ''insert inbound delivery'' e)
       | Inr b' \<Rightarrow> Inr (True, b'))"

definition unsettled :: "inbound_delivery \<Rightarrow> bool" where
  "unsettled r = (i_status r \<in> {''pending'', ''processing'', ''retry_wait''})"

definition inboundStore_PendingDeliveryCount :: "store_env \<Rightarrow> string \<Rightarrow> inbox \<Rightarrow> error + int" where
  "inboundStore_PendingDeliveryCount env endpointID b =
     (case se_count_err env of
        Some e \<Rightarrow> Inl (Wrap ''count pending inbound deliveries'' e)
      | None \<Rightarrow> Inr (int (length (filter (\<lambda>r. i_endpoint_id r = endpointID \<and> unsettled r)
                     (inbound_deliveries b)))))"

definition inboundStore :: "store_env \<Rightarrow> inbox Store" where
  "inboundStore env =
     \<lparr>GetEndpointByPublicID = inboundStore_GetEndpointByPublicID env,
      InsertDelivery = inboundStore_InsertDelivery env,
      PendingDeliveryCount = inboundStore_PendingDeliveryCount env\<rparr>"

section \<open>The contract of a store\<close>

text \<open>The columns of a delivery row that come from the request.\<close>

definition records :: "DeliveryInsert \<Rightarrow> inbound_delivery \<Rightarrow> bool" where
  "records di r =
     (i_endpoint_id r = di_EndpointID di \<and> i_team_id r = nullString (di_TeamID di) \<and>
      i_delivery_id r = nullString (di_DeliveryID di) \<and> i_event_type r = nullString (di_EventType di) \<and>
      i_source_ip r = Some (di_SourceIP di) \<and> i_payload r = di_Payload di \<and>
      i_status r = ''pending'' \<and> i_attempts r = 0)"

text \<open>
  The request shows that its sender knows the secret: it carries the keyed hash of its body under
  the secret, or the secret itself as a bearer token.
\<close>

definition proves_secret :: "(string \<Rightarrow> string \<Rightarrow> string) \<Rightarrow> Endpoint \<Rightarrow> string \<Rightarrow> http_in \<Rightarrow> bool" where
  "proves_secret hmac_hex ep secret q =
     ((ep_AuthType ep = ''hmac_sha256'' \<and>
       header_get (q_headers q) (ep_SignatureHeader ep) = ep_SignaturePrefix ep @ hmac_hex secret (q_body q)) \<or>
      (ep_AuthType ep = ''bearer'' \<and>
       (\<exists>token. header_get (q_headers q) ''Authorization'' = ''Bearer '' @ token \<and> trim_space token = secret)))"

lemma authenticated_iff: "authenticated hmac_hex ep secret q (q_body q) \<longleftrightarrow> proves_secret hmac_hex ep secret q"
  by (auto simp: authenticated_def proves_secret_def Let_def prefix_def)

text \<open>The request passes the checks of the handler up to the backlog bound.\<close>

definition passes ::
  "(string \<Rightarrow> string \<Rightarrow> string) \<Rightarrow> Config \<Rightarrow> Endpoint \<Rightarrow> http_in \<Rightarrow> bool" where
  "passes hmac_hex cfg ep q =
     (q_body q \<noteq> [] \<and> q_body_err q = None \<and> int (length (q_body q)) \<le> MaxBodyBytes cfg \<and>
      (case Option.bind (SecretEnv cfg) (\<lambda>lookup. lookup (ep_SecretEnv ep)) of
         None \<Rightarrow> False | Some secret \<Rightarrow> secret \<noteq> [] \<and> proves_secret hmac_hex ep secret q))"

lemma read_whole:
  assumes "read_limited (nat (n + 1)) q = Inr body" and "\<not> int (length body) > n" and "0 \<le> n"
  shows "body = q_body q \<and> q_body_err q = None"
  using assms by (auto simp: read_limited_def split: if_split_asm option.split_asm)

lemma authenticate_cases:
  assumes "authenticate_and_enqueue hmac_hex cfg store ep q s = (r, s')" and "0 \<le> MaxBodyBytes cfg"
  obtains (refused) "rs_code r \<noteq> 202" "s' = s"
  | (passed) "passes hmac_hex cfg ep q" "enqueue_delivery cfg store ep q (q_body q) s = (r, s')"
proof (cases "read_limited (nat (MaxBodyBytes cfg + 1)) q")
  case (Inl e)
  with assms show thesis by (intro refused) (auto simp: authenticate_and_enqueue_def answer_def)
next
  case (Inr body)
  with assms read_whole [OF Inr] show thesis
    by (auto simp: authenticate_and_enqueue_def answer_def answer_audited_def passes_def authenticated_iff [symmetric]
        split: if_split_asm option.split_asm intro: refused passed)
qed

lemma ServeHTTP_cases:
  assumes "ServeHTTP hmac_hex cfg (Some store) now q (lim, s) = (r, lim', s')"
  obtains (refused) "rs_code r \<noteq> 202" "s' = s"
  | (counted) ep where "GetEndpointByPublicID store (public_id_of q) s = Inr (Some ep)" "ep_Enabled ep"
      "q_method q = ''POST''" "fst (allow cfg now (public_id_of q) lim)"
      "authenticate_and_enqueue hmac_hex cfg store ep q s = (r, s')"
  using assms
  by (auto simp: ServeHTTP_def Let_def answer_def answer_audited_def case_prod_unfold
      split: if_split_asm sum.split_asm option.split_asm intro: refused counted)

text \<open>
  As \<^verbatim>\<open>handler.go\<close> writes it: an insert reported as created has put the row into the table, one
  reported as a replay has not changed it.
\<close>

locale inbound_store =
  fixes store :: "'s Store" and rows :: "'s \<Rightarrow> inbound_delivery list"
  assumes created: "InsertDelivery store di s = Inr (True, s') \<Longrightarrow>
      \<exists>r. rows s' = rows s @ [r] \<and> records di r"
    and replayed: "InsertDelivery store di s = Inr (False, s') \<Longrightarrow> s' = s"
begin

lemma enqueue_outcome:
  assumes "enqueue_delivery cfg store ep q body s = (r, s')"
  shows "(rs_code r \<noteq> 202 \<and> s' = s) \<or>
    (rs_code r = 202 \<and> (\<exists>n. PendingDeliveryCount store (ep_ID ep) s = Inr n \<and> n < MaxPending cfg) \<and>
     ((s' = s \<and> InsertDelivery store (delivery_insert ep q body) s = Inr (False, s)) \<or>
      (\<exists>row. rows s' = rows s @ [row] \<and> records (delivery_insert ep q body) row)))"
proof (cases "PendingDeliveryCount store (ep_ID ep) s")
  case (Inl e)
  with assms show ?thesis by (auto simp: enqueue_delivery_def answer_def)
next
  case (Inr n)
  show ?thesis
  proof (cases "InsertDelivery store (delivery_insert ep q body) s")
    case (Inl e)
    with assms Inr show ?thesis
      by (auto simp: enqueue_delivery_def answer_def answer_audited_def Let_def split: if_split_asm)
  next
    case (Inr p)
    with assms \<open>PendingDeliveryCount store (ep_ID ep) s = _\<close> created replayed show ?thesis
      by (cases p) (auto simp: enqueue_delivery_def answer_audited_def Let_def split: if_split_asm)
  qed
qed

lemma served:
  assumes "ServeHTTP hmac_hex cfg (Some store) now q (lim, s) = (r, lim', s')" and "0 \<le> MaxBodyBytes cfg"
  shows "(rs_code r \<noteq> 202 \<and> s' = s) \<or>
    (rs_code r = 202 \<and> fst (allow cfg now (public_id_of q) lim) \<and>
     (\<exists>ep n. GetEndpointByPublicID store (public_id_of q) s = Inr (Some ep) \<and> ep_Enabled ep \<and>
       passes hmac_hex cfg ep q \<and> PendingDeliveryCount store (ep_ID ep) s = Inr n \<and> n < MaxPending cfg \<and>
       ((s' = s \<and> InsertDelivery store (delivery_insert ep q (q_body q)) s = Inr (False, s)) \<or>
        (\<exists>row. rows s' = rows s @ [row] \<and> records (delivery_insert ep q (q_body q)) row))))"
  using assms(1)
proof (cases rule: ServeHTTP_cases)
  case (counted ep)
  from counted(5) assms(2) show ?thesis
  proof (cases rule: authenticate_cases)
    case passed
    with counted enqueue_outcome [OF passed(2)] show ?thesis by blast
  qed simp
qed simp

end

text \<open>The statements of the server keep the contract.\<close>

lemma records_inbound_row [simp]: "records di (inbound_row now i di)"
  by (simp add: records_def inbound_row_def)

interpretation server_store: inbound_store "inboundStore env" inbound_deliveries for env
  by unfold_locales
    (auto simp: inboundStore_def inboundStore_InsertDelivery_def insert_inbound_def
      split: option.split_asm sum.split_asm if_split_asm)

text \<open>A replay of a request is one whose key the table has, when the driver itself does not fail.\<close>

lemma inbound_replay:
  assumes "InsertDelivery (inboundStore env) di b = Inr (False, b')" and "se_insert_err env = None"
  shows "(\<exists>r \<in> set (inbound_deliveries b). replay_of (di_EndpointID di) (nullString (di_DeliveryID di)) r) \<or>
    the (se_id env) \<in> i_id ` set (inbound_deliveries b)"
  using assms
  by (auto simp: inboundStore_def inboundStore_InsertDelivery_def insert_inbound_def inbound_row_def list_ex_iff
      split: sum.split_asm if_split_asm)

section \<open>Rate limiting\<close>

text \<open>How many requests of a sequence for one endpoint the limiter lets pass.\<close>

fun admitted :: "Config \<Rightarrow> string \<Rightarrow> (time \<times> string) list \<Rightarrow> limiter \<Rightarrow> int" where
  "admitted cfg p [] lim = 0"
| "admitted cfg p ((now, publicID) # reqs) lim =
     (if fst (allow cfg now publicID lim) \<and> publicID = p then 1 else 0) +
     admitted cfg p reqs (snd (allow cfg now publicID lim))"

lemma map_of_map_set: "map_of (map_set k v m) k' = (if k' = k then Some v else map_of m k')"
proof -
  have "map_of (filter (\<lambda>e. fst e \<noteq> k) m) k' = (if k' = k then None else map_of m k')"
    by (induction m) auto
  then show ?thesis by (auto simp: map_set_def map_add_def split: option.splits)
qed

lemma length_map_set: "length (map_set k v m) \<le> Suc (length m)"
  by (simp add: map_set_def)

lemma length_map_set_present: "k \<in> fst ` set m \<Longrightarrow> length (map_set k v m) \<le> length m"
proof (induction m)
  case (Cons e m)
  have "length (filter (\<lambda>e. fst e \<noteq> k) m) \<le> length m" by (rule length_filter_le)
  with Cons show ?case by (auto simp: map_set_def)
qed simp

text \<open>While the table is not reset, a call for one endpoint leaves the windows of the others alone.\<close>

lemma open_window_cases:
  assumes "open_window cfg now p lim = (e, lim')" and "length lim \<le> 4096"
  obtains (fresh) "lim' = map_set p e lim" "e = \<lparr>fw_start = now, fw_count = 0\<rparr>"
      "\<And>x. map_of lim p = Some x \<Longrightarrow> now - fw_start x \<ge> RateWindow cfg"
  | (running) "lim' = lim" "map_of lim p = Some e" "now - fw_start e < RateWindow cfg"
proof (cases "map_of lim p")
  case None
  with assms show thesis by (intro fresh) (auto simp: open_window_def)
next
  case (Some x)
  show thesis
  proof (cases "now - fw_start x \<ge> RateWindow cfg")
    case True
    with assms Some show thesis by (intro fresh) (auto simp: open_window_def)
  next
    case False
    with assms Some show thesis by (intro running) (auto simp: open_window_def)
  qed
qed

lemma open_window_table:
  assumes "open_window cfg now p lim = (e, lim')" and "length lim \<le> 4096"
  shows "map_of lim' = (map_of lim)(p \<mapsto> e)" "length lim' \<le> Suc (length lim)" "p \<in> fst ` set lim'"
proof -
  have "map_of lim' = (map_of lim)(p \<mapsto> e) \<and> length lim' \<le> Suc (length lim) \<and> p \<in> fst ` set lim'"
    using assms
  proof (cases rule: open_window_cases)
    case fresh
    then show ?thesis using length_map_set [of p e lim] by (auto simp: fun_eq_iff map_of_map_set) (simp add: map_set_def)
  next
    case running
    then show ?thesis by (auto dest: map_of_SomeD intro: rev_image_eqI)
  qed
  then show "map_of lim' = (map_of lim)(p \<mapsto> e)" "length lim' \<le> Suc (length lim)" "p \<in> fst ` set lim'" by auto
qed

lemma allow_length:
  assumes "length lim \<le> 4096"
  shows "length (snd (allow cfg now q lim)) \<le> Suc (length lim)"
proof -
  obtain e lim1 where ow: "open_window cfg now q lim = (e, lim1)" by (cases "open_window cfg now q lim")
  note t = open_window_table [OF ow assms]
  show ?thesis using t(2) length_map_set_present [OF t(3)] by (auto simp: allow_def ow intro: order_trans)
qed

lemma allow_other:
  assumes "length lim \<le> 4096" and "q \<noteq> p"
  shows "map_of (snd (allow cfg now q lim)) p = map_of lim p"
proof -
  obtain e lim1 where ow: "open_window cfg now q lim = (e, lim1)" by (cases "open_window cfg now q lim")
  from open_window_table(1) [OF ow assms(1)] assms(2) show ?thesis
    by (simp add: allow_def ow map_of_map_set)
qed

text \<open>What the limiter can still let pass up to the time \<open>b\<close>, for the state of one window.\<close>

definition budget :: "Config \<Rightarrow> time \<Rightarrow> fixedWindow option \<Rightarrow> int" where
  "budget cfg b w =
     (case w of None \<Rightarrow> RateLimit cfg
      | Some e \<Rightarrow> max 0 (RateLimit cfg - fw_count e) + (if b - fw_start e < RateWindow cfg then 0 else RateLimit cfg))"

lemma allow_budget:
  assumes "length lim \<le> 4096" and "a \<le> now" "now \<le> b" "b - a < RateWindow cfg" and "0 \<le> RateLimit cfg"
  shows "(if fst (allow cfg now p lim) then 1 else 0) + budget cfg b (map_of (snd (allow cfg now p lim)) p)
    \<le> budget cfg b (map_of lim p)"
proof -
  obtain e lim1 where ow: "open_window cfg now p lim = (e, lim1)" by (cases "open_window cfg now p lim")
  have w: "map_of lim1 p = Some e" using open_window_table(1) [OF ow assms(1)] by simp
  have "(if fst (allow cfg now p lim) then 1 else 0) + budget cfg b (map_of (snd (allow cfg now p lim)) p)
    \<le> budget cfg b (Some e)"
    using w assms(5) by (auto simp: allow_def ow budget_def map_of_map_set)
  also from ow assms(1) have "\<dots> \<le> budget cfg b (map_of lim p)"
  proof (cases rule: open_window_cases)
    case fresh
    then show ?thesis using assms by (auto simp: budget_def split: option.split)
  qed simp
  finally show ?thesis .
qed

lemma admitted_budget:
  assumes "length lim + length reqs \<le> 4097" and "list_all (\<lambda>q. a \<le> fst q \<and> fst q \<le> b) reqs"
    and "b - a < RateWindow cfg" and "0 \<le> RateLimit cfg"
  shows "admitted cfg p reqs lim \<le> budget cfg b (map_of lim p)"
  using assms(1,2)
proof (induction reqs arbitrary: lim)
  case Nil
  show ?case using assms(4) by (simp add: budget_def split: option.split)
next
  case (Cons q reqs)
  obtain now i where q: "q = (now, i)" by (cases q)
  let ?lim = "snd (allow cfg now i lim)"
  have len: "length lim \<le> 4096" using Cons.prems by simp
  from allow_length [OF len, of cfg now i] Cons have IH: "admitted cfg p reqs ?lim \<le> budget cfg b (map_of ?lim p)" by simp
  show ?case
  proof (cases "i = p")
    case True
    with IH allow_budget [OF len _ _ assms(3,4), of now p] Cons.prems q show ?thesis by simp
  next
    case False
    with IH allow_other [OF len False] q show ?thesis by simp
  qed
qed

text \<open>
  In any stretch of time shorter than the rate window the receiver lets at most twice the
  configured number of requests of one endpoint pass (a fixed window may end in its middle), and at
  most that number when the endpoint has no window yet, whatever the other endpoints receive, as
  long as the table of windows does not outgrow its bound.
\<close>

theorem rate_limit_bounds_requests:
  assumes "length lim + length reqs \<le> 4097" and "list_all (\<lambda>q. a \<le> fst q \<and> fst q \<le> b) reqs"
    and "b - a < RateWindow cfg" and "0 < RateLimit cfg"
    and "list_all (\<lambda>w. 0 \<le> fw_count (snd w)) lim"
  shows "admitted cfg p reqs lim \<le> (if map_of lim p = None then RateLimit cfg else 2 * RateLimit cfg)"
proof -
  have "budget cfg b (map_of lim p) \<le> (if map_of lim p = None then RateLimit cfg else 2 * RateLimit cfg)"
    using assms(4,5) by (auto simp: budget_def list_all_iff split: option.split dest!: map_of_SomeD)
  with admitted_budget [OF assms(1-3), of p] assms(4) show ?thesis by linarith
qed

theorem rate_limit_bounds_requests_witness:
  "admitted \<lparr>MaxBodyBytes = 1, RateLimit = 2, RateWindow = 60, MaxPending = 1, SecretEnv = None\<rparr> ''a''
     [(0, ''a''), (1, ''b''), (2, ''a''), (3, ''a'')] [] \<le> 2"
proof -
  let ?cfg = "\<lparr>MaxBodyBytes = 1, RateLimit = 2, RateWindow = 60, MaxPending = 1, SecretEnv = None\<rparr>"
  let ?reqs = "[(0 :: time, ''a''), (1, ''b''), (2, ''a''), (3, ''a'')]"
  have "length ([] :: limiter) + length ?reqs \<le> 4097" by simp
  moreover have "list_all (\<lambda>q. 0 \<le> fst q \<and> fst q \<le> 3) ?reqs" by simp
  ultimately show ?thesis
    using rate_limit_bounds_requests [of "[]" ?reqs 0 3 ?cfg "''a''"] by simp
qed

text \<open>Beyond its bound the table is emptied, windows that still run included.\<close>

lemma limiter_reset_drops_running_windows:
  assumes "4096 < length lim" and "map_of lim q = None" and "p \<noteq> q"
  shows "map_of (snd (allow cfg now q lim)) p = None"
  using assms by (simp add: allow_def open_window_def map_of_map_set Let_def)

section \<open>What an accepted request has done\<close>

lemma insert_inbound_ok:
  assumes "inbox_ok b" and "insert_inbound r b = Inr b'"
  shows "inbox_ok b'"
  using assms by (auto simp: inbox_ok_def insert_inbound_def replay_of_def list_ex_iff split: if_split_asm)

lemma InsertDelivery_ok:
  assumes "InsertDelivery (inboundStore env) di b = Inr (c, b')" and "inbox_ok b"
  shows "inbox_ok b' \<and> webhook_endpoints b' = webhook_endpoints b"
proof -
  consider "b' = b" | i where "insert_inbound (inbound_row (se_now env) i di) b = Inr b'"
    using assms(1) by (auto simp: inboundStore_def inboundStore_InsertDelivery_def
        split: option.split_asm sum.split_asm if_split_asm)
  then show ?thesis
    by cases (use assms(2) insert_inbound_ok in \<open>auto simp: insert_inbound_def split: if_split_asm\<close>)
qed

lemma endpoint_found:
  assumes "GetEndpointByPublicID (inboundStore env) p b = Inr (Some ep)"
  obtains w where "w \<in> set (webhook_endpoints b)" "w_public_id w = p" "w_enabled w" "ep = endpoint_view w"
  using assms
  by (auto simp: inboundStore_def inboundStore_GetEndpointByPublicID_def split: option.split_asm dest!: find_SomeD)

text \<open>
  C31. When the insert of the delivery meets no error of the driver and its random id is new, a request
  is answered with 202 only if it carries a valid signature or token of an enabled endpoint with its
  public id, is within the size, rate and backlog limits, and the inbox holds it: one new pending row
  with its endpoint, keys and payload, or the row that already has its delivery id; and every other
  answer leaves the inbox as it was. (A driver error after the statement took effect is answered with
  an error although the row is there; it is the case the first hypothesis leaves out.)
\<close>

theorem accepted_request_is_authentic_and_stored:
  assumes "ServeHTTP hmac_hex (withDefaults os_env cfg) (Some (inboundStore env)) now q (lim, b) = (r, lim', b')"
    and "se_insert_err env = None" and "se_id env = Some i" and "i \<notin> i_id ` set (inbound_deliveries b)"
  shows "(rs_code r \<noteq> 202 \<and> b' = b) \<or>
    (rs_code r = 202 \<and> fst (allow (withDefaults os_env cfg) now (public_id_of q) lim) \<and>
     (\<exists>w \<in> set (webhook_endpoints b). w_public_id w = public_id_of q \<and> w_enabled w \<and>
        passes hmac_hex (withDefaults os_env cfg) (endpoint_view w) q \<and>
        int (length (filter (\<lambda>x. i_endpoint_id x = w_id w \<and> unsettled x) (inbound_deliveries b)))
          < MaxPending (withDefaults os_env cfg) \<and>
        (let di = delivery_insert (endpoint_view w) q (q_body q) in
         (b' = b \<and> (\<exists>x \<in> set (inbound_deliveries b). replay_of (w_id w) (nullString (di_DeliveryID di)) x)) \<or>
         (\<exists>x. inbound_deliveries b' = inbound_deliveries b @ [x] \<and> records di x))))"
proof -
  let ?cfg = "withDefaults os_env cfg"
  have "0 \<le> MaxBodyBytes ?cfg" by (simp add: withDefaults_def)
  from server_store.served [OF assms(1) this]
  consider "rs_code r \<noteq> 202" "b' = b"
    | ep n where "rs_code r = 202" "fst (allow ?cfg now (public_id_of q) lim)"
        "GetEndpointByPublicID (inboundStore env) (public_id_of q) b = Inr (Some ep)" "passes hmac_hex ?cfg ep q"
        "PendingDeliveryCount (inboundStore env) (ep_ID ep) b = Inr n" "n < MaxPending ?cfg"
        "(b' = b \<and> InsertDelivery (inboundStore env) (delivery_insert ep q (q_body q)) b = Inr (False, b)) \<or>
         (\<exists>x. inbound_deliveries b' = inbound_deliveries b @ [x] \<and> records (delivery_insert ep q (q_body q)) x)"
    by blast
  then show ?thesis
  proof cases
    case 2
    from endpoint_found [OF 2(3)] obtain w where w: "w \<in> set (webhook_endpoints b)" "w_public_id w = public_id_of q"
      "w_enabled w" "ep = endpoint_view w" by blast
    have "n = int (length (filter (\<lambda>x. i_endpoint_id x = w_id w \<and> unsettled x) (inbound_deliveries b)))"
      using 2(5) w(4) by (auto simp: inboundStore_def inboundStore_PendingDeliveryCount_def endpoint_view_def split: option.split_asm)
    moreover have "\<exists>x \<in> set (inbound_deliveries b). replay_of (w_id w) (nullString (di_DeliveryID (delivery_insert ep q (q_body q)))) x"
      if "InsertDelivery (inboundStore env) (delivery_insert ep q (q_body q)) b = Inr (False, b)"
      using inbound_replay [OF that assms(2)] assms(3,4) w(4) by (simp add: delivery_insert_def endpoint_view_def)
    ultimately show ?thesis using 2 w by (auto simp: Let_def)
  qed simp
qed

definition ex_endpoint :: webhook_endpoint where
  "ex_endpoint =
     \<lparr>w_id = ''inb_1'', w_public_id = ''p1'', w_name = ''ci'', w_scope = ''team'', w_team_id = Some ''team1'',
      w_source_path = ''groups/t/webhooks/inbound/ci.yaml'', w_enabled = True, w_auth_type = ''bearer'',
      w_secret_env = ''CI_SECRET'', w_signature_header = None, w_signature_prefix = None,
      w_delivery_id_header = Some ''X-Id'', w_event_type_header = None, w_accepted_events = None,
      w_action_type = ''create_task'', w_action_prompt = ''fix'', w_action_agent = None,
      w_action_timeout_sec = None, w_created_at = 0, w_updated_at = 0\<rparr>"

definition ex_inbox :: inbox where
  "ex_inbox = \<lparr>webhook_endpoints = [ex_endpoint], inbound_deliveries = []\<rparr>"

definition ex_request :: http_in where
  "ex_request =
     \<lparr>q_method = ''POST'', q_path = ''/hooks/inbound/p1'',
      q_headers = [(''Content-Type'', ''application/json''), (''Authorization'', ''Bearer s3cret''), (''X-Id'', ''42'')],
      q_body = ''{}'', q_body_err = None, q_remote_addr = ''10.0.0.1:4000''\<rparr>"

definition ex_store_env :: store_env where
  "ex_store_env = \<lparr>se_now = 7, se_id = Some ''ibd_1'', se_get_err = None, se_insert_err = None, se_count_err = None\<rparr>"

definition ex_config :: Config where
  "ex_config = \<lparr>MaxBodyBytes = 10, RateLimit = 0, RateWindow = 0, MaxPending = 0, SecretEnv = None\<rparr>"

definition ex_secrets :: "string \<Rightarrow> string option" where
  "ex_secrets name = (if name = ''CI_SECRET'' then Some ''s3cret'' else None)"

theorem accepted_request_is_authentic_and_stored_witness:
  "\<exists>r lim' b'. ServeHTTP (\<lambda>_ _. []) (withDefaults ex_secrets ex_config) (Some (inboundStore ex_store_env)) 7 ex_request ([], ex_inbox)
      = (r, lim', b') \<and> rs_code r = 202 \<and> (\<exists>x. inbound_deliveries b' = inbound_deliveries ex_inbox @ [x])"
proof -
  let ?out = "ServeHTTP (\<lambda>_ _. []) (withDefaults ex_secrets ex_config) (Some (inboundStore ex_store_env)) 7 ex_request ([], ex_inbox)"
  obtain r lim' b' where out: "?out = (r, lim', b')" by (cases ?out) auto
  have "rs_code (fst ?out) = 202" by code_simp
  with out have code: "rs_code r = 202" by simp
  have "se_insert_err ex_store_env = None" "se_id ex_store_env = Some ''ibd_1''" "''ibd_1'' \<notin> i_id ` set (inbound_deliveries ex_inbox)"
    by (simp_all add: ex_store_env_def ex_inbox_def)
  from accepted_request_is_authentic_and_stored [OF out this] code
  have "\<exists>x. inbound_deliveries b' = inbound_deliveries ex_inbox @ [x]" by (auto simp: ex_inbox_def Let_def)
  with out code show ?thesis by blast
qed

end
