(* ===== verification/Chetter_Inbound_Worker.thy ===== *)
theory Chetter_Inbound_Worker
  imports Chetter_Inbound Chetter_Lease
begin

text \<open>
  The worker that drains the inbox, \<^verbatim>\<open>internal/service/inbound_deliveries.go\<close>, and the
  operator's view of it in \<^verbatim>\<open>inbound_webhooks.go\<close>. A delivery renders the prompt of its
  endpoint and submits a task under an identifier derived from its row. The template engine, the
  decoding of the payload for it and the hash function are parameters, as are the failures of the
  driver; audit events are left out.
\<close>

section \<open>Claiming\<close>

definition inboundDeliveryLease :: time where
  "inboundDeliveryLease = 60 * second"

definition inboundDeliveryClaimLimit :: nat where
  "inboundDeliveryClaimLimit = 50"

definition inboundDeliveryBackoff :: "int \<Rightarrow> time" where
  "inboundDeliveryBackoff attempts =
     (if attempts \<ge> 4 then 30 * second
      else if attempts = 3 then 15 * second
      else if attempts = 2 then 5 * second
      else second)"

definition inbound_due :: "time \<Rightarrow> inbound_delivery \<Rightarrow> bool" where
  "inbound_due now r =
     ((i_status r = ''pending'' \<and> (case i_next_attempt_at r of None \<Rightarrow> False | Some n \<Rightarrow> n \<le> now)) \<or>
      (i_status r = ''retry_wait'' \<and> (case i_next_attempt_at r of None \<Rightarrow> False | Some n \<Rightarrow> n \<le> now)) \<or>
      (i_status r = ''processing'' \<and> (case i_lease_expires_at r of None \<Rightarrow> False | Some l \<Rightarrow> l < now)))"

definition due_inbound :: "(inbound_delivery \<Rightarrow> bool) \<Rightarrow> time \<Rightarrow> inbox \<Rightarrow> inbound_delivery list" where
  "due_inbound locked now b =
     take inboundDeliveryClaimLimit
       (sql_order_asc (\<lambda>r. case i_next_attempt_at r of None \<Rightarrow> (False, 0) | Some n \<Rightarrow> (True, n))
         (filter (\<lambda>r. inbound_due now r \<and> \<not> locked r) (inbound_deliveries b)))"

definition upd_inbound ::
  "(inbound_delivery \<Rightarrow> bool) \<Rightarrow> (inbound_delivery \<Rightarrow> inbound_delivery) \<Rightarrow> inbox \<Rightarrow> inbox" where
  "upd_inbound w f b = b\<lparr>inbound_deliveries := sql_update w f (inbound_deliveries b)\<rparr>"

definition processing :: "time \<Rightarrow> int \<Rightarrow> inbound_delivery \<Rightarrow> inbound_delivery" where
  "processing now attempt r =
     r\<lparr>i_status := ''processing'', i_attempts := attempt,
       i_lease_expires_at := Some (now + inboundDeliveryLease), i_updated_at := now\<rparr>"

fun mark_processing :: "time \<Rightarrow> inbound_delivery list \<Rightarrow> inbox \<Rightarrow> inbox" where
  "mark_processing now [] b = b"
| "mark_processing now (item # items) b =
     mark_processing now items
       (upd_inbound (\<lambda>r. i_id r = i_id item) (processing now (i_attempts item + 1)) b)"

text \<open>The rows as read, with the attempt they are claimed for counted.\<close>

definition claimDueInboundDeliveries ::
  "(inbound_delivery \<Rightarrow> bool) \<Rightarrow> time \<Rightarrow> inbox \<Rightarrow> inbound_delivery list \<times> inbox" where
  "claimDueInboundDeliveries locked now b =
     (let items = due_inbound locked now b in
      (map (\<lambda>r. r\<lparr>i_attempts := i_attempts r + 1\<rparr>) items, mark_processing now items b))"

section \<open>Processing\<close>

record 'j inboundTemplateData =
  td_EndpointName :: string
  td_EventType :: string
  td_DeliveryID :: string
  td_SourceIP :: string
  td_Payload :: 'j
  td_PayloadRaw :: string

text \<open>
  The decoded payload is of the type \<open>'j\<close>: \<open>iw_object\<close> and \<open>iw_value\<close> are the two attempts to decode the payload, into an object and into any
  value; \<open>iw_render\<close> parses and executes a template. \<open>iw_load_err\<close> and \<open>iw_mark_err\<close> are the errors
  of the driver when the endpoint is read and when the outcome is written.
\<close>

record 'j inbound_env =
  iw_now :: time
  iw_submit :: submit_env
  iw_object :: "string \<Rightarrow> 'j option"
  iw_value :: "string \<Rightarrow> 'j"
  iw_render :: "string \<Rightarrow> 'j inboundTemplateData \<Rightarrow> string + string"
  iw_sha256_hex :: "string \<Rightarrow> string"
  iw_load_err :: "error option"
  iw_mark_err :: "error option"

definition renderInboundPrompt ::
  "'j inbound_env \<Rightarrow> webhook_endpoint \<Rightarrow> inbound_delivery \<Rightarrow> string + string" where
  "renderInboundPrompt env w r =
     (let payload = (case iw_object env (i_payload r) of Some v \<Rightarrow> v | None \<Rightarrow> iw_value env (i_payload r)) in
      case iw_render env (w_action_prompt w)
        \<lparr>td_EndpointName = w_name w, td_EventType = str_of (i_event_type r),
         td_DeliveryID = str_of (i_delivery_id r), td_SourceIP = str_of (i_source_ip r),
         td_Payload = payload, td_PayloadRaw = i_payload r\<rparr> of
        Inl m \<Rightarrow> Inl m
      | Inr s \<Rightarrow> Inr (trim_space s))"

definition loadInboundEndpoint :: "'j inbound_env \<Rightarrow> string \<Rightarrow> inbox \<Rightarrow> error + webhook_endpoint option" where
  "loadInboundEndpoint env endpointID b =
     (case iw_load_err env of
        Some e \<Rightarrow> Inl (Wrap ''load inbound endpoint'' e)
      | None \<Rightarrow> Inr (find (\<lambda>w. w_id w = endpointID) (webhook_endpoints b)))"

definition inboundDeliveryTaskID :: "(string \<Rightarrow> string) \<Rightarrow> string \<Rightarrow> string" where
  "inboundDeliveryTaskID sha256_hex deliveryRowID =
     ''task_'' @ take 32 (sha256_hex (''inbound_delivery:'' @ deliveryRowID))"

definition inbound_request :: "webhook_endpoint \<Rightarrow> string \<Rightarrow> string \<Rightarrow> SubmitTaskRequest" where
  "inbound_request w prompt taskID =
     \<lparr>rq_TeamID = str_of (w_team_id w), rq_TeamName = [], rq_Prompt = prompt, rq_GitURL = [], rq_GitRef = [],
      rq_Repos = [], rq_GitHubRepo = [], rq_GitHubInstallationID = 0, rq_AgentImage = [],
      rq_Agent = str_of (w_action_agent w), rq_ProviderID = [], rq_ModelID = [], rq_VariantID = [],
      rq_Harness = [], rq_Skills = [], rq_McpEndpoints = [], rq_Env = [],
      rq_TimeoutSec = (case w_action_timeout_sec w of None \<Rightarrow> 0 | Some n \<Rightarrow> n),
      rq_TriggerName = [], rq_TriggerType = ''inbound_webhook'', rq_SubmissionSource = ''inbound_webhook'',
      rq_CallbackParentTaskID = [], rq_CallbackDepth = 0, rq_ExplicitTaskID = taskID,
      rq_SelfTestRunID = [], rq_SelfTestProfile = [], rq_SelfTestCheck = [], rq_SelfTestNonce = [],
      rq_SessionMode = [], rq_PauseReason = [], rq_TTLHours = 0, rq_Isolation = []\<rparr>"

text \<open>The writes of an outcome: by id alone. A failing write leaves the row under its lease.\<close>

definition markInboundDeliverySucceeded ::
  "'j inbound_env \<Rightarrow> inbound_delivery \<Rightarrow> string \<Rightarrow> inbox \<Rightarrow> error option \<times> inbox" where
  "markInboundDeliverySucceeded env r taskID b =
     (case iw_mark_err env of
        Some e \<Rightarrow> (Some (Wrap ''mark inbound delivery succeeded'' e), b)
      | None \<Rightarrow>
          (None, upd_inbound (\<lambda>x. i_id x = i_id r)
             (\<lambda>x. x\<lparr>i_status := ''succeeded'', i_error := None, i_task_id := nullString taskID,
                    i_lease_expires_at := None, i_next_attempt_at := None,
                    i_processed_at := Some (iw_now env), i_updated_at := iw_now env\<rparr>) b))"

definition markInboundDeliveryFailed ::
  "'j inbound_env \<Rightarrow> inbound_delivery \<Rightarrow> string \<Rightarrow> string \<Rightarrow> time option \<Rightarrow> inbox \<Rightarrow> error option \<times> inbox" where
  "markInboundDeliveryFailed env r status msg next_at b =
     (case iw_mark_err env of
        Some e \<Rightarrow> (Some (Wrap (''mark inbound delivery '' @ status) e), b)
      | None \<Rightarrow>
          (None, upd_inbound (\<lambda>x. i_id x = i_id r)
             (\<lambda>x. x\<lparr>i_status := status, i_error := Some (truncateTo500 msg), i_lease_expires_at := None,
                    i_next_attempt_at := next_at, i_updated_at := iw_now env\<rparr>) b))"

definition finishInboundDelivery ::
  "'j inbound_env \<Rightarrow> inbound_delivery \<Rightarrow> string \<Rightarrow> string \<Rightarrow> inbox \<Rightarrow> error option \<times> inbox" where
  "finishInboundDelivery env r status msg b =
     (if status = ''failed_permanent'' then markInboundDeliveryFailed env r status msg None b
      else if i_attempts r \<ge> i_max_attempts r then markInboundDeliveryFailed env r ''dead_letter'' msg None b
      else markInboundDeliveryFailed env r ''retry_wait'' msg
        (Some (iw_now env + inboundDeliveryBackoff (to_int32 (i_attempts r)))) b)"

text \<open>The worker's context carries no scope.\<close>

definition worker_submit :: "'j inbound_env \<Rightarrow> submit_env" where
  "worker_submit env = (iw_submit env)\<lparr>sv_scope := None\<rparr>"

definition processInboundDelivery ::
  "svc_config \<Rightarrow> 'j inbound_env \<Rightarrow> inbound_delivery \<Rightarrow> rpc_state \<times> db \<times> inbox \<Rightarrow>
   error option \<times> rpc_state \<times> db \<times> inbox" where
  "processInboundDelivery cfg env r = (\<lambda>(st, d, b).
     let finish = (\<lambda>status msg st d. let (e, b') = finishInboundDelivery env r status msg b in (e, st, d, b'));
         succeed = (\<lambda>taskID st d. let (e, b') = markInboundDeliverySucceeded env r taskID b in (e, st, d, b')) in
     case loadInboundEndpoint env (i_endpoint_id r) b of
       Inl e \<Rightarrow> (Some e, st, d, b)
     | Inr None \<Rightarrow> finish ''failed_permanent'' ''endpoint no longer exists'' st d
     | Inr (Some w) \<Rightarrow>
         if \<not> w_enabled w then finish ''failed_permanent'' ''endpoint disabled'' st d
         else if (case w_accepted_events w of None \<Rightarrow> False
                  | Some evs \<Rightarrow> evs \<noteq> [] \<and> str_of (i_event_type r) \<notin> set evs)
           then succeed [] st d
         else if w_action_type w \<noteq> ''create_task''
           then finish ''failed_permanent'' (''unsupported action type '' @ go_quote (w_action_type w)) st d
         else (case renderInboundPrompt env w r of
             Inl m \<Rightarrow> finish ''failed_permanent'' (''render action prompt: '' @ m) st d
           | Inr prompt \<Rightarrow>
               let taskID = inboundDeliveryTaskID (iw_sha256_hex env) (i_id r) in
               case SubmitTask cfg (worker_submit env) (inbound_request w prompt taskID) (st, d) of
                 Inr (t, st', d') \<Rightarrow> succeed taskID st' d'
               | Inl e \<Rightarrow>
                   if isDuplicateKeyError e \<and> \<not> isl (GetTaskByID taskID d) then succeed taskID st d
                   else finish (if isInboundPermanentTaskError e then ''failed_permanent'' else ''retry_wait'')
                          (''create task: '' @ err_text e) st d))"

fun process_inbound ::
  "svc_config \<Rightarrow> (inbound_delivery \<Rightarrow> 'j inbound_env) \<Rightarrow> inbound_delivery list \<Rightarrow>
   rpc_state \<times> db \<times> inbox \<Rightarrow> rpc_state \<times> db \<times> inbox" where
  "process_inbound cfg envs [] s = s"
| "process_inbound cfg envs (r # rs) s = process_inbound cfg envs rs (snd (processInboundDelivery cfg (envs r) r s))"

definition processDueInboundDeliveries ::
  "svc_config \<Rightarrow> (inbound_delivery \<Rightarrow> 'j inbound_env) \<Rightarrow> (inbound_delivery \<Rightarrow> bool) \<Rightarrow> time \<Rightarrow>
   rpc_state \<times> db \<times> inbox \<Rightarrow> rpc_state \<times> db \<times> inbox" where
  "processDueInboundDeliveries cfg envs locked now = (\<lambda>(st, d, b).
     let (items, b1) = claimDueInboundDeliveries locked now b in process_inbound cfg envs items (st, d, b1))"

section \<open>The operator's view\<close>

definition inboundVisibleToScope :: "Scope option \<Rightarrow> string \<Rightarrow> bool" where
  "inboundVisibleToScope ctx teamID =
     (case ctx of None \<Rightarrow> True
      | Some scope \<Rightarrow> if Admin scope then True else if teamID = [] then False else HasTeam scope teamID)"

record inboundEndpointRecord =
  ie_ID :: string
  ie_PublicID :: string
  ie_Name :: string
  ie_Scope :: string
  ie_TeamID :: string
  ie_SourcePath :: string
  ie_Enabled :: bool
  ie_AuthType :: string
  ie_SecretEnv :: string
  ie_SignatureHeader :: string
  ie_SignaturePrefix :: string
  ie_DeliveryIDHdr :: string
  ie_EventTypeHdr :: string
  ie_AcceptedEvents :: "string list"
  ie_ActionType :: string
  ie_ActionAgent :: string
  ie_ActionTimeout :: int
  ie_PublicURL :: string
  ie_SecretConfigured :: bool
  ie_CreatedAt :: time
  ie_UpdatedAt :: time

definition scanInboundEndpoint :: "(string \<Rightarrow> string option) \<Rightarrow> webhook_endpoint \<Rightarrow> inboundEndpointRecord" where
  "scanInboundEndpoint lookup_env w =
     \<lparr>ie_ID = w_id w, ie_PublicID = w_public_id w, ie_Name = w_name w, ie_Scope = w_scope w,
      ie_TeamID = str_of (w_team_id w), ie_SourcePath = w_source_path w, ie_Enabled = w_enabled w,
      ie_AuthType = w_auth_type w, ie_SecretEnv = w_secret_env w,
      ie_SignatureHeader = str_of (w_signature_header w), ie_SignaturePrefix = str_of (w_signature_prefix w),
      ie_DeliveryIDHdr = str_of (w_delivery_id_header w), ie_EventTypeHdr = str_of (w_event_type_header w),
      ie_AcceptedEvents = (case w_accepted_events w of None \<Rightarrow> [] | Some evs \<Rightarrow> evs),
      ie_ActionType = w_action_type w, ie_ActionAgent = str_of (w_action_agent w),
      ie_ActionTimeout = (case w_action_timeout_sec w of None \<Rightarrow> 0 | Some n \<Rightarrow> n),
      ie_PublicURL = ''/hooks/inbound/'' @ w_public_id w,
      ie_SecretConfigured = (w_enabled w \<and> lookup_env (w_secret_env w) \<noteq> None),
      ie_CreatedAt = w_created_at w, ie_UpdatedAt = w_updated_at w\<rparr>"

text \<open>\<^verbatim>\<open>ORDER BY created_at DESC LIMIT n OFFSET k\<close>; a negative offset is an error of the statement.\<close>

definition newest_page :: "('r \<Rightarrow> time) \<Rightarrow> int \<Rightarrow> int \<Rightarrow> 'r list \<Rightarrow> error + 'r list" where
  "newest_page at limit offset rs =
     bind_res (guard_res (0 \<le> offset) (DbError ''syntax error''))
       (\<lambda>_. Inr (take (nat limit) (drop (nat offset) (sql_order_asc (\<lambda>r. - at r) rs))))"

definition ListInboundEndpoints ::
  "(string \<Rightarrow> string option) \<Rightarrow> Scope option \<Rightarrow> int \<Rightarrow> int \<Rightarrow> inbox \<Rightarrow> error + inboundEndpointRecord list" where
  "ListInboundEndpoints lookup_env ctx limit0 offset b =
     (let limit = (if limit0 \<le> 0 then 50 else limit0) in
      bind_res (wrap_err ''list inbound endpoints'' (newest_page w_created_at limit offset (webhook_endpoints b)))
        (\<lambda>ws. Inr (filter (\<lambda>r. inboundVisibleToScope ctx (ie_TeamID r)) (map (scanInboundEndpoint lookup_env) ws))))"

record inboundDeliveryRecord =
  ir_ID :: string
  ir_EndpointID :: string
  ir_TeamID :: string
  ir_DeliveryID :: string
  ir_EventType :: string
  ir_SourceIP :: string
  ir_Status :: string
  ir_Attempts :: int
  ir_MaxAttempts :: int
  ir_Error :: string
  ir_TaskID :: string
  ir_NextAttemptAt :: "time option"
  ir_ProcessedAt :: "time option"
  ir_CreatedAt :: time
  ir_UpdatedAt :: time

definition scanInboundDeliveryRecord :: "inbound_delivery \<Rightarrow> inboundDeliveryRecord" where
  "scanInboundDeliveryRecord r =
     \<lparr>ir_ID = i_id r, ir_EndpointID = i_endpoint_id r, ir_TeamID = str_of (i_team_id r),
      ir_DeliveryID = str_of (i_delivery_id r), ir_EventType = str_of (i_event_type r),
      ir_SourceIP = str_of (i_source_ip r), ir_Status = i_status r, ir_Attempts = i_attempts r,
      ir_MaxAttempts = i_max_attempts r, ir_Error = str_of (i_error r), ir_TaskID = str_of (i_task_id r),
      ir_NextAttemptAt = i_next_attempt_at r, ir_ProcessedAt = i_processed_at r,
      ir_CreatedAt = i_created_at r, ir_UpdatedAt = i_updated_at r\<rparr>"

definition ListInboundDeliveries ::
  "Scope option \<Rightarrow> string \<Rightarrow> string \<Rightarrow> int \<Rightarrow> int \<Rightarrow> inbox \<Rightarrow> error + inboundDeliveryRecord list" where
  "ListInboundDeliveries ctx endpointID status limit0 offset b =
     (let limit = (if limit0 \<le> 0 then 50 else limit0) in
      bind_res (wrap_err ''list inbound deliveries'' (newest_page i_created_at limit offset
          (filter (\<lambda>r. (endpointID = [] \<or> i_endpoint_id r = endpointID) \<and> (status = [] \<or> i_status r = status))
            (inbound_deliveries b))))
        (\<lambda>rs. Inr (filter (\<lambda>r. inboundVisibleToScope ctx (ir_TeamID r)) (map scanInboundDeliveryRecord rs))))"

definition getInboundDeliveryRecord :: "string \<Rightarrow> inbox \<Rightarrow> error + inboundDeliveryRecord" where
  "getInboundDeliveryRecord i b =
     wrap_err ''get inbound delivery''
       (bind_res (sql_one (\<lambda>r. i_id r = i) (inbound_deliveries b)) (\<lambda>r. Inr (scanInboundDeliveryRecord r)))"

text \<open>The columns \<^verbatim>\<open>team_id\<close> and \<^verbatim>\<open>status\<close> of a row.\<close>

definition GetInboundDeliveryRetryState :: "string \<Rightarrow> inbox \<Rightarrow> error + string option \<times> string" where
  "GetInboundDeliveryRetryState i b =
     bind_res (sql_one (\<lambda>r. i_id r = i) (inbound_deliveries b)) (\<lambda>r. Inr (i_team_id r, i_status r))"

definition retryable :: "string \<Rightarrow> inbound_delivery \<Rightarrow> bool" where
  "retryable i r = (i_id r = i \<and> i_status r \<in> {''failed_permanent'', ''dead_letter''})"

definition requeued :: "time option \<Rightarrow> time \<Rightarrow> inbound_delivery \<Rightarrow> inbound_delivery" where
  "requeued next_at updated r =
     r\<lparr>i_status := ''pending'', i_attempts := 0, i_error := None, i_lease_expires_at := None,
       i_next_attempt_at := next_at, i_processed_at := None, i_updated_at := updated\<rparr>"

definition ResetInboundDeliveryForRetry :: "time option \<Rightarrow> time \<Rightarrow> string \<Rightarrow> inbox \<Rightarrow> inbox \<times> nat" where
  "ResetInboundDeliveryForRetry next_at updated i b =
     (upd_inbound (retryable i) (requeued next_at updated) b,
      sql_affected (retryable i) (requeued next_at updated) (inbound_deliveries b))"

definition RetryInboundDelivery ::
  "Scope option \<Rightarrow> time \<Rightarrow> string \<Rightarrow> inbox \<Rightarrow> error + inboundDeliveryRecord \<times> inbox" where
  "RetryInboundDelivery ctx now deliveryID0 b =
     (let deliveryID = trim_space deliveryID0;
          not_found = Errorf (''inbound delivery '' @ go_quote deliveryID @ '' not found'') in
      if deliveryID = [] then Inl (Errorf ''delivery_id is required'') else
      case GetInboundDeliveryRetryState deliveryID b of
        Inl e \<Rightarrow> Inl (if errors_is e SqlNoRows then not_found else Wrap ''get inbound delivery'' e)
      | Inr (team, status) \<Rightarrow>
          if \<not> inboundVisibleToScope ctx (str_of team) then Inl not_found
          else if status \<noteq> ''failed_permanent'' \<and> status \<noteq> ''dead_letter'' then
            Inl (Errorf (''inbound delivery '' @ go_quote deliveryID @ '' cannot be retried from status '' @ go_quote status @
              '' (only failed_permanent or dead_letter deliveries can be retried)''))
          else (let (b', affected) = ResetInboundDeliveryForRetry (Some now) now deliveryID b in
            if affected = 0 then
              Inl (Errorf (''inbound delivery '' @ go_quote deliveryID @ '' is no longer retryable''))
            else bind_res (getInboundDeliveryRecord deliveryID b') (\<lambda>r. Inr (r, b'))))"

section \<open>The lease\<close>

lemma processing_fields [simp]:
  "i_id (processing now n r) = i_id r" "i_status (processing now n r) = ''processing''"
  "i_lease_expires_at (processing now n r) = Some (now + inboundDeliveryLease)"
  "i_max_attempts (processing now n r) = i_max_attempts r" "i_attempts (processing now n r) = n"
  "i_endpoint_id (processing now n r) = i_endpoint_id r" "i_delivery_id (processing now n r) = i_delivery_id r"
  by (simp_all add: processing_def)

lemma mark_processing_row:
  assumes "x \<in> set (inbound_deliveries (mark_processing now items b))"
  shows "(i_id x \<in> i_id ` set items \<and> (\<exists>n. \<exists>r \<in> set (inbound_deliveries b). x = processing now n r)) \<or>
    (i_id x \<notin> i_id ` set items \<and> x \<in> set (inbound_deliveries b))"
  using assms
proof (induction items arbitrary: b)
  case (Cons item items)
  let ?b = "upd_inbound (\<lambda>r. i_id r = i_id item) (processing now (i_attempts item + 1)) b"
  have row: "y \<in> set (inbound_deliveries b) \<and> i_id y \<noteq> i_id item \<or>
      (\<exists>r \<in> set (inbound_deliveries b). y = processing now (i_attempts item + 1) r \<and> i_id y = i_id item)"
    if "y \<in> set (inbound_deliveries ?b)" for y
    using that by (auto simp: upd_inbound_def in_sql_update_iff split: if_split_asm)
  have twice: "processing now m (processing now n r) = processing now m r" for m n r by (simp add: processing_def)
  from Cons.IH [of ?b] Cons.prems consider
    n r where "i_id x \<in> i_id ` set items" "r \<in> set (inbound_deliveries ?b)" "x = processing now n r"
    | "i_id x \<notin> i_id ` set items" "x \<in> set (inbound_deliveries ?b)"
    unfolding mark_processing.simps by blast
  then show ?case
  proof cases
    case 1
    have "\<exists>n. \<exists>r \<in> set (inbound_deliveries b). x = processing now n r"
      using row [OF 1(2)] 1(3) twice by metis
    with 1(1) show ?thesis by simp
  next
    case 2
    from row [OF 2(2)] 2(1) show ?thesis by auto
  qed
qed simp

lemma mark_processing_keys:
  "map i_id (inbound_deliveries (mark_processing now items b)) = map i_id (inbound_deliveries b)"
  "webhook_endpoints (mark_processing now items b) = webhook_endpoints b"
proof (induction items arbitrary: b)
  case (Cons item items)
  {
    case 1
    show ?case by (simp add: Cons upd_inbound_def sql_update_def cong: if_cong)
  next
    case 2
    show ?case by (simp add: Cons upd_inbound_def)
  }
qed simp_all

lemma due_inbound_due:
  assumes "r \<in> set (due_inbound locked now b)"
  shows "r \<in> set (inbound_deliveries b)" "inbound_due now r" "\<not> locked r"
  using assms by (auto simp: due_inbound_def dest: in_set_takeD)

interpretation inbox_queue: leased_queue inbound_deliveries i_id inbound_due claimDueInboundDeliveries inboundDeliveryLease
proof unfold_locales
  fix locked now s items s' r
  assume c: "claimDueInboundDeliveries locked now s = (items, s')"
  have items: "i_id ` set items = i_id ` set (due_inbound locked now s)" and s': "s' = mark_processing now (due_inbound locked now s) s"
    using c by (auto simp: claimDueInboundDeliveries_def Let_def image_image)
  show "map i_id (inbound_deliveries s') = map i_id (inbound_deliveries s)" by (simp add: s' mark_processing_keys)
  show "\<exists>x\<in>set (inbound_deliveries s). i_id x = i_id r \<and> inbound_due now x" if "r \<in> set items"
  proof -
    have "i_id r \<in> i_id ` set (due_inbound locked now s)" using that items by auto
    then obtain x where "x \<in> set (due_inbound locked now s)" "i_id x = i_id r" by auto
    with due_inbound_due show ?thesis by blast
  qed
  fix x
  assume x: "x \<in> set (inbound_deliveries s')"
  from mark_processing_row [OF x [unfolded s']] items
  show "i_id x \<notin> i_id ` set items \<Longrightarrow> x \<in> set (inbound_deliveries s)"
    and "\<And>now'. i_id x \<in> i_id ` set items \<Longrightarrow> now' \<le> now + inboundDeliveryLease \<Longrightarrow> \<not> inbound_due now' x"
    by (auto simp: inbound_due_def)
qed

section \<open>Rows of the inbox\<close>

text \<open>
  A row that is not settled has a time at which a claim takes it: the next attempt while it waits,
  the end of the lease while a worker holds it.
\<close>

definition inbound_row_ok :: "inbound_delivery \<Rightarrow> bool" where
  "inbound_row_ok r =
     (i_status r \<in> {''succeeded'', ''failed_permanent'', ''dead_letter''} \<or>
      (i_status r = ''pending'' \<and> i_attempts r = 0 \<and> i_next_attempt_at r \<noteq> None) \<or>
      (i_status r = ''retry_wait'' \<and> i_next_attempt_at r \<noteq> None) \<or>
      (i_status r = ''processing'' \<and> i_lease_expires_at r \<noteq> None))"

definition inbox_rows_ok :: "inbox \<Rightarrow> bool" where
  "inbox_rows_ok b = (inbox_ok b \<and> list_all inbound_row_ok (inbound_deliveries b))"

text \<open>A statement that rewrites rows but not their keys.\<close>

lemma inbox_ok_update:
  assumes "inbox_ok b" and "webhook_endpoints b' = webhook_endpoints b"
    and "map (\<lambda>r. (i_id r, i_endpoint_id r, i_delivery_id r)) (inbound_deliveries b') =
         map (\<lambda>r. (i_id r, i_endpoint_id r, i_delivery_id r)) (inbound_deliveries b)"
  shows "inbox_ok b'"
proof -
  have ids: "map i_id (inbound_deliveries b') = map i_id (inbound_deliveries b)"
    using arg_cong [OF assms(3), of "map fst"] by (simp add: comp_def)
  have pairs: "map (\<lambda>r. (i_endpoint_id r, i_delivery_id r)) (filter (\<lambda>r. i_delivery_id r \<noteq> None) (inbound_deliveries x)) =
      map snd (filter (\<lambda>k. snd (snd k) \<noteq> None) (map (\<lambda>r. (i_id r, i_endpoint_id r, i_delivery_id r)) (inbound_deliveries x)))" for x
    by (simp add: filter_map comp_def)
  show ?thesis using assms(1,2) unfolding inbox_ok_def ids pairs assms(3) by simp
qed

lemma upd_inbound_ok:
  assumes "inbox_ok b" and "\<And>r. i_id (f r) = i_id r \<and> i_endpoint_id (f r) = i_endpoint_id r \<and> i_delivery_id (f r) = i_delivery_id r"
  shows "inbox_ok (upd_inbound w f b)"
proof (rule inbox_ok_update [OF assms(1)])
  show "map (\<lambda>r. (i_id r, i_endpoint_id r, i_delivery_id r)) (inbound_deliveries (upd_inbound w f b)) =
        map (\<lambda>r. (i_id r, i_endpoint_id r, i_delivery_id r)) (inbound_deliveries b)"
    using assms(2) by (simp add: upd_inbound_def sql_update_def)
qed (simp add: upd_inbound_def)

lemma upd_inbound_rows_ok:
  assumes "inbox_rows_ok b" and "\<And>r. i_id (f r) = i_id r \<and> i_endpoint_id (f r) = i_endpoint_id r \<and> i_delivery_id (f r) = i_delivery_id r"
    and "\<And>r. r \<in> set (inbound_deliveries b) \<Longrightarrow> w r \<Longrightarrow> inbound_row_ok (f r)"
  shows "inbox_rows_ok (upd_inbound w f b)"
  using assms upd_inbound_ok [of b f w]
  by (auto simp: inbox_rows_ok_def list_all_iff upd_inbound_def in_sql_update_iff)

lemma processing_ok [simp]: "inbound_row_ok (processing now n r)"
  by (simp add: inbound_row_ok_def)

lemma mark_processing_ok: "inbox_rows_ok b \<Longrightarrow> inbox_rows_ok (mark_processing now items b)"
  by (induction items arbitrary: b) (simp_all add: upd_inbound_rows_ok)

lemma claim_inbound_ok:
  "claimDueInboundDeliveries locked now b = (items, b') \<Longrightarrow> inbox_rows_ok b \<Longrightarrow> inbox_rows_ok b'"
  by (auto simp: claimDueInboundDeliveries_def Let_def mark_processing_ok)

lemma insert_rows_ok:
  assumes "InsertDelivery (inboundStore env) di b = Inr (c, b')" and "inbox_rows_ok b"
  shows "inbox_rows_ok b'"
proof -
  have ok: "inbound_row_ok (inbound_row now i di)" for now i by (simp add: inbound_row_ok_def inbound_row_def)
  consider "b' = b" | i where "insert_inbound (inbound_row (se_now env) i di) b = Inr b'"
    using assms(1) by (auto simp: inboundStore_def inboundStore_InsertDelivery_def
        split: option.split_asm sum.split_asm if_split_asm)
  then have "list_all inbound_row_ok (inbound_deliveries b')"
    by cases (use assms(2) ok in \<open>auto simp: inbox_rows_ok_def insert_inbound_def split: if_split_asm\<close>)
  then show ?thesis using InsertDelivery_ok [OF assms(1)] assms(2) by (simp add: inbox_rows_ok_def)
qed

lemma succeeded_rows_ok:
  "inbox_rows_ok b \<Longrightarrow> inbox_rows_ok (snd (markInboundDeliverySucceeded env r taskID b))"
  by (auto simp: markInboundDeliverySucceeded_def inbound_row_ok_def intro!: upd_inbound_rows_ok split: option.split)

lemma failed_rows_ok:
  assumes "inbox_rows_ok b" and "status \<in> {''failed_permanent'', ''dead_letter''} \<or> (status = ''retry_wait'' \<and> next_at \<noteq> None)"
  shows "inbox_rows_ok (snd (markInboundDeliveryFailed env r status msg next_at b))"
  using assms
  by (auto simp: markInboundDeliveryFailed_def inbound_row_ok_def intro!: upd_inbound_rows_ok split: option.split)

lemma finish_rows_ok: "inbox_rows_ok b \<Longrightarrow> inbox_rows_ok (snd (finishInboundDelivery env r status msg b))"
  by (auto simp: finishInboundDelivery_def intro: failed_rows_ok)

section \<open>The outcome of a delivery\<close>

text \<open>
  What processing does to the database and to the inbox, apart: the database is as before, or has
  accepted the submission of the delivery's task; the inbox is as before, or its row has been
  finished or marked as succeeded.
\<close>

definition inbound_task :: "'j inbound_env \<Rightarrow> inbound_delivery \<Rightarrow> string" where
  "inbound_task env r = inboundDeliveryTaskID (iw_sha256_hex env) (i_id r)"

lemma process_cases:
  assumes "processInboundDelivery cfg env r (st, d, b) = (e, st', d', b')"
  obtains (unread) "e \<noteq> None" "st' = st" "d' = d" "b' = b"
  | (finish) status msg where "st' = st" "d' = d" "(e, b') = finishInboundDelivery env r status msg b"
      "status = ''failed_permanent'' \<or> status = ''retry_wait''"
  | (ignored) "st' = st" "d' = d" "(e, b') = markInboundDeliverySucceeded env r [] b"
  | (again) "st' = st" "d' = d" "(e, b') = markInboundDeliverySucceeded env r (inbound_task env r) b"
      "inbound_task env r \<in> t_id ` set (tasks d)"
  | (created) w prompt t where "(e, b') = markInboundDeliverySucceeded env r (inbound_task env r) b"
      "SubmitTask cfg (worker_submit env) (inbound_request w prompt (inbound_task env r)) (st, d) = Inr (t, st', d')"
proof -
  let ?id = "inbound_task env r"
  show thesis
  proof (cases "loadInboundEndpoint env (i_endpoint_id r) b")
    case (Inl e)
    with assms show ?thesis by (intro unread) (auto simp: processInboundDelivery_def)
  next
    case (Inr x)
    show ?thesis
    proof (cases "\<exists>w prompt. x = Some w \<and> w_enabled w \<and> renderInboundPrompt env w r = Inr prompt \<and> w_action_type w = ''create_task'' \<and>
        \<not> (case w_accepted_events w of None \<Rightarrow> False | Some evs \<Rightarrow> evs \<noteq> [] \<and> str_of (i_event_type r) \<notin> set evs)")
      case False
      with assms Inr show ?thesis
        by (auto simp: processInboundDelivery_def Let_def case_prod_unfold prod_eq_iff
            split: option.split_asm if_split_asm sum.split_asm intro: finish [of _ _] ignored)
    next
      case True
      then obtain w prompt where w: "x = Some w" "w_enabled w" "renderInboundPrompt env w r = Inr prompt" "w_action_type w = ''create_task''"
        "\<not> (case w_accepted_events w of None \<Rightarrow> False | Some evs \<Rightarrow> evs \<noteq> [] \<and> str_of (i_event_type r) \<notin> set evs)" by blast
      show ?thesis
      proof (cases "SubmitTask cfg (worker_submit env) (inbound_request w prompt ?id) (st, d)")
        case (Inl e1)
        show ?thesis
        proof (cases "isDuplicateKeyError e1 \<and> \<not> isl (GetTaskByID ?id d)")
          case True
          with assms Inl Inr w task_found show ?thesis
            by (intro again) (auto simp: processInboundDelivery_def Let_def inbound_task_def case_prod_unfold prod_eq_iff)
        next
          case False
          with assms Inl Inr w show ?thesis
            by (intro finish [of "if isInboundPermanentTaskError e1 then ''failed_permanent'' else ''retry_wait''"
                  "''create task: '' @ err_text e1"])
              (auto simp: processInboundDelivery_def Let_def inbound_task_def case_prod_unfold prod_eq_iff)
        qed
      next
        case (Inr y)
        obtain t st1 d1 where y: "y = (t, st1, d1)" by (cases y)
        with Inr assms \<open>loadInboundEndpoint env (i_endpoint_id r) b = _\<close> w show ?thesis
          by (intro created [of w prompt t])
            (auto simp: processInboundDelivery_def Let_def inbound_task_def case_prod_unfold prod_eq_iff)
      qed
    qed
  qed
qed

lemma process_rows_ok:
  assumes "processInboundDelivery cfg env r (st, d, b) = (e, st', d', b')" and "inbox_rows_ok b"
  shows "inbox_rows_ok b'"
  using assms(1)
proof (cases rule: process_cases)
  case (finish status msg)
  with finish_rows_ok [OF assms(2), of env r status msg] show ?thesis by (metis snd_conv)
next
  case ignored
  with succeeded_rows_ok [OF assms(2), of env r] show ?thesis by (metis snd_conv)
next
  case again
  with succeeded_rows_ok [OF assms(2), of env r] show ?thesis by (metis snd_conv)
next
  case created
  with succeeded_rows_ok [OF assms(2), of env r] show ?thesis by (metis snd_conv)
qed (use assms in simp)

lemma process_inbound_rows_ok:
  "inbox_rows_ok b \<Longrightarrow> inbox_rows_ok (snd (snd (process_inbound cfg envs rs (st, d, b))))"
proof (induction rs arbitrary: st d b)
  case (Cons r rs)
  obtain e st1 d1 b1 where one: "processInboundDelivery cfg (envs r) r (st, d, b) = (e, st1, d1, b1)"
    by (cases "processInboundDelivery cfg (envs r) r (st, d, b)") auto
  with Cons process_rows_ok [OF one] show ?case by simp
qed simp

lemma cycle_rows_ok:
  assumes "inbox_rows_ok b"
  shows "inbox_rows_ok (snd (snd (processDueInboundDeliveries cfg envs locked now (st, d, b))))"
proof -
  obtain items b1 where "claimDueInboundDeliveries locked now b = (items, b1)" by (cases "claimDueInboundDeliveries locked now b")
  with claim_inbound_ok [OF this assms] process_inbound_rows_ok show ?thesis
    by (simp add: processDueInboundDeliveries_def)
qed

lemma retry_rows_ok:
  assumes "RetryInboundDelivery ctx now i b = Inr (r, b')" and "inbox_rows_ok b"
  shows "inbox_rows_ok b'"
proof -
  have "b' = upd_inbound (retryable (trim_space i)) (requeued (Some now) now) b"
    using assms(1) by (auto simp: RetryInboundDelivery_def ResetInboundDeliveryForRetry_def Let_def
        split: sum.split_asm if_split_asm)
  then show ?thesis
    using assms(2) by (auto simp: requeued_def inbound_row_ok_def intro!: upd_inbound_rows_ok)
qed

section \<open>One task per delivery\<close>

lemma inbound_task_not_Nil [simp]: "inbound_task env r \<noteq> []"
  by (simp add: inbound_task_def inboundDeliveryTaskID_def)

lemma inbound_request_id [simp]: "rq_ExplicitTaskID (inbound_request w prompt i) = i"
  by (simp add: inbound_request_def)

lemma process_tasks:
  assumes "processInboundDelivery cfg env r (st, d, b) = (e, st', d', b')"
  shows "tasks d' = tasks d \<or>
    (inbound_task env r \<notin> t_id ` set (tasks d) \<and>
     (\<exists>row. tasks d' = tasks d @ [row] \<and> t_id row = inbound_task env r \<and> t_status row = ''pending''))"
  using assms
proof (cases rule: process_cases)
  case (created w prompt t)
  with SubmitTask_row [OF created(2)] show ?thesis by auto
qed simp_all

lemma process_advances:
  assumes "processInboundDelivery cfg env r (st, d, b) = (e, st', d', b')"
  shows "advances d d'"
  using assms by (cases rule: process_cases) (auto intro: SubmitTask_advances)

end
