(* ===== verification/Chetter_Endpoint_Sync.thy ===== *)
theory Chetter_Endpoint_Sync
  imports Chetter_Inbound_Worker "HOL-Library.Multiset"
begin

text \<open>
  How inbound endpoints come from configuration: the validation of a definition,
  \<^verbatim>\<open>pkg/definitions/inbound_webhook.go\<close>, and the reconciliation of the table
  \<^verbatim>\<open>webhook_endpoints\<close> with the definitions of a sync,
  \<^verbatim>\<open>internal/service/inbound_materialize.go\<close>. The YAML decoder is a parameter; it gives the
  fields of the document or its error. Audit events are left out.
\<close>

section \<open>Definitions\<close>

record rawInboundWebhookAuthYAML =
  ra_Type :: string
  ra_SecretEnv :: string
  ra_SignatureHeader :: string
  ra_SignaturePrefix :: string

record rawInboundWebhookActionYAML =
  rx_Type :: string
  rx_Prompt :: string
  rx_Agent :: string
  rx_TimeoutSec :: int
  rx_TeamName :: string

record rawInboundWebhookYAML =
  ry_Name :: string
  ry_Enabled :: "bool option"
  ry_Auth :: "rawInboundWebhookAuthYAML option"
  ry_DeliveryIDHeader :: string
  ry_EventTypeHeader :: string
  ry_AcceptedEvents :: "string list"
  ry_Action :: "rawInboundWebhookActionYAML option"

record InboundWebhookDef =
  wd_Name :: string
  wd_Enabled :: bool
  wd_AuthType :: string
  wd_SecretEnv :: string
  wd_SignatureHeader :: string
  wd_SignaturePrefix :: string
  wd_DeliveryIDHeader :: string
  wd_EventTypeHeader :: string
  wd_AcceptedEvents :: "string list"
  wd_ActionType :: string
  wd_ActionPrompt :: string
  wd_ActionAgent :: string
  wd_ActionTimeoutSec :: int
  wd_ActionTeamName :: string

text \<open>The regular expressions, and the name of an environment variable.\<close>

definition httpHeaderNameRE :: "string \<Rightarrow> bool" where
  "httpHeaderNameRE s = (s \<noteq> [] \<and> is_alnum (hd s) \<and> list_all (\<lambda>c. is_alnum c \<or> c = CHR ''-'') (tl s))"

definition signaturePrefixRE :: "string \<Rightarrow> bool" where
  "signaturePrefixRE s = (length s \<le> 64 \<and> list_all (\<lambda>c. is_alnum c \<or> c \<in> set ''+/=_-'') s)"

definition validEndpointNameRE :: "string \<Rightarrow> bool" where
  "validEndpointNameRE s =
     (s \<noteq> [] \<and> length s \<le> 128 \<and> is_alnum (hd s) \<and> list_all (\<lambda>c. is_alnum c \<or> c \<in> set ''._-'') (tl s))"

definition validEnvName :: "string \<Rightarrow> bool" where
  "validEnvName s =
     (s \<noteq> [] \<and> list_all (\<lambda>c. is_alnum c \<or> c = CHR ''_'') s \<and> \<not> is_digit (hd s))"

fun accept_events :: "string \<Rightarrow> string list \<Rightarrow> string list \<Rightarrow> error + string list" where
  "accept_events name been [] = Inr []"
| "accept_events name been (v # vs) =
     (let event = trim_space v in
      if event = [] \<or> length event > 128 then
        Inl (Errorf (''inbound webhook '' @ go_quote name @
          '': accepted_events entries must be non-empty and at most 128 characters''))
      else if event \<in> set been then
        Inl (Errorf (''inbound webhook '' @ go_quote name @ '': accepted_events entry '' @ go_quote event @ '' is duplicated''))
      else bind_res (accept_events name (event # been) vs) (\<lambda>rest. Inr (event # rest)))"

definition bad :: "string \<Rightarrow> string \<Rightarrow> error" where
  "bad name msg = Errorf (''inbound webhook '' @ go_quote name @ '': '' @ msg)"

text \<open>The section \<^verbatim>\<open>auth\<close>: type, secret, signature header and prefix.\<close>

definition check_auth ::
  "string \<Rightarrow> rawInboundWebhookAuthYAML option \<Rightarrow> error + string \<times> string \<times> string \<times> string" where
  "check_auth name raw =
     (case raw of
        None \<Rightarrow> Inl (bad name ''auth is required'')
      | Some a \<Rightarrow>
          let authType = to_lower (trim_space (ra_Type a)); secretEnv = trim_space (ra_SecretEnv a);
              header = trim_space (ra_SignatureHeader a); pre = trim_space (ra_SignaturePrefix a) in
          bind_res (guard_res (authType = ''hmac_sha256'' \<or> authType = ''bearer'')
            (bad name ''auth.type must be hmac_sha256 or bearer'')) (\<lambda>_.
          bind_res (guard_res (validEnvName secretEnv)
            (bad name ''auth.secret_env must be a valid environment variable name'')) (\<lambda>_.
          if authType = ''bearer'' then
            bind_res (guard_res (header = [] \<and> pre = [])
              (bad name ''bearer auth does not accept signature_header or signature_prefix'')) (\<lambda>_.
            Inr (authType, secretEnv, header, pre))
          else
            (let header' = (if header = [] then ''X-Chetter-Signature'' else header) in
             bind_res (guard_res (httpHeaderNameRE header')
               (bad name ''auth.signature_header must be a valid HTTP header name'')) (\<lambda>_.
             bind_res (guard_res (pre = [] \<or> signaturePrefixRE pre)
               (bad name ''auth.signature_prefix must be an ASCII prefix of at most 64 characters'')) (\<lambda>_.
             Inr (authType, secretEnv, header', pre)))))))"

text \<open>The section \<^verbatim>\<open>action\<close>: type, prompt, agent, timeout and team.\<close>

definition check_action ::
  "string \<Rightarrow> rawInboundWebhookActionYAML option \<Rightarrow> error + string \<times> string \<times> string \<times> int \<times> string" where
  "check_action name raw =
     (case raw of
        None \<Rightarrow> Inl (bad name ''action is required'')
      | Some a \<Rightarrow>
          let t = to_lower (trim_space (rx_Type a)); actionType = (if t = [] then ''create_task'' else t);
              prompt = trim_space (rx_Prompt a); agent = trim_space (rx_Agent a); team = trim_space (rx_TeamName a) in
          bind_res (guard_res (actionType = ''create_task'') (bad name ''action.type must be create_task'')) (\<lambda>_.
          bind_res (guard_res (prompt \<noteq> []) (bad name ''action.prompt is required'')) (\<lambda>_.
          bind_res (guard_res (length agent \<le> 128) (bad name ''action.agent must be at most 128 characters'')) (\<lambda>_.
          bind_res (guard_res (0 \<le> rx_TimeoutSec a)
            (bad name ''action.timeout_sec must be greater than or equal to 0'')) (\<lambda>_.
          bind_res (guard_res (length team \<le> 128) (bad name ''action.team_name must be at most 128 characters'')) (\<lambda>_.
          Inr (actionType, prompt, agent, rx_TimeoutSec a, team)))))))"

definition ParseInboundWebhookYAML ::
  "(string \<Rightarrow> error + rawInboundWebhookYAML) \<Rightarrow> string \<Rightarrow> error + InboundWebhookDef" where
  "ParseInboundWebhookYAML decode content =
     bind_res (wrap_err ''parse inbound webhook yaml'' (decode content)) (\<lambda>raw.
     let name = trim_space (ry_Name raw); deliveryIDHeader = trim_space (ry_DeliveryIDHeader raw);
         eventTypeHeader = trim_space (ry_EventTypeHeader raw) in
     bind_res (guard_res (validEndpointNameRE name)
       (Errorf ''inbound webhook name must start with a letter or number, contain only letters, numbers, dot, underscore, or dash, and be at most 128 characters'')) (\<lambda>_.
     bind_res (check_auth name (ry_Auth raw)) (\<lambda>(authType, secretEnv, signatureHeader, signaturePrefix).
     bind_res (guard_res (deliveryIDHeader = [] \<or> httpHeaderNameRE deliveryIDHeader)
       (bad name ''delivery_id_header must be a valid HTTP header name'')) (\<lambda>_.
     bind_res (guard_res (eventTypeHeader = [] \<or> httpHeaderNameRE eventTypeHeader)
       (bad name ''event_type_header must be a valid HTTP header name'')) (\<lambda>_.
     bind_res (guard_res (ry_AcceptedEvents raw = [] \<or> eventTypeHeader \<noteq> [])
       (bad name ''accepted_events requires event_type_header so the event can be classified'')) (\<lambda>_.
     bind_res (accept_events name [] (ry_AcceptedEvents raw)) (\<lambda>events.
     bind_res (check_action name (ry_Action raw)) (\<lambda>(actionType, prompt, agent, timeout, team).
     Inr \<lparr>wd_Name = name, wd_Enabled = (case ry_Enabled raw of None \<Rightarrow> True | Some e \<Rightarrow> e),
          wd_AuthType = authType, wd_SecretEnv = secretEnv, wd_SignatureHeader = signatureHeader,
          wd_SignaturePrefix = signaturePrefix, wd_DeliveryIDHeader = deliveryIDHeader,
          wd_EventTypeHeader = eventTypeHeader, wd_AcceptedEvents = events, wd_ActionType = actionType,
          wd_ActionPrompt = prompt, wd_ActionAgent = agent, wd_ActionTimeoutSec = timeout,
          wd_ActionTeamName = team\<rparr>))))))))"

definition ValidateInboundWebhookScope :: "InboundWebhookDef \<Rightarrow> string \<Rightarrow> error + unit" where
  "ValidateInboundWebhookScope def relPath =
     (if prefix ''global/'' relPath then
        guard_res (wd_ActionTeamName def \<noteq> []) (bad (wd_Name def)
          ''global endpoints must declare action.team_name (payload data can never select the target team)'')
      else if prefix ''groups/'' relPath then
        guard_res (wd_ActionTeamName def = []) (bad (wd_Name def)
          ''team-scoped endpoints inherit their team from the groups/<team>/ directory and must not declare action.team_name'')
      else Inl (bad (wd_Name def) (''unsupported definition path '' @ go_quote relPath)))"

section \<open>Reconciliation\<close>

record Definition =
  df_Type :: string
  df_Name :: string
  df_Scope :: string
  df_TeamName :: string
  df_Repo :: string
  df_Path :: string
  df_Content :: string
  df_ContentHash :: string

record inboundEndpointSpec =
  sp_def :: InboundWebhookDef
  sp_path :: string
  sp_scope :: string
  sp_teamID :: string

text \<open>
  What a sync takes from outside: the decoder, the lookup in the table of teams, the team of each
  group directory, the clock, the two identifiers drawn for a new endpoint, the order in which
  the map of definitions is iterated, and the driver's error for each statement, by its kind and the
  source path of its row (a statement that reports an error has changed nothing).
\<close>

record sync_env =
  sy_decode :: "string \<Rightarrow> error + rawInboundWebhookYAML"
  sy_team_by_name :: "string \<Rightarrow> error + string"
  sy_group_team :: "string \<Rightarrow> string option"
  sy_now :: time
  sy_ids :: "string \<Rightarrow> string option \<times> string option"
  sy_order :: "inboundEndpointSpec list \<Rightarrow> inboundEndpointSpec list"
  sy_fail :: "string \<Rightarrow> string \<Rightarrow> error option"

definition endpoint_spec :: "sync_env \<Rightarrow> Definition \<Rightarrow> error + inboundEndpointSpec" where
  "endpoint_spec env def =
     bind_res (wrap_err (''parse inbound webhook definition '' @ df_Path def)
       (ParseInboundWebhookYAML (sy_decode env) (df_Content def))) (\<lambda>parsed.
     if df_Scope def = ''global'' then
       bind_res (wrap_err (''inbound webhook definition '' @ df_Path def @ '': resolve action team '' @
           go_quote (wd_ActionTeamName parsed)) (sy_team_by_name env (wd_ActionTeamName parsed))) (\<lambda>team.
       Inr \<lparr>sp_def = parsed, sp_path = df_Path def, sp_scope = ''global'', sp_teamID = team\<rparr>)
     else if df_Scope def = ''team'' then
       (case sy_group_team env (df_TeamName def) of
          Some team \<Rightarrow>
            if team = [] then Inl (Errorf (''inbound webhook definition '' @ df_Path def @ '': group '' @
                go_quote (df_TeamName def) @ '' does not match an existing team''))
            else Inr \<lparr>sp_def = parsed, sp_path = df_Path def, sp_scope = ''team'', sp_teamID = team\<rparr>
        | None \<Rightarrow> Inl (Errorf (''inbound webhook definition '' @ df_Path def @ '': group '' @
                go_quote (df_TeamName def) @ '' does not match an existing team'')))
     else Inl (Errorf (''inbound webhook definition '' @ df_Path def @
            '': repo-scoped inbound endpoints are not supported'')))"

fun inboundEndpointSpecs :: "sync_env \<Rightarrow> Definition list \<Rightarrow> error + inboundEndpointSpec list" where
  "inboundEndpointSpecs env [] = Inr []"
| "inboundEndpointSpecs env (def # defs) =
     (if df_Type def \<noteq> ''inbound_webhook'' then inboundEndpointSpecs env defs
      else bind_res (endpoint_spec env def) (\<lambda>spec.
           bind_res (inboundEndpointSpecs env defs) (\<lambda>specs. Inr (spec # specs))))"

definition nullableString :: "string \<Rightarrow> string option" where
  "nullableString v = (if trim_space v = [] then None else Some v)"

definition nullableInt :: "int \<Rightarrow> int option" where
  "nullableInt v = (if v \<le> 0 then None else Some v)"

definition acceptedEventsJSON :: "string list \<Rightarrow> string list option" where
  "acceptedEventsJSON events = (if events = [] then None else Some events)"

text \<open>The columns a sync writes, on a row with its identity and time of creation.\<close>

definition updateInboundEndpointRow :: "time \<Rightarrow> inboundEndpointSpec \<Rightarrow> webhook_endpoint \<Rightarrow> webhook_endpoint" where
  "updateInboundEndpointRow now spec w =
     (let def = sp_def spec in
      w\<lparr>w_name := wd_Name def, w_scope := sp_scope spec, w_team_id := nullString (sp_teamID spec),
        w_source_path := sp_path spec, w_enabled := wd_Enabled def, w_auth_type := wd_AuthType def,
        w_secret_env := wd_SecretEnv def, w_signature_header := nullableString (wd_SignatureHeader def),
        w_signature_prefix := nullableString (wd_SignaturePrefix def),
        w_delivery_id_header := nullableString (wd_DeliveryIDHeader def),
        w_event_type_header := nullableString (wd_EventTypeHeader def),
        w_accepted_events := acceptedEventsJSON (wd_AcceptedEvents def), w_action_type := wd_ActionType def,
        w_action_prompt := wd_ActionPrompt def, w_action_agent := nullableString (wd_ActionAgent def),
        w_action_timeout_sec := nullableInt (wd_ActionTimeoutSec def), w_updated_at := now\<rparr>)"

definition endpoint_row :: "string \<Rightarrow> string \<Rightarrow> time \<Rightarrow> inboundEndpointSpec \<Rightarrow> webhook_endpoint" where
  "endpoint_row i publicID now spec =
     (let def = sp_def spec in
      \<lparr>w_id = i, w_public_id = publicID, w_name = wd_Name def, w_scope = sp_scope spec,
       w_team_id = nullString (sp_teamID spec), w_source_path = sp_path spec, w_enabled = wd_Enabled def,
       w_auth_type = wd_AuthType def, w_secret_env = wd_SecretEnv def,
       w_signature_header = nullableString (wd_SignatureHeader def),
       w_signature_prefix = nullableString (wd_SignaturePrefix def),
       w_delivery_id_header = nullableString (wd_DeliveryIDHeader def),
       w_event_type_header = nullableString (wd_EventTypeHeader def),
       w_accepted_events = acceptedEventsJSON (wd_AcceptedEvents def), w_action_type = wd_ActionType def,
       w_action_prompt = wd_ActionPrompt def, w_action_agent = nullableString (wd_ActionAgent def),
       w_action_timeout_sec = nullableInt (wd_ActionTimeoutSec def), w_created_at = now, w_updated_at = now\<rparr>)"

definition insertInboundEndpointRow :: "webhook_endpoint \<Rightarrow> inbox \<Rightarrow> error + inbox" where
  "insertInboundEndpointRow w b =
     (if w_id w \<in> w_id ` set (webhook_endpoints b) \<or> w_public_id w \<in> w_public_id ` set (webhook_endpoints b) \<or>
         w_source_path w \<in> w_source_path ` set (webhook_endpoints b)
      then Inl (Wrap (''insert inbound endpoint '' @ w_source_path w) SqlDuplicateKey)
      else Inr (b\<lparr>webhook_endpoints := webhook_endpoints b @ [w]\<rparr>))"

definition upd_endpoints :: "string \<Rightarrow> (webhook_endpoint \<Rightarrow> webhook_endpoint) \<Rightarrow> inbox \<Rightarrow> inbox" where
  "upd_endpoints i f b = b\<lparr>webhook_endpoints := sql_update (\<lambda>w. w_id w = i) f (webhook_endpoints b)\<rparr>"

text \<open>\<^verbatim>\<open>desired[spec.source.Path] = spec\<close>: the last definition of a path stands.\<close>

definition desired_specs :: "inboundEndpointSpec list \<Rightarrow> (string \<times> inboundEndpointSpec) list" where
  "desired_specs specs = fold (\<lambda>spec. map_set (sp_path spec) spec) specs []"

text \<open>The loop over the rows read at the start; the definitions it has placed leave the map.\<close>

fun sync_existing ::
  "sync_env \<Rightarrow> webhook_endpoint list \<Rightarrow> (string \<times> inboundEndpointSpec) list \<Rightarrow> inbox \<Rightarrow>
   error option \<times> (string \<times> inboundEndpointSpec) list \<times> inbox" where
  "sync_existing env [] desired b = (None, desired, b)"
| "sync_existing env (row # rows) desired b =
     (case map_of desired (w_source_path row) of
        None \<Rightarrow>
          (case sy_fail env ''DELETE'' (w_source_path row) of
             Some e \<Rightarrow> (Some (Wrap (''delete removed inbound endpoint '' @ w_source_path row) e), desired, b)
           | None \<Rightarrow> sync_existing env rows desired
               (b\<lparr>webhook_endpoints := filter (\<lambda>w. w_id w \<noteq> w_id row) (webhook_endpoints b)\<rparr>))
      | Some spec \<Rightarrow>
          (case sy_fail env ''UPDATE'' (sp_path spec) of
             Some e \<Rightarrow> (Some (Wrap (''update inbound endpoint '' @ sp_path spec) e), desired, b)
           | None \<Rightarrow> sync_existing env rows (filter (\<lambda>e. fst e \<noteq> sp_path spec) desired)
               (upd_endpoints (w_id row) (updateInboundEndpointRow (sy_now env) spec) b)))"

fun sync_new :: "sync_env \<Rightarrow> inboundEndpointSpec list \<Rightarrow> inbox \<Rightarrow> error option \<times> inbox" where
  "sync_new env [] b = (None, b)"
| "sync_new env (spec # specs) b =
     (case sy_ids env (sp_path spec) of
        (None, _) \<Rightarrow> (Some (Wrap ''generate inbound endpoint id'' generate_id_err), b)
      | (Some _, None) \<Rightarrow> (Some (Wrap ''generate inbound endpoint public id'' generate_id_err), b)
      | (Some i, Some publicID) \<Rightarrow>
          (case (case sy_fail env ''INSERT'' (sp_path spec) of
                   Some e \<Rightarrow> Inl (Wrap (''insert inbound endpoint '' @ sp_path spec) e)
                 | None \<Rightarrow> insertInboundEndpointRow (endpoint_row i publicID (sy_now env) spec) b) of
             Inl e \<Rightarrow> (Some e, b)
           | Inr b' \<Rightarrow> sync_new env specs b'))"

definition materializeInboundWebhookEndpoints ::
  "sync_env \<Rightarrow> Definition list \<Rightarrow> inbox \<Rightarrow> error option \<times> inbox" where
  "materializeInboundWebhookEndpoints env defs b =
     (case inboundEndpointSpecs env defs of
        Inl e \<Rightarrow> (Some e, b)
      | Inr specs \<Rightarrow>
          (case sy_fail env ''SELECT'' [] of
             Some e \<Rightarrow> (Some (Wrap ''list inbound endpoint rows'' e), b)
           | None \<Rightarrow>
               (case sync_existing env (webhook_endpoints b) (desired_specs specs) b of
                  (Some e, missing, b1) \<Rightarrow> (Some e, b1)
                | (None, missing, b1) \<Rightarrow> sync_new env (sy_order env (map snd missing)) b1)))"

section \<open>The result of a sync\<close>

lemma update_row_identity [simp]:
  "w_id (updateInboundEndpointRow now spec w) = w_id w"
  "w_public_id (updateInboundEndpointRow now spec w) = w_public_id w"
  "w_created_at (updateInboundEndpointRow now spec w) = w_created_at w"
  "w_source_path (updateInboundEndpointRow now spec w) = sp_path spec"
  by (simp_all add: updateInboundEndpointRow_def Let_def)

lemma endpoint_row_identity [simp]:
  "w_id (endpoint_row i p now spec) = i" "w_public_id (endpoint_row i p now spec) = p"
  "w_source_path (endpoint_row i p now spec) = sp_path spec"
  by (simp_all add: endpoint_row_def Let_def)

text \<open>
  A row carries a definition, column by column; an optional setting that is blank, an empty list of
  events and a timeout that is not positive are null.
\<close>

definition optional :: "string \<Rightarrow> string option \<Rightarrow> bool" where
  "optional v c = (c = (if trim_space v = [] then None else Some v))"

definition carries :: "inboundEndpointSpec \<Rightarrow> webhook_endpoint \<Rightarrow> bool" where
  "carries spec w =
     (w_name w = wd_Name (sp_def spec) \<and> w_scope w = sp_scope spec \<and> w_source_path w = sp_path spec \<and>
      w_team_id w = (if sp_teamID spec = [] then None else Some (sp_teamID spec)) \<and>
      w_enabled w = wd_Enabled (sp_def spec) \<and> w_auth_type w = wd_AuthType (sp_def spec) \<and>
      w_secret_env w = wd_SecretEnv (sp_def spec) \<and> optional (wd_SignatureHeader (sp_def spec)) (w_signature_header w) \<and>
      optional (wd_SignaturePrefix (sp_def spec)) (w_signature_prefix w) \<and>
      optional (wd_DeliveryIDHeader (sp_def spec)) (w_delivery_id_header w) \<and>
      optional (wd_EventTypeHeader (sp_def spec)) (w_event_type_header w) \<and>
      w_accepted_events w = (if wd_AcceptedEvents (sp_def spec) = [] then None else Some (wd_AcceptedEvents (sp_def spec))) \<and>
      w_action_type w = wd_ActionType (sp_def spec) \<and> w_action_prompt w = wd_ActionPrompt (sp_def spec) \<and>
      optional (wd_ActionAgent (sp_def spec)) (w_action_agent w) \<and>
      w_action_timeout_sec w = (if wd_ActionTimeoutSec (sp_def spec) \<le> 0 then None else Some (wd_ActionTimeoutSec (sp_def spec))))"

lemma carries_update: "carries spec (updateInboundEndpointRow now spec w)"
  by (simp add: carries_def updateInboundEndpointRow_def Let_def optional_def nullableString_def nullableInt_def
      acceptedEventsJSON_def nullString_def)

lemma carries_row: "carries spec (endpoint_row i p now spec)"
  by (simp add: carries_def endpoint_row_def Let_def optional_def nullableString_def nullableInt_def acceptedEventsJSON_def
      nullString_def)

definition keyed :: "(string \<times> inboundEndpointSpec) list \<Rightarrow> bool" where
  "keyed m = list_all (\<lambda>e. fst e = sp_path (snd e)) m"

definition kept :: "time \<Rightarrow> (string \<times> inboundEndpointSpec) list \<Rightarrow> webhook_endpoint \<Rightarrow> webhook_endpoint list" where
  "kept now desired w =
     (case map_of desired (w_source_path w) of None \<Rightarrow> [] | Some spec \<Rightarrow> [updateInboundEndpointRow now spec w])"

lemma kept_simps:
  "map_of desired (w_source_path w) = None \<Longrightarrow> kept now desired w = []"
  "map_of desired (w_source_path w) = Some spec \<Longrightarrow> kept now desired w = [updateInboundEndpointRow now spec w]"
  by (simp_all add: kept_def)

lemma keyed_map_of: "keyed m \<Longrightarrow> map_of m p = Some spec \<Longrightarrow> sp_path spec = p"
  by (auto simp: keyed_def list_all_iff dest!: map_of_SomeD)

lemma kept_filter:
  assumes "p \<notin> w_source_path ` set rows"
  shows "concat (map (kept now (filter (\<lambda>e. fst e \<noteq> p) desired)) rows) = concat (map (kept now desired) rows)"
proof -
  have "map_of (filter (\<lambda>e. fst e \<noteq> p) desired) q = map_of desired q" if "q \<noteq> p" for q
    using that by (induction desired) auto
  moreover have "w_source_path x \<noteq> p" if "x \<in> set rows" for x using assms that by blast
  ultimately show ?thesis by (intro arg_cong [of _ _ concat] map_cong) (simp_all add: kept_def)
qed

lemma sync_existing_result:
  assumes "webhook_endpoints b = pre @ rows" and "distinct (map w_id (pre @ rows))"
    and "distinct (map w_source_path rows)" and "keyed desired" and "sync_existing env rows desired b = (None, missing, b1)"
  shows "missing = filter (\<lambda>e. fst e \<notin> w_source_path ` set rows) desired \<and>
     b1 = b\<lparr>webhook_endpoints := pre @ concat (map (kept (sy_now env) desired) rows)\<rparr>"
  using assms
proof (induction rows arbitrary: pre desired b)
  case (Cons row rows)
  let ?now = "sy_now env"
  show ?case
  proof (cases "map_of desired (w_source_path row)")
    case None
    let ?b = "b\<lparr>webhook_endpoints := filter (\<lambda>w. w_id w \<noteq> w_id row) (webhook_endpoints b)\<rparr>"
    have rest: "filter (\<lambda>w. w_id w \<noteq> w_id row) (webhook_endpoints b) = pre @ rows"
    proof -
      have "filter (\<lambda>w. w_id w \<noteq> w_id row) pre = pre" "filter (\<lambda>w. w_id w \<noteq> w_id row) rows = rows"
        using Cons.prems(2) by (auto intro!: filter_True simp: rev_image_eqI)
      then show ?thesis using Cons.prems(1) by simp
    qed
    have "filter (\<lambda>e. fst e \<notin> w_source_path ` set (row # rows)) desired = filter (\<lambda>e. fst e \<notin> w_source_path ` set rows) desired"
      using None by (intro filter_cong) (force simp: map_of_eq_None_iff)+
    moreover have "sync_existing env rows desired ?b = (None, missing, b1)"
      using Cons.prems(5) None by (simp split: option.split_asm)
    ultimately show ?thesis using None Cons.IH [of ?b pre desired] Cons.prems(2-4) rest by (simp add: kept_simps)
  next
    case (Some spec)
    let ?row = "updateInboundEndpointRow ?now spec row"
    let ?b = "upd_endpoints (w_id row) (updateInboundEndpointRow ?now spec) b"
    let ?desired = "filter (\<lambda>e. fst e \<noteq> sp_path spec) desired"
    have path: "sp_path spec = w_source_path row" using keyed_map_of [OF Cons.prems(4) Some] .
    have rest: "webhook_endpoints ?b = (pre @ [?row]) @ rows"
    proof -
      have "sql_update (\<lambda>w. w_id w = w_id row) f xs = xs" if "w_id row \<notin> w_id ` set xs" for f xs
        using that by (intro sql_update_no_match) (metis imageI)
      from this [of pre] this [of rows] show ?thesis
        using Cons.prems(1,2) by (auto simp: upd_endpoints_def sql_update_def)
    qed
    have "sync_existing env rows ?desired ?b = (None, missing, b1)"
      using Cons.prems(5) Some by (simp split: option.split_asm)
    then have "missing = filter (\<lambda>e. fst e \<notin> w_source_path ` set rows) ?desired \<and>
       b1 = ?b\<lparr>webhook_endpoints := (pre @ [?row]) @ concat (map (kept ?now ?desired) rows)\<rparr>"
      using Cons.prems(2-4) rest by (intro Cons.IH) (auto simp: keyed_def list_all_iff)
    moreover have "concat (map (kept ?now ?desired) rows) = concat (map (kept ?now desired) rows)"
      using Cons.prems(3) path by (intro kept_filter) simp
    moreover have "filter (\<lambda>e. fst e \<notin> w_source_path ` set rows) ?desired = filter (\<lambda>e. fst e \<notin> w_source_path ` set (row # rows)) desired"
      by (auto simp: path intro!: filter_cong)
    ultimately show ?thesis using Some by (simp add: kept_simps upd_endpoints_def)
  qed
qed simp

lemma insert_endpoint_ok: "insertInboundEndpointRow w b = Inr b' \<Longrightarrow> inbox_ok b \<Longrightarrow> inbox_ok b'"
  by (auto simp: insertInboundEndpointRow_def inbox_ok_def split: if_split_asm)

lemma sync_new_result:
  assumes "sync_new env specs b = (None, b')" and "inbox_ok b"
  shows "inbox_ok b' \<and> inbound_deliveries b' = inbound_deliveries b \<and>
    (\<exists>ws. webhook_endpoints b' = webhook_endpoints b @ ws \<and> list_all2 carries specs ws \<and>
       map w_source_path ws = map sp_path specs)"
  using assms
proof (induction specs arbitrary: b)
  case (Cons spec specs)
  obtain i p where ids: "sy_ids env (sp_path spec) = (Some i, Some p)"
    using Cons.prems(1) by (cases "sy_ids env (sp_path spec)") (auto split: option.split_asm)
  obtain b1 where ins: "insertInboundEndpointRow (endpoint_row i p (sy_now env) spec) b = Inr b1"
    and rest: "sync_new env specs b1 = (None, b')"
    using Cons.prems(1) by (auto simp: ids split: sum.split_asm option.split_asm)
  have b1: "webhook_endpoints b1 = webhook_endpoints b @ [endpoint_row i p (sy_now env) spec]"
    "inbound_deliveries b1 = inbound_deliveries b"
    using ins by (auto simp: insertInboundEndpointRow_def split: if_split_asm)
  from Cons.IH [OF rest insert_endpoint_ok [OF ins Cons.prems(2)]] obtain ws where
    "inbox_ok b'" "inbound_deliveries b' = inbound_deliveries b1" "webhook_endpoints b' = webhook_endpoints b1 @ ws"
    "list_all2 carries specs ws" "map w_source_path ws = map sp_path specs" by blast
  with b1 carries_row show ?case
    by (intro conjI exI [of _ "endpoint_row i p (sy_now env) spec # ws"]) auto
qed simp

lemma keyed_desired:
  "keyed (desired_specs specs)" "distinct (map fst (desired_specs specs))"
  "fst ` set (desired_specs specs) = sp_path ` set specs" "snd ` set (desired_specs specs) \<subseteq> set specs"
proof -
  have "keyed (fold (\<lambda>spec. map_set (sp_path spec) spec) specs m) \<and>
      distinct (map fst (fold (\<lambda>spec. map_set (sp_path spec) spec) specs m)) \<and>
      fst ` set (fold (\<lambda>spec. map_set (sp_path spec) spec) specs m) = fst ` set m \<union> sp_path ` set specs \<and>
      snd ` set (fold (\<lambda>spec. map_set (sp_path spec) spec) specs m) \<subseteq> snd ` set m \<union> set specs"
    if "keyed m" "distinct (map fst m)" for m
    using that
  proof (induction specs arbitrary: m)
    case (Cons spec specs)
    let ?m = "map_set (sp_path spec) spec m"
    let ?F = "fold (\<lambda>spec. map_set (sp_path spec) spec) specs ?m"
    have m: "keyed ?m" "distinct (map fst ?m)" "snd ` set ?m \<subseteq> insert spec (snd ` set m)"
      using Cons.prems by (auto simp: map_set_def keyed_def list_all_iff distinct_map_filter)
    have "fst ` set ?m = insert (sp_path spec) (fst ` set m)" unfolding map_set_def by force
    with Cons.IH [OF m(1,2)] have "keyed ?F" "distinct (map fst ?F)" "fst ` set ?F = fst ` set m \<union> sp_path ` set (spec # specs)"
      "snd ` set ?F \<subseteq> snd ` set ?m \<union> set specs" by simp_all
    moreover from this(4) m(3) have "snd ` set ?F \<subseteq> snd ` set m \<union> set (spec # specs)" unfolding list.set by blast
    ultimately show ?case by simp
  qed simp
  from this [of "[]"] show "keyed (desired_specs specs)" "distinct (map fst (desired_specs specs))"
    "fst ` set (desired_specs specs) = sp_path ` set specs" "snd ` set (desired_specs specs) \<subseteq> set specs"
    by (auto simp: desired_specs_def keyed_def)
qed

lemma kept_keys:
  assumes "keyed desired"
  shows "map w_id (concat (map (kept now desired) rows)) = map w_id (filter (\<lambda>w. map_of desired (w_source_path w) \<noteq> None) rows)"
    and "map w_public_id (concat (map (kept now desired) rows)) =
      map w_public_id (filter (\<lambda>w. map_of desired (w_source_path w) \<noteq> None) rows)"
    and "map w_source_path (concat (map (kept now desired) rows)) =
      map w_source_path (filter (\<lambda>w. map_of desired (w_source_path w) \<noteq> None) rows)"
  by (induction rows) (auto simp: kept_def keyed_map_of [OF assms] split: option.split)

lemma kept_ok:
  assumes "inbox_ok b" and "keyed desired"
  shows "inbox_ok (b\<lparr>webhook_endpoints := concat (map (kept now desired) (webhook_endpoints b))\<rparr>)"
  using assms(1) kept_keys [OF assms(2), of now "webhook_endpoints b"] by (simp add: inbox_ok_def distinct_map_filter)

lemma in_kept:
  "w \<in> set (kept now desired x) \<longleftrightarrow>
   (\<exists>spec. map_of desired (w_source_path x) = Some spec \<and> w = updateInboundEndpointRow now spec x)"
  by (cases "map_of desired (w_source_path x)") (simp_all add: kept_def)

lemma set_kept:
  "w \<in> set (concat (map (kept now desired) rows)) \<longleftrightarrow>
   (\<exists>x \<in> set rows. \<exists>spec. map_of desired (w_source_path x) = Some spec \<and> w = updateInboundEndpointRow now spec x)"
proof (induction rows)
  case (Cons x rows)
  have "w \<in> set (concat (map (kept now desired) (x # rows))) \<longleftrightarrow>
      w \<in> set (kept now desired x) \<or> w \<in> set (concat (map (kept now desired) rows))"
    by (simp del: set_concat)
  then show ?case unfolding in_kept Cons.IH by simp
qed simp

text \<open>The rows a sync keeps carry their definitions, and keep their identity.\<close>

lemma kept_carries:
  assumes "w \<in> set (concat (map (kept now (desired_specs specs)) rows))"
  shows "\<exists>spec \<in> set specs. sp_path spec = w_source_path w \<and> carries spec w"
proof -
  from assms obtain x spec where spec: "map_of (desired_specs specs) (w_source_path x) = Some spec"
    and w: "w = updateInboundEndpointRow now spec x" unfolding set_kept by blast
  have "spec \<in> snd ` set (desired_specs specs)" using imageI [OF map_of_SomeD [OF spec], of snd] by simp
  then have "spec \<in> set specs" using keyed_desired(4) by (rule rev_subsetD)
  moreover have "sp_path spec = w_source_path w" "carries spec w" by (simp_all add: w carries_update)
  ultimately show ?thesis by blast
qed

lemma kept_identity:
  assumes "w \<in> set rows" and "w_source_path w \<in> sp_path ` set specs"
  shows "\<exists>w' \<in> set (concat (map (kept now (desired_specs specs)) rows)).
    w_id w' = w_id w \<and> w_public_id w' = w_public_id w \<and> w_created_at w' = w_created_at w \<and> w_source_path w' = w_source_path w"
proof -
  obtain spec where spec: "map_of (desired_specs specs) (w_source_path w) = Some spec"
    using assms(2) keyed_desired(3) by (metis map_of_eq_None_iff not_Some_eq)
  then have "updateInboundEndpointRow now spec w \<in> set (concat (map (kept now (desired_specs specs)) rows))"
    unfolding set_kept using assms(1) by blast
  with keyed_map_of [OF keyed_desired(1) spec] show ?thesis
    by (intro bexI [of _ "updateInboundEndpointRow now spec w"]) simp_all
qed

lemma kept_paths:
  "w_source_path ` set (concat (map (kept now (desired_specs specs)) rows)) =
   sp_path ` set specs \<inter> w_source_path ` set rows"
proof -
  have "f ` {x \<in> R. f x \<in> A} = A \<inter> f ` R" for f :: "webhook_endpoint \<Rightarrow> string" and R A by auto
  then show ?thesis
    using arg_cong [OF kept_keys(3) [OF keyed_desired(1)], of set now specs rows] keyed_desired(3) [of specs]
    by (simp add: map_of_eq_None_iff del: set_concat)
qed

text \<open>The rows of new definitions carry them.\<close>

lemma new_rows_carry:
  assumes "list_all2 carries specs ws" and "map w_source_path ws = map sp_path specs" and "w \<in> set ws"
  shows "\<exists>spec \<in> set specs. sp_path spec = w_source_path w \<and> carries spec w"
  using assms by (induction specs ws rule: list_all2_induct) auto

text \<open>
  C32. When a sync reports success, every definition was valid and the endpoints are exactly those of
  the definitions: one row per path, whose columns, the flag that enables it included, are those of a
  definition of that path; rows of other paths are gone. An endpoint whose path is still defined
  keeps its id, its public URL and its time of creation, the unique keys hold, and no delivery is
  touched.
\<close>

theorem sync_reconciles_endpoints:
  assumes "materializeInboundWebhookEndpoints env defs b = (None, b')" and "inbox_ok b"
    and "\<And>xs. mset (sy_order env xs) = mset xs"
  shows "\<exists>specs. inboundEndpointSpecs env defs = Inr specs \<and> inbox_ok b' \<and>
    inbound_deliveries b' = inbound_deliveries b \<and>
    w_source_path ` set (webhook_endpoints b') = sp_path ` set specs \<and>
    (\<forall>w \<in> set (webhook_endpoints b'). \<exists>spec \<in> set specs. sp_path spec = w_source_path w \<and> carries spec w) \<and>
    (\<forall>w \<in> set (webhook_endpoints b). w_source_path w \<in> sp_path ` set specs \<longrightarrow>
       (\<exists>w' \<in> set (webhook_endpoints b'). w_id w' = w_id w \<and> w_public_id w' = w_public_id w \<and>
          w_created_at w' = w_created_at w \<and> w_source_path w' = w_source_path w))"
proof -
  let ?rows = "webhook_endpoints b"
  obtain specs where specs: "inboundEndpointSpecs env defs = Inr specs"
    using assms(1) by (auto simp: materializeInboundWebhookEndpoints_def split: sum.split_asm)
  let ?desired = "desired_specs specs"
  let ?kept = "concat (map (kept (sy_now env) ?desired) ?rows)"
  let ?b1 = "b\<lparr>webhook_endpoints := ?kept\<rparr>"
  let ?missing = "filter (\<lambda>e. fst e \<notin> w_source_path ` set ?rows) ?desired"
  note des = keyed_desired [of specs]
  obtain missing b1 where existing: "sync_existing env ?rows ?desired b = (None, missing, b1)"
    and created: "sync_new env (sy_order env (map snd missing)) b1 = (None, b')"
    using assms(1) specs by (auto simp: materializeInboundWebhookEndpoints_def split: option.split_asm prod.split_asm)
  have "missing = ?missing \<and> b1 = ?b1"
    using sync_existing_result [of b "[]" ?rows ?desired, OF _ _ _ _ existing] assms(2) des(1) by (simp add: inbox_ok_def)
  then have new: "sync_new env (sy_order env (map snd ?missing)) ?b1 = (None, b')" using created by simp
  from sync_new_result [OF new kept_ok [OF assms(2) des(1)]] obtain ws where ws: "inbox_ok b'"
    "inbound_deliveries b' = inbound_deliveries b" "webhook_endpoints b' = ?kept @ ws"
    "list_all2 carries (sy_order env (map snd ?missing)) ws"
    "map w_source_path ws = map sp_path (sy_order env (map snd ?missing))" by auto
  have order: "set (sy_order env (map snd ?missing)) = snd ` set ?missing"
    using mset_eq_setD [OF assms(3), of "map snd ?missing"] by simp
  have "sp_path ` snd ` set ?missing = fst ` set ?missing"
    unfolding image_image using des(1) by (intro image_cong) (simp_all add: keyed_def list_all_iff)
  also have "\<dots> = sp_path ` set specs - w_source_path ` set ?rows" unfolding des(3) [symmetric] by auto
  finally have missing: "sp_path ` snd ` set ?missing = sp_path ` set specs - w_source_path ` set ?rows" .
  have sub: "snd ` set ?missing \<subseteq> set specs" using des(4) by auto
  have paths: "w_source_path ` set (webhook_endpoints b') = sp_path ` set specs"
    using arg_cong [OF ws(5), of set] order missing kept_paths unfolding ws(3) by (simp add: image_Un del: set_concat) blast
  have carry: "\<exists>spec \<in> set specs. sp_path spec = w_source_path w \<and> carries spec w" if "w \<in> set (webhook_endpoints b')" for w
  proof (cases "w \<in> set ?kept")
    case True
    then show ?thesis by (rule kept_carries)
  next
    case False
    with that ws(3) have "w \<in> set ws" by (simp del: set_concat)
    from new_rows_carry [OF ws(4,5) this] order sub show ?thesis by blast
  qed
  show ?thesis
  proof (intro exI [of _ specs] conjI ballI impI)
    fix w assume "w \<in> set ?rows" "w_source_path w \<in> sp_path ` set specs"
    from kept_identity [OF this, of "sy_now env"] show "\<exists>w' \<in> set (webhook_endpoints b').
        w_id w' = w_id w \<and> w_public_id w' = w_public_id w \<and> w_created_at w' = w_created_at w \<and> w_source_path w' = w_source_path w"
      unfolding ws(3) set_append by blast
  qed (use specs ws(1,2) paths carry in simp_all)
qed

definition ex_raw :: rawInboundWebhookYAML where
  "ex_raw =
     \<lparr>ry_Name = ''ci'', ry_Enabled = None,
      ry_Auth = Some \<lparr>ra_Type = ''bearer'', ra_SecretEnv = ''CI_SECRET'', ra_SignatureHeader = [], ra_SignaturePrefix = []\<rparr>,
      ry_DeliveryIDHeader = ''X-Id'', ry_EventTypeHeader = [], ry_AcceptedEvents = [],
      ry_Action = Some \<lparr>rx_Type = [], rx_Prompt = ''fix'', rx_Agent = [], rx_TimeoutSec = 0, rx_TeamName = []\<rparr>\<rparr>"

definition ex_definition :: "string \<Rightarrow> Definition" where
  "ex_definition path =
     \<lparr>df_Type = ''inbound_webhook'', df_Name = ''ci'', df_Scope = ''team'', df_TeamName = ''t'', df_Repo = [],
      df_Path = path, df_Content = [], df_ContentHash = []\<rparr>"

definition ex_sync_env :: sync_env where
  "ex_sync_env =
     \<lparr>sy_decode = (\<lambda>_. Inr ex_raw), sy_team_by_name = (\<lambda>_. Inl SqlNoRows), sy_group_team = (\<lambda>_. Some ''team1''),
      sy_now = 9, sy_ids = (\<lambda>_. (Some ''inb_2'', Some ''p2'')), sy_order = (\<lambda>xs. xs),
      sy_fail = (\<lambda>_ _. None)\<rparr>"

text \<open>The endpoint of the first path keeps its public id, the one of the second is new.\<close>

theorem sync_reconciles_endpoints_witness:
  "\<exists>b'. materializeInboundWebhookEndpoints ex_sync_env
      [ex_definition ''groups/t/webhooks/inbound/ci.yaml'', ex_definition ''groups/t/webhooks/inbound/b.yaml''] ex_inbox = (None, b') \<and>
    (\<exists>w' \<in> set (webhook_endpoints b'). w_id w' = ''inb_1'' \<and> w_public_id w' = ''p1'')"
proof -
  let ?defs = "[ex_definition ''groups/t/webhooks/inbound/ci.yaml'', ex_definition ''groups/t/webhooks/inbound/b.yaml'']"
  let ?out = "materializeInboundWebhookEndpoints ex_sync_env ?defs ex_inbox"
  obtain b' where out: "?out = (None, b')"
  proof -
    have "fst ?out = None" by code_simp
    then show thesis using that by (cases ?out) auto
  qed
  have "inbox_ok ex_inbox" by code_simp
  moreover have "mset (sy_order ex_sync_env xs) = mset xs" for xs by (simp add: ex_sync_env_def)
  ultimately obtain specs where specs: "inboundEndpointSpecs ex_sync_env ?defs = Inr specs"
    and keep: "\<forall>w \<in> set (webhook_endpoints ex_inbox). w_source_path w \<in> sp_path ` set specs \<longrightarrow>
       (\<exists>w' \<in> set (webhook_endpoints b'). w_id w' = w_id w \<and> w_public_id w' = w_public_id w \<and> w_created_at w' = w_created_at w \<and> w_source_path w' = w_source_path w)"
    using sync_reconciles_endpoints [OF out] by blast
  have "list_ex (\<lambda>s. sp_path s = ''groups/t/webhooks/inbound/ci.yaml'') (projr (inboundEndpointSpecs ex_sync_env ?defs))" by code_simp
  then have "''groups/t/webhooks/inbound/ci.yaml'' \<in> sp_path ` set specs" using specs by (force simp: list_ex_iff)
  with keep have "\<exists>w' \<in> set (webhook_endpoints b'). w_id w' = ''inb_1'' \<and> w_public_id w' = ''p1''"
    by (simp add: ex_inbox_def ex_endpoint_def) blast
  with out show ?thesis by blast
qed

end
