(* ===== verification/Chetter_Ssrf.thy ===== *)
theory Chetter_Ssrf
  imports Chetter_Inbound "HOL-Library.Word"
begin

unbundle bit_operations_syntax

text \<open>
  The destination policy of outbound webhooks, \<^verbatim>\<open>internal/ssrf/ssrf.go\<close> and
  \<^verbatim>\<open>client.go\<close>. Addresses are words of 32 and 128 bits; the parts of Go's
  \<^verbatim>\<open>net/netip\<close> the package uses (parsing, prefixes, classification) are written out. The parsed
  form of a URL and the resolver are parameters. The lemmas show that the classifier blocks exactly
  a list of networks, and that the client dials nothing in them.
\<close>

section \<open>Addresses\<close>

text \<open>\<^verbatim>\<open>netip.Addr\<close>: an IPv4 address, or an IPv6 address with its zone.\<close>

datatype addr = V4 "32 word" | V6 "128 word" string

definition Is4In6 :: "128 word \<Rightarrow> bool" where
  "Is4In6 a = (drop_bit 32 a = 0xFFFF)"

fun Unmap :: "addr \<Rightarrow> addr" where
  "Unmap (V4 a) = V4 a"
| "Unmap (V6 a z) = (if Is4In6 a then V4 (ucast a) else V6 a z)"

fun IsUnspecified :: "addr \<Rightarrow> bool" where
  "IsUnspecified (V4 a) = (a = 0)"
| "IsUnspecified (V6 a z) = (a = 0 \<and> z = [])"

text \<open>The other classifiers, on unmapped addresses.\<close>

fun IsLoopback :: "addr \<Rightarrow> bool" where
  "IsLoopback (V4 a) = (drop_bit 24 a = 127)"
| "IsLoopback (V6 a z) = (a = 1)"

fun IsMulticast :: "addr \<Rightarrow> bool" where
  "IsMulticast (V4 a) = (drop_bit 24 a AND 0xF0 = 0xE0)"
| "IsMulticast (V6 a z) = (drop_bit 120 a = 0xFF)"

fun IsLinkLocalUnicast :: "addr \<Rightarrow> bool" where
  "IsLinkLocalUnicast (V4 a) = (drop_bit 16 a = 0xA9FE)"
| "IsLinkLocalUnicast (V6 a z) = (drop_bit 112 a AND 0xFFC0 = 0xFE80)"

fun IsPrivate :: "addr \<Rightarrow> bool" where
  "IsPrivate (V4 a) =
     (drop_bit 24 a = 10 \<or>
      (drop_bit 24 a = 172 \<and> (drop_bit 16 a AND 0xFF) AND 0xF0 = 16) \<or>
      (drop_bit 24 a = 192 \<and> drop_bit 16 a AND 0xFF = 168))"
| "IsPrivate (V6 a z) = (drop_bit 120 a AND 0xFE = 0xFC)"

text \<open>\<^verbatim>\<open>netip.Prefix\<close> and \<^verbatim>\<open>Prefix.Contains\<close>: an address with a zone is in no prefix.\<close>

datatype pfx = P4 "32 word" nat | P6 "128 word" nat

fun Contains :: "pfx \<Rightarrow> addr \<Rightarrow> bool" where
  "Contains (P4 p n) (V4 a) = (drop_bit (32 - n) a = drop_bit (32 - n) p)"
| "Contains (P6 p n) (V6 a z) = (z = [] \<and> drop_bit (128 - n) a = drop_bit (128 - n) p)"
| "Contains _ _ = False"

fun Masked :: "pfx \<Rightarrow> pfx" where
  "Masked (P4 p n) = P4 (push_bit (32 - n) (drop_bit (32 - n) p)) n"
| "Masked (P6 p n) = P6 (push_bit (128 - n) (drop_bit (128 - n) p)) n"

subsection \<open>Parsing\<close>

definition octet :: "string \<Rightarrow> int option" where
  "octet s =
     (if s \<noteq> [] \<and> list_all is_digit s \<and> (length s = 1 \<or> hd s \<noteq> CHR ''0'') then
        (case read_nat s of Some n \<Rightarrow> if n \<le> 255 then Some (int n) else None | None \<Rightarrow> None)
      else None)"

definition parseIPv4 :: "string \<Rightarrow> int option" where
  "parseIPv4 s =
     (case map octet (split_on (CHR ''.'') s) of
        [Some a, Some b, Some c, Some d] \<Rightarrow> Some (((a * 256 + b) * 256 + c) * 256 + d)
      | _ \<Rightarrow> None)"

definition hex_nibble :: "char \<Rightarrow> int option" where
  "hex_nibble c = (let n = (of_char c :: int) in
     if 48 \<le> n \<and> n \<le> 57 then Some (n - 48)
     else if 97 \<le> n \<and> n \<le> 102 then Some (n - 87)
     else if 65 \<le> n \<and> n \<le> 70 then Some (n - 55)
     else None)"

definition hex_field :: "string \<Rightarrow> int" where
  "hex_field s = foldl (\<lambda>acc c. acc * 16 + the (hex_nibble c)) 0 s"

text \<open>
  The loop over the fields of an IPv6 address: \<open>room\<close> fields of 16 bits are left, \<open>fs\<close> holds
  those read, \<open>gap\<close> the position of the double colon. The result is the fields and that position.
\<close>

fun v6_fields :: "nat \<Rightarrow> string \<Rightarrow> int list \<Rightarrow> nat option \<Rightarrow> (int list \<times> nat option) option" where
  "v6_fields 0 s fs gap = (if s = [] then Some (fs, gap) else None)"
| "v6_fields (Suc room) s fs gap =
     (let digits = takeWhile (\<lambda>c. hex_nibble c \<noteq> None) s; rest = drop (length digits) s in
      if digits = [] \<or> length digits > 4 then None
      else if rest \<noteq> [] \<and> hd rest = CHR ''.'' then
        (if gap = None \<and> length fs \<noteq> 6 then None
         else if room = 0 then None
         else (case parseIPv4 s of
             None \<Rightarrow> None
           | Some n \<Rightarrow> Some (fs @ [n div 65536, n mod 65536], gap)))
      else (let fs' = fs @ [hex_field digits] in
        if rest = [] then Some (fs', gap)
        else if hd rest \<noteq> CHR '':'' then None
        else if length rest = 1 then None
        else if hd (tl rest) = CHR '':'' then
          (if gap \<noteq> None then None
           else if length rest = 2 then Some (fs', Some (length fs'))
           else v6_fields room (drop 2 rest) fs' (Some (length fs')))
        else v6_fields room (tl rest) fs' gap))"

definition expand_fields :: "int list \<times> nat option \<Rightarrow> int list option" where
  "expand_fields r =
     (case r of (fs, gap) \<Rightarrow>
        if length fs < 8 then
          (case gap of None \<Rightarrow> None
           | Some g \<Rightarrow> Some (take g fs @ replicate (8 - length fs) 0 @ drop g fs))
        else (case gap of None \<Rightarrow> Some fs | Some _ \<Rightarrow> None))"

definition v6_word :: "int list \<Rightarrow> 128 word" where
  "v6_word fs = word_of_int (foldl (\<lambda>acc f. acc * 65536 + f) 0 fs)"

definition parseIPv6 :: "string \<Rightarrow> addr option" where
  "parseIPv6 s0 =
     (let s = takeWhile (\<lambda>c. c \<noteq> CHR ''%'') s0; zone = tl (dropWhile (\<lambda>c. c \<noteq> CHR ''%'') s0) in
      if CHR ''%'' \<in> set s0 \<and> zone = [] then None
      else if s = ''::'' then Some (V6 0 zone)
      else (case Option.bind (if prefix ''::'' s then v6_fields 8 (drop 2 s) [] (Some 0) else v6_fields 8 s [] None)
                   expand_fields of
          None \<Rightarrow> None
        | Some fs \<Rightarrow> Some (V6 (v6_word fs) zone)))"

fun ParseAddr_from :: "string \<Rightarrow> string \<Rightarrow> addr option" where
  "ParseAddr_from whole [] = None"
| "ParseAddr_from whole (c # cs) =
     (if c = CHR ''.'' then map_option (\<lambda>n. V4 (word_of_int n)) (parseIPv4 whole)
      else if c = CHR '':'' then parseIPv6 whole
      else if c = CHR ''%'' then None
      else ParseAddr_from whole cs)"

definition ParseAddr :: "string \<Rightarrow> addr option" where
  "ParseAddr s = ParseAddr_from s s"

definition ParsePrefix :: "string \<Rightarrow> pfx option" where
  "ParsePrefix s =
     (let bits_str = rev (takeWhile (\<lambda>c. c \<noteq> CHR ''/'') (rev s));
          host = rev (tl (dropWhile (\<lambda>c. c \<noteq> CHR ''/'') (rev s))) in
      if CHR ''/'' \<notin> set s then None
      else if length bits_str > 1 \<and> \<not> (is_digit (hd bits_str) \<and> hd bits_str \<noteq> CHR ''0'') then None
      else (case (ParseAddr host, if bits_str = [] then None else read_nat bits_str) of
          (Some (V4 a), Some n) \<Rightarrow> if n \<le> 32 then Some (P4 a n) else None
        | (Some (V6 a z), Some n) \<Rightarrow> if z = [] \<and> n \<le> 128 then Some (P6 a n) else None
        | _ \<Rightarrow> None))"

section \<open>The policy\<close>

record Policy =
  AllowHTTP :: bool
  AllowPrivate :: bool
  Allowlist :: "string list"

text \<open>\<^verbatim>\<open>*ssrf.Error\<close>: reason and detail.\<close>

record policy_error =
  pe_Reason :: string
  pe_Detail :: string

definition refuse :: "string \<Rightarrow> string \<Rightarrow> policy_error" where
  "refuse reason detail = \<lparr>pe_Reason = reason, pe_Detail = detail\<rparr>"

record compiledPolicy =
  allowHTTP :: bool
  allowPrivate :: bool
  allowPrefixes :: "pfx list"
  allowHosts :: "string list"

definition normalizeHost :: "string \<Rightarrow> string" where
  "normalizeHost host = trim_prefix ''.'' (trim_suffix ''.'' (to_lower (trim_space host)))"

definition validHostnameEntry :: "string \<Rightarrow> bool" where
  "validHostnameEntry host =
     (host \<noteq> [] \<and> length host \<le> 253 \<and>
      list_all (\<lambda>c. (let n = (of_char c :: nat) in 97 \<le> n \<and> n \<le> 122) \<or> is_digit c \<or> c = CHR ''.'' \<or> c = CHR ''-'') host)"

definition compile_entry :: "string \<Rightarrow> compiledPolicy \<Rightarrow> error + compiledPolicy" where
  "compile_entry raw cp =
     (let entry = trim_space raw in
      if entry = [] then Inl (Errorf ''empty allowlist entry'')
      else if list_ex (\<lambda>c. (of_char c :: nat) \<in> {32, 9, 13, 10}) entry then
        Inl (Errorf (''allowlist entry '' @ go_quote raw @ '' contains whitespace''))
      else if CHR ''/'' \<in> set entry then
        (case ParsePrefix entry of
           None \<Rightarrow> Inl (Errorf (''allowlist entry '' @ go_quote raw @ '' is not a valid CIDR''))
         | Some p \<Rightarrow> Inr (cp\<lparr>allowPrefixes := allowPrefixes cp @ [Masked p]\<rparr>))
      else (case ParseAddr entry of
          Some (V4 a) \<Rightarrow> Inr (cp\<lparr>allowPrefixes := allowPrefixes cp @ [P4 a 32]\<rparr>)
        | Some (V6 a z) \<Rightarrow> Inr (cp\<lparr>allowPrefixes := allowPrefixes cp @ [P6 a 128]\<rparr>)
        | None \<Rightarrow>
            let host = normalizeHost entry in
            if \<not> validHostnameEntry host then
              Inl (Errorf (''allowlist entry '' @ go_quote raw @ '' is not a valid IP, CIDR, or hostname''))
            else Inr (cp\<lparr>allowHosts := allowHosts cp @ [host]\<rparr>)))"

fun compile_from :: "string list \<Rightarrow> compiledPolicy \<Rightarrow> error + compiledPolicy" where
  "compile_from [] cp = Inr cp"
| "compile_from (raw # raws) cp = bind_res (compile_entry raw cp) (compile_from raws)"

definition compile :: "Policy \<Rightarrow> error + compiledPolicy" where
  "compile p =
     compile_from (Allowlist p)
       \<lparr>allowHTTP = AllowHTTP p, allowPrivate = AllowPrivate p, allowPrefixes = [], allowHosts = []\<rparr>"

definition Validate :: "Policy \<Rightarrow> error option" where
  "Validate p = (case compile p of Inl e \<Rightarrow> Some e | Inr _ \<Rightarrow> None)"

definition hostAllowed :: "compiledPolicy \<Rightarrow> string \<Rightarrow> bool" where
  "hostAllowed cp host0 =
     (let host = normalizeHost host0 in
      list_ex (\<lambda>entry. host = entry \<or> suffix (CHR ''.'' # entry) host) (allowHosts cp))"

definition addrAllowed :: "compiledPolicy \<Rightarrow> addr \<Rightarrow> bool" where
  "addrAllowed cp a = list_ex (\<lambda>p. Contains p a) (allowPrefixes cp)"

definition blockedRanges :: "(pfx \<times> string \<times> string) list" where
  "blockedRanges =
     [(P4 0x00000000 8, ''reserved'', ''a reserved address''),
      (P4 0x64400000 10, ''shared'', ''shared address space''),
      (P4 0xC0000000 24, ''reserved'', ''a reserved address''),
      (P4 0xC0000200 24, ''documentation'', ''a documentation address''),
      (P4 0xC6120000 15, ''benchmarking'', ''a benchmarking address''),
      (P4 0xC6336400 24, ''documentation'', ''a documentation address''),
      (P4 0xCB007100 24, ''documentation'', ''a documentation address''),
      (P4 0xF0000000 4, ''reserved'', ''a reserved address''),
      (P6 0x20010DB8000000000000000000000000 32, ''documentation'', ''a documentation address''),
      (P6 0x20010010000000000000000000000000 28, ''reserved'', ''a reserved address''),
      (P6 0x20020000000000000000000000000000 16, ''reserved'', ''a reserved address''),
      (P6 0xFEC00000000000000000000000000000 10, ''site_local'', ''a site-local address'')]"

text \<open>\<open>None\<close> stands for the pair of empty strings.\<close>

definition blockInfo :: "addr \<Rightarrow> (string \<times> string) option" where
  "blockInfo addr0 =
     (let a = Unmap addr0 in
      if IsUnspecified a then Some (''unspecified'', ''an unspecified address'')
      else if IsLoopback a then Some (''loopback'', ''a loopback address'')
      else if IsMulticast a then Some (''multicast'', ''a multicast address'')
      else if IsLinkLocalUnicast a then Some (''link_local'', ''a link-local address'')
      else if IsPrivate a then Some (''private_network'', ''a private network address'')
      else map_option snd (find (\<lambda>r. Contains (fst r) a) blockedRanges))"

text \<open>\<open>show_addr\<close> prints an address for the detail of an error.\<close>

definition checkAddr :: "(addr \<Rightarrow> string) \<Rightarrow> addr \<Rightarrow> compiledPolicy \<Rightarrow> policy_error option" where
  "checkAddr show_addr a cp =
     (if allowPrivate cp \<or> addrAllowed cp a then None
      else (case blockInfo a of
          None \<Rightarrow> None
        | Some (class, human) \<Rightarrow> Some (refuse class (''destination address '' @ show_addr a @ '' is '' @ human))))"

definition blockedHostClass :: "string \<Rightarrow> string" where
  "blockedHostClass host0 =
     (let host = normalizeHost host0 in
      if host = ''localhost'' \<or> suffix ''.localhost'' host then ''localhost''
      else if suffix ''.local'' host then ''mdns''
      else if host = ''metadata.google.internal'' \<or> suffix ''.metadata.google.internal'' host then ''metadata''
      else [])"

definition parseIPLiteral :: "string \<Rightarrow> addr option" where
  "parseIPLiteral host =
     ParseAddr (if CHR ''%'' \<in> set host then rev (tl (dropWhile (\<lambda>c. c \<noteq> CHR ''%'') (rev host))) else host)"

text \<open>The fields of a parsed URL the checks read; \<^verbatim>\<open>du_hostname\<close> is what \<^verbatim>\<open>u.Hostname()\<close> gives.\<close>

record url =
  du_scheme :: string
  du_host :: string
  du_hostname :: string
  du_user :: bool
  du_fragment :: string

definition checkURL :: "(addr \<Rightarrow> string) \<Rightarrow> url \<Rightarrow> compiledPolicy \<Rightarrow> policy_error option" where
  "checkURL show_addr u cp =
     (if du_scheme u \<noteq> ''https'' \<and> \<not> (du_scheme u = ''http'' \<and> allowHTTP cp) then
        Some (if du_scheme u = ''http'' then refuse ''scheme''
            (''destination scheme '' @ go_quote ''http'' @ '' is not allowed; https is required (set CHETTER_WEBHOOK_ALLOW_HTTP for an explicit non-default override)'')
          else refuse ''scheme'' (''destination scheme '' @ go_quote (du_scheme u) @ '' is not allowed; only https is supported''))
      else if du_host u = [] then Some (refuse ''invalid_url'' ''destination URL has no host'')
      else if du_user u then
        Some (refuse ''credentials'' ''destination URL must not contain userinfo (user:password@)'')
      else if du_fragment u \<noteq> [] then Some (refuse ''fragment'' ''destination URL must not contain a fragment'')
      else (let host = normalizeHost (du_hostname u) in
        if host = [] then Some (refuse ''invalid_url'' ''destination URL has no hostname'')
        else if \<not> hostAllowed cp host \<and> blockedHostClass host \<noteq> [] then
          Some (refuse (blockedHostClass host) (''destination host '' @ go_quote (du_hostname u) @
            '' is not allowed (well-known '' @ blockedHostClass host @ '' hostname)''))
        else (case parseIPLiteral host of None \<Rightarrow> None | Some ip \<Rightarrow> checkAddr show_addr ip cp)))"

definition ValidateDestination ::
  "(addr \<Rightarrow> string) \<Rightarrow> (string \<Rightarrow> string + url) \<Rightarrow> string \<Rightarrow> Policy \<Rightarrow> policy_error option" where
  "ValidateDestination show_addr url_parse rawURL pol =
     (case compile pol of
        Inl e \<Rightarrow> Some (refuse ''policy_invalid'' (err_text e))
      | Inr cp \<Rightarrow>
          (case url_parse rawURL of
             Inl m \<Rightarrow> Some (refuse ''invalid_url'' (''cannot parse destination URL: '' @ m))
           | Inr u \<Rightarrow> checkURL show_addr u cp))"

section \<open>The client\<close>

text \<open>
  \<open>lookup\<close> is \<^verbatim>\<open>net.DefaultResolver.LookupIPAddr\<close>: an error text, or the addresses as
  \<^verbatim>\<open>netip.AddrFromSlice\<close> reads them.
\<close>

definition resolveAddrs :: "(string \<Rightarrow> string + addr list) \<Rightarrow> string \<Rightarrow> string + addr list" where
  "resolveAddrs lookup host =
     (case parseIPLiteral host of
        Some ip \<Rightarrow> Inr [ip]
      | None \<Rightarrow> (case lookup host of Inl m \<Rightarrow> Inl m | Inr addrs \<Rightarrow> Inr (map Unmap addrs)))"

text \<open>The loop over the resolved addresses: the first refusal ends it.\<close>

fun first_refusal :: "(addr \<Rightarrow> policy_error option) \<Rightarrow> addr list \<Rightarrow> policy_error option" where
  "first_refusal check [] = None"
| "first_refusal check (x # xs) = (case check x of Some e \<Rightarrow> Some e | None \<Rightarrow> first_refusal check xs)"

text \<open>The result is the address and port handed to the dialer of the operating system.\<close>

definition DialContext ::
  "(addr \<Rightarrow> string) \<Rightarrow> (string \<Rightarrow> string + addr list) \<Rightarrow> Policy \<Rightarrow> string \<Rightarrow> policy_error + addr \<times> string" where
  "DialContext show_addr resolve pol address =
     (case compile pol of
        Inl e \<Rightarrow> Inl (refuse ''policy_invalid'' (err_text e))
      | Inr cp \<Rightarrow>
          (case SplitHostPort address of
             None \<Rightarrow> Inl (refuse ''invalid_url'' (''invalid dial address '' @ go_quote address))
           | Some (host, port) \<Rightarrow>
               if host = [] then Inl (refuse ''invalid_url'' ''empty destination host'')
               else (case resolve host of
                   Inl m \<Rightarrow> Inl (refuse ''resolution'' (''cannot resolve destination host '' @ go_quote host @ '': '' @ m))
                 | Inr [] \<Rightarrow> Inl (refuse ''resolution'' (''destination host '' @ go_quote host @ '' resolved to no addresses''))
                 | Inr (ip # ips) \<Rightarrow>
                     (case (if hostAllowed cp host then None
                            else first_refusal (\<lambda>x. checkAddr show_addr x cp) (ip # ips)) of
                        Some e \<Rightarrow> Inl e
                      | None \<Rightarrow> Inr (ip, port)))))"

text \<open>\<open>send\<close> is the transport below, which calls \<^verbatim>\<open>DialContext\<close>.\<close>

definition RoundTrip ::
  "(addr \<Rightarrow> string) \<Rightarrow> Policy \<Rightarrow> url option \<Rightarrow> (url \<Rightarrow> policy_error + 'r) \<Rightarrow> policy_error + 'r" where
  "RoundTrip show_addr pol u send =
     (case compile pol of
        Inl e \<Rightarrow> Inl (refuse ''policy_invalid'' (err_text e))
      | Inr cp \<Rightarrow>
          (case u of
             None \<Rightarrow> Inl (refuse ''invalid_url'' ''request has no URL'')
           | Some u' \<Rightarrow> (case checkURL show_addr u' cp of Some e \<Rightarrow> Inl e | None \<Rightarrow> send u')))"

section \<open>The networks the classifier blocks\<close>

text \<open>Masks of whole fields as shifts.\<close>

lemma masked_drop:
  fixes w :: "'a::len word"
  assumes "take_bit (LENGTH('a) - m) c = take_bit (LENGTH('a) - m) (NOT (mask n))"
  shows "drop_bit m w AND c = push_bit n (drop_bit (m + n) w)"
proof (rule bit_eqI)
  fix i
  assume i: "possible_bit TYPE('a word) i"
  show "bit (drop_bit m w AND c) i \<longleftrightarrow> bit (push_bit n (drop_bit (m + n) w)) i"
  proof (cases "i + m < LENGTH('a)")
    case True
    then have "bit c i \<longleftrightarrow> n \<le> i"
      using arg_cong [OF assms, of "\<lambda>x. bit x i"] by (auto simp: bit_simps)
    with i show ?thesis by (auto simp: bit_simps ac_simps)
  next
    case False
    then have "\<not> bit w (m + i)" by (auto dest: bit_imp_le_length)
    with i show ?thesis by (auto simp: bit_simps ac_simps)
  qed
qed

lemma masked_eq:
  fixes w :: "'a::len word"
  assumes "take_bit (LENGTH('a) - m) c = take_bit (LENGTH('a) - m) (NOT (mask n))"
    and "drop_bit n (push_bit n k) = k" and "n \<le> m"
  shows "drop_bit m w AND c = push_bit n k \<longleftrightarrow> drop_bit (m + n) w = k"
proof -
  have "drop_bit n (push_bit n (drop_bit (m + n) w)) = drop_bit (m + n) w"
    using assms(3) by (intro bit_eqI) (auto simp: bit_simps dest: bit_imp_le_length)
  with masked_drop [OF assms(1)] assms(2) show ?thesis by metis
qed

lemma v4_multicast: "(drop_bit 24 (a :: 32 word) AND 0xF0 = 0xE0) \<longleftrightarrow> drop_bit 28 a = 14"
  using masked_eq [of 24 "0xF0 :: 32 word" 4 14 a] by (simp add: mask_numeral)
lemma v6_link_local: "(drop_bit 112 (a :: 128 word) AND 0xFFC0 = 0xFE80) \<longleftrightarrow> drop_bit 118 a = 0x3FA"
  using masked_eq [of 112 "0xFFC0 :: 128 word" 6 "0x3FA" a] by (simp add: mask_numeral)
lemma v6_private: "(drop_bit 120 (a :: 128 word) AND 0xFE = 0xFC) \<longleftrightarrow> drop_bit 121 a = 0x7E"
  using masked_eq [of 120 "0xFE :: 128 word" 1 "0x7E" a] by (simp add: mask_numeral)

lemma split_at: "x = y \<longleftrightarrow> drop_bit k x = drop_bit k y \<and> take_bit k x = take_bit k y" for x y :: "'a::len word"
  by (metis bits_ident)

lemma and_field: "y AND push_bit n (mask k) = push_bit n (take_bit k (drop_bit n y))" for y :: "'a::len word"
  by (rule bit_eqI) (auto simp: bit_simps)

lemma v4_private_192: "(drop_bit 24 (a :: 32 word) = 192 \<and> drop_bit 16 a AND 0xFF = 168) \<longleftrightarrow> drop_bit 16 a = 0xC0A8"
  using split_at [of "drop_bit 16 a" "0xC0A8" 8] by (simp add: take_bit_eq_mask mask_numeral)

lemma v4_private_172: "(drop_bit 24 (a :: 32 word) = 172 \<and> (drop_bit 16 a AND 0xFF) AND 0xF0 = 16) \<longleftrightarrow> drop_bit 20 a = 0xAC1"
proof -
  let ?x = "drop_bit 20 a"
  have "(drop_bit 16 a AND 0xFF) AND 0xF0 = drop_bit 16 a AND push_bit 4 (mask 4)"
    by (simp add: mask_numeral and.assoc)
  also have "\<dots> = push_bit 4 (take_bit 4 ?x)" by (simp add: and_field)
  finally have eq: "(drop_bit 16 a AND 0xFF) AND 0xF0 = push_bit 4 (take_bit 4 ?x)" .
  have "push_bit 4 (take_bit 4 ?x) = (16 :: 32 word) \<longleftrightarrow> take_bit 4 ?x = 1"
  proof
    assume "push_bit 4 (take_bit 4 ?x) = (16 :: 32 word)"
    then have "drop_bit 4 (push_bit 4 (take_bit 4 ?x)) = (drop_bit 4 16 :: 32 word)" by simp
    moreover have "drop_bit 4 (push_bit 4 (take_bit 4 ?x)) = take_bit 4 ?x" by (rule bit_eqI) (auto simp: bit_simps)
    ultimately show "take_bit 4 ?x = 1" by simp
  qed simp
  then show ?thesis unfolding eq using split_at [of ?x "0xAC1" 4] by simp
qed

text \<open>The blocked networks in one list, most of them known to the classifiers of \<^verbatim>\<open>netip\<close> only.\<close>

definition blocked_networks :: "pfx list" where
  "blocked_networks =
     [P4 0x00000000 8, P4 0x0A000000 8, P4 0x64400000 10, P4 0x7F000000 8, P4 0xA9FE0000 16, P4 0xAC100000 12,
      P4 0xC0000000 24, P4 0xC0000200 24, P4 0xC0A80000 16, P4 0xC6120000 15, P4 0xC6336400 24, P4 0xCB007100 24,
      P4 0xE0000000 4, P4 0xF0000000 4,
      P6 0 128, P6 1 128, P6 0x20010010000000000000000000000000 28, P6 0x20010DB8000000000000000000000000 32,
      P6 0x20020000000000000000000000000000 16, P6 0xFC000000000000000000000000000000 7,
      P6 0xFE800000000000000000000000000000 10, P6 0xFEC00000000000000000000000000000 10,
      P6 0xFF000000000000000000000000000000 8]"

definition blocked_addr :: "addr \<Rightarrow> bool" where
  "blocked_addr a = list_ex (\<lambda>p. Contains p a) blocked_networks"

fun addr_zone :: "addr \<Rightarrow> string" where
  "addr_zone (V4 a) = []"
| "addr_zone (V6 a z) = z"

lemma find_None_iff_ex: "find P xs \<noteq> None \<longleftrightarrow> list_ex P xs"
  by (induction xs) auto

lemma blockInfo_V4: "blockInfo (V4 a) \<noteq> None \<longleftrightarrow> blocked_addr (V4 a)"
proof -
  have "map_option snd (find (\<lambda>r. Contains (fst r) (V4 a)) blockedRanges) \<noteq> None \<longleftrightarrow>
      list_ex (\<lambda>r. Contains (fst r) (V4 a)) blockedRanges"
    using find_None_iff_ex by (simp del: not_None_eq)
  then show ?thesis
    unfolding blockInfo_def Let_def
    by (auto simp: v4_multicast v4_private_172 v4_private_192 blocked_addr_def blocked_networks_def blockedRanges_def
        simp del: not_None_eq)
qed

lemma blockInfo_V6:
  assumes "\<not> Is4In6 a"
  shows "blockInfo (V6 a []) \<noteq> None \<longleftrightarrow> blocked_addr (V6 a [])"
proof -
  have "map_option snd (find (\<lambda>r. Contains (fst r) (V6 a [])) blockedRanges) \<noteq> None \<longleftrightarrow>
      list_ex (\<lambda>r. Contains (fst r) (V6 a [])) blockedRanges"
    using find_None_iff_ex by (simp del: not_None_eq)
  then show ?thesis
    using assms unfolding blockInfo_def Let_def
    by (auto simp: v6_link_local v6_private blocked_addr_def blocked_networks_def blockedRanges_def
        simp del: not_None_eq)
qed

lemma Unmap_idem [simp]: "Unmap (Unmap a) = Unmap a"
  by (cases a) auto

lemma blockInfo_Unmap [simp]: "blockInfo (Unmap a) = blockInfo a"
  by (simp add: blockInfo_def)

lemma addr_zone_Unmap: "addr_zone a = [] \<Longrightarrow> addr_zone (Unmap a) = []"
  by (cases a) auto

lemma blocked_iff:
  assumes "addr_zone a = []"
  shows "blockInfo a \<noteq> None \<longleftrightarrow> blocked_addr (Unmap a)"
proof (cases "Unmap a")
  case (V4 b)
  then show ?thesis using blockInfo_V4 blockInfo_Unmap by metis
next
  case (V6 b z)
  then have "\<not> Is4In6 b" by (cases a) (auto split: if_split_asm)
  moreover have "z = []" using addr_zone_Unmap [OF assms] V6 by simp
  ultimately show ?thesis using blockInfo_V6 blockInfo_Unmap V6 by metis
qed

text \<open>
  The classifier of the policy, a chain of tests on bytes and a table, blocks an address that
  has no zone exactly if the address, with an IPv4-mapped one read as IPv4, lies in one of the
  listed networks: loopback, private, link-local, shared, multicast, documentation, benchmarking,
  reserved and unspecified.
\<close>

theorem classifier_blocks_listed_networks:
  assumes "addr_zone a = []"
  shows "blockInfo a \<noteq> None \<longleftrightarrow> blocked_addr (Unmap a)"
  using assms by (rule blocked_iff)

theorem classifier_blocks_listed_networks_witness:
  "blockInfo (V6 0xFFFF0A000001 []) \<noteq> None \<and> blockInfo (V4 0x5DB8D822) = None"
proof -
  have "blocked_addr (Unmap (V6 0xFFFF0A000001 []))" by code_simp
  then have "blockInfo (V6 0xFFFF0A000001 []) \<noteq> None"
    using classifier_blocks_listed_networks [of "V6 0xFFFF0A000001 []"] by simp
  moreover have "\<not> blocked_addr (Unmap (V4 0x5DB8D822))" by code_simp
  then have "blockInfo (V4 0x5DB8D822) = None"
    using classifier_blocks_listed_networks [of "V4 0x5DB8D822"] by (metis addr_zone.simps(1))
  ultimately show ?thesis by blast
qed

section \<open>What the client dials\<close>

lemma v6_zone:
  assumes "parseIPv6 s = Some a" and "CHR ''%'' \<notin> set s"
  shows "addr_zone a = []"
proof -
  let ?r = "dropWhile (\<lambda>c. c \<noteq> CHR ''%'') s"
  have "addr_zone a = tl ?r"
    using assms(1) unfolding parseIPv6_def Let_def by (auto split: if_split_asm option.split_asm simp del: v6_fields.simps)
  moreover have "?r = []" unfolding dropWhile_eq_Nil_conv using assms(2) by blast
  ultimately show ?thesis by (simp only: list.sel)
qed

lemma ParseAddr_zone: "ParseAddr s = Some a \<Longrightarrow> CHR ''%'' \<notin> set s \<Longrightarrow> addr_zone a = []"
proof -
  have "ParseAddr_from s t = Some a \<Longrightarrow> CHR ''%'' \<notin> set s \<Longrightarrow> addr_zone a = []" for t
    by (induction t) (auto split: if_split_asm dest: v6_zone)
  then show "ParseAddr s = Some a \<Longrightarrow> CHR ''%'' \<notin> set s \<Longrightarrow> addr_zone a = []" by (simp add: ParseAddr_def)
qed

text \<open>A literal with at most one zone separator is read without its zone.\<close>

lemma literal_zone:
  assumes "parseIPLiteral host = Some a" and "length (filter (\<lambda>c. c = CHR ''%'') host) \<le> 1"
  shows "addr_zone a = []"
proof -
  let ?p = "\<lambda>c. c = CHR ''%''"
  let ?d = "dropWhile (\<lambda>c. c \<noteq> CHR ''%'') (rev host)"
  have drop: "filter ?p (dropWhile (\<lambda>c. c \<noteq> CHR ''%'') xs) = filter ?p xs" for xs by (induction xs) auto
  have tail: "CHR ''%'' \<notin> set (tl xs)" if "xs \<noteq> []" "hd xs = CHR ''%''" "length (filter ?p xs) \<le> 1" for xs
    using that by (cases xs) (auto simp: filter_empty_conv)
  have "CHR ''%'' \<notin> set (tl ?d)" if "CHR ''%'' \<in> set host"
  proof -
    have ne: "?d \<noteq> []" unfolding dropWhile_eq_Nil_conv using that by auto
    moreover have "hd ?d = CHR ''%''" using hd_dropWhile [OF ne] by simp
    moreover have "length (filter ?p ?d) \<le> 1" unfolding drop using assms(2) length_rev [of "filter ?p host"] unfolding rev_filter by (simp only:)
    ultimately show ?thesis by (rule tail)
  qed
  then have "CHR ''%'' \<notin> set (if CHR ''%'' \<in> set host then rev (tl ?d) else host)" by simp
  with assms(1) show ?thesis unfolding parseIPLiteral_def by (rule ParseAddr_zone)
qed

lemma compile_from_flags: "compile_from raws cp = Inr cp' \<Longrightarrow> allowPrivate cp' = allowPrivate cp"
proof (induction raws arbitrary: cp)
  case (Cons raw raws)
  have "allowPrivate cp1 = allowPrivate cp" if "compile_entry raw cp = Inr cp1" for cp1
    using that by (auto simp: compile_entry_def Let_def split: if_split_asm option.split_asm addr.split_asm)
  with Cons show ?case by auto
qed simp

lemma first_refusal_None: "first_refusal check xs = None \<longleftrightarrow> list_all (\<lambda>x. check x = None) xs"
  by (induction xs) (auto split: option.split)

lemma dial_checks:
  assumes "DialContext show_addr resolve pol address = Inr (ip, port)"
  obtains cp host ips where "compile pol = Inr cp" "SplitHostPort address = Some (host, port)" "resolve host = Inr (ip # ips)"
    "hostAllowed cp host \<or> list_all (\<lambda>x. checkAddr show_addr x cp = None) (ip # ips)"
  using assms
  by (auto simp: DialContext_def first_refusal_None split: sum.split_asm option.split_asm if_split_asm list.split_asm prod.split_asm
      simp del: first_refusal.simps intro: that)

text \<open>
  C33. Whatever the resolver answers, the client dials only the first of the addresses it has
  checked, and none of them is in a blocked network, unless the operator allows private
  destinations, the host by name, or the address. This holds for
  hosts with at most one zone separator; the addresses of the system's resolver carry no zone.
\<close>

theorem client_dials_no_blocked_address:
  assumes "DialContext show_addr (resolveAddrs lookup) pol address = Inr (ip, port)"
    and "SplitHostPort address = Some (host, port)" and "length (filter (\<lambda>c. c = CHR ''%'') host) \<le> 1"
    and "\<And>h addrs. lookup h = Inr addrs \<Longrightarrow> list_all (\<lambda>x. addr_zone x = []) addrs"
  shows "\<exists>cp ips. compile pol = Inr cp \<and> allowPrivate cp = AllowPrivate pol \<and>
    resolveAddrs lookup host = Inr (ip # ips) \<and>
    (AllowPrivate pol \<or> hostAllowed cp host \<or>
     list_all (\<lambda>x. addrAllowed cp x \<or> \<not> blocked_addr (Unmap x)) (ip # ips))"
proof -
  from assms(1) obtain cp host' ips where d0: "compile pol = Inr cp" "SplitHostPort address = Some (host', port)"
    "resolveAddrs lookup host' = Inr (ip # ips)"
    "hostAllowed cp host' \<or> list_all (\<lambda>x. checkAddr show_addr x cp = None) (ip # ips)" by (rule dial_checks)
  then have "host' = host" using assms(2) by simp
  with d0 have d: "compile pol = Inr cp" "resolveAddrs lookup host = Inr (ip # ips)"
    "hostAllowed cp host \<or> list_all (\<lambda>x. checkAddr show_addr x cp = None) (ip # ips)" by simp_all
  have zones: "addr_zone x = []" if "x \<in> set (ip # ips)" for x
  proof (cases "parseIPLiteral host")
    case None
    then obtain addrs where "lookup host = Inr addrs" "ip # ips = map Unmap addrs"
      using d(2) by (auto simp: resolveAddrs_def split: sum.split_asm)
    with assms(4) that addr_zone_Unmap show ?thesis by (auto simp: list_all_iff)
  next
    case (Some a)
    with d(2) that literal_zone [OF Some assms(3)] show ?thesis by (simp add: resolveAddrs_def)
  qed
  have flag: "allowPrivate cp = AllowPrivate pol"
    using compile_from_flags d(1) unfolding compile_def by fastforce
  have "addrAllowed cp x \<or> \<not> blocked_addr (Unmap x)"
    if "x \<in> set (ip # ips)" "checkAddr show_addr x cp = None" "\<not> AllowPrivate pol" for x
    using that(2,3) blocked_iff [OF zones [OF that(1)]] flag by (auto simp: checkAddr_def split: if_split_asm option.split_asm)
  then have "AllowPrivate pol \<or> hostAllowed cp host \<or> list_all (\<lambda>x. addrAllowed cp x \<or> \<not> blocked_addr (Unmap x)) (ip # ips)"
    using d(3) unfolding list_all_iff by blast
  with d(1,2) flag show ?thesis by blast
qed

definition default_policy :: Policy where
  "default_policy = \<lparr>AllowHTTP = False, AllowPrivate = False, Allowlist = []\<rparr>"

theorem client_dials_no_blocked_address_witness:
  "DialContext (\<lambda>_. []) (resolveAddrs (\<lambda>_. Inr [])) default_policy ''93.184.216.34:443'' = Inr (V4 0x5DB8D822, ''443'') \<and>
   \<not> blocked_addr (V4 0x5DB8D822)"
proof -
  let ?host = "''93.184.216.34''"
  have d: "DialContext (\<lambda>_. []) (resolveAddrs (\<lambda>_. Inr [])) default_policy ''93.184.216.34:443'' = Inr (V4 0x5DB8D822, ''443'')"
    by code_simp
  have h: "SplitHostPort ''93.184.216.34:443'' = Some (?host, ''443'')" "length (filter (\<lambda>c. c = CHR ''%'') ?host) \<le> 1" by code_simp+
  have "list_all (\<lambda>x. addr_zone x = []) addrs" if "(\<lambda>_. Inr []) h = (Inr addrs :: string + addr list)" for h :: string and addrs
    using that by simp
  from client_dials_no_blocked_address [OF d h this] obtain cp ips where c: "compile default_policy = Inr cp"
    "AllowPrivate default_policy \<or> hostAllowed cp ?host \<or>
     list_all (\<lambda>x. addrAllowed cp x \<or> \<not> blocked_addr (Unmap x)) (V4 0x5DB8D822 # ips)" by blast
  have "cp = \<lparr>allowHTTP = False, allowPrivate = False, allowPrefixes = [], allowHosts = []\<rparr>"
    using c(1) by (simp add: compile_def default_policy_def)
  with c(2) d show ?thesis by (simp add: default_policy_def hostAllowed_def addrAllowed_def)
qed

text \<open>
  A literal with two zone separators escapes the policy: of the two zones only the last is
  removed, an address with a zone is in no prefix and is not the unspecified address, so the
  default policy lets the client dial the unspecified address, and in the same way a 6to4 address.
\<close>

theorem double_zone_escapes_policy:
  "DialContext show_addr (resolveAddrs lookup) default_policy ''[::%a%b]:443'' = Inr (V6 0 ''a'', ''443'') \<and>
   DialContext show_addr (resolveAddrs lookup) default_policy ''[2002:7f00:1::%a%b]:443'' =
     Inr (V6 0x20027F00000100000000000000000000 ''a'', ''443'') \<and>
   ValidateDestination show_addr (\<lambda>_. Inr \<lparr>du_scheme = ''https'', du_host = ''[::%a%b]'', du_hostname = ''::%a%b'',
     du_user = False, du_fragment = []\<rparr>) raw default_policy = None"
proof -
  let ?any = "V6 0 ''a''" and ?sixtofour = "V6 0x20027F00000100000000000000000000 ''a''"
  have cp: "compile default_policy = Inr \<lparr>allowHTTP = False, allowPrivate = False, allowPrefixes = [], allowHosts = []\<rparr>"
    by (simp add: compile_def default_policy_def)
  have split: "SplitHostPort ''[::%a%b]:443'' = Some (''::%a%b'', ''443'')"
    "SplitHostPort ''[2002:7f00:1::%a%b]:443'' = Some (''2002:7f00:1::%a%b'', ''443'')" by code_simp+
  have lit: "parseIPLiteral ''::%a%b'' = Some ?any" "parseIPLiteral ''2002:7f00:1::%a%b'' = Some ?sixtofour" by code_simp+
  have free: "blockInfo ?any = None" "blockInfo ?sixtofour = None" by code_simp+
  have url: "normalizeHost ''::%a%b'' = ''::%a%b''" "blockedHostClass ''::%a%b'' = []" by code_simp+
  show ?thesis
    by (simp add: DialContext_def ValidateDestination_def checkURL_def resolveAddrs_def cp split lit url checkAddr_def free)
qed

end
