(* ===== verification/Chetter_Watchdog.thy ===== *)
theory Chetter_Watchdog
  imports Chetter_Classify Chetter_Prelude
begin

text \<open>
  The progress watchdog of the runner, \<^verbatim>\<open>runner/internal/controller/progress_watchdog.go\<close>: it
  prods a silent agent with a continuation prompt and stops one that stays silent. Progress events
  and ticks of its loop are the steps of a transition relation; the callbacks that tell whether the
  harness is idle or busy answer in the step. The lemmas bound the prompts of a run and show when
  the watchdog stops a task. The text it reports is classified by the rules the runner and the
  server share (\<^verbatim>\<open>runner.go\<close>, \<^verbatim>\<open>runner_rpc.go\<close>).
\<close>

section \<open>Data\<close>

definition harnessProgressNudgeAfter :: time where
  "harnessProgressNudgeAfter = 120 * second"

definition harnessProgressFailAfter :: time where
  "harnessProgressFailAfter = 300 * second"

definition harnessProgressBusyFailAfter :: time where
  "harnessProgressBusyFailAfter = 720 * second"

definition maxHarnessContinuationStreak :: int where
  "maxHarnessContinuationStreak = 3"

definition maxHarnessContinuationAttemptsTotal :: int where
  "maxHarnessContinuationAttemptsTotal = 10"

definition maxWatchdogSummaryLen :: nat where
  "maxWatchdogSummaryLen = 160"

datatype harnessStuckCause =
    stuckCauseNone
  | stuckCauseSilentAfterNudge
  | stuckCauseContinuationAttemptsExhausted
  | stuckCauseBusyUnresponsive

text \<open>
  The zero time of \<^verbatim>\<open>nudgedAt\<close> is \<open>None\<close>; \<open>canNudge\<close> tells whether the harness has a continuation
  callback.
\<close>

record progressWatchdog =
  lastProgress :: time
  nudgedAt :: "time option"
  nudgeCount :: int
  nudgeTotal :: int
  stuck :: bool
  stuckCause :: harnessStuckCause
  stuckSilence :: time
  turnStateKnown :: bool
  turnActive :: bool
  lastSummary :: string
  canNudge :: bool

definition startProgressWatchdog :: "time \<Rightarrow> bool \<Rightarrow> progressWatchdog" where
  "startProgressWatchdog now continuable =
     \<lparr>lastProgress = now, nudgedAt = None, nudgeCount = 0, nudgeTotal = 0, stuck = False,
      stuckCause = stuckCauseNone, stuckSilence = 0, turnStateKnown = False, turnActive = False,
      lastSummary = [], canNudge = continuable\<rparr>"

section \<open>Operations\<close>

definition isHarnessProgress :: "string \<Rightarrow> bool" where
  "isHarnessProgress summary =
     (let s = trim_space (to_lower summary) in s \<noteq> [] \<and> \<not> contains s ''heartbeat'')"

definition truncateWatchdogSummary :: "string \<Rightarrow> string" where
  "truncateWatchdogSummary summary =
     (if length summary > maxWatchdogSummaryLen then take maxWatchdogSummaryLen summary @ ''...'' else summary)"

definition watchdog_record :: "time \<Rightarrow> string \<Rightarrow> progressWatchdog \<Rightarrow> progressWatchdog" where
  "watchdog_record now summary w =
     (if \<not> isHarnessProgress summary then w
      else
        let quoted = (\<lambda>s. [char_of (34 :: nat)] @ s @ [char_of (34 :: nat)]);
            w1 = w\<lparr>lastProgress := now, lastSummary := truncateWatchdogSummary summary\<rparr>;
            w2 = (if contains summary ''session.status'' then
                    w1\<lparr>turnStateKnown := True,
                       turnActive := (if contains summary (quoted ''busy'') then True
                                      else if contains summary (quoted ''idle'') then False
                                      else turnActive w1)\<rparr>
                  else w1) in
        w2\<lparr>nudgedAt := None, nudgeCount := 0\<rparr>)"

text \<open>The answer of the status probe: none without a probe, else an error or a status.\<close>

definition probeTurnActive :: "(string + string) option \<Rightarrow> bool \<times> bool" where
  "probeTurnActive probe =
     (case probe of
        None \<Rightarrow> (False, False)
      | Some (Inl err) \<Rightarrow> (False, False)
      | Some (Inr status) \<Rightarrow> if status = ''busy'' then (True, True) else (False, True))"

definition watchdog_check ::
  "bool \<Rightarrow> (string + string) option \<Rightarrow> time \<Rightarrow> progressWatchdog \<Rightarrow> (bool \<times> harnessStuckCause) \<times> progressWatchdog" where
  "watchdog_check idle probe now w =
     (if idle then ((False, stuckCauseNone), w)
      else case nudgedAt w of
        Some t \<Rightarrow>
          if now - t \<ge> harnessProgressFailAfter then ((False, stuckCauseSilentAfterNudge), w)
          else ((False, stuckCauseNone), w)
      | None \<Rightarrow>
          let elapsed = now - lastProgress w in
          if elapsed < harnessProgressNudgeAfter then ((False, stuckCauseNone), w)
          else if \<not> canNudge w then ((False, stuckCauseNone), w)
          else if nudgeCount w \<ge> maxHarnessContinuationStreak \<or> nudgeTotal w \<ge> maxHarnessContinuationAttemptsTotal
            then ((False, stuckCauseContinuationAttemptsExhausted), w)
          else
            let (active, known) = probeTurnActive probe in
            if known \<and> active then
              (if elapsed \<ge> harnessProgressBusyFailAfter then ((False, stuckCauseBusyUnresponsive), w)
               else ((False, stuckCauseNone), w))
            else ((True, stuckCauseNone),
                  w\<lparr>nudgedAt := Some now, nudgeCount := nudgeCount w + 1, nudgeTotal := nudgeTotal w + 1\<rparr>))"

definition watchdog_fail :: "time \<Rightarrow> harnessStuckCause \<Rightarrow> progressWatchdog \<Rightarrow> progressWatchdog" where
  "watchdog_fail now cause w =
     w\<lparr>stuck := True, stuckCause := cause,
       stuckSilence := (if cause = stuckCauseSilentAfterNudge then harnessProgressFailAfter
                        else now - lastProgress w)\<rparr>"

text \<open>
  One tick of \<^verbatim>\<open>run\<close>: whether a continuation prompt is sent, and the state after it. The clock is
  read again when the task is stopped. The prompt itself cannot fail the task.
\<close>

definition watchdog_tick ::
  "bool \<Rightarrow> (string + string) option \<Rightarrow> time \<Rightarrow> time \<Rightarrow> progressWatchdog \<Rightarrow> bool \<times> progressWatchdog" where
  "watchdog_tick idle probe now now' w =
     (let ((nudge, failCause), w1) = watchdog_check idle probe now w in
      (nudge, if failCause \<noteq> stuckCauseNone then watchdog_fail now' failCause w1 else w1))"

section \<open>Reports\<close>

text \<open>A duration of whole seconds as \<^verbatim>\<open>Duration.String\<close> prints it, and \<^verbatim>\<open>Duration.Round(time.Second)\<close>.\<close>

definition duration_text :: "time \<Rightarrow> string" where
  "duration_text d =
     (let s = \<bar>d\<bar> div second; sign = (if d < 0 then ''-'' else []) in
      if s = 0 then ''0s''
      else if s < 60 then sign @ show_int s @ ''s''
      else if s < 3600 then sign @ show_int (s div 60) @ ''m'' @ show_int (s mod 60) @ ''s''
      else sign @ show_int (s div 3600) @ ''h'' @ show_int (s div 60 mod 60) @ ''m'' @ show_int (s mod 60) @ ''s'')"

definition round_second :: "time \<Rightarrow> time" where
  "round_second d =
     (let r = \<bar>d\<bar> mod second; whole = \<bar>d\<bar> - r + (if 2 * r < second then 0 else second) in
      if d < 0 then - whole else whole)"

definition dash :: string where
  "dash = map char_of [226 :: nat, 128, 148]"

definition stuckMessage :: "progressWatchdog \<Rightarrow> string" where
  "stuckMessage w =
     (let silent = ''Harness made no progress for '' @ duration_text harnessProgressFailAfter @
            '' after continuation prompt; stopping task.'' in
      case stuckCause w of
        stuckCauseBusyUnresponsive \<Rightarrow>
          ''Harness busy but unresponsive: no progress for '' @ duration_text harnessProgressBusyFailAfter @
          '' during an in-flight generation turn (likely a hung model request); stopping task.''
      | stuckCauseContinuationAttemptsExhausted \<Rightarrow>
          if turnStateKnown w \<and> turnActive w then silent
          else ''Harness continuation prompt budget exhausted ('' @ show_int maxHarnessContinuationStreak @
            '' consecutive, '' @ show_int (nudgeTotal w) @ ''/'' @ show_int maxHarnessContinuationAttemptsTotal @
            '' total) after '' @ duration_text harnessProgressFailAfter @ '' without progress; stopping task.''
      | _ \<Rightarrow> silent)"

definition stuckDetails :: "progressWatchdog \<Rightarrow> string" where
  "stuckDetails w =
     (if \<not> stuck w then []
      else
        (case stuckCause w of
           stuckCauseBusyUnresponsive \<Rightarrow> ''busy harness unresponsive''
         | stuckCauseContinuationAttemptsExhausted \<Rightarrow> ''continuation prompt budget exhausted''
         | _ \<Rightarrow> ''no progress after continuation prompt'') @
        ''; silent for '' @ duration_text (round_second (stuckSilence w)) @
        (if nudgeTotal w > 0
         then ''; '' @ show_int (nudgeTotal w) @ ''/'' @ show_int maxHarnessContinuationAttemptsTotal @ '' continuation prompts sent''
         else []) @
        (if lastSummary w \<noteq> [] then ''; last event: '' @ go_quote (lastSummary w) else []) @
        (if turnStateKnown w then
           (if turnActive w then ''; harness turn in flight '' @ dash @ '' likely a hung or very slow model request''
            else ''; harness idle '' @ dash @ '' agent completed its turn but kept ignoring the runner'')
         else []))"

definition stuckError :: "progressWatchdog \<Rightarrow> string" where
  "stuckError w =
     (if stuckDetails w \<noteq> [] then ''stuck harness: '' @ stuckDetails w else ''stuck harness: no progress'')"

text \<open>The category the runner attaches to a terminal report (\<^verbatim>\<open>runner.go\<close>).\<close>

definition classifyErrorCategory :: "string \<Rightarrow> string \<Rightarrow> string" where
  "classifyErrorCategory status message =
     (if status = ''cancelled'' then ''cancelled'' else
      let lower = to_lower message in
      if contains_any lower [''sandbox failed to start'', ''sandbox_start_failed'']
        then ''sandbox_start_failed''
      else if contains_any lower [''sandbox crashed'', ''sandbox_crashed''] then ''sandbox_crashed''
      else if contains_any lower [''budget'', ''cost limit'', ''max budget''] then ''budget_exceeded''
      else if contains_any lower [''oomkilled'', ''out of memory'', ''memory limit'',
        ''resource limit'', ''cgroup memory''] then ''resource_limit''
      else if contains_any lower [''timeout'', ''deadline exceeded'', ''context deadline''] then ''timeout''
      else if isPromptTransportFailureMessage lower then ''transport_error''
      else if contains_any lower [''stuck'', ''loop''] then ''stuck''
      else if contains_any lower [''model'', ''llm'', ''rate limit'', ''provider'', ''api error'']
        then ''model_error''
      else if message = [] then ''unknown''
      else ''runtime_error'')"

section \<open>Runs\<close>

datatype watch_event =
    Recorded time string
  | Ticked time time bool "(string + string) option"

text \<open>
  The loop leaves at the tick that stops the task; events may still arrive after it, later ticks
  do nothing. A step tells whether it sent a continuation prompt.
\<close>

inductive watch_step :: "progressWatchdog \<Rightarrow> watch_event \<Rightarrow> bool \<Rightarrow> progressWatchdog \<Rightarrow> bool" where
  recorded: "watch_step w (Recorded now summary) False (watchdog_record now summary w)"
| ticked: "\<not> stuck w \<Longrightarrow> watchdog_tick idle probe now now' w = (nudge, w') \<Longrightarrow>
    watch_step w (Ticked now now' idle probe) nudge w'"
| returned: "stuck w \<Longrightarrow> watch_step w (Ticked now now' idle probe) False w"

inductive watch_run :: "progressWatchdog \<Rightarrow> (watch_event \<times> bool) list \<Rightarrow> progressWatchdog \<Rightarrow> bool" where
  start: "watch_run w [] w"
| step: "watch_run w es w' \<Longrightarrow> watch_step w' e nudge w'' \<Longrightarrow> watch_run w (es @ [(e, nudge)]) w''"

inductive_cases watch_stepE: "watch_step w e nudge w'"

fun quiet :: "watch_event \<Rightarrow> bool" where
  "quiet (Recorded now summary) = (\<not> isHarnessProgress summary)"
| "quiet (Ticked now now' idle probe) = (\<not> idle)"

section \<open>Invariants\<close>

text \<open>
  A prompt is outstanding exactly while the streak counts one, and was sent to a harness that can
  continue and had been silent for two minutes.
\<close>

definition watch_ok :: "progressWatchdog \<Rightarrow> bool" where
  "watch_ok w =
     (nudgeCount w = (if nudgedAt w = None then 0 else 1) \<and>
      0 \<le> nudgeTotal w \<and> nudgeTotal w \<le> maxHarnessContinuationAttemptsTotal \<and>
      (case nudgedAt w of None \<Rightarrow> True | Some t \<Rightarrow> canNudge w \<and> t - lastProgress w \<ge> harnessProgressNudgeAfter))"

lemmas watch_consts = harnessProgressNudgeAfter_def harnessProgressFailAfter_def harnessProgressBusyFailAfter_def
  maxHarnessContinuationStreak_def maxHarnessContinuationAttemptsTotal_def

lemma record_fields [simp]:
  "stuck (watchdog_record now summary w) = stuck w" "nudgeTotal (watchdog_record now summary w) = nudgeTotal w"
  "canNudge (watchdog_record now summary w) = canNudge w" "stuckCause (watchdog_record now summary w) = stuckCause w"
  by (simp_all add: watchdog_record_def Let_def)

lemma fail_fields [simp]:
  "stuck (watchdog_fail now cause w)" "nudgeTotal (watchdog_fail now cause w) = nudgeTotal w"
  "canNudge (watchdog_fail now cause w) = canNudge w" "stuckCause (watchdog_fail now cause w) = cause"
  "nudgedAt (watchdog_fail now cause w) = nudgedAt w" "nudgeCount (watchdog_fail now cause w) = nudgeCount w"
  "lastProgress (watchdog_fail now cause w) = lastProgress w"
  by (simp_all add: watchdog_fail_def)

lemma record_quiet: "\<not> isHarnessProgress summary \<Longrightarrow> watchdog_record now summary w = w"
  by (simp add: watchdog_record_def)

lemma watch_ok_record: "watch_ok w \<Longrightarrow> watch_ok (watchdog_record now summary w)"
  by (simp add: watch_ok_def watchdog_record_def Let_def)

lemma watch_ok_fail: "watch_ok (watchdog_fail now cause w) = watch_ok w"
  by (simp add: watch_ok_def split: option.split)

text \<open>The outcomes of a tick: nothing, a prompt, or the end of the task for one of three reasons.\<close>

lemma tick_cases:
  assumes "watchdog_tick idle probe now now' w = (nudge, w')"
  obtains (idle) "idle" "\<not> nudge" "w' = w"
  | (waiting) t where "\<not> idle" "nudgedAt w = Some t" "now - t < harnessProgressFailAfter" "\<not> nudge" "w' = w"
  | (silent) t where "\<not> idle" "nudgedAt w = Some t" "now - t \<ge> harnessProgressFailAfter" "\<not> nudge"
      "w' = watchdog_fail now' stuckCauseSilentAfterNudge w"
  | (active) "\<not> idle" "nudgedAt w = None" "\<not> nudge" "w' = w"
      "now - lastProgress w < harnessProgressNudgeAfter \<or> \<not> canNudge w \<or>
       (probe = Some (Inr ''busy'') \<and> now - lastProgress w < harnessProgressBusyFailAfter)"
  | (exhausted) "\<not> idle" "nudgedAt w = None" "now - lastProgress w \<ge> harnessProgressNudgeAfter" "canNudge w" "\<not> nudge"
      "nudgeCount w \<ge> maxHarnessContinuationStreak \<or> nudgeTotal w \<ge> maxHarnessContinuationAttemptsTotal"
      "w' = watchdog_fail now' stuckCauseContinuationAttemptsExhausted w"
  | (busy) "\<not> idle" "nudgedAt w = None" "now - lastProgress w \<ge> harnessProgressBusyFailAfter" "canNudge w" "\<not> nudge"
      "probe = Some (Inr ''busy'')" "w' = watchdog_fail now' stuckCauseBusyUnresponsive w"
  | (nudged) "\<not> idle" "nudgedAt w = None" "now - lastProgress w \<ge> harnessProgressNudgeAfter" "canNudge w" "nudge"
      "nudgeTotal w < maxHarnessContinuationAttemptsTotal"
      "w' = w\<lparr>nudgedAt := Some now, nudgeCount := nudgeCount w + 1, nudgeTotal := nudgeTotal w + 1\<rparr>"
proof -
  have probe: "probeTurnActive probe = (True, True) \<longleftrightarrow> probe = Some (Inr ''busy'')"
    by (auto simp: probeTurnActive_def split: option.split sum.split)
  show thesis
  proof (cases "nudgedAt w")
    case (Some t)
    with assms show ?thesis
      by (cases "idle"; cases "now - t \<ge> harnessProgressFailAfter")
        (auto simp: watchdog_tick_def watchdog_check_def intro: idle waiting silent)
  next
    case None
    show ?thesis
    proof (cases "\<not> idle \<and> now - lastProgress w \<ge> harnessProgressNudgeAfter \<and> canNudge w \<and>
        nudgeCount w < maxHarnessContinuationStreak \<and> nudgeTotal w < maxHarnessContinuationAttemptsTotal")
      case True
      show ?thesis
      proof (cases "probe = Some (Inr ''busy'')")
        case p: True
        with probe have "probeTurnActive probe = (True, True)" by simp
        with True None p assms show ?thesis
          by (cases "now - lastProgress w \<ge> harnessProgressBusyFailAfter")
            (auto simp: watchdog_tick_def watchdog_check_def Let_def intro: busy active)
      next
        case p: False
        obtain a k where ak: "probeTurnActive probe = (a, k)" by (cases "probeTurnActive probe")
        with p probe have "\<not> (k \<and> a)" by auto
        with True None ak assms show ?thesis
          by (intro nudged) (auto simp: watchdog_tick_def watchdog_check_def Let_def split: if_split_asm)
      qed
    next
      case False
      with None assms show ?thesis
        by (auto simp: watchdog_tick_def watchdog_check_def Let_def not_le not_less split: if_split_asm
            intro: idle active exhausted)
    qed
  qed
qed

lemma watch_ok_tick:
  assumes "watchdog_tick idle probe now now' w = (nudge, w')" and "watch_ok w"
  shows "watch_ok w'" and "nudgeTotal w' = nudgeTotal w + of_bool nudge" and "canNudge w' = canNudge w"
proof -
  show "watch_ok w'" using assms(1)
    by (cases rule: tick_cases) (use assms(2) in \<open>auto simp: watch_ok_fail\<close>, auto simp: watch_ok_def)
  show "nudgeTotal w' = nudgeTotal w + of_bool nudge" "canNudge w' = canNudge w"
    using assms(1) by (cases rule: tick_cases; simp)+
qed

lemma watch_ok_step:
  assumes "watch_step w e nudge w'" and "watch_ok w"
  shows "watch_ok w'" and "nudgeTotal w' = nudgeTotal w + of_bool nudge" and "canNudge w' = canNudge w"
  using assms watch_ok_tick watch_ok_record by (induction rule: watch_step.induct) simp_all

lemma watch_ok_run:
  assumes "watch_run w es w'" and "watch_ok w"
  shows "watch_ok w' \<and> nudgeTotal w' = nudgeTotal w + int (length (filter snd es)) \<and> canNudge w' = canNudge w"
  using assms by (induction rule: watch_run.induct) (auto simp: watch_ok_step)

lemma watch_ok_start [simp]: "watch_ok (startProgressWatchdog now c)"
  by (simp add: watch_ok_def startProgressWatchdog_def maxHarnessContinuationAttemptsTotal_def)

text \<open>Without progress an outstanding prompt stays outstanding, and a stopped task stays stopped.\<close>

lemma quiet_step:
  assumes "watch_step w e nudge w'" and "quiet e" and "stuck w \<or> nudgedAt w = Some t"
  shows "stuck w' \<or> nudgedAt w' = Some t"
  using assms
proof (induction rule: watch_step.induct)
  case (ticked w idle probe now now' nudge w')
  from ticked(2) show ?case by (cases rule: tick_cases) (use ticked in auto)
qed (auto simp: record_quiet)

lemma quiet_run:
  assumes "watch_run w es w'" and "list_all (quiet \<circ> fst) es" and "stuck w \<or> nudgedAt w = Some t"
  shows "stuck w' \<or> nudgedAt w' = Some t"
  using assms by (induction rule: watch_run.induct) (auto dest: quiet_step)

section \<open>Properties\<close>

text \<open>
  The watchdog prods an agent at most ten times in a run, however its events and ticks
  interleave, and at most once in a stretch without progress: the streak never passes one, so its
  limit of three is never the reason to stop.
\<close>

theorem watchdog_nudges_bounded:
  assumes "watch_run (startProgressWatchdog now c) es w"
  shows "nudgeTotal w = int (length (filter snd es)) \<and> length (filter snd es) \<le> 10 \<and>
    nudgeCount w \<le> 1 \<and> nudgeCount w < maxHarnessContinuationStreak"
proof -
  have "watch_ok w" "nudgeTotal w = int (length (filter snd es))"
    using watch_ok_run [OF assms watch_ok_start] by (simp_all add: startProgressWatchdog_def)
  then show ?thesis by (auto simp: watch_ok_def watch_consts split: if_split_asm)
qed

definition ex_tick :: "time \<Rightarrow> watch_event" where
  "ex_tick now = Ticked now now False None"

definition ex_nudged :: progressWatchdog where
  "ex_nudged = snd (watchdog_tick False None (130 * second) (130 * second) (startProgressWatchdog 0 True))"

lemma ex_nudge_run: "watch_run (startProgressWatchdog 0 True) [(ex_tick (130 * second), True)] ex_nudged"
proof -
  have "fst (watchdog_tick False None (130 * second) (130 * second) (startProgressWatchdog 0 True))" by code_simp
  then have "watch_step (startProgressWatchdog 0 True) (ex_tick (130 * second)) True ex_nudged"
    unfolding ex_tick_def ex_nudged_def
    by (intro watch_step.ticked) (auto simp: startProgressWatchdog_def prod_eq_iff)
  from watch_run.step [OF watch_run.start this] show ?thesis by simp
qed

theorem watchdog_nudges_bounded_witness:
  "watch_run (startProgressWatchdog 0 True) [(ex_tick (130 * second), True)] ex_nudged \<and> nudgeTotal ex_nudged = 1"
  using ex_nudge_run watchdog_nudges_bounded [OF ex_nudge_run] by simp

text \<open>
  The watchdog stops only a silent agent: at the tick that stops the task the harness is not
  idle, can be continued, and has shown no progress for seven minutes with a prompt unanswered, for
  twelve minutes in a turn it reports as busy, or for two minutes after all ten prompts.
\<close>

theorem watchdog_stops_only_silent_harness:
  assumes "watch_run (startProgressWatchdog now0 c) es w" and "\<not> stuck w"
    and "watch_step w (Ticked now now' idle probe) nudge w'" and "stuck w'"
  shows "\<not> idle \<and> c \<and>
    ((stuckCause w' = stuckCauseSilentAfterNudge \<and> nudgedAt w \<noteq> None \<and> now - lastProgress w \<ge> 420 * second) \<or>
     (stuckCause w' = stuckCauseBusyUnresponsive \<and> probe = Some (Inr ''busy'') \<and> now - lastProgress w \<ge> 720 * second) \<or>
     (stuckCause w' = stuckCauseContinuationAttemptsExhausted \<and> nudgeTotal w = 10 \<and> now - lastProgress w \<ge> 120 * second))"
proof -
  have ok: "watch_ok w" "canNudge w = c"
    using watch_ok_run [OF assms(1) watch_ok_start] by (simp_all add: startProgressWatchdog_def)
  from assms(2,3) have "watchdog_tick idle probe now now' w = (nudge, w')" by (auto elim: watch_stepE)
  then show ?thesis
    by (cases rule: tick_cases) (use assms(2,4) ok in \<open>auto simp: watch_ok_def watch_consts\<close>)
qed

lemma ex_stop_step:
  "\<exists>w. watch_step ex_nudged (ex_tick (430 * second)) False w \<and> stuck w" "\<not> stuck ex_nudged"
proof -
  let ?t = "watchdog_tick False None (430 * second) (430 * second) ex_nudged"
  have e: "\<not> fst ?t" "stuck (snd ?t)" and n: "\<not> stuck ex_nudged" by code_simp+
  show "\<not> stuck ex_nudged" by (rule n)
  have "watch_step ex_nudged (ex_tick (430 * second)) False (snd ?t)"
    unfolding ex_tick_def by (intro watch_step.ticked) (use e n in \<open>auto simp: prod_eq_iff\<close>)
  with e show "\<exists>w. watch_step ex_nudged (ex_tick (430 * second)) False w \<and> stuck w" by blast
qed

theorem watchdog_stops_only_silent_harness_witness:
  "\<exists>w. watch_step ex_nudged (ex_tick (430 * second)) False w \<and> stuck w \<and>
     430 * second - lastProgress ex_nudged \<ge> 120 * second"
proof -
  obtain w where w: "watch_step ex_nudged (ex_tick (430 * second)) False w" "stuck w" using ex_stop_step by blast
  from watchdog_stops_only_silent_harness [OF ex_nudge_run ex_stop_step(2) w(1) [unfolded ex_tick_def] w(2)] w
  show ?thesis by (auto simp: second_def)
qed

text \<open>
  C38. A silent agent is stopped: once a tick finds a harness that can be continued without progress
  for twelve minutes, then, as long as no progress arrives and the harness is not idle, the first
  tick five minutes later finds the task stopped or stops it, whatever the probes answer.
\<close>

theorem silent_harness_is_stopped:
  assumes "watch_run (startProgressWatchdog now0 True) es w"
    and "watch_step w (Ticked t1 t1' False probe) n w1" and "t1 - lastProgress w \<ge> 720 * second"
    and "case nudgedAt w of None \<Rightarrow> True | Some t \<Rightarrow> t \<le> t1"
    and "watch_run w1 es' w2" and "list_all (quiet \<circ> fst) es'"
    and "watch_step w2 (Ticked t2 t2' False probe') n' w3" and "t2 \<ge> t1 + 300 * second"
  shows "stuck w3"
proof -
  have ok: "watch_ok w" "canNudge w"
    using watch_ok_run [OF assms(1) watch_ok_start] by (simp_all add: startProgressWatchdog_def)
  have "\<exists>t \<le> t1. stuck w1 \<or> nudgedAt w1 = Some t"
  proof (cases "stuck w")
    case False
    with assms(2) have "watchdog_tick False probe t1 t1' w = (n, w1)" by (auto elim: watch_stepE)
    then show ?thesis
      by (cases rule: tick_cases) (use assms(3,4) ok in \<open>auto simp: watch_consts second_def\<close>)
  qed (use assms(2) in \<open>auto elim: watch_stepE\<close>)
  then obtain t where t: "t \<le> t1" "stuck w2 \<or> nudgedAt w2 = Some t" using quiet_run [OF assms(5,6)] by blast
  show ?thesis
  proof (cases "stuck w2")
    case False
    with assms(7) have "watchdog_tick False probe' t2 t2' w2 = (n', w3)" by (auto elim: watch_stepE)
    then show ?thesis by (cases rule: tick_cases) (use t False assms(8) in \<open>auto simp: watch_consts\<close>)
  qed (use assms(7) in \<open>auto elim: watch_stepE\<close>)
qed

theorem silent_harness_is_stopped_witness:
  "\<exists>w1 w3. watch_step (startProgressWatchdog 0 True) (ex_tick (720 * second)) True w1 \<and>
     watch_step w1 (ex_tick (1020 * second)) False w3 \<and> stuck w3"
proof -
  let ?w = "startProgressWatchdog 0 True"
  let ?t1 = "watchdog_tick False None (720 * second) (720 * second) ?w"
  let ?t2 = "watchdog_tick False None (1020 * second) (1020 * second) (snd ?t1)"
  have e: "fst ?t1" "\<not> stuck (snd ?t1)" "\<not> stuck ?w" "\<not> fst ?t2" by code_simp+
  have s1: "watch_step ?w (ex_tick (720 * second)) True (snd ?t1)"
    unfolding ex_tick_def by (intro watch_step.ticked) (use e in \<open>auto simp: prod_eq_iff\<close>)
  have s2: "watch_step (snd ?t1) (ex_tick (1020 * second)) False (snd ?t2)"
    unfolding ex_tick_def by (intro watch_step.ticked) (use e in \<open>auto simp: prod_eq_iff\<close>)
  have "stuck (snd ?t2)"
    by (rule silent_harness_is_stopped [OF watch_run.start s1 [unfolded ex_tick_def] _ _ watch_run.start _ s2 [unfolded ex_tick_def]])
      (simp_all add: startProgressWatchdog_def second_def)
  with s1 s2 show ?thesis by blast
qed

text \<open>Where the two classifications agree.\<close>

lemma classify_same:
  "\<not> contains (to_lower message) ''lease expired'' \<Longrightarrow> classifyErrorCategory status message = classifyTaskErrorCategory status message"
  by (simp add: classifyErrorCategory_def classifyTaskErrorCategory_def contains_any_def Let_def)

lemma contains_append: "contains ys sub \<Longrightarrow> contains (xs @ ys) sub" "contains xs sub \<Longrightarrow> contains (xs @ ys) sub"
  by (simp_all add: contains_iff_sublist sublist_appendI sublist_append)

text \<open>
  A task stopped because its continuation prompts are used up is not reported as stuck: the
  word budget in the text of the error is read as an exceeded spending budget, by the runner and by
  the server, unless the last event mentions a sandbox.
\<close>

theorem exhausted_prompts_are_not_stuck:
  assumes "stuck w" and "stuckCause w = stuckCauseContinuationAttemptsExhausted"
  shows "classifyErrorCategory ''error'' (stuckError w) \<in> {''budget_exceeded'', ''sandbox_start_failed'', ''sandbox_crashed''} \<and>
    classifyTaskErrorCategory ''error'' (stuckError w) \<in> {''budget_exceeded'', ''sandbox_start_failed'', ''sandbox_crashed''}"
proof -
  obtain rest where "stuckError w = ''stuck harness: continuation prompt '' @ ''budget'' @ rest"
    using assms by (auto simp: stuckError_def stuckDetails_def)
  moreover have "contains (to_lower ''budget'') ''budget''" by code_simp
  ultimately have "contains (to_lower (stuckError w)) ''budget''"
    by (simp only: to_lower_append contains_append)
  then show ?thesis by (simp add: classifyErrorCategory_def classifyTaskErrorCategory_def contains_any_def Let_def)
qed

definition ex_exhausted :: progressWatchdog where
  "ex_exhausted = snd (watchdog_tick False None (130 * second) (130 * second) ((startProgressWatchdog 0 True)\<lparr>nudgeTotal := 10\<rparr>))"

theorem exhausted_prompts_are_not_stuck_witness:
  "stuckCause ex_exhausted = stuckCauseContinuationAttemptsExhausted \<and>
   classifyErrorCategory ''error'' (stuckError ex_exhausted) \<noteq> ''stuck''"
proof -
  have c: "stuck ex_exhausted" "stuckCause ex_exhausted = stuckCauseContinuationAttemptsExhausted" by code_simp+
  from exhausted_prompts_are_not_stuck [OF this] c show ?thesis by auto
qed

end
