(* ===== verification/Chetter_Runner.thy ===== *)
theory Chetter_Runner
  imports Complex_Main Chetter_Watchdog Chetter_Heartbeat Chetter_Delivery
begin

text \<open>
  The runner process, \<^verbatim>\<open>runner/internal/controller\<close>: the host-pressure gate
  (\<^verbatim>\<open>admission.go\<close>), the isolation gate (\<^verbatim>\<open>isolation.go\<close>), the claim loop
  (\<^verbatim>\<open>runner_rpc.go\<close>), the entry and exit of a task goroutine (\<^verbatim>\<open>runTask\<close>), cancellation, drain
  and the body of a heartbeat (\<^verbatim>\<open>heartbeat.go\<close>). The goroutines interleave: the claim loop has a
  program counter, every task goroutine a stage, and each rule of the step relation is what runs
  between two points where another goroutine can be seen. What happens inside an admitted task
  (workspaces, containers, agents) is not modelled.
\<close>

section \<open>Data\<close>

text \<open>The fields of a claimed task that the modelled operations read.\<close>

record TaskRequest =
  tr_TaskID :: string
  tr_ExecutionID :: string
  tr_ClaimID :: string
  tr_AgentSessionID :: string
  tr_UserPromptID :: string
  tr_GitURL :: string
  tr_GitRef :: string
  tr_Repos :: "repo_ref list"
  tr_GitHubRepo :: string
  tr_ProviderID :: string
  tr_ModelID :: string
  tr_VariantID :: string
  tr_TimeoutSec :: int
  tr_MaxMemoryMB :: int
  tr_MaxCPU :: int
  tr_Env :: "(string \<times> string) list"
  tr_CheckpointAfterSuccess :: bool
  tr_IsolationRequired :: bool
  tr_RunnerMCPToken :: string

record TaskSession =
  ts_TaskID :: string
  ts_ExecutionID :: string
  ts_Request :: TaskRequest
  ts_StartedAt :: time
  ts_PreserveWorkspace :: bool
  ts_PauseOnDrain :: bool
  ts_cancelled :: bool

record runner_config =
  MaxConcurrent :: nat
  MinFreeHostMemoryMB :: int
  MaxHostLoad :: rat
  Backend :: string
  UseGVisor :: bool
  RuntimeClass :: string
  rc_AllowUnisolated :: bool

record resourceSnapshot =
  MemoryAvailableBytes :: "int option"
  Load1 :: "rat option"

section \<open>Gates\<close>

definition admissionPausedMemory :: string where
  "admissionPausedMemory = ''admission_paused:memory_pressure''"

definition admissionPausedLoad :: string where
  "admissionPausedLoad = ''admission_paused:host_load''"

definition admissionPauseReason :: "resourceSnapshot \<Rightarrow> int \<Rightarrow> rat \<Rightarrow> string" where
  "admissionPauseReason snap minFreeMemoryMB maxHostLoad =
     (if minFreeMemoryMB > 0 \<and>
         (case MemoryAvailableBytes snap of None \<Rightarrow> False
          | Some b \<Rightarrow> sgn b * (\<bar>b\<bar> div 1048576) < minFreeMemoryMB) then admissionPausedMemory
      else if maxHostLoad > 0 \<and> (case Load1 snap of None \<Rightarrow> False | Some l \<Rightarrow> l > maxHostLoad) then admissionPausedLoad
      else [])"

definition heartbeatStatus :: "runner_config \<Rightarrow> resourceSnapshot \<Rightarrow> bool \<Rightarrow> string" where
  "heartbeatStatus cfg snap draining =
     (if draining then ''draining''
      else let reason = admissionPauseReason snap (MinFreeHostMemoryMB cfg) (MaxHostLoad cfg) in
        if reason \<noteq> [] then reason else ''active'')"

text \<open>\<open>runsc\<close> tells whether the sandbox runtime is found on the path.\<close>

definition enforcedIsolation :: "runner_config \<Rightarrow> bool \<Rightarrow> bool" where
  "enforcedIsolation cfg runsc =
     (if Backend cfg = ''kubernetes'' then equal_fold (trim_space (RuntimeClass cfg)) ''gvisor''
      else if Backend cfg = ''docker'' then UseGVisor cfg \<and> runsc
      else False)"

definition checkIsolationPolicy :: "runner_config \<Rightarrow> bool \<Rightarrow> TaskRequest \<Rightarrow> string" where
  "checkIsolationPolicy cfg runsc req =
     (if \<not> tr_IsolationRequired req then []
      else if enforcedIsolation cfg runsc then []
      else if rc_AllowUnisolated cfg then []
      else ''task requires enforced isolation (gVisor) but this runner cannot enforce it'')"

definition validateTaskResourceLimits :: "TaskRequest \<Rightarrow> string" where
  "validateTaskResourceLimits req =
     (if tr_MaxMemoryMB req < 0 then
        ''invalid max_memory_mb '' @ show_int (tr_MaxMemoryMB req) @ '': must be greater than or equal to 0''
      else if tr_MaxCPU req < 0 then
        ''invalid max_cpu '' @ show_int (tr_MaxCPU req) @ '': must be greater than or equal to 0''
      else [])"

section \<open>Sessions\<close>

definition executionKey :: "TaskRequest \<Rightarrow> string" where
  "executionKey req = tr_ExecutionID req"

definition findLiveExecutionForTaskLocked :: "string \<Rightarrow> (string \<times> TaskSession) list \<Rightarrow> string" where
  "findLiveExecutionForTaskLocked taskID ts =
     (case find (\<lambda>e. ts_TaskID (snd e) = taskID) ts of None \<Rightarrow> [] | Some e \<Rightarrow> ts_ExecutionID (snd e))"

text \<open>
  The checks at the start of \<^verbatim>\<open>runTask\<close>, in order: the message of the terminal report that refuses
  the task and the category it forces, if any.
\<close>

definition runTask_refusal ::
  "runner_config \<Rightarrow> bool \<Rightarrow> (string \<times> TaskSession) list \<Rightarrow> TaskRequest \<Rightarrow> (string \<times> string) option" where
  "runTask_refusal cfg runsc ts req =
     (if tr_ExecutionID req = [] then Some (''execution_id is required'', [])
      else if validateTaskResourceLimits req \<noteq> [] then Some (validateTaskResourceLimits req, [])
      else if checkIsolationPolicy cfg runsc req \<noteq> [] then Some (checkIsolationPolicy cfg runsc req, ''isolation_unavailable'')
      else let live = findLiveExecutionForTaskLocked (tr_TaskID req) ts in
        if live \<noteq> [] then
          Some (''refusing execution: task '' @ tr_TaskID req @ '' already has a live execution '' @ live @ '' on this runner'', [])
        else None)"

definition new_session :: "time \<Rightarrow> TaskRequest \<Rightarrow> TaskSession" where
  "new_session now req =
     \<lparr>ts_TaskID = tr_TaskID req, ts_ExecutionID = tr_ExecutionID req, ts_Request = req, ts_StartedAt = now,
      ts_PreserveWorkspace = False, ts_PauseOnDrain = False, ts_cancelled = False\<rparr>"

definition cancelTask ::
  "string \<Rightarrow> string \<Rightarrow> string \<Rightarrow> string \<Rightarrow> string list \<times> (string \<times> TaskSession) list \<Rightarrow> string list \<times> (string \<times> TaskSession) list" where
  "cancelTask taskID agentSessionID userPromptID executionID = (\<lambda>(cancelled, ts).
     if executionID \<in> set cancelled then (cancelled, ts)
     else case map_of ts executionID of
       None \<Rightarrow> (cancelled, ts)
     | Some s \<Rightarrow>
         if tr_TaskID (ts_Request s) \<noteq> taskID \<or> tr_AgentSessionID (ts_Request s) \<noteq> agentSessionID \<or>
            tr_UserPromptID (ts_Request s) \<noteq> userPromptID then (cancelled, ts)
         else (executionID # cancelled,
               map (\<lambda>e. if fst e = executionID then (fst e, (snd e)\<lparr>ts_cancelled := True\<rparr>) else e) ts))"

text \<open>What \<^verbatim>\<open>waitDrain\<close> does to the sessions left at its deadline.\<close>

definition force_cancel :: "(string \<times> TaskSession) list \<Rightarrow> (string \<times> TaskSession) list" where
  "force_cancel ts =
     map (\<lambda>e. (fst e,
            let s = snd e; s1 = (if tr_CheckpointAfterSuccess (ts_Request s)
                                 then s\<lparr>ts_PreserveWorkspace := True, ts_PauseOnDrain := True\<rparr> else s)
            in s1\<lparr>ts_cancelled := True\<rparr>)) ts"

section \<open>The process\<close>

datatype claim_loop = Top | Acquiring | Holding | Claiming | Taken TaskRequest | Stopped

datatype task_goroutine = Spawned TaskRequest | Running TaskRequest | Leaving TaskRequest

record runner_proc =
  rp_tasks :: "(string \<times> TaskSession) list"
  rp_totalStarted :: int
  rp_sem :: nat
  rp_draining :: bool
  rp_ctx_done :: bool
  rp_loop :: claim_loop
  rp_pool :: "task_goroutine list"

definition NewRunner :: runner_proc where
  "NewRunner = \<lparr>rp_tasks = [], rp_totalStarted = 0, rp_sem = 0, rp_draining = False, rp_ctx_done = False,
     rp_loop = Top, rp_pool = []\<rparr>"

definition sem_capacity :: "runner_config \<Rightarrow> nat" where
  "sem_capacity cfg = MaxConcurrent cfg + 1"

datatype runner_event =
    Internal
  | Took TaskRequest
  | Dropped TaskRequest
  | Began bool TaskRequest
  | Rejected TaskRequest string string
  | Finished TaskRequest

text \<open>
  The rules \<open>loop_*\<close> and \<open>claim_*\<close> are the claim loop, \<open>task_*\<close> a task goroutine. The response to a
  claim is an error or no task (\<open>claim_failed\<close>), or a task (\<open>claim_took\<close>). A slot of the semaphore is
  taken before a claim, handed to the goroutine on success and given back when it ends.
  \<open>Began\<close> notes whether the sandbox runtime was found on the path when the task began.
\<close>

inductive runner_step :: "runner_config \<Rightarrow> runner_proc \<Rightarrow> runner_event \<Rightarrow> runner_proc \<Rightarrow> bool" for cfg where
  loop_drained: "rp_loop s = Top \<Longrightarrow> rp_draining s \<Longrightarrow> runner_step cfg s Internal (s\<lparr>rp_loop := Stopped\<rparr>)"
| loop_paused: "rp_loop s = Top \<Longrightarrow> \<not> rp_draining s \<Longrightarrow>
    admissionPauseReason snap (MinFreeHostMemoryMB cfg) (MaxHostLoad cfg) \<noteq> [] \<Longrightarrow>
    runner_step cfg s Internal s"
| loop_paused_done: "rp_loop s = Top \<Longrightarrow> \<not> rp_draining s \<Longrightarrow>
    admissionPauseReason snap (MinFreeHostMemoryMB cfg) (MaxHostLoad cfg) \<noteq> [] \<Longrightarrow> rp_ctx_done s \<Longrightarrow>
    runner_step cfg s Internal (s\<lparr>rp_loop := Stopped\<rparr>)"
| loop_clear: "rp_loop s = Top \<Longrightarrow> \<not> rp_draining s \<Longrightarrow>
    admissionPauseReason snap (MinFreeHostMemoryMB cfg) (MaxHostLoad cfg) = [] \<Longrightarrow>
    runner_step cfg s Internal (s\<lparr>rp_loop := Acquiring\<rparr>)"
| loop_acquire: "rp_loop s = Acquiring \<Longrightarrow> rp_sem s < sem_capacity cfg \<Longrightarrow>
    runner_step cfg s Internal (s\<lparr>rp_loop := Holding, rp_sem := rp_sem s + 1\<rparr>)"
| loop_cancelled: "rp_loop s = Acquiring \<Longrightarrow> rp_ctx_done s \<Longrightarrow> runner_step cfg s Internal (s\<lparr>rp_loop := Stopped\<rparr>)"
| loop_release: "rp_loop s = Holding \<Longrightarrow> rp_draining s \<Longrightarrow>
    runner_step cfg s Internal (s\<lparr>rp_loop := Stopped, rp_sem := rp_sem s - 1\<rparr>)"
| loop_claim: "rp_loop s = Holding \<Longrightarrow> \<not> rp_draining s \<Longrightarrow> runner_step cfg s Internal (s\<lparr>rp_loop := Claiming\<rparr>)"
| claim_failed: "rp_loop s = Claiming \<Longrightarrow>
    runner_step cfg s Internal (s\<lparr>rp_loop := (if rp_ctx_done s then Stopped else Top), rp_sem := rp_sem s - 1\<rparr>)"
| claim_took: "rp_loop s = Claiming \<Longrightarrow> tr_TaskID req \<noteq> [] \<Longrightarrow>
    runner_step cfg s (Took req) (s\<lparr>rp_loop := Taken req\<rparr>)"
| claim_dropped: "rp_loop s = Taken req \<Longrightarrow> rp_draining s \<Longrightarrow>
    runner_step cfg s (Dropped req) (s\<lparr>rp_loop := Stopped, rp_sem := rp_sem s - 1\<rparr>)"
| claim_spawned: "rp_loop s = Taken req \<Longrightarrow> \<not> rp_draining s \<Longrightarrow>
    runner_step cfg s Internal (s\<lparr>rp_loop := Top, rp_pool := rp_pool s @ [Spawned req]\<rparr>)"
| task_refused: "rp_pool s = xs @ Spawned req # ys \<Longrightarrow> runTask_refusal cfg runsc (rp_tasks s) req = Some (msg, cat) \<Longrightarrow>
    runner_step cfg s (Rejected req msg cat) (s\<lparr>rp_pool := xs @ ys, rp_sem := rp_sem s - 1\<rparr>)"
| task_began: "rp_pool s = xs @ Spawned req # ys \<Longrightarrow> runTask_refusal cfg runsc (rp_tasks s) req = None \<Longrightarrow>
    runner_step cfg s (Began runsc req)
      (s\<lparr>rp_pool := xs @ Running req # ys, rp_totalStarted := rp_totalStarted s + 1,
         rp_tasks := map_set (executionKey req) (new_session now req) (rp_tasks s)\<rparr>)"
| task_unregistered: "rp_pool s = xs @ Running req # ys \<Longrightarrow>
    runner_step cfg s Internal
      (s\<lparr>rp_pool := xs @ Leaving req # ys, rp_tasks := filter (\<lambda>e. fst e \<noteq> executionKey req) (rp_tasks s)\<rparr>)"
| task_left: "rp_pool s = xs @ Leaving req # ys \<Longrightarrow>
    runner_step cfg s (Finished req) (s\<lparr>rp_pool := xs @ ys, rp_sem := rp_sem s - 1\<rparr>)"
| startDrain: "runner_step cfg s Internal (s\<lparr>rp_draining := True\<rparr>)"
| cancel_context: "runner_step cfg s Internal (s\<lparr>rp_ctx_done := True\<rparr>)"

inductive runner_run :: "runner_config \<Rightarrow> runner_proc \<Rightarrow> runner_event list \<Rightarrow> runner_proc \<Rightarrow> bool" for cfg where
  runner_start: "runner_run cfg s [] s"
| runner_more: "runner_run cfg s es s1 \<Longrightarrow> runner_step cfg s1 e s2 \<Longrightarrow> runner_run cfg s (es @ [e]) s2"

lemma runner_run_induct [consumes 1, case_names runner_start runner_more]:
  assumes "runner_run cfg s0 es s" and "P [] s0"
    and "\<And>es s1 e s2. runner_run cfg s0 es s1 \<Longrightarrow> runner_step cfg s1 e s2 \<Longrightarrow> P es s1 \<Longrightarrow> P (es @ [e]) s2"
  shows "P es s"
  using assms(1)
proof -
  have "runner_run cfg s es s' \<Longrightarrow> s = s0 \<Longrightarrow> P es s'" for s es s'
    by (induction rule: runner_run.induct) (use assms(2,3) in auto)
  with assms(1) show ?thesis by blast
qed

fun running_request :: "task_goroutine \<Rightarrow> TaskRequest list" where
  "running_request (Running req) = [req]"
| "running_request _ = []"

definition running_requests :: "runner_proc \<Rightarrow> TaskRequest list" where
  "running_requests s = concat (map running_request (rp_pool s))"

section \<open>Slots\<close>

definition loop_slot :: "claim_loop \<Rightarrow> nat" where
  "loop_slot l = (case l of Holding \<Rightarrow> 1 | Claiming \<Rightarrow> 1 | Taken _ \<Rightarrow> 1 | _ \<Rightarrow> 0)"

definition slots_ok :: "runner_config \<Rightarrow> runner_proc \<Rightarrow> bool" where
  "slots_ok cfg s = (rp_sem s = length (rp_pool s) + loop_slot (rp_loop s) \<and> rp_sem s \<le> sem_capacity cfg)"

lemma slots_step: "runner_step cfg s e s' \<Longrightarrow> slots_ok cfg s \<Longrightarrow> slots_ok cfg s'"
  by (induction rule: runner_step.induct) (auto simp: slots_ok_def loop_slot_def)

lemma slots_run: "runner_run cfg s es s' \<Longrightarrow> slots_ok cfg s \<Longrightarrow> slots_ok cfg s'"
  by (induction rule: runner_run.induct) (auto dest: slots_step)

lemma length_running: "length (running_requests s) \<le> length (rp_pool s)"
proof -
  have "length (running_request g) \<le> 1" for g by (cases g) simp_all
  then have "length (concat (map running_request gs)) \<le> length gs" for gs
    by (induction gs) (auto, metis One_nat_def Suc_eq_plus1_left add_mono)
  then show ?thesis by (simp add: running_requests_def)
qed

lemma slots_NewRunner [simp]: "slots_ok cfg NewRunner"
  by (simp add: slots_ok_def NewRunner_def loop_slot_def sem_capacity_def)

text \<open>
  The slots of the runner are accounted for: in every state of every run, each task goroutine and
  a claim in progress hold one slot each, no more than one above the configured limit; so at most
  that many tasks run, and the slots reported as available are never negative.
\<close>

theorem runner_concurrency_bounded:
  assumes "runner_run cfg NewRunner es s"
  shows "length (running_requests s) \<le> MaxConcurrent cfg + 1 \<and>
    rp_sem s = length (rp_pool s) + loop_slot (rp_loop s) \<and> rp_sem s \<le> sem_capacity cfg"
  using slots_run [OF assms slots_NewRunner] length_running [of s] by (auto simp: slots_ok_def sem_capacity_def)

section \<open>Filling every slot\<close>

definition ex_request_n :: "nat \<Rightarrow> TaskRequest" where
  "ex_request_n n =
     \<lparr>tr_TaskID = replicate (Suc n) (CHR ''t''), tr_ExecutionID = replicate (Suc n) (CHR ''x''), tr_ClaimID = [], tr_AgentSessionID = [],
      tr_UserPromptID = [], tr_GitURL = [], tr_GitRef = [], tr_Repos = [], tr_GitHubRepo = [], tr_ProviderID = [], tr_ModelID = [],
      tr_VariantID = [], tr_TimeoutSec = 60, tr_MaxMemoryMB = 0, tr_MaxCPU = 0, tr_Env = [], tr_CheckpointAfterSuccess = False,
      tr_IsolationRequired = False, tr_RunnerMCPToken = []\<rparr>"

text \<open>The state with the first \<open>n\<close> of these tasks running and the loop about to claim again.\<close>

definition ex_busy :: "nat \<Rightarrow> runner_proc" where
  "ex_busy n = NewRunner\<lparr>rp_tasks := map (\<lambda>i. (replicate (Suc i) (CHR ''x''), new_session 0 (ex_request_n i))) [0..<n],
     rp_totalStarted := int n, rp_sem := n, rp_pool := map (\<lambda>i. Running (ex_request_n i)) [0..<n]\<rparr>"

lemma runner_trans: "runner_run cfg s1 es' s2 \<Longrightarrow> runner_run cfg s es s1 \<Longrightarrow> \<exists>es. runner_run cfg s es s2"
  by (induction rule: runner_run.induct) (auto intro: runner_run.intros)

lemma claim_and_begin:
  assumes "rp_loop s = Top" and "\<not> rp_draining s" and "rp_sem s < sem_capacity cfg" and "tr_TaskID r \<noteq> []"
    and "runTask_refusal cfg runsc (rp_tasks s) r = None"
  shows "runner_run cfg s [Internal, Internal, Internal, Took r, Internal, Began runsc r]
    (s\<lparr>rp_sem := rp_sem s + 1, rp_pool := rp_pool s @ [Running r], rp_totalStarted := rp_totalStarted s + 1,
       rp_tasks := map_set (executionKey r) (new_session now r) (rp_tasks s)\<rparr>)"
proof -
  let ?none = "\<lparr>MemoryAvailableBytes = None, Load1 = None\<rparr>"
  let ?s1 = "s\<lparr>rp_loop := Acquiring\<rparr>" let ?s2 = "?s1\<lparr>rp_loop := Holding, rp_sem := rp_sem ?s1 + 1\<rparr>"
  let ?s3 = "?s2\<lparr>rp_loop := Claiming\<rparr>" let ?s4 = "?s3\<lparr>rp_loop := Taken r\<rparr>"
  let ?s5 = "?s4\<lparr>rp_loop := Top, rp_pool := rp_pool ?s4 @ [Spawned r]\<rparr>"
  let ?s6 = "?s5\<lparr>rp_pool := rp_pool s @ Running r # [], rp_totalStarted := rp_totalStarted ?s5 + 1,
         rp_tasks := map_set (executionKey r) (new_session now r) (rp_tasks ?s5)\<rparr>"
  have st1: "runner_step cfg s Internal ?s1" using assms by (intro loop_clear [of _ ?none]) (simp_all add: admissionPauseReason_def)
  have st2: "runner_step cfg ?s1 Internal ?s2" using assms by (intro loop_acquire) simp_all
  have st3: "runner_step cfg ?s2 Internal ?s3" using assms by (intro loop_claim) simp_all
  have st4: "runner_step cfg ?s3 (Took r) ?s4" using assms by (intro claim_took) simp_all
  have st5: "runner_step cfg ?s4 Internal ?s5" using assms by (intro claim_spawned) simp_all
  have st6: "runner_step cfg ?s5 (Began runsc r) ?s6" using assms by (intro task_began) simp_all
  from runner_more [OF runner_more [OF runner_more [OF runner_more [OF runner_more [OF runner_more [OF
    runner_start st1] st2] st3] st4] st5] st6]
  have "runner_run cfg s [Internal, Internal, Internal, Took r, Internal, Began runsc r] ?s6" by simp
  moreover have "?s6 = s\<lparr>rp_sem := rp_sem s + 1, rp_pool := rp_pool s @ [Running r], rp_totalStarted := rp_totalStarted s + 1,
       rp_tasks := map_set (executionKey r) (new_session now r) (rp_tasks s)\<rparr>" using assms(1) by simp
  ultimately show ?thesis by (rule back_subst)
qed

lemma ex_busy_more:
  assumes "n \<le> MaxConcurrent cfg"
  shows "runner_run cfg (ex_busy n) [Internal, Internal, Internal, Took (ex_request_n n), Internal, Began True (ex_request_n n)] (ex_busy (Suc n))"
proof -
  let ?s = "ex_busy n" and ?r = "ex_request_n n"
  have f: "rp_loop ?s = Top" "\<not> rp_draining ?s" "rp_sem ?s < sem_capacity cfg"
    using assms by (simp_all add: ex_busy_def NewRunner_def sem_capacity_def)
  have r: "tr_TaskID ?r \<noteq> []" "executionKey ?r = replicate (Suc n) (CHR ''x'')"
    by (simp_all add: ex_request_n_def executionKey_def)
  have keys: "e \<in> set (rp_tasks ?s) \<Longrightarrow> ts_TaskID (snd e) \<noteq> tr_TaskID ?r \<and> fst e \<noteq> executionKey ?r" for e
    by (auto simp: ex_busy_def new_session_def ex_request_n_def executionKey_def dest: arg_cong [of _ _ length])
  then have "find (\<lambda>e. ts_TaskID (snd e) = tr_TaskID ?r) (rp_tasks ?s) = None" by (auto simp: find_None_iff)
  then have ok: "runTask_refusal cfg True (rp_tasks ?s) ?r = None"
    by (simp add: runTask_refusal_def findLiveExecutionForTaskLocked_def)
       (simp add: ex_request_n_def validateTaskResourceLimits_def checkIsolationPolicy_def)
  have "filter (\<lambda>e. fst e \<noteq> executionKey ?r) (rp_tasks ?s) = rp_tasks ?s" using keys by (simp add: filter_id_conv)
  then have "?s\<lparr>rp_sem := rp_sem ?s + 1, rp_pool := rp_pool ?s @ [Running ?r], rp_totalStarted := rp_totalStarted ?s + 1,
       rp_tasks := map_set (executionKey ?r) (new_session 0 ?r) (rp_tasks ?s)\<rparr> = ex_busy (Suc n)"
    using r by (simp add: map_set_def) (simp add: ex_busy_def NewRunner_def)
  with claim_and_begin [OF f r(1) ok, of 0] show ?thesis by (rule back_subst)
qed

text \<open>
  C1. The runner executes one task more than configured: the slot reserved for the poller goes with
  the task it claims, so with a limit of \<open>n\<close> tasks there is a run in which \<open>n + 1\<close> of them run at once.
\<close>

theorem runner_exceeds_configured_concurrency:
  "\<exists>es s. runner_run cfg NewRunner es s \<and> length (running_requests s) = MaxConcurrent cfg + 1"
proof -
  have zero: "ex_busy 0 = NewRunner" by (simp add: ex_busy_def NewRunner_def)
  have "n \<le> MaxConcurrent cfg + 1 \<Longrightarrow> \<exists>es. runner_run cfg NewRunner es (ex_busy n)" for n
  proof (induction n)
    case (Suc n)
    then obtain es where "runner_run cfg NewRunner es (ex_busy n)" by auto
    from runner_trans [OF ex_busy_more this] Suc.prems show ?case by simp
  qed (auto simp: zero intro: runner_start)
  then obtain es where "runner_run cfg NewRunner es (ex_busy (MaxConcurrent cfg + 1))" by blast
  moreover have "length (running_requests (ex_busy n)) = n" for n
  proof -
    have "concat (map (running_request \<circ> (\<lambda>i. Running (ex_request_n i))) xs) = map ex_request_n xs" for xs
      by (induction xs) simp_all
    then show ?thesis by (simp add: running_requests_def ex_busy_def)
  qed
  ultimately show ?thesis by blast
qed

section \<open>Live executions\<close>

fun request_of :: "task_goroutine \<Rightarrow> TaskRequest" where
  "request_of (Spawned req) = req"
| "request_of (Running req) = req"
| "request_of (Leaving req) = req"

definition held_requests :: "runner_proc \<Rightarrow> TaskRequest set" where
  "held_requests s = request_of ` set (rp_pool s) \<union> (case rp_loop s of Taken req \<Rightarrow> {req} | _ \<Rightarrow> {})"

definition belongs :: "(string \<Rightarrow> string) \<Rightarrow> TaskRequest \<Rightarrow> bool" where
  "belongs owner req = (tr_TaskID req = owner (tr_ExecutionID req))"

fun consistent_task :: "(string \<Rightarrow> string) \<Rightarrow> runner_event \<Rightarrow> bool" where
  "consistent_task owner (Took req) = belongs owner req"
| "consistent_task owner _ = True"

definition may_run :: "runner_config \<Rightarrow> TaskRequest \<Rightarrow> bool" where
  "may_run cfg req = (tr_ExecutionID req \<noteq> [])"

definition sessions_ok :: "runner_config \<Rightarrow> (string \<Rightarrow> string) \<Rightarrow> runner_proc \<Rightarrow> bool" where
  "sessions_ok cfg owner s =
     ((\<forall>req \<in> held_requests s. belongs owner req) \<and>
      distinct (map tr_TaskID (running_requests s)) \<and>
      (\<forall>req \<in> set (running_requests s). may_run cfg req) \<and>
      fst ` set (rp_tasks s) = tr_ExecutionID ` set (running_requests s) \<and>
      (\<forall>e \<in> set (rp_tasks s). ts_TaskID (snd e) = owner (fst e) \<and> ts_ExecutionID (snd e) = fst e))"

lemma running_split:
  "rp_pool s = xs @ g # ys \<Longrightarrow> running_requests s = concat (map running_request xs) @ running_request g @ concat (map running_request ys)"
  by (simp add: running_requests_def)

lemma distinct_map_middle: "distinct (map f (xs @ y # ys)) \<Longrightarrow> x \<in> set (xs @ ys) \<Longrightarrow> f x \<noteq> f y"
  by (auto, (metis image_eqI)+)

lemma running_held: "req \<in> set (running_requests s) \<Longrightarrow> req \<in> held_requests s"
proof -
  have "req \<in> set (running_request g) \<Longrightarrow> request_of g = req" for g by (cases g) auto
  then show "req \<in> set (running_requests s) \<Longrightarrow> req \<in> held_requests s" by (force simp: running_requests_def held_requests_def)
qed

lemma admitted_request:
  assumes "runTask_refusal cfg runsc ts req = None"
  shows "may_run cfg req" and "findLiveExecutionForTaskLocked (tr_TaskID req) ts = []"
proof -
  from assms have "tr_ExecutionID req \<noteq> []" "checkIsolationPolicy cfg runsc req = []"
    and live: "findLiveExecutionForTaskLocked (tr_TaskID req) ts = []"
    by (auto simp: runTask_refusal_def Let_def split: if_split_asm)
  then show "may_run cfg req" "findLiveExecutionForTaskLocked (tr_TaskID req) ts = []"
    by (simp_all add: may_run_def)
qed

text \<open>An admitted task has no running execution.\<close>

lemma admitted_is_new:
  assumes "sessions_ok cfg owner s" and "findLiveExecutionForTaskLocked (tr_TaskID req) (rp_tasks s) = []"
  shows "tr_TaskID req \<notin> tr_TaskID ` set (running_requests s)"
proof
  assume "tr_TaskID req \<in> tr_TaskID ` set (running_requests s)"
  then obtain r where r: "r \<in> set (running_requests s)" "tr_TaskID r = tr_TaskID req" by auto
  have "tr_ExecutionID r \<in> fst ` set (rp_tasks s)" using assms(1) r(1) by (auto simp: sessions_ok_def)
  then obtain e where e: "e \<in> set (rp_tasks s)" "fst e = tr_ExecutionID r" by auto
  have "belongs owner r" using assms(1) running_held [OF r(1)] by (auto simp: sessions_ok_def)
  with e r(2) assms(1) have "ts_TaskID (snd e) = tr_TaskID req" by (auto simp: sessions_ok_def belongs_def)
  then obtain e' where e': "find (\<lambda>e. ts_TaskID (snd e) = tr_TaskID req) (rp_tasks s) = Some e'" "e' \<in> set (rp_tasks s)"
    using e(1) find_None_iff [of "\<lambda>e. ts_TaskID (snd e) = tr_TaskID req" "rp_tasks s"] by (metis find_SomeD not_None_eq)
  then have "fst e' = []" using assms by (auto simp: findLiveExecutionForTaskLocked_def sessions_ok_def)
  moreover have "fst e' \<in> tr_ExecutionID ` set (running_requests s)" using assms(1) e'(2) by (auto simp: sessions_ok_def)
  ultimately show False using assms(1) by (auto simp: sessions_ok_def may_run_def)
qed

lemma sessions_step:
  assumes "runner_step cfg s e s'" and "sessions_ok cfg owner s" and "consistent_task owner e"
  shows "sessions_ok cfg owner s'"
  using assms
proof (induction rule: runner_step.induct)
  case (task_began s xs req ys runsc now)
  note ok = \<open>sessions_ok cfg owner s\<close> and pool = task_began(1)
  have new: "tr_TaskID req \<notin> tr_TaskID ` set (running_requests s)" and run: "may_run cfg req"
    using admitted_is_new [OF ok] admitted_request [OF task_began(2)] by auto
  have held: "belongs owner req" using ok pool by (force simp: sessions_ok_def held_requests_def)
  let ?s = "s\<lparr>rp_pool := xs @ Running req # ys, rp_totalStarted := rp_totalStarted s + 1,
         rp_tasks := map_set (executionKey req) (new_session now req) (rp_tasks s)\<rparr>"
  have running: "running_requests ?s = concat (map running_request xs) @ req # concat (map running_request ys)"
    and before: "running_requests s = concat (map running_request xs) @ concat (map running_request ys)"
    using pool by (simp_all add: running_requests_def)
  have same: "held_requests ?s = held_requests s" using pool by (simp add: held_requests_def)
  have "fst ` set (rp_tasks ?s) = insert (tr_ExecutionID req) (fst ` set (rp_tasks s))"
    by (auto simp: map_set_def executionKey_def image_iff)
  moreover have "set (running_requests ?s) = insert req (set (running_requests s))" unfolding running before by auto
  moreover have "distinct (map tr_TaskID (running_requests ?s))" using ok new unfolding sessions_ok_def running before by auto
  moreover have "\<forall>e \<in> set (rp_tasks ?s). ts_TaskID (snd e) = owner (fst e) \<and> ts_ExecutionID (snd e) = fst e"
    using ok held by (auto simp: sessions_ok_def map_set_def new_session_def executionKey_def belongs_def)
  ultimately show ?case using ok run unfolding sessions_ok_def same by (metis image_insert insert_iff)
next
  case (task_unregistered s xs req ys)
  note ok = task_unregistered(2) and pool = task_unregistered(1)
  let ?k = "executionKey req"
  let ?s = "s\<lparr>rp_pool := xs @ Leaving req # ys, rp_tasks := filter (\<lambda>e. fst e \<noteq> ?k) (rp_tasks s)\<rparr>"
  have running: "running_requests s = concat (map running_request xs) @ req # concat (map running_request ys)"
    and after: "running_requests ?s = concat (map running_request xs) @ concat (map running_request ys)"
    using pool by (simp_all add: running_requests_def)
  have same: "held_requests ?s = held_requests s" using pool by (simp add: held_requests_def)
  have other: "tr_ExecutionID r \<noteq> ?k" if "r \<in> set (running_requests ?s)" for r
  proof -
    have "belongs owner r" "belongs owner req"
      using ok running_held [of r s] running_held [of req s] that unfolding after by (auto simp: sessions_ok_def running)
    moreover have "tr_TaskID r \<noteq> tr_TaskID req"
    proof -
      have d: "distinct (map tr_TaskID (concat (map running_request xs) @ req # concat (map running_request ys)))"
        using ok unfolding sessions_ok_def running by blast
      have m: "r \<in> set (concat (map running_request xs) @ concat (map running_request ys))" using that unfolding after .
      show ?thesis by (rule distinct_map_middle [OF d m])
    qed
    ultimately show ?thesis by (auto simp: belongs_def executionKey_def)
  qed
  have split: "set (running_requests s) = insert req (set (running_requests ?s))" unfolding running after by auto
  have k: "tr_ExecutionID req = ?k" by (simp add: executionKey_def)
  have "fst ` {e \<in> set (rp_tasks s). fst e \<noteq> ?k} = fst ` set (rp_tasks s) - {?k}" by auto
  also have "\<dots> = tr_ExecutionID ` set (running_requests s) - {?k}" using ok by (simp add: sessions_ok_def)
  also have "\<dots> = tr_ExecutionID ` set (running_requests ?s)" unfolding split using other k by auto
  finally have keys: "fst ` set (rp_tasks ?s) = tr_ExecutionID ` set (running_requests ?s)" by simp
  have "distinct (map tr_TaskID (running_requests ?s))" using ok unfolding after sessions_ok_def running by auto
  with ok keys show ?case unfolding sessions_ok_def same split by auto
next
  case (task_left s xs req ys)
  then show ?case by (auto simp: sessions_ok_def held_requests_def running_requests_def)
next
  case (task_refused s xs req ys runsc msg cat)
  then show ?case by (auto simp: sessions_ok_def held_requests_def running_requests_def)
qed (auto simp: sessions_ok_def held_requests_def running_requests_def)

lemma sessions_run:
  "runner_run cfg s es s' \<Longrightarrow> sessions_ok cfg owner s \<Longrightarrow> list_all (consistent_task owner) es \<Longrightarrow> sessions_ok cfg owner s'"
  by (induction rule: runner_run.induct) (auto dest: sessions_step)

text \<open>Every running request began in the run, past the isolation gate.\<close>

lemma began_run:
  assumes "runner_run cfg NewRunner es s"
  shows "(\<forall>req \<in> set (running_requests s). \<exists>runsc. Began runsc req \<in> set es) \<and>
    (\<forall>runsc req. Began runsc req \<in> set es \<longrightarrow> checkIsolationPolicy cfg runsc req = [])"
  using assms
proof (induction es s rule: runner_run_induct)
  case (runner_more es s1 e s2)
  have gate: "checkIsolationPolicy cfg runsc req = []" if "e = Began runsc req" for runsc req
    using runner_more(2) that by cases (auto simp: runTask_refusal_def Let_def split: if_split_asm)
  have "req \<in> set (running_requests s1) \<or> (\<exists>runsc. e = Began runsc req)" if "req \<in> set (running_requests s2)" for req
    using runner_more(2) that by cases (auto simp: running_requests_def)
  then have "\<forall>req \<in> set (running_requests s2). \<exists>runsc. Began runsc req \<in> set (es @ [e])"
    using runner_more(3) by (metis Un_iff list.set_intros(1) set_append)
  moreover have "\<forall>runsc req. Began runsc req \<in> set (es @ [e]) \<longrightarrow> checkIsolationPolicy cfg runsc req = []"
    using runner_more(3) gate by auto
  ultimately show ?case by blast
qed (simp_all add: NewRunner_def running_requests_def)

text \<open>
  C34. A runner never runs two executions of one task, nor a task that requires isolation outside a
  sandbox, unless the deployment opted out: in every run in which the server hands out each
  execution for one task, the tasks running at the same time are pairwise different; each of them
  began in the run; and a task that requires isolation began only where the deployment allows
  unisolated tasks, or the runtime class of the pods is gVisor, or, with containers, gVisor is
  configured and the binary of its runtime was found on the path at that moment.
\<close>

theorem runner_runs_each_task_once:
  assumes "runner_run cfg NewRunner es s" and "list_all (consistent_task owner) es"
  shows "distinct (map tr_TaskID (running_requests s)) \<and>
    (\<forall>req \<in> set (running_requests s). \<exists>runsc. Began runsc req \<in> set es) \<and>
    (\<forall>runsc req. Began runsc req \<in> set es \<longrightarrow> tr_IsolationRequired req \<longrightarrow>
       rc_AllowUnisolated cfg \<or> (Backend cfg = ''kubernetes'' \<and> equal_fold (trim_space (RuntimeClass cfg)) ''gvisor'') \<or>
       (Backend cfg = ''docker'' \<and> UseGVisor cfg \<and> runsc))"
proof -
  have "sessions_ok cfg owner NewRunner" by (simp add: sessions_ok_def NewRunner_def held_requests_def running_requests_def)
  from sessions_run [OF assms(1) this assms(2)] have "distinct (map tr_TaskID (running_requests s))" by (simp add: sessions_ok_def)
  moreover have "rc_AllowUnisolated cfg \<or> (Backend cfg = ''kubernetes'' \<and> equal_fold (trim_space (RuntimeClass cfg)) ''gvisor'') \<or>
       (Backend cfg = ''docker'' \<and> UseGVisor cfg \<and> runsc)"
    if "checkIsolationPolicy cfg runsc req = []" and "tr_IsolationRequired req" for runsc req
    using that by (auto simp: checkIsolationPolicy_def enforcedIsolation_def split: if_split_asm)
  ultimately show ?thesis using began_run [OF assms(1)] by blast
qed

definition ex_runner_config :: runner_config where
  "ex_runner_config = \<lparr>MaxConcurrent = 1, MinFreeHostMemoryMB = 0, MaxHostLoad = 0, Backend = ''docker'',
     UseGVisor = False, RuntimeClass = [], rc_AllowUnisolated = False\<rparr>"

lemma ex_runner_run:
  "runner_run ex_runner_config NewRunner [Internal, Internal, Internal, Took (ex_request_n 0), Internal, Began True (ex_request_n 0)] (ex_busy 1)"
  using ex_busy_more [of 0 ex_runner_config] by (simp add: ex_busy_def NewRunner_def)

theorem runner_runs_each_task_once_witness:
  "\<exists>es s. runner_run ex_runner_config NewRunner es s \<and> running_requests s = [ex_request_n 0] \<and>
     distinct (map tr_TaskID (running_requests s)) \<and> (\<exists>runsc. Began runsc (ex_request_n 0) \<in> set es)"
proof -
  have "list_all (consistent_task (\<lambda>_. ''t'')) [Internal, Internal, Internal, Took (ex_request_n 0), Internal, Began True (ex_request_n 0)]"
    by (simp add: belongs_def ex_request_n_def)
  note all = runner_runs_each_task_once [OF ex_runner_run this]
  have "running_requests (ex_busy 1) = [ex_request_n 0]" by (simp add: running_requests_def ex_busy_def)
  with all ex_runner_run show ?thesis by fastforce
qed

theorem runner_concurrency_bounded_witness:
  "runner_run ex_runner_config NewRunner [Internal, Internal, Internal, Took (ex_request_n 0), Internal, Began True (ex_request_n 0)] (ex_busy 1) \<and>
   length (running_requests (ex_busy 1)) \<le> 2"
  using ex_runner_run runner_concurrency_bounded [OF ex_runner_run] by (simp add: ex_runner_config_def)

section \<open>Drain\<close>

lemma drain_step:
  assumes "runner_step cfg s e s'" and "rp_draining s"
  shows "rp_draining s' \<and> length (rp_pool s') \<le> length (rp_pool s) \<and>
    (\<forall>req. Spawned req \<in> set (rp_pool s') \<longrightarrow> Spawned req \<in> set (rp_pool s)) \<and>
    (\<forall>runsc req. e = Began runsc req \<longrightarrow> Spawned req \<in> set (rp_pool s))"
  using assms by (induction rule: runner_step.induct) auto

text \<open>
  A draining runner starts nothing new: from the moment it drains, every execution that begins
  was handed to a task goroutine before, and the number of goroutines never grows.
\<close>

theorem draining_runner_starts_nothing_new:
  assumes "runner_run cfg s es s'" and "rp_draining s"
  shows "(\<forall>runsc req. Began runsc req \<in> set es \<longrightarrow> Spawned req \<in> set (rp_pool s)) \<and> length (rp_pool s') \<le> length (rp_pool s)"
proof -
  from assms have "rp_draining s' \<and> length (rp_pool s') \<le> length (rp_pool s) \<and>
    (\<forall>req. Spawned req \<in> set (rp_pool s') \<longrightarrow> Spawned req \<in> set (rp_pool s)) \<and>
    (\<forall>runsc req. Began runsc req \<in> set es \<longrightarrow> Spawned req \<in> set (rp_pool s))"
  proof (induction rule: runner_run.induct)
    case (runner_more s es s1 e s2)
    then have ih: "rp_draining s1" "length (rp_pool s1) \<le> length (rp_pool s)"
      "\<forall>req. Spawned req \<in> set (rp_pool s1) \<longrightarrow> Spawned req \<in> set (rp_pool s)"
      "\<forall>runsc req. Began runsc req \<in> set es \<longrightarrow> Spawned req \<in> set (rp_pool s)" by auto
    from drain_step [OF runner_more(2) ih(1)] ih show ?case by auto
  qed simp
  then show ?thesis by blast
qed

theorem draining_runner_starts_nothing_new_witness:
  "\<exists>s s'. rp_draining s \<and> runner_run ex_runner_config s [Internal] s' \<and> length (rp_pool s') \<le> length (rp_pool s)"
proof -
  let ?s = "NewRunner\<lparr>rp_draining := True\<rparr>"
  have "runner_step ex_runner_config ?s Internal (?s\<lparr>rp_loop := Stopped\<rparr>)" by (intro loop_drained) (simp_all add: NewRunner_def)
  from runner_more [OF runner_start this] have r: "runner_run ex_runner_config ?s [Internal] (?s\<lparr>rp_loop := Stopped\<rparr>)" by simp
  from draining_runner_starts_nothing_new [OF r] r show ?thesis by (intro exI [of _ ?s] exI [of _ "?s\<lparr>rp_loop := Stopped\<rparr>"]) simp
qed

end
