(* ===== verification/Chetter_Runner_Report.thy ===== *)
theory Chetter_Runner_Report
  imports Chetter_Runner
begin

text \<open>
  What the runner sends to the server and removes on its word: the reports of a task with their
  category and redaction (\<^verbatim>\<open>runner.go\<close>), the delivery of a terminal report under its retry window
  (\<^verbatim>\<open>runner_rpc.go\<close>), the deltas of token usage (\<^verbatim>\<open>runner_task.go\<close>), the deadline of a drain
  (\<^verbatim>\<open>heartbeat.go\<close>), and the removal of workspaces and containers the server declares safe
  (\<^verbatim>\<open>runner.go\<close>). The output of docker, the directory listing and the clock are arguments.
\<close>

section \<open>Reports\<close>

record TaskResponse =
  rs_TaskID :: string
  rs_ExecutionID :: string
  rs_ClaimID :: string
  rs_AgentSessionID :: string
  rs_UserPromptID :: string
  rs_Status :: string
  rs_Summary :: string
  rs_Error :: string
  rs_Artifacts :: "string list"
  rs_ProviderID :: string
  rs_ModelID :: string
  rs_VariantID :: string
  rs_OpenCodeSessionID :: string
  rs_RunnerImageDigest :: string
  rs_SessionExport :: string
  rs_EndedAt :: "time option"
  rs_CheckpointPath :: string
  rs_WorkspacePath :: string
  rs_ErrorCategory :: string
  rs_TokenUsage :: token_usage
  rs_RunnerMCPToken :: string

definition no_usage :: token_usage where
  "no_usage = \<lparr>InputTokens = 0, OutputTokens = 0, CacheReadTokens = 0, CacheWriteTokens = 0, ReasoningTokens = 0, CostCents = 0\<rparr>"

definition empty_response :: TaskResponse where
  "empty_response =
     \<lparr>rs_TaskID = [], rs_ExecutionID = [], rs_ClaimID = [], rs_AgentSessionID = [], rs_UserPromptID = [], rs_Status = [],
      rs_Summary = [], rs_Error = [], rs_Artifacts = [], rs_ProviderID = [], rs_ModelID = [], rs_VariantID = [],
      rs_OpenCodeSessionID = [], rs_RunnerImageDigest = [], rs_SessionExport = [], rs_EndedAt = None, rs_CheckpointPath = [],
      rs_WorkspacePath = [], rs_ErrorCategory = [], rs_TokenUsage = no_usage, rs_RunnerMCPToken = []\<rparr>"

definition isTerminalStatus :: "string \<Rightarrow> bool" where
  "isTerminalStatus status = (status = ''done'' \<or> status = ''error'' \<or> status = ''cancelled'')"

definition truncateSummary :: "string \<Rightarrow> string" where
  "truncateSummary s = (if length s > 8000 then take 8000 s @ [char_of (10 :: nat)] @ ''... (truncated)'' else s)"

text \<open>\<open>getenv\<close> is the environment of the process.\<close>

definition envValue :: "(string \<Rightarrow> string) \<Rightarrow> (string \<times> string) list \<Rightarrow> string \<Rightarrow> string \<Rightarrow> string" where
  "envValue getenv env key fallback =
     (let v = trim_space (case map_of env key of None \<Rightarrow> [] | Some x \<Rightarrow> x) in
      if v \<noteq> [] then v else if trim_space (getenv key) \<noteq> [] then trim_space (getenv key) else fallback)"

definition decorateTaskResponse ::
  "(string \<Rightarrow> string) \<Rightarrow> (string \<times> string) list \<Rightarrow> string \<Rightarrow> TaskResponse \<Rightarrow> TaskResponse" where
  "decorateTaskResponse getenv env sessionID resp =
     (let or_env = (\<lambda>v key. if v = [] then envValue getenv env key [] else v) in
      resp\<lparr>rs_ProviderID := or_env (rs_ProviderID resp) ''LLM_PROVIDER'',
           rs_ModelID := or_env (rs_ModelID resp) ''LLM_MODEL_CODER'',
           rs_VariantID := or_env (rs_VariantID resp) ''LLM_VARIANT'',
           rs_OpenCodeSessionID := (if rs_OpenCodeSessionID resp = [] then sessionID else rs_OpenCodeSessionID resp),
           rs_RunnerImageDigest := (if rs_RunnerImageDigest resp = [] then getenv ''CHETTER_RUNNER_IMAGE_DIGEST''
                                    else rs_RunnerImageDigest resp)\<rparr>)"

definition decorateTaskResponseForRequest ::
  "(string \<Rightarrow> string) \<Rightarrow> TaskRequest \<Rightarrow> string \<Rightarrow> TaskResponse \<Rightarrow> TaskResponse" where
  "decorateTaskResponseForRequest getenv req sessionID resp =
     (let provider = (if rs_ProviderID resp = [] then tr_ProviderID req else rs_ProviderID resp);
          model = (if rs_ModelID resp = [] then tr_ModelID req else rs_ModelID resp);
          (provider', model') =
            (if provider = [] \<and> CHR ''/'' \<in> set model
             then (takeWhile (\<lambda>c. c \<noteq> CHR ''/'') model, tl (dropWhile (\<lambda>c. c \<noteq> CHR ''/'') model))
             else (provider, model)) in
      decorateTaskResponse getenv (tr_Env req) sessionID
        (resp\<lparr>rs_ClaimID := tr_ClaimID req, rs_AgentSessionID := tr_AgentSessionID req,
              rs_RunnerMCPToken := tr_RunnerMCPToken req, rs_UserPromptID := tr_UserPromptID req,
              rs_ProviderID := provider', rs_ModelID := model',
              rs_VariantID := (if rs_VariantID resp = [] then tr_VariantID req else rs_VariantID resp)\<rparr>))"

definition finishStatusResponse :: "time \<Rightarrow> string \<Rightarrow> string \<Rightarrow> TaskResponse \<Rightarrow> TaskResponse" where
  "finishStatusResponse now status message resp =
     (let r1 = (if isTerminalStatus status then resp\<lparr>rs_EndedAt := Some now\<rparr> else resp) in
      if status = ''error'' \<or> status = ''cancelled'' then
        r1\<lparr>rs_Error := message,
           rs_ErrorCategory := (if rs_ErrorCategory r1 = [] then classifyErrorCategory status message else rs_ErrorCategory r1)\<rparr>
      else r1\<lparr>rs_Summary := message\<rparr>)"

definition redactRunnerMCPToken :: "TaskResponse \<Rightarrow> TaskResponse" where
  "redactRunnerMCPToken resp =
     (let token = rs_RunnerMCPToken resp; clean = replace_all token ''[REDACTED]'' in
      if token = [] then resp
      else resp\<lparr>rs_Summary := clean (rs_Summary resp), rs_Error := clean (rs_Error resp),
                rs_SessionExport := clean (rs_SessionExport resp), rs_Artifacts := map clean (rs_Artifacts resp),
                rs_RunnerMCPToken := []\<rparr>)"

text \<open>The response that is reported, with a category forced on it or none.\<close>

definition publishStatusWithErrorCategory ::
  "(string \<Rightarrow> string) \<Rightarrow> time \<Rightarrow> TaskRequest \<Rightarrow> string \<Rightarrow> string \<Rightarrow> string \<Rightarrow> string list \<Rightarrow> TaskResponse" where
  "publishStatusWithErrorCategory getenv now req status message errorCategory artifacts =
     redactRunnerMCPToken (finishStatusResponse now status message
       (decorateTaskResponseForRequest getenv req []
         (empty_response\<lparr>rs_TaskID := tr_TaskID req, rs_ExecutionID := tr_ExecutionID req, rs_AgentSessionID := tr_AgentSessionID req,
           rs_UserPromptID := tr_UserPromptID req, rs_Status := status, rs_Artifacts := artifacts, rs_ErrorCategory := errorCategory\<rparr>)))"

definition publishStatusWithToken ::
  "(string \<Rightarrow> string) \<Rightarrow> time \<Rightarrow> TaskRequest \<Rightarrow> string \<Rightarrow> string \<Rightarrow> string list \<Rightarrow> token_usage \<Rightarrow> TaskResponse" where
  "publishStatusWithToken getenv now req status message artifacts usage =
     redactRunnerMCPToken (finishStatusResponse now status message
       (decorateTaskResponseForRequest getenv req []
         (empty_response\<lparr>rs_TaskID := tr_TaskID req, rs_ExecutionID := tr_ExecutionID req, rs_AgentSessionID := tr_AgentSessionID req,
           rs_UserPromptID := tr_UserPromptID req, rs_Status := status, rs_Artifacts := artifacts, rs_TokenUsage := usage\<rparr>)))"

definition publishStatusForRequest ::
  "(string \<Rightarrow> string) \<Rightarrow> time \<Rightarrow> TaskRequest \<Rightarrow> string \<Rightarrow> string \<Rightarrow> string list \<Rightarrow> TaskResponse" where
  "publishStatusForRequest getenv now req status message artifacts =
     publishStatusWithToken getenv now req status message artifacts no_usage"

text \<open>
  The message of a report, as \<^verbatim>\<open>dispatchReport\<close> builds it; \<open>format_time\<close> prints a time stamp. The
  start of the execution is set by no response the model covers; artifacts are not part of the
  message model.
\<close>

definition report_message :: "(time \<Rightarrow> string) \<Rightarrow> TaskResponse \<Rightarrow> task_event_msg" where
  "report_message format_time resp =
     \<lparr>TaskId = rs_TaskID resp, Status = rs_Status resp, Summary = rs_Summary resp, Error = rs_Error resp,
      ProviderId = rs_ProviderID resp, ModelId = rs_ModelID resp, VariantId = rs_VariantID resp,
      OpencodeSessionId = rs_OpenCodeSessionID resp, RunnerImageDigest = rs_RunnerImageDigest resp, StartedAt = [],
      EndedAt = (case rs_EndedAt resp of None \<Rightarrow> [] | Some t \<Rightarrow> format_time t), PayloadJson = [],
      SessionExport = rs_SessionExport resp, CheckpointPath = rs_CheckpointPath resp, WorkspacePath = rs_WorkspacePath resp,
      ErrorCategory = rs_ErrorCategory resp, TokenUsage = Some (rs_TokenUsage resp), ExecutionId = rs_ExecutionID resp,
      AgentSessionId = rs_AgentSessionID resp, UserPromptId = rs_UserPromptID resp, ClaimId = rs_ClaimID resp\<rparr>"

section \<open>Delivery of a terminal report\<close>

text \<open>
  One attempt: the deadline of a forced cleanup as read before it, whether the server accepts the
  report, and how long the server takes to answer (at least no time). The call is cut off at its
  timeout of ten seconds or what remains.
\<close>

record report_try =
  rt_hard :: "time option"
  rt_ok :: bool
  rt_took :: time

definition terminalReportRetryWindow :: time where
  "terminalReportRetryWindow = 60 * second"

definition clamp_deadline :: "time option \<Rightarrow> time \<Rightarrow> time" where
  "clamp_deadline hard deadline = (case hard of None \<Rightarrow> deadline | Some h \<Rightarrow> if h < deadline then h else deadline)"

text \<open>Whether the report was accepted, how many attempts were made, and when the loop ended.\<close>

function dispatch_loop :: "(nat \<Rightarrow> report_try) \<Rightarrow> nat \<Rightarrow> time \<Rightarrow> time \<Rightarrow> bool \<times> nat \<times> time" where
  "dispatch_loop tries n now deadline0 =
     (let deadline = clamp_deadline (rt_hard (tries n)) deadline0; remaining = deadline - now in
      if remaining \<le> 0 then (False, n, now)
      else
        let attempt = (if remaining < 10 * second then remaining else 10 * second);
            answered = max 0 (rt_took (tries n)); now1 = now + min answered attempt in
        if rt_ok (tries n) \<and> answered \<le> attempt then (True, Suc n, now1)
        else if now1 > deadline then (False, Suc n, now1)
        else dispatch_loop tries (Suc n) (now1 + (if 2 * second > remaining then remaining else 2 * second)) deadline)"
  by pat_completeness auto

lemma clamp_le: "clamp_deadline hard deadline \<le> deadline"
  by (simp add: clamp_deadline_def split: option.split)

termination dispatch_loop
proof (relation "measure (\<lambda>(tries, n, now, deadline). nat (deadline - now))", simp, goal_cases)
  case (1 tries n now deadline0 deadline remaining attempt answered now1)
  have "deadline \<le> deadline0" using clamp_le 1(1) by simp
  moreover have "now \<le> now1" "0 < (if 2 * second > remaining then remaining else 2 * second)"
    using 1 by (auto simp: second_def)
  ultimately show ?case using 1(2,3) by simp
qed

declare dispatch_loop.simps [simp del]

definition dispatchReport :: "(nat \<Rightarrow> report_try) \<Rightarrow> time \<Rightarrow> bool \<Rightarrow> bool \<times> nat \<times> time" where
  "dispatchReport tries now terminal =
     (if \<not> terminal then
        (let answered = max 0 (rt_took (tries 0)) in
         (rt_ok (tries 0) \<and> answered \<le> 10 * second, 1, now + min answered (10 * second)))
      else dispatch_loop tries 0 now (now + terminalReportRetryWindow))"

text \<open>
  One round of the loop: the budget is used up, the report is accepted, the deadline has passed
  after a failed call, or the loop goes on after a pause of two seconds or all that remained.
\<close>

lemma dispatch_cases:
  assumes "dispatch_loop tries n now deadline0 = (ok, m, t)"
  obtains (spent) "\<not> ok" "m = n" "t = now"
  | (accepted) "ok" "m = Suc n" "t \<le> deadline0" "rt_ok (tries n)" "now < deadline0"
  | (late) "\<not> ok" "m = Suc n" "t \<le> deadline0" "now < deadline0"
  | (again) deadline now1 where "deadline \<le> deadline0" "now < deadline" "now \<le> now1" "now1 \<le> deadline"
      "dispatch_loop tries (Suc n) (now1 + min (deadline - now) (2 * second)) deadline = (ok, m, t)"
proof -
  let ?d = "clamp_deadline (rt_hard (tries n)) deadline0"
  let ?attempt = "if ?d - now < 10 * second then ?d - now else 10 * second"
  let ?answered = "max 0 (rt_took (tries n))"
  let ?now1 = "now + min ?answered ?attempt"
  have le: "?d \<le> deadline0" by (rule clamp_le)
  have end1: "?now1 \<le> ?d" if "now < ?d" using that by (auto simp: min_def)
  have now1: "now \<le> ?now1" if "now < ?d" using that by (auto simp: second_def)
  consider "?d - now \<le> 0" | "0 < ?d - now" "rt_ok (tries n) \<and> ?answered \<le> ?attempt"
    | "0 < ?d - now" "\<not> (rt_ok (tries n) \<and> ?answered \<le> ?attempt)" by linarith
  then show thesis
  proof cases
    case 1
    with assms show ?thesis by (intro spent) (simp_all add: dispatch_loop.simps [of tries n now] Let_def)
  next
    case 2
    with assms have r: "ok" "m = Suc n" "t = ?now1" by (simp_all add: dispatch_loop.simps [of tries n now] Let_def)
    show ?thesis using r 2 le end1 by (intro accepted) auto
  next
    case 3
    have p: "(if 2 * second > ?d - now then ?d - now else 2 * second) = min (?d - now) (2 * second)" by (auto simp: min_def)
    have "dispatch_loop tries (Suc n) (?now1 + min (?d - now) (2 * second)) ?d = (ok, m, t)"
      using assms 3 end1 unfolding dispatch_loop.simps [of tries n now] Let_def p by (simp split: if_split_asm)
    with 3 le end1 now1 show ?thesis by (intro again [of ?d ?now1]) auto
  qed
qed

lemma dispatch_attempts:
  "dispatch_loop tries n now deadline = (ok, m, t) \<Longrightarrow> deadline - now \<le> 2 * second * int k \<Longrightarrow> m \<le> n + k"
proof (induction k arbitrary: n now deadline)
  case 0
  from 0(1) show ?case by (cases rule: dispatch_cases) (use 0(2) in auto)
next
  case (Suc k)
  from Suc.prems(1) show ?case
  proof (cases rule: dispatch_cases)
    case (again d now1)
    have "d - (now1 + min (d - now) (2 * second)) \<le> 2 * second * int k"
      using again(1-4) Suc.prems(2) by (auto simp: min_def algebra_simps second_def)
    from Suc.IH [OF again(5) this] show ?thesis by simp
  qed (use Suc.prems in auto)
qed

lemma dispatch_end:
  "dispatch_loop tries n now deadline = (ok, m, t) \<Longrightarrow> now \<le> deadline + 2 * second \<Longrightarrow>
   deadline - now \<le> 2 * second * int k \<Longrightarrow> t \<le> deadline + 2 * second \<and> (ok \<longrightarrow> n < m \<and> rt_ok (tries (m - 1)))"
proof (induction k arbitrary: n now deadline)
  case 0
  from 0(1) show ?case by (cases rule: dispatch_cases) (use 0 in \<open>auto simp: second_def\<close>)
next
  case (Suc k)
  from Suc.prems(1) show ?case
  proof (cases rule: dispatch_cases)
    case (again d now1)
    have "d - (now1 + min (d - now) (2 * second)) \<le> 2 * second * int k"
      using again(1-4) Suc.prems(3) by (auto simp: min_def algebra_simps second_def)
    moreover have "now1 + min (d - now) (2 * second) \<le> d + 2 * second" using again(4) by (auto simp: min_def)
    ultimately have "t \<le> d + 2 * second \<and> (ok \<longrightarrow> Suc n < m \<and> rt_ok (tries (m - 1)))" using Suc.IH [OF again(5)] by simp
    with again(1) show ?thesis by auto
  qed (use Suc.prems in \<open>auto simp: second_def\<close>)
qed

text \<open>
  C37. The delivery of a terminal report ends: whatever the server answers and whenever a forced
  cleanup starts, it makes at most thirty attempts and returns within sixty-two seconds; it counts
  as delivered only if the server accepted its last attempt.
\<close>

theorem terminal_report_ends:
  assumes "dispatchReport tries now True = (ok, m, t)"
  shows "m \<le> 30 \<and> t \<le> now + 62 * second \<and> (ok \<longrightarrow> 0 < m \<and> rt_ok (tries (m - 1)))"
proof -
  have run: "dispatch_loop tries 0 now (now + terminalReportRetryWindow) = (ok, m, t)"
    using assms by (simp add: dispatchReport_def)
  have b: "now + terminalReportRetryWindow - now \<le> 2 * second * int 30" by (simp add: terminalReportRetryWindow_def)
  from dispatch_attempts [OF run b] dispatch_end [OF run _ b] show ?thesis by (simp add: terminalReportRetryWindow_def second_def)
qed

theorem terminal_report_ends_witness:
  "\<exists>m t. dispatchReport (\<lambda>i. \<lparr>rt_hard = None, rt_ok = (i = 1), rt_took = second\<rparr>) 0 True = (True, m, t) \<and> 0 < m \<and> m \<le> 30"
proof -
  let ?tries = "\<lambda>i. \<lparr>rt_hard = None, rt_ok = (i = 1), rt_took = second\<rparr>"
  obtain ok m t where r: "dispatchReport ?tries 0 True = (ok, m, t)" by (cases "dispatchReport ?tries 0 True")
  have "fst (dispatchReport ?tries 0 True)" by code_simp
  with r have "ok" by simp
  with r terminal_report_ends [OF r] show ?thesis by auto
qed

text \<open>
  The pause after a failed attempt is not cut to the budget left: with ten seconds left before the
  forced end and an attempt that fails after nine, the loop sleeps past the end.
\<close>

lemma report_outlives_hard_kill:
  "dispatchReport (\<lambda>i. \<lparr>rt_hard = Some (10 * second), rt_ok = False, rt_took = 9 * second\<rparr>) 0 True = (False, 1, 11 * second)"
  by (simp add: dispatchReport_def terminalReportRetryWindow_def clamp_deadline_def second_def dispatch_loop.simps)

section \<open>Token usage\<close>

record tokenUsageAccumulator =
  ta_usage :: token_usage
  ta_lastFlushed :: token_usage

definition usage_with :: "(int \<Rightarrow> int \<Rightarrow> int) \<Rightarrow> token_usage \<Rightarrow> token_usage \<Rightarrow> token_usage" where
  "usage_with f a b =
     \<lparr>InputTokens = f (InputTokens a) (InputTokens b), OutputTokens = f (OutputTokens a) (OutputTokens b),
      CacheReadTokens = f (CacheReadTokens a) (CacheReadTokens b), CacheWriteTokens = f (CacheWriteTokens a) (CacheWriteTokens b),
      ReasoningTokens = f (ReasoningTokens a) (ReasoningTokens b), CostCents = f (CostCents a) (CostCents b)\<rparr>"

definition accumulator_add :: "token_usage \<Rightarrow> tokenUsageAccumulator \<Rightarrow> tokenUsageAccumulator" where
  "accumulator_add usage a = a\<lparr>ta_usage := usage_with (+) (ta_usage a) usage\<rparr>"

definition accumulator_delta :: "tokenUsageAccumulator \<Rightarrow> token_usage \<times> tokenUsageAccumulator" where
  "accumulator_delta a =
     (usage_with (\<lambda>x y. max (x - y) 0) (ta_usage a) (ta_lastFlushed a), a\<lparr>ta_lastFlushed := ta_usage a\<rparr>)"

text \<open>A history of usage recorded (\<open>Inl\<close>) and deltas reported (\<open>Inr\<close>), with the sum of what was reported.\<close>

fun account :: "(token_usage + unit) list \<Rightarrow> tokenUsageAccumulator \<Rightarrow> token_usage \<times> tokenUsageAccumulator" where
  "account [] a = (no_usage, a)"
| "account (Inl u # es) a = account es (accumulator_add u a)"
| "account (Inr _ # es) a =
     (let (d, a1) = accumulator_delta a; (rest, a2) = account es a1 in (usage_with (+) d rest, a2))"

fun recorded_usage :: "(token_usage + unit) list \<Rightarrow> token_usage" where
  "recorded_usage [] = no_usage"
| "recorded_usage (Inl u # es) = usage_with (+) u (recorded_usage es)"
| "recorded_usage (Inr _ # es) = recorded_usage es"

definition usage_nonneg :: "token_usage \<Rightarrow> bool" where
  "usage_nonneg u = (0 \<le> InputTokens u \<and> 0 \<le> OutputTokens u \<and> 0 \<le> CacheReadTokens u \<and> 0 \<le> CacheWriteTokens u \<and>
     0 \<le> ReasoningTokens u \<and> 0 \<le> CostCents u)"

definition unflushed :: "tokenUsageAccumulator \<Rightarrow> token_usage" where
  "unflushed a = usage_with (-) (ta_usage a) (ta_lastFlushed a)"

lemmas usage_defs = usage_with_def usage_nonneg_def unflushed_def accumulator_add_def accumulator_delta_def no_usage_def

lemma account_sums:
  assumes "usage_nonneg (unflushed a)" and "list_all (\<lambda>e. case e of Inl u \<Rightarrow> usage_nonneg u | Inr _ \<Rightarrow> True) es"
    and "account es a = (reported, a')"
  shows "usage_with (+) reported (unflushed a') = usage_with (+) (unflushed a) (recorded_usage es) \<and> usage_nonneg (unflushed a')"
  using assms
proof (induction es arbitrary: a reported a')
  case Nil
  then show ?case by (simp add: usage_defs)
next
  case (Cons e es)
  show ?case
  proof (cases e)
    case (Inl u)
    with Cons.prems have "usage_nonneg (unflushed (accumulator_add u a))" by (auto simp: usage_defs)
    from Cons.IH [OF this] Cons.prems Inl show ?thesis by (auto simp: usage_defs)
  next
    case (Inr x)
    obtain rest a2 where r: "account es (a\<lparr>ta_lastFlushed := ta_usage a\<rparr>) = (rest, a2)" by fastforce
    have "usage_nonneg (unflushed (a\<lparr>ta_lastFlushed := ta_usage a\<rparr>))" by (simp add: usage_defs)
    from Cons.IH [OF this _ r] Cons.prems Inr r show ?thesis
      by (auto simp: usage_defs Let_def max_def)
  qed
qed

text \<open>
  Token usage is reported exactly once: however the recording of usage and the reports of deltas
  interleave, once everything recorded has been flushed the deltas add up to what was recorded.
\<close>

theorem token_deltas_add_up:
  assumes "list_all (\<lambda>e. case e of Inl u \<Rightarrow> usage_nonneg u | Inr _ \<Rightarrow> True) es"
    and "account (es @ [Inr ()]) \<lparr>ta_usage = no_usage, ta_lastFlushed = no_usage\<rparr> = (reported, a)"
  shows "reported = recorded_usage es"
proof -
  have rec: "recorded_usage (es @ [Inr ()]) = recorded_usage es" by (induction es rule: recorded_usage.induct) simp_all
  have flushed: "unflushed (snd (account (es @ [Inr ()]) x)) = no_usage" for x
    by (induction es x rule: account.induct) (simp_all add: usage_defs Let_def case_prod_unfold)
  have start: "usage_nonneg (unflushed \<lparr>ta_usage = no_usage, ta_lastFlushed = no_usage\<rparr>)" by (simp add: usage_defs)
  have all: "list_all (\<lambda>e. case e of Inl u \<Rightarrow> usage_nonneg u | Inr _ \<Rightarrow> True) (es @ [Inr ()])" using assms(1) by simp
  from account_sums [OF start all assms(2)] flushed [of "\<lparr>ta_usage = no_usage, ta_lastFlushed = no_usage\<rparr>"] rec assms(2)
  show ?thesis by (simp add: usage_defs)
qed

definition ex_usage :: "int \<Rightarrow> token_usage" where
  "ex_usage n = no_usage\<lparr>InputTokens := n\<rparr>"

theorem token_deltas_add_up_witness:
  "fst (account [Inl (ex_usage 3), Inr (), Inl (ex_usage 4), Inr ()] \<lparr>ta_usage = no_usage, ta_lastFlushed = no_usage\<rparr>) = ex_usage 7"
proof -
  let ?es = "[Inl (ex_usage 3), Inr (), Inl (ex_usage 4)]"
  obtain r a where c: "account (?es @ [Inr ()]) \<lparr>ta_usage = no_usage, ta_lastFlushed = no_usage\<rparr> = (r, a)" by fastforce
  have "r = recorded_usage ?es"
    by (rule token_deltas_add_up [OF _ c]) (simp add: ex_usage_def usage_defs)
  with c show ?thesis by (simp add: ex_usage_def usage_defs)
qed

section \<open>What leaves the runner\<close>

text \<open>
  The token of an execution's local tool server never leaves the runner: in what is reported, no
  text field contains it and the field that carried it is empty, for a token that is not itself a
  part of the replacement text.
\<close>

theorem runner_token_stays_local:
  assumes "plain_secret (tr_RunnerMCPToken req)"
    and "resp = publishStatusWithErrorCategory getenv now req status message category artifacts \<or>
         resp = publishStatusWithToken getenv now req status message artifacts usage"
  shows "rs_RunnerMCPToken resp = [] \<and>
    list_all (\<lambda>s. \<not> contains s (tr_RunnerMCPToken req)) (rs_Summary resp # rs_Error resp # rs_SessionExport resp # rs_Artifacts resp)"
proof -
  have clean: "rs_RunnerMCPToken (redactRunnerMCPToken r) = [] \<and>
      list_all (\<lambda>s. \<not> contains s v) (rs_Summary (redactRunnerMCPToken r) # rs_Error (redactRunnerMCPToken r) #
        rs_SessionExport (redactRunnerMCPToken r) # rs_Artifacts (redactRunnerMCPToken r))"
    if "rs_RunnerMCPToken r = v" "plain_secret v" for r v
  proof -
    have "v \<noteq> []" using that(2) by (auto simp: plain_secret_def)
    with that replace_removes [OF that(2)] show ?thesis
      by (auto simp: redactRunnerMCPToken_def Let_def list_all_iff redacted_def)
  qed
  have token: "rs_RunnerMCPToken (finishStatusResponse now st msg (decorateTaskResponseForRequest getenv req i r)) = tr_RunnerMCPToken req" for st msg i r
    by (simp add: finishStatusResponse_def decorateTaskResponseForRequest_def decorateTaskResponse_def Let_def case_prod_unfold)
  from assms(2) show ?thesis
    unfolding publishStatusWithErrorCategory_def publishStatusWithToken_def using clean [OF token assms(1)] by blast
qed

definition ex_token_request :: TaskRequest where
  "ex_token_request = (ex_request_n 0)\<lparr>tr_RunnerMCPToken := ''s3cret''\<rparr>"

theorem runner_token_stays_local_witness:
  "rs_Error (publishStatusWithErrorCategory (\<lambda>_. []) 0 ex_token_request ''error'' ''bad s3cret'' [] []) = ''bad [REDACTED]'' \<and>
   \<not> contains (rs_Error (publishStatusWithErrorCategory (\<lambda>_. []) 0 ex_token_request ''error'' ''bad s3cret'' [] [])) ''s3cret''"
proof -
  let ?r = "publishStatusWithErrorCategory (\<lambda>_. []) 0 ex_token_request ''error'' ''bad s3cret'' [] []"
  have p: "plain_secret (tr_RunnerMCPToken ex_token_request)" "tr_RunnerMCPToken ex_token_request = ''s3cret''"
    and e: "rs_Error ?r = ''bad [REDACTED]''" by code_simp+
  from runner_token_stays_local [OF p(1) disjI1 [OF refl], where getenv = "\<lambda>_. []" and now = 0 and status = "''error''"
      and message = "''bad s3cret''" and category = "[]" and artifacts = "[]"] p(2) e
  show ?thesis by simp
qed

text \<open>
  A task refused for want of isolation when it arrives is not recorded as such: the category the runner sends is
  unknown to the server, which classifies the text of the error and stores a runtime error.
\<close>

theorem isolation_refusal_is_misclassified:
  assumes "runTask_refusal cfg runsc ts req = Some (message, ''isolation_unavailable'')" and "tr_RunnerMCPToken req = []"
  shows "event_error_category (report_message format_time
      (publishStatusWithErrorCategory getenv now req ''error'' message ''isolation_unavailable'' [])) = ''runtime_error''"
proof -
  have msg: "message = ''task requires enforced isolation (gVisor) but this runner cannot enforce it''"
    using assms by (auto simp: runTask_refusal_def checkIsolationPolicy_def Let_def split: if_split_asm)
  have cat: "normalizeErrorCategory ''isolation_unavailable'' = []" "statusIsErrorCategoryCandidate ''error''" by code_simp+
  let ?r = "publishStatusWithErrorCategory getenv now req ''error'' message ''isolation_unavailable'' []"
  have f: "rs_ErrorCategory ?r = ''isolation_unavailable''" "rs_Status ?r = ''error''"
    "rs_Error ?r = message" using assms(2)
    by (simp_all add: publishStatusWithErrorCategory_def redactRunnerMCPToken_def finishStatusResponse_def isTerminalStatus_def
        decorateTaskResponseForRequest_def decorateTaskResponse_def empty_response_def Let_def case_prod_unfold)
  have "classifyTaskErrorCategory ''error'' message = ''runtime_error''" unfolding msg by code_simp
  with cat f show ?thesis by (simp add: event_error_category_def event_status_def report_message_def)
qed

definition ex_isolated_request :: TaskRequest where
  "ex_isolated_request = (ex_request_n 0)\<lparr>tr_IsolationRequired := True\<rparr>"

theorem isolation_refusal_is_misclassified_witness:
  "\<exists>message. runTask_refusal ex_runner_config True [] ex_isolated_request = Some (message, ''isolation_unavailable'') \<and>
     event_error_category (report_message (\<lambda>_. []) (publishStatusWithErrorCategory (\<lambda>_. []) 0 ex_isolated_request ''error'' message
       ''isolation_unavailable'' [])) = ''runtime_error''"
proof -
  have "runTask_refusal ex_runner_config True [] ex_isolated_request =
      Some (checkIsolationPolicy ex_runner_config True ex_isolated_request, ''isolation_unavailable'')"
    and t: "tr_RunnerMCPToken ex_isolated_request = []" by code_simp+
  with isolation_refusal_is_misclassified [OF this] show ?thesis by blast
qed

section \<open>Counters\<close>

record terminal_state =
  terminalTasks :: "string list"
  totalCompleted :: int
  totalErrors :: int

definition recordTerminalStatus :: "string \<Rightarrow> string \<Rightarrow> terminal_state \<Rightarrow> terminal_state" where
  "recordTerminalStatus executionID status s =
     (if executionID = [] \<or> (status \<noteq> ''done'' \<and> status \<noteq> ''error'' \<and> status \<noteq> ''cancelled'') then s
      else if executionID \<in> set (terminalTasks s) then s
      else let s1 = s\<lparr>terminalTasks := terminalTasks s @ [executionID]\<rparr> in
        if status = ''done'' then s1\<lparr>totalCompleted := totalCompleted s1 + 1\<rparr>
        else if status = ''cancelled'' then s1
        else s1\<lparr>totalErrors := totalErrors s1 + 1\<rparr>)"

lemma recordTerminalStatus_once:
  "recordTerminalStatus i st' (recordTerminalStatus i st s) = recordTerminalStatus i st s" if "isTerminalStatus st"
  using that by (auto simp: recordTerminalStatus_def isTerminalStatus_def Let_def)

lemma recordTerminalStatus_counts:
  assumes "distinct (terminalTasks s) \<and> totalCompleted s + totalErrors s \<le> int (length (terminalTasks s))"
  shows "distinct (terminalTasks (recordTerminalStatus i st s)) \<and>
    totalCompleted (recordTerminalStatus i st s) + totalErrors (recordTerminalStatus i st s)
      \<le> int (length (terminalTasks (recordTerminalStatus i st s)))"
  using assms by (auto simp: recordTerminalStatus_def Let_def)

section \<open>The deadline of a drain\<close>

text \<open>\<^verbatim>\<open>strconv.Atoi\<close> on 64 bits.\<close>

definition Atoi :: "string \<Rightarrow> int option" where
  "Atoi s =
     (let (neg, digits) = (case s of [] \<Rightarrow> (False, [])
          | c # cs \<Rightarrow> if c = CHR ''-'' then (True, cs) else if c = CHR ''+'' then (False, cs) else (False, s)) in
      case read_nat digits of
        None \<Rightarrow> None
      | Some n \<Rightarrow> let v = (if neg then - int n else int n) in
          if - (2 ^ 63) \<le> v \<and> v < 2 ^ 63 then Some v else None)"

definition positive_seconds :: "string \<Rightarrow> int option" where
  "positive_seconds value = (case Atoi value of None \<Rightarrow> None | Some n \<Rightarrow> if n > 0 then Some n else None)"

text \<open>\<open>value\<close> is \<^verbatim>\<open>CHETTER_DRAIN_TIMEOUT_SEC\<close>, without surrounding space.\<close>

definition drainTimeout :: "string \<Rightarrow> time" where
  "drainTimeout value = (case positive_seconds value of Some n \<Rightarrow> n * second | None \<Rightarrow> 30 * second)"

definition remaining_time :: "time \<Rightarrow> TaskSession \<Rightarrow> time" where
  "remaining_time now s =
     (let t = tr_TimeoutSec (ts_Request s) * second; timeout = (if t \<le> 0 then 3600 * second else t) in
      timeout - (now - ts_StartedAt s))"

definition computeDrainDeadline :: "string \<Rightarrow> time \<Rightarrow> TaskSession list \<Rightarrow> time" where
  "computeDrainDeadline value now ts =
     (let ceiling = drainTimeout value; ceilingConfigured = (positive_seconds value \<noteq> None) in
      if ts = [] then ceiling
      else let maxRemaining = fold (\<lambda>s m. if remaining_time now s > m then remaining_time now s else m) ts 0 in
        if ceilingConfigured \<and> maxRemaining > ceiling then ceiling
        else if maxRemaining < 30 * second then 30 * second
        else maxRemaining)"

lemma fold_max_ge:
  fixes m :: int
  shows "m \<le> fold (\<lambda>s m. if f s > m then f s else m) ts m"
    and "s \<in> set ts \<Longrightarrow> f s \<le> fold (\<lambda>s m. if f s > m then f s else m) ts m"
proof -
  have ge: "m \<le> fold (\<lambda>s m. if f s > m then f s else m) ts m" for m :: int and ts
  proof (induction ts arbitrary: m)
    case (Cons t ts)
    have "m \<le> (if f t > m then f t else m)" by simp
    also have "\<dots> \<le> fold (\<lambda>s m. if f s > m then f s else m) ts (if f t > m then f t else m)" by (rule Cons)
    finally show ?case by simp
  qed simp
  then show "m \<le> fold (\<lambda>s m. if f s > m then f s else m) ts m" .
  show "s \<in> set ts \<Longrightarrow> f s \<le> fold (\<lambda>s m. if f s > m then f s else m) ts m"
  proof (induction ts arbitrary: m)
    case (Cons t ts)
    show ?case
    proof (cases "s = t")
      case True
      have "f s \<le> (if f t > m then f t else m)" using True by simp
      also have "\<dots> \<le> fold (\<lambda>s m. if f s > m then f s else m) ts (if f t > m then f t else m)" by (rule ge)
      finally show ?thesis by simp
    next
      case False
      with Cons show ?thesis by simp
    qed
  qed simp
qed

text \<open>
  The wait covers what every task has left, up to the configured ceiling; a ceiling below half a
  minute is exceeded by the floor of thirty seconds.
\<close>

lemma drain_deadline_covers:
  assumes "s \<in> set ts"
  shows "remaining_time now s \<le> computeDrainDeadline value now ts \<or>
    (positive_seconds value \<noteq> None \<and> computeDrainDeadline value now ts = drainTimeout value)"
  using assms fold_max_ge(2) [of s ts "remaining_time now" 0]
  by (cases ts) (auto simp: computeDrainDeadline_def Let_def)

lemma drain_deadline_ceiling:
  "positive_seconds value \<noteq> None \<Longrightarrow> computeDrainDeadline value now ts \<le> max (drainTimeout value) (30 * second)"
  by (auto simp: computeDrainDeadline_def Let_def)

lemma short_ceiling_is_exceeded:
  "computeDrainDeadline ''10'' 0 [new_session 0 (ex_request_n 0\<lparr>tr_TimeoutSec := 5\<rparr>)] = 30 * second \<and> drainTimeout ''10'' = 10 * second"
  by code_simp

end
