(* ===== verification/Chetter_Runner_Cleanup.thy ===== *)
theory Chetter_Runner_Cleanup
  imports Chetter_Runner_Report
begin

text \<open>
  What the runner removes (\<^verbatim>\<open>runner/internal/controller/runner.go\<close>): the workspaces of past
  executions and the task containers left on the docker daemon. Both ask the server, whose
  \<^verbatim>\<open>PruneWorkspaces\<close> is modelled in \<open>Chetter_Heartbeat\<close>; here the two sides are put together. The
  directory listing, the output of the docker commands, the clock and whether a removal succeeds are
  arguments.
\<close>

section \<open>Workspaces\<close>

text \<open>
  The entries of the workspace root: name, whether it is a directory, and its own entries, or an
  error of the file system. \<open>workspace_path\<close> joins the root, a task, an execution and
  \<^verbatim>\<open>workspace\<close>.
\<close>

type_synonym dir_entry = "string \<times> bool"

fun workspace_candidates ::
  "(string \<Rightarrow> string \<Rightarrow> string) \<Rightarrow> (string \<Rightarrow> error + dir_entry list) \<Rightarrow> dir_entry list \<Rightarrow> error + workspace_candidate list" where
  "workspace_candidates workspace_path read_dir [] = Inr []"
| "workspace_candidates workspace_path read_dir ((t, is_dir) # es) =
     (if \<not> is_dir \<or> \<not> prefix ''task_'' t then workspace_candidates workspace_path read_dir es
      else bind_res (wrap_err (''read task workspace '' @ t) (read_dir t)) (\<lambda>xs.
        bind_res (workspace_candidates workspace_path read_dir es) (\<lambda>cs.
          Inr (map (\<lambda>(x, _). \<lparr>wc_TaskId = t, wc_ExecutionId = x, wc_WorkspacePath = workspace_path t x\<rparr>)
                 (filter (\<lambda>(x, d). d \<and> prefix ''exec_'' x) xs) @ cs))))"

text \<open>
  The workspaces the runner destroys. \<open>listing\<close> is \<open>None\<close> when the root does not exist; \<open>verdict\<close> is the
  call to the server, \<open>active\<close> the executions in the task map.
\<close>

definition pruneOrphanedWorkspaces ::
  "(string \<Rightarrow> string \<Rightarrow> string) \<Rightarrow> (string \<Rightarrow> error + dir_entry list) \<Rightarrow> (error + dir_entry list option) \<Rightarrow>
   (workspace_candidate list \<Rightarrow> error + (string \<times> string) list) \<Rightarrow> (string \<Rightarrow> bool) \<Rightarrow> error + workspace_candidate list" where
  "pruneOrphanedWorkspaces workspace_path read_dir listing verdict active =
     bind_res (wrap_err ''read workspace root'' listing) (\<lambda>l.
       case l of None \<Rightarrow> Inr []
       | Some es \<Rightarrow>
           bind_res (workspace_candidates workspace_path read_dir es) (\<lambda>candidates.
             if candidates = [] then Inr []
             else bind_res (wrap_err ''prune workspaces rpc'' (verdict candidates)) (\<lambda>safe.
               Inr (filter (\<lambda>c. (wc_TaskId c, wc_ExecutionId c) \<in> set safe \<and> \<not> active (wc_ExecutionId c)) candidates))))"

section \<open>Containers\<close>

record containerReapCandidate =
  cr_Name :: string
  cr_RunnerID :: string
  cr_TaskID :: string
  cr_ExecutionID :: string
  cr_WorkspacePath :: string

definition taskContainerMinAge :: time where
  "taskContainerMinAge = 600 * second"

abbreviation tab :: char where
  "tab \<equiv> char_of (9 :: nat)"

definition container_line :: "string \<Rightarrow> containerReapCandidate option" where
  "container_line line =
     (let fs = split_on tab line; field = (\<lambda>i. if i < length fs then trim_space (fs ! i) else []);
          c = \<lparr>cr_Name = trim_prefix ''/'' (field 0), cr_RunnerID = field 1, cr_TaskID = field 2,
               cr_ExecutionID = field 3, cr_WorkspacePath = field 4\<rparr> in
      if trim_space line = [] \<or> cr_Name c = [] \<or> cr_TaskID c = [] \<or> cr_ExecutionID c = [] then None else Some c)"

definition listTaskContainers :: "string \<Rightarrow> containerReapCandidate list" where
  "listTaskContainers out = List.map_filter container_line (split_on newline (trim_space out))"

definition age_line :: "time \<Rightarrow> string \<Rightarrow> (string \<times> time) option" where
  "age_line now line =
     (if tab \<notin> set line then None
      else let name = trim_prefix ''/'' (trim_space (takeWhile (\<lambda>c. c \<noteq> tab) line)) in
        case parse_rfc3339 (trim_space (tl (dropWhile (\<lambda>c. c \<noteq> tab) line))) of
          None \<Rightarrow> None
        | Some created \<Rightarrow> if name = [] then None else Some (name, now - created))"

text \<open>A later line for the same name overwrites an earlier one.\<close>

definition containerAges :: "time \<Rightarrow> string option \<Rightarrow> string \<Rightarrow> time option" where
  "containerAges now out =
     (case out of None \<Rightarrow> (\<lambda>_. None)
      | Some o' \<Rightarrow> map_of (rev (List.map_filter (age_line now) (split_on newline (trim_space o')))))"

definition containerHasCheckpoint :: "string option \<Rightarrow> bool" where
  "containerHasCheckpoint out =
     (case out of None \<Rightarrow> False
      | Some o' \<Rightarrow> list_ex (\<lambda>line. trim_space line \<noteq> [] \<and> \<not> prefix ''CHECKPOINT'' (to_upper (trim_space line)))
          (split_on newline (trim_space o')))"

definition isActiveExecution :: "(string \<times> TaskSession) list \<Rightarrow> string \<Rightarrow> bool" where
  "isActiveExecution ts executionID = (executionID \<noteq> [] \<and> executionID \<in> fst ` set ts)"

definition container_candidate :: "containerReapCandidate \<Rightarrow> workspace_candidate" where
  "container_candidate c = \<lparr>wc_TaskId = cr_TaskID c, wc_ExecutionId = cr_ExecutionID c, wc_WorkspacePath = cr_WorkspacePath c\<rparr>"

definition old_enough :: "time option \<Rightarrow> bool" where
  "old_enough age = (case age of None \<Rightarrow> False | Some a \<Rightarrow> a \<ge> taskContainerMinAge)"

text \<open>
  The containers a sweep removes: \<open>ps\<close>, \<open>inspect\<close> and \<open>checkpoint_ls\<close> are the answers of docker, \<open>None\<close>
  for an error.
\<close>

definition sweepOrphanedTaskContainers ::
  "string \<Rightarrow> string option \<Rightarrow> time \<Rightarrow> string option \<Rightarrow> (string \<Rightarrow> string option) \<Rightarrow>
   (workspace_candidate list \<Rightarrow> error + (string \<times> string) list) \<Rightarrow> (string \<times> TaskSession) list \<Rightarrow> containerReapCandidate list" where
  "sweepOrphanedTaskContainers mode ps now inspect checkpoint_ls verdict ts =
     (case ps of
        None \<Rightarrow> []
      | Some out \<Rightarrow>
          let removable = filter (\<lambda>c. \<not> isActiveExecution ts (cr_ExecutionID c) \<and> old_enough (containerAges now inspect (cr_Name c)))
                (listTaskContainers out) in
          if mode \<noteq> ''docker'' \<or> removable = [] then []
          else case verdict (map container_candidate removable) of
            Inl e \<Rightarrow> []
          | Inr safe \<Rightarrow> filter (\<lambda>c. (cr_TaskID c, cr_ExecutionID c) \<in> set safe \<and> \<not> containerHasCheckpoint (checkpoint_ls (cr_Name c))) removable)"

section \<open>Lemmas\<close>

text \<open>The path of a candidate is a function of its key, so the answer of the server is about the workspace itself.\<close>

lemma candidate_paths:
  "workspace_candidates workspace_path read_dir es = Inr cs \<Longrightarrow>
   list_all (\<lambda>c. wc_WorkspacePath c = workspace_path (wc_TaskId c) (wc_ExecutionId c)) cs"
  by (induction workspace_path read_dir es arbitrary: cs rule: workspace_candidates.induct)
     (auto split: if_split_asm simp: list_all_iff)

lemma verdict_unprotected:
  assumes "PruneWorkspaces scope runner cs d = Inr safe" and "(t, x) \<in> set safe"
  shows "\<exists>c \<in> set cs. wc_TaskId c = t \<and> wc_ExecutionId c = x \<and> \<not> workspace_protected scope runner c d"
proof -
  have "safe = map (\<lambda>c. (wc_TaskId c, wc_ExecutionId c)) (filter (\<lambda>c. \<not> workspace_protected scope runner c d) cs)"
    using assms(1) prune_safe by (auto simp: PruneWorkspaces_def split: if_split_asm)
  with assms(2) show ?thesis by auto
qed

lemma distinct_key_inj:
  "distinct (map f xs) \<Longrightarrow> x \<in> set xs \<Longrightarrow> y \<in> set xs \<Longrightarrow> f x = f y \<Longrightarrow> x = y"
  by (metis distinct_map inj_onD)

lemma swept_cases:
  assumes "c \<in> set (sweepOrphanedTaskContainers mode ps now inspect checkpoint_ls verdict ts)"
  obtains out safe where "ps = Some out" "c \<in> set (listTaskContainers out)" "mode = ''docker''"
    "\<not> isActiveExecution ts (cr_ExecutionID c)" "old_enough (containerAges now inspect (cr_Name c))"
    "verdict (map container_candidate (filter (\<lambda>c. \<not> isActiveExecution ts (cr_ExecutionID c) \<and>
        old_enough (containerAges now inspect (cr_Name c))) (listTaskContainers out))) = Inr safe"
    "(cr_TaskID c, cr_ExecutionID c) \<in> set safe" "\<not> containerHasCheckpoint (checkpoint_ls (cr_Name c))"
  using assms by (auto simp: sweepOrphanedTaskContainers_def Let_def split: option.split_asm if_split_asm sum.split_asm dest!: sym [of "Inr _"])

text \<open>
  What keeps a workspace or container alive, read off the tables: a running attempt of the execution,
  a session of the task that may resume in the workspace, or a ready checkpoint taken there. For a
  container (\<open>shared\<close>) the attempts and checkpoints of every runner count, and sessions do not.
\<close>

definition still_needed :: "bool \<Rightarrow> string \<Rightarrow> workspace_candidate \<Rightarrow> db \<Rightarrow> bool" where
  "still_needed shared runner c d =
     ((\<exists>a \<in> set (execution_attempts d). \<exists>p \<in> set (user_prompts d). a_user_prompt_id a = p_id p \<and> p_task_id p = wc_TaskId c \<and>
         a_id a = wc_ExecutionId c \<and> a_status a = ''running'' \<and> (shared \<or> a_runner_id a = Some runner)) \<or>
      (\<exists>s \<in> set (agent_sessions d). \<not> shared \<and> s_task_id s = wc_TaskId c \<and>
         (wc_WorkspacePath c = [] \<or> s_workspace_path s = Some (wc_WorkspacePath c)) \<and>
         s_status s \<in> {''running'', ''resuming'', ''paused'', ''recoverable'', ''paused_waiting_review''} \<and>
         s_pinned_runner_id s \<in> {None, Some [], Some runner}) \<or>
      (\<exists>k \<in> set (checkpoints d). \<exists>s \<in> set (agent_sessions d). k_agent_session_id k = s_id s \<and> s_task_id s = wc_TaskId c \<and>
         (wc_WorkspacePath c = [] \<or> k_workspace_path k = wc_WorkspacePath c) \<and> k_status k = ''ready'' \<and>
         k_checkpoint_path k \<noteq> [] \<and> (shared \<or> k_runner_id k = runner)))"

lemma running_iff:
  "list_ex (\<lambda>(a, p). Q a p) (attempt_joins d) \<longleftrightarrow>
     (\<exists>a \<in> set (execution_attempts d). \<exists>p \<in> set (user_prompts d). a_user_prompt_id a = p_id p \<and> Q a p)"
  by (auto simp: list_ex_iff attempt_joins_iff case_prod_unfold Bex_def intro: sym)

lemma protected_iff: "workspace_protected shared runner c d \<longleftrightarrow> still_needed shared runner c d"
  unfolding workspace_protected_def still_needed_def Let_def running_iff unfolding list_ex_iff
  by (intro arg_cong2 [where f = "(\<or>)"] bex_cong refl) (auto simp: eq_commute)

lemma old_enough_iff: "old_enough age \<longleftrightarrow> (\<exists>t. age = Some t \<and> t \<ge> 600 * second)"
  by (auto simp: old_enough_def taskContainerMinAge_def split: option.split)

text \<open>
  C36. The runner destroys no workspace or container that is still needed. With the server's answer
  computed from the database, a workspace it destroys is of no execution in its task map and
  belongs to no running attempt of this runner, no session that may resume in it and no ready
  checkpoint; a container it removes is at least ten minutes old, has no checkpoint, is of no
  execution in the task map, and of no running attempt or ready checkpoint of any runner.
\<close>

theorem runner_destroys_only_unneeded:
  assumes "pruneOrphanedWorkspaces workspace_path read_dir listing (\<lambda>cs. PruneWorkspaces False runner cs d) active = Inr destroyed"
    and "removed = sweepOrphanedTaskContainers mode (Some out) now inspect checkpoint_ls (\<lambda>cs. PruneWorkspaces True runner cs d) ts"
    and "distinct (map (\<lambda>c. (cr_TaskID c, cr_ExecutionID c)) (listTaskContainers out))"
  shows "list_all (\<lambda>c. \<not> still_needed False runner c d \<and> \<not> active (wc_ExecutionId c)) destroyed \<and>
    list_all (\<lambda>c. \<not> still_needed True runner (container_candidate c) d \<and>
      (cr_ExecutionID c = [] \<or> cr_ExecutionID c \<notin> fst ` set ts) \<and>
      (\<exists>age. containerAges now inspect (cr_Name c) = Some age \<and> age \<ge> 600 * second) \<and>
      \<not> containerHasCheckpoint (checkpoint_ls (cr_Name c))) removed"
  unfolding protected_iff [symmetric] old_enough_iff [symmetric]
proof
  show "list_all (\<lambda>c. \<not> workspace_protected False runner c d \<and> \<not> active (wc_ExecutionId c)) destroyed"
  proof (cases "destroyed = []")
    case False
    with assms(1) obtain es cs safe where cs: "workspace_candidates workspace_path read_dir es = Inr cs"
      and safe: "PruneWorkspaces False runner cs d = Inr safe"
      and del: "destroyed = filter (\<lambda>c. (wc_TaskId c, wc_ExecutionId c) \<in> set safe \<and> \<not> active (wc_ExecutionId c)) cs"
      by (auto simp: pruneOrphanedWorkspaces_def split: option.split_asm if_split_asm)
    have "\<not> workspace_protected False runner c d" if "c \<in> set destroyed" for c
    proof -
      have c: "c \<in> set cs" "(wc_TaskId c, wc_ExecutionId c) \<in> set safe" using that del by auto
      from verdict_unprotected [OF safe c(2)] obtain c' where c': "c' \<in> set cs" "wc_TaskId c' = wc_TaskId c"
        "wc_ExecutionId c' = wc_ExecutionId c" "\<not> workspace_protected False runner c' d" by blast
      have "wc_WorkspacePath c' = wc_WorkspacePath c" using candidate_paths [OF cs] c(1) c'(1-3) by (simp add: list_all_iff)
      then have "c' = c" using c'(2,3) by simp
      with c' show ?thesis by simp
    qed
    then show ?thesis using del by (auto simp: list_all_iff)
  qed simp
  show "list_all (\<lambda>c. \<not> workspace_protected True runner (container_candidate c) d \<and>
      (cr_ExecutionID c = [] \<or> cr_ExecutionID c \<notin> fst ` set ts) \<and> old_enough (containerAges now inspect (cr_Name c)) \<and> \<not> containerHasCheckpoint (checkpoint_ls (cr_Name c))) removed"
    unfolding list_all_iff
  proof
    fix c
    assume "c \<in> set removed"
    then have "c \<in> set (sweepOrphanedTaskContainers mode (Some out) now inspect checkpoint_ls (\<lambda>cs. PruneWorkspaces True runner cs d) ts)"
      using assms(2) by simp
    then show "\<not> workspace_protected True runner (container_candidate c) d \<and>
      (cr_ExecutionID c = [] \<or> cr_ExecutionID c \<notin> fst ` set ts) \<and> old_enough (containerAges now inspect (cr_Name c)) \<and> \<not> containerHasCheckpoint (checkpoint_ls (cr_Name c))"
    proof (cases rule: swept_cases)
      case (1 out' safe)
      then have out': "out' = out" by simp
      from verdict_unprotected [OF 1(6,7)] obtain c' where c': "c' \<in> set (listTaskContainers out)"
        "cr_TaskID c' = cr_TaskID c" "cr_ExecutionID c' = cr_ExecutionID c" "\<not> workspace_protected True runner (container_candidate c') d"
        by (auto simp: container_candidate_def out')
      have "c' = c" by (rule distinct_key_inj [OF assms(3) c'(1)]) (use 1(2) c' out' in auto)
      with c' 1 show ?thesis by (simp add: isActiveExecution_def)
    qed
  qed
qed

definition ex_ps :: string where
  "ex_ps = ''chetter-task-t0-x0'' @ [tab] @ ''r1'' @ [tab] @ ''t0'' @ [tab] @ ''x0'' @ [newline] @
     ''chetter-task-t1-x1'' @ [tab] @ ''r1'' @ [tab] @ ''t1'' @ [tab] @ ''x1''"

definition ex_inspect :: string where
  "ex_inspect = ''/chetter-task-t0-x0'' @ [tab] @ ''1970-01-01T00:00:00Z'' @ [newline] @
     ''/chetter-task-t1-x1'' @ [tab] @ ''1970-01-01T00:00:00Z''"

definition ex_sweep :: "containerReapCandidate list" where
  "ex_sweep = sweepOrphanedTaskContainers ''docker'' (Some ex_ps) (1000 * second) (Some ex_inspect) (\<lambda>_. None)
     (\<lambda>cs. PruneWorkspaces True ''r1'' cs ex_running_db) []"

theorem runner_destroys_only_unneeded_witness:
  "map cr_ExecutionID ex_sweep = [''x0''] \<and> list_all (\<lambda>c. \<not> still_needed True ''r1'' (container_candidate c) ex_running_db) ex_sweep"
proof -
  have p: "pruneOrphanedWorkspaces (\<lambda>t x. t) (\<lambda>_. Inr []) (Inr None) (\<lambda>cs. PruneWorkspaces False ''r1'' cs ex_running_db) (\<lambda>_. False) = Inr []"
    by (simp add: pruneOrphanedWorkspaces_def)
  have d: "distinct (map (\<lambda>c. (cr_TaskID c, cr_ExecutionID c)) (listTaskContainers ex_ps))" by code_simp
  have e: "map cr_ExecutionID ex_sweep = [''x0'']" by code_simp
  from runner_destroys_only_unneeded [OF p ex_sweep_def d] e show ?thesis by (auto simp: list_all_iff)
qed

end
