(* ===== verification/Chetter_Runner_Heartbeat.thy ===== *)
theory Chetter_Runner_Heartbeat
  imports Chetter_Runner
begin

text \<open>
  The heartbeat of the runner (\<^verbatim>\<open>runner/internal/controller/heartbeat.go\<close>) put together with the
  server's side of it (\<open>Chetter_Heartbeat\<close>): what the runner reports about itself, and what that
  report does for the executions it holds.
\<close>

text \<open>What the process reports besides its state: identity, image, version and the counters kept elsewhere.\<close>

record info_env =
  ien_RunnerID :: string
  ien_ImageRef :: string
  ien_ImageDigest :: string
  ien_Version :: string
  ien_StartedAt :: string
  ien_TotalCompleted :: int
  ien_TotalErrors :: int
  ien_RelayRejected :: int

definition running_executions :: "(string \<times> TaskSession) list \<Rightarrow> running_execution list" where
  "running_executions ts =
     map (\<lambda>(k, s). \<lparr>re_TaskId = ts_TaskID s, re_ExecutionId = k, re_AgentSessionId = tr_AgentSessionID (ts_Request s),
        re_UserPromptId = tr_UserPromptID (ts_Request s), re_ClaimId = tr_ClaimID (ts_Request s)\<rparr>) ts"

definition runnerInfoProto :: "runner_config \<Rightarrow> bool \<Rightarrow> info_env \<Rightarrow> string \<Rightarrow> runner_proc \<Rightarrow> runner_info" where
  "runnerInfoProto cfg runsc env status s =
     \<lparr>ri_RunnerId = ien_RunnerID env, ri_Status = status, ri_ImageRef = ien_ImageRef env, ri_ImageDigest = ien_ImageDigest env,
      ri_Version = ien_Version env, ri_MaxConcurrent = int (MaxConcurrent cfg), ri_RunningTasks = int (length (rp_tasks s)),
      ri_AvailableSlots = max 0 (int (sem_capacity cfg) - int (rp_sem s)), ri_TotalStarted = rp_totalStarted s,
      ri_TotalCompleted = ien_TotalCompleted env, ri_TotalErrors = ien_TotalErrors env, ri_StartedAt = ien_StartedAt env,
      ri_CurrentExecutions = running_executions (rp_tasks s), ri_McpRelayRejectedRequests = ien_RelayRejected env,
      ri_EnforcedIsolation = enforcedIsolation cfg runsc\<rparr>"

section \<open>Keys of the task map\<close>

lemma keys_step: "runner_step cfg s e s' \<Longrightarrow> distinct (map fst (rp_tasks s)) \<Longrightarrow> distinct (map fst (rp_tasks s'))"
  by (induction rule: runner_step.induct) (auto simp: map_set_def distinct_map inj_on_def)

lemma keys_run: "runner_run cfg s es s' \<Longrightarrow> distinct (map fst (rp_tasks s)) \<Longrightarrow> distinct (map fst (rp_tasks s'))"
  by (induction rule: runner_run.induct) (auto dest: keys_step)

lemma running_keys: "map re_ExecutionId (running_executions ts) = map fst ts"
  by (induction ts) (auto simp: running_executions_def)

section \<open>Renewal\<close>

lemma command_ids: "c \<in> set (fst (execution_command now runner rows x d)) \<Longrightarrow> rc_ExecutionId c = re_ExecutionId x"
  by (auto simp: execution_command_def executionCancelCommand_def executionAttemptCancelCommand_def Let_def case_prod_unfold
      dest!: find_SomeD split: option.split_asm if_split_asm)

lemma execution_commands_append:
  "execution_commands now runner rows (xs @ ys) d =
     (let (cs, d1) = execution_commands now runner rows xs d; (cs', d2) = execution_commands now runner rows ys d1 in (cs @ cs', d2))"
  by (induction xs arbitrary: d) (simp_all add: Let_def case_prod_unfold)

text \<open>Reports of other executions leave an attempt alone.\<close>

lemma others_keep:
  assumes "a \<in> set (execution_attempts d)" and "a_id a \<notin> re_ExecutionId ` set xs"
  shows "a \<in> set (execution_attempts (snd (execution_commands now runner rows xs d)))"
    and "c \<in> set (fst (execution_commands now runner rows xs d)) \<Longrightarrow> rc_ExecutionId c \<noteq> a_id a"
proof -
  show "a \<in> set (execution_attempts (snd (execution_commands now runner rows xs d)))"
  proof -
    have "\<not> reported_by runner xs a" using assms(2) unfolding reported_by_def list_ex_iff by (metis image_eqI)
    with renew_reported [OF assms(1), of now runner rows xs] show ?thesis by blast
  qed
  show "c \<in> set (fst (execution_commands now runner rows xs d)) \<Longrightarrow> rc_ExecutionId c \<noteq> a_id a"
    using assms(2) by (induction xs arbitrary: d) (auto simp: Let_def case_prod_unfold dest: command_ids)
qed

text \<open>A running attempt reported with its hierarchy and claim gets a full lease and no command.\<close>

lemma matching_renewed:
  assumes "find (\<lambda>row. h_execution_attempt_id row = re_ExecutionId x) rows = Some row" and "matches_row x row"
    and "h_status row = ''running''" and "a \<in> set (execution_attempts d)" and "a_id a = re_ExecutionId x" and "runner \<noteq> []"
    and "a_runner_id a = Some runner" and "a_claim_id a = re_ClaimId x" and "a_status a = ''running''" and "a_updated_at a \<noteq> now"
  shows "fst (execution_command now runner rows x d) = [] \<and>
    renewed now a \<in> set (execution_attempts (snd (execution_command now runner rows x d)))"
proof -
  let ?w = "\<lambda>b. a_id b = re_ExecutionId x \<and> nullString runner \<noteq> None \<and> a_runner_id b = nullString runner \<and>
            a_claim_id b = re_ClaimId x \<and> a_status b = ''running''"
  have w: "?w a" using assms(5-9) by (cases runner) simp_all
  have "a_updated_at (renewed now a) = now" by (simp add: renewed_def)
  with assms(10) have ch: "renewed now a \<noteq> a" by metis
  have n: "snd (RenewExecutionAttemptLease (Some (now + defaultTaskLeaseSec * second)) (Some now) now (re_ExecutionId x)
      (nullString runner) (re_ClaimId x) d) \<noteq> 0"
    using assms(4) w ch by (auto simp: RenewExecutionAttemptLease_def upd_attempts_def sql_affected_zero_iff renewed_def)
  have m: "renewed now a \<in> set (execution_attempts (fst (RenewExecutionAttemptLease (Some (now + defaultTaskLeaseSec * second)) (Some now) now
      (re_ExecutionId x) (nullString runner) (re_ClaimId x) d)))"
    using assms(4) w by (auto simp: RenewExecutionAttemptLease_def upd_attempts_def in_sql_update_iff renewed_def intro!: bexI [of _ a])
  show ?thesis using assms(1-3) n m by (simp add: execution_command_def Let_def case_prod_unfold)
qed

lemma listed_renewed:
  assumes "distinct (map re_ExecutionId xs)" and "x \<in> set xs"
    and "find (\<lambda>row. h_execution_attempt_id row = re_ExecutionId x) rows = Some row" and "matches_row x row"
    and "h_status row = ''running''" and "a \<in> set (execution_attempts d)" and "a_id a = re_ExecutionId x" and "runner \<noteq> []"
    and "a_runner_id a = Some runner" and "a_claim_id a = re_ClaimId x" and "a_status a = ''running''" and "a_updated_at a \<noteq> now"
  shows "renewed now a \<in> set (execution_attempts (snd (execution_commands now runner rows xs d))) \<and>
    list_all (\<lambda>c. rc_ExecutionId c \<noteq> a_id a) (fst (execution_commands now runner rows xs d))"
proof -
  obtain pre post where xs: "xs = pre @ x # post" using assms(2) by (meson split_list)
  then have new: "a_id a \<notin> re_ExecutionId ` set pre" "a_id a \<notin> re_ExecutionId ` set post" using assms(1,7) by auto
  let ?d2 = "snd (execution_commands now runner rows pre d)"
  let ?e = "execution_command now runner rows x ?d2"
  have a2: "a \<in> set (execution_attempts ?d2)" by (rule others_keep(1) [OF assms(6) new(1)])
  have one: "fst ?e = []" "renewed now a \<in> set (execution_attempts (snd ?e))"
    using matching_renewed [OF assms(3-5) a2 assms(7-12)] by auto
  have new': "a_id (renewed now a) \<notin> re_ExecutionId ` set post" using new(2) by (simp add: renewed_def)
  have split: "execution_commands now runner rows xs d =
      (fst (execution_commands now runner rows pre d) @ fst (execution_commands now runner rows post (snd ?e)),
       snd (execution_commands now runner rows post (snd ?e)))"
    unfolding xs by (simp add: execution_commands_append Let_def case_prod_unfold one(1))
  show ?thesis
    unfolding split using others_keep [OF one(2) new'] others_keep(2) [OF assms(6) new(1)]
    by (auto simp: list_all_iff renewed_def)
qed

lemma heartbeat_row_found:
  assumes "wf_db d" and "a \<in> set (execution_attempts d)" and "p \<in> set (user_prompts d)" and "p_id p = a_user_prompt_id a"
    and "a_runner_id a = Some runner" and "a_id a \<in> set ids"
  shows "find (\<lambda>row. h_execution_attempt_id row = a_id a) (ListExecutionAttemptsForHeartbeat ids runner d) =
    Some \<lparr>h_execution_attempt_id = a_id a, h_claim_id = a_claim_id a, h_status = a_status a, h_error = a_error a,
      h_task_id = p_task_id p, h_agent_session_id = p_agent_session_id p, h_user_prompt_id = p_id p\<rparr>"
proof -
  let ?row = "\<lambda>(a, p). \<lparr>h_execution_attempt_id = a_id a, h_claim_id = a_claim_id a, h_status = a_status a, h_error = a_error a,
      h_task_id = p_task_id p, h_agent_session_id = p_agent_session_id p, h_user_prompt_id = p_id p\<rparr>"
  let ?rows = "ListExecutionAttemptsForHeartbeat ids runner d"
  have "?row (a, p) \<in> set ?rows"
    using assms(2-6) by (auto simp: ListExecutionAttemptsForHeartbeat_def attempt_joins_iff intro!: image_eqI [of _ _ "(a, p)"])
  then obtain row where f: "find (\<lambda>row. h_execution_attempt_id row = a_id a) ?rows = Some row"
    by (cases "find (\<lambda>row. h_execution_attempt_id row = a_id a) ?rows") (auto simp: find_None_iff)
  then obtain b q where bq: "(b, q) \<in> set (attempt_joins d)" "a_id b = a_id a" "row = ?row (b, q)"
    by (auto simp: ListExecutionAttemptsForHeartbeat_def dest!: find_SomeD)
  have "b = a" using assms(1,2) bq(1,2) by (auto simp: attempt_joins_iff wf_db_def keys_ok_def distinct_map inj_on_def)
  moreover from this have "q = p" using assms(1,3,4) bq(1) by (auto simp: attempt_joins_iff wf_db_def keys_ok_def distinct_map inj_on_def)
  ultimately show ?thesis using f bq(3) by simp
qed

lemma heartbeat_unfold:
  assumes "Heartbeat now (Some info) d = Inr (cs, d')" and "ri_CurrentExecutions info \<noteq> []" and "wf_db d"
  obtains cs0 d1 where "execution_attempts d1 = execution_attempts d" "user_prompts d1 = user_prompts d"
    "list_all (\<lambda>c. rc_Type c = ''drain'') cs0" "wf_db d1"
    "cs = cs0 @ fst (execution_commands now (ri_RunnerId info) (ListExecutionAttemptsForHeartbeat
        (runningExecutionAttemptIDs (ri_CurrentExecutions info)) (ri_RunnerId info) d1) (ri_CurrentExecutions info) d1)"
    "d' = snd (execution_commands now (ri_RunnerId info) (ListExecutionAttemptsForHeartbeat
        (runningExecutionAttemptIDs (ri_CurrentExecutions info)) (ri_RunnerId info) d1) (ri_CurrentExecutions info) d1)"
proof (rule that [of "snd (drain_commands info (UpsertRunnerHeartbeat (runner_row now info) d))"
      "fst (drain_commands info (UpsertRunnerHeartbeat (runner_row now info) d))"])
  let ?u = "UpsertRunnerHeartbeat (runner_row now info) d"
  show "wf_db (snd (drain_commands info ?u))"
  proof -
    have "wf_db ?u" using wf_upsert [OF assms(3)] .
    then show ?thesis
      using wf_db_same_tables [of "snd (drain_commands info ?u)" ?u] by (auto simp: drain_commands_def ackRunnerDrainDB_def)
  qed
qed (use assms in \<open>auto simp: Heartbeat_def upsertRunner_def runnerCommands_def drain_commands_def ackRunnerDrainDB_def drain_command_def
       UpsertRunnerHeartbeat_def Let_def case_prod_unfold split: if_split_asm\<close>)

text \<open>
  C35. A live execution keeps its lease: when a runner holds an execution and the database has its
  attempt running under the same claim and hierarchy, the runner's next heartbeat gives the attempt a
  full lease, and the answer does not cancel the execution.
\<close>

theorem heartbeat_keeps_live_executions:
  assumes "runner_run cfg NewRunner es s" and "list_all (consistent_task owner) es" and "(k, sess) \<in> set (rp_tasks s)"
    and "wf_db d" and "a \<in> set (execution_attempts d)" and "a_id a = k" and "a_status a = ''running''"
    and "a_runner_id a = Some (ien_RunnerID env)" and "ien_RunnerID env \<noteq> []" and "a_claim_id a = tr_ClaimID (ts_Request sess)"
    and "p \<in> set (user_prompts d)" and "p_id p = a_user_prompt_id a" and "p_id p = tr_UserPromptID (ts_Request sess)"
    and "p_task_id p = ts_TaskID sess" and "p_agent_session_id p = tr_AgentSessionID (ts_Request sess)" and "a_updated_at a \<noteq> now"
    and "Heartbeat now (Some (runnerInfoProto cfg runsc env status s)) d = Inr (cs, d')"
  shows "renewed now a \<in> set (execution_attempts d') \<and> list_all (\<lambda>c. rc_Type c = ''cancel'' \<longrightarrow> rc_ExecutionId c \<noteq> k) cs"
proof -
  let ?xs = "running_executions (rp_tasks s)" and ?info = "runnerInfoProto cfg runsc env status s"
  have start: "sessions_ok cfg owner NewRunner" "distinct (map fst (rp_tasks NewRunner))"
    by (simp_all add: sessions_ok_def NewRunner_def held_requests_def running_requests_def)
  have ok: "sessions_ok cfg owner s" and keys: "distinct (map fst (rp_tasks s))"
    using sessions_run [OF assms(1) start(1) assms(2)] keys_run [OF assms(1) start(2)] by auto
  have "fst (k, sess) \<in> fst ` set (rp_tasks s)" by (rule imageI [OF assms(3)])
  also have "\<dots> = tr_ExecutionID ` set (running_requests s)" using ok by (simp add: sessions_ok_def)
  finally have k: "k \<noteq> []" using ok by (auto simp: sessions_ok_def may_run_def)
  define x where "x = \<lparr>re_TaskId = ts_TaskID sess, re_ExecutionId = k, re_AgentSessionId = tr_AgentSessionID (ts_Request sess),
        re_UserPromptId = tr_UserPromptID (ts_Request sess), re_ClaimId = tr_ClaimID (ts_Request sess)\<rparr>"
  have x: "x \<in> set ?xs" using imageI [OF assms(3)] by (simp add: running_executions_def x_def case_prod_unfold image_iff) (metis assms(3) fst_conv snd_conv)
  have f: "ri_RunnerId ?info = ien_RunnerID env" "ri_CurrentExecutions ?info = ?xs" by (simp_all add: runnerInfoProto_def)
  have ne: "ri_CurrentExecutions ?info \<noteq> []" using x f by auto
  obtain cs0 d1 where d1: "execution_attempts d1 = execution_attempts d" "user_prompts d1 = user_prompts d"
      "list_all (\<lambda>c. rc_Type c = ''drain'') cs0" and wf1: "wf_db d1"
    and cs: "cs = cs0 @ fst (execution_commands now (ien_RunnerID env)
        (ListExecutionAttemptsForHeartbeat (runningExecutionAttemptIDs ?xs) (ien_RunnerID env) d1) ?xs d1)"
    and d': "d' = snd (execution_commands now (ien_RunnerID env)
        (ListExecutionAttemptsForHeartbeat (runningExecutionAttemptIDs ?xs) (ien_RunnerID env) d1) ?xs d1)"
    by (rule heartbeat_unfold [OF assms(17) ne assms(4), unfolded f])
  have "re_ExecutionId x \<in> set (map re_ExecutionId ?xs)" using x by auto
  then have ids: "a_id a \<in> set (runningExecutionAttemptIDs ?xs)" using k assms(6) by (simp add: runningExecutionAttemptIDs_def x_def)
  have a1: "a \<in> set (execution_attempts d1)" "p \<in> set (user_prompts d1)" using assms(5,11) d1(1,2) by simp_all
  have id: "re_ExecutionId x = a_id a" using assms(6) by (simp add: x_def)
  have "distinct (map re_ExecutionId ?xs)" using keys by (simp add: running_keys)
  from listed_renewed [OF this x heartbeat_row_found [OF wf1 a1 assms(12,8) ids, folded id] _ _ a1(1) id [symmetric] assms(9,8) _ assms(7,16)]
  have "renewed now a \<in> set (execution_attempts d') \<and> list_all (\<lambda>c. rc_ExecutionId c \<noteq> a_id a) (fst (execution_commands now (ien_RunnerID env)
        (ListExecutionAttemptsForHeartbeat (runningExecutionAttemptIDs ?xs) (ien_RunnerID env) d1) ?xs d1))"
    unfolding d' using assms(6,7,10,13-15) by (simp add: x_def matches_row_def)
  then show ?thesis unfolding cs using d1(3) assms(6) by (auto simp: list_all_iff)
qed

definition ex_live_request :: TaskRequest where
  "ex_live_request = (ex_request_n 0)\<lparr>tr_TaskID := ''t1'', tr_ExecutionID := ''x1'', tr_ClaimID := ''c'', tr_AgentSessionID := ''s1'',
     tr_UserPromptID := ''p1''\<rparr>"

definition ex_live_runner :: runner_proc where
  "ex_live_runner = NewRunner\<lparr>rp_sem := 1, rp_pool := [Running ex_live_request], rp_totalStarted := 1,
     rp_tasks := [(''x1'', new_session 0 ex_live_request)]\<rparr>"

definition ex_info_env :: info_env where
  "ex_info_env = \<lparr>ien_RunnerID = ''r1'', ien_ImageRef = [], ien_ImageDigest = [], ien_Version = [], ien_StartedAt = [],
     ien_TotalCompleted = 0, ien_TotalErrors = 0, ien_RelayRejected = 0\<rparr>"

lemma ex_live_run:
  "runner_run ex_runner_config NewRunner [Internal, Internal, Internal, Took ex_live_request, Internal, Began True ex_live_request] ex_live_runner"
proof -
  have "runTask_refusal ex_runner_config True (rp_tasks NewRunner) ex_live_request = None" by code_simp
  from claim_and_begin [OF _ _ _ _ this, of 0] show ?thesis
    by (simp add: NewRunner_def sem_capacity_def ex_live_runner_def ex_live_request_def executionKey_def map_set_def)
qed

theorem heartbeat_keeps_live_executions_witness:
  "\<exists>d'. Heartbeat (50 * second) (Some (runnerInfoProto ex_runner_config True ex_info_env ''active'' ex_live_runner)) ex_running_db = Inr ([], d') \<and>
     renewed (50 * second) ex_running_attempt \<in> set (execution_attempts d')"
proof -
  let ?h = "Heartbeat (50 * second) (Some (runnerInfoProto ex_runner_config True ex_info_env ''active'' ex_live_runner)) ex_running_db"
  have "case ?h of Inl e \<Rightarrow> False | Inr (cs, d') \<Rightarrow> cs = []" by code_simp
  then obtain d' where h: "?h = Inr ([], d')" by (auto split: sum.split_asm prod.split_asm)
  let ?p = "ex_prompt\<lparr>p_status := ''running''\<rparr>"
  have own: "list_all (consistent_task (\<lambda>_. ''t1'')) [Internal, Internal, Internal, Took ex_live_request, Internal, Began True ex_live_request]"
    by (simp add: belongs_def ex_live_request_def)
  have mem: "(''x1'', new_session 0 ex_live_request) \<in> set (rp_tasks ex_live_runner)" by (simp add: ex_live_runner_def)
  have rows: "ex_running_attempt \<in> set (execution_attempts ex_running_db)" "?p \<in> set (user_prompts ex_running_db)"
    by (simp_all add: ex_running_db_def)
  have "renewed (50 * second) ex_running_attempt \<in> set (execution_attempts d')"
    using heartbeat_keeps_live_executions [OF ex_live_run own mem ex_db_wf(2) rows(1) _ _ _ _ _ rows(2) _ _ _ _ _ h]
    by (simp add: ex_row_defs ex_live_request_def new_session_def ex_info_env_def second_def)
  then show ?thesis using h by blast
qed

end
