(* ===== verification/Chetter_Webhook_Events.thy ===== *)
theory Chetter_Webhook_Events
  imports Chetter_Inbound
begin

text \<open>
  The events of GitHub and what the server makes of them (\<^verbatim>\<open>internal/webhook/events.go\<close>,
  \<^verbatim>\<open>submitter.go\<close>, \<^verbatim>\<open>handler.go\<close>): which event concerns which trigger, whose author must have
  write access, and the requests it turns into. A handler runs against the environment
  \<open>gh_env\<close>, the answers of the GitHub API, of the trigger tables, of the service and of the JSON
  decoder, each of which may depend on what has been done so far; its result is an error, if any, and
  the list of calls it made that change something outside: resumed sessions, submitted tasks,
  labels, comments and recorded artifacts. Audit rows and log lines are left out.
\<close>

section \<open>Payloads\<close>

definition ChetterReviewLabel :: string where
  "ChetterReviewLabel = ''chetter-review''"

definition ReviewTriggerCommand :: string where
  "ReviewTriggerCommand = ''/chetter-review''"

record PRBranch =
  pb_Ref :: string
  pb_SHA :: string
  pb_FullName :: string
  pb_CloneURL :: string

record PullRequest =
  pr_Number :: int
  pr_State :: string
  pr_Title :: string
  pr_Body :: string
  pr_Head :: PRBranch
  pr_Base :: PRBranch
  pr_User :: string
  pr_Labels :: "string list"

text \<open>An event carries the full name of its repository and the id of the installation.\<close>

record PullRequestEvent =
  pe_Action :: string
  pe_Number :: int
  pe_PullRequest :: PullRequest
  pe_Label :: "string option"
  pe_Repository :: string
  pe_Installation :: int
  pe_Sender :: string

record PullRequestReviewEvent =
  prv_Action :: string
  prv_PullRequest :: PullRequest
  prv_Review_User :: string
  prv_Repository :: string
  prv_Installation :: int

record Comment =
  co_Body :: string
  co_User :: string

record PullRequestReviewCommentEvent =
  prc_Action :: string
  prc_PullRequest :: PullRequest
  prc_Comment :: Comment
  prc_Repository :: string
  prc_Installation :: int

record Issue =
  is_Number :: int
  is_Title :: string
  is_Body :: string
  is_HTMLURL :: string
  is_PullRequest :: "string option"
  is_Labels :: "string list"

record IssueCommentEvent =
  ice_Action :: string
  ice_Comment :: Comment
  ice_Issue :: Issue
  ice_Repository :: string
  ice_Installation :: int

definition IsPullRequest :: "IssueCommentEvent \<Rightarrow> bool" where
  "IsPullRequest e = (is_PullRequest (ice_Issue e) \<noteq> None)"

record IssueData =
  id_Number :: int
  id_Title :: string
  id_State :: string
  id_Body :: string
  id_HTMLURL :: string
  id_User :: string
  id_Labels :: "string list"

record IssueEvent =
  ie_Action :: string
  ie_Issue :: IssueData
  ie_Label :: "string option"
  ie_Repository :: string
  ie_Installation :: int

section \<open>Triggers and requests\<close>

record ReviewTrigger =
  rt_TeamID :: string
  rt_Name :: string
  rt_TriggerType :: string
  rt_Prompt :: string
  rt_AgentImage :: string
  rt_Agent :: string
  rt_ProviderID :: string
  rt_ModelID :: string
  rt_VariantID :: string
  rt_TimeoutSec :: int
  rt_GitURL :: string
  rt_GitRef :: string
  rt_Skills :: "string list"
  rt_Event :: string
  rt_MatchLabels :: "string list"
  rt_SessionMode :: string
  rt_PauseReason :: string
  rt_TTLHours :: int
  rt_Isolation :: string

record ReviewContext =
  rv_TeamID :: string
  rv_TriggerName :: string
  rv_TriggerType :: string
  rv_Trigger :: string
  rv_Repo :: string
  rv_PRNumber :: int
  rv_BaseRef :: string
  rv_HeadRef :: string
  rv_HeadCloneURL :: string
  rv_CommentAuthor :: string
  rv_GitHubInstallationID :: int
  rv_Prompt :: string
  rv_AgentImage :: string
  rv_Agent :: string
  rv_ProviderID :: string
  rv_ModelID :: string
  rv_VariantID :: string
  rv_Skills :: "string list"
  rv_TimeoutSec :: int
  rv_SessionMode :: string
  rv_PauseReason :: string
  rv_TTLHours :: int
  rv_Isolation :: string

text \<open>The request of the webhook package, and its conversion into a request of the service.\<close>

record webhook_request =
  wr_TeamID :: string
  wr_Prompt :: string
  wr_GitURL :: string
  wr_GitRef :: string
  wr_GitHubRepo :: string
  wr_GitHubInstallationID :: int
  wr_AgentImage :: string
  wr_Agent :: string
  wr_ProviderID :: string
  wr_ModelID :: string
  wr_VariantID :: string
  wr_Skills :: "string list"
  wr_Env :: "(string \<times> string) list"
  wr_TimeoutSec :: int
  wr_TriggerName :: string
  wr_TriggerType :: string
  wr_SessionMode :: string
  wr_PauseReason :: string
  wr_TTLHours :: int
  wr_Isolation :: string

definition serviceSubmitterAdapter :: "webhook_request \<Rightarrow> SubmitTaskRequest" where
  "serviceSubmitterAdapter r =
     \<lparr>rq_TeamID = wr_TeamID r, rq_TeamName = [], rq_Prompt = wr_Prompt r, rq_GitURL = wr_GitURL r, rq_GitRef = wr_GitRef r,
      rq_Repos = [], rq_GitHubRepo = wr_GitHubRepo r, rq_GitHubInstallationID = wr_GitHubInstallationID r,
      rq_AgentImage = wr_AgentImage r, rq_Agent = wr_Agent r, rq_ProviderID = wr_ProviderID r, rq_ModelID = wr_ModelID r,
      rq_VariantID = wr_VariantID r, rq_Harness = [], rq_Skills = wr_Skills r, rq_McpEndpoints = [], rq_Env = wr_Env r,
      rq_TimeoutSec = wr_TimeoutSec r, rq_TriggerName = wr_TriggerName r, rq_TriggerType = wr_TriggerType r,
      rq_SubmissionSource = ''trigger'', rq_CallbackParentTaskID = [], rq_CallbackDepth = 0, rq_ExplicitTaskID = [],
      rq_SelfTestRunID = [], rq_SelfTestProfile = [], rq_SelfTestCheck = [], rq_SelfTestNonce = [],
      rq_SessionMode = wr_SessionMode r, rq_PauseReason = wr_PauseReason r, rq_TTLHours = wr_TTLHours r,
      rq_Isolation = wr_Isolation r\<rparr>"

definition defaultReviewAgentImage :: string where
  "defaultReviewAgentImage = ''ghcr.io/flatout-works/chetter-agent-base:main''"

definition reviewPromptTemplate :: string where
  "reviewPromptTemplate = join_with [newline]
     [''You are performing a deep code review on a pull request.'',
      [],
      ''## Context'',
      [],
      ''- Repository: {{REPO}}'',
      ''- PR number: {{PR_NUMBER}}'',
      ''- Base ref: {{BASE_REF}}'',
      ''- Head ref: {{HEAD_REF}}'',
      ''- Trigger: {{TRIGGER}}'',
      [],
      ''Environment variables available to you:'',
      ''- PR_NUMBER '' @ em_dash @ '' the PR to review'',
      ''- GITHUB_REPO '' @ em_dash @ '' repository (e.g., my-org/my-repo)'',
      ''- COMMENT_AUTHOR '' @ em_dash @ '' set when the trigger was a comment (the user who requested review)'',
      ''- CHETTER_AGENT_NAME '' @ em_dash @ '' agent definition name (e.g., \"pr-reviewer\")'',
      ''- CHETTER_MODEL_ID '' @ em_dash @ '' model identifier (e.g., \"opencode/minimax-m3\")'',
      ''- CHETTER_TASK_ID '' @ em_dash @ '' Chetter task identifier'',
      [],
      ''## Procedure'',
      [],
      ''### 1. Understand the PR'',
      [],
      ''Read the PR description, linked issues, and commit messages:'',
      ''```bash'',
      ''gh pr view $PR_NUMBER --json title,body,baseRefName,headRefName,files,commits'',
      ''```'',
      [],
      ''Understand the intent before reviewing details.'',
      [],
      ''### 2. Review Changed Files'',
      [],
      ''List the changed files:'',
      ''```bash'',
      ''gh pr diff $PR_NUMBER --name-only'',
      ''```'',
      [],
      ''For each changed file:'',
      ''- Read the full file (not just the diff) to understand surrounding context'',
      ''- Check for:'',
      ''  - Correctness '' @ em_dash @ '' logic errors, off-by-one, nil pointer dereferences, missing error checks'',
      ''  - Security '' @ em_dash @ '' SQL injection, path traversal, secret leaks, unsafe deserialization'',
      ''  - Performance '' @ em_dash @ '' unnecessary allocations, N+1 queries, missing indexes, blocking calls'',
      ''  - Error handling '' @ em_dash @ '' swallowed errors, missing context in wrapping, panic instead of error'',
      ''  - Naming '' @ em_dash @ '' unclear names, stuttering, inconsistent conventions'',
      ''  - Concurrency '' @ em_dash @ '' race conditions, missing locks, goroutine leaks'',
      ''  - Dead code '' @ em_dash @ '' unreachable branches, unused imports, commented-out code'',
      ''  - Tests '' @ em_dash @ '' missing coverage for new logic, test isolation issues'',
      [],
      ''### 3. Verify Compilation and Tests'',
      [],
      ''```bash'',
      ''if [ \"$GITHUB_REPO\" = \"chetter/chetter\" ]; then'',
      ''  make -C server check'',
      ''  make -C runner check'',
      ''  make -C builder check'',
      ''elif [ \"$GITHUB_REPO\" = \"my-org/chetter\" ]; then'',
      ''  make check'',
      ''else'',
      ''  go test ./...'',
      ''fi'',
      ''```'',
      [],
      ''If tests fail, include the failures in the review output.'',
      [],
      ''### 4. Post Review'',
      [],
      ''Post a structured review using `chetter_pr_review` with `task_id=$CHETTER_TASK_ID`, `repo=$GITHUB_REPO`, and `pr_number=$PR_NUMBER`. Do not use `gh pr review` and do not manually add the Chetter footer; the tool adds the canonical footer and records audit/artifact metadata.'',
      [],
      ''The review body must include:'',
      ''- Overall assessment (approve / request-changes / comment)'',
      ''- Summary of findings grouped by category'',
      ''- Specific line-level suggestions where applicable'',
      ''- Test results'',
      ''Do not push directly to main. Do not merge PRs. Only review and post comments.'',
      []]"

definition prReviewContextBlock :: "ReviewContext \<Rightarrow> string" where
  "prReviewContextBlock review = join_with [newline]
     [''## PR Context'',
      [],
      ''- Repository: '' @ rv_Repo review,
      ''- PR number: '' @ show_int (rv_PRNumber review),
      ''- Base ref: '' @ rv_BaseRef review,
      ''- Head ref: '' @ rv_HeadRef review,
      ''- Trigger: '' @ rv_Trigger review,
      [],
      ''Environment variables available to you:'',
      ''- PR_NUMBER '' @ em_dash @ '' the PR to review'',
      ''- GITHUB_REPO '' @ em_dash @ '' repository (e.g., my-org/my-repo)'',
      ''- CHETTER_TASK_ID '' @ em_dash @ '' Chetter task identifier'',
      [],
      ''## Procedure'',
      [],
      ''### 1. Understand the PR'',
      [],
      ''Read the PR description, linked issues, and commit messages:'',
      ''```bash'',
      ''gh pr view $PR_NUMBER --json title,body,baseRefName,headRefName,files,commits'',
      ''```'',
      [],
      ''Understand the intent before reviewing details.'',
      [],
      ''### 2. Review Changed Files'',
      [],
      ''List the changed files:'',
      ''```bash'',
      ''gh pr diff $PR_NUMBER --name-only'',
      ''```'',
      [],
      ''For each changed file:'',
      ''- Read the full file (not just the diff) to understand surrounding context'',
      ''- Check for correctness, security, performance, error handling, naming, concurrency, dead code, and test coverage'',
      [],
      ''### 3. Post Review'',
      [],
      ''Post a structured review using `chetter_pr_review` with `task_id=$CHETTER_TASK_ID`, `repo=$GITHUB_REPO`, and `pr_number=$PR_NUMBER`. Do not use `gh pr review` and do not manually add the Chetter footer; the tool adds the canonical footer and records audit/artifact metadata.'',
      [],
      ''The review body must include:'',
      ''- Overall assessment (approve / request-changes / comment)'',
      ''- Summary of findings grouped by category'',
      ''- Specific line-level suggestions where applicable'',
      ''Do not push directly to main. Do not merge PRs. Only review and post comments.'',
      []]"

definition buildReviewTaskRequest :: "ReviewContext \<Rightarrow> webhook_request" where
  "buildReviewTaskRequest review =
     (let prompt0 = (if rv_Prompt review = [] then reviewPromptTemplate else rv_Prompt review);
          prompt1 = replace_all ''{{REPO}}'' (rv_Repo review) prompt0;
          prompt2 = replace_all ''{{PR_NUMBER}}'' (show_int (rv_PRNumber review)) prompt1;
          prompt3 = replace_all ''{{BASE_REF}}'' (rv_BaseRef review) prompt2;
          prompt4 = replace_all ''{{HEAD_REF}}'' (rv_HeadRef review) prompt3;
          prompt5 = replace_all ''{{TRIGGER}}'' (rv_Trigger review) prompt4;
          prompt = (if rv_Prompt review \<noteq> [] \<and> rv_Prompt review \<noteq> reviewPromptTemplate
                    then prompt5 @ [newline, newline] @ prReviewContextBlock review else prompt5) in
      \<lparr>wr_TeamID = rv_TeamID review, wr_Prompt = prompt, wr_GitURL = rv_HeadCloneURL review, wr_GitRef = rv_HeadRef review,
       wr_GitHubRepo = rv_Repo review, wr_GitHubInstallationID = rv_GitHubInstallationID review,
       wr_AgentImage = (if rv_AgentImage review = [] then defaultReviewAgentImage else rv_AgentImage review),
       wr_Agent = rv_Agent review, wr_ProviderID = rv_ProviderID review, wr_ModelID = rv_ModelID review,
       wr_VariantID = rv_VariantID review, wr_Skills = rv_Skills review,
       wr_Env = [(''PR_NUMBER'', show_int (rv_PRNumber review)), (''GITHUB_REPO'', rv_Repo review)] @
         (if rv_CommentAuthor review \<noteq> [] then [(''COMMENT_AUTHOR'', rv_CommentAuthor review)] else []),
       wr_TimeoutSec = rv_TimeoutSec review, wr_TriggerName = rv_TriggerName review, wr_TriggerType = rv_TriggerType review,
       wr_SessionMode = rv_SessionMode review, wr_PauseReason = rv_PauseReason review, wr_TTLHours = rv_TTLHours review,
       wr_Isolation = rv_Isolation review\<rparr>)"

definition BuildIssueTaskRequest ::
  "ReviewTrigger \<Rightarrow> string \<Rightarrow> int \<Rightarrow> string \<Rightarrow> (string \<times> string) list \<Rightarrow> webhook_request" where
  "BuildIssueTaskRequest t repo installationID prompt env =
     \<lparr>wr_TeamID = rt_TeamID t, wr_Prompt = prompt, wr_GitURL = rt_GitURL t, wr_GitRef = rt_GitRef t,
      wr_GitHubRepo = repo, wr_GitHubInstallationID = installationID, wr_AgentImage = rt_AgentImage t,
      wr_Agent = rt_Agent t, wr_ProviderID = rt_ProviderID t, wr_ModelID = rt_ModelID t, wr_VariantID = rt_VariantID t,
      wr_Skills = rt_Skills t, wr_Env = env, wr_TimeoutSec = rt_TimeoutSec t, wr_TriggerName = rt_Name t,
      wr_TriggerType = rt_TriggerType t, wr_SessionMode = rt_SessionMode t, wr_PauseReason = rt_PauseReason t,
      wr_TTLHours = rt_TTLHours t, wr_Isolation = []\<rparr>"

definition TriggerMatchesLabels :: "string list \<Rightarrow> string list \<Rightarrow> bool" where
  "TriggerMatchesLabels triggerLabels issueLabels =
     (triggerLabels = [] \<or> list_ex (\<lambda>req. list_ex (equal_fold req) issueLabels) triggerLabels)"

definition triggerAllowsBotComments :: "ReviewTrigger \<Rightarrow> bool" where
  "triggerAllowsBotComments t = contains (rt_Event t) ''bot_comments:true''"

definition triggerActionFromPR :: "PullRequestEvent \<Rightarrow> string \<Rightarrow> string" where
  "triggerActionFromPR ev repo =
     (let head = pb_FullName (pr_Head (pe_PullRequest ev)) in
      if pe_Action ev = ''labeled'' then ''labeled''
      else if head \<noteq> [] \<and> head \<noteq> repo then ''fork''
      else if pe_Action ev \<in> {''opened'', ''synchronize'', ''reopened''} then pe_Action ev
      else [])"

section \<open>Artifacts\<close>

record RecordArtifactParams =
  ra_TaskID :: string
  ra_AgentSessionID :: string
  ra_UserPromptID :: string
  ra_ExecutionAttemptID :: string
  ra_ArtifactType :: string
  ra_Repo :: string
  ra_Number :: int
  ra_URL :: string
  ra_DiscoverySource :: string

text \<open>
  The leftmost match of \<^verbatim>\<open>label\s*\[?(prefix[a-f0-9]+)\<close> (with the bracket only where \<open>bracket\<close>
  holds): what its group matched.
\<close>

definition is_lower_hex :: "char \<Rightarrow> bool" where
  "is_lower_hex c = (is_digit c \<or> c \<in> set ''abcdef'')"

definition re_space :: "char \<Rightarrow> bool" where
  "re_space c = (of_char c \<in> {9 :: nat, 10, 12, 13, 32})"

definition footer_here :: "string \<Rightarrow> bool \<Rightarrow> string \<Rightarrow> string \<Rightarrow> string option" where
  "footer_here label bracket pre s =
     (if \<not> prefix label s then None
      else let rest = dropWhile re_space (drop (length label) s);
               rest' = (if bracket \<and> prefix ''['' rest then tl rest else rest);
               digits = takeWhile is_lower_hex (drop (length pre) rest') in
        if prefix pre rest' \<and> digits \<noteq> [] then Some (pre @ digits) else None)"

fun footer_id :: "string \<Rightarrow> bool \<Rightarrow> string \<Rightarrow> string \<Rightarrow> string option" where
  "footer_id label bracket pre [] = None"
| "footer_id label bracket pre (c # cs) =
     (case footer_here label bracket pre (c # cs) of Some i \<Rightarrow> Some i | None \<Rightarrow> footer_id label bracket pre cs)"

definition artifact_of :: "string \<Rightarrow> string \<Rightarrow> int \<Rightarrow> string \<Rightarrow> string \<Rightarrow> RecordArtifactParams option" where
  "artifact_of text repo number url artifactType =
     map_option (\<lambda>taskID.
       \<lparr>ra_TaskID = taskID, ra_AgentSessionID = str_of (footer_id ''Session:'' False ''sess_'' text),
        ra_UserPromptID = str_of (footer_id ''Prompt:'' False ''prompt_'' text),
        ra_ExecutionAttemptID = str_of (footer_id ''Attempt:'' False ''exec_'' text),
        ra_ArtifactType = artifactType, ra_Repo = repo, ra_Number = number, ra_URL = url, ra_DiscoverySource = ''webhook''\<rparr>)
       (footer_id ''Task:'' True ''task_'' text)"

section \<open>Handlers\<close>

datatype gh_effect =
    Resumed string int
  | Submitted webhook_request
  | LabelAdded string int string
  | Commented string int string
  | ArtifactRecorded RecordArtifactParams

type_synonym gh_result = "error option \<times> gh_effect list"

record gh_env =
  ge_manager :: bool
  ge_resumer :: bool
  ge_artifacts :: bool
  ge_client :: "gh_effect list \<Rightarrow> int \<Rightarrow> error option"
  ge_app_login :: "gh_effect list \<Rightarrow> error + string"
  ge_permission :: "gh_effect list \<Rightarrow> string \<Rightarrow> string \<Rightarrow> error + string"
  ge_pull_request :: "gh_effect list \<Rightarrow> string \<Rightarrow> int \<Rightarrow> error + string \<times> string \<times> string"
  ge_labels :: "gh_effect list \<Rightarrow> string \<Rightarrow> int \<Rightarrow> error + string list"
  ge_pr_triggers :: "gh_effect list \<Rightarrow> string \<Rightarrow> error + ReviewTrigger list option"
  ge_issue_triggers :: "gh_effect list \<Rightarrow> string \<Rightarrow> error + ReviewTrigger list option"
  ge_submit :: "gh_effect list \<Rightarrow> webhook_request \<Rightarrow> error option"
  ge_resume :: "gh_effect list \<Rightarrow> string \<Rightarrow> int \<Rightarrow> error option"
  ge_PullRequestEvent :: "string \<Rightarrow> error + PullRequestEvent"
  ge_PullRequestReviewEvent :: "string \<Rightarrow> error + PullRequestReviewEvent"
  ge_PullRequestReviewCommentEvent :: "string \<Rightarrow> error + PullRequestReviewCommentEvent"
  ge_IssueCommentEvent :: "string \<Rightarrow> error + IssueCommentEvent"
  ge_IssueEvent :: "string \<Rightarrow> error + IssueEvent"

definition CheckUserHasWriteAccess :: "gh_env \<Rightarrow> gh_effect list \<Rightarrow> string \<Rightarrow> string \<Rightarrow> error + bool" where
  "CheckUserHasWriteAccess env es repo username =
     (case ge_permission env es repo username of
        Inl e \<Rightarrow> if contains (err_text e) ''404'' then Inr False else Inl e
      | Inr permission \<Rightarrow> Inr (permission \<in> {''admin'', ''write'', ''maintain''}))"

definition checkAuthorWriteAccess :: "gh_env \<Rightarrow> gh_effect list \<Rightarrow> string \<Rightarrow> string \<Rightarrow> bool" where
  "checkAuthorWriteAccess env es repo username =
     (case CheckUserHasWriteAccess env es repo username of Inl e \<Rightarrow> False | Inr hasAccess \<Rightarrow> hasAccess)"

definition isOwnBotLogin :: "gh_env \<Rightarrow> gh_effect list \<Rightarrow> string \<Rightarrow> bool" where
  "isOwnBotLogin env es username =
     (ge_manager env \<and> (case ge_app_login env es of Inl e \<Rightarrow> False | Inr appLogin \<Rightarrow> appLogin \<noteq> [] \<and> username = appLogin))"

definition clientForEvent :: "gh_env \<Rightarrow> gh_effect list \<Rightarrow> int \<Rightarrow> string \<Rightarrow> error option" where
  "clientForEvent env es installation event =
     (if \<not> ge_manager env then Some (Errorf ''github manager is not configured'')
      else if installation \<le> 0 then Some (Errorf (event @ '' webhook is missing installation.id''))
      else map_option (Wrap (''resolve '' @ event @ '' webhook installation '' @ show_int installation))
        (ge_client env es installation))"

definition discoverArtifacts :: "gh_env \<Rightarrow> string \<Rightarrow> string \<Rightarrow> int \<Rightarrow> string \<Rightarrow> string \<Rightarrow> gh_effect list \<Rightarrow> gh_effect list" where
  "discoverArtifacts env text repo number url artifactType es =
     (if \<not> ge_artifacts env then es
      else case artifact_of text repo number url artifactType of None \<Rightarrow> es | Some a \<Rightarrow> es @ [ArtifactRecorded a])"

definition resumeSessionForPRFeedback :: "gh_env \<Rightarrow> string \<Rightarrow> int \<Rightarrow> string \<Rightarrow> gh_effect list \<Rightarrow> gh_result" where
  "resumeSessionForPRFeedback env repo prNumber author es =
     (if \<not> ge_resumer env \<or> repo = [] \<or> prNumber \<le> 0 then (None, es)
      else if author \<noteq> [] \<and> (case ge_app_login env es of Inl e \<Rightarrow> False | Inr appLogin \<Rightarrow> appLogin \<noteq> [] \<and> author = appLogin)
        then (None, es)
      else if \<not> checkAuthorWriteAccess env es repo author then (None, es)
      else (ge_resume env es repo prNumber, es @ [Resumed repo prNumber]))"

definition handlePullRequestReview :: "gh_env \<Rightarrow> string \<Rightarrow> gh_effect list \<Rightarrow> gh_result" where
  "handlePullRequestReview env body es =
     (case ge_PullRequestReviewEvent env body of
        Inl e \<Rightarrow> (Some (Wrap ''parse pull_request_review'' e), es)
      | Inr ev \<Rightarrow>
          (case clientForEvent env es (prv_Installation ev) ''pull_request_review'' of
             Some e \<Rightarrow> (Some e, es)
           | None \<Rightarrow>
               if prv_Action ev \<noteq> ''submitted'' then (None, es)
               else resumeSessionForPRFeedback env (prv_Repository ev) (pr_Number (prv_PullRequest ev)) (prv_Review_User ev) es))"

definition handlePullRequestReviewComment :: "gh_env \<Rightarrow> string \<Rightarrow> gh_effect list \<Rightarrow> gh_result" where
  "handlePullRequestReviewComment env body es =
     (case ge_PullRequestReviewCommentEvent env body of
        Inl e \<Rightarrow> (Some (Wrap ''parse pull_request_review_comment'' e), es)
      | Inr ev \<Rightarrow>
          (case clientForEvent env es (prc_Installation ev) ''pull_request_review_comment'' of
             Some e \<Rightarrow> (Some e, es)
           | None \<Rightarrow>
               if prc_Action ev \<noteq> ''created'' then (None, es)
               else resumeSessionForPRFeedback env (prc_Repository ev) (pr_Number (prc_PullRequest ev)) (co_User (prc_Comment ev)) es))"

text \<open>The context of one matching trigger; a trigger for reviews never moves the checkout away from the head of the pull request.\<close>

definition review_for :: "ReviewContext \<Rightarrow> ReviewTrigger \<Rightarrow> ReviewContext" where
  "review_for ctx t =
     ctx\<lparr>rv_Prompt := (if rt_Prompt t \<noteq> [] then rt_Prompt t else rv_Prompt ctx),
         rv_AgentImage := (if rt_AgentImage t \<noteq> [] then rt_AgentImage t else rv_AgentImage ctx),
         rv_HeadCloneURL := (if rt_GitURL t \<noteq> [] \<and> rt_TriggerType t \<noteq> ''pr_review'' then rt_GitURL t else rv_HeadCloneURL ctx),
         rv_HeadRef := (if rt_GitRef t \<noteq> [] \<and> rt_TriggerType t \<noteq> ''pr_review'' then rt_GitRef t else rv_HeadRef ctx),
         rv_Skills := (if rt_Skills t \<noteq> [] then rt_Skills t else rv_Skills ctx),
         rv_TeamID := rt_TeamID t, rv_TriggerName := rt_Name t, rv_TriggerType := rt_TriggerType t, rv_Agent := rt_Agent t,
         rv_ProviderID := rt_ProviderID t, rv_ModelID := rt_ModelID t, rv_VariantID := rt_VariantID t,
         rv_TimeoutSec := rt_TimeoutSec t, rv_SessionMode := rt_SessionMode t, rv_PauseReason := rt_PauseReason t,
         rv_TTLHours := rt_TTLHours t, rv_Isolation := rt_Isolation t\<rparr>"

definition CommentReviewFailed :: string where
  "CommentReviewFailed = map char_of [240 :: nat, 159, 164, 150] @ '' Chetter review could not start. Please check the chetter service logs.''"

fun submit_reviews :: "gh_env \<Rightarrow> ReviewContext \<Rightarrow> ReviewTrigger list \<Rightarrow> error option \<Rightarrow> gh_effect list \<Rightarrow> gh_result" where
  "submit_reviews env ctx [] firstErr es = (firstErr, es)"
| "submit_reviews env ctx (t # ts) firstErr es =
     (let req = buildReviewTaskRequest (review_for ctx t); es' = es @ [Submitted req] in
      case ge_submit env es req of
        None \<Rightarrow> submit_reviews env ctx ts firstErr es'
      | Some e \<Rightarrow> submit_reviews env ctx ts (if firstErr = None then Some e else firstErr)
          (es' @ [Commented (rv_Repo ctx) (rv_PRNumber ctx) CommentReviewFailed]))"

definition HasLabel :: "gh_env \<Rightarrow> gh_effect list \<Rightarrow> string \<Rightarrow> int \<Rightarrow> string \<Rightarrow> error + bool" where
  "HasLabel env es repo prNumber label = bind_res (ge_labels env es repo prNumber) (\<lambda>labels. Inr (label \<in> set labels))"

definition label_review :: "gh_env \<Rightarrow> ReviewContext \<Rightarrow> gh_effect list \<Rightarrow> gh_effect list" where
  "label_review env ctx es =
     (if rv_Trigger ctx = ''label'' then es
      else case HasLabel env es (rv_Repo ctx) (rv_PRNumber ctx) ChetterReviewLabel of
        Inl e \<Rightarrow> es
      | Inr True \<Rightarrow> es
      | Inr False \<Rightarrow> es @ [LabelAdded (rv_Repo ctx) (rv_PRNumber ctx) ChetterReviewLabel])"

definition submitReviewForTrigger ::
  "gh_env \<Rightarrow> ReviewContext \<Rightarrow> ReviewTrigger list option \<Rightarrow> string \<Rightarrow> gh_effect list \<Rightarrow> gh_result" where
  "submitReviewForTrigger env ctx triggers event es =
     (case (case triggers of Some ts \<Rightarrow> Inr (Some ts) | None \<Rightarrow> ge_pr_triggers env es (rv_Repo ctx)) of
        Inl e \<Rightarrow> (Some e, es @ [Commented (rv_Repo ctx) (rv_PRNumber ctx) CommentReviewFailed])
      | Inr found \<Rightarrow>
          let matching = filter (\<lambda>t. rt_Event t = [] \<or> rt_Event t = event) (case found of None \<Rightarrow> [] | Some ts \<Rightarrow> ts) in
          if matching = [] then (None, es)
          else submit_reviews env ctx matching None (label_review env ctx es))"

definition pr_context :: "PullRequestEvent \<Rightarrow> string \<Rightarrow> ReviewContext" where
  "pr_context ev triggerAction =
     (let pr = pe_PullRequest ev in
      \<lparr>rv_TeamID = [], rv_TriggerName = [], rv_TriggerType = [], rv_Trigger = triggerAction, rv_Repo = pe_Repository ev,
       rv_PRNumber = pe_Number ev, rv_BaseRef = pb_Ref (pr_Base pr), rv_HeadRef = pb_Ref (pr_Head pr),
       rv_HeadCloneURL = pb_CloneURL (pr_Head pr), rv_CommentAuthor = [], rv_GitHubInstallationID = pe_Installation ev,
       rv_Prompt = [], rv_AgentImage = [], rv_Agent = [], rv_ProviderID = [], rv_ModelID = [], rv_VariantID = [],
       rv_Skills = [], rv_TimeoutSec = 0, rv_SessionMode = [], rv_PauseReason = [], rv_TTLHours = 0, rv_Isolation = []\<rparr>)"

definition handlePullRequest :: "gh_env \<Rightarrow> string \<Rightarrow> gh_effect list \<Rightarrow> gh_result" where
  "handlePullRequest env body es =
     (case ge_PullRequestEvent env body of
        Inl e \<Rightarrow> (Some (Wrap ''parse pull_request'' e), es)
      | Inr ev \<Rightarrow>
          (case clientForEvent env es (pe_Installation ev) ''pull_request'' of
             Some e \<Rightarrow> (Some e, es)
           | None \<Rightarrow>
               let repo = pe_Repository ev; triggerAction = triggerActionFromPR ev repo; author = pr_User (pe_PullRequest ev) in
               if pe_Action ev \<notin> {''opened'', ''synchronize'', ''reopened'', ''labeled''} then (None, es)
               else if pe_Action ev = ''labeled'' \<and> pe_Label ev \<noteq> Some ChetterReviewLabel then (None, es)
               else if pe_Action ev = ''labeled'' \<and> isOwnBotLogin env es (pe_Sender ev) then (None, es)
               else if triggerAction = [] then (None, es)
               else if (triggerAction = ''fork'' \<or> triggerAction = ''opened'') \<and> \<not> isOwnBotLogin env es author \<and>
                       \<not> checkAuthorWriteAccess env es repo author then (None, es)
               else (case ge_pr_triggers env es repo of
                   Inl e \<Rightarrow> (Some (Wrap ''list pr review triggers'' e), es)
                 | Inr triggers \<Rightarrow> submitReviewForTrigger env (pr_context ev triggerAction) triggers triggerAction es)))"

definition comment_context :: "IssueCommentEvent \<Rightarrow> string \<Rightarrow> string \<Rightarrow> string \<Rightarrow> ReviewContext" where
  "comment_context ev head base cloneURL =
     \<lparr>rv_TeamID = [], rv_TriggerName = [], rv_TriggerType = [], rv_Trigger = ''comment'', rv_Repo = ice_Repository ev,
      rv_PRNumber = is_Number (ice_Issue ev), rv_BaseRef = base, rv_HeadRef = head, rv_HeadCloneURL = cloneURL,
      rv_CommentAuthor = co_User (ice_Comment ev), rv_GitHubInstallationID = ice_Installation ev,
      rv_Prompt = [], rv_AgentImage = [], rv_Agent = [], rv_ProviderID = [], rv_ModelID = [], rv_VariantID = [],
      rv_Skills = [], rv_TimeoutSec = 0, rv_SessionMode = [], rv_PauseReason = [], rv_TTLHours = 0, rv_Isolation = []\<rparr>"

definition pr_comment :: "gh_env \<Rightarrow> IssueCommentEvent \<Rightarrow> gh_effect list \<Rightarrow> gh_result" where
  "pr_comment env ev es =
     (let repo = ice_Repository ev; n = is_Number (ice_Issue ev); author = co_User (ice_Comment ev);
          es1 = (if ge_resumer env then es @ [Resumed repo n] else es) in
      if isOwnBotLogin env es author then (None, es)
      else if \<not> checkAuthorWriteAccess env es repo author then (None, es)
      else (case (if ge_resumer env then ge_resume env es repo n else None) of
          Some e \<Rightarrow> (Some e, es1)
        | None \<Rightarrow>
            if trim_space (co_Body (ice_Comment ev)) \<noteq> ReviewTriggerCommand then (None, es1)
            else (case ge_pull_request env es1 repo n of
                Inl e \<Rightarrow> (Some (Wrap ''fetch pull request'' e), es1)
              | Inr (head, base, cloneURL) \<Rightarrow>
                  submitReviewForTrigger env (comment_context ev head base cloneURL) None ''comment''
                    (es1 @ [Commented repo n (''@'' @ author @ '' requested a review '' @ em_dash @ '' Chetter is on it.'')]))))"

definition comment_request :: "IssueCommentEvent \<Rightarrow> ReviewTrigger \<Rightarrow> webhook_request" where
  "comment_request ev t =
     (let issue = ice_Issue ev; repo = ice_Repository ev; number = show_int (is_Number issue); comment = ice_Comment ev;
          prompt = (if rt_Prompt t \<noteq> [] then rt_Prompt t
            else ''A comment was added to issue #'' @ number @ '' in '' @ repo @ ''.'' @ [newline, newline] @ ''Title: '' @ is_Title issue @
              [newline] @ ''URL: '' @ is_HTMLURL issue @ [newline, newline] @ ''Comment by '' @ co_User comment @ '':'' @ [newline] @ co_Body comment) in
      BuildIssueTaskRequest t repo (ice_Installation ev) prompt
        [(''GITHUB_REPO'', repo), (''ISSUE_NUMBER'', number), (''ISSUE_TITLE'', is_Title issue), (''ISSUE_URL'', is_HTMLURL issue),
         (''ISSUE_BODY'', is_Body issue), (''COMMENT_BODY'', co_Body comment), (''COMMENT_USER'', co_User comment)])"

fun submit_comment_tasks :: "gh_env \<Rightarrow> IssueCommentEvent \<Rightarrow> ReviewTrigger list \<Rightarrow> error option \<Rightarrow> gh_effect list \<Rightarrow> gh_result" where
  "submit_comment_tasks env ev [] firstErr es = (firstErr, es)"
| "submit_comment_tasks env ev (t # ts) firstErr es =
     submit_comment_tasks env ev ts
       (case ge_submit env es (comment_request ev t) of
          None \<Rightarrow> firstErr | Some e \<Rightarrow> if firstErr = None then Some e else firstErr)
       (es @ [Submitted (comment_request ev t)])"

definition comment_triggers :: "IssueCommentEvent \<Rightarrow> ReviewTrigger list \<Rightarrow> ReviewTrigger list" where
  "comment_triggers ev triggers =
     filter (\<lambda>t. (rt_Event t = [] \<or> rt_Event t = ''comment'') \<and> TriggerMatchesLabels (rt_MatchLabels t) (is_Labels (ice_Issue ev)))
       triggers"

definition issue_comment :: "gh_env \<Rightarrow> IssueCommentEvent \<Rightarrow> gh_effect list \<Rightarrow> gh_result" where
  "issue_comment env ev es =
     (let repo = ice_Repository ev; author = co_User (ice_Comment ev) in
      case ge_issue_triggers env es repo of
        Inl e \<Rightarrow> (Some (Wrap ''list issue triggers for comment'' e), es)
      | Inr triggers \<Rightarrow>
          let matching = comment_triggers ev (case triggers of None \<Rightarrow> [] | Some ts \<Rightarrow> ts) in
          if matching = [] then (None, es)
          else if isOwnBotLogin env es author then
            (let botMatch = filter triggerAllowsBotComments matching in
             if botMatch = [] then (None, es) else submit_comment_tasks env ev botMatch None es)
          else if \<not> checkAuthorWriteAccess env es repo author then (None, es)
          else submit_comment_tasks env ev matching None es)"

definition handleIssueComment :: "gh_env \<Rightarrow> string \<Rightarrow> gh_effect list \<Rightarrow> gh_result" where
  "handleIssueComment env body es =
     (case ge_IssueCommentEvent env body of
        Inl e \<Rightarrow> (Some (Wrap ''parse issue_comment'' e), es)
      | Inr ev \<Rightarrow>
          (case clientForEvent env es (ice_Installation ev) ''issue_comment'' of
             Some e \<Rightarrow> (Some e, es)
           | None \<Rightarrow>
               if ice_Action ev \<noteq> ''created'' then (None, es)
               else let es1 = discoverArtifacts env (co_Body (ice_Comment ev)) (ice_Repository ev) (is_Number (ice_Issue ev))
                      (is_HTMLURL (ice_Issue ev)) ''issue_comment'' es in
                 if IsPullRequest ev then pr_comment env ev es1 else issue_comment env ev es1))"

definition issue_request :: "IssueEvent \<Rightarrow> ReviewTrigger \<Rightarrow> webhook_request" where
  "issue_request ev t =
     (let issue = ie_Issue ev; repo = ie_Repository ev;
          prompt = (if rt_Prompt t \<noteq> [] then rt_Prompt t
            else ''A GitHub issue was '' @ ie_Action ev @ '' in '' @ repo @ ''.'' @ [newline, newline] @ ''Title: '' @ id_Title issue @
              [newline] @ ''URL: '' @ id_HTMLURL issue @ [newline, newline] @ ''Body:'' @ [newline] @ id_Body issue) in
      BuildIssueTaskRequest t repo (ie_Installation ev) prompt
        [(''GITHUB_REPO'', repo), (''ISSUE_NUMBER'', show_int (id_Number issue)), (''ISSUE_TITLE'', id_Title issue),
         (''ISSUE_URL'', id_HTMLURL issue), (''ISSUE_BODY'', id_Body issue), (''ISSUE_ACTION'', ie_Action ev)])"

text \<open>A submission that fails is logged and skipped, so every matching trigger is submitted once.\<close>

definition submit_issue_tasks :: "IssueEvent \<Rightarrow> ReviewTrigger list \<Rightarrow> gh_effect list \<Rightarrow> gh_effect list" where
  "submit_issue_tasks ev ts es = es @ map (Submitted \<circ> issue_request ev) ts"

definition issue_labels :: "IssueEvent \<Rightarrow> string list" where
  "issue_labels ev =
     (case ie_Label ev of Some l \<Rightarrow> if ie_Action ev = ''labeled'' then [l] else id_Labels (ie_Issue ev) | None \<Rightarrow> id_Labels (ie_Issue ev))"

definition handleIssues :: "gh_env \<Rightarrow> string \<Rightarrow> gh_effect list \<Rightarrow> gh_result" where
  "handleIssues env body es =
     (case ge_IssueEvent env body of
        Inl e \<Rightarrow> (Some (Wrap ''parse issues'' e), es)
      | Inr ev \<Rightarrow>
          (case clientForEvent env es (ie_Installation ev) ''issues'' of
             Some e \<Rightarrow> (Some e, es)
           | None \<Rightarrow>
               if ie_Action ev \<notin> {''opened'', ''labeled'', ''reopened''} then (None, es)
               else
                 let issue = ie_Issue ev; repo = ie_Repository ev;
                     es1 = (if ie_Action ev = ''opened''
                            then discoverArtifacts env (id_Body issue) repo (id_Number issue) (id_HTMLURL issue) ''issue'' es else es) in
                 case ge_issue_triggers env es1 repo of
                   Inl e \<Rightarrow> (Some (Wrap ''list issue triggers'' e), es1)
                 | Inr triggers \<Rightarrow>
                     (None, submit_issue_tasks ev
                        (filter (\<lambda>t. (rt_Event t = [] \<or> rt_Event t = ie_Action ev) \<and> TriggerMatchesLabels (rt_MatchLabels t) (issue_labels ev))
                           (case triggers of None \<Rightarrow> [] | Some ts \<Rightarrow> ts)) es1)))"

definition handle :: "gh_env \<Rightarrow> string \<Rightarrow> string \<Rightarrow> gh_effect list \<Rightarrow> gh_result" where
  "handle env event body es =
     (if event = ''pull_request'' then handlePullRequest env body es
      else if event = ''issue_comment'' then handleIssueComment env body es
      else if event = ''issues'' then handleIssues env body es
      else if event = ''pull_request_review'' then handlePullRequestReview env body es
      else if event = ''pull_request_review_comment'' then handlePullRequestReviewComment env body es
      else (None, es))"

section \<open>Who may steer an agent\<close>

text \<open>The calls that start or resume work of an agent.\<close>

fun steering :: "gh_effect \<Rightarrow> bool" where
  "steering (Resumed _ _) = True"
| "steering (Submitted _) = True"
| "steering _ = False"

text \<open>
  The person an event speaks for, with the repository: the author of a review or comment, and the
  author of a pull request that is opened or comes from a fork. Labels are set, and branches of the
  repository itself pushed, by people who have access to it already.
\<close>

definition speaks_for :: "gh_env \<Rightarrow> string \<Rightarrow> string \<Rightarrow> (string \<times> string) option" where
  "speaks_for env event body =
     (if event = ''pull_request'' then
        (case ge_PullRequestEvent env body of
           Inl _ \<Rightarrow> None
         | Inr ev \<Rightarrow>
             let head = pb_FullName (pr_Head (pe_PullRequest ev)) in
             if pe_Action ev \<noteq> ''labeled'' \<and> (pe_Action ev = ''opened'' \<or> (head \<noteq> [] \<and> head \<noteq> pe_Repository ev))
             then Some (pe_Repository ev, pr_User (pe_PullRequest ev)) else None)
      else if event = ''issue_comment'' then
        (case ge_IssueCommentEvent env body of Inl _ \<Rightarrow> None | Inr ev \<Rightarrow> Some (ice_Repository ev, co_User (ice_Comment ev)))
      else if event = ''pull_request_review'' then
        (case ge_PullRequestReviewEvent env body of Inl _ \<Rightarrow> None | Inr ev \<Rightarrow> Some (prv_Repository ev, prv_Review_User ev))
      else if event = ''pull_request_review_comment'' then
        (case ge_PullRequestReviewCommentEvent env body of
           Inl _ \<Rightarrow> None | Inr ev \<Rightarrow> Some (prc_Repository ev, co_User (prc_Comment ev)))
      else None)"

text \<open>GitHub says that the user may write to the repository, or that the user is the application itself.\<close>

definition trusted :: "gh_env \<Rightarrow> string \<Rightarrow> string \<Rightarrow> bool" where
  "trusted env repo user =
     (\<exists>h. ge_permission env h repo user \<in> {Inr ''admin'', Inr ''write'', Inr ''maintain''} \<or>
          (user \<noteq> [] \<and> ge_app_login env h = Inr user))"

lemma untrusted_denied:
  assumes "\<not> trusted env repo user"
  shows "\<not> checkAuthorWriteAccess env h repo user" and "\<not> isOwnBotLogin env h user"
proof -
  show "\<not> checkAuthorWriteAccess env h repo user"
    using assms by (auto simp: trusted_def checkAuthorWriteAccess_def CheckUserHasWriteAccess_def split: sum.split)
  show "\<not> isOwnBotLogin env h user" using assms by (auto simp: trusted_def isOwnBotLogin_def split: sum.split)
qed

lemma steering_discover [simp]: "list_all (\<lambda>e. \<not> steering e) (discoverArtifacts env text repo n url ty []) "
  by (auto simp: discoverArtifacts_def split: option.split)

text \<open>
  C26. Only trusted people steer an agent through what they write: a comment on an issue or pull
  request, a review, a comment on a review, the opening of a pull request, and any other action on a
  pull request from a fork except labelling it, resume no session and submit no task when GitHub
  never says that the author may write to the repository, or is the application, whatever triggers are
  configured and whatever else GitHub answers. Issue events, labels, and further actions on a pull
  request whose branch is in the repository itself are not covered: they start triggers whoever the
  author is.
\<close>

theorem untrusted_author_steers_nothing:
  assumes "speaks_for env event body = Some (repo, user)" and "\<not> trusted env repo user"
    and "handle env event body [] = (err, es)"
  shows "list_all (\<lambda>e. \<not> steering e) es"
proof -
  note denied = untrusted_denied [OF assms(2)]
  consider "event = ''pull_request''" | "event = ''issue_comment''" | "event = ''pull_request_review''" |
    "event = ''pull_request_review_comment''" using assms(1) by (auto simp: speaks_for_def split: if_split_asm)
  then show ?thesis
  proof cases
    case 1
    then show ?thesis using assms(1,3) denied
      by (auto simp: speaks_for_def handle_def handlePullRequest_def triggerActionFromPR_def Let_def
          split: sum.split_asm option.split_asm if_split_asm)
  next
    case 2
    then show ?thesis using assms(1,3) denied steering_discover
      by (auto simp: speaks_for_def handle_def handleIssueComment_def pr_comment_def issue_comment_def Let_def
          split: sum.split_asm option.split_asm if_split_asm)
  next
    case 3
    then show ?thesis using assms(1,3) denied
      by (auto simp: speaks_for_def handle_def handlePullRequestReview_def resumeSessionForPRFeedback_def Let_def
          split: sum.split_asm option.split_asm if_split_asm)
  next
    case 4
    then show ?thesis using assms(1,3) denied
      by (auto simp: speaks_for_def handle_def handlePullRequestReviewComment_def resumeSessionForPRFeedback_def Let_def
          split: sum.split_asm option.split_asm if_split_asm)
  qed
qed

text \<open>A pull request from a fork, commented on by someone who can only read the repository.\<close>

definition ex_pull_request :: PullRequest where
  "ex_pull_request =
     \<lparr>pr_Number = 7, pr_State = ''open'', pr_Title = ''t'', pr_Body = [],
      pr_Head = \<lparr>pb_Ref = ''fix'', pb_SHA = ''a1'', pb_FullName = ''eve/app'', pb_CloneURL = ''https://github.com/eve/app''\<rparr>,
      pr_Base = \<lparr>pb_Ref = ''main'', pb_SHA = ''b2'', pb_FullName = ''org/app'', pb_CloneURL = ''https://github.com/org/app''\<rparr>,
      pr_User = ''eve'', pr_Labels = []\<rparr>"

definition ex_pr_event :: PullRequestEvent where
  "ex_pr_event =
     \<lparr>pe_Action = ''opened'', pe_Number = 7, pe_PullRequest = ex_pull_request, pe_Label = None,
      pe_Repository = ''org/app'', pe_Installation = 1, pe_Sender = ''eve''\<rparr>"

definition ex_review_trigger :: ReviewTrigger where
  "ex_review_trigger =
     \<lparr>rt_TeamID = ''team1'', rt_Name = ''review'', rt_TriggerType = ''pr_review'', rt_Prompt = ''look'', rt_AgentImage = [],
      rt_Agent = ''pr-reviewer'', rt_ProviderID = [], rt_ModelID = [], rt_VariantID = [], rt_TimeoutSec = 60,
      rt_GitURL = ''https://github.com/org/app'', rt_GitRef = ''main'', rt_Skills = [], rt_Event = [], rt_MatchLabels = [],
      rt_SessionMode = [], rt_PauseReason = [], rt_TTLHours = 0, rt_Isolation = ''required''\<rparr>"

definition ex_issue_comment :: IssueCommentEvent where
  "ex_issue_comment =
     \<lparr>ice_Action = ''created'', ice_Comment = \<lparr>co_Body = ''please fix'', co_User = ''ann''\<rparr>,
      ice_Issue = \<lparr>is_Number = 3, is_Title = ''bug'', is_Body = [], is_HTMLURL = [], is_PullRequest = None, is_Labels = []\<rparr>,
      ice_Repository = ''org/app'', ice_Installation = 1\<rparr>"

definition ex_gh_env :: "string \<Rightarrow> gh_env" where
  "ex_gh_env permission =
     \<lparr>ge_manager = True, ge_resumer = True, ge_artifacts = True, ge_client = (\<lambda>_ _. None),
      ge_app_login = (\<lambda>_. Inr ''chetter[bot]''), ge_permission = (\<lambda>_ _ _. Inr permission),
      ge_pull_request = (\<lambda>_ _ _. Inl SqlNoRows), ge_labels = (\<lambda>_ _ _. Inr []),
      ge_pr_triggers = (\<lambda>_ _. Inr (Some [ex_review_trigger])), ge_issue_triggers = (\<lambda>_ _. Inr (Some [ex_review_trigger])),
      ge_submit = (\<lambda>_ _. None), ge_resume = (\<lambda>_ _ _. None),
      ge_PullRequestEvent = (\<lambda>_. Inr ex_pr_event), ge_PullRequestReviewEvent = (\<lambda>_. Inl SqlNoRows),
      ge_PullRequestReviewCommentEvent = (\<lambda>_. Inl SqlNoRows), ge_IssueCommentEvent = (\<lambda>_. Inr ex_issue_comment),
      ge_IssueEvent = (\<lambda>_. Inl SqlNoRows)\<rparr>"

lemma ex_gh_fields [simp]:
  "ge_manager (ex_gh_env p)" "ge_client (ex_gh_env p) es i = None" "ge_app_login (ex_gh_env p) es = Inr ''chetter[bot]''"
  "ge_permission (ex_gh_env p) es r u = Inr p" "ge_PullRequestEvent (ex_gh_env p) b = Inr ex_pr_event"
  "ge_pr_triggers (ex_gh_env p) es r = Inr (Some [ex_review_trigger])" "ge_submit (ex_gh_env p) es q = None"
  "ge_IssueCommentEvent (ex_gh_env p) b = Inr ex_issue_comment"
  "ge_issue_triggers (ex_gh_env p) es r = Inr (Some [ex_review_trigger])"
  by (simp_all add: ex_gh_env_def)

theorem untrusted_author_steers_nothing_witness:
  "speaks_for (ex_gh_env ''read'') ''pull_request'' [] = Some (''org/app'', ''eve'') \<and>
   list_all (\<lambda>e. \<not> steering e) (snd (handle (ex_gh_env ''read'') ''pull_request'' [] []))"
proof -
  let ?env = "ex_gh_env ''read''"
  have s: "speaks_for ?env ''pull_request'' [] = Some (''org/app'', ''eve'')"
    by (simp add: speaks_for_def ex_pr_event_def ex_pull_request_def Let_def)
  have u: "\<not> trusted ?env ''org/app'' ''eve''" by (simp add: trusted_def)
  show ?thesis using s untrusted_author_steers_nothing [OF s u, of "fst (handle ?env ''pull_request'' [] [])"] by simp
qed

section \<open>What is submitted\<close>

lemma submit_reviews_requests:
  "Submitted req \<in> set (snd (submit_reviews env ctx ts err es)) \<Longrightarrow>
   Submitted req \<in> set es \<or> (\<exists>t \<in> set ts. req = buildReviewTaskRequest (review_for ctx t))"
  by (induction env ctx ts err es rule: submit_reviews.induct) (auto simp: Let_def split: option.split_asm)

lemma submitReview_requests:
  assumes "Submitted req \<in> set (snd (submitReviewForTrigger env ctx triggers event es))" and "Submitted req \<notin> set es"
  shows "\<exists>ts. (triggers = Some ts \<or> ge_pr_triggers env es (rv_Repo ctx) = Inr (Some ts)) \<and>
    (\<exists>t \<in> set ts. (rt_Event t = [] \<or> rt_Event t = event) \<and> req = buildReviewTaskRequest (review_for ctx t))"
proof -
  have l: "Submitted req \<notin> set (label_review env ctx es)"
    using assms(2) by (auto simp: label_review_def split: sum.split bool.split)
  show ?thesis using assms submit_reviews_requests [of req env ctx _ None "label_review env ctx es"] l
    by (fastforce simp: submitReviewForTrigger_def Let_def split: option.split_asm sum.split_asm if_split_asm)
qed

text \<open>
  A review checks out what it reviews: every task submitted for a pull request event belongs to
  an enabled trigger of the repository for that event, with the team and isolation of the trigger,
  and a review trigger's task clones the head of the pull request, whatever repository and ref the
  trigger names.
\<close>

theorem review_checks_out_head:
  assumes "ge_PullRequestEvent env body = Inr ev" and "Submitted req \<in> set (snd (handle env ''pull_request'' body []))"
  shows "\<exists>ts t. ge_pr_triggers env [] (pe_Repository ev) = Inr (Some ts) \<and> t \<in> set ts \<and>
    rt_Event t \<in> {[], triggerActionFromPR ev (pe_Repository ev)} \<and>
    wr_TeamID req = rt_TeamID t \<and> wr_TriggerName req = rt_Name t \<and> wr_Isolation req = rt_Isolation t \<and>
    wr_GitHubRepo req = pe_Repository ev \<and> wr_GitHubInstallationID req = pe_Installation ev \<and>
    (rt_TriggerType t = ''pr_review'' \<longrightarrow>
       wr_GitURL req = pb_CloneURL (pr_Head (pe_PullRequest ev)) \<and> wr_GitRef req = pb_Ref (pr_Head (pe_PullRequest ev)))"
proof -
  let ?a = "triggerActionFromPR ev (pe_Repository ev)" and ?ctx = "pr_context ev (triggerActionFromPR ev (pe_Repository ev))"
  obtain found where f: "ge_pr_triggers env [] (pe_Repository ev) = Inr found"
    and sub: "Submitted req \<in> set (snd (submitReviewForTrigger env ?ctx found ?a []))"
    using assms by (auto simp: handle_def handlePullRequest_def Let_def split: option.split_asm sum.split_asm if_split_asm)
  have repo: "rv_Repo ?ctx = pe_Repository ev" by (simp add: pr_context_def Let_def)
  from submitReview_requests [OF sub] repo f obtain ts t where t: "ge_pr_triggers env [] (pe_Repository ev) = Inr (Some ts)"
    "t \<in> set ts" "rt_Event t = [] \<or> rt_Event t = ?a" "req = buildReviewTaskRequest (review_for ?ctx t)" by auto
  then show ?thesis by (auto simp: buildReviewTaskRequest_def review_for_def pr_context_def Let_def)
qed

theorem review_checks_out_head_witness:
  "\<exists>req. Submitted req \<in> set (snd (handle (ex_gh_env ''write'') ''pull_request'' [] [])) \<and>
     wr_GitURL req = ''https://github.com/eve/app'' \<and> wr_GitRef req = ''fix'' \<and> wr_Isolation req = ''required''"
proof -
  let ?env = "ex_gh_env ''write''" let ?ctx = "pr_context ex_pr_event ''fork''"
  let ?req = "buildReviewTaskRequest (review_for ?ctx ex_review_trigger)"
  have "checkAuthorWriteAccess ?env [] ''org/app'' ''eve''" by (simp add: checkAuthorWriteAccess_def CheckUserHasWriteAccess_def)
  moreover have "pe_Action ex_pr_event = ''opened''" "pe_Repository ex_pr_event = ''org/app''" "pe_Installation ex_pr_event = 1"
    "pr_User (pe_PullRequest ex_pr_event) = ''eve''" "triggerActionFromPR ex_pr_event ''org/app'' = ''fork''" "rt_Event ex_review_trigger = []"
    by (simp_all add: ex_pr_event_def ex_pull_request_def ex_review_trigger_def triggerActionFromPR_def Let_def)
  ultimately have r: "Submitted ?req \<in> set (snd (handle ?env ''pull_request'' [] []))"
    by (simp add: handle_def handlePullRequest_def clientForEvent_def submitReviewForTrigger_def Let_def)
  have "ge_PullRequestEvent ?env [] = Inr ex_pr_event" by simp
  from review_checks_out_head [OF this r] r show ?thesis
    by (auto simp: ex_pr_event_def ex_pull_request_def ex_review_trigger_def)
qed

text \<open>
  The tasks of issue triggers never require isolation, whatever their trigger says, and the
  application's own comments never start one: a trigger that allows them by its event does not match.
\<close>

lemma submit_issue_requests:
  "Submitted req \<in> set (submit_issue_tasks ev ts es) \<Longrightarrow> Submitted req \<in> set es \<or> wr_Isolation req = []"
  by (auto simp: submit_issue_tasks_def issue_request_def BuildIssueTaskRequest_def Let_def)

lemma submit_comment_requests:
  "Submitted req \<in> set (snd (submit_comment_tasks env ev ts err es)) \<Longrightarrow> Submitted req \<in> set es \<or> wr_Isolation req = []"
proof (induction ts arbitrary: err es)
  case (Cons t ts)
  have "wr_Isolation (comment_request ev t) = []" by (simp add: comment_request_def BuildIssueTaskRequest_def Let_def)
  with Cons.IH [of _ "es @ [Submitted (comment_request ev t)]"] Cons.prems show ?case by auto
qed simp

lemma no_submission_discovered [simp]: "Submitted req \<notin> set (discoverArtifacts env text repo n url ty [])"
  by (auto simp: discoverArtifacts_def split: option.split)

lemma comment_trigger_no_bots: "filter triggerAllowsBotComments (comment_triggers ev ts) = []"
proof -
  have "\<not> contains [] ''bot_comments:true''" "\<not> contains ''comment'' ''bot_comments:true''" by code_simp+
  then show ?thesis by (auto simp: comment_triggers_def triggerAllowsBotComments_def filter_empty_conv)
qed

text \<open>
  Issue triggers lose settings: a task submitted for an issue, or for a comment on one, never
  requires isolation, whatever its trigger asks for; no comment of the application on an issue
  starts a task, also when a trigger allows such comments; and a failed submission for an issue is
  not reported, so its delivery counts as completed.
\<close>

theorem issue_triggers_lose_settings:
  assumes "ge_IssueCommentEvent env body = Inr ev" and "\<not> IsPullRequest ev"
  shows "(Submitted req \<in> set (snd (handle env ''issues'' body [])) \<union> set (snd (handle env ''issue_comment'' body [])) \<longrightarrow>
      wr_Isolation req = []) \<and>
    ((\<forall>h. isOwnBotLogin env h (co_User (ice_Comment ev))) \<longrightarrow> Submitted req \<notin> set (snd (handle env ''issue_comment'' body []))) \<and>
    fst (handle (env\<lparr>ge_submit := f\<rparr>) ''issues'' body []) = fst (handle env ''issues'' body [])"
proof (intro conjI impI)
  assume r: "Submitted req \<in> set (snd (handle env ''issues'' body [])) \<union> set (snd (handle env ''issue_comment'' body []))"
  show "wr_Isolation req = []"
  proof (cases "Submitted req \<in> set (snd (handle env ''issues'' body []))")
    case True
    then show ?thesis
      by (auto simp: handle_def handleIssues_def Let_def split: sum.split_asm option.split_asm if_split_asm dest!: submit_issue_requests)
  next
    case False
    with r assms show ?thesis
      by (auto simp: handle_def handleIssueComment_def issue_comment_def Let_def
          split: sum.split_asm option.split_asm if_split_asm dest!: submit_comment_requests)
  qed
next
  assume "\<forall>h. isOwnBotLogin env h (co_User (ice_Comment ev))"
  with assms show "Submitted req \<notin> set (snd (handle env ''issue_comment'' body []))"
    by (auto simp: handle_def handleIssueComment_def issue_comment_def comment_trigger_no_bots Let_def split: sum.split option.split)
next
  have "clientForEvent (env\<lparr>ge_submit := f\<rparr>) = clientForEvent env" "discoverArtifacts (env\<lparr>ge_submit := f\<rparr>) = discoverArtifacts env"
    by (simp_all add: clientForEvent_def discoverArtifacts_def fun_eq_iff)
  then show "fst (handle (env\<lparr>ge_submit := f\<rparr>) ''issues'' body []) = fst (handle env ''issues'' body [])"
    by (simp add: handle_def handleIssues_def Let_def split: sum.split option.split)
qed

theorem issue_triggers_lose_settings_witness:
  "\<exists>req. Submitted req \<in> set (snd (handle (ex_gh_env ''write'') ''issue_comment'' [] [])) \<and>
     rt_Isolation ex_review_trigger = ''required'' \<and> wr_Isolation req = []"
proof -
  let ?env = "ex_gh_env ''write''"
  have ev: "ge_IssueCommentEvent ?env [] = Inr ex_issue_comment" "\<not> IsPullRequest ex_issue_comment"
    by (simp_all add: ex_issue_comment_def IsPullRequest_def)
  let ?req = "comment_request ex_issue_comment ex_review_trigger"
  have f: "ice_Action ex_issue_comment = ''created''" "ice_Installation ex_issue_comment = 1" "co_User (ice_Comment ex_issue_comment) = ''ann''"
    "rt_Event ex_review_trigger = []" "rt_MatchLabels ex_review_trigger = []"
    by (simp_all add: ex_issue_comment_def ex_review_trigger_def)
  have "checkAuthorWriteAccess ?env es r u" "\<not> isOwnBotLogin ?env es ''ann''" for es r u
    by (simp_all add: checkAuthorWriteAccess_def CheckUserHasWriteAccess_def isOwnBotLogin_def)
  then have r: "Submitted ?req \<in> set (snd (handle ?env ''issue_comment'' [] []))"
    using f ev(2) by (simp add: handle_def handleIssueComment_def issue_comment_def clientForEvent_def comment_triggers_def TriggerMatchesLabels_def Let_def)
  with issue_triggers_lose_settings [OF ev, of ?req "ge_submit ?env"] show ?thesis by (auto simp: ex_review_trigger_def)
qed

end
