(* ===== verification/Chetter_Webhook_Deliveries.thy ===== *)
theory Chetter_Webhook_Deliveries
  imports Chetter_Webhook_Events
begin

text \<open>
  The way of a GitHub event through the server: the receiver with its signature check and its memory
  of recent deliveries (\<^verbatim>\<open>internal/webhook/handler.go\<close>, \<^verbatim>\<open>dedup.go\<close>), the table of deliveries behind
  the interface \<^verbatim>\<open>DeliveryStore\<close>, and the worker that retries failed ones
  (\<^verbatim>\<open>internal/service/webhook_deliveries.go\<close>). Requests, the goroutines they leave behind, cycles of the
  worker and restarts interleave as the steps of \<open>github_step\<close>. The memory keeps its entries in the order
  in which the map is iterated.
\<close>

section \<open>Recent deliveries\<close>

record RecentDeliveries =
  rd_entries :: "(string \<times> time) list"
  rd_ttl :: time
  rd_maxSize :: int

definition NewRecentDeliveries :: "time \<Rightarrow> int \<Rightarrow> RecentDeliveries" where
  "NewRecentDeliveries ttl maxSize =
     \<lparr>rd_entries = [], rd_ttl = (if ttl \<le> 0 then 300 * second else ttl), rd_maxSize = (if maxSize \<le> 0 then 1024 else maxSize)\<rparr>"

definition evictExpired :: "time \<Rightarrow> RecentDeliveries \<Rightarrow> RecentDeliveries" where
  "evictExpired now r = r\<lparr>rd_entries := filter (\<lambda>e. \<not> now - snd e \<ge> rd_ttl r) (rd_entries r)\<rparr>"

fun oldest :: "(string \<times> time) list \<Rightarrow> (string \<times> time) option" where
  "oldest [] = None"
| "oldest (e # es) = (case oldest es of None \<Rightarrow> Some e | Some f \<Rightarrow> if snd f < snd e then Some f else Some e)"

lemma oldest_mem: "oldest es = Some e \<Longrightarrow> e \<in> set es"
  by (induction es arbitrary: e) (auto split: option.split_asm if_split_asm)

lemma oldest_None [simp]: "oldest es = None \<longleftrightarrow> es = []"
  by (cases es) (auto split: option.split)

function evict_oldest_entries :: "int \<Rightarrow> (string \<times> time) list \<Rightarrow> (string \<times> time) list" where
  "evict_oldest_entries n es =
     (if int (length es) > n then
        (case oldest es of None \<Rightarrow> es | Some e \<Rightarrow> evict_oldest_entries n (filter (\<lambda>f. fst f \<noteq> fst e) es))
      else es)"
  by pat_completeness auto
termination
  by (relation "measure (length \<circ> snd)") (auto dest!: oldest_mem intro!: length_filter_less)

declare evict_oldest_entries.simps [simp del]

definition evictOldest :: "RecentDeliveries \<Rightarrow> RecentDeliveries" where
  "evictOldest r = r\<lparr>rd_entries := evict_oldest_entries (rd_maxSize r) (rd_entries r)\<rparr>"

definition Seen :: "time \<Rightarrow> string \<Rightarrow> RecentDeliveries \<Rightarrow> bool \<times> RecentDeliveries" where
  "Seen now i r =
     (if i = [] then (False, r)
      else let r1 = evictExpired now r in
        if (case map_of (rd_entries r1) i of None \<Rightarrow> False | Some prev \<Rightarrow> now - prev < rd_ttl r1) then (True, r1)
        else let r2 = r1\<lparr>rd_entries := map_set i now (rd_entries r1)\<rparr> in
          (False, if int (length (rd_entries r2)) > rd_maxSize r2 then evictOldest (evictExpired now r2) else r2))"

lemma evict_oldest_bound: "0 \<le> n \<Longrightarrow> int (length (evict_oldest_entries n es)) \<le> n"
proof (induction n es rule: evict_oldest_entries.induct)
  case (1 n es)
  then show ?case by (subst evict_oldest_entries.simps) (auto split: option.split)
qed

lemma evict_oldest_subset: "set (evict_oldest_entries n es) \<subseteq> set es"
proof (induction n es rule: evict_oldest_entries.induct)
  case (1 n es)
  show ?case
  proof (cases "int (length es) > n")
    case True
    then show ?thesis using 1 by (subst evict_oldest_entries.simps) (auto split: option.split)
  next
    case False
    then show ?thesis by (subst evict_oldest_entries.simps) simp
  qed
qed

lemma Seen_bounded:
  assumes "int (length (rd_entries r)) \<le> rd_maxSize r" and "0 \<le> rd_maxSize r"
  shows "int (length (rd_entries (snd (Seen now i r)))) \<le> rd_maxSize (snd (Seen now i r)) \<and> rd_maxSize (snd (Seen now i r)) = rd_maxSize r"
proof -
  have "int (length (filter P (rd_entries r))) \<le> rd_maxSize r" for P
    using assms(1) length_filter_le [of P "rd_entries r"] by linarith
  then show ?thesis using assms
    by (auto simp: Seen_def Let_def evictExpired_def evictOldest_def map_set_def evict_oldest_bound)
qed

text \<open>Within its lifetime an id is recognized, as long as the memory has room.\<close>

lemma Seen_again:
  assumes "Seen now i r = (False, r')" and "i \<noteq> []" and "int (length (rd_entries r)) < rd_maxSize r"
    and "now' - now < rd_ttl r" and "0 < rd_ttl r"
  shows "fst (Seen now' i r')"
proof -
  have "length (map_set i now (filter P (rd_entries r))) \<le> Suc (length (rd_entries r))" for P by (simp add: map_set_def)
  then have "\<not> int (length (map_set i now (filter P (rd_entries r)))) > rd_maxSize r" for P
    using assms(3) by (smt (verit) of_nat_Suc of_nat_le_iff)
  then have "r' = r\<lparr>rd_entries := map_set i now (rd_entries (evictExpired now r))\<rparr>"
    using assms(1,2) by (auto simp: Seen_def Let_def evictExpired_def split: if_split_asm)
  moreover have "map_of (filter (\<lambda>x. \<not> A x \<and> fst x \<noteq> i \<and> B x) es) i = None" for A B and es :: "(string \<times> time) list"
    by (auto simp: map_of_eq_None_iff)
  ultimately show ?thesis using assms(2,4,5)
    by (simp add: Seen_def evictExpired_def map_set_def Let_def map_add_def)
qed

section \<open>The table of deliveries\<close>

record github_delivery =
  gd_id :: string
  gd_delivery_id :: string
  gd_event_type :: string
  gd_event_action :: string
  gd_payload :: string
  gd_status :: string
  gd_attempts :: int
  gd_max_attempts :: int
  gd_error :: "string option"
  gd_created_at :: time
  gd_updated_at :: time
  gd_next_attempt_at :: "time option"
  gd_processed_at :: "time option"

record RecordDeliveryParams =
  rdp_DeliveryID :: string
  rdp_EventType :: string
  rdp_Action :: string
  rdp_Payload :: string

record 's DeliveryStore =
  RecordDelivery :: "RecordDeliveryParams \<Rightarrow> 's \<Rightarrow> error + bool \<times> 's"
  MarkDeliveryProcessing :: "string \<Rightarrow> 's \<Rightarrow> error + 's"
  MarkDeliveryCompleted :: "string \<Rightarrow> 's \<Rightarrow> error + 's"
  MarkDeliveryFailed :: "string \<Rightarrow> string \<Rightarrow> 's \<Rightarrow> error + 's"

text \<open>What a call takes from outside: the clock, the random id, and the driver's error for each statement.\<close>

record github_store_env =
  gs_now :: time
  gs_id :: "string option"
  gs_insert_err :: "error option"
  gs_processing_err :: "error option"
  gs_completed_err :: "error option"
  gs_select_err :: "error option"
  gs_failed_err :: "error option"

definition failing :: "error option \<Rightarrow> 's \<Rightarrow> error + 's" where
  "failing e s = (case e of Some x \<Rightarrow> Inl x | None \<Rightarrow> Inr s)"

definition delivery_record :: "time \<Rightarrow> string \<Rightarrow> RecordDeliveryParams \<Rightarrow> github_delivery" where
  "delivery_record now i p =
     \<lparr>gd_id = i, gd_delivery_id = rdp_DeliveryID p, gd_event_type = rdp_EventType p, gd_event_action = rdp_Action p,
      gd_payload = rdp_Payload p, gd_status = ''received'', gd_attempts = 0, gd_max_attempts = 3, gd_error = None,
      gd_created_at = now, gd_updated_at = now, gd_next_attempt_at = None, gd_processed_at = None\<rparr>"

definition store_RecordDelivery ::
  "github_store_env \<Rightarrow> RecordDeliveryParams \<Rightarrow> github_delivery list \<Rightarrow> error + bool \<times> github_delivery list" where
  "store_RecordDelivery env p rows =
     bind_res (from_option generate_id_err (gs_id env)) (\<lambda>i.
       case bind_res (failing (gs_insert_err env) rows) (sql_insert2 gd_id gd_delivery_id (delivery_record (gs_now env) i p)) of
         Inl e \<Rightarrow> if isDuplicateKeyError e then Inr (False, rows) else Inl (Wrap ''insert webhook delivery'' e)
       | Inr rows' \<Rightarrow> Inr (True, rows'))"

definition store_MarkDeliveryCompleted :: "github_store_env \<Rightarrow> string \<Rightarrow> github_delivery list \<Rightarrow> error + github_delivery list" where
  "store_MarkDeliveryCompleted env deliveryID rows =
     failing (gs_completed_err env) (sql_update (\<lambda>r. gd_delivery_id r = deliveryID)
       (\<lambda>r. r\<lparr>gd_status := ''completed'', gd_processed_at := Some (gs_now env), gd_updated_at := gs_now env\<rparr>) rows)"

definition store_MarkDeliveryProcessing :: "github_store_env \<Rightarrow> string \<Rightarrow> github_delivery list \<Rightarrow> error + github_delivery list" where
  "store_MarkDeliveryProcessing env deliveryID rows =
     failing (gs_processing_err env) (sql_update (\<lambda>r. gd_delivery_id r = deliveryID)
       (\<lambda>r. r\<lparr>gd_status := ''processing'', gd_updated_at := gs_now env\<rparr>) rows)"

definition delivery_backoff :: "int \<Rightarrow> time" where
  "delivery_backoff attempts = (if attempts = 0 then 1 * second else if attempts = 1 then 5 * second else 15 * second)"

definition store_MarkDeliveryFailed :: "github_store_env \<Rightarrow> string \<Rightarrow> string \<Rightarrow> github_delivery list \<Rightarrow> error + github_delivery list" where
  "store_MarkDeliveryFailed env deliveryID errMsg rows =
     bind_res (failing (gs_select_err env) rows) (\<lambda>_.
       bind_res (sql_one (\<lambda>r. gd_delivery_id r = deliveryID) rows) (\<lambda>row.
         let newAttempts = gd_attempts row + 1; dead = newAttempts \<ge> gd_max_attempts row in
         failing (gs_failed_err env) (sql_update (\<lambda>r. gd_delivery_id r = deliveryID)
           (\<lambda>r. r\<lparr>gd_status := (if dead then ''dead_letter'' else ''failed''), gd_attempts := newAttempts, gd_error := Some errMsg,
                  gd_next_attempt_at := (if dead then None else Some (gs_now env + delivery_backoff (gd_attempts row))),
                  gd_updated_at := gs_now env\<rparr>) rows)))"

definition webhookDeliveryStore :: "github_store_env \<Rightarrow> github_delivery list DeliveryStore" where
  "webhookDeliveryStore env =
     \<lparr>RecordDelivery = store_RecordDelivery env, MarkDeliveryProcessing = store_MarkDeliveryProcessing env,
      MarkDeliveryCompleted = store_MarkDeliveryCompleted env, MarkDeliveryFailed = store_MarkDeliveryFailed env\<rparr>"

section \<open>The receiver\<close>

record HandlerConfig =
  hc_Disabled :: bool
  hc_WebhookSecret :: string
  hc_MaxBodyBytes :: int

definition verifySignature :: "(string \<Rightarrow> string \<Rightarrow> string) \<Rightarrow> string \<Rightarrow> string \<Rightarrow> string \<Rightarrow> bool" where
  "verifySignature hmac_hex secret body header =
     (if secret = [] \<or> header = [] then False
      else if \<not> prefix ''sha256='' header then False
      else ''sha256='' @ hmac_hex secret body = header)"

text \<open>An event whose goroutine has been started: its type, body and delivery id.\<close>

type_synonym github_job = "string \<times> string \<times> string"

definition github_ServeHTTP ::
  "(string \<Rightarrow> string \<Rightarrow> string) \<Rightarrow> (string \<Rightarrow> error + string) \<Rightarrow> HandlerConfig \<Rightarrow> 's DeliveryStore option \<Rightarrow> time \<Rightarrow> http_in \<Rightarrow>
   RecentDeliveries \<times> 's \<Rightarrow> nat \<times> github_job option \<times> RecentDeliveries \<times> 's" where
  "github_ServeHTTP hmac_hex parseEventAction cfg store now q = (\<lambda>(recent, s).
     if hc_Disabled cfg then (200, None, recent, s)
     else if q_method q \<noteq> ''POST'' then (405, None, recent, s)
     else (case read_limited (nat (if hc_MaxBodyBytes cfg = 0 then 5 * 1024 * 1024 else hc_MaxBodyBytes cfg)) q of
         Inl e \<Rightarrow> (400, None, recent, s)
       | Inr body \<Rightarrow>
           if \<not> verifySignature hmac_hex (hc_WebhookSecret cfg) body (header_get (q_headers q) ''X-Hub-Signature-256'')
             then (401, None, recent, s)
           else
             let deliveryID = header_get (q_headers q) ''X-GitHub-Delivery''; event = header_get (q_headers q) ''X-GitHub-Event'';
                 (seen, recent') = Seen now deliveryID recent in
             if seen then (200, None, recent', s)
             else (case store of
                 None \<Rightarrow> (200, Some (event, body, deliveryID), recent', s)
               | Some st \<Rightarrow>
                   (case RecordDelivery st \<lparr>rdp_DeliveryID = deliveryID, rdp_EventType = event,
                        rdp_Action = (case parseEventAction body of Inl e \<Rightarrow> [] | Inr a \<Rightarrow> a), rdp_Payload = body\<rparr> s of
                      Inl e \<Rightarrow> (503, None, recent', s)
                    | Inr (False, s') \<Rightarrow> (200, None, recent', s')
                    | Inr (True, s') \<Rightarrow> (200, Some (event, body, deliveryID), recent', s')))))"

definition ProcessDelivery ::
  "gh_env \<Rightarrow> 's DeliveryStore option \<Rightarrow> string \<Rightarrow> string \<Rightarrow> string \<Rightarrow> 's \<times> gh_effect list \<Rightarrow> error option \<times> 's \<times> gh_effect list" where
  "ProcessDelivery env store event body deliveryID = (\<lambda>(s, es).
     case store of
       None \<Rightarrow> (let (err, es') = handle env event body es in (err, s, es'))
     | Some st \<Rightarrow>
         (case MarkDeliveryProcessing st deliveryID s of
            Inl e \<Rightarrow> (Some e, s, es)
          | Inr s1 \<Rightarrow>
              (case handle env event body es of
                 (Some e, es') \<Rightarrow>
                   (Some e, (case MarkDeliveryFailed st deliveryID (err_text e) s1 of Inl _ \<Rightarrow> s1 | Inr s2 \<Rightarrow> s2), es')
               | (None, es') \<Rightarrow>
                   (case MarkDeliveryCompleted st deliveryID s1 of Inl e \<Rightarrow> (Some e, s1, es') | Inr s2 \<Rightarrow> (None, s2, es')))))"

section \<open>The worker\<close>

definition github_due :: "time \<Rightarrow> github_delivery list \<Rightarrow> github_delivery list" where
  "github_due now rows =
     take 10 (sql_order_asc (\<lambda>r. the (gd_next_attempt_at r))
       (filter (\<lambda>r. gd_status r = ''failed'' \<and> (case gd_next_attempt_at r of None \<Rightarrow> False | Some t \<Rightarrow> t \<le> now)) rows))"

fun retry_all ::
  "(string \<Rightarrow> gh_env) \<Rightarrow> (string \<Rightarrow> github_store_env) \<Rightarrow> github_delivery list \<Rightarrow>
   github_delivery list \<times> gh_effect list \<Rightarrow> github_delivery list \<times> gh_effect list" where
  "retry_all env senv [] st = st"
| "retry_all env senv (r # rs) st =
     retry_all env senv rs (snd (ProcessDelivery (env (gd_delivery_id r)) (Some (webhookDeliveryStore (senv (gd_delivery_id r))))
       (gd_event_type r) (gd_payload r) (gd_delivery_id r) st))"

definition retryFailedDeliveries ::
  "(string \<Rightarrow> gh_env) \<Rightarrow> (string \<Rightarrow> github_store_env) \<Rightarrow> time \<Rightarrow> github_delivery list \<times> gh_effect list \<Rightarrow> github_delivery list \<times> gh_effect list" where
  "retryFailedDeliveries env senv now st = retry_all env senv (github_due now (fst st)) st"

section \<open>The contract of a delivery store\<close>

text \<open>
  What the handler relies on: a delivery counts as created only if its id was not in the table, and
  then it is; nothing forgets an id; a refusal changes nothing.
\<close>

locale delivery_store =
  fixes store :: "'s DeliveryStore" and known :: "'s \<Rightarrow> string list"
  assumes created: "RecordDelivery store p s = Inr (True, s') \<Longrightarrow>
      rdp_DeliveryID p \<notin> set (known s) \<and> set (known s') = insert (rdp_DeliveryID p) (set (known s))"
    and refused: "RecordDelivery store p s = Inr (False, s') \<Longrightarrow> s' = s"
    and processing_keeps: "MarkDeliveryProcessing store i s = Inr s' \<Longrightarrow> known s' = known s"
    and completed_keeps: "MarkDeliveryCompleted store i s = Inr s' \<Longrightarrow> known s' = known s"
    and failed_keeps: "MarkDeliveryFailed store i e s = Inr s' \<Longrightarrow> known s' = known s"
begin

text \<open>The request carries the keyed hash of what the server read of its body.\<close>

lemma request_outcome:
  assumes "github_ServeHTTP hmac_hex act cfg (Some store) now q (recent, s) = (code, job, recent', s')"
  shows "(case job of
      None \<Rightarrow> s' = s
    | Some (event, body, i) \<Rightarrow>
        code = 200 \<and> hc_WebhookSecret cfg \<noteq> [] \<and>
        header_get (q_headers q) ''X-Hub-Signature-256'' = ''sha256='' @ hmac_hex (hc_WebhookSecret cfg) body \<and>
        prefix body (q_body q) \<and> i = header_get (q_headers q) ''X-GitHub-Delivery'' \<and>
        i \<notin> set (known s) \<and> set (known s') = insert i (set (known s)))"
  using assms
  by (auto simp: github_ServeHTTP_def verifySignature_def read_limited_def take_is_prefix Let_def case_prod_unfold
      dest!: created refused split: if_split_asm sum.split_asm option.split_asm bool.split_asm)

lemma processing_keeps_known:
  "ProcessDelivery env (Some store) event body i (s, es) = (err, s', es') \<Longrightarrow> known s' = known s"
  by (auto simp: ProcessDelivery_def dest!: processing_keeps completed_keeps failed_keeps
      split: sum.split_asm prod.split_asm option.split_asm)

end

lemma record_delivery_cases:
  assumes "store_RecordDelivery env p rows = Inr (c, rows')"
  obtains "\<not> c" "rows' = rows"
  | i where "c" "rows' = rows @ [delivery_record (gs_now env) i p]" "i \<notin> gd_id ` set rows" "rdp_DeliveryID p \<notin> gd_delivery_id ` set rows"
proof -
  obtain i where i: "gs_id env = Some i" using assms by (auto simp: store_RecordDelivery_def)
  let ?ins = "bind_res (failing (gs_insert_err env) rows) (sql_insert2 gd_id gd_delivery_id (delivery_record (gs_now env) i p))"
  show thesis
  proof (cases ?ins)
    case (Inl e)
    then show thesis using assms i that(1) by (auto simp: store_RecordDelivery_def split: if_split_asm)
  next
    case (Inr r)
    then have "c" "rows' = r" using assms i by (simp_all add: store_RecordDelivery_def del: bind_res_Inr_iff)
    then show thesis using Inr that(2) [of i]
      by (auto simp: failing_def sql_insert2_def delivery_record_def split: option.split_asm if_split_asm)
  qed
qed

text \<open>The marks change the rows of one delivery only, and none of their fixed columns.\<close>

lemma marks_keep:
  assumes "store_MarkDeliveryProcessing env i rows = Inr rows' \<or> store_MarkDeliveryCompleted env i rows = Inr rows' \<or>
    store_MarkDeliveryFailed env i e rows = Inr rows'"
  shows "map (\<lambda>r. (gd_id r, gd_delivery_id r, gd_event_type r, gd_payload r, gd_max_attempts r)) rows' =
      map (\<lambda>r. (gd_id r, gd_delivery_id r, gd_event_type r, gd_payload r, gd_max_attempts r)) rows"
    and "filter (\<lambda>r. gd_delivery_id r \<noteq> i) rows' = filter (\<lambda>r. gd_delivery_id r \<noteq> i) rows"
proof -
  obtain f where f: "rows' = sql_update (\<lambda>r. gd_delivery_id r = i) f rows"
    and k: "\<And>r. (gd_id (f r), gd_delivery_id (f r), gd_event_type (f r), gd_payload (f r), gd_max_attempts (f r)) =
      (gd_id r, gd_delivery_id r, gd_event_type r, gd_payload r, gd_max_attempts r)"
    using assms
    by (auto simp: store_MarkDeliveryProcessing_def store_MarkDeliveryCompleted_def store_MarkDeliveryFailed_def failing_def Let_def
        split: option.split_asm)
  show "map (\<lambda>r. (gd_id r, gd_delivery_id r, gd_event_type r, gd_payload r, gd_max_attempts r)) rows' =
      map (\<lambda>r. (gd_id r, gd_delivery_id r, gd_event_type r, gd_payload r, gd_max_attempts r)) rows"
    unfolding f sql_update_def using k by simp
  show "filter (\<lambda>r. gd_delivery_id r \<noteq> i) rows' = filter (\<lambda>r. gd_delivery_id r \<noteq> i) rows"
    unfolding f using k by (induction rows) (auto simp: sql_update_def)
qed

lemma marks_keep_ids:
  assumes "store_MarkDeliveryProcessing env i rows = Inr rows' \<or> store_MarkDeliveryCompleted env i rows = Inr rows' \<or>
    store_MarkDeliveryFailed env i e rows = Inr rows'"
  shows "map gd_delivery_id rows' = map gd_delivery_id rows"
  using arg_cong [OF marks_keep(1) [OF assms], of "map (\<lambda>x. fst (snd x))"] by (simp add: comp_def)

interpretation table_store: delivery_store "webhookDeliveryStore env" "map gd_delivery_id" for env
proof
  fix p s s'
  assume "RecordDelivery (webhookDeliveryStore env) p s = Inr (True, s')"
  then show "rdp_DeliveryID p \<notin> set (map gd_delivery_id s) \<and> set (map gd_delivery_id s') = insert (rdp_DeliveryID p) (set (map gd_delivery_id s))"
    unfolding webhookDeliveryStore_def DeliveryStore.simps by (cases rule: record_delivery_cases) (auto simp: delivery_record_def)
next
  fix p s s'
  assume "RecordDelivery (webhookDeliveryStore env) p s = Inr (False, s')"
  then show "s' = s" unfolding webhookDeliveryStore_def DeliveryStore.simps by (cases rule: record_delivery_cases) auto
qed (simp_all add: webhookDeliveryStore_def, (blast intro: marks_keep_ids)+)

section \<open>Runs\<close>

record github_state =
  gh_recent :: RecentDeliveries
  gh_rows :: "github_delivery list"
  gh_jobs :: "github_job list"
  gh_effects :: "gh_effect list"

datatype github_label =
    Requested http_in "github_job option"
  | Handled "github_job list"
  | Restarted

text \<open>
  A request may leave a job behind; a goroutine takes its job, or is cut off by the end of the process
  after it handled the event; the worker runs a cycle; the process starts anew with an empty memory and
  no jobs. The label of a step lists the events that were handled in it, each with its type, body and
  delivery id. The steps are those of one server process: a second process would run a worker of its
  own, which takes the same rows without a lock, and rows are not pruned.
\<close>

definition handled_jobs :: "(string \<Rightarrow> github_store_env) \<Rightarrow> github_job list \<Rightarrow> github_job list" where
  "handled_jobs senv js = filter (\<lambda>j. gs_processing_err (senv (snd (snd j))) = None) js"

definition row_job :: "github_delivery \<Rightarrow> github_job" where
  "row_job r = (gd_event_type r, gd_payload r, gd_delivery_id r)"

definition handled_ids :: "(string \<Rightarrow> github_store_env) \<Rightarrow> string list \<Rightarrow> string list" where
  "handled_ids senv is = filter (\<lambda>i. gs_processing_err (senv i) = None) is"

inductive github_step ::
  "(string \<Rightarrow> string \<Rightarrow> string) \<Rightarrow> (string \<Rightarrow> error + string) \<Rightarrow> HandlerConfig \<Rightarrow> github_state \<Rightarrow> github_label \<Rightarrow> github_state \<Rightarrow> bool"
  for hmac_hex act cfg where
  request: "github_ServeHTTP hmac_hex act cfg (Some (webhookDeliveryStore senv)) now q (gh_recent s, gh_rows s) = (code, job, recent', rows') \<Longrightarrow>
    github_step hmac_hex act cfg s (Requested q job)
      (s\<lparr>gh_recent := recent', gh_rows := rows', gh_jobs := gh_jobs s @ (case job of None \<Rightarrow> [] | Some j \<Rightarrow> [j])\<rparr>)"
| work: "gh_jobs s = xs @ (event, body, i) # ys \<Longrightarrow>
    ProcessDelivery env (Some (webhookDeliveryStore senv)) event body i (gh_rows s, gh_effects s) = (err, rows', es') \<Longrightarrow>
    github_step hmac_hex act cfg s (Handled (handled_jobs (\<lambda>_. senv) [(event, body, i)])) (s\<lparr>gh_rows := rows', gh_jobs := xs @ ys, gh_effects := es'\<rparr>)"
| cut_off: "(event, body, i) \<in> set (gh_jobs s) \<Longrightarrow> store_MarkDeliveryProcessing senv i (gh_rows s) = Inr rows' \<Longrightarrow>
    github_step hmac_hex act cfg s (Handled [(event, body, i)])
      (s\<lparr>gh_recent := NewRecentDeliveries (300 * second) 4096, gh_rows := rows', gh_jobs := [],
         gh_effects := snd (handle env event body (gh_effects s))\<rparr>)"
| cycle: "retryFailedDeliveries env senv now (gh_rows s, gh_effects s) = (rows', es') \<Longrightarrow>
    github_step hmac_hex act cfg s (Handled (handled_jobs senv (map row_job (github_due now (gh_rows s)))))
      (s\<lparr>gh_rows := rows', gh_effects := es'\<rparr>)"
| restart: "github_step hmac_hex act cfg s Restarted
    (s\<lparr>gh_recent := NewRecentDeliveries (300 * second) 4096, gh_jobs := []\<rparr>)"

inductive github_run ::
  "(string \<Rightarrow> string \<Rightarrow> string) \<Rightarrow> (string \<Rightarrow> error + string) \<Rightarrow> HandlerConfig \<Rightarrow> github_state \<Rightarrow> github_label list \<Rightarrow> github_state \<Rightarrow> bool"
  for hmac_hex act cfg where
  github_start: "github_run hmac_hex act cfg s [] s"
| github_more: "github_step hmac_hex act cfg s l s1 \<Longrightarrow> github_run hmac_hex act cfg s1 ls s' \<Longrightarrow> github_run hmac_hex act cfg s (l # ls) s'"

section \<open>One delivery through the table\<close>

definition with_id :: "string \<Rightarrow> github_delivery \<Rightarrow> github_delivery list \<Rightarrow> github_delivery list" where
  "with_id i r' rows = map (\<lambda>x. if gd_delivery_id x = i then r' else x) rows"

text \<open>What processing a delivery may do to its row.\<close>

definition processed :: "github_store_env \<Rightarrow> github_delivery \<Rightarrow> github_delivery \<Rightarrow> bool" where
  "processed senv r r' =
     (if gs_processing_err senv \<noteq> None then r' = r
      else gd_delivery_id r' = gd_delivery_id r \<and> gd_max_attempts r' = gd_max_attempts r \<and>
        ((gd_status r' \<in> {''processing'', ''completed''} \<and> gd_attempts r' = gd_attempts r) \<or>
         (gd_status r' = ''failed'' \<and> gd_attempts r' = gd_attempts r + 1 \<and> gd_attempts r' < gd_max_attempts r \<and> gd_next_attempt_at r' \<noteq> None) \<or>
         (gd_status r' = ''dead_letter'' \<and> gd_attempts r' = gd_attempts r + 1 \<and> gd_max_attempts r \<le> gd_attempts r')))"

lemma update_one:
  assumes "distinct (map gd_delivery_id rows)" and "r \<in> set rows"
  shows "sql_update (\<lambda>x. gd_delivery_id x = gd_delivery_id r) f rows = with_id (gd_delivery_id r) (f r) rows"
  unfolding sql_update_def with_id_def
proof (rule map_cong [OF refl])
  fix x assume "x \<in> set rows"
  with assms have "gd_delivery_id x = gd_delivery_id r \<Longrightarrow> x = r" by (metis distinct_map inj_onD)
  then show "(if gd_delivery_id x = gd_delivery_id r then f x else x) = (if gd_delivery_id x = gd_delivery_id r then f r else x)" by auto
qed

lemma find_one:
  assumes "distinct (map gd_delivery_id rows)" and "r \<in> set rows"
  shows "find (\<lambda>x. gd_delivery_id x = gd_delivery_id r) rows = Some r"
  using assms by (induction rows) auto

lemma with_id_props:
  assumes "gd_delivery_id r' = i"
  shows "map gd_delivery_id (with_id i r' rows) = map gd_delivery_id rows"
    and "with_id i r2 (with_id i r' rows) = with_id i r2 rows"
    and "i \<in> gd_delivery_id ` set rows \<Longrightarrow> r' \<in> set (with_id i r' rows)"
  using assms by (auto simp: with_id_def)

lemma with_id_same: "distinct (map gd_delivery_id rows) \<Longrightarrow> r \<in> set rows \<Longrightarrow> with_id (gd_delivery_id r) r rows = rows"
  using update_one [of rows r "\<lambda>x. x"] by (simp add: sql_update_def)

lemma process_row:
  assumes "distinct (map gd_delivery_id rows)" and "r \<in> set rows"
    and "ProcessDelivery env (Some (webhookDeliveryStore senv)) event body (gd_delivery_id r) (rows, es) = (err, rows', es')"
  obtains r' where "rows' = with_id (gd_delivery_id r) r' rows" "processed senv r r'"
proof (cases "gs_processing_err senv")
  case (Some e)
  then have "rows' = rows" using assms(3)
    by (simp add: ProcessDelivery_def webhookDeliveryStore_def store_MarkDeliveryProcessing_def failing_def)
  then show thesis using with_id_same [OF assms(1,2)] Some by (intro that [of r]) (simp_all add: processed_def)
next
  case None
  let ?i = "gd_delivery_id r" and ?r1 = "r\<lparr>gd_status := ''processing'', gd_updated_at := gs_now senv\<rparr>"
  let ?rows1 = "with_id ?i ?r1 rows"
  have one: "store_MarkDeliveryProcessing senv ?i rows = Inr ?rows1"
    using None update_one [OF assms(1,2)] by (simp add: store_MarkDeliveryProcessing_def failing_def)
  have d1: "distinct (map gd_delivery_id ?rows1)" and m1: "?r1 \<in> set ?rows1"
    using assms(1,2) with_id_props(1,3) [of ?r1 ?i rows] by auto
  have upd: "sql_update (\<lambda>x. gd_delivery_id x = ?i) f ?rows1 = with_id ?i (f ?r1) rows" for f
    using update_one [OF d1 m1, of f] with_id_props(2) [of ?r1 ?i] by simp
  have found: "sql_one (\<lambda>x. gd_delivery_id x = ?i) ?rows1 = Inr ?r1"
    using find_one [OF d1 m1] by (simp add: sql_one_def)
  have "rows' = ?rows1 \<or> store_MarkDeliveryCompleted senv ?i ?rows1 = Inr rows' \<or> (\<exists>e. store_MarkDeliveryFailed senv ?i e ?rows1 = Inr rows')"
    using assms(3) one by (auto simp: ProcessDelivery_def webhookDeliveryStore_def split: sum.split_asm prod.split_asm option.split_asm)
  then have "\<exists>r'. rows' = with_id ?i r' rows \<and> processed senv r r'"
  proof (elim disjE exE)
    assume "store_MarkDeliveryCompleted senv ?i ?rows1 = Inr rows'"
    then have "rows' = with_id ?i (?r1\<lparr>gd_status := ''completed'', gd_processed_at := Some (gs_now senv), gd_updated_at := gs_now senv\<rparr>) rows"
      using upd by (auto simp: store_MarkDeliveryCompleted_def failing_def split: option.split_asm)
    moreover have "processed senv r (?r1\<lparr>gd_status := ''completed'', gd_processed_at := Some (gs_now senv), gd_updated_at := gs_now senv\<rparr>)"
      using None by (simp add: processed_def)
    ultimately show ?thesis by blast
  next
    fix e assume f: "store_MarkDeliveryFailed senv ?i e ?rows1 = Inr rows'"
    let ?dead = "gd_attempts r + 1 \<ge> gd_max_attempts r"
    let ?r2 = "?r1\<lparr>gd_status := (if ?dead then ''dead_letter'' else ''failed''), gd_attempts := gd_attempts r + 1, gd_error := Some e,
        gd_next_attempt_at := (if ?dead then None else Some (gs_now senv + delivery_backoff (gd_attempts r))), gd_updated_at := gs_now senv\<rparr>"
    have "rows' = with_id ?i ?r2 rows"
      using f upd found by (auto simp: store_MarkDeliveryFailed_def failing_def Let_def split: option.split_asm)
    moreover have "processed senv r ?r2" using None by (simp add: processed_def)
    ultimately show ?thesis by blast
  qed (use None in \<open>auto simp: processed_def\<close>)
  then show thesis using that by blast
qed

section \<open>Attempts\<close>

text \<open>Rows in the states the code knows, with attempts left while they may be handled again.\<close>

definition row_ok :: "github_delivery \<Rightarrow> bool" where
  "row_ok r =
     (gd_max_attempts r = 3 \<and> 0 \<le> gd_attempts r \<and>
      (gd_status r \<in> {''received'', ''processing'', ''completed'', ''failed''} \<and> gd_attempts r < 3 \<or>
       gd_status r = ''dead_letter'' \<and> gd_attempts r = 3) \<and>
      (gd_status r = ''failed'' \<longrightarrow> gd_next_attempt_at r \<noteq> None))"

definition table_ok :: "github_delivery list \<Rightarrow> bool" where
  "table_ok rows = (distinct (map gd_delivery_id rows) \<and> list_all row_ok rows)"

text \<open>How often a delivery may still be handled.\<close>

definition runs_left :: "string \<Rightarrow> github_delivery list \<Rightarrow> int" where
  "runs_left i rows =
     (case find (\<lambda>r. gd_delivery_id r = i) rows of
        None \<Rightarrow> 3
      | Some r \<Rightarrow> if gd_status r \<in> {''received'', ''failed''} then gd_max_attempts r - gd_attempts r else 0)"

lemma find_snoc: "find P (xs @ [x]) = (case find P xs of None \<Rightarrow> if P x then Some x else None | Some y \<Rightarrow> Some y)"
  by (induction xs) simp_all

lemma find_with_id:
  assumes "gd_delivery_id r' = j" and "j \<in> gd_delivery_id ` set rows"
  shows "find (\<lambda>r. gd_delivery_id r = i) (with_id j r' rows) = (if i = j then Some r' else find (\<lambda>r. gd_delivery_id r = i) rows)"
proof (cases "i = j")
  case True
  then show ?thesis using assms(2) by (induction rows) (auto simp: with_id_def assms(1))
next
  case False
  then show ?thesis using assms(1) by (induction rows) (simp_all add: with_id_def)
qed

lemma runs_left_row: "distinct (map gd_delivery_id rows) \<Longrightarrow> r \<in> set rows \<Longrightarrow>
  runs_left (gd_delivery_id r) rows = (if gd_status r \<in> {''received'', ''failed''} then gd_max_attempts r - gd_attempts r else 0)"
  by (simp add: runs_left_def find_one)

lemma process_table_ok:
  assumes "table_ok rows" and "r \<in> set rows" and "gd_status r \<in> {''received'', ''failed''}"
    and "ProcessDelivery env (Some (webhookDeliveryStore senv)) event body (gd_delivery_id r) (rows, es) = (err, rows', es')"
  shows "table_ok rows' \<and> map gd_delivery_id rows' = map gd_delivery_id rows \<and>
    (\<forall>x. gd_delivery_id x \<noteq> gd_delivery_id r \<longrightarrow> (x \<in> set rows' \<longleftrightarrow> x \<in> set rows)) \<and>
    (\<forall>i. runs_left i rows' + int (count_list (handled_ids (\<lambda>_. senv) [gd_delivery_id r]) i) \<le> runs_left i rows)"
proof -
  have d: "distinct (map gd_delivery_id rows)" and ok: "row_ok r" using assms(1,2) by (auto simp: table_ok_def list_all_iff)
  obtain r' where r': "rows' = with_id (gd_delivery_id r) r' rows" "processed senv r r'"
    by (rule process_row [OF d assms(2,4)])
  have i: "gd_delivery_id r' = gd_delivery_id r" and ok': "row_ok r'"
    using r'(2) ok assms(3) by (auto simp: processed_def row_ok_def split: if_split_asm)
  have ids: "map gd_delivery_id rows' = map gd_delivery_id rows" using with_id_props(1) [OF i] r'(1) by simp
  have mem: "r' \<in> set rows'" using with_id_props(3) [OF i] assms(2) r'(1) by simp
  have d': "distinct (map gd_delivery_id rows')" using d ids by simp
  have "list_all row_ok rows'" using assms(1) ok' r'(1) by (auto simp: table_ok_def list_all_iff with_id_def)
  then have t: "table_ok rows'" using d' by (simp add: table_ok_def)
  have "runs_left j rows' + int (count_list (handled_ids (\<lambda>_. senv) [gd_delivery_id r]) j) \<le> runs_left j rows" for j
  proof (cases "j = gd_delivery_id r")
    case True
    have "runs_left j rows' = (if gd_status r' \<in> {''received'', ''failed''} then gd_max_attempts r' - gd_attempts r' else 0)"
      using runs_left_row [OF d' mem] True i by simp
    moreover have "runs_left j rows = gd_max_attempts r - gd_attempts r" using runs_left_row [OF d assms(2)] True assms(3) by simp
    ultimately show ?thesis using True r'(2) ok assms(3)
      by (auto simp: handled_ids_def processed_def row_ok_def split: if_split_asm)
  next
    case False
    have "find (\<lambda>x. gd_delivery_id x = j) rows' = find (\<lambda>x. gd_delivery_id x = j) rows"
      using find_with_id [OF i, of rows j] assms(2) r'(1) False by auto
    then show ?thesis using False by (simp add: runs_left_def handled_ids_def)
  qed
  moreover have "x \<in> set rows' \<longleftrightarrow> x \<in> set rows" if "gd_delivery_id x \<noteq> gd_delivery_id r" for x
    using that r'(1) i by (auto simp: with_id_def)
  ultimately show ?thesis using t ids by blast
qed

lemma handled_ids_Cons: "handled_ids senv (i # is) = handled_ids (\<lambda>_. senv i) [i] @ handled_ids senv is"
  by (simp add: handled_ids_def)

lemma retry_table_ok:
  assumes "table_ok rows" and "set rs \<subseteq> set rows" and "distinct (map gd_delivery_id rs)" and "\<forall>r \<in> set rs. gd_status r = ''failed''"
    and "retry_all env senv rs (rows, es) = (rows', es')"
  shows "table_ok rows' \<and> map gd_delivery_id rows' = map gd_delivery_id rows \<and>
    (\<forall>x. gd_delivery_id x \<notin> gd_delivery_id ` set rs \<longrightarrow> (x \<in> set rows' \<longleftrightarrow> x \<in> set rows)) \<and>
    (\<forall>i. runs_left i rows' + int (count_list (handled_ids senv (map gd_delivery_id rs)) i) \<le> runs_left i rows)"
  using assms
proof (induction rs arbitrary: rows es)
  case Nil
  then show ?case by (simp add: handled_ids_def)
next
  case (Cons r rs)
  obtain err rows1 es1 where p: "ProcessDelivery (env (gd_delivery_id r)) (Some (webhookDeliveryStore (senv (gd_delivery_id r))))
      (gd_event_type r) (gd_payload r) (gd_delivery_id r) (rows, es) = (err, rows1, es1)" by (metis prod_cases3)
  have r: "r \<in> set rows" "gd_status r \<in> {''received'', ''failed''}" using Cons.prems(2,4) by auto
  note one = process_table_ok [OF Cons.prems(1) r p]
  have sub: "set rs \<subseteq> set rows1"
  proof
    fix x assume x: "x \<in> set rs"
    from imageI [OF this, of gd_delivery_id] have "gd_delivery_id x \<noteq> gd_delivery_id r" using Cons.prems(3) by auto
    then show "x \<in> set rows1" using one x Cons.prems(2) by auto
  qed
  have run: "retry_all env senv rs (rows1, es1) = (rows', es')" using Cons.prems(5) p by simp
  have rest: "distinct (map gd_delivery_id rs)" "\<forall>r \<in> set rs. gd_status r = ''failed''" using Cons.prems(3,4) by simp_all
  note two = Cons.IH [OF conjunct1 [OF one] sub rest run]
  have "runs_left i rows' + int (count_list (handled_ids senv (map gd_delivery_id (r # rs))) i) \<le> runs_left i rows" for i
  proof -
    have "runs_left i rows1 + int (count_list (handled_ids (\<lambda>_. senv (gd_delivery_id r)) [gd_delivery_id r]) i) \<le> runs_left i rows"
      using one by blast
    moreover have "runs_left i rows' + int (count_list (handled_ids senv (map gd_delivery_id rs)) i) \<le> runs_left i rows1"
      using two by blast
    ultimately show ?thesis by (simp add: handled_ids_Cons [of senv "gd_delivery_id r"] del: handled_ids_def)
  qed
  then show ?case using one two by auto
qed

lemma due_props:
  assumes "table_ok rows"
  shows "set (github_due now rows) \<subseteq> set rows" and "distinct (map gd_delivery_id (github_due now rows))"
    and "\<forall>r \<in> set (github_due now rows). gd_status r = ''failed''"
proof -
  show sub: "set (github_due now rows) \<subseteq> set rows" "\<forall>r \<in> set (github_due now rows). gd_status r = ''failed''"
    by (auto simp: github_due_def sql_order_asc_def dest!: in_set_takeD)
  have "distinct rows" "inj_on gd_delivery_id (set rows)" using assms by (auto simp: table_ok_def distinct_map)
  then show "distinct (map gd_delivery_id (github_due now rows))"
    using sub(1) by (auto simp: distinct_map github_due_def sql_order_asc_def intro: inj_on_subset)
qed

text \<open>Every goroutine that has not started yet has a row that waits for it.\<close>

definition github_ok :: "github_state \<Rightarrow> bool" where
  "github_ok s =
     (table_ok (gh_rows s) \<and> distinct (map (snd \<circ> snd) (gh_jobs s)) \<and>
      (\<forall>i \<in> (snd \<circ> snd) ` set (gh_jobs s). \<exists>r \<in> set (gh_rows s). gd_delivery_id r = i \<and> gd_status r = ''received''))"

lemma job_row: "github_ok s \<Longrightarrow> j \<in> (snd \<circ> snd) ` set (gh_jobs s) \<Longrightarrow>
    \<exists>r \<in> set (gh_rows s). gd_delivery_id r = j \<and> gd_status r = ''received''"
  unfolding github_ok_def by (elim conjE) (drule (1) bspec)

fun events_of :: "github_label \<Rightarrow> github_job list" where
  "events_of (Handled js) = js"
| "events_of _ = []"

definition handled_of :: "github_label \<Rightarrow> string list" where
  "handled_of l = map (snd \<circ> snd) (events_of l)"

lemma handled_of_simps [simp]:
  "handled_of (Requested q job) = []" "handled_of Restarted = []" "handled_of (Handled [(event, body, i)]) = [i]"
  "handled_of (Handled (handled_jobs senv [(event, body, i)])) = handled_ids senv [i]"
  "handled_of (Handled (handled_jobs senv (map row_job rs))) = handled_ids senv (map gd_delivery_id rs)"
  by (induction rs) (simp_all add: handled_of_def handled_jobs_def handled_ids_def row_job_def)

lemma request_row:
  assumes "github_ServeHTTP hmac_hex act cfg (Some (webhookDeliveryStore senv)) now q (recent, rows) = (code, job, recent', rows')"
  shows "(job = None \<and> rows' = rows) \<or>
    (\<exists>e b i r. job = Some (e, b, i) \<and> rows' = rows @ [r] \<and> gd_delivery_id r = i \<and> gd_status r = ''received'' \<and>
       gd_attempts r = 0 \<and> gd_max_attempts r = 3 \<and> i \<notin> gd_delivery_id ` set rows \<and> row_job r = (e, b, i))"
proof -
  have rec: "RecordDelivery (webhookDeliveryStore senv) p rows = Inr (c, r') \<Longrightarrow> (\<not> c \<and> r' = rows) \<or>
      (c \<and> (\<exists>r. r' = rows @ [r] \<and> gd_delivery_id r = rdp_DeliveryID p \<and> gd_status r = ''received'' \<and> gd_attempts r = 0 \<and>
         gd_max_attempts r = 3 \<and> rdp_DeliveryID p \<notin> gd_delivery_id ` set rows \<and>
         row_job r = (rdp_EventType p, rdp_Payload p, rdp_DeliveryID p)))" for p c r'
    unfolding webhookDeliveryStore_def DeliveryStore.simps by (erule record_delivery_cases) (auto simp: delivery_record_def row_job_def)
  show ?thesis using assms
    by (auto simp: github_ServeHTTP_def Let_def case_prod_unfold dest!: rec
        split: if_split_asm sum.split_asm option.split_asm bool.split_asm)
qed

lemma github_step_ok:
  assumes "github_step hmac_hex act cfg s l s'" and "github_ok s"
  shows "github_ok s' \<and> (\<forall>i. runs_left i (gh_rows s') + int (count_list (handled_of l) i) \<le> runs_left i (gh_rows s))"
  using assms
proof (induction rule: github_step.induct)
  case (request senv now q s code job recent' rows')
  from request_row [OF request(1)] show ?case
  proof (elim disjE exE conjE)
    assume "job = None" "rows' = gh_rows s"
    then show ?thesis using request(2) by (simp add: github_ok_def)
  next
    fix e b i r
    assume j: "job = Some (e, b, i)" "rows' = gh_rows s @ [r]" and r: "gd_delivery_id r = i" "gd_status r = ''received''"
      "gd_attempts r = 0" "gd_max_attempts r = 3" "i \<notin> gd_delivery_id ` set (gh_rows s)"
    have "i \<notin> (snd \<circ> snd) ` set (gh_jobs s)" using job_row [OF request(2)] r(5) by (metis image_eqI)
    moreover have "row_ok r" using r by (simp add: row_ok_def)
    moreover have "find (\<lambda>x. gd_delivery_id x = i) (gh_rows s) = None" using r(5) by (auto simp: find_None_iff)
    then have "runs_left k (gh_rows s @ [r]) \<le> runs_left k (gh_rows s)" for k
      using r(1-4) by (cases "k = i") (auto simp: runs_left_def find_snoc split: option.split)
    ultimately show ?thesis using request(2) j r by (auto simp: github_ok_def table_ok_def)
  qed
next
  case (work s xs event body i ys env senv err rows' es')
  obtain r where r: "r \<in> set (gh_rows s)" "gd_delivery_id r = i" "gd_status r = ''received''"
    using work(1,3) by (auto simp: github_ok_def)
  have t: "table_ok (gh_rows s)" and st: "gd_status r \<in> {''received'', ''failed''}" using work(3) r(3) by (auto simp: github_ok_def)
  note p = process_table_ok [OF t r(1) st, unfolded r(2), OF work(2)]
  have "\<exists>x \<in> set rows'. gd_delivery_id x = j \<and> gd_status x = ''received''" if "j \<in> (snd \<circ> snd) ` set (xs @ ys)" for j
  proof -
    have "distinct (map (snd \<circ> snd) xs @ i # map (snd \<circ> snd) ys)" using work(1,3) by (simp add: github_ok_def)
    then have "i \<notin> set (map (snd \<circ> snd) xs) \<union> set (map (snd \<circ> snd) ys)" by (metis UnE distinct.simps(2) disjoint_iff distinct_append list.set_intros(1))
    then have ne: "j \<noteq> i" using that by (metis image_Un set_append set_map)
    have "j \<in> (snd \<circ> snd) ` set (gh_jobs s)" using that work(1) by auto
    then obtain x where "x \<in> set (gh_rows s)" "gd_delivery_id x = j" "gd_status x = ''received''"
      using job_row [OF work(3)] by blast
    then show ?thesis using p ne by metis
  qed
  then show ?case using p work(1,3) by (auto simp: github_ok_def)
next
  case (cut_off event body i s senv rows' env)
  have "i \<in> (snd \<circ> snd) ` set (gh_jobs s)" using imageI [OF cut_off(1), of "snd \<circ> snd"] by simp
  then obtain r where r: "r \<in> set (gh_rows s)" "gd_delivery_id r = i" "gd_status r = ''received''"
    using job_row [OF cut_off(3)] by blast
  let ?r' = "r\<lparr>gd_status := ''processing'', gd_updated_at := gs_now senv\<rparr>"
  have t: "table_ok (gh_rows s)" using cut_off(3) by (simp add: github_ok_def)
  then have d: "distinct (map gd_delivery_id (gh_rows s))" and ok: "row_ok r" using r(1) by (auto simp: table_ok_def list_all_iff)
  have rows': "rows' = with_id i ?r' (gh_rows s)"
    using cut_off(2) update_one [OF d r(1)] r(2) by (auto simp: store_MarkDeliveryProcessing_def failing_def split: option.split_asm)
  have i: "gd_delivery_id ?r' = i" using r(2) by simp
  have "list_all row_ok rows'" using t ok r(3) rows' by (auto simp: table_ok_def list_all_iff with_id_def row_ok_def)
  then have "table_ok rows'" using d with_id_props(1) [OF i] rows' by (simp add: table_ok_def)
  moreover have "runs_left k rows' + int (count_list [i] k) \<le> runs_left k (gh_rows s)" for k
    using find_with_id [OF i, of "gh_rows s" k] imageI [OF r(1), of gd_delivery_id] r(2,3) rows' ok find_one [OF d r(1)]
    by (auto simp: runs_left_def row_ok_def)
  ultimately show ?case by (simp add: github_ok_def)
next
  case (cycle env senv now s rows' es')
  have t: "table_ok (gh_rows s)" using cycle(2) by (simp add: github_ok_def)
  have run: "retry_all env senv (github_due now (gh_rows s)) (gh_rows s, gh_effects s) = (rows', es')"
    using cycle(1) by (simp add: retryFailedDeliveries_def)
  note p = retry_table_ok [OF t due_props [OF t] run]
  have "\<exists>x \<in> set rows'. gd_delivery_id x = j \<and> gd_status x = ''received''" if j: "j \<in> (snd \<circ> snd) ` set (gh_jobs s)" for j
  proof -
    obtain x where x: "x \<in> set (gh_rows s)" "gd_delivery_id x = j" "gd_status x = ''received''"
      using job_row [OF cycle(2) j] by blast
    have "gd_delivery_id x \<notin> gd_delivery_id ` set (github_due now (gh_rows s))"
    proof
      assume "gd_delivery_id x \<in> gd_delivery_id ` set (github_due now (gh_rows s))"
      then obtain y where y: "y \<in> set (github_due now (gh_rows s))" "gd_delivery_id y = gd_delivery_id x" by auto
      then have "y = x" using due_props(1) [OF t] x(1) t unfolding table_ok_def distinct_map inj_on_def by blast
      then show False using y(1) due_props(3) [OF t] x(3) by auto
    qed
    then show ?thesis using p x by metis
  qed
  then show ?case using p cycle(2) by (auto simp: github_ok_def)
qed (auto simp: github_ok_def)

lemma github_run_ok:
  "github_run hmac_hex act cfg s ls s' \<Longrightarrow> github_ok s \<Longrightarrow>
   github_ok s' \<and> (\<forall>i. runs_left i (gh_rows s') + int (count_list (concat (map handled_of ls)) i) \<le> runs_left i (gh_rows s))"
proof (induction rule: github_run.induct)
  case (github_more s l s1 ls s')
  have one: "github_ok s1" "runs_left i (gh_rows s1) + int (count_list (handled_of l) i) \<le> runs_left i (gh_rows s)" for i
    using github_step_ok [OF github_more(1,4)] by auto
  have two: "github_ok s'" "runs_left i (gh_rows s') + int (count_list (concat (map handled_of ls)) i) \<le> runs_left i (gh_rows s1)" for i
    using github_more(3) [OF one(1)] by auto
  have "runs_left i (gh_rows s') + int (count_list (concat (map handled_of (l # ls))) i) \<le> runs_left i (gh_rows s)" for i
    using one(2) [of i] two(2) [of i] by simp
  then show ?case using two(1) by blast
qed simp

definition github_initial :: github_state where
  "github_initial = \<lparr>gh_recent = NewRecentDeliveries (300 * second) 4096, gh_rows = [], gh_jobs = [], gh_effects = []\<rparr>"

lemma runs_left_nonneg: "table_ok rows \<Longrightarrow> 0 \<le> runs_left i rows"
  by (auto simp: runs_left_def table_ok_def list_all_iff row_ok_def split: option.split dest!: find_SomeD)

text \<open>
  C28. With one server process, whose worker runs its cycles one after the other, and while no row is
  pruned, an event of GitHub is handled at most three times, however requests, goroutines, cycles,
  failures of the database and restarts follow each other; and every row of the table stays
  in a state the code knows, dead after its third failed attempt and with a time for the next one
  while it has failed less often. Nothing of this holds for several replicas: their workers take no
  lock and count attempts by reading and then writing.
\<close>

theorem github_event_handled_at_most_thrice:
  assumes "github_run hmac_hex act cfg github_initial ls s"
  shows "count_list (concat (map handled_of ls)) i \<le> 3 \<and> list_all row_ok (gh_rows s)"
proof -
  have start: "github_ok github_initial" by (simp add: github_ok_def github_initial_def table_ok_def)
  note run = github_run_ok [OF assms start]
  have "0 \<le> runs_left i (gh_rows s)" using run runs_left_nonneg by (auto simp: github_ok_def)
  moreover have "runs_left i (gh_rows github_initial) = 3" by (simp add: runs_left_def github_initial_def)
  moreover have "runs_left i (gh_rows s) + int (count_list (concat (map handled_of ls)) i) \<le> runs_left i (gh_rows github_initial)"
    using run by blast
  ultimately have "count_list (concat (map handled_of ls)) i \<le> 3" by linarith
  then show ?thesis using run by (simp add: github_ok_def table_ok_def)
qed

text \<open>The jobs a run accepted, each with its request.\<close>

fun accepted_of :: "github_label \<Rightarrow> (http_in \<times> github_job) list" where
  "accepted_of (Requested q (Some j)) = [(q, j)]"
| "accepted_of _ = []"

definition job_id :: "http_in \<times> github_job \<Rightarrow> string" where
  "job_id x = snd (snd (snd x))"

definition signed :: "(string \<Rightarrow> string \<Rightarrow> string) \<Rightarrow> string \<Rightarrow> http_in \<times> github_job \<Rightarrow> bool" where
  "signed hmac_hex secret = (\<lambda>(q, event, body, i).
     secret \<noteq> [] \<and> header_get (q_headers q) ''X-Hub-Signature-256'' = ''sha256='' @ hmac_hex secret body \<and>
     prefix body (q_body q) \<and> i = header_get (q_headers q) ''X-GitHub-Delivery'')"

lemma retry_keeps_ids: "map gd_delivery_id (fst (retry_all env senv rs st)) = map gd_delivery_id (fst st)"
proof (induction rs arbitrary: st)
  case (Cons r rs)
  obtain err rows1 es1 where p: "ProcessDelivery (env (gd_delivery_id r)) (Some (webhookDeliveryStore (senv (gd_delivery_id r))))
      (gd_event_type r) (gd_payload r) (gd_delivery_id r) (fst st, snd st) = (err, rows1, es1)" by (metis prod_cases3)
  from table_store.processing_keeps_known [OF this] p Cons.IH [of "(rows1, es1)"] show ?case by simp
qed simp

lemma github_step_accepts:
  assumes "github_step hmac_hex act cfg s l s'"
  shows "list_all (signed hmac_hex (hc_WebhookSecret cfg)) (accepted_of l) \<and>
    set (map gd_delivery_id (gh_rows s')) = set (map gd_delivery_id (gh_rows s)) \<union> job_id ` set (accepted_of l) \<and>
    job_id ` set (accepted_of l) \<inter> set (map gd_delivery_id (gh_rows s)) = {}"
  using assms
proof (induction rule: github_step.induct)
  case (request senv now q s code job recent' rows')
  from table_store.request_outcome [OF request] show ?case by (cases job) (auto simp: signed_def job_id_def)
next
  case (work s xs event body i ys env senv err rows' es')
  from table_store.processing_keeps_known [OF work(2)] show ?case by (simp add: handled_ids_def)
next
  case (cut_off event body i s senv rows' env)
  have "map gd_delivery_id rows' = map gd_delivery_id (gh_rows s)" using cut_off(2) by (blast intro: marks_keep_ids)
  from arg_cong [OF this, of set] show ?case by simp
next
  case (cycle env senv now s rows' es')
  then have "map gd_delivery_id rows' = map gd_delivery_id (gh_rows s)"
    using retry_keeps_ids [of env senv _ "(gh_rows s, gh_effects s)"] by (metis fst_conv retryFailedDeliveries_def)
  from arg_cong [OF this, of set] show ?case by simp
qed simp

text \<open>What waits in the table or in a goroutine came with a request that was accepted.\<close>

definition originates :: "github_job set \<Rightarrow> github_state \<Rightarrow> bool" where
  "originates A s \<longleftrightarrow> row_job ` set (gh_rows s) \<subseteq> A \<and> set (gh_jobs s) \<subseteq> A"

lemma fixed_row_jobs:
  assumes "map (\<lambda>r. (gd_id r, gd_delivery_id r, gd_event_type r, gd_payload r, gd_max_attempts r)) rows' =
      map (\<lambda>r. (gd_id r, gd_delivery_id r, gd_event_type r, gd_payload r, gd_max_attempts r)) rows"
  shows "map row_job rows' = map row_job rows"
  using arg_cong [OF assms, of "map (\<lambda>(i, d, e, p, n). (e, p, d))"] by (simp add: row_job_def [abs_def] comp_def)

lemma process_row_jobs:
  assumes "ProcessDelivery env (Some (webhookDeliveryStore senv)) event body i (rows, es) = (err, rows', es')"
  shows "map row_job rows' = map row_job rows"
proof -
  have mark: "map row_job r2 = map row_job r1"
    if "store_MarkDeliveryProcessing senv i r1 = Inr r2 \<or> store_MarkDeliveryCompleted senv i r1 = Inr r2 \<or>
      store_MarkDeliveryFailed senv i e r1 = Inr r2" for e r1 r2
    using fixed_row_jobs [OF marks_keep(1) [OF that]] .
  have first: "store_MarkDeliveryProcessing senv i r1 = Inr r2 \<Longrightarrow> map row_job r2 = map row_job r1" for r1 r2
    using mark [where e = "[]"] by blast
  have last: "store_MarkDeliveryCompleted senv i r1 = Inr r2 \<Longrightarrow> map row_job r2 = map row_job r1"
    "store_MarkDeliveryFailed senv i e r1 = Inr r2 \<Longrightarrow> map row_job r2 = map row_job r1" for e r1 r2
    using mark by blast+
  show ?thesis using assms
    by (auto simp: ProcessDelivery_def webhookDeliveryStore_def dest!: first last
        split: sum.split_asm prod.split_asm option.split_asm)
qed

lemma retry_row_jobs: "map row_job (fst (retry_all env senv rs st)) = map row_job (fst st)"
proof (induction rs arbitrary: st)
  case (Cons r rs)
  obtain err rows1 es1 where p: "ProcessDelivery (env (gd_delivery_id r)) (Some (webhookDeliveryStore (senv (gd_delivery_id r))))
      (gd_event_type r) (gd_payload r) (gd_delivery_id r) (fst st, snd st) = (err, rows1, es1)" by (metis prod_cases3)
  from process_row_jobs [OF this] p Cons.IH [of "(rows1, es1)"] show ?case by simp
qed simp

lemma handled_jobs_subset: "set (handled_jobs senv js) \<subseteq> set js"
  by (auto simp: handled_jobs_def)

lemma originates_step:
  assumes "github_step hmac_hex act cfg s l s'" and "originates A s"
  shows "originates (A \<union> snd ` set (accepted_of l)) s'" and "set (events_of l) \<subseteq> A"
proof -
  have "originates (A \<union> snd ` set (accepted_of l)) s' \<and> set (events_of l) \<subseteq> A"
    using assms
  proof (induction rule: github_step.induct)
    case (request senv now q s code job recent' rows')
    have old: "row_job ` set (gh_rows s) \<subseteq> A" "set (gh_jobs s) \<subseteq> A" using request(2) by (simp_all add: originates_def)
    from request_row [OF request(1)] show ?case
    proof (elim disjE exE conjE)
      fix e b i r assume "job = Some (e, b, i)" "rows' = gh_rows s @ [r]" "row_job r = (e, b, i)"
      then show ?thesis using old unfolding originates_def by (simp add: subset_insertI2)
    qed (use old in \<open>simp add: originates_def\<close>)
  next
    case (work s xs event body i ys env senv err rows' es')
    have "row_job ` set rows' = row_job ` set (gh_rows s)"
      using arg_cong [OF process_row_jobs [OF work(2)], of set] by simp
    then show ?case using work(1,3) handled_jobs_subset [of "\<lambda>_. senv" "[(event, body, i)]"] by (auto simp: originates_def)
  next
    case (cut_off event body i s senv rows' env)
    have "map row_job rows' = map row_job (gh_rows s)"
      using fixed_row_jobs marks_keep(1) cut_off(2) by blast
    then have "row_job ` set rows' = row_job ` set (gh_rows s)" by (metis set_map)
    then show ?case using cut_off(1,3) by (auto simp: originates_def)
  next
    case (cycle env senv now s rows' es')
    have "map row_job rows' = map row_job (gh_rows s)"
      using cycle(1) retry_row_jobs [of env senv _ "(gh_rows s, gh_effects s)"] by (metis fst_conv retryFailedDeliveries_def)
    then have "row_job ` set rows' = row_job ` set (gh_rows s)" by (metis set_map)
    moreover have "set (github_due now (gh_rows s)) \<subseteq> set (gh_rows s)"
      by (auto simp: github_due_def sql_order_asc_def dest!: in_set_takeD)
    then have "set (handled_jobs senv (map row_job (github_due now (gh_rows s)))) \<subseteq> row_job ` set (gh_rows s)"
      using handled_jobs_subset [of senv "map row_job (github_due now (gh_rows s))"] unfolding set_map by blast
    ultimately show ?case using cycle(2) unfolding originates_def by auto
  qed (simp add: originates_def)
  then show "originates (A \<union> snd ` set (accepted_of l)) s'" and "set (events_of l) \<subseteq> A" by blast+
qed

lemma originates_run:
  assumes "github_run hmac_hex act cfg s ls s'" and "originates A s"
  shows "set (concat (map events_of ls)) \<subseteq> A \<union> snd ` set (concat (map accepted_of ls))"
  using assms
proof (induction arbitrary: A rule: github_run.induct)
  case (github_more s l s1 ls s')
  note one = originates_step [OF github_more(1,4)]
  from github_more(3) [OF one(1)] one(2) show ?case by auto
qed simp

lemma github_run_accepts:
  assumes "github_run hmac_hex act cfg s ls s'"
  shows "list_all (signed hmac_hex (hc_WebhookSecret cfg)) (concat (map accepted_of ls)) \<and>
    distinct (map job_id (concat (map accepted_of ls))) \<and>
    job_id ` set (concat (map accepted_of ls)) \<inter> set (map gd_delivery_id (gh_rows s)) = {} \<and>
    set (map gd_delivery_id (gh_rows s')) = set (map gd_delivery_id (gh_rows s)) \<union> job_id ` set (concat (map accepted_of ls))"
  using assms
proof (induction rule: github_run.induct)
  case (github_more s l s1 ls s')
  let ?A = "accepted_of l" and ?B = "concat (map accepted_of ls)" and ?known = "\<lambda>s. set (map gd_delivery_id (gh_rows s))"
  have one: "list_all (signed hmac_hex (hc_WebhookSecret cfg)) ?A" "?known s1 = ?known s \<union> job_id ` set ?A" "job_id ` set ?A \<inter> ?known s = {}"
    using github_step_accepts [OF github_more(1)] by simp_all
  have two: "list_all (signed hmac_hex (hc_WebhookSecret cfg)) ?B" "distinct (map job_id ?B)" "job_id ` set ?B \<inter> ?known s1 = {}"
    "?known s' = ?known s1 \<union> job_id ` set ?B"
    using github_more(3) by blast+
  have "distinct (map job_id ?A)" by (cases l rule: accepted_of.cases) simp_all
  moreover have "job_id ` set ?A \<inter> job_id ` set ?B = {}" "job_id ` (set ?A \<union> set ?B) \<inter> ?known s = {}"
    "?known s' = ?known s \<union> job_id ` (set ?A \<union> set ?B)"
    using one(2,3) two(3,4) unfolding image_Un by blast+
  moreover have "concat (map accepted_of (l # ls)) = ?A @ ?B" by simp
  ultimately show ?case using one(1) two(1,2) unfolding map_append distinct_append set_append set_map list_all_append by simp
qed simp


section \<open>Lost deliveries\<close>

text \<open>The row waits for a goroutine, and there is none.\<close>

definition stranded :: "github_delivery \<Rightarrow> github_state \<Rightarrow> bool" where
  "stranded r s = (r \<in> set (gh_rows s) \<and> gd_status r \<in> {''received'', ''processing''} \<and> gd_delivery_id r \<notin> (snd \<circ> snd) ` set (gh_jobs s))"

lemma not_due:
  assumes "table_ok rows" and "r \<in> set rows" and "gd_status r \<noteq> ''failed''"
  shows "gd_delivery_id r \<notin> gd_delivery_id ` set (github_due now rows)"
proof
  assume "gd_delivery_id r \<in> gd_delivery_id ` set (github_due now rows)"
  then obtain y where y: "y \<in> set (github_due now rows)" "gd_delivery_id y = gd_delivery_id r" by auto
  then have "y = r" using due_props(1) [OF assms(1)] assms(1,2) unfolding table_ok_def distinct_map inj_on_def by blast
  then show False using y(1) due_props(3) [OF assms(1)] assms(3) by auto
qed

lemma stranded_step:
  assumes "github_step hmac_hex act cfg s l s'" and "github_ok s" and "stranded r s"
  shows "stranded r s' \<and> gd_delivery_id r \<notin> set (handled_of l) \<and> gd_delivery_id r \<notin> job_id ` set (accepted_of l)"
  using assms
proof (induction rule: github_step.induct)
  case (request senv now q s code job recent' rows')
  have "gd_delivery_id r \<in> gd_delivery_id ` set (gh_rows s)" using request(3) by (simp add: stranded_def)
  from request_row [OF request(1)] show ?case
  proof (elim disjE exE conjE)
    fix e b i x
    assume j: "job = Some (e, b, i)" "rows' = gh_rows s @ [x]" and i: "i \<notin> gd_delivery_id ` set (gh_rows s)"
    then have "gd_delivery_id r \<noteq> i" using \<open>gd_delivery_id r \<in> gd_delivery_id ` set (gh_rows s)\<close> by metis
    then show ?thesis using request(3) j by (auto simp: stranded_def job_id_def)
  qed (use request(3) in \<open>simp add: stranded_def\<close>)
next
  case (work s xs event body i ys env senv err rows' es')
  have i: "i \<in> (snd \<circ> snd) ` set (gh_jobs s)" using work(1) by simp
  then have ne: "gd_delivery_id r \<noteq> i" using work(4) by (auto simp: stranded_def)
  obtain x where x: "x \<in> set (gh_rows s)" "gd_delivery_id x = i" "gd_status x = ''received''" using job_row [OF work(3) i] by blast
  have t: "table_ok (gh_rows s)" and st: "gd_status x \<in> {''received'', ''failed''}" using work(3) x(3) by (auto simp: github_ok_def)
  have "r \<in> set rows'" using process_table_ok [OF t x(1) st, unfolded x(2), OF work(2)] ne work(4) by (auto simp: stranded_def)
  moreover have "gd_delivery_id r \<notin> (snd \<circ> snd) ` set (xs @ ys)" using work(1,4) unfolding stranded_def by auto
  ultimately show ?case using ne work(4) by (simp add: stranded_def handled_ids_def)
next
  case (cut_off event body i s senv rows' env)
  have "i \<in> (snd \<circ> snd) ` set (gh_jobs s)" using imageI [OF cut_off(1), of "snd \<circ> snd"] by simp
  then have ne: "gd_delivery_id r \<noteq> i" using cut_off(4) unfolding stranded_def by metis
  have "filter (\<lambda>r. gd_delivery_id r \<noteq> i) rows' = filter (\<lambda>r. gd_delivery_id r \<noteq> i) (gh_rows s)"
    using marks_keep(2) cut_off(2) by blast
  moreover have "r \<in> set (filter (\<lambda>r. gd_delivery_id r \<noteq> i) (gh_rows s))" using ne cut_off(4) by (simp add: stranded_def)
  ultimately have "r \<in> set (filter (\<lambda>r. gd_delivery_id r \<noteq> i) rows')" by metis
  then have "r \<in> set rows'" by simp
  then show ?case using ne cut_off(4) by (simp add: stranded_def)
next
  case (cycle env senv now s rows' es')
  have t: "table_ok (gh_rows s)" using cycle(2) by (simp add: github_ok_def)
  have run: "retry_all env senv (github_due now (gh_rows s)) (gh_rows s, gh_effects s) = (rows', es')"
    using cycle(1) by (simp add: retryFailedDeliveries_def)
  have rs: "r \<in> set (gh_rows s)" "gd_status r \<noteq> ''failed''" using cycle(3) by (auto simp: stranded_def)
  note nd = not_due [OF t rs, of now]
  then have "r \<in> set rows'" using retry_table_ok [OF t due_props [OF t] run] cycle(3) by (auto simp: stranded_def)
  then show ?case using nd cycle(3) by (simp add: stranded_def handled_ids_def)
qed (simp add: stranded_def)

text \<open>
  C29. A restart of the one server process loses events: when it ends while the row of a delivery is
  still received or processing, the row waits for ever. In every continuation of the run, whatever is
  redelivered and however often the retry worker runs, its event is not handled, a redelivery of it
  starts nothing, and the row stays as it is. (A row that was marked failed before is retried.)
\<close>

theorem restart_loses_delivery:
  assumes "github_run hmac_hex act cfg github_initial ls s" and "r \<in> set (gh_rows s)" and "gd_status r \<in> {''received'', ''processing''}"
    and "github_step hmac_hex act cfg s Restarted s1" and "github_run hmac_hex act cfg s1 ls' s'"
  shows "r \<in> set (gh_rows s') \<and> gd_delivery_id r \<notin> set (concat (map handled_of ls')) \<and>
    gd_delivery_id r \<notin> job_id ` set (concat (map accepted_of ls'))"
proof -
  have start: "github_ok github_initial" by (simp add: github_ok_def github_initial_def table_ok_def)
  have "github_ok s" using github_run_ok [OF assms(1) start] by simp
  then have ok: "github_ok s1" using github_step_ok [OF assms(4)] by simp
  have st: "stranded r s1" using assms(2-4) by (auto simp: stranded_def elim: github_step.cases)
  have "github_run hmac_hex act cfg s1 ls' s' \<Longrightarrow> github_ok s1 \<Longrightarrow> stranded r s1 \<Longrightarrow>
    stranded r s' \<and> gd_delivery_id r \<notin> set (concat (map handled_of ls')) \<and> gd_delivery_id r \<notin> job_id ` set (concat (map accepted_of ls'))"
    for s1 ls' s'
  proof (induction rule: github_run.induct)
    case (github_more s l s1 ls s')
    from stranded_step [OF github_more(1,4,5)] github_step_ok [OF github_more(1,4)] github_more(3)
    show ?case by (simp add: image_Un)
  qed simp
  from this [OF assms(5) ok st] show ?thesis by (simp add: stranded_def)
qed

text \<open>
  An outage loses events too: when a request is answered with 503 because its delivery could not
  be recorded, a redelivery of it within the lifetime of the memory is answered with 200 and neither
  recorded nor handled, since the memory has the id already.
\<close>

theorem outage_swallows_redelivery:
  assumes "github_ServeHTTP hmac_hex act cfg store now q (recent, s) = (503, None, recent', s1)"
    and "header_get (q_headers q) ''X-GitHub-Delivery'' \<noteq> []" and "int (length (rd_entries recent)) < rd_maxSize recent"
    and "now' - now < rd_ttl recent" and "0 < rd_ttl recent"
  shows "\<exists>recent2. github_ServeHTTP hmac_hex act cfg store' now' q (recent', s2) = (200, None, recent2, s2)"
proof -
  let ?i = "header_get (q_headers q) ''X-GitHub-Delivery''"
  have "Seen now ?i recent = (False, recent')" and pass: "\<not> hc_Disabled cfg" "q_method q = ''POST''"
    "\<exists>body. read_limited (nat (if hc_MaxBodyBytes cfg = 0 then 5 * 1024 * 1024 else hc_MaxBodyBytes cfg)) q = Inr body \<and>
       verifySignature hmac_hex (hc_WebhookSecret cfg) body (header_get (q_headers q) ''X-Hub-Signature-256'')"
    using assms(1) by (auto simp: github_ServeHTTP_def Let_def case_prod_unfold prod_eq_iff
        split: if_split_asm sum.split_asm option.split_asm bool.split_asm)
  from Seen_again [OF this(1) assms(2-5)] pass show ?thesis
    by (auto simp: github_ServeHTTP_def Let_def case_prod_unfold)
qed

section \<open>An example\<close>

definition ex_hook :: http_in where
  "ex_hook =
     \<lparr>q_method = ''POST'', q_path = ''/webhook'',
      q_headers = [(''X-Hub-Signature-256'', ''sha256=h''), (''X-Github-Delivery'', ''d1''), (''X-Github-Event'', ''ping'')],
      q_body = ''{}'', q_body_err = None, q_remote_addr = ''10.0.0.1:4000''\<rparr>"

definition ex_hook_cfg :: HandlerConfig where
  "ex_hook_cfg = \<lparr>hc_Disabled = False, hc_WebhookSecret = ''s'', hc_MaxBodyBytes = 10\<rparr>"

definition ex_hook_env :: github_store_env where
  "ex_hook_env = \<lparr>gs_now = 5, gs_id = Some ''dvr_1'', gs_insert_err = None, gs_processing_err = None, gs_completed_err = None,
     gs_select_err = None, gs_failed_err = None\<rparr>"

definition ex_hook_row :: github_delivery where
  "ex_hook_row = delivery_record 5 ''dvr_1'' \<lparr>rdp_DeliveryID = ''d1'', rdp_EventType = ''ping'', rdp_Action = [], rdp_Payload = ''{}''\<rparr>"

definition ex_hook_state :: github_state where
  "ex_hook_state = \<lparr>gh_recent = \<lparr>rd_entries = [(''d1'', 5)], rd_ttl = 300 * second, rd_maxSize = 4096\<rparr>, gh_rows = [ex_hook_row],
     gh_jobs = [(''ping'', ''{}'', ''d1'')], gh_effects = []\<rparr>"

lemma ex_hook_headers:
  "header_get (q_headers ex_hook) ''X-Hub-Signature-256'' = ''sha256=h''" "header_get (q_headers ex_hook) ''X-GitHub-Delivery'' = ''d1''"
  "header_get (q_headers ex_hook) ''X-GitHub-Event'' = ''ping''"
  by code_simp+

lemma ex_hook_serve:
  "github_ServeHTTP (\<lambda>_ _. ''h'') (\<lambda>_. Inr []) ex_hook_cfg (Some (webhookDeliveryStore env)) 5 ex_hook (gh_recent github_initial, []) =
     (case RecordDelivery (webhookDeliveryStore env) \<lparr>rdp_DeliveryID = ''d1'', rdp_EventType = ''ping'', rdp_Action = [], rdp_Payload = ''{}''\<rparr> [] of
        Inl e \<Rightarrow> (503, None, gh_recent ex_hook_state, [])
      | Inr (False, s') \<Rightarrow> (200, None, gh_recent ex_hook_state, s')
      | Inr (True, s') \<Rightarrow> (200, Some (''ping'', ''{}'', ''d1''), gh_recent ex_hook_state, s'))"
proof -
  have b: "read_limited (nat (if hc_MaxBodyBytes ex_hook_cfg = 0 then 5 * 1024 * 1024 else hc_MaxBodyBytes ex_hook_cfg)) ex_hook = Inr ''{}''"
    by (simp add: ex_hook_cfg_def ex_hook_def read_limited_def)
  have s: "Seen 5 ''d1'' (gh_recent github_initial) = (False, gh_recent ex_hook_state)"
    by (simp add: Seen_def evictExpired_def github_initial_def NewRecentDeliveries_def map_set_def ex_hook_state_def Let_def)
  show ?thesis
    unfolding github_ServeHTTP_def b ex_hook_headers
    by (simp add: s Let_def verifySignature_def) (simp add: ex_hook_cfg_def ex_hook_def)
qed

lemma ex_hook_step:
  "github_step (\<lambda>_ _. ''h'') (\<lambda>_. Inr []) ex_hook_cfg github_initial (Requested ex_hook (Some (''ping'', ''{}'', ''d1''))) ex_hook_state"
proof -
  have "RecordDelivery (webhookDeliveryStore ex_hook_env)
      \<lparr>rdp_DeliveryID = ''d1'', rdp_EventType = ''ping'', rdp_Action = [], rdp_Payload = ''{}''\<rparr> [] = Inr (True, [ex_hook_row])"
    by (simp add: webhookDeliveryStore_def store_RecordDelivery_def ex_hook_env_def failing_def sql_insert2_def ex_hook_row_def)
  with ex_hook_serve [of ex_hook_env] have "github_ServeHTTP (\<lambda>_ _. ''h'') (\<lambda>_. Inr []) ex_hook_cfg (Some (webhookDeliveryStore ex_hook_env)) 5 ex_hook
      (gh_recent github_initial, gh_rows github_initial) = (200, Some (''ping'', ''{}'', ''d1''), gh_recent ex_hook_state, [ex_hook_row])"
    by (simp add: github_initial_def)
  from github_step.request [OF this] show ?thesis by (simp add: github_initial_def ex_hook_state_def)
qed

lemma ex_hook_handled:
  "\<exists>s. github_run (\<lambda>_ _. ''h'') (\<lambda>_. Inr []) ex_hook_cfg github_initial
      [Requested ex_hook (Some (''ping'', ''{}'', ''d1'')), Handled [(''ping'', ''{}'', ''d1'')]] s"
proof -
  have "(''ping'', ''{}'', ''d1'') \<in> set (gh_jobs ex_hook_state)" by (simp add: ex_hook_state_def)
  moreover obtain rows' where "store_MarkDeliveryProcessing ex_hook_env ''d1'' (gh_rows ex_hook_state) = Inr rows'"
    by (simp add: store_MarkDeliveryProcessing_def ex_hook_env_def failing_def)
  ultimately obtain s where "github_step (\<lambda>_ _. ''h'') (\<lambda>_. Inr []) ex_hook_cfg ex_hook_state (Handled [(''ping'', ''{}'', ''d1'')]) s"
    using github_step.cut_off by blast
  then show ?thesis by (intro exI, rule github_more [OF ex_hook_step github_more [OF _ github_start]])
qed

theorem github_event_handled_at_most_thrice_witness:
  "\<exists>ls s. github_run (\<lambda>_ _. ''h'') (\<lambda>_. Inr []) ex_hook_cfg github_initial ls s \<and>
     count_list (concat (map handled_of ls)) ''d1'' = 1 \<and> list_all row_ok (gh_rows s)"
proof -
  obtain s where run: "github_run (\<lambda>_ _. ''h'') (\<lambda>_. Inr []) ex_hook_cfg github_initial
      [Requested ex_hook (Some (''ping'', ''{}'', ''d1'')), Handled [(''ping'', ''{}'', ''d1'')]] s" using ex_hook_handled by blast
  moreover have "list_all row_ok (gh_rows s)" using github_event_handled_at_most_thrice [OF run] by simp
  moreover have "count_list (concat (map handled_of [Requested ex_hook (Some (''ping'', ''{}'', ''d1'')), Handled [(''ping'', ''{}'', ''d1'')]])) ''d1'' = 1" by simp
  ultimately show ?thesis by blast
qed

lemma ex_hook_run:
  "github_run (\<lambda>_ _. ''h'') (\<lambda>_. Inr []) ex_hook_cfg github_initial [Requested ex_hook (Some (''ping'', ''{}'', ''d1''))] ex_hook_state"
  by (rule github_more [OF ex_hook_step github_start])

lemma singleton_list: "set xs = {x} \<Longrightarrow> distinct xs \<Longrightarrow> xs = [x]"
proof (cases xs)
  case (Cons y ys)
  then show "set xs = {x} \<Longrightarrow> distinct xs \<Longrightarrow> xs = [x]" by (cases ys) auto
qed simp


theorem restart_loses_delivery_witness:
  "\<exists>s1. github_step (\<lambda>_ _. ''h'') (\<lambda>_. Inr []) ex_hook_cfg ex_hook_state Restarted s1 \<and> gd_status ex_hook_row = ''received'' \<and>
     ex_hook_row \<in> set (gh_rows s1)"
proof -
  have r: "ex_hook_row \<in> set (gh_rows ex_hook_state)" "gd_status ex_hook_row = ''received''"
    by (simp_all add: ex_hook_state_def ex_hook_row_def delivery_record_def)
  obtain s1 where s1: "github_step (\<lambda>_ _. ''h'') (\<lambda>_. Inr []) ex_hook_cfg ex_hook_state Restarted s1" using github_step.restart by blast
  from restart_loses_delivery [OF ex_hook_run r(1) _ s1 github_start] r s1 show ?thesis by auto
qed

theorem outage_swallows_redelivery_witness:
  "\<exists>recent2. github_ServeHTTP (\<lambda>_ _. ''h'') (\<lambda>_. Inr []) ex_hook_cfg (Some (webhookDeliveryStore ex_hook_env)) 6 ex_hook
     (gh_recent ex_hook_state, []) = (200, None, recent2, [])"
proof -
  have "\<not> isDuplicateKeyError (DbError ''down'')" by code_simp
  then have "RecordDelivery (webhookDeliveryStore (ex_hook_env\<lparr>gs_insert_err := Some (DbError ''down'')\<rparr>))
      \<lparr>rdp_DeliveryID = ''d1'', rdp_EventType = ''ping'', rdp_Action = [], rdp_Payload = ''{}''\<rparr> [] =
      Inl (Wrap ''insert webhook delivery'' (DbError ''down''))"
    by (simp add: webhookDeliveryStore_def store_RecordDelivery_def ex_hook_env_def failing_def)
  with ex_hook_serve have "github_ServeHTTP (\<lambda>_ _. ''h'') (\<lambda>_. Inr []) ex_hook_cfg
      (Some (webhookDeliveryStore (ex_hook_env\<lparr>gs_insert_err := Some (DbError ''down'')\<rparr>))) 5 ex_hook (gh_recent github_initial, []) =
      (503, None, gh_recent ex_hook_state, [])" by simp
  from outage_swallows_redelivery [OF this, of 6 "Some (webhookDeliveryStore ex_hook_env)" "[]"] ex_hook_headers(2)
  show ?thesis by (simp add: github_initial_def NewRecentDeliveries_def second_def)
qed

end
