(* ===== verification/Chetter_Runner_GitHub.thy ===== *)
theory Chetter_Runner_GitHub
  imports Chetter_Webhook_Events Chetter_Examples
begin

text \<open>
  The GitHub operations a runner asks the server for (\<^verbatim>\<open>internal/service/runner_github_rpc.go\<close>,
  the signature of \<^verbatim>\<open>github_tools.go\<close> and \<^verbatim>\<open>RecordArtifact\<close> and \<^verbatim>\<open>LogAuditEvent\<close> of
  \<^verbatim>\<open>service.go\<close>). Every request to GitHub is a value of \<open>gh_call\<close> and is recorded in the state;
  while one is under way other connections may change the database. The theorems: every call to a
  repository is made for a running execution the caller holds, on a repository of its task; a
  credential is handed out only if that still holds after the token was issued; the actions on the
  primary repository of a task go through one installation; and the webhook that GitHub sends for
  what was created leads back to the execution that created it.
\<close>

section \<open>Signatures (github_tools.go)\<close>

definition task_link :: "string \<Rightarrow> string \<Rightarrow> string" where
  "task_link web_url taskID =
     (if web_url = [] then taskID
      else ''['' @ taskID @ '']('' @ rev (dropWhile (\<lambda>c. c = CHR ''/'') (rev web_url)) @ ''/tasks/'' @ taskID @ '')'')"

definition githubToolSignatureForContext :: "string \<Rightarrow> string \<Rightarrow> string \<Rightarrow> string \<Rightarrow> string \<Rightarrow> db \<Rightarrow> string" where
  "githubToolSignatureForContext web_url taskID agentSessionID userPromptID executionAttemptID d =
     ''---'' @ [newline] @ join_with '' | ''
       ([''Task: '' @ task_link web_url taskID] @
        (if agentSessionID \<noteq> [] then [''Session: '' @ agentSessionID] else []) @
        (if userPromptID \<noteq> [] then [''Prompt: '' @ userPromptID] else []) @
        [''Attempt: '' @ executionAttemptID] @
        (case GetAgentSessionByID agentSessionID d of
           Inl _ \<Rightarrow> []
         | Inr session \<Rightarrow>
             (let agent = trim_space (str_of (s_agent session)) in if agent \<noteq> [] then [''Agent: '' @ agent] else []) @
             (let model = trim_space (str_of (s_model_id session)) in if model \<noteq> [] then [''Model: '' @ model] else [])))"

text \<open>The text before the first and before the last occurrence of a marker.\<close>

fun before_first :: "string \<Rightarrow> string \<Rightarrow> string option" where
  "before_first marker [] = (if marker = [] then Some [] else None)"
| "before_first marker (c # cs) =
     (if prefix marker (c # cs) then Some [] else map_option (Cons c) (before_first marker cs))"

fun before_last :: "string \<Rightarrow> string \<Rightarrow> string option" where
  "before_last marker [] = (if marker = [] then Some [] else None)"
| "before_last marker (c # cs) =
     (case before_last marker cs of
        Some u \<Rightarrow> Some (c # u)
      | None \<Rightarrow> if prefix marker (c # cs) then Some [] else None)"

definition task_marker :: string where
  "task_marker = ''---'' @ [newline] @ ''Task:''"

definition stripExistingChetterSignature :: "string \<Rightarrow> string" where
  "stripExistingChetterSignature body =
     (case before_last task_marker body of
        Some u \<Rightarrow> trim_space u
      | None \<Rightarrow>
          (case before_first (''---'' @ [newline] @ ''Generated by [Chetter]'') body of
             Some u \<Rightarrow> trim_space u | None \<Rightarrow> body))"

definition appendChetterSignature :: "string \<Rightarrow> string \<Rightarrow> string" where
  "appendChetterSignature body signature =
     (let body' = trim_space (stripExistingChetterSignature body) in
      if body' = [] then signature else body' @ [newline, newline] @ signature)"

section \<open>State and environment\<close>

record task_artifact =
  ta_id :: string
  ta_task_id :: string
  ta_artifact_type :: string
  ta_repo :: string
  ta_number :: "int option"
  ta_url :: "string option"
  ta_ref :: "string option"
  ta_sha :: "string option"
  ta_created_at :: time
  ta_discovered_at :: time
  ta_discovery_source :: string
  ta_agent_session_id :: "string option"
  ta_search_text :: "string option"
  ta_user_prompt_id :: "string option"
  ta_execution_attempt_id :: string

record audit_log =
  al_id :: string
  al_event_type :: string
  al_created_at :: time
  al_source_type :: "string option"
  al_source_id :: "string option"
  al_target_type :: "string option"
  al_target_id :: "string option"
  al_repo :: "string option"
  al_github_event :: "string option"
  al_github_action :: "string option"
  al_github_delivery_id :: "string option"
  al_parent_event_id :: "string option"
  al_detail :: "string option"
  al_payload :: "(string \<times> jval) list"
  al_search_text :: "string option"
  al_token_id :: "string option"
  al_token_name :: "string option"

text \<open>
  Requests to GitHub. The first argument of an action is the installation whose token the client
  uses, the second the repository.
\<close>

datatype gh_call =
    ClientForInstallation int
  | ClientForRepo string
  | CreateIssue int string string string "string list"
  | CreateIssueComment int string int string
  | CreatePullRequest int string string string string string bool
  | CreatePullRequestReview int string int string string
  | GetPullRequestDetails int string int
  | MergePullRequest int string int string
  | ClosePullRequest int string int
  | CloseIssue int string int
  | AddIssueLabels int string int "string list"
  | CredentialForRepo int string

text \<open>What GitHub answers; a call looks at the fields it decodes.\<close>

record gh_reply =
  gr_InstallationID :: int
  gr_Number :: int
  gr_HTMLURL :: string
  gr_SHA :: string
  gr_State :: string
  gr_Merged :: bool
  gr_LabelNames :: "string list"
  gr_Token :: string
  gr_ExpiresAt :: time

record gh_state =
  st_db :: db
  st_artifacts :: "task_artifact list"
  st_audit :: "audit_log list"
  st_calls :: "gh_call list"

text \<open>
  The world around an operation. Clock, answers, generated ids and failing statements depend on the
  calls made so far; \<open>gv_others\<close> is what other connections commit while a call is under way.
\<close>

record git_env =
  gv_actions :: bool
  gv_manager :: bool
  gv_web_url :: string
  gv_now :: "gh_call list \<Rightarrow> time"
  gv_id :: "string \<Rightarrow> gh_call list \<Rightarrow> string option"
  gv_fail :: "string \<Rightarrow> gh_call list \<Rightarrow> error option"
  gv_reply :: "gh_call list \<Rightarrow> gh_call \<Rightarrow> error + gh_reply"
  gv_others :: "gh_call list \<Rightarrow> db \<Rightarrow> db"

type_synonym 'a gh_act = "(gh_state, 'a) act"

definition gh_request :: "git_env \<Rightarrow> gh_call \<Rightarrow> gh_reply gh_act" where
  "gh_request env c st =
     (let cs = st_calls st @ [c] in
      (gv_reply env (st_calls st) c, st\<lparr>st_calls := cs, st_db := gv_others env cs (st_db st)\<rparr>))"

text \<open>A statement that only reads.\<close>

definition db_read :: "git_env \<Rightarrow> string \<Rightarrow> (db \<Rightarrow> error + 'a) \<Rightarrow> 'a gh_act" where
  "db_read env name q st =
     (case gv_fail env name (st_calls st) of Some e \<Rightarrow> (Inl e, st) | None \<Rightarrow> (q (st_db st), st))"

section \<open>Artifacts and audit rows (service.go)\<close>

record artifact_params =
  ap_TaskID :: string
  ap_AgentSessionID :: string
  ap_UserPromptID :: string
  ap_ExecutionAttemptID :: string
  ap_ArtifactType :: string
  ap_Repo :: string
  ap_Number :: int
  ap_URL :: string
  ap_Ref :: string
  ap_SHA :: string
  ap_DiscoverySource :: string

record AuditEventParams =
  au_EventType :: string
  au_SourceType :: string
  au_SourceID :: string
  au_TargetType :: string
  au_TargetID :: string
  au_Repo :: string
  au_GitHubEvent :: string
  au_GitHubAction :: string
  au_GitHubDeliveryID :: string
  au_ParentEventID :: string
  au_Detail :: string
  au_Payload :: "(string \<times> jval) list"
  au_TokenID :: string
  au_TokenName :: string

text \<open>
  \<^verbatim>\<open>INSERT IGNORE\<close> under the primary key and the unique key of \<^verbatim>\<open>idx_task_artifacts_dedup\<close>,
  in which a missing number equals nothing.
\<close>

definition artifact_clash :: "task_artifact \<Rightarrow> task_artifact \<Rightarrow> bool" where
  "artifact_clash a b =
     (ta_id a = ta_id b \<or>
      ta_number a \<noteq> None \<and> ta_number a = ta_number b \<and> ta_task_id a = ta_task_id b \<and>
      ta_artifact_type a = ta_artifact_type b \<and> ta_repo a = ta_repo b \<and>
      ta_execution_attempt_id a = ta_execution_attempt_id b)"

definition InsertTaskArtifact :: "task_artifact \<Rightarrow> task_artifact list \<Rightarrow> task_artifact list" where
  "InsertTaskArtifact row rows = (if list_ex (artifact_clash row) rows then rows else rows @ [row])"

definition artifact_row :: "string \<Rightarrow> time \<Rightarrow> artifact_params \<Rightarrow> task_artifact" where
  "artifact_row i now q =
     \<lparr>ta_id = i, ta_task_id = ap_TaskID q, ta_artifact_type = ap_ArtifactType q, ta_repo = ap_Repo q,
      ta_number = (if ap_Number q > 0 then Some (to_int32 (ap_Number q)) else None),
      ta_url = nullString (ap_URL q), ta_ref = nullString (ap_Ref q), ta_sha = nullString (ap_SHA q),
      ta_created_at = now, ta_discovered_at = now, ta_discovery_source = ap_DiscoverySource q,
      ta_agent_session_id = nullString (ap_AgentSessionID q),
      ta_search_text = nullString (join_with '' '' (strings_fields (join_with '' ''
        [ap_TaskID q, ap_AgentSessionID q, ap_UserPromptID q, ap_ExecutionAttemptID q, ap_Repo q, ap_ArtifactType q, ap_Ref q]))),
      ta_user_prompt_id = nullString (ap_UserPromptID q), ta_execution_attempt_id = ap_ExecutionAttemptID q\<rparr>"

definition artifact_owner :: "git_env \<Rightarrow> artifact_params \<Rightarrow> artifact_params gh_act" where
  "artifact_owner env q =
     (if ap_ExecutionAttemptID q = [] then act_done q
      else act_bind (act_wrap (Wrap ''get artifact execution attempt context'')
          (db_read env ''GetExecutionAttemptContext'' (GetExecutionAttemptContext (ap_ExecutionAttemptID q))))
        (\<lambda>ownership.
          if x_task_id ownership \<noteq> ap_TaskID q then
            act_fail (Errorf (''execution attempt '' @ go_quote (ap_ExecutionAttemptID q) @ '' does not belong to task '' @ go_quote (ap_TaskID q)))
          else act_done (q\<lparr>ap_AgentSessionID := x_agent_session_id ownership, ap_UserPromptID := x_user_prompt_id ownership\<rparr>)))"

definition RecordArtifact :: "git_env \<Rightarrow> artifact_params \<Rightarrow> unit gh_act" where
  "RecordArtifact env q0 =
     act_bind (artifact_owner env q0) (\<lambda>q st.
       case gv_id env ''art'' (st_calls st) of
         None \<Rightarrow> (Inl generate_id_err, st)
       | Some i \<Rightarrow>
           (case gv_fail env ''InsertTaskArtifact'' (st_calls st) of
              Some e \<Rightarrow> (Inl e, st)
            | None \<Rightarrow> (Inr (), st\<lparr>st_artifacts :=
                InsertTaskArtifact (artifact_row i (gv_now env (st_calls st)) q) (st_artifacts st)\<rparr>)))"

definition audit_row :: "string \<Rightarrow> time \<Rightarrow> AuditEventParams \<Rightarrow> audit_log" where
  "audit_row i now q =
     \<lparr>al_id = i, al_event_type = au_EventType q, al_created_at = now, al_source_type = nullString (au_SourceType q),
      al_source_id = nullString (au_SourceID q), al_target_type = nullString (au_TargetType q),
      al_target_id = nullString (au_TargetID q), al_repo = nullString (au_Repo q), al_github_event = nullString (au_GitHubEvent q),
      al_github_action = nullString (au_GitHubAction q), al_github_delivery_id = nullString (au_GitHubDeliveryID q),
      al_parent_event_id = nullString (au_ParentEventID q), al_detail = nullString (au_Detail q), al_payload = au_Payload q,
      al_search_text = nullString (join_with '' '' (strings_fields (join_with '' ''
        [au_Detail q, au_SourceType q, au_SourceID q, au_TargetType q, au_TargetID q, au_Repo q, au_EventType q, au_TokenName q, au_TokenID q]))),
      al_token_id = nullString (au_TokenID q), al_token_name = nullString (au_TokenName q)\<rparr>"

definition LogAuditEvent :: "git_env \<Rightarrow> AuditEventParams \<Rightarrow> unit gh_act" where
  "LogAuditEvent env q st =
     (case gv_id env ''aud'' (st_calls st) of
        None \<Rightarrow> (Inl generate_id_err, st)
      | Some i \<Rightarrow>
          (case gv_fail env ''InsertAuditLog'' (st_calls st) of
             Some e \<Rightarrow> (Inl e, st)
           | None \<Rightarrow> (Inr (), st\<lparr>st_audit := st_audit st @ [audit_row i (gv_now env (st_calls st)) q]\<rparr>)))"

section \<open>Authorization (runner_github_rpc.go)\<close>

text \<open>The fields every request carries.\<close>

record gh_ids =
  q_task :: string
  q_execution :: string
  q_runner :: string
  q_repo :: string
  q_claim :: string

record githubActionAuthorization =
  az_repo :: string
  az_installationID :: int
  az_signature :: string

record github_execution =
  gx_execution_attempt_id :: string
  gx_user_prompt_id :: string
  gx_agent_session_id :: string
  gx_task_id :: string
  gx_runner_id :: "string option"
  gx_execution_status :: string
  gx_lease_expires_at :: "time option"
  gx_task_status :: string
  gx_github_repo :: "string option"
  gx_repos :: "repo_ref list option"
  gx_github_installation_id :: "int option"
  gx_claim_id :: string

definition github_execution_of :: "execution_attempt \<times> user_prompt \<times> task \<Rightarrow> github_execution" where
  "github_execution_of = (\<lambda>(a, p, t).
     \<lparr>gx_execution_attempt_id = a_id a, gx_user_prompt_id = p_id p, gx_agent_session_id = p_agent_session_id p,
      gx_task_id = p_task_id p, gx_runner_id = a_runner_id a, gx_execution_status = a_status a,
      gx_lease_expires_at = a_lease_expires_at a, gx_task_status = t_status t, gx_github_repo = t_github_repo t,
      gx_repos = t_repos t, gx_github_installation_id = t_github_installation_id t, gx_claim_id = a_claim_id a\<rparr>)"

definition GetGitHubExecutionContext :: "string \<Rightarrow> db \<Rightarrow> error + github_execution" where
  "GetGitHubExecutionContext i d =
     bind_res (sql_one (\<lambda>(a, p, t). a_id a = i) (attempt_task_joins d)) (\<lambda>j. Inr (github_execution_of j))"

definition PinTaskGitHubInstallation :: "int \<Rightarrow> time \<Rightarrow> string \<Rightarrow> db \<Rightarrow> db \<times> nat" where
  "PinTaskGitHubInstallation installation now tid =
     upd_tasks (\<lambda>t. t_id t = tid \<and> t_github_installation_id t = None)
       (\<lambda>t. t\<lparr>t_github_installation_id := Some installation, t_updated_at := now\<rparr>)"

definition denied :: "string \<Rightarrow> 'a gh_act" where
  "denied m = act_fail (ConnectError CodePermissionDenied (Errorf m))"

definition precondition :: "string \<Rightarrow> 'a gh_act" where
  "precondition m = act_fail (ConnectError CodeFailedPrecondition (Errorf m))"

definition invalid :: "string \<Rightarrow> 'a gh_act" where
  "invalid m = act_fail (ConnectError CodeInvalidArgument (Errorf m))"

definition unavailable :: "string \<Rightarrow> error \<Rightarrow> error" where
  "unavailable m e = ConnectError CodeUnavailable (Wrap m e)"

definition internal :: "string \<Rightarrow> error \<Rightarrow> error" where
  "internal m e = ConnectError CodeInternal (Wrap m e)"

definition repoInTaskRepoSet :: "repo_ref list option \<Rightarrow> Repository \<Rightarrow> bool" where
  "repoInTaskRepoSet raw requested =
     (case raw of None \<Rightarrow> False
      | Some refs \<Rightarrow> list_ex (\<lambda>ref. case Parse (URL ref) of Inl _ \<Rightarrow> False | Inr other \<Rightarrow> Normalized other = Normalized requested) refs)"

text \<open>The pin, and the reload when another connection was faster.\<close>

definition pin_installation :: "git_env \<Rightarrow> github_execution \<Rightarrow> int \<Rightarrow> int gh_act" where
  "pin_installation env execution installation st =
     (case gv_fail env ''PinTaskGitHubInstallation'' (st_calls st) of
        Some e \<Rightarrow> (Inl (internal ''pin task GitHub installation'' e), st)
      | None \<Rightarrow>
          (case PinTaskGitHubInstallation installation (gv_now env (st_calls st)) (gx_task_id execution) (st_db st) of (d, rows) \<Rightarrow>
           if rows \<noteq> 0 then (Inr installation, st\<lparr>st_db := d\<rparr>)
           else act_bind (act_wrap (internal ''reload task GitHub installation'')
               (db_read env ''ReloadGitHubExecutionContext'' (GetGitHubExecutionContext (gx_execution_attempt_id execution))))
             (\<lambda>reloaded. if gx_github_installation_id reloaded \<noteq> Some installation
                then precondition (''task '' @ go_quote (gx_task_id execution) @ '' GitHub installation was pinned concurrently to a different installation'')
                else act_done installation) (st\<lparr>st_db := d\<rparr>)))"

definition githubClientForExecution :: "git_env \<Rightarrow> github_execution \<Rightarrow> string \<Rightarrow> int gh_act" where
  "githubClientForExecution env execution repo =
     (case gx_github_installation_id execution of
        Some i \<Rightarrow>
          if i \<le> 0 then act_fail (ConnectError CodeInternal (Errorf (''task '' @ go_quote (gx_task_id execution) @ '' has invalid GitHub installation ID'')))
          else act_bind (act_wrap (unavailable ''resolve pinned GitHub installation'') (gh_request env (ClientForInstallation i)))
            (\<lambda>_. act_done i)
      | None \<Rightarrow>
          act_bind (act_wrap (unavailable ''resolve GitHub repository installation'') (gh_request env (ClientForRepo repo)))
            (\<lambda>client. pin_installation env execution (gr_InstallationID client)))"

text \<open>The fence between execution and request: the checks in their order.\<close>

definition execution_fence :: "gh_ids \<Rightarrow> time \<Rightarrow> github_execution \<Rightarrow> unit gh_act" where
  "execution_fence q now x =
     (if gx_task_id x \<noteq> q_task q then
        denied (''execution attempt '' @ go_quote (q_execution q) @ '' does not belong to task '' @ go_quote (q_task q))
      else if gx_execution_status x \<noteq> ''running'' then
        precondition (''execution attempt '' @ go_quote (q_execution q) @ '' is '' @ gx_execution_status x @ '', not running'')
      else if gx_task_status x \<noteq> ''running'' then
        precondition (''task '' @ go_quote (q_task q) @ '' is '' @ gx_task_status x @ '', not running'')
      else case gx_lease_expires_at x of
          None \<Rightarrow> precondition (''execution attempt '' @ go_quote (q_execution q) @ '' has no active lease'')
        | Some l \<Rightarrow>
            if \<not> now < l then precondition (''execution attempt '' @ go_quote (q_execution q) @ '' lease has expired'')
            else if gx_runner_id x \<noteq> Some (q_runner q) then
              denied (''runner '' @ go_quote (q_runner q) @ '' does not own execution attempt '' @ go_quote (q_execution q))
            else if gx_claim_id x \<noteq> q_claim q then
              denied (''claim does not own execution attempt '' @ go_quote (q_execution q))
            else if trim_space (str_of (gx_github_repo x)) = [] then
              precondition (''task '' @ go_quote (q_task q) @ '' has no GitHub repository identity'')
            else act_done ())"

definition authorize_repo :: "git_env \<Rightarrow> gh_ids \<Rightarrow> Repository \<Rightarrow> github_execution \<Rightarrow> string \<Rightarrow> githubActionAuthorization gh_act" where
  "authorize_repo env q requested x signature =
     (case Parse (str_of (gx_github_repo x)) of
        Inl e \<Rightarrow> act_fail (internal (''task '' @ go_quote (q_task q) @ '' has invalid GitHub repository identity'') e)
      | Inr taskRepo \<Rightarrow>
          if Normalized requested = Normalized taskRepo then
            act_bind (githubClientForExecution env x (FullName taskRepo)) (\<lambda>i.
              act_done \<lparr>az_repo = FullName taskRepo, az_installationID = i, az_signature = signature\<rparr>)
          else if \<not> repoInTaskRepoSet (gx_repos x) requested then
            denied (''requested repository '' @ go_quote (FullName requested) @ '' is not part of task '' @ go_quote (q_task q))
          else act_bind (act_wrap (unavailable (''resolve GitHub repository installation for '' @ go_quote (FullName requested)))
              (gh_request env (ClientForRepo (FullName requested)))) (\<lambda>client.
              act_done \<lparr>az_repo = FullName requested, az_installationID = gr_InstallationID client, az_signature = signature\<rparr>))"

definition service_authorizeGitHubAction :: "git_env \<Rightarrow> gh_ids \<Rightarrow> githubActionAuthorization gh_act" where
  "service_authorizeGitHubAction env q =
     (if trim_space (q_task q) = [] \<or> trim_space (q_execution q) = [] \<or> trim_space (q_runner q) = [] \<or>
         trim_space (q_repo q) = [] \<or> trim_space (q_claim q) = []
      then invalid ''task_id, execution_id, runner_id, repo, and claim_id are required''
      else case Parse (q_repo q) of
          Inl e \<Rightarrow> act_fail (ConnectError CodeInvalidArgument (Wrap ''invalid repo'' e))
        | Inr requested \<Rightarrow>
            if \<not> gv_manager env then act_fail (ConnectError CodeUnavailable (Errorf ''GitHub App is not configured on this server''))
            else act_bind (act_wrap (\<lambda>e. if errors_is e SqlNoRows
                  then ConnectError CodePermissionDenied (Errorf ''execution attempt is not authorized for task'')
                  else internal ''get GitHub execution context'' e)
                (db_read env ''GetGitHubExecutionContext'' (GetGitHubExecutionContext (q_execution q))))
              (\<lambda>x st. act_bind (execution_fence q (gv_now env (st_calls st)) x) (\<lambda>_.
                authorize_repo env q requested x (githubToolSignatureForContext (gv_web_url env) (q_task q)
                  (gx_agent_session_id x) (gx_user_prompt_id x) (q_execution q) (st_db st))) st))"

definition validateRunnerExecutionClaim :: "git_env \<Rightarrow> gh_ids \<Rightarrow> unit gh_act" where
  "validateRunnerExecutionClaim env q st =
     (if q_task q = [] \<or> q_execution q = [] \<or> q_runner q = [] \<or> q_claim q = []
      then invalid ''task_id, execution_id, runner_id, and claim_id are required'' st
      else act_bind (act_wrap (\<lambda>e. if errors_is e SqlNoRows
            then ConnectError CodePermissionDenied (Errorf ''execution claim is not active for this runner'')
            else internal ''validate runner execution claim'' e)
          (db_read env ''ValidateRunnerExecutionClaim''
            (ValidateRunnerExecutionClaim (gv_now env (st_calls st)) (q_execution q) (q_task q) (q_runner q) (q_claim q))))
        (\<lambda>_. act_done ()) st)"

definition authorizeGitHubAction :: "git_env \<Rightarrow> gh_ids \<Rightarrow> githubActionAuthorization gh_act" where
  "authorizeGitHubAction env q =
     (if \<not> gv_actions env then act_bind (validateRunnerExecutionClaim env q) (\<lambda>_.
        act_fail (ConnectError CodeUnavailable (Errorf ''GitHub App is not configured on this server'')))
      else service_authorizeGitHubAction env q)"

section \<open>Operations\<close>

definition recordGitHubRPCArtifact ::
  "git_env \<Rightarrow> gh_ids \<Rightarrow> string \<Rightarrow> githubActionAuthorization \<Rightarrow> int \<Rightarrow> string \<Rightarrow> string \<Rightarrow> unit gh_act" where
  "recordGitHubRPCArtifact env q artifactType az number url ref =
     act_bind (act_wrap (Wrap ''record GitHub artifact'')
       (RecordArtifact env \<lparr>ap_TaskID = q_task q, ap_AgentSessionID = [], ap_UserPromptID = [],
          ap_ExecutionAttemptID = q_execution q, ap_ArtifactType = artifactType, ap_Repo = az_repo az, ap_Number = number,
          ap_URL = url, ap_Ref = ref, ap_SHA = [], ap_DiscoverySource = ''rpc_tool''\<rparr>))
     (\<lambda>_. act_wrap (Wrap ''log GitHub artifact audit event'')
       (LogAuditEvent env \<lparr>au_EventType = ''github_artifact_created'', au_SourceType = ''task'', au_SourceID = q_task q,
          au_TargetType = artifactType, au_TargetID = az_repo az @ ''#'' @ show_int number, au_Repo = az_repo az,
          au_GitHubEvent = [], au_GitHubAction = [], au_GitHubDeliveryID = [], au_ParentEventID = [],
          au_Detail = ''created '' @ artifactType @ '' '' @ az_repo az @ ''#'' @ show_int number @
            '' via runner RPC using GitHub installation '' @ show_int (az_installationID az),
          au_Payload = [(''github_installation_id'', JNum (az_installationID az))], au_TokenID = [], au_TokenName = []\<rparr>))"

definition logGitHubRPCAction ::
  "git_env \<Rightarrow> string \<Rightarrow> string \<Rightarrow> string \<Rightarrow> githubActionAuthorization \<Rightarrow> int \<Rightarrow> string \<Rightarrow> string \<Rightarrow> unit gh_act" where
  "logGitHubRPCAction env eventType taskID targetType az number url detail =
     act_wrap (Wrap ''log GitHub action audit event'')
       (LogAuditEvent env \<lparr>au_EventType = eventType, au_SourceType = ''task'', au_SourceID = taskID,
          au_TargetType = targetType, au_TargetID = az_repo az @ ''#'' @ show_int number, au_Repo = az_repo az,
          au_GitHubEvent = [], au_GitHubAction = [], au_GitHubDeliveryID = [], au_ParentEventID = [], au_Detail = detail,
          au_Payload = [(''github_installation_id'', JNum (az_installationID az)), (''url'', JStr url)],
          au_TokenID = [], au_TokenName = []\<rparr>)"

text \<open>An error after the call to GitHub succeeded.\<close>

definition as_internal :: "error \<Rightarrow> error" where
  "as_internal e = ConnectError CodeInternal e"

definition GitHubCreateIssue :: "git_env \<Rightarrow> gh_ids \<Rightarrow> string \<Rightarrow> string \<Rightarrow> string list \<Rightarrow> (int \<times> string) gh_act" where
  "GitHubCreateIssue env q title body labels =
     (if trim_space title = [] then invalid ''title is required''
      else act_bind (authorizeGitHubAction env q) (\<lambda>az.
        act_bind (act_wrap (unavailable ''create GitHub issue'') (gh_request env (CreateIssue (az_installationID az) (az_repo az)
            title (appendChetterSignature body (az_signature az)) labels))) (\<lambda>created.
        act_bind (act_wrap as_internal (recordGitHubRPCArtifact env q ''issue'' az (gr_Number created) (gr_HTMLURL created) [])) (\<lambda>_.
        act_done (to_int32 (gr_Number created), gr_HTMLURL created)))))"

definition GitHubIssueComment :: "git_env \<Rightarrow> gh_ids \<Rightarrow> int \<Rightarrow> string \<Rightarrow> string gh_act" where
  "GitHubIssueComment env q number body =
     (if number \<le> 0 \<or> trim_space body = [] then invalid ''issue_number and body are required''
      else act_bind (authorizeGitHubAction env q) (\<lambda>az.
        act_bind (act_wrap (unavailable ''create GitHub issue comment'') (gh_request env (CreateIssueComment (az_installationID az)
            (az_repo az) number (appendChetterSignature body (az_signature az))))) (\<lambda>created.
        act_bind (act_wrap as_internal (recordGitHubRPCArtifact env q ''issue_comment'' az number (gr_HTMLURL created) [])) (\<lambda>_.
        act_done (gr_HTMLURL created)))))"

definition GitHubCreatePR ::
  "git_env \<Rightarrow> gh_ids \<Rightarrow> string \<Rightarrow> string \<Rightarrow> string \<Rightarrow> string \<Rightarrow> bool \<Rightarrow> (int \<times> string) gh_act" where
  "GitHubCreatePR env q title body head base draft =
     (if trim_space title = [] \<or> trim_space head = [] \<or> trim_space base = []
      then invalid ''title, head, and base are required''
      else act_bind (authorizeGitHubAction env q) (\<lambda>az.
        act_bind (act_wrap (unavailable ''create GitHub pull request'') (gh_request env (CreatePullRequest (az_installationID az)
            (az_repo az) title (appendChetterSignature body (az_signature az)) head base draft))) (\<lambda>created.
        act_bind (act_wrap as_internal (recordGitHubRPCArtifact env q ''pr'' az (gr_Number created) (gr_HTMLURL created) head)) (\<lambda>_.
        act_done (to_int32 (gr_Number created), gr_HTMLURL created)))))"

definition GitHubPRReview :: "git_env \<Rightarrow> gh_ids \<Rightarrow> int \<Rightarrow> string \<Rightarrow> string \<Rightarrow> string gh_act" where
  "GitHubPRReview env q number event0 body =
     (if number \<le> 0 \<or> trim_space body = [] then invalid ''pr_number and body are required''
      else let upper = to_upper (trim_space event0); event = (if upper = [] then ''COMMENT'' else upper) in
        if event \<notin> {''COMMENT'', ''APPROVE'', ''REQUEST_CHANGES''}
        then invalid ''event must be COMMENT, APPROVE, or REQUEST_CHANGES''
        else act_bind (authorizeGitHubAction env q) (\<lambda>az.
          act_bind (act_wrap (unavailable ''create GitHub PR review'') (gh_request env (CreatePullRequestReview (az_installationID az)
              (az_repo az) number event (appendChetterSignature body (az_signature az))))) (\<lambda>created.
          act_bind (act_wrap as_internal (recordGitHubRPCArtifact env q ''pr_review'' az number (gr_HTMLURL created) [])) (\<lambda>_.
          act_done (gr_HTMLURL created)))))"

definition GitHubMergePR :: "git_env \<Rightarrow> gh_ids \<Rightarrow> int \<Rightarrow> string \<Rightarrow> (string \<times> string \<times> string) gh_act" where
  "GitHubMergePR env q number method0 =
     (if number \<le> 0 then invalid ''pr_number is required''
      else let upper = to_upper (trim_space method0); mergeMethod = (if upper = [] then ''MERGE'' else upper) in
        if mergeMethod \<notin> {''MERGE'', ''SQUASH'', ''REBASE''} then invalid ''merge_method must be MERGE, SQUASH, or REBASE''
        else act_bind (authorizeGitHubAction env q) (\<lambda>az.
          act_bind (act_wrap (unavailable ''get GitHub pull request'')
            (gh_request env (GetPullRequestDetails (az_installationID az) (az_repo az) number))) (\<lambda>details.
          if gr_Merged details then precondition (''pull request #'' @ show_int number @ '' is already merged'')
          else if gr_State details \<noteq> ''open'' then
            precondition (''pull request #'' @ show_int number @ '' is '' @ gr_State details @ '', not open'')
          else act_bind (act_wrap (unavailable ''merge GitHub pull request'')
            (gh_request env (MergePullRequest (az_installationID az) (az_repo az) number mergeMethod))) (\<lambda>merged.
          act_bind (act_wrap as_internal (logGitHubRPCAction env ''github_pr_merged'' (q_task q) ''pr'' az number (gr_HTMLURL details)
            (''merged pull request '' @ az_repo az @ ''#'' @ show_int number @ '' (method '' @ mergeMethod @
             '') via runner RPC using GitHub installation '' @ show_int (az_installationID az)))) (\<lambda>_.
          act_done (gr_HTMLURL details, gr_SHA merged, mergeMethod))))))"

definition GitHubClosePR :: "git_env \<Rightarrow> gh_ids \<Rightarrow> int \<Rightarrow> string gh_act" where
  "GitHubClosePR env q number =
     (if number \<le> 0 then invalid ''pr_number is required''
      else act_bind (authorizeGitHubAction env q) (\<lambda>az.
        act_bind (act_wrap (unavailable ''close GitHub pull request'')
          (gh_request env (ClosePullRequest (az_installationID az) (az_repo az) number))) (\<lambda>closed.
        act_bind (act_wrap as_internal (logGitHubRPCAction env ''github_pr_closed'' (q_task q) ''pr'' az number (gr_HTMLURL closed)
          (''closed pull request '' @ az_repo az @ ''#'' @ show_int number @
           '' via runner RPC using GitHub installation '' @ show_int (az_installationID az)))) (\<lambda>_.
        act_done (gr_HTMLURL closed)))))"

definition GitHubCloseIssue :: "git_env \<Rightarrow> gh_ids \<Rightarrow> int \<Rightarrow> string gh_act" where
  "GitHubCloseIssue env q number =
     (if number \<le> 0 then invalid ''issue_number is required''
      else act_bind (authorizeGitHubAction env q) (\<lambda>az.
        act_bind (act_wrap (unavailable ''close GitHub issue'')
          (gh_request env (CloseIssue (az_installationID az) (az_repo az) number))) (\<lambda>closed.
        act_bind (act_wrap as_internal (logGitHubRPCAction env ''github_issue_closed'' (q_task q) ''issue'' az number (gr_HTMLURL closed)
          (''closed issue '' @ az_repo az @ ''#'' @ show_int number @
           '' via runner RPC using GitHub installation '' @ show_int (az_installationID az)))) (\<lambda>_.
        act_done (gr_HTMLURL closed)))))"

definition compactLabelList :: "string list \<Rightarrow> string list" where
  "compactLabelList labels = filter (\<lambda>l. l \<noteq> []) (map trim_space labels)"

definition GitHubAddIssueLabels :: "git_env \<Rightarrow> gh_ids \<Rightarrow> int \<Rightarrow> string list \<Rightarrow> string list gh_act" where
  "GitHubAddIssueLabels env q number labels =
     (if number \<le> 0 \<or> compactLabelList labels = [] then invalid ''issue_number and at least one label are required''
      else act_bind (authorizeGitHubAction env q) (\<lambda>az.
        act_bind (act_wrap (unavailable ''add GitHub issue labels'')
          (gh_request env (AddIssueLabels (az_installationID az) (az_repo az) number (compactLabelList labels)))) (\<lambda>reply.
        act_bind (act_wrap as_internal (logGitHubRPCAction env ''github_issue_labels_added'' (q_task q) ''issue'' az number []
          (''added labels ['' @ join_with '' '' (compactLabelList labels) @ ''] to issue '' @ az_repo az @ ''#'' @ show_int number @
           '' via runner RPC using GitHub installation '' @ show_int (az_installationID az)))) (\<lambda>_.
        act_done (gr_LabelNames reply)))))"

definition GetGitHubCredential :: "git_env \<Rightarrow> gh_ids \<Rightarrow> (string \<times> string \<times> time) gh_act" where
  "GetGitHubCredential env q =
     (if trim_space (q_runner q) = [] \<or> trim_space (q_task q) = [] \<or> trim_space (q_execution q) = [] \<or>
         trim_space (q_repo q) = [] \<or> trim_space (q_claim q) = []
      then invalid ''runner_id, task_id, execution_id, repo, and claim_id are required''
      else act_bind (authorizeGitHubAction env q) (\<lambda>az.
        act_bind (act_wrap (unavailable ''issue repository-restricted GitHub credential'')
          (gh_request env (CredentialForRepo (az_installationID az) (az_repo az)))) (\<lambda>credential.
        act_bind (authorizeGitHubAction env q) (\<lambda>_.
        act_done (''x-access-token'', gr_Token credential, gr_ExpiresAt credential)))))"

text \<open>All of them, as the RPC server dispatches them.\<close>

datatype gh_rpc =
    RpcCreateIssue string string "string list"
  | RpcIssueComment int string
  | RpcCreatePR string string string string bool
  | RpcPRReview int string string
  | RpcMergePR int string
  | RpcClosePR int
  | RpcCloseIssue int
  | RpcAddIssueLabels int "string list"
  | RpcCredential

datatype gh_response =
    NumberUrl int string
  | Url string
  | MergedAs string string string
  | Labels "string list"
  | Credential string string time

definition act_map :: "('a \<Rightarrow> 'b) \<Rightarrow> 'a gh_act \<Rightarrow> 'b gh_act" where
  "act_map f m = act_bind m (\<lambda>x. act_done (f x))"

fun serve_github :: "git_env \<Rightarrow> gh_ids \<Rightarrow> gh_rpc \<Rightarrow> gh_response gh_act" where
  "serve_github env q (RpcCreateIssue title body labels) = act_map (\<lambda>(n, u). NumberUrl n u) (GitHubCreateIssue env q title body labels)"
| "serve_github env q (RpcIssueComment number body) = act_map Url (GitHubIssueComment env q number body)"
| "serve_github env q (RpcCreatePR title body head base draft) =
     act_map (\<lambda>(n, u). NumberUrl n u) (GitHubCreatePR env q title body head base draft)"
| "serve_github env q (RpcPRReview number event body) = act_map Url (GitHubPRReview env q number event body)"
| "serve_github env q (RpcMergePR number how) = act_map (\<lambda>(u, s, m). MergedAs u s m) (GitHubMergePR env q number how)"
| "serve_github env q (RpcClosePR number) = act_map Url (GitHubClosePR env q number)"
| "serve_github env q (RpcCloseIssue number) = act_map Url (GitHubCloseIssue env q number)"
| "serve_github env q (RpcAddIssueLabels number labels) = act_map Labels (GitHubAddIssueLabels env q number labels)"
| "serve_github env q RpcCredential = act_map (\<lambda>(u, t, e). Credential u t e) (GetGitHubCredential env q)"

section \<open>Fencing\<close>

text \<open>
  The repository a call names. A client found by its installation names none; its token is used only
  by the calls that follow, which do.
\<close>

fun call_repo :: "gh_call \<Rightarrow> string option" where
  "call_repo (ClientForInstallation i) = None"
| "call_repo (ClientForRepo r) = Some r"
| "call_repo (CreateIssue i r t b ls) = Some r"
| "call_repo (CreateIssueComment i r n b) = Some r"
| "call_repo (CreatePullRequest i r t b h b' dr) = Some r"
| "call_repo (CreatePullRequestReview i r n ev b) = Some r"
| "call_repo (GetPullRequestDetails i r n) = Some r"
| "call_repo (MergePullRequest i r n m) = Some r"
| "call_repo (ClosePullRequest i r n) = Some r"
| "call_repo (CloseIssue i r n) = Some r"
| "call_repo (AddIssueLabels i r n ls) = Some r"
| "call_repo (CredentialForRepo i r) = Some r"

text \<open>A name of the requested repository, up to the case of its letters.\<close>

definition names_repository :: "Repository \<Rightarrow> string \<Rightarrow> bool" where
  "names_repository requested repo = (\<exists>rp. repo = FullName rp \<and> Normalized rp = Normalized requested)"

definition requested_call :: "gh_ids \<Rightarrow> gh_call \<Rightarrow> bool" where
  "requested_call q c = (\<exists>requested. Parse (q_repo q) = Inr requested \<and> (\<forall>repo. call_repo c = Some repo \<longrightarrow> names_repository requested repo))"

text \<open>
  The promise: the execution named in the request runs, for the task named there, under a live lease
  that the caller holds with its claim; and the repository is the task's own or one of its set.
\<close>

definition executes :: "time \<Rightarrow> gh_ids \<Rightarrow> execution_attempt \<times> user_prompt \<times> task \<Rightarrow> bool" where
  "executes now q = (\<lambda>(a, p, t).
     a_id a = q_execution q \<and> t_id t = q_task q \<and> a_status a = ''running'' \<and> t_status t = ''running'' \<and>
     lease_live now a \<and> a_runner_id a = Some (q_runner q) \<and> a_claim_id a = q_claim q)"

definition same_repository :: "string \<Rightarrow> Repository \<Rightarrow> bool" where
  "same_repository name r = (case Parse name of Inl _ \<Rightarrow> False | Inr r' \<Rightarrow> Normalized r' = Normalized r)"

definition task_has_repository :: "task \<Rightarrow> Repository \<Rightarrow> bool" where
  "task_has_repository t r =
     (same_repository (str_of (t_github_repo t)) r \<or>
      (case t_repos t of None \<Rightarrow> False | Some refs \<Rightarrow> list_ex (\<lambda>ref. same_repository (URL ref) r) refs))"

definition holds_execution :: "time \<Rightarrow> gh_ids \<Rightarrow> db \<Rightarrow> bool" where
  "holds_execution now q d = list_ex (executes now q) (attempt_task_joins d)"

definition may_act :: "time \<Rightarrow> gh_ids \<Rightarrow> Repository \<Rightarrow> db \<Rightarrow> bool" where
  "may_act now q r d = list_ex (\<lambda>(a, p, t). executes now q (a, p, t) \<and> task_has_repository t r) (attempt_task_joins d)"

lemma may_act_holds: "may_act now q r d \<Longrightarrow> holds_execution now q d"
  by (auto simp: may_act_def holds_execution_def list_ex_iff)

text \<open>All calls of an action satisfy a predicate.\<close>

definition traced :: "(gh_call \<Rightarrow> bool) \<Rightarrow> 'a gh_act \<Rightarrow> bool" where
  "traced P m = (\<forall>st r st'. m st = (r, st') \<longrightarrow> (\<exists>cs. st_calls st' = st_calls st @ cs \<and> list_all P cs))"

lemma tracedD: "traced P m \<Longrightarrow> m st = (r, st') \<Longrightarrow> \<exists>cs. st_calls st' = st_calls st @ cs \<and> list_all P cs"
  by (auto simp: traced_def)

lemma traced_bind:
  assumes "traced P m" and "\<And>x. traced P (f x)"
  shows "traced P (act_bind m f)"
  unfolding traced_def
proof (intro allI impI)
  fix st r st' assume run: "act_bind m f st = (r, st')"
  obtain r1 st1 where m: "m st = (r1, st1)" by fastforce
  with assms(1) obtain cs where cs: "st_calls st1 = st_calls st @ cs" "list_all P cs" by (auto dest: tracedD)
  show "\<exists>cs. st_calls st' = st_calls st @ cs \<and> list_all P cs"
  proof (cases r1)
    case (Inl e)
    with m run cs show ?thesis by (auto simp: act_bind_def)
  next
    case (Inr x)
    with m run have "f x st1 = (r, st')" by (simp add: act_bind_def)
    with assms(2) obtain cs' where "st_calls st' = st_calls st1 @ cs'" "list_all P cs'" by (blast dest: tracedD)
    with cs show ?thesis by simp
  qed
qed

lemma traced_still: "(\<And>st. st_calls (snd (m st)) = st_calls st) \<Longrightarrow> traced P m"
  unfolding traced_def by (metis append_Nil2 list.pred_inject(1) snd_conv)

lemma traced_wrap: "traced P m \<Longrightarrow> traced P (act_wrap w m)"
  unfolding traced_def act_wrap_def by (fastforce split: prod.splits sum.splits)

lemma traced_request: "P c \<Longrightarrow> traced P (gh_request env c)"
  by (auto simp: traced_def gh_request_def Let_def)

lemma traced_mono: "traced P m \<Longrightarrow> (\<And>c. P c \<Longrightarrow> Q c) \<Longrightarrow> traced Q m"
  unfolding traced_def list_all_iff by blast

lemma traced_simple:
  "traced P (act_fail e)" "traced P (act_done x)" "traced P (db_read env name f)"
  "traced P (LogAuditEvent env ap)" "traced P (denied t)" "traced P (precondition t)" "traced P (invalid t)"
  by (rule traced_still; simp add: act_fail_def act_done_def db_read_def LogAuditEvent_def denied_def precondition_def
      invalid_def split: option.split)+

lemma traced_if: "(b \<Longrightarrow> traced P m) \<Longrightarrow> (\<not> b \<Longrightarrow> traced P m') \<Longrightarrow> traced P (if b then m else m')"
  by simp

lemmas traced_intros = traced_bind traced_wrap traced_simple traced_if

lemma traced_artifact: "traced P (RecordArtifact env a)"
proof -
  have "traced P (artifact_owner env a)" unfolding artifact_owner_def by (intro traced_intros)
  then show ?thesis
    unfolding RecordArtifact_def by (rule traced_bind) (rule traced_still, simp split: option.split)
qed

lemma traced_records:
  "traced P (recordGitHubRPCArtifact env q ty az n u ref)" "traced P (logGitHubRPCAction env ev t ty az n u de)"
  unfolding recordGitHubRPCArtifact_def logGitHubRPCAction_def by (intro traced_intros traced_artifact)+

lemma traced_pin: "traced P (pin_installation env x i)"
  by (rule traced_still) (simp add: pin_installation_def act_bind_def act_wrap_def db_read_def precondition_def act_fail_def
      act_done_def split: option.split prod.split sum.split)

lemma traced_client: "traced (\<lambda>c. call_repo c = None \<or> call_repo c = Some repo) (githubClientForExecution env x repo)"
  unfolding githubClientForExecution_def
  by (auto intro!: traced_intros traced_request traced_pin split: option.split)

lemma traced_authorize_repo:
  assumes "Parse (q_repo q) = Inr requested"
  shows "traced (requested_call q) (authorize_repo env q requested x sg)"
proof -
  have client: "traced (requested_call q) (githubClientForExecution env x (FullName r))" if "Normalized requested = Normalized r" for r
    using that assms by (intro traced_mono [OF traced_client]) (auto simp: requested_call_def names_repository_def)
  have "requested_call q (ClientForRepo (FullName requested))"
    using assms by (auto simp: requested_call_def names_repository_def)
  then show ?thesis
    unfolding authorize_repo_def by (auto intro!: traced_intros client traced_request split: sum.split)
qed

lemma traced_at: "(\<And>st. traced P (m st)) \<Longrightarrow> traced P (\<lambda>st. m st st)"
  unfolding traced_def by blast

lemma traced_fence: "traced P (execution_fence q now x)"
  unfolding execution_fence_def by (auto intro!: traced_intros split: option.split)

text \<open>Actions that only look.\<close>

lemmas act_defs = act_simps db_read_def denied_def precondition_def invalid_def

lemma validate_still: "snd (validateRunnerExecutionClaim env q st) = st"
  by (simp add: validateRunnerExecutionClaim_def act_defs split: option.split sum.split)

lemma fence_eq:
  "execution_fence q now x st = (r, st') \<Longrightarrow> st' = st"
  "execution_fence q now x st = (Inr u, st') \<Longrightarrow>
     gx_task_id x = q_task q \<and> gx_execution_status x = ''running'' \<and> gx_task_status x = ''running'' \<and>
     (case gx_lease_expires_at x of None \<Rightarrow> False | Some l \<Rightarrow> now < l) \<and> gx_runner_id x = Some (q_runner q) \<and>
     gx_claim_id x = q_claim q"
  by (auto simp: execution_fence_def act_defs split: if_splits option.splits)

lemma traced_authorize: "traced (requested_call q) (authorizeGitHubAction env q)"
proof -
  have "traced (requested_call q) (service_authorizeGitHubAction env q)"
    unfolding service_authorizeGitHubAction_def invalid_def
    by (cases "Parse (q_repo q)")
      (simp_all only: sum.case, (intro traced_if traced_simple traced_bind [OF traced_wrap [OF traced_simple(3)]]
        traced_at [OF traced_bind [OF traced_fence traced_authorize_repo]] | assumption)+)
  moreover have "traced (requested_call q) (validateRunnerExecutionClaim env q)"
    by (rule traced_still) (simp add: validate_still)
  ultimately show ?thesis unfolding authorizeGitHubAction_def by (intro traced_intros)
qed

text \<open>The execution the fence looks at.\<close>

lemma context_row:
  assumes "GetGitHubExecutionContext i d = Inr x"
  obtains j where "j \<in> set (attempt_task_joins d)" and "x = github_execution_of j" and "a_id (fst j) = i"
  using assms find_SomeD unfolding GetGitHubExecutionContext_def
  by (fastforce simp: sql_one_Inr_iff case_prod_unfold)

lemma attempt_task_join: "(a, p, t) \<in> set (attempt_task_joins d) \<Longrightarrow> t_id t = p_task_id p \<and> t \<in> set (tasks d)"
  by (auto simp: attempt_task_joins_def attempt_joins_def)

lemma fence_holds:
  assumes "GetGitHubExecutionContext (q_execution q) d = Inr x" and "execution_fence q now x st = (Inr u, st')"
  obtains a p t where "(a, p, t) \<in> set (attempt_task_joins d)" and "x = github_execution_of (a, p, t)" and "executes now q (a, p, t)"
proof -
  obtain a p t where j: "(a, p, t) \<in> set (attempt_task_joins d)" "x = github_execution_of (a, p, t)" "a_id a = q_execution q"
    using context_row [OF assms(1)] by (metis fst_conv prod_cases3)
  have "executes now q (a, p, t)"
    using fence_eq(2) [OF assms(2)] attempt_task_join [OF j(1)] j(3) unfolding j(2) executes_def github_execution_of_def
    by (auto simp: lease_live_def split: option.splits)
  with j show thesis by (intro that)
qed

text \<open>How an authorization ends: refused with nothing changed, or past the fence.\<close>

lemma authorize_cases:
  assumes "authorizeGitHubAction env q st = (r, st')"
  obtains (refused) e where "r = Inl e" and "st' = st"
  | (fenced) requested a p t sg where "Parse (q_repo q) = Inr requested" and "(a, p, t) \<in> set (attempt_task_joins (st_db st))"
      and "executes (gv_now env (st_calls st)) q (a, p, t)"
      and "sg = githubToolSignatureForContext (gv_web_url env) (q_task q) (p_agent_session_id p) (p_id p) (q_execution q) (st_db st)"
      and "authorize_repo env q requested (github_execution_of (a, p, t)) sg st = (r, st')"
proof -
  show thesis
  proof (cases "gv_actions env")
    case False
    then have "\<exists>e. r = Inl e" and "st' = st"
      using assms validate_still [of env q st]
      by (auto simp: authorizeGitHubAction_def act_bind_def act_fail_def split: prod.splits sum.splits)
    then show thesis by (auto intro: refused)
  next
    case True
    then have svc: "service_authorizeGitHubAction env q st = (r, st')"
      using assms by (simp add: authorizeGitHubAction_def)
    show thesis
    proof (cases "\<exists>requested x u. Parse (q_repo q) = Inr requested \<and> GetGitHubExecutionContext (q_execution q) (st_db st) = Inr x \<and>
        execution_fence q (gv_now env (st_calls st)) x st = (Inr u, st) \<and>
        authorize_repo env q requested x (githubToolSignatureForContext (gv_web_url env) (q_task q)
                  (gx_agent_session_id x) (gx_user_prompt_id x) (q_execution q) (st_db st)) st = (r, st')")
      case True
      then obtain requested x u where rq: "Parse (q_repo q) = Inr requested"
        "GetGitHubExecutionContext (q_execution q) (st_db st) = Inr x"
        "execution_fence q (gv_now env (st_calls st)) x st = (Inr u, st)"
        "authorize_repo env q requested x (githubToolSignatureForContext (gv_web_url env) (q_task q)
                  (gx_agent_session_id x) (gx_user_prompt_id x) (q_execution q) (st_db st)) st = (r, st')"
        by blast
      from fence_holds [OF rq(2,3)] obtain a p t where "(a, p, t) \<in> set (attempt_task_joins (st_db st))"
        "x = github_execution_of (a, p, t)" "executes (gv_now env (st_calls st)) q (a, p, t)" by blast
      with rq show thesis by (intro fenced) (auto simp: github_execution_of_def)
    next
      case False
      with svc have "(\<exists>e. r = Inl e) \<and> st' = st"
        by (auto simp: service_authorizeGitHubAction_def act_bind_def act_wrap_def act_fail_def db_read_def invalid_def
            split: if_splits sum.splits option.splits prod.splits dest: fence_eq(1))
      then show thesis by (auto intro: refused)
    qed
  qed
qed

lemma authorize_repo_covers:
  assumes "authorize_repo env q requested (github_execution_of (a, p, t)) sg st = (r, st')" and "(\<exists>az. r = Inr az) \<or> st_calls st' \<noteq> st_calls st"
  shows "task_has_repository t requested" and "r = Inr az \<Longrightarrow> names_repository requested (az_repo az)"
proof -
  obtain taskRepo where tr: "Parse (str_of (t_github_repo t)) = Inr taskRepo"
    using assms by (auto simp: authorize_repo_def github_execution_of_def act_fail_def split: sum.splits)
  have both: "task_has_repository t requested \<and> (\<forall>az. r = Inr az \<longrightarrow> names_repository requested (az_repo az))"
  proof (cases "Normalized requested = Normalized taskRepo")
    case True
    with assms(1) tr have "az_repo az = FullName taskRepo" if "r = Inr az" for az
      using that by (auto simp: authorize_repo_def github_execution_of_def act_bind_def act_done_def split: prod.splits sum.splits)
    moreover have "task_has_repository t requested" using tr True by (simp add: task_has_repository_def same_repository_def)
    ultimately show ?thesis using True by (metis names_repository_def)
  next
    case False
    with assms tr have "\<forall>az. r = Inr az \<longrightarrow> az_repo az = FullName requested" and "repoInTaskRepoSet (t_repos t) requested"
      by (auto simp: authorize_repo_def github_execution_of_def act_bind_def act_done_def denied_def act_fail_def
          split: prod.splits sum.splits if_splits)
    moreover from this(2) have "task_has_repository t requested"
      by (auto simp: task_has_repository_def repoInTaskRepoSet_def same_repository_def split: option.splits)
    ultimately show ?thesis by (auto simp: names_repository_def)
  qed
  then show "task_has_repository t requested" by blast
  show "names_repository requested (az_repo az)" if "r = Inr az" using both that by blast
qed

lemma authorize_may_act:
  assumes "authorizeGitHubAction env q st = (r, st')" and "(\<exists>az. r = Inr az) \<or> st_calls st' \<noteq> st_calls st"
  obtains requested where "Parse (q_repo q) = Inr requested" and "may_act (gv_now env (st_calls st)) q requested (st_db st)"
    and "\<And>az. r = Inr az \<Longrightarrow> names_repository requested (az_repo az)"
  using assms(1)
proof (cases rule: authorize_cases)
  case (fenced requested a p t sg)
  note covers = authorize_repo_covers [OF fenced(5) assms(2)]
  have "may_act (gv_now env (st_calls st)) q requested (st_db st)"
    using fenced(2,3) covers(1) unfolding may_act_def list_ex_iff by blast
  with fenced(1) covers(2) show thesis by (intro that)
next
  case (refused e)
  with assms(2) show thesis by simp
qed

lemma authorize_refused:
  assumes "authorizeGitHubAction env q st = (r, st')" and "\<not> holds_execution (gv_now env (st_calls st)) q (st_db st)"
  shows "\<exists>e. r = Inl e" and "st' = st"
proof -
  have "(\<exists>e. r = Inl e) \<and> st' = st"
    using assms(1)
  proof (cases rule: authorize_cases)
    case (fenced requested a p t sg)
    then show ?thesis using assms(2) unfolding holds_execution_def list_ex_iff by blast
  qed simp
  then show "\<exists>e. r = Inl e" and "st' = st" by simp_all
qed

text \<open>
  An operation is fenced when a call of it shows that the caller was authorized at its start, for the
  one repository all its calls name, and when it refuses a caller without the execution.
\<close>

definition fenced :: "git_env \<Rightarrow> gh_ids \<Rightarrow> 'a gh_act \<Rightarrow> bool" where
  "fenced env q m = (\<forall>st r st'. m st = (r, st') \<longrightarrow>
     (\<exists>cs. st_calls st' = st_calls st @ cs \<and> (cs \<noteq> [] \<longrightarrow>
       (\<exists>requested. Parse (q_repo q) = Inr requested \<and> may_act (gv_now env (st_calls st)) q requested (st_db st) \<and>
         (\<forall>c\<in>set cs. \<forall>repo. call_repo c = Some repo \<longrightarrow> names_repository requested repo)))) \<and>
     (\<not> holds_execution (gv_now env (st_calls st)) q (st_db st) \<longrightarrow> (\<exists>e. r = Inl e) \<and> st' = st))"

lemma fenced_authorize:
  assumes "\<And>az. traced (\<lambda>c. call_repo c = Some (az_repo az) \<or> requested_call q c) (f az)"
  shows "fenced env q (act_bind (authorizeGitHubAction env q) f)"
  unfolding fenced_def
proof (intro allI impI conjI)
  fix st r st' assume run: "act_bind (authorizeGitHubAction env q) f st = (r, st')"
  obtain r1 st1 where au: "authorizeGitHubAction env q st = (r1, st1)" by fastforce
  from tracedD [OF traced_authorize au] obtain cs1 where cs1: "st_calls st1 = st_calls st @ cs1" "list_all (requested_call q) cs1"
    by blast
  let ?ok = "\<lambda>cs requested. Parse (q_repo q) = Inr requested \<and> may_act (gv_now env (st_calls st)) q requested (st_db st) \<and>
      (\<forall>c\<in>set cs. \<forall>repo. call_repo c = Some repo \<longrightarrow> names_repository requested repo)"
  show "\<exists>cs. st_calls st' = st_calls st @ cs \<and> (cs \<noteq> [] \<longrightarrow> (\<exists>requested. ?ok cs requested))"
  proof (cases r1)
    case (Inl e)
    with run au have st': "st' = st1" by (simp add: act_bind_def)
    have "\<exists>requested. ?ok cs1 requested" if "cs1 \<noteq> []"
      using that cs1 by (rule_tac authorize_may_act [OF au]) (auto simp: list_all_iff requested_call_def)
    with cs1(1) st' show ?thesis by blast
  next
    case (Inr az)
    with run au have "f az st1 = (r, st')" by (simp add: act_bind_def)
    from tracedD [OF assms this] obtain cs2 where cs2: "st_calls st' = st_calls st1 @ cs2"
      "list_all (\<lambda>c. call_repo c = Some (az_repo az) \<or> requested_call q c) cs2" by blast
    have "\<exists>requested. ?ok (cs1 @ cs2) requested"
      using Inr cs1(2) cs2(2) by (rule_tac authorize_may_act [OF au]) (auto simp: list_all_iff requested_call_def)
    then show ?thesis using cs1(1) cs2(1) by (intro exI [of _ "cs1 @ cs2"]) simp
  qed
  show "\<exists>e. r = Inl e" "st' = st" if "\<not> holds_execution (gv_now env (st_calls st)) q (st_db st)"
    using authorize_refused [OF au that] run au by (auto simp: act_bind_def)
qed

lemma fenced_invalid: "fenced env q (invalid m)"
  by (auto simp: fenced_def invalid_def act_fail_def)

lemma fenced_map: "fenced env q m \<Longrightarrow> fenced env q (act_map f m)"
  unfolding fenced_def act_map_def act_bind_def act_done_def by (fastforce split: prod.splits sum.splits)

lemma fenced_if: "fenced env q m \<Longrightarrow> fenced env q m' \<Longrightarrow> fenced env q (if b then m else m')"
  by simp

lemmas fenced_intros = fenced_map fenced_if fenced_invalid fenced_authorize

lemmas op_intros = fenced_intros traced_intros traced_records traced_request disjI1

lemma serve_github_fenced: "fenced env q (serve_github env q rq)"
proof (cases rq)
  case (RpcCreateIssue title body labels)
  show ?thesis unfolding RpcCreateIssue serve_github.simps GitHubCreateIssue_def by (intro op_intros) simp
next
  case (RpcIssueComment number body)
  show ?thesis unfolding RpcIssueComment serve_github.simps GitHubIssueComment_def by (intro op_intros) simp
next
  case (RpcCreatePR title body head base draft)
  show ?thesis unfolding RpcCreatePR serve_github.simps GitHubCreatePR_def by (intro op_intros) simp
next
  case (RpcPRReview number event body)
  show ?thesis unfolding RpcPRReview serve_github.simps GitHubPRReview_def Let_def by (intro op_intros) simp
next
  case (RpcMergePR number how)
  show ?thesis unfolding RpcMergePR serve_github.simps GitHubMergePR_def Let_def by (intro op_intros) simp_all
next
  case (RpcClosePR number)
  show ?thesis unfolding RpcClosePR serve_github.simps GitHubClosePR_def by (intro op_intros) simp
next
  case (RpcCloseIssue number)
  show ?thesis unfolding RpcCloseIssue serve_github.simps GitHubCloseIssue_def by (intro op_intros) simp
next
  case (RpcAddIssueLabels number labels)
  show ?thesis unfolding RpcAddIssueLabels serve_github.simps GitHubAddIssueLabels_def by (intro op_intros) simp
next
  case RpcCredential
  show ?thesis unfolding RpcCredential serve_github.simps GetGitHubCredential_def
    by (intro fenced_intros traced_intros traced_request traced_mono [OF traced_authorize]) simp_all
qed

section \<open>One installation per task\<close>

definition pinned :: "string \<Rightarrow> int \<Rightarrow> db \<Rightarrow> bool" where
  "pinned tid i d = list_ex (\<lambda>t. t_id t = tid \<and> t_github_installation_id t = Some i) (tasks d)"

text \<open>What the rest of the server does to a database: rows evolve, and a pin stays.\<close>

definition keeps_pins :: "db \<Rightarrow> db \<Rightarrow> bool" where
  "keeps_pins d d' = (wf_db d' \<and> db_later d d' \<and> (\<forall>tid i. pinned tid i d \<longrightarrow> pinned tid i d'))"

lemma same_key: "distinct (map key xs) \<Longrightarrow> x \<in> set xs \<Longrightarrow> y \<in> set xs \<Longrightarrow> key x = key y \<Longrightarrow> x = y"
  by (metis distinct_map inj_on_def)

lemma execution_keeps_task:
  assumes "wf_db d'" and "db_later d d'" and j: "(a, p, t) \<in> set (attempt_task_joins d)"
    and "GetGitHubExecutionContext (a_id a) d' = Inr x"
  obtains t' where "t' \<in> set (tasks d')" and "t_id t' = t_id t" and "gx_github_installation_id x = t_github_installation_id t'"
proof -
  have keys: "distinct (map a_id (execution_attempts d'))" "distinct (map p_id (user_prompts d'))"
    using assms(1) by (simp_all add: wf_db_def keys_ok_def)
  obtain a' p' t' where j': "(a', p', t') \<in> set (attempt_task_joins d')" "x = github_execution_of (a', p', t')" "a_id a' = a_id a"
    using context_row [OF assms(4)] by (metis fst_conv prod_cases3)
  have mem: "a \<in> set (execution_attempts d)" "p \<in> set (user_prompts d)" "p_id p = a_user_prompt_id a" "t_id t = p_task_id p"
    using j by (auto simp: attempt_task_joins_def attempt_joins_def)
  have mem': "a' \<in> set (execution_attempts d')" "p' \<in> set (user_prompts d')" "t' \<in> set (tasks d')"
    "p_id p' = a_user_prompt_id a'" "t_id t' = p_task_id p'"
    using j'(1) by (auto simp: attempt_task_joins_def attempt_joins_def)
  have later: "extends attempt_later (execution_attempts d) (execution_attempts d')"
    "extends (same_fixed p_fixed) (user_prompts d) (user_prompts d')" using assms(2) by (simp_all add: db_later_def)
  obtain a1 where a1: "a1 \<in> set (execution_attempts d')" "attempt_later a a1" using extends_in [OF later(1) mem(1)] .
  then have "a_id a1 = a_id a" and prompt: "a_user_prompt_id a1 = a_user_prompt_id a" by (simp_all add: attempt_later_def a_fixed_def)
  then have "a1 = a'" using same_key [OF keys(1) a1(1) mem'(1)] j'(3) by simp
  obtain p1 where p1: "p1 \<in> set (user_prompts d')" "same_fixed p_fixed p p1" using extends_in [OF later(2) mem(2)] .
  then have same: "p_id p1 = p_id p" "p_task_id p1 = p_task_id p" by (simp_all add: same_fixed_def p_fixed_def)
  with p1 have "p1 = p'" using same_key [OF keys(2) p1(1) mem'(2)] mem(3) mem'(4) prompt \<open>a1 = a'\<close> by simp
  then have "t_id t' = t_id t" using mem(4) mem'(5) same(2) by simp
  then show thesis using mem'(3) j'(2) by (intro that) (simp_all add: github_execution_of_def)
qed

lemma PinTask_pins:
  assumes "PinTaskGitHubInstallation i now tid d = (d', rows)"
  shows "rows \<noteq> 0 \<Longrightarrow> pinned tid i d'" and "rows = 0 \<Longrightarrow> d' = d"
proof -
  have eq: "d' = d\<lparr>tasks := sql_update (\<lambda>t. t_id t = tid \<and> t_github_installation_id t = None)
      (\<lambda>t. t\<lparr>t_github_installation_id := Some i, t_updated_at := now\<rparr>) (tasks d)\<rparr>"
    and rows: "rows = sql_affected (\<lambda>t. t_id t = tid \<and> t_github_installation_id t = None)
      (\<lambda>t. t\<lparr>t_github_installation_id := Some i, t_updated_at := now\<rparr>) (tasks d)"
    using assms by (simp_all add: PinTaskGitHubInstallation_def upd_tasks_def)
  show "pinned tid i d'" if some: "rows \<noteq> 0"
  proof -
    obtain r where "t_id r = tid" "r\<lparr>t_github_installation_id := Some i, t_updated_at := now\<rparr> \<in> set (tasks d')"
      using sql_affected_witness [OF some [unfolded rows]] unfolding eq by auto
    then show ?thesis unfolding pinned_def list_ex_iff by (rule_tac bexI) simp_all
  qed
  show "d' = d" if "rows = 0"
    using sql_affected_zero_update [OF that [unfolded rows]] unfolding eq by simp
qed

text \<open>After an authorization on the primary repository the task is pinned to the installation it used.\<close>

lemma client_pins:
  assumes keeps: "\<And>cs d. wf_db d \<Longrightarrow> keeps_pins d (gv_others env cs d)" and wf: "wf_db (st_db st)"
    and j: "(a, p, t) \<in> set (attempt_task_joins (st_db st))"
    and run: "githubClientForExecution env (github_execution_of (a, p, t)) repo st = (Inr i, st')"
  shows "pinned (t_id t) i (st_db st')"
proof (cases "t_github_installation_id t")
  case (Some k)
  have "pinned (t_id t) k (st_db st)" using attempt_task_join [OF j] Some by (auto simp: pinned_def list_ex_iff)
  then have "pinned (t_id t) k (gv_others env cs (st_db st))" for cs using keeps [OF wf] by (simp add: keeps_pins_def)
  then show ?thesis using run Some
    by (auto simp: githubClientForExecution_def github_execution_of_def act_defs gh_request_def Let_def
        split: if_splits sum.splits prod.splits)
next
  case None
  define st1 where "st1 = snd (gh_request env (ClientForRepo repo) st)"
  have st1: "keeps_pins (st_db st) (st_db st1)" unfolding st1_def gh_request_def Let_def using keeps [OF wf] by simp
  obtain c where pin: "pin_installation env (github_execution_of (a, p, t)) c st1 = (Inr i, st')"
    using run None unfolding st1_def
    by (auto simp: githubClientForExecution_def act_bind_def act_wrap_def gh_request_def Let_def github_execution_of_def
        split: sum.splits prod.splits)
  have tid: "gx_task_id (github_execution_of (a, p, t)) = t_id t" "gx_execution_attempt_id (github_execution_of (a, p, t)) = a_id a"
    using attempt_task_join [OF j] by (simp_all add: github_execution_of_def)
  obtain d rows where upd: "PinTaskGitHubInstallation c (gv_now env (st_calls st1)) (t_id t) (st_db st1) = (d, rows)" by fastforce
  show ?thesis
  proof (cases "rows = 0")
    case False
    then have "st_db st' = d" "i = c" using pin upd tid by (auto simp: pin_installation_def split: option.splits)
    then show ?thesis using PinTask_pins(1) [OF upd False] by simp
  next
    case True
    then have d: "d = st_db st1" using PinTask_pins(2) [OF upd] by simp
    have "\<exists>x. GetGitHubExecutionContext (a_id a) d = Inr x \<and> gx_github_installation_id x = Some c \<and> i = c \<and> st_db st' = d"
      using pin upd tid True
      by (auto simp: pin_installation_def act_defs split: option.splits sum.splits prod.splits if_splits)
    then obtain x where x: "GetGitHubExecutionContext (a_id a) d = Inr x" "gx_github_installation_id x = Some c" "i = c" "st_db st' = d"
      by blast
    obtain t' where "t' \<in> set (tasks d)" "t_id t' = t_id t" "gx_github_installation_id x = t_github_installation_id t'"
      using execution_keeps_task [OF _ _ j x(1)] st1 d unfolding keeps_pins_def by blast
    then show ?thesis using x by (auto simp: pinned_def list_ex_iff)
  qed
qed

definition asks_primary :: "gh_ids \<Rightarrow> db \<Rightarrow> bool" where
  "asks_primary q d = list_all (\<lambda>t. t_id t = q_task q \<longrightarrow>
     (case Parse (q_repo q) of Inl _ \<Rightarrow> True | Inr r \<Rightarrow> same_repository (str_of (t_github_repo t)) r)) (tasks d)"

lemma primary_authorization:
  assumes run: "authorizeGitHubAction env q st = (Inr az, st')" and primary: "asks_primary q (st_db st)"
  obtains a p t repo where "(a, p, t) \<in> set (attempt_task_joins (st_db st))" and "t_id t = q_task q"
    and "githubClientForExecution env (github_execution_of (a, p, t)) repo st = (Inr (az_installationID az), st')"
  using run
proof (cases rule: authorize_cases)
  case (fenced requested a p t sg)
  have t: "t_id t = q_task q" "t \<in> set (tasks (st_db st))"
    using fenced(3) attempt_task_join [OF fenced(2)] by (simp_all add: executes_def)
  then have "same_repository (str_of (t_github_repo t)) requested"
    using primary fenced(1) by (simp add: asks_primary_def list_all_iff)
  then obtain taskRepo where repo: "Parse (str_of (t_github_repo t)) = Inr taskRepo" "Normalized requested = Normalized taskRepo"
    by (auto simp: same_repository_def split: sum.splits)
  have "githubClientForExecution env (github_execution_of (a, p, t)) (FullName taskRepo) st = (Inr (az_installationID az), st')"
    using fenced(5) repo unfolding authorize_repo_def
    by (auto simp: github_execution_of_def act_bind_def act_done_def split: prod.splits sum.splits)
  with fenced(2) t(1) show thesis by (rule that)
qed simp

lemma client_uses_pin:
  assumes "githubClientForExecution env x repo st = (Inr i, st')" and "gx_github_installation_id x = Some k"
  shows "i = k"
  using assms by (auto simp: githubClientForExecution_def act_defs gh_request_def Let_def split: if_splits sum.splits prod.splits)

lemma authorize_uses_pin:
  assumes "authorizeGitHubAction env q st = (Inr az, st')" and "asks_primary q (st_db st)" and wf: "wf_db (st_db st)"
    and pin: "pinned (q_task q) i (st_db st)"
  shows "az_installationID az = i"
  using assms(1,2)
proof (rule primary_authorization)
  fix a p t repo
  assume j: "(a, p, t) \<in> set (attempt_task_joins (st_db st))" and t: "t_id t = q_task q"
    and run: "githubClientForExecution env (github_execution_of (a, p, t)) repo st = (Inr (az_installationID az), st')"
  have mem: "t \<in> set (tasks (st_db st))" using attempt_task_join [OF j] by simp
  obtain t' where t': "t' \<in> set (tasks (st_db st))" "t_id t' = q_task q" "t_github_installation_id t' = Some i"
    using pin by (auto simp: pinned_def list_ex_iff)
  have "distinct (map t_id (tasks (st_db st)))" using wf by (simp add: wf_db_def keys_ok_def)
  then have "t' = t" using same_key t' mem t by metis
  then have "gx_github_installation_id (github_execution_of (a, p, t)) = Some i" using t'(3) by (simp add: github_execution_of_def)
  with run show ?thesis by (rule client_uses_pin)
qed

lemma authorize_pins:
  assumes keeps: "\<And>cs d. wf_db d \<Longrightarrow> keeps_pins d (gv_others env cs d)" and wf: "wf_db (st_db st)"
    and "authorizeGitHubAction env q st = (Inr az, st')" and "asks_primary q (st_db st)"
  shows "pinned (q_task q) (az_installationID az) (st_db st')"
  using assms(3,4)
proof (rule primary_authorization)
  fix a p t repo
  assume "(a, p, t) \<in> set (attempt_task_joins (st_db st))" "t_id t = q_task q"
    "githubClientForExecution env (github_execution_of (a, p, t)) repo st = (Inr (az_installationID az), st')"
  then show ?thesis using client_pins [OF keeps wf, where ?a = a and ?p = p and ?t = t] by metis
qed

section \<open>Signatures lead back\<close>

text \<open>A label that does not occur in a text, nor across its end, is found behind it.\<close>

lemma prefix_before: "prefix l (w @ c # z) \<Longrightarrow> c \<notin> set l \<Longrightarrow> prefix l w"
  by (auto simp: prefix_append prefix_Cons)

lemma footer_id_skip:
  assumes "l \<noteq> []" and "c \<notin> set l" and "\<not> contains u l"
  shows "footer_id l b pre (u @ c # z) = footer_id l b pre z"
  using assms(3)
proof (induction u)
  case Nil
  have "\<not> prefix l (c # z)" using assms(1,2) by (cases l) auto
  then show ?case by (simp add: footer_here_def)
next
  case (Cons x u)
  then have "\<not> prefix l (x # u @ c # z)" using prefix_before [of l "x # u" c z] assms(2) by auto
  with Cons show ?case by (simp add: footer_here_def)
qed

lemma contains_char: "c \<in> set l \<Longrightarrow> c \<notin> set u \<Longrightarrow> \<not> contains u l"
  by (auto elim!: containsE)

text \<open>An id as \<^verbatim>\<open>randomID\<close> and the hashes of deliveries make them: a prefix and hexadecimal digits.\<close>

definition generated_id :: "string \<Rightarrow> string \<Rightarrow> bool" where
  "generated_id pre s = (prefix pre s \<and> drop (length pre) s \<noteq> [] \<and> list_all is_lower_hex (drop (length pre) s))"

lemma generated_idE:
  assumes "generated_id pre s"
  obtains h where "s = pre @ h" and "h \<noteq> []" and "\<forall>c\<in>set h. is_lower_hex c"
  using assms unfolding generated_id_def list_all_iff by (metis prefix_def append_eq_conv_conj)

lemma takeWhile_stop: "\<forall>c\<in>set h. P c \<Longrightarrow> tail = [] \<or> \<not> P (hd tail) \<Longrightarrow> takeWhile P (h @ tail) = h"
  by (cases tail) (simp_all add: takeWhile_append)

lemma footer_here_id:
  assumes "generated_id pre i" and "pre \<noteq> []" and "\<not> re_space (hd pre)" and "hd pre \<noteq> CHR ''[''"
    and "tail = [] \<or> \<not> is_lower_hex (hd tail)"
  shows "footer_here l b pre (l @ CHR '' '' # i @ tail) = Some i"
    and "footer_here l True pre (l @ '' ['' @ i @ tail) = Some i"
proof -
  from assms(1) obtain h where h: "i = pre @ h" "h \<noteq> []" "\<forall>c\<in>set h. is_lower_hex c" by (rule generated_idE)
  obtain c cs where pre: "pre = c # cs" using assms(2) by (cases pre) auto
  have stop: "takeWhile is_lower_hex (h @ tail) = h" using takeWhile_stop [OF h(3)] assms(5) by blast
  have sp: "re_space (CHR '' '')" "\<not> re_space (CHR ''['')" by (simp_all add: re_space_def)
  have "\<not> re_space c" "c \<noteq> CHR ''[''" using assms(3,4) pre by simp_all
  then show "footer_here l b pre (l @ CHR '' '' # i @ tail) = Some i" and "footer_here l True pre (l @ '' ['' @ i @ tail) = Some i"
    using stop h(2) sp by (simp_all add: footer_here_def Let_def h(1) pre)
qed

lemma footer_id_here: "footer_here l b pre s = Some i \<Longrightarrow> footer_id l b pre s = Some i"
  by (cases s) (simp_all add: footer_here_def Let_def split: if_splits)

lemma signature_text:
  assumes "sess \<noteq> []" and "prompt \<noteq> []"
  obtains tail where "githubToolSignatureForContext web task sess prompt attempt d =
      ''---'' @ newline # ''Task: '' @ task_link web task @ '' | Session: '' @ sess @ '' | Prompt: '' @ prompt @
      '' | Attempt: '' @ attempt @ tail" and "tail = [] \<or> hd tail = CHR '' ''"
proof -
  define xs where "xs = (case GetAgentSessionByID sess d of
           Inl _ \<Rightarrow> []
         | Inr session \<Rightarrow>
             (let agent = trim_space (str_of (s_agent session)) in if agent \<noteq> [] then [''Agent: '' @ agent] else []) @
             (let model = trim_space (str_of (s_model_id session)) in if model \<noteq> [] then [''Model: '' @ model] else []))"
  have tail: "join_with '' | '' (x # xs) = x @ (if xs = [] then [] else '' | '' @ join_with '' | '' xs)" for x
    by (cases xs) simp_all
  have "githubToolSignatureForContext web task sess prompt attempt d = ''---'' @ newline # join_with '' | ''
      ((''Task: '' @ task_link web task) # (''Session: '' @ sess) # (''Prompt: '' @ prompt) # (''Attempt: '' @ attempt) # xs)"
    using assms unfolding githubToolSignatureForContext_def xs_def [symmetric] by simp
  then show thesis
    by (intro that [of "if xs = [] then [] else '' | '' @ join_with '' | '' xs"]) (simp_all add: tail)
qed

text \<open>Reading past the body, past a separator and past the task.\<close>

definition skippable :: "string \<Rightarrow> bool" where
  "skippable l = (CHR '':'' \<in> set l \<and> newline \<notin> set l \<and> CHR '' '' \<notin> set l \<and> CHR ''|'' \<notin> set l)"

lemma skip_body:
  assumes "skippable l" and "\<not> contains (trim_space (stripExistingChetterSignature body)) l"
  shows "footer_id l b pre (appendChetterSignature body (''---'' @ newline # z)) = footer_id l b pre z"
proof -
  have l: "l \<noteq> []" "newline \<notin> set l" using assms(1) by (auto simp: skippable_def)
  have no: "\<not> contains [] l" using l(1) by simp
  have "\<not> contains ''---'' l" by (rule contains_char [of "CHR '':''"]) (use assms(1) in \<open>simp_all add: skippable_def\<close>)
  then have sig: "footer_id l b pre (''---'' @ newline # z) = footer_id l b pre z" by (rule footer_id_skip [OF l])
  have "footer_id l b pre (w @ newline # newline # ''---'' @ newline # z) = footer_id l b pre z" if "\<not> contains w l" for w
    using footer_id_skip [OF l that, of b pre "newline # ''---'' @ newline # z"]
      footer_id_skip [OF l no, of b pre "''---'' @ newline # z"] sig by simp
  then show ?thesis using assms(2) sig by (simp add: appendChetterSignature_def Let_def)
qed

lemma skip_word:
  assumes "skippable l" and "\<not> contains w l"
  shows "footer_id l b pre (w @ '' | '' @ z) = footer_id l b pre z"
proof -
  have l: "l \<noteq> []" "CHR '' '' \<notin> set l" "CHR ''|'' \<notin> set l" using assms(1) by (auto simp: skippable_def)
  have no: "\<not> contains [] l" using l(1) by simp
  show ?thesis
    using footer_id_skip [OF l(1,2) assms(2), of b pre "''| '' @ z"] footer_id_skip [OF l(1,3) no, of b pre "CHR '' '' # z"]
      footer_id_skip [OF l(1,2) no, of b pre z] by simp
qed

lemma skip_label:
  assumes "skippable l" and "\<not> contains w l"
  shows "footer_id l b pre (w @ CHR '' '' # z) = footer_id l b pre z"
  using assms by (intro footer_id_skip) (auto simp: skippable_def)

lemma id_has_no: "generated_id pre i \<Longrightarrow> CHR '':'' \<notin> set pre \<Longrightarrow> skippable l \<Longrightarrow> \<not> contains i l"
  by (elim generated_idE, rule contains_char [of "CHR '':''"]) (auto simp: skippable_def is_lower_hex_def is_digit_def Let_def)

definition footer_labels :: "string list" where
  "footer_labels = [''Task:'', ''Session:'', ''Prompt:'', ''Attempt:'']"

definition unlabelled :: "string \<Rightarrow> bool" where
  "unlabelled s = list_all (\<lambda>l. \<not> contains s l) footer_labels"

lemma labels_skippable: "skippable ''Task:''" "skippable ''Session:''" "skippable ''Prompt:''" "skippable ''Attempt:''"
  by code_simp+

lemma task_link_link:
  assumes "generated_id ''task_'' task"
  obtains tail where "task_link web task = task @ tail" and "tail = []"
  | tail where "task_link web task = CHR ''['' # task @ tail" and "hd tail = CHR '']''" and "tail \<noteq> []"
  by (cases "web = []") (auto simp: task_link_def)

lemma signature_footers:
  assumes task: "generated_id ''task_'' task" and sess: "generated_id ''sess_'' sess"
    and prompt: "generated_id ''prompt_'' prompt" and attempt: "generated_id ''exec_'' attempt"
    and body: "unlabelled (trim_space (stripExistingChetterSignature body))"
    and link: "\<forall>l\<in>set (tl footer_labels). \<not> contains (task_link web task) l"
    and doc: "doc = appendChetterSignature body (githubToolSignatureForContext web task sess prompt attempt d)"
  shows "footer_id ''Task:'' True ''task_'' doc = Some task" and "footer_id ''Session:'' False ''sess_'' doc = Some sess"
    and "footer_id ''Prompt:'' False ''prompt_'' doc = Some prompt" and "footer_id ''Attempt:'' False ''exec_'' doc = Some attempt"
proof -
  note l = link [unfolded footer_labels_def list.sel list.set]
  have ne: "sess \<noteq> []" "prompt \<noteq> []" using sess prompt by (auto simp: generated_id_def)
  obtain tail where sg: "githubToolSignatureForContext web task sess prompt attempt d =
      ''---'' @ newline # ''Task: '' @ task_link web task @ '' | Session: '' @ sess @ '' | Prompt: '' @ prompt @
      '' | Attempt: '' @ attempt @ tail" and tail: "tail = [] \<or> hd tail = CHR '' ''"
    using signature_text [OF ne] by metis
  define z4 where "z4 = ''Attempt:'' @ CHR '' '' # attempt @ tail"
  define z3 where "z3 = ''Prompt:'' @ CHR '' '' # prompt @ '' | '' @ z4"
  define z2 where "z2 = ''Session:'' @ CHR '' '' # sess @ '' | '' @ z3"
  define z1 where "z1 = ''Task:'' @ CHR '' '' # task_link web task @ '' | '' @ z2"
  have doc': "doc = appendChetterSignature body (''---'' @ newline # z1)"
    unfolding doc sg z1_def z2_def z3_def z4_def by simp
  have start: "footer_id l br pre doc = footer_id l br pre z1" if "skippable l" "l \<in> set footer_labels" for l br pre
    unfolding doc' using body that(2) by (intro skip_body [OF that(1)]) (simp add: unlabelled_def list_all_iff)
  have past_task: "footer_id l br pre z1 = footer_id l br pre z2" if "skippable l" "\<not> contains ''Task:'' l" "\<not> contains (task_link web task) l" for l br pre
    unfolding z1_def using skip_label [OF that(1,2)] skip_word [OF that(1,3)] by simp
  have past_sess: "footer_id l br pre z2 = footer_id l br pre z3" if "skippable l" "\<not> contains ''Session:'' l" for l br pre
    unfolding z2_def using skip_label [OF that] skip_word [OF that(1) id_has_no [OF sess _ that(1)]] by simp
  have past_prompt: "footer_id l br pre z3 = footer_id l br pre z4" if "skippable l" "\<not> contains ''Prompt:'' l" for l br pre
    unfolding z3_def using skip_label [OF that] skip_word [OF that(1) id_has_no [OF prompt _ that(1)]] by simp
  have space: "\<not> is_lower_hex (CHR '' '')" "\<not> is_lower_hex (CHR '']'')" by (simp_all add: is_lower_hex_def is_digit_def)
  have "footer_here ''Task:'' True ''task_'' z1 = Some task"
    using task_link_link [OF task, of web]
  proof cases
    case (1 t)
    then show ?thesis using footer_here_id(1) [OF task, of "'' | '' @ z2" "''Task:'' " True] space by (simp add: z1_def re_space_def)
  next
    case (2 t)
    then show ?thesis using footer_here_id(2) [OF task, of "t @ '' | '' @ z2" "''Task:'' "] space by (simp add: z1_def re_space_def)
  qed
  then show "footer_id ''Task:'' True ''task_'' doc = Some task"
    using start [OF labels_skippable(1)] by (simp add: footer_labels_def footer_id_here)
  have "footer_here ''Session:'' False ''sess_'' z2 = Some sess"
    using footer_here_id(1) [OF sess, of "'' | '' @ z3" "''Session:''" False] space by (simp add: z2_def re_space_def)
  then have "footer_id ''Session:'' False ''sess_'' z1 = Some sess"
    using past_task [OF labels_skippable(2)] l by (simp add: footer_id_here)
  then show "footer_id ''Session:'' False ''sess_'' doc = Some sess"
    using start [OF labels_skippable(2)] by (simp add: footer_labels_def)
  have "footer_here ''Prompt:'' False ''prompt_'' z3 = Some prompt"
    using footer_here_id(1) [OF prompt, of "'' | '' @ z4" "''Prompt:''" False] space by (simp add: z3_def re_space_def)
  then have "footer_id ''Prompt:'' False ''prompt_'' z1 = Some prompt"
    using past_task [OF labels_skippable(3)] past_sess [OF labels_skippable(3)] l by (simp add: footer_id_here)
  then show "footer_id ''Prompt:'' False ''prompt_'' doc = Some prompt"
    using start [OF labels_skippable(3)] by (simp add: footer_labels_def)
  have "footer_here ''Attempt:'' False ''exec_'' z4 = Some attempt"
    using footer_here_id(1) [OF attempt, of tail "''Attempt:''" False] space tail by (auto simp: z4_def re_space_def)
  then have "footer_id ''Attempt:'' False ''exec_'' z1 = Some attempt"
    using past_task [OF labels_skippable(4)] past_sess [OF labels_skippable(4)] past_prompt [OF labels_skippable(4)] l
    by (simp add: footer_id_here)
  then show "footer_id ''Attempt:'' False ''exec_'' doc = Some attempt"
    using start [OF labels_skippable(4)] by (simp add: footer_labels_def)
qed

section \<open>Properties\<close>

text \<open>
  C17. Whatever a runner asks for, and whatever GitHub and the other connections do meanwhile, an
  operation makes a call to GitHub only if at its start, by the clock and the database it read then,
  the execution ran under a live lease of the caller and its claim, and the requested repository was
  that of the task or one of the task's set; every call that names a repository, the lookup of a
  client included, names the requested one. A caller that did not hold the execution at the start is
  refused, with no call made and nothing stored.
\<close>

theorem github_actions_are_fenced:
  assumes "serve_github env q rq st = (r, st')"
  shows "(\<exists>cs. st_calls st' = st_calls st @ cs \<and> (cs \<noteq> [] \<longrightarrow>
           (\<exists>requested. Parse (q_repo q) = Inr requested \<and> may_act (gv_now env (st_calls st)) q requested (st_db st) \<and>
             (\<forall>c\<in>set cs. \<forall>repo. call_repo c = Some repo \<longrightarrow> names_repository requested repo)))) \<and>
         (\<not> holds_execution (gv_now env (st_calls st)) q (st_db st) \<longrightarrow> isl r \<and> st' = st)"
  using serve_github_fenced [of env q rq] assms unfolding fenced_def by (metis isl_def)

text \<open>
  C18. A credential is handed out only if the caller was authorized twice for the repository the token
  is restricted to: in the database and at the time of the request, before GitHub was asked for the
  token, and again in the database as the other connections left it once the token was issued. The
  token handed out is the one issued between the two checks.
\<close>

theorem credential_rechecked_after_issue:
  assumes "GetGitHubCredential env q st = (Inr cred, st')"
  shows "\<exists>az st1 requested t. authorizeGitHubAction env q st = (Inr az, st1) \<and> Parse (q_repo q) = Inr requested \<and>
     may_act (gv_now env (st_calls st)) q requested (st_db st) \<and> names_repository requested (az_repo az) \<and>
     (let calls = st_calls st1 @ [CredentialForRepo (az_installationID az) (az_repo az)] in
      gv_reply env (st_calls st1) (CredentialForRepo (az_installationID az) (az_repo az)) = Inr t \<and>
      cred = (''x-access-token'', gr_Token t, gr_ExpiresAt t) \<and> prefix calls (st_calls st') \<and>
      may_act (gv_now env calls) q requested (gv_others env calls (st_db st1)))"
proof -
  obtain az st1 t az2 where steps: "authorizeGitHubAction env q st = (Inr az, st1)"
    "gv_reply env (st_calls st1) (CredentialForRepo (az_installationID az) (az_repo az)) = Inr t"
    "authorizeGitHubAction env q (snd (gh_request env (CredentialForRepo (az_installationID az) (az_repo az)) st1)) = (Inr az2, st')"
    "cred = (''x-access-token'', gr_Token t, gr_ExpiresAt t)"
    using assms by (auto simp: GetGitHubCredential_def act_defs gh_request_def Let_def split: if_splits sum.splits prod.splits)
  let ?c = "CredentialForRepo (az_installationID az) (az_repo az)"
  obtain cs' where "st_calls st' = st_calls (snd (gh_request env ?c st1)) @ cs'"
    using tracedD [OF traced_authorize steps(3)] by blast
  then have "prefix (st_calls st1 @ [?c]) (st_calls st')" by (simp add: gh_request_def Let_def)
  moreover obtain requested where before: "Parse (q_repo q) = Inr requested"
    "may_act (gv_now env (st_calls st)) q requested (st_db st)" "names_repository requested (az_repo az)"
    using authorize_may_act [OF steps(1)] by blast
  moreover have "may_act (gv_now env (st_calls st1 @ [?c])) q requested (gv_others env (st_calls st1 @ [?c]) (st_db st1))"
    using authorize_may_act [OF steps(3)] before(1) by (auto simp: gh_request_def Let_def)
  ultimately show ?thesis using steps(1,2,4) unfolding Let_def by blast
qed

text \<open>
  C19. Two authorizations of a task for its primary repository choose the same installation of the
  GitHub App, also when other connections raced to pin it, provided the other connections keep the
  database well formed and a pin that is set. Secondary repositories of a task are resolved anew on
  every request and are not pinned.
\<close>

theorem task_acts_through_one_installation:
  assumes "wf_db (st_db st)" and "\<forall>cs d. wf_db d \<longrightarrow> keeps_pins d (gv_others env cs d)"
    and "authorizeGitHubAction env q st = (Inr az, st')" and "asks_primary q (st_db st)"
    and "keeps_pins (st_db st') (st_db later)"
    and "authorizeGitHubAction env' q' later = (Inr az', later')" and "asks_primary q' (st_db later)" and "q_task q' = q_task q"
  shows "az_installationID az' = az_installationID az"
proof -
  have "pinned (q_task q) (az_installationID az) (st_db st')" using authorize_pins assms(1-4) by blast
  then have "pinned (q_task q') (az_installationID az) (st_db later)" using assms(5,8) by (simp add: keeps_pins_def)
  then show ?thesis using authorize_uses_pin [OF assms(6,7)] assms(5) by (simp add: keeps_pins_def)
qed

text \<open>
  C30. The signature that is appended to what an execution writes on GitHub leads back to it: when the
  webhook for the new issue, pull request or comment arrives, the recorded artifact names the task,
  session, prompt and attempt of the signature, provided the text before it has no footer of its own.
\<close>

theorem webhook_reads_signature_back:
  assumes "generated_id ''task_'' task" and "generated_id ''sess_'' sess" and "generated_id ''prompt_'' prompt"
    and "generated_id ''exec_'' attempt" and "unlabelled (trim_space (stripExistingChetterSignature body))"
    and "\<forall>l\<in>set (tl footer_labels). \<not> contains (task_link web task) l"
  shows "artifact_of (appendChetterSignature body (githubToolSignatureForContext web task sess prompt attempt d)) repo n url ty =
    Some \<lparr>ra_TaskID = task, ra_AgentSessionID = sess, ra_UserPromptID = prompt, ra_ExecutionAttemptID = attempt,
      ra_ArtifactType = ty, ra_Repo = repo, ra_Number = n, ra_URL = url, ra_DiscoverySource = ''webhook''\<rparr>"
  using signature_footers [OF assms refl] by (simp add: artifact_of_def str_of_def)

text \<open>
  The converse: a footer in the text itself stands further left than the signature, and the artifact
  is recorded for the task it names.
\<close>

theorem footer_in_body_wins:
  assumes "generated_id ''task_'' other" and "prefix (''Task: '' @ other @ '' '') (trim_space (stripExistingChetterSignature body))"
  shows "map_option ra_TaskID (artifact_of (appendChetterSignature body signature) repo n url ty) = Some other"
proof -
  from assms(2) obtain w where w: "trim_space (stripExistingChetterSignature body) = ''Task: '' @ other @ '' '' @ w"
    by (auto elim!: prefixE)
  have "\<not> is_lower_hex (CHR '' '')" by (simp add: is_lower_hex_def is_digit_def)
  then have "footer_here ''Task:'' True ''task_'' (appendChetterSignature body signature) = Some other"
    using footer_here_id(1) [OF assms(1), of "'' '' @ w @ [newline, newline] @ signature" "''Task:''" True]
    by (simp add: appendChetterSignature_def Let_def w re_space_def)
  then show ?thesis by (simp add: artifact_of_def footer_id_here)
qed

section \<open>Examples\<close>

definition ex_git_db :: db where
  "ex_git_db = ex_running_db\<lparr>tasks := map (\<lambda>t. t\<lparr>t_github_repo := Some ''o/r''\<rparr>) (tasks ex_running_db)\<rparr>"

definition ex_git_state :: gh_state where
  "ex_git_state = \<lparr>st_db = ex_git_db, st_artifacts = [], st_audit = [], st_calls = []\<rparr>"

definition ex_git_env :: git_env where
  "ex_git_env = \<lparr>gv_actions = True, gv_manager = True, gv_web_url = [], gv_now = (\<lambda>_. 0), gv_id = (\<lambda>p cs. Some p),
     gv_fail = (\<lambda>_ _. None), gv_reply = (\<lambda>_ _. Inr \<lparr>gr_InstallationID = 5, gr_Number = 7, gr_HTMLURL = ''u'', gr_SHA = [],
       gr_State = ''open'', gr_Merged = False, gr_LabelNames = [], gr_Token = ''secret'', gr_ExpiresAt = 0\<rparr>),
     gv_others = (\<lambda>_ d. d)\<rparr>"

definition ex_git_ids :: gh_ids where
  "ex_git_ids = \<lparr>q_task = ''t1'', q_execution = ''x1'', q_runner = ''r1'', q_repo = ''O/R'', q_claim = ''c''\<rparr>"

lemma ex_close: "st_calls (snd (serve_github ex_git_env ex_git_ids (RpcClosePR 7) ex_git_state)) = [ClientForRepo ''o/r'', ClosePullRequest 5 ''o/r'' 7]"
  by code_simp

theorem github_actions_are_fenced_witness:
  "st_calls (snd (serve_github ex_git_env ex_git_ids (RpcClosePR 7) ex_git_state)) = [ClientForRepo ''o/r'', ClosePullRequest 5 ''o/r'' 7] \<and>
   (\<exists>requested. Parse ''O/R'' = Inr requested \<and> may_act 0 ex_git_ids requested ex_git_db \<and> names_repository requested ''o/r'') \<and>
   isl (fst (serve_github ex_git_env (ex_git_ids\<lparr>q_claim := ''old''\<rparr>) (RpcClosePR 7) ex_git_state)) \<and>
   snd (serve_github ex_git_env (ex_git_ids\<lparr>q_claim := ''old''\<rparr>) (RpcClosePR 7) ex_git_state) = ex_git_state"
proof -
  have env: "gv_now ex_git_env [] = 0" "st_calls ex_git_state = []" "st_db ex_git_state = ex_git_db" "q_repo ex_git_ids = ''O/R''"
    by (simp_all add: ex_git_env_def ex_git_state_def ex_git_ids_def)
  have ok: "\<not> holds_execution 0 (ex_git_ids\<lparr>q_claim := ''old''\<rparr>) ex_git_db" by code_simp
  note run = github_actions_are_fenced [OF surjective_pairing, of ex_git_env ex_git_ids "RpcClosePR 7" ex_git_state]
  note refused = github_actions_are_fenced [OF surjective_pairing, of ex_git_env "ex_git_ids\<lparr>q_claim := ''old''\<rparr>" "RpcClosePR 7" ex_git_state]
  have "\<exists>requested. Parse ''O/R'' = Inr requested \<and> may_act 0 ex_git_ids requested ex_git_db \<and> names_repository requested ''o/r''"
    using run ex_close unfolding env append_Nil by fastforce
  then show ?thesis using ex_close refused ok unfolding env by simp
qed

theorem credential_rechecked_after_issue_witness:
  "\<exists>az st1 requested. authorizeGitHubAction ex_git_env ex_git_ids ex_git_state = (Inr az, st1) \<and> Parse ''O/R'' = Inr requested \<and>
     may_act 0 ex_git_ids requested ex_git_db \<and> names_repository requested (az_repo az) \<and>
     prefix (st_calls st1 @ [CredentialForRepo (az_installationID az) (az_repo az)])
       (st_calls (snd (GetGitHubCredential ex_git_env ex_git_ids ex_git_state))) \<and>
     may_act 0 ex_git_ids requested (st_db st1)"
proof -
  have env: "gv_now ex_git_env cs = 0" "st_calls ex_git_state = []" "st_db ex_git_state = ex_git_db" "q_repo ex_git_ids = ''O/R''"
      "gv_others ex_git_env cs d = d" for cs d
    by (simp_all add: ex_git_env_def ex_git_state_def ex_git_ids_def)
  have "fst (GetGitHubCredential ex_git_env ex_git_ids ex_git_state) = Inr (''x-access-token'', ''secret'', 0)" by code_simp
  then have "GetGitHubCredential ex_git_env ex_git_ids ex_git_state =
      (Inr (''x-access-token'', ''secret'', 0), snd (GetGitHubCredential ex_git_env ex_git_ids ex_git_state))"
    by (metis surjective_pairing)
  from credential_rechecked_after_issue [OF this] show ?thesis unfolding env Let_def by blast
qed

theorem task_acts_through_one_installation_witness:
  "\<exists>az az' st' later'. authorizeGitHubAction ex_git_env ex_git_ids ex_git_state = (Inr az, st') \<and>
     authorizeGitHubAction (ex_git_env\<lparr>gv_reply := \<lambda>_ _. Inr \<lparr>gr_InstallationID = 6, gr_Number = 7, gr_HTMLURL = ''u'', gr_SHA = [],
       gr_State = ''open'', gr_Merged = False, gr_LabelNames = [], gr_Token = ''secret'', gr_ExpiresAt = 0\<rparr>\<rparr>) ex_git_ids st' = (Inr az', later') \<and>
     az_installationID az' = az_installationID az"
proof -
  let ?env = "ex_git_env\<lparr>gv_reply := \<lambda>_ _. Inr \<lparr>gr_InstallationID = 6, gr_Number = 7, gr_HTMLURL = ''u'', gr_SHA = [],
       gr_State = ''open'', gr_Merged = False, gr_LabelNames = [], gr_Token = ''secret'', gr_ExpiresAt = 0\<rparr>\<rparr>"
  let ?run = "authorizeGitHubAction ex_git_env ex_git_ids ex_git_state"
  have wf: "wf_db (st_db ex_git_state)" "wf_db (st_db (snd ?run))" by code_simp+
  have keep: "keeps_pins d d" if "wf_db d" for d using that by (simp add: keeps_pins_def)
  then have keeps: "\<forall>cs d. wf_db d \<longrightarrow> keeps_pins d (gv_others ex_git_env cs d)" by (simp add: ex_git_env_def)
  have ask: "asks_primary ex_git_ids (st_db ex_git_state)" "asks_primary ex_git_ids (st_db (snd ?run))" by code_simp+
  have "\<not> isl (fst ?run)" "\<not> isl (fst (authorizeGitHubAction ?env ex_git_ids (snd ?run)))" by code_simp+
  then obtain az az' where az: "?run = (Inr az, snd ?run)"
    "authorizeGitHubAction ?env ex_git_ids (snd ?run) = (Inr az', snd (authorizeGitHubAction ?env ex_git_ids (snd ?run)))"
    by (metis not_isl_iff surjective_pairing)
  show ?thesis
    using task_acts_through_one_installation [OF wf(1) keeps az(1) ask(1) keep [OF wf(2)] az(2) ask(2) refl] az by blast
qed

theorem webhook_reads_signature_back_witness:
  "map_option ra_ExecutionAttemptID (artifact_of (appendChetterSignature ''Fixes the build.''
     (githubToolSignatureForContext ''https://c/'' ''task_0a'' ''sess_1b'' ''prompt_2c'' ''exec_3d'' ex_git_db)) ''o/r'' 7 ''u'' ''pr'') = Some ''exec_3d''"
proof -
  have "generated_id ''task_'' ''task_0a''" "generated_id ''sess_'' ''sess_1b''" "generated_id ''prompt_'' ''prompt_2c''"
    "generated_id ''exec_'' ''exec_3d''" "unlabelled (trim_space (stripExistingChetterSignature ''Fixes the build.''))"
    "\<forall>l\<in>set (tl footer_labels). \<not> contains (task_link ''https://c/'' ''task_0a'') l"
    by code_simp+
  from webhook_reads_signature_back [OF this] show ?thesis by simp
qed

end
