(* ===== verification/Chetter_Triggers.thy ===== *)
theory Chetter_Triggers
  imports Chetter_Coordination Chetter_Webhook_Events Chetter_Examples
begin

text \<open>
  Triggers (\<^verbatim>\<open>internal/service/service.go\<close>, \<^verbatim>\<open>trigger_promotion.go\<close>, the statements of
  \<^verbatim>\<open>internal/repository/triggers.sql.go\<close>): their administration, the schedule each replica keeps
  in memory, the run of an interval under the lock of \<open>Chetter_Coordination\<close>, and the lookups of the
  GitHub webhooks. The cron library is a parameter: \<open>te_parse\<close> gives the function
  \<^verbatim>\<open>schedule.Next\<close> of an expression, \<open>te_next\<close> the time of the next run of an entry (none while
  the scheduler does not run). A configuration is its decoded value.
\<close>

section \<open>Rows and inputs\<close>

record triggerRuntimeConfig =
  rc_Event :: string
  rc_MatchLabels :: "string list"
  rc_SessionMode :: string
  rc_PauseReason :: string
  rc_TTLHours :: int
  rc_Isolation :: string

text \<open>
  The empty string, a text that is not JSON, a JSON value that is no object (it decodes to nothing),
  or an object with its runtime fields and \<^verbatim>\<open>repo\<close> as far as they decode: a field of another type
  leaves the zero value.
\<close>

datatype trigger_json = NoConfig | InvalidJSON string | OtherJSON string | Config triggerRuntimeConfig string

definition valid_json :: "trigger_json \<Rightarrow> bool" where
  "valid_json cfg = (case cfg of NoConfig \<Rightarrow> False | InvalidJSON x \<Rightarrow> False | OtherJSON x \<Rightarrow> True | Config c r \<Rightarrow> True)"

definition zero_runtime :: triggerRuntimeConfig where
  "zero_runtime = \<lparr>rc_Event = [], rc_MatchLabels = [], rc_SessionMode = [], rc_PauseReason = [], rc_TTLHours = 0, rc_Isolation = []\<rparr>"

definition triggerRuntimeConfigFromJSON :: "trigger_json \<Rightarrow> triggerRuntimeConfig" where
  "triggerRuntimeConfigFromJSON cfg = (case cfg of Config c repo \<Rightarrow> c | _ \<Rightarrow> zero_runtime)"

definition config_repo :: "trigger_json \<Rightarrow> string" where
  "config_repo cfg = (case cfg of Config c repo \<Rightarrow> repo | _ \<Rightarrow> [])"

definition emptyTriggerConfig :: trigger_json where
  "emptyTriggerConfig = Config zero_runtime []"

record trigger =
  tg_id :: string
  tg_name :: string
  tg_trigger_type :: string
  tg_trigger_config :: trigger_json
  tg_cron_expr :: string
  tg_prompt :: string
  tg_git_url :: "string option"
  tg_git_ref :: "string option"
  tg_agent_image :: "string option"
  tg_agent :: "string option"
  tg_provider_id :: "string option"
  tg_model_id :: "string option"
  tg_variant_id :: "string option"
  tg_harness :: "string option"
  tg_skills :: "string list"
  tg_timeout_sec :: int
  tg_enabled :: bool
  tg_created_at :: time
  tg_updated_at :: time
  tg_last_run_at :: "time option"
  tg_next_run_at :: "time option"
  tg_team_id :: "string option"
  tg_source_id :: "string option"

text \<open>\<^verbatim>\<open>store.TriggerInput\<close>, without the field \<^verbatim>\<open>SourceID\<close>, which none of the operations reads.\<close>

record store_trigger =
  in_TeamID :: string
  in_TeamName :: string
  in_ID :: string
  in_Name :: string
  in_TriggerType :: string
  in_TriggerConfig :: trigger_json
  in_CronExpr :: string
  in_Prompt :: string
  in_GitURL :: string
  in_GitRef :: string
  in_AgentImage :: string
  in_Agent :: string
  in_ProviderID :: string
  in_ModelID :: string
  in_VariantID :: string
  in_Harness :: string
  in_Skills :: "string list"
  in_TimeoutSec :: int

text \<open>
  The shared state, and for each replica the trigger ids its scheduler runs with their expressions:
  \<^verbatim>\<open>cronEntries\<close> together with the entries of the cron library. An entry that was removed from the
  library counts as absent, since its id is never used again.
\<close>

record trigger_sys =
  ts_rows :: "trigger list"
  ts_locks :: trigger_locks
  ts_tasks :: "rpc_state \<times> db"
  ts_entries :: "nat \<Rightarrow> string \<Rightarrow> string option"

record trigger_env =
  te_cfg :: svc_config
  te_submit :: submit_env
  te_replica :: nat
  te_now :: time
  te_id :: "string option"
  te_parse :: "string \<Rightarrow> (time \<Rightarrow> time) option"
  te_next :: "string \<Rightarrow> time option"
  te_fail :: "string \<Rightarrow> error option"

type_synonym 'a trigger_act = "(trigger_sys, 'a) act"

definition scope_of :: "trigger_env \<Rightarrow> Scope option" where
  "scope_of env = sv_scope (te_submit env)"

section \<open>Statements (triggers.sql.go)\<close>

definition run_stmt :: "trigger_env \<Rightarrow> string \<Rightarrow> (trigger_sys \<Rightarrow> error + 'a \<times> trigger_sys) \<Rightarrow> 'a trigger_act" where
  "run_stmt env name stmt s =
     (case te_fail env name of
        Some e \<Rightarrow> (Inl e, s)
      | None \<Rightarrow> (case stmt s of Inl e \<Rightarrow> (Inl e, s) | Inr (x, s') \<Rightarrow> (Inr x, s')))"

definition on_rows :: "(trigger list \<Rightarrow> error + trigger list) \<Rightarrow> trigger_sys \<Rightarrow> error + unit \<times> trigger_sys" where
  "on_rows f s = bind_res (f (ts_rows s)) (\<lambda>rows. Inr ((), s\<lparr>ts_rows := rows\<rparr>))"

definition GetTriggerByID :: "string \<Rightarrow> trigger_sys \<Rightarrow> error + trigger \<times> trigger_sys" where
  "GetTriggerByID i s = bind_res (sql_one (\<lambda>t. tg_id t = i) (ts_rows s)) (\<lambda>t. Inr (t, s))"

definition GetTriggerByName :: "string \<Rightarrow> trigger_sys \<Rightarrow> error + trigger \<times> trigger_sys" where
  "GetTriggerByName n s = bind_res (sql_one (\<lambda>t. tg_name t = n) (ts_rows s)) (\<lambda>t. Inr (t, s))"

text \<open>The column of the configuration takes any JSON value and nothing else.\<close>

definition json_column :: "trigger_json \<Rightarrow> error + unit" where
  "json_column cfg = (if valid_json cfg then Inr () else Inl (MySQLError 3140 ''Invalid JSON text''))"

definition CreateTrigger_sql :: "trigger \<Rightarrow> trigger list \<Rightarrow> error + trigger list" where
  "CreateTrigger_sql row rows =
     bind_res (json_column (tg_trigger_config row)) (\<lambda>_.
     if tg_id row \<in> tg_id ` set rows \<or> tg_name row \<in> tg_name ` set rows then Inl SqlDuplicateKey
     else Inr (rows @ [row]))"

definition UpdateTrigger_sql :: "(trigger \<Rightarrow> trigger) \<Rightarrow> string \<Rightarrow> string \<Rightarrow> trigger_json \<Rightarrow> trigger list \<Rightarrow> error + trigger list" where
  "UpdateTrigger_sql f oldName newName cfg rows =
     bind_res (json_column cfg) (\<lambda>_.
     if oldName \<noteq> newName \<and> oldName \<in> tg_name ` set rows \<and> newName \<in> tg_name ` set rows then Inl SqlDuplicateKey
     else Inr (sql_update (\<lambda>t. tg_name t = oldName) f rows))"

definition DeleteTrigger_sql :: "string \<Rightarrow> trigger list \<Rightarrow> error + trigger list" where
  "DeleteTrigger_sql name rows = Inr (filter (\<lambda>t. tg_name t \<noteq> name) rows)"

definition SetTriggerNextRun :: "time \<Rightarrow> time \<Rightarrow> string \<Rightarrow> trigger list \<Rightarrow> error + trigger list" where
  "SetTriggerNextRun next now i rows =
     Inr (sql_update (\<lambda>t. tg_id t = i) (\<lambda>t. t\<lparr>tg_next_run_at := Some next, tg_updated_at := now\<rparr>) rows)"

definition ListEnabledTriggersByType :: "string \<Rightarrow> trigger list \<Rightarrow> trigger list" where
  "ListEnabledTriggersByType ty rows =
     sql_order_asc (\<lambda>t. - tg_created_at t) (filter (\<lambda>t. tg_enabled t \<and> tg_trigger_type t = ty) rows)"

definition ListEnabledTriggersByRepo_sql :: "string \<Rightarrow> string \<Rightarrow> trigger list \<Rightarrow> trigger list" where
  "ListEnabledTriggersByRepo_sql ty repo rows =
     sql_order_asc (\<lambda>t. - tg_created_at t)
       (filter (\<lambda>t. tg_enabled t \<and> tg_trigger_type t = ty \<and> config_repo (tg_trigger_config t) = repo) rows)"

section \<open>Schedules\<close>

definition set_entry :: "nat \<Rightarrow> string \<Rightarrow> string option \<Rightarrow> trigger_sys \<Rightarrow> trigger_sys" where
  "set_entry k i e s = s\<lparr>ts_entries := (ts_entries s)(k := (ts_entries s k)(i := e))\<rparr>"

definition record_next_run :: "trigger_env \<Rightarrow> string \<Rightarrow> string \<Rightarrow> (error \<Rightarrow> error) \<Rightarrow> unit trigger_act" where
  "record_next_run env cron i w =
     (case te_next env cron of
        None \<Rightarrow> act_done ()
      | Some n \<Rightarrow> act_wrap w (run_stmt env ''SetTriggerNextRun'' (on_rows (SetTriggerNextRun n (te_now env) i))))"

definition activateTrigger :: "trigger_env \<Rightarrow> trigger \<Rightarrow> unit trigger_act" where
  "activateTrigger env t s =
     (case te_parse env (tg_cron_expr t) of
        None \<Rightarrow> (Inl (Wrap (''activate trigger '' @ tg_id t) (Errorf (tg_cron_expr t))), set_entry (te_replica env) (tg_id t) None s)
      | Some _ \<Rightarrow> record_next_run env (tg_cron_expr t) (tg_id t) (Wrap ''set trigger next run'')
          (set_entry (te_replica env) (tg_id t) (Some (tg_cron_expr t)) s))"

fun activate_all :: "trigger_env \<Rightarrow> trigger list \<Rightarrow> unit trigger_act" where
  "activate_all env [] = act_done ()"
| "activate_all env (t # ts) = act_bind (activateTrigger env t) (\<lambda>_. activate_all env ts)"

definition loadTriggers :: "trigger_env \<Rightarrow> unit trigger_act" where
  "loadTriggers env =
     act_bind (act_wrap (Wrap ''load cron triggers'') (run_stmt env ''ListEnabledTriggersByType''
       (\<lambda>s. Inr (ListEnabledTriggersByType ''cron'' (ts_rows s), s)))) (activate_all env)"

section \<open>Administration\<close>

definition validateTriggerFields :: "trigger_env \<Rightarrow> store_trigger \<Rightarrow> error option" where
  "validateTriggerFields env inp =
     (let runtime = triggerRuntimeConfigFromJSON (in_TriggerConfig inp) in
      ValidateTriggerInput
        \<lparr>tri_TriggerType = in_TriggerType inp,
         tri_task = \<lparr>ti_Harness = in_Harness inp, ti_SessionMode = rc_SessionMode runtime, ti_PauseReason = rc_PauseReason runtime,
           ti_TTLHours = rc_TTLHours runtime, ti_TimeoutSec = in_TimeoutSec inp\<rparr>,
         tri_Repo = (if IsGitHubTriggerType (in_TriggerType inp) then trim_space (config_repo (in_TriggerConfig inp)) else [])\<rparr>
        (cfg_TaskLimits (te_cfg env)))"

definition no_error :: "error option \<Rightarrow> error + unit" where
  "no_error e = (case e of None \<Rightarrow> Inr () | Some err \<Rightarrow> Inl err)"

definition check_cron :: "trigger_env \<Rightarrow> string \<Rightarrow> error + unit" where
  "check_cron env cron =
     (if cron = [] then Inl (Errorf ''cron_expr is required for cron triggers'')
      else if te_parse env cron = None then Inl (Wrap ''parse cron'' (Errorf cron))
      else Inr ())"

definition check_repo :: "string \<Rightarrow> trigger_json \<Rightarrow> error + unit" where
  "check_repo ty cfg =
     guard_res (config_repo cfg \<noteq> []) (Errorf (''repo is required in trigger_config for '' @ ty @ '' triggers''))"

text \<open>The checks and defaults of a creation, up to the statement.\<close>

definition create_input :: "trigger_env \<Rightarrow> store_trigger \<Rightarrow> error + store_trigger" where
  "create_input env inp0 =
     (if in_Name inp0 = [] then Inl (Errorf ''name is required'')
      else let ty = (if in_TriggerType inp0 = [] then ''cron'' else in_TriggerType inp0) in
        if in_Prompt inp0 = [] \<and> ty \<noteq> ''pr_review'' \<and> ty \<noteq> ''issue'' then Inl (Errorf ''prompt is required'')
        else bind_res (if in_ID inp0 \<noteq> [] then Inr (in_ID inp0)
            else from_option (Wrap ''generate trigger id'' generate_id_err) (te_id env)) (\<lambda>i.
        bind_res (if in_AgentImage inp0 \<noteq> [] then Inr (in_AgentImage inp0)
            else if DefaultAgentImage (te_cfg env) = [] then Inl (Errorf ''agent_image is required (no default configured)'')
            else Inr (DefaultAgentImage (te_cfg env))) (\<lambda>image.
        let inp = inp0\<lparr>in_TriggerType := ty, in_ID := i, in_AgentImage := resolveAgentImageRef image (AgentImagePrefix (te_cfg env)),
              in_TimeoutSec := (if in_TimeoutSec inp0 = 0 then DefaultTaskTimeoutSec (te_cfg env) else in_TimeoutSec inp0)\<rparr> in
        bind_res (if ty = ''cron'' then check_cron env (in_CronExpr inp)
            else if ty = ''pr_review'' \<or> ty = ''issue'' then check_repo ty (in_TriggerConfig inp)
            else Inl (Errorf (''unknown trigger_type '' @ go_quote ty))) (\<lambda>_.
        bind_res (no_error (validateTriggerFields env inp)) (\<lambda>_. Inr inp)))))"

definition stored_config :: "trigger_json \<Rightarrow> trigger_json" where
  "stored_config cfg = (if cfg = NoConfig then emptyTriggerConfig else cfg)"

text \<open>The columns that input determines, in an insert and in an update.\<close>

definition apply_input :: "store_trigger \<Rightarrow> time \<Rightarrow> trigger \<Rightarrow> trigger" where
  "apply_input inp now t =
     t\<lparr>tg_name := in_Name inp, tg_trigger_type := in_TriggerType inp, tg_trigger_config := stored_config (in_TriggerConfig inp),
       tg_cron_expr := in_CronExpr inp, tg_prompt := in_Prompt inp, tg_git_url := nullString (in_GitURL inp),
       tg_git_ref := nullString (in_GitRef inp), tg_agent_image := nullString (in_AgentImage inp), tg_agent := nullString (in_Agent inp),
       tg_provider_id := nullString (in_ProviderID inp), tg_model_id := nullString (in_ModelID inp),
       tg_variant_id := nullString (in_VariantID inp), tg_harness := nullString (in_Harness inp), tg_skills := in_Skills inp,
       tg_timeout_sec := to_int32 (in_TimeoutSec inp), tg_updated_at := now\<rparr>"

definition new_trigger :: "store_trigger \<Rightarrow> string \<Rightarrow> time \<Rightarrow> trigger" where
  "new_trigger inp team now =
     apply_input inp now
       \<lparr>tg_id = in_ID inp, tg_name = [], tg_trigger_type = [], tg_trigger_config = NoConfig, tg_cron_expr = [], tg_prompt = [],
        tg_git_url = None, tg_git_ref = None, tg_agent_image = None, tg_agent = None, tg_provider_id = None, tg_model_id = None,
        tg_variant_id = None, tg_harness = None, tg_skills = [], tg_timeout_sec = 0, tg_enabled = True, tg_created_at = now,
        tg_updated_at = now, tg_last_run_at = None, tg_next_run_at = None, tg_team_id = nullString team, tg_source_id = None\<rparr>"

definition CreateTrigger :: "trigger_env \<Rightarrow> store_trigger \<Rightarrow> trigger trigger_act" where
  "CreateTrigger env inp0 =
     act_bind (act_result (create_input env inp0)) (\<lambda>inp.
     act_bind (act_result (resolveOwnerTeamID (scope_of env) (sv_team_by_name (te_submit env)) (in_TeamID inp) (in_TeamName inp))) (\<lambda>team.
     act_bind (act_wrap (Wrap ''create trigger'') (run_stmt env ''CreateTrigger'' (on_rows (CreateTrigger_sql (new_trigger inp team (te_now env)))))) (\<lambda>_.
     act_bind (act_wrap (Wrap ''get trigger'') (run_stmt env ''GetTriggerByID'' (GetTriggerByID (in_ID inp)))) (\<lambda>record0.
     if in_TriggerType inp = ''cron'' then
       act_bind (act_wrap (Wrap ''activate trigger'') (activateTrigger env record0)) (\<lambda>_.
       act_wrap (Wrap ''get trigger after activation'') (run_stmt env ''GetTriggerByID'' (GetTriggerByID (in_ID inp))))
     else act_done record0))))"

definition authorizeTriggerAccess :: "Scope option \<Rightarrow> trigger \<Rightarrow> error + unit" where
  "authorizeTriggerAccess ctx t = guard_res (may_access ctx (tg_team_id t)) (Errorf ''trigger not found'')"

definition triggerForToolAccess :: "trigger_env \<Rightarrow> string \<Rightarrow> trigger trigger_act" where
  "triggerForToolAccess env name =
     act_bind (run_stmt env ''GetTriggerByName'' (GetTriggerByName name)) (\<lambda>t.
     act_bind (act_result (authorizeTriggerAccess (scope_of env) t)) (\<lambda>_. act_done t))"

definition update_input :: "trigger_env \<Rightarrow> store_trigger \<Rightarrow> error + store_trigger" where
  "update_input env inp0 =
     (if in_Name inp0 = [] then Inl (Errorf ''name is required'')
      else if in_Prompt inp0 = [] \<and> in_TriggerType inp0 \<noteq> ''pr_review'' then Inl (Errorf ''prompt is required'')
      else let ty = (if in_TriggerType inp0 = [] then ''cron'' else in_TriggerType inp0) in
        bind_res (if ty = ''cron'' then check_cron env (in_CronExpr inp0)
            else if ty = ''pr_review'' then check_repo ty (in_TriggerConfig inp0) else Inr ()) (\<lambda>_.
        if in_AgentImage inp0 = [] then Inl (Errorf ''agent_image is required'')
        else let inp = inp0\<lparr>in_TriggerType := ty, in_AgentImage := resolveAgentImageRef (in_AgentImage inp0) (AgentImagePrefix (te_cfg env)),
                in_TimeoutSec := (if in_TimeoutSec inp0 = 0 then DefaultTaskTimeoutSec (te_cfg env) else in_TimeoutSec inp0)\<rparr> in
          bind_res (no_error (validateTriggerFields env inp)) (\<lambda>_. Inr inp)))"

definition UpdateTrigger :: "trigger_env \<Rightarrow> string \<Rightarrow> store_trigger \<Rightarrow> bool \<Rightarrow> trigger trigger_act" where
  "UpdateTrigger env name inp0 enabled =
     act_bind (act_result (update_input env inp0)) (\<lambda>inp.
     act_bind (act_wrap (Wrap ''get trigger'') (triggerForToolAccess env name)) (\<lambda>existing.
     act_bind (\<lambda>s. act_done () (set_entry (te_replica env) (tg_id existing) None s)) (\<lambda>_.
     act_bind (act_wrap (Wrap ''update trigger'') (run_stmt env ''UpdateTrigger''
       (on_rows (UpdateTrigger_sql (\<lambda>t. (apply_input inp (te_now env) t)\<lparr>tg_enabled := enabled\<rparr>) name (in_Name inp)
          (stored_config (in_TriggerConfig inp)))))) (\<lambda>_.
     act_bind (act_wrap (Wrap ''get trigger'') (triggerForToolAccess env (in_Name inp))) (\<lambda>record0.
     if \<not> enabled \<or> in_TriggerType inp \<noteq> ''cron'' then act_done record0
     else act_bind (act_wrap (Wrap ''reactivate trigger'') (activateTrigger env record0)) (\<lambda>_. act_done record0))))))"

definition DeleteTrigger :: "trigger_env \<Rightarrow> string \<Rightarrow> unit trigger_act" where
  "DeleteTrigger env name =
     act_bind (act_wrap (Wrap ''get trigger'') (triggerForToolAccess env name)) (\<lambda>t.
     act_bind (\<lambda>s. act_done () (set_entry (te_replica env) (tg_id t) None s)) (\<lambda>_.
     act_wrap (Wrap ''delete trigger'') (run_stmt env ''DeleteTrigger'' (on_rows (DeleteTrigger_sql name)))))"

section \<open>Runs\<close>

definition trigger_request :: "trigger \<Rightarrow> SubmitTaskRequest" where
  "trigger_request t =
     (let runtime = triggerRuntimeConfigFromJSON (tg_trigger_config t) in
      \<lparr>rq_TeamID = str_of (tg_team_id t), rq_TeamName = [], rq_Prompt = tg_prompt t, rq_GitURL = str_of (tg_git_url t),
       rq_GitRef = str_of (tg_git_ref t), rq_Repos = [], rq_GitHubRepo = [], rq_GitHubInstallationID = 0,
       rq_AgentImage = str_of (tg_agent_image t), rq_Agent = str_of (tg_agent t), rq_ProviderID = str_of (tg_provider_id t),
       rq_ModelID = str_of (tg_model_id t), rq_VariantID = str_of (tg_variant_id t), rq_Harness = str_of (tg_harness t),
       rq_Skills = tg_skills t, rq_McpEndpoints = [], rq_Env = [], rq_TimeoutSec = tg_timeout_sec t, rq_TriggerName = tg_name t,
       rq_TriggerType = tg_trigger_type t, rq_SubmissionSource = ''trigger'', rq_CallbackParentTaskID = [], rq_CallbackDepth = 0,
       rq_ExplicitTaskID = [], rq_SelfTestRunID = [], rq_SelfTestProfile = [], rq_SelfTestCheck = [], rq_SelfTestNonce = [],
       rq_SessionMode = rc_SessionMode runtime, rq_PauseReason = rc_PauseReason runtime, rq_TTLHours = rc_TTLHours runtime,
       rq_Isolation = rc_Isolation runtime\<rparr>)"

definition submitTriggerTask :: "trigger_env \<Rightarrow> trigger \<Rightarrow> task trigger_act" where
  "submitTriggerTask env t s =
     (case SubmitTask (te_cfg env)
         ((te_submit env)\<lparr>sv_trigger_by_name := \<lambda>n. map_option tg_id (find (\<lambda>r. tg_name r = n) (ts_rows s))\<rparr>)
         (trigger_request t) (ts_tasks s) of
        Inl e \<Rightarrow> (Inl (Wrap ''submit triggered task'' e), s)
      | Inr (tk, tasks') \<Rightarrow>
          act_bind (case ts_entries s (te_replica env) (tg_id t) of
              None \<Rightarrow> act_done ()
            | Some cron \<Rightarrow> record_next_run env cron (tg_id t) (\<lambda>e. e)) (\<lambda>_. act_done tk) (s\<lparr>ts_tasks := tasks'\<rparr>))"

definition RunTriggerNow :: "trigger_env \<Rightarrow> string \<Rightarrow> task trigger_act" where
  "RunTriggerNow env name =
     (if name = [] then act_fail (Errorf ''name is required'')
      else act_bind (act_wrap (Wrap ''get trigger'') (triggerForToolAccess env name)) (\<lambda>t.
        if tg_trigger_type t \<noteq> ''cron'' then
          act_fail (Errorf (''trigger '' @ go_quote name @ '' is a '' @ tg_trigger_type t @ '' trigger; Run Now is only supported for cron triggers''))
        else submitTriggerTask env t))"

text \<open>The transaction of the lock: its commit, and its rollback on every other way out.\<close>

definition run_interval :: "trigger_env \<Rightarrow> trigger \<Rightarrow> trigger_locks \<Rightarrow> unit trigger_act" where
  "run_interval env t written =
     act_bind (submitTriggerTask env t) (\<lambda>_ s.
       case te_fail env ''commit trigger interval'' of
         Some e \<Rightarrow> (Inl (Wrap ''commit trigger interval'' e), s)
       | None \<Rightarrow> (Inr (), s\<lparr>ts_locks := snd (finish True (ts_locks s) written False)\<rparr>))"

definition runTrigger :: "trigger_env \<Rightarrow> string \<Rightarrow> time \<Rightarrow> unit trigger_act" where
  "runTrigger env i triggeredAt s =
     (case run_stmt env ''GetTriggerByID'' (GetTriggerByID i) s of
        (Inl e, s') \<Rightarrow> if errors_is e SqlNoRows then (Inr (), s') else (Inl (Wrap (''get trigger '' @ i) e), s')
      | (Inr t, s') \<Rightarrow>
          if \<not> tg_enabled t then (Inr (), s')
          else (case acquireTriggerLock (te_parse env) i (tg_cron_expr t) triggeredAt (ts_locks s') of
              (locks, LockError e) \<Rightarrow> (Inl (Wrap ''acquire trigger lock'' e), s'\<lparr>ts_locks := locks\<rparr>)
            | (locks, Skip) \<Rightarrow> (Inr (), s'\<lparr>ts_locks := locks\<rparr>)
            | (locks, Acquired written) \<Rightarrow> run_interval env t written (s'\<lparr>ts_locks := locks\<rparr>)))"

section \<open>Lookups for webhooks\<close>

definition review_trigger :: "trigger \<Rightarrow> ReviewTrigger" where
  "review_trigger t =
     (let cfg = triggerRuntimeConfigFromJSON (tg_trigger_config t) in
      \<lparr>rt_TeamID = str_of (tg_team_id t), rt_Name = tg_name t, rt_TriggerType = tg_trigger_type t, rt_Prompt = tg_prompt t,
       rt_AgentImage = str_of (tg_agent_image t), rt_Agent = str_of (tg_agent t), rt_ProviderID = str_of (tg_provider_id t),
       rt_ModelID = str_of (tg_model_id t), rt_VariantID = str_of (tg_variant_id t), rt_TimeoutSec = tg_timeout_sec t,
       rt_GitURL = str_of (tg_git_url t), rt_GitRef = str_of (tg_git_ref t), rt_Skills = tg_skills t, rt_Event = rc_Event cfg,
       rt_MatchLabels = [], rt_SessionMode = rc_SessionMode cfg, rt_PauseReason = rc_PauseReason cfg, rt_TTLHours = rc_TTLHours cfg,
       rt_Isolation = rc_Isolation cfg\<rparr>)"

definition ListEnabledPRReviewTriggersByRepo :: "string \<Rightarrow> trigger list \<Rightarrow> ReviewTrigger list" where
  "ListEnabledPRReviewTriggersByRepo repo rows = map review_trigger (ListEnabledTriggersByRepo_sql ''pr_review'' repo rows)"

definition ListEnabledIssueTriggersByRepo :: "string \<Rightarrow> trigger list \<Rightarrow> ReviewTrigger list" where
  "ListEnabledIssueTriggersByRepo repo rows =
     map (\<lambda>t. (review_trigger t)\<lparr>rt_MatchLabels := rc_MatchLabels (triggerRuntimeConfigFromJSON (tg_trigger_config t))\<rparr>)
       (ListEnabledTriggersByRepo_sql ''issue'' repo rows)"

section \<open>Operations as steps\<close>

datatype trigger_op =
    OpCreate store_trigger
  | OpUpdate string store_trigger bool
  | OpDelete string
  | OpRunNow string
  | OpRun string time
  | OpLoad

definition void :: "'a trigger_act \<Rightarrow> unit trigger_act" where
  "void m = act_bind m (\<lambda>_. act_done ())"

fun trigger_step :: "trigger_env \<Rightarrow> trigger_op \<Rightarrow> unit trigger_act" where
  "trigger_step env (OpCreate inp) = void (CreateTrigger env inp)"
| "trigger_step env (OpUpdate name inp enabled) = void (UpdateTrigger env name inp enabled)"
| "trigger_step env (OpDelete name) = DeleteTrigger env name"
| "trigger_step env (OpRunNow name) = void (RunTriggerNow env name)"
| "trigger_step env (OpRun i at) = runTrigger env i at"
| "trigger_step env OpLoad = loadTriggers env"

text \<open>An operation keeps a property of the state, on every way out.\<close>

definition act_inv :: "('s \<Rightarrow> bool) \<Rightarrow> ('s, 'a) act \<Rightarrow> bool" where
  "act_inv I m = (\<forall>s. I s \<longrightarrow> I (snd (m s)))"

lemma act_invD: "act_inv I m \<Longrightarrow> I s \<Longrightarrow> I (snd (m s))"
  by (simp add: act_inv_def)

lemma act_inv_bind: "act_inv I m \<Longrightarrow> (\<And>x. act_inv I (f x)) \<Longrightarrow> act_inv I (act_bind m f)"
  unfolding act_inv_def act_bind_def by (simp add: case_prod_unfold split: sum.split)

lemma act_inv_result: "(\<And>x. r = Inr x \<Longrightarrow> act_inv I (f x)) \<Longrightarrow> act_inv I (act_bind (act_result r) f)"
  by (cases r) (simp_all add: act_inv_def act_simps)

lemma act_inv_wrap: "act_inv I m \<Longrightarrow> act_inv I (act_wrap w m)"
  unfolding act_inv_def act_wrap_def by (auto simp: case_prod_beta split: sum.split)

lemma act_inv_still: "act_inv I (act_fail e)" "act_inv I (act_done x)"
  by (simp_all add: act_inv_def act_simps)

lemma act_inv_if: "(b \<Longrightarrow> act_inv I m) \<Longrightarrow> (\<not> b \<Longrightarrow> act_inv I m') \<Longrightarrow> act_inv I (if b then m else m')"
  by simp

lemma act_inv_stmt:
  assumes "\<And>s x s'. I s \<Longrightarrow> stmt s = Inr (x, s') \<Longrightarrow> I s'"
  shows "act_inv I (run_stmt env name stmt)"
  unfolding act_inv_def run_stmt_def using assms by (auto split: option.splits sum.splits prod.splits)

lemma act_inv_get: "act_inv I (run_stmt env name (GetTriggerByID i))" "act_inv I (run_stmt env name (GetTriggerByName i))"
  by (rule act_inv_stmt, auto simp: GetTriggerByID_def GetTriggerByName_def)+

lemmas act_inv_intros = act_inv_bind act_inv_wrap act_inv_still act_inv_if act_inv_get

section \<open>Rows stay valid\<close>

definition trigger_ok :: "(string \<Rightarrow> (time \<Rightarrow> time) option) \<Rightarrow> trigger \<Rightarrow> bool" where
  "trigger_ok parse t =
     (tg_name t \<noteq> [] \<and> tg_trigger_type t \<in> {''cron'', ''pr_review'', ''issue''} \<and>
      (tg_trigger_type t = ''cron'' \<longrightarrow> parse (tg_cron_expr t) \<noteq> None) \<and>
      (tg_trigger_type t = ''pr_review'' \<longrightarrow> config_repo (tg_trigger_config t) \<noteq> []) \<and>
      valid_json (tg_trigger_config t))"

definition triggers_ok :: "(string \<Rightarrow> (time \<Rightarrow> time) option) \<Rightarrow> trigger list \<Rightarrow> bool" where
  "triggers_ok parse rows = (distinct (map tg_id rows) \<and> distinct (map tg_name rows) \<and> list_all (trigger_ok parse) rows)"

definition sys_ok :: "trigger_env \<Rightarrow> trigger_sys \<Rightarrow> bool" where
  "sys_ok env s = triggers_ok (te_parse env) (ts_rows s)"

lemma sys_ok_cong: "ts_rows s' = ts_rows s \<Longrightarrow> sys_ok env s' = sys_ok env s"
  by (simp add: sys_ok_def)

lemma update_keeps_ok:
  assumes "triggers_ok parse rows" and "\<And>t. t \<in> set rows \<Longrightarrow> w t \<Longrightarrow> tg_id (f t) = tg_id t \<and> tg_name (f t) = tg_name t"
    and "\<And>t. t \<in> set rows \<Longrightarrow> w t \<Longrightarrow> trigger_ok parse t \<Longrightarrow> trigger_ok parse (f t)"
  shows "triggers_ok parse (sql_update w f rows)"
proof -
  have "map tg_id (sql_update w f rows) = map tg_id rows" "map tg_name (sql_update w f rows) = map tg_name rows"
    using assms(2) by (simp_all add: map_fixed_sql_update)
  moreover have "list_all (trigger_ok parse) (sql_update w f rows)"
    using assms(1,3) by (auto simp: triggers_ok_def list_all_iff in_sql_update_iff)
  ultimately show ?thesis using assms(1) by (simp add: triggers_ok_def)
qed

lemma next_run_keeps: "act_inv (sys_ok env) (record_next_run env' cron i w)"
proof -
  have "act_inv (sys_ok env) (run_stmt env' name (on_rows (SetTriggerNextRun n now i)))" for name n now
    by (rule act_inv_stmt)
      (auto simp: on_rows_def SetTriggerNextRun_def sys_ok_def trigger_ok_def intro!: update_keeps_ok)
  then show ?thesis unfolding record_next_run_def by (cases "te_next env' cron") (auto intro!: act_inv_intros)
qed

lemma activate_keeps: "act_inv (sys_ok env) (activateTrigger env t)"
proof -
  have "sys_ok env (set_entry k i e s) = sys_ok env s" for k i e s by (simp add: sys_ok_def set_entry_def)
  then show ?thesis
    using next_run_keeps [of env env "tg_cron_expr t" "tg_id t" "Wrap ''set trigger next run''"]
    unfolding act_inv_def activateTrigger_def by (auto split: option.split)
qed

text \<open>What validation of a trigger establishes.\<close>

lemma validated_type: "validateTriggerFields env inp = None \<Longrightarrow> in_TriggerType inp = [] \<or> in_TriggerType inp \<in> set TriggerTypes"
  by (auto simp: validateTriggerFields_def ValidateTriggerInput_def Let_def split: if_splits)

definition input_ok :: "trigger_env \<Rightarrow> store_trigger \<Rightarrow> bool" where
  "input_ok env inp =
     (in_Name inp \<noteq> [] \<and> in_TriggerType inp \<in> {''cron'', ''pr_review'', ''issue''} \<and>
      (in_TriggerType inp = ''cron'' \<longrightarrow> te_parse env (in_CronExpr inp) \<noteq> None) \<and>
      (in_TriggerType inp = ''pr_review'' \<longrightarrow> config_repo (in_TriggerConfig inp) \<noteq> []))"

lemma no_error_iff [simp]: "no_error e = Inr u \<longleftrightarrow> e = None"
  by (cases e) (simp_all add: no_error_def)

lemma create_input_ok: "create_input env inp0 = Inr inp \<Longrightarrow> input_ok env inp"
  by (auto simp: create_input_def input_ok_def Let_def check_cron_def check_repo_def split: if_splits)

lemma update_input_ok: "update_input env inp0 = Inr inp \<Longrightarrow> input_ok env inp"
  by (auto simp: update_input_def input_ok_def Let_def check_cron_def check_repo_def TriggerTypes_def
      dest!: validated_type split: if_splits)

lemma applied_ok:
  assumes "input_ok env inp" and "json_column (stored_config (in_TriggerConfig inp)) = Inr ()"
  shows "trigger_ok (te_parse env) (apply_input inp now t)"
  using assms unfolding trigger_ok_def input_ok_def apply_input_def
  by (auto simp: json_column_def valid_json_def stored_config_def config_repo_def emptyTriggerConfig_def split: trigger_json.splits if_splits)

lemma trigger_ok_enabled [simp]: "trigger_ok parse (t\<lparr>tg_enabled := b\<rparr>) = trigger_ok parse t"
  by (simp add: trigger_ok_def)

lemma create_stmt_keeps:
  assumes "input_ok env inp"
  shows "act_inv (sys_ok env) (run_stmt env name (on_rows (CreateTrigger_sql (new_trigger inp team now))))"
  by (rule act_inv_stmt)
    (use assms in \<open>auto simp: on_rows_def CreateTrigger_sql_def sys_ok_def triggers_ok_def new_trigger_def apply_input_def
      trigger_ok_def input_ok_def json_column_def valid_json_def stored_config_def config_repo_def emptyTriggerConfig_def
      split: if_splits trigger_json.splits\<close>)

lemma rename_distinct:
  assumes "distinct (map key rows)" and "\<And>t. w t \<Longrightarrow> key (f t) = new" and "\<And>t. w t \<longleftrightarrow> key t = old"
    and "old = new \<or> old \<notin> key ` set rows \<or> new \<notin> key ` set rows"
  shows "distinct (map key (sql_update w f rows))"
proof -
  have "map key (sql_update w f rows) = map (\<lambda>k. if k = old then new else k) (map key rows)"
    using assms(2,3) by (simp add: sql_update_def)
  moreover have "inj_on (\<lambda>k. if k = old then new else k) (set (map key rows))"
    using assms(4) by (auto simp: inj_on_def)
  ultimately show ?thesis using assms(1) by (simp only: distinct_map)
qed

lemma update_stmt_keeps:
  assumes "input_ok env inp"
  shows "act_inv (sys_ok env) (run_stmt env name (on_rows (UpdateTrigger_sql (\<lambda>t. (apply_input inp now t)\<lparr>tg_enabled := en\<rparr>) old
    (in_Name inp) (stored_config (in_TriggerConfig inp)))))"
proof (rule act_inv_stmt)
  fix s x s'
  let ?w = "\<lambda>t. tg_name t = old" and ?f = "\<lambda>t. (apply_input inp now t)\<lparr>tg_enabled := en\<rparr>"
  assume ok: "sys_ok env s" and run: "on_rows (UpdateTrigger_sql ?f old (in_Name inp) (stored_config (in_TriggerConfig inp))) s = Inr (x, s')"
  then have json: "json_column (stored_config (in_TriggerConfig inp)) = Inr ()" and rows: "ts_rows s' = sql_update ?w ?f (ts_rows s)"
    and names: "old = in_Name inp \<or> old \<notin> tg_name ` set (ts_rows s) \<or> in_Name inp \<notin> tg_name ` set (ts_rows s)"
    by (auto simp: on_rows_def UpdateTrigger_sql_def split: if_splits)
  have "map tg_id (ts_rows s') = map tg_id (ts_rows s)" unfolding rows by (simp add: map_fixed_sql_update apply_input_def)
  moreover have "distinct (map tg_name (ts_rows s'))" unfolding rows
    using ok names by (intro rename_distinct [where old = old and new = "in_Name inp"]) (auto simp: sys_ok_def triggers_ok_def apply_input_def)
  moreover have "list_all (trigger_ok (te_parse env)) (ts_rows s')"
    using ok applied_ok [OF assms json] unfolding rows by (auto simp: sys_ok_def triggers_ok_def list_all_iff in_sql_update_iff)
  ultimately show "sys_ok env s'" using ok by (simp add: sys_ok_def triggers_ok_def)
qed

lemma delete_stmt_keeps: "act_inv (sys_ok env) (run_stmt env name (on_rows (DeleteTrigger_sql n)))"
  by (rule act_inv_stmt)
    (auto simp: on_rows_def DeleteTrigger_sql_def sys_ok_def triggers_ok_def list_all_iff distinct_map_filter)

lemma access_keeps: "act_inv I (triggerForToolAccess env name)"
  unfolding triggerForToolAccess_def by (intro act_inv_intros act_inv_result)

lemma entry_keeps: "act_inv (sys_ok env) (\<lambda>s. act_done () (set_entry k i e s))"
  by (simp add: act_inv_def act_done_def sys_ok_def set_entry_def)

lemma submit_keeps: "act_inv (sys_ok env) (submitTriggerTask env t)"
proof -
  have "act_inv (sys_ok env) (act_bind (case e of None \<Rightarrow> act_done () | Some cron \<Rightarrow> record_next_run env cron i w) (\<lambda>_. act_done (tk :: task)))"
    for e i w tk by (cases e) (auto intro!: act_inv_intros next_run_keeps)
  note step = act_invD [OF this]
  have "sys_ok env (s\<lparr>ts_tasks := x\<rparr>) = sys_ok env s" for s x by (simp add: sys_ok_def)
  then show ?thesis unfolding act_inv_def submitTriggerTask_def using step by (simp split: sum.split prod.split)
qed

lemma run_keeps: "act_inv (sys_ok env) (runTrigger env i at)"
proof -
  have locks: "sys_ok env (s\<lparr>ts_locks := x\<rparr>) = sys_ok env s" for s x by (simp add: sys_ok_def)
  have "act_inv (sys_ok env) (run_interval env t written)" for t written
    unfolding run_interval_def
    by (intro act_inv_bind submit_keeps) (simp add: act_inv_def locks split: option.split)
  note interval = act_invD [OF this]
  show ?thesis
    unfolding act_inv_def
  proof (intro allI impI)
    fix s assume "sys_ok env s"
    then have "sys_ok env (snd (run_stmt env ''GetTriggerByID'' (GetTriggerByID i) s))"
      by (rule act_invD [OF act_inv_get(1)])
    then show "sys_ok env (snd (runTrigger env i at s))"
      unfolding runTrigger_def by (auto simp: locks interval split: sum.splits prod.splits lock_outcome.splits)
  qed
qed

lemma load_keeps: "act_inv (sys_ok env) (loadTriggers env)"
proof -
  have "act_inv (sys_ok env) (activate_all env ts)" for ts
    by (induction ts) (auto intro!: act_inv_intros activate_keeps)
  then show ?thesis unfolding loadTriggers_def by (intro act_inv_intros act_inv_stmt) auto
qed

lemma void_keeps: "act_inv I m \<Longrightarrow> act_inv I (void m)"
  unfolding void_def by (intro act_inv_intros)

lemma trigger_step_keeps: "act_inv (sys_ok env) (trigger_step env op)"
proof (cases op)
  case (OpCreate inp)
  show ?thesis unfolding OpCreate trigger_step.simps CreateTrigger_def
    by (intro void_keeps act_inv_result act_inv_intros create_stmt_keeps create_input_ok activate_keeps)
next
  case (OpUpdate name inp enabled)
  show ?thesis unfolding OpUpdate trigger_step.simps UpdateTrigger_def
    by (intro void_keeps act_inv_result act_inv_intros access_keeps entry_keeps update_stmt_keeps update_input_ok activate_keeps)
next
  case (OpDelete name)
  show ?thesis unfolding OpDelete trigger_step.simps DeleteTrigger_def
    by (intro act_inv_intros access_keeps entry_keeps delete_stmt_keeps)
next
  case (OpRunNow name)
  show ?thesis unfolding OpRunNow trigger_step.simps RunTriggerNow_def
    by (intro void_keeps act_inv_intros access_keeps submit_keeps)
qed (simp_all add: run_keeps load_keeps)

section \<open>Teams\<close>

text \<open>Pre- and postconditions: \<open>Q\<close> after success, \<open>E\<close> after an error.\<close>

definition triple :: "('s \<Rightarrow> bool) \<Rightarrow> ('s, 'a) act \<Rightarrow> ('a \<Rightarrow> 's \<Rightarrow> bool) \<Rightarrow> ('s \<Rightarrow> bool) \<Rightarrow> bool" where
  "triple P m Q E = (\<forall>s. P s \<longrightarrow> (case m s of (Inl e, s') \<Rightarrow> E s' | (Inr x, s') \<Rightarrow> Q x s'))"

lemma triple_bind: "triple P m R E \<Longrightarrow> (\<And>x. triple (R x) (f x) Q E) \<Longrightarrow> triple P (act_bind m f) Q E"
  unfolding triple_def act_bind_def by (fastforce split: sum.splits prod.splits)

lemma triple_wrap: "triple P m Q E \<Longrightarrow> triple P (act_wrap w m) Q E"
  unfolding triple_def act_wrap_def by (fastforce split: sum.splits prod.splits)

lemma triple_result: "(\<And>x. r = Inr x \<Longrightarrow> triple P (f x) Q E) \<Longrightarrow> (\<And>s. P s \<Longrightarrow> E s) \<Longrightarrow> triple P (act_bind (act_result r) f) Q E"
  by (cases r) (simp_all add: triple_def act_simps)

lemma triple_done: "(\<And>s. P s \<Longrightarrow> Q x s) \<Longrightarrow> triple P (act_done x) Q E"
  by (simp add: triple_def act_done_def)

lemma triple_fail: "(\<And>s. P s \<Longrightarrow> E s) \<Longrightarrow> triple P (act_fail e) Q E"
  by (simp add: triple_def act_fail_def)

lemma triple_inv: "act_inv I m \<Longrightarrow> (\<And>s. P s \<Longrightarrow> I s) \<Longrightarrow> (\<And>x s. I s \<Longrightarrow> Q x s) \<Longrightarrow> (\<And>s. I s \<Longrightarrow> E s) \<Longrightarrow> triple P m Q E"
  unfolding triple_def act_inv_def by (simp add: case_prod_unfold split: sum.split)

lemma triple_if: "(b \<Longrightarrow> triple P m Q E) \<Longrightarrow> (\<not> b \<Longrightarrow> triple P m' Q E) \<Longrightarrow> triple P (if b then m else m') Q E"
  by simp

lemma triple_stmt:
  assumes "\<And>s. P s \<Longrightarrow> E s" and "\<And>s x s'. P s \<Longrightarrow> stmt s = Inr (x, s') \<Longrightarrow> Q x s'"
  shows "triple P (run_stmt env name stmt) Q E"
  unfolding triple_def run_stmt_def using assms by (auto split: option.splits sum.splits prod.splits)

text \<open>The rows a caller may not access, and rows valid with these unchanged.\<close>

definition foreign :: "Scope option \<Rightarrow> trigger list \<Rightarrow> trigger list" where
  "foreign ctx rows = filter (\<lambda>t. \<not> may_access ctx (tg_team_id t)) rows"

definition framed :: "trigger_env \<Rightarrow> trigger list \<Rightarrow> trigger_sys \<Rightarrow> bool" where
  "framed env F s = (sys_ok env s \<and> foreign (scope_of env) (ts_rows s) = F)"

definition owned :: "trigger_env \<Rightarrow> trigger list \<Rightarrow> string \<Rightarrow> trigger_sys \<Rightarrow> bool" where
  "owned env F i s = (framed env F s \<and> list_all (\<lambda>t. tg_id t = i \<longrightarrow> may_access (scope_of env) (tg_team_id t)) (ts_rows s))"

lemma owned_framed: "owned env F i s \<Longrightarrow> framed env F s"
  by (simp add: owned_def)

lemma foreign_update:
  assumes "\<And>t. t \<in> set rows \<Longrightarrow> w t \<Longrightarrow> may_access ctx (tg_team_id t) \<and> tg_team_id (f t) = tg_team_id t"
  shows "foreign ctx (sql_update w f rows) = foreign ctx rows"
  using assms unfolding foreign_def sql_update_def by (induction rows) auto

lemma ownedI: "framed env F s \<Longrightarrow> t \<in> set (ts_rows s) \<Longrightarrow> may_access (scope_of env) (tg_team_id t) \<Longrightarrow> owned env F (tg_id t) s"
  unfolding owned_def framed_def sys_ok_def triggers_ok_def list_all_iff by (metis distinct_map inj_on_def)

lemma next_run_owned: "act_inv (owned env F i) (record_next_run env cron i w)"
proof -
  have "act_inv (owned env F i) (run_stmt env name (on_rows (SetTriggerNextRun n now i)))" for name n now
  proof (rule act_inv_stmt)
    fix s x s'
    let ?f = "\<lambda>t. t\<lparr>tg_next_run_at := Some n, tg_updated_at := now\<rparr>"
    assume own: "owned env F i s" and run: "on_rows (SetTriggerNextRun n now i) s = Inr (x, s')"
    then have rows: "ts_rows s' = sql_update (\<lambda>t. tg_id t = i) ?f (ts_rows s)" by (auto simp: on_rows_def SetTriggerNextRun_def)
    have "foreign (scope_of env) (ts_rows s') = foreign (scope_of env) (ts_rows s)"
      unfolding rows using own by (intro foreign_update) (auto simp: owned_def list_all_iff)
    moreover have "triggers_ok (te_parse env) (ts_rows s')"
      unfolding rows using own by (intro update_keeps_ok) (auto simp: owned_def framed_def sys_ok_def trigger_ok_def)
    moreover have "list_all (\<lambda>t. tg_id t = i \<longrightarrow> may_access (scope_of env) (tg_team_id t)) (ts_rows s')"
      using conjunct2 [OF own [unfolded owned_def]] unfolding rows sql_update_def
      by (simp add: list.pred_map comp_def)
    ultimately show "owned env F i s'" using own by (simp add: owned_def framed_def sys_ok_def)
  qed
  then show ?thesis unfolding record_next_run_def by (cases "te_next env cron") (auto intro!: act_inv_intros)
qed

lemma activate_owned: "act_inv (owned env F (tg_id t)) (activateTrigger env t)"
proof -
  have "owned env F (tg_id t) (set_entry k i e s) = owned env F (tg_id t) s" for k i e s
    by (simp add: owned_def framed_def sys_ok_def set_entry_def)
  then show ?thesis
    using next_run_owned [of env F "tg_id t" "tg_cron_expr t" "Wrap ''set trigger next run''"]
    unfolding act_inv_def activateTrigger_def by (auto split: option.split)
qed

lemma access_owned:
  "triple (framed env F) (triggerForToolAccess env name)
     (\<lambda>t s. owned env F (tg_id t) s \<and> t \<in> set (ts_rows s) \<and> tg_name t = name) (framed env F)"
proof -
  have get: "triple (framed env F) (run_stmt env nm (GetTriggerByName name))
      (\<lambda>t s. framed env F s \<and> t \<in> set (ts_rows s) \<and> tg_name t = name) (framed env F)" for nm
    by (rule triple_stmt) (auto simp: GetTriggerByName_def sql_one_Inr_iff dest: find_SomeD)
  show ?thesis
    unfolding triggerForToolAccess_def
    by (rule triple_bind [OF get], rule triple_result)
      (auto simp: authorizeTriggerAccess_def intro!: triple_done ownedI)
qed

lemma entry_triple:
  "triple (\<lambda>s. owned env F (tg_id t) s \<and> t \<in> set (ts_rows s) \<and> tg_name t = name) (\<lambda>s. act_done () (set_entry k j e s))
     (\<lambda>_ s. owned env F (tg_id t) s \<and> t \<in> set (ts_rows s) \<and> tg_name t = name) E"
  by (simp add: triple_def act_done_def owned_def framed_def sys_ok_def set_entry_def)

lemma create_stmt_owned:
  assumes scope: "scope_of env = Some scope" "[] \<notin> set (Teams scope)" and ok: "input_ok env inp" and team: "team \<in> set (Teams scope)"
  shows "triple (framed env F) (run_stmt env name (on_rows (CreateTrigger_sql (new_trigger inp team now))))
      (\<lambda>_. owned env F (in_ID inp)) (framed env F)"
proof (rule triple_stmt)
  let ?env = "env\<lparr>te_fail := \<lambda>_. None\<rparr>" and ?row = "new_trigger inp team now"
  fix s x s' assume fr: "framed env F s" and run: "on_rows (CreateTrigger_sql ?row) s = Inr (x, s')"
  have "sys_ok ?env (snd (run_stmt ?env name (on_rows (CreateTrigger_sql ?row)) s))"
    using fr ok by (intro act_invD [OF create_stmt_keeps]) (simp_all add: framed_def sys_ok_def input_ok_def)
  then have okrows: "sys_ok env s'" using run by (simp add: run_stmt_def sys_ok_def)
  have rows: "ts_rows s' = ts_rows s @ [?row]" using run by (auto simp: on_rows_def CreateTrigger_sql_def split: if_splits)
  have "tg_team_id ?row = Some team"
    using team scope(2) by (cases team) (auto simp: new_trigger_def apply_input_def nullString_def)
  then have acc: "may_access (scope_of env) (tg_team_id ?row)"
    using team scope by (cases team) (auto simp: may_access_def HasTeam_iff)
  then have "framed env F s'" using fr okrows rows by (simp add: framed_def foreign_def)
  from ownedI [OF this _ acc] show "owned env F (in_ID inp) s'" using rows by (simp add: new_trigger_def apply_input_def)
qed

lemma create_framed:
  assumes scope: "scope_of env = Some scope" "\<not> Admin scope" "[] \<notin> set (Teams scope)"
  shows "triple (framed env F) (CreateTrigger env inp0) (\<lambda>_. framed env F) (framed env F)"
proof -
  have get: "triple (owned env F i) (run_stmt env name (GetTriggerByID i)) (\<lambda>t s. owned env F i s \<and> tg_id t = i) (framed env F)" for i name
    by (rule triple_stmt) (auto simp: GetTriggerByID_def sql_one_Inr_iff owned_def dest: find_SomeD)
  have act: "triple (\<lambda>s. owned env F i s \<and> tg_id t = i) (activateTrigger env t) (\<lambda>_. framed env F) (framed env F)" for i t
    by (rule triple_inv [OF activate_owned [of env F t]]) (auto simp: owned_def)
  have fin: "triple (framed env F) (run_stmt env name (GetTriggerByID i)) (\<lambda>_. framed env F) (framed env F)" for i name
    by (rule triple_inv [OF act_inv_get(1)])
  have team: "resolveOwnerTeamID (scope_of env) f i name = Inr team \<Longrightarrow> team \<in> set (Teams scope)" for f i name team
    using resolveOwnerTeamID_scoped scope by (metis option.simps(5) unrestricted_def)
  note insert = create_stmt_owned [OF scope(1,3) create_input_ok team]
  show ?thesis
    unfolding CreateTrigger_def
    apply (rule triple_result)
     apply (rule triple_result)
      apply (rule triple_bind [OF triple_wrap [OF insert]], assumption, assumption)
      apply (rule triple_bind [OF triple_wrap [OF get]])
      apply (rule triple_if)
       apply (rule triple_bind [OF triple_wrap [OF act] triple_wrap [OF fin]])
      apply (rule triple_done)
      apply (simp_all add: owned_def)
    done
qed

lemma update_stmt_owned:
  assumes ok: "input_ok env inp" and cfg: "cfg = stored_config (in_TriggerConfig inp)"
  shows "triple (\<lambda>s. owned env F (tg_id t) s \<and> t \<in> set (ts_rows s) \<and> tg_name t = old)
    (run_stmt env name (on_rows (UpdateTrigger_sql (\<lambda>t. (apply_input inp now t)\<lparr>tg_enabled := en\<rparr>) old (in_Name inp) cfg)))
    (\<lambda>_. framed env F) (framed env F)"
proof (rule triple_stmt)
  let ?env = "env\<lparr>te_fail := \<lambda>_. None\<rparr>" and ?f = "\<lambda>t. (apply_input inp now t)\<lparr>tg_enabled := en\<rparr>"
  let ?stmt = "on_rows (UpdateTrigger_sql ?f old (in_Name inp) cfg)"
  fix s x s' assume pre: "owned env F (tg_id t) s \<and> t \<in> set (ts_rows s) \<and> tg_name t = old" and run: "?stmt s = Inr (x, s')"
  have "sys_ok ?env (snd (run_stmt ?env name ?stmt s))"
    unfolding cfg using pre ok by (intro act_invD [OF update_stmt_keeps]) (simp_all add: owned_def framed_def sys_ok_def input_ok_def)
  then have okrows: "sys_ok env s'" using run by (simp add: run_stmt_def sys_ok_def)
  have rows: "ts_rows s' = sql_update (\<lambda>t. tg_name t = old) ?f (ts_rows s)"
    using run by (auto simp: on_rows_def UpdateTrigger_sql_def split: if_splits)
  have "distinct (map tg_name (ts_rows s))" using pre by (simp add: owned_def framed_def sys_ok_def triggers_ok_def)
  then have only: "r = t" if "r \<in> set (ts_rows s)" "tg_name r = old" for r using that pre by (metis distinct_map inj_on_def)
  have "may_access (scope_of env) (tg_team_id t)" using pre by (simp add: owned_def list_all_iff)
  then have "foreign (scope_of env) (ts_rows s') = foreign (scope_of env) (ts_rows s)"
    unfolding rows using only by (intro foreign_update) (auto simp: apply_input_def)
  then show "framed env F s'" using okrows pre by (simp add: owned_def framed_def)
qed (simp add: owned_def)

lemma update_framed: "triple (framed env F) (UpdateTrigger env name inp0 enabled) (\<lambda>_. framed env F) (framed env F)"
proof -
  have act: "triple (\<lambda>s. owned env F (tg_id t) s \<and> t \<in> set (ts_rows s) \<and> tg_name t = n) (activateTrigger env t) (\<lambda>_. framed env F) (framed env F)" for t n
    by (rule triple_inv [OF activate_owned [of env F t]]) (auto simp: owned_def)
  show ?thesis
    unfolding UpdateTrigger_def
    apply (rule triple_result)
     apply (rule triple_bind [OF triple_wrap [OF access_owned]])
     apply (rule triple_bind [OF entry_triple])
     apply (rule triple_bind [OF triple_wrap [OF update_stmt_owned [OF update_input_ok refl]]], assumption)
     apply (rule triple_bind [OF triple_wrap [OF access_owned]])
     apply (rule triple_if)
      apply (rule triple_done)
      apply (simp add: owned_def)
     apply (rule triple_bind [OF triple_wrap [OF act]])
     apply (rule triple_done)
     apply simp_all
    done
qed

lemma delete_framed: "triple (framed env F) (DeleteTrigger env name) (\<lambda>_. framed env F) (framed env F)"
proof -
  have del: "triple (\<lambda>s. owned env F (tg_id t) s \<and> t \<in> set (ts_rows s) \<and> tg_name t = name)
      (run_stmt env nm (on_rows (DeleteTrigger_sql name))) (\<lambda>_. framed env F) (framed env F)" for t nm
  proof (rule triple_stmt)
    fix s x s' assume pre: "owned env F (tg_id t) s \<and> t \<in> set (ts_rows s) \<and> tg_name t = name"
      and run: "on_rows (DeleteTrigger_sql name) s = Inr (x, s')"
    have ok: "sys_ok env s" and names: "distinct (map tg_name (ts_rows s))" using pre by (simp_all add: owned_def framed_def sys_ok_def triggers_ok_def)
    have rows: "ts_rows s' = filter (\<lambda>t. tg_name t \<noteq> name) (ts_rows s)" using run by (auto simp: on_rows_def DeleteTrigger_sql_def)
    have acc: "may_access (scope_of env) (tg_team_id r)" if "r \<in> set (ts_rows s)" "tg_name r = name" for r
    proof -
      have "r = t" using that pre names by (metis distinct_map inj_on_def)
      then show ?thesis using pre by (simp add: owned_def list_all_iff)
    qed
    have "sys_ok env s'" using ok unfolding rows sys_ok_def triggers_ok_def by (auto simp: list_all_iff distinct_map_filter)
    moreover have "foreign (scope_of env) (ts_rows s') = foreign (scope_of env) (ts_rows s)"
      unfolding rows foreign_def filter_filter using acc by (intro filter_cong) auto
    ultimately show "framed env F s'" using pre by (simp add: owned_def framed_def)
  qed (simp add: owned_def)
  show ?thesis
    unfolding DeleteTrigger_def by (rule triple_bind [OF triple_wrap [OF access_owned] triple_bind [OF entry_triple triple_wrap [OF del]]])
qed

lemma run_now_framed: "triple (framed env F) (RunTriggerNow env name) (\<lambda>_. framed env F) (framed env F)"
proof -
  have "act_inv (owned env F (tg_id t)) (submitTriggerTask env t)" for t
  proof -
    have "act_inv (owned env F (tg_id t)) (act_bind (case e of None \<Rightarrow> act_done () | Some cron \<Rightarrow> record_next_run env cron (tg_id t) w) (\<lambda>_. act_done (tk :: task)))"
      for e w tk by (cases e) (auto intro!: act_inv_intros next_run_owned)
    note step = act_invD [OF this]
    have "owned env F (tg_id t) (s\<lparr>ts_tasks := x\<rparr>) = owned env F (tg_id t) s" for s x by (simp add: owned_def framed_def sys_ok_def)
    then show ?thesis unfolding act_inv_def submitTriggerTask_def using step by (simp split: sum.split prod.split)
  qed
  then have sub: "triple (\<lambda>s. owned env F (tg_id t) s \<and> t \<in> set (ts_rows s) \<and> tg_name t = n) (submitTriggerTask env t) (\<lambda>_. framed env F) (framed env F)" for t n
    by (rule triple_inv) (auto simp: owned_def)
  show ?thesis
    unfolding RunTriggerNow_def
    by (rule triple_if, rule triple_fail, assumption, rule triple_bind [OF triple_wrap [OF access_owned]], rule triple_if,
        rule triple_fail, simp add: owned_def, rule sub)
qed

section \<open>Intervals\<close>

text \<open>The state once an interval of trigger \<open>i\<close> has been run at \<open>at\<close> with the tasks \<open>tasks\<close>.\<close>

definition interval_done :: "string \<Rightarrow> string \<Rightarrow> time \<Rightarrow> rpc_state \<times> db \<Rightarrow> trigger_sys \<Rightarrow> bool" where
  "interval_done i cron at tasks0 s =
     (find (\<lambda>(j, _). j = i) (ts_locks s) = Some (i, Some at) \<and> ts_tasks s = tasks0 \<and>
      list_all (\<lambda>t. tg_id t = i \<longrightarrow> tg_cron_expr t = cron) (ts_rows s))"

text \<open>What replicas do before the next interval of \<open>i\<close> is due.\<close>

fun before_next :: "string \<Rightarrow> time \<Rightarrow> trigger_op \<Rightarrow> bool" where
  "before_next i due (OpRun j at) = (j = i \<and> at < due)"
| "before_next i due (OpDelete name) = True"
| "before_next i due OpLoad = True"
| "before_next i due _ = False"

lemma find_lock_id: "find (\<lambda>(j, _). j = i) locks = Some (j, x) \<Longrightarrow> j = i"
  by (auto dest: find_SomeD)

lemma acquired_marks:
  assumes "acquireTriggerLock parse i cron at locks = (locks1, Acquired written)"
  shows "find (\<lambda>(j, _). j = i) written = Some (i, Some at)"
proof -
  obtain x where f: "find (\<lambda>(j, _). j = i) (ensure_lock_row i locks) = Some x"
    using find_ex [OF ensure_lock_row_present] by blast
  have "written = sql_update (\<lambda>(j, _). j = i) (\<lambda>(j, _). (j, Some at)) (ensure_lock_row i locks)"
    using assms by (auto simp: acquireTriggerLock_def Let_def split: option.splits if_splits)
  then show ?thesis using f find_SomeD [OF f] by (auto simp: find_lock_updated)
qed

lemma marked_skips:
  assumes "find (\<lambda>(j, _). j = i) locks = Some (i, Some at)" and "parse cron = Some nxt" and "at' < nxt at"
  shows "acquireTriggerLock parse i cron at' locks = (locks, Skip)"
proof -
  have "list_ex (\<lambda>(j, _). j = i) locks" using find_SomeD [OF assms(1)] by (auto simp: list_ex_iff intro!: bexI [of _ "(i, Some at)"])
  then show ?thesis using assms by (simp add: acquireTriggerLock_def ensure_lock_row_id)
qed

lemma next_run_interval: "act_inv (interval_done i cron at tasks0) (record_next_run env c j w)"
proof -
  have "act_inv (interval_done i cron at tasks0) (run_stmt env name (on_rows (SetTriggerNextRun n now j)))" for name n now
    by (rule act_inv_stmt) (auto simp: on_rows_def SetTriggerNextRun_def interval_done_def sql_update_def list.pred_map comp_def
      split: if_splits elim!: list.pred_mono_strong)
  then show ?thesis unfolding record_next_run_def by (cases "te_next env c") (auto intro!: act_inv_intros)
qed

lemma entry_interval: "interval_done i cron at tasks0 (set_entry k j e s) = interval_done i cron at tasks0 s"
  by (simp add: interval_done_def set_entry_def)

lemma activate_interval: "act_inv (interval_done i cron at tasks0) (activateTrigger env t)"
  using next_run_interval [of i cron at tasks0 env "tg_cron_expr t" "tg_id t" "Wrap ''set trigger next run''"]
  unfolding act_inv_def activateTrigger_def by (auto simp: entry_interval split: option.split)

lemma run_stmt_get:
  assumes "run_stmt env nm (GetTriggerByID i) s = (r, s')"
  shows "s' = s \<and> (\<forall>t. r = Inr t \<longrightarrow> find (\<lambda>t. tg_id t = i) (ts_rows s) = Some t)"
  using assms by (cases "find (\<lambda>t. tg_id t = i) (ts_rows s)") (auto simp: run_stmt_def GetTriggerByID_def sql_one_def split: option.splits)

lemma run_interval_done:
  assumes "te_parse env cron = Some nxt" and "at' < nxt at"
  shows "act_inv (interval_done i cron at tasks0) (runTrigger env i at')"
  unfolding act_inv_def
proof (intro allI impI)
  fix s assume inv: "interval_done i cron at tasks0 s"
  then have skip: "acquireTriggerLock (te_parse env) i cron at' (ts_locks s) = (ts_locks s, Skip)"
    using marked_skips assms by (simp add: interval_done_def)
  show "interval_done i cron at tasks0 (snd (runTrigger env i at' s))"
  proof (cases "run_stmt env ''GetTriggerByID'' (GetTriggerByID i) s")
    case (Pair r s')
    from run_stmt_get [OF this] have "s' = s" and row: "\<And>t. r = Inr t \<Longrightarrow> find (\<lambda>t. tg_id t = i) (ts_rows s) = Some t" by auto
    moreover have "tg_cron_expr t = cron" if "r = Inr t" for t
      using inv find_SomeD [OF row [OF that]] by (simp add: interval_done_def list_all_iff)
    ultimately show ?thesis using inv Pair by (cases r) (auto simp: runTrigger_def skip)
  qed
qed

lemma before_next_keeps:
  assumes "before_next i (nxt at) op" and "te_parse env cron = Some nxt"
  shows "act_inv (interval_done i cron at tasks0) (trigger_step env op)"
proof (cases op)
  case (OpRun j at')
  then show ?thesis using assms run_interval_done by simp
next
  case (OpDelete name)
  have "act_inv (interval_done i cron at tasks0) (run_stmt env nm (on_rows (DeleteTrigger_sql name)))" for nm
    by (rule act_inv_stmt) (auto simp: on_rows_def DeleteTrigger_sql_def interval_done_def list_all_iff)
  moreover have "act_inv (interval_done i cron at tasks0) (\<lambda>s. act_done () (set_entry k j e s))" for k j e
    by (simp add: act_inv_def act_done_def entry_interval)
  ultimately show ?thesis unfolding OpDelete trigger_step.simps DeleteTrigger_def by (intro act_inv_intros access_keeps)
next
  case OpLoad
  have "act_inv (interval_done i cron at tasks0) (activate_all env ts)" for ts
    by (induction ts) (auto intro!: act_inv_intros activate_interval)
  then show ?thesis unfolding OpLoad trigger_step.simps loadTriggers_def by (intro act_inv_intros act_inv_stmt) auto
qed (use assms in auto)

text \<open>A run that submits a task has marked its interval when it succeeds.\<close>

lemma submit_rest:
  assumes "submitTriggerTask env t s = (Inr tk, s')"
  shows "ts_locks s' = ts_locks s \<and> map (\<lambda>t. (tg_id t, tg_cron_expr t)) (ts_rows s') = map (\<lambda>t. (tg_id t, tg_cron_expr t)) (ts_rows s)"
  using assms
  by (auto simp: submitTriggerTask_def record_next_run_def run_stmt_def on_rows_def SetTriggerNextRun_def act_simps map_fixed_sql_update
      split: sum.splits prod.splits option.splits)

text \<open>A sequence of operations, each by the replica and with the outcomes of its environment.\<close>

fun run_ops :: "(trigger_env \<times> trigger_op) list \<Rightarrow> trigger_sys \<Rightarrow> trigger_sys" where
  "run_ops [] s = s"
| "run_ops ((env, op) # rest) s = run_ops rest (snd (trigger_step env op s))"

lemma run_ops_keeps:
  assumes "\<And>env op. (env, op) \<in> set ops \<Longrightarrow> act_inv I (trigger_step env op)" and "I s"
  shows "I (run_ops ops s)"
  using assms by (induction ops s rule: run_ops.induct) (auto dest: act_invD)

lemma run_marks_interval:
  assumes run: "runTrigger env i at s = (Inr (), s')" and new: "ts_tasks s' \<noteq> ts_tasks s"
    and ids: "distinct (map tg_id (ts_rows s))"
  shows "\<exists>t. find (\<lambda>t. tg_id t = i) (ts_rows s) = Some t \<and> interval_done i (tg_cron_expr t) at (ts_tasks s') s'"
proof -
  obtain r s0 where get: "run_stmt env ''GetTriggerByID'' (GetTriggerByID i) s = (r, s0)" by fastforce
  then have s0: "s0 = s" using run_stmt_get by blast
  obtain t where r: "r = Inr t" and en: "tg_enabled t" using run new get s0 by (cases r) (auto simp: runTrigger_def split: if_splits)
  have row: "find (\<lambda>t. tg_id t = i) (ts_rows s) = Some t" using run_stmt_get [OF get] r by blast
  obtain locks out where acq: "acquireTriggerLock (te_parse env) i (tg_cron_expr t) at (ts_locks s) = (locks, out)" by fastforce
  obtain written where out: "out = Acquired written" and int: "run_interval env t written (s\<lparr>ts_locks := locks\<rparr>) = (Inr (), s')"
    using run new get s0 r en acq by (cases out) (auto simp: runTrigger_def)
  obtain tk s1 where sub: "submitTriggerTask env t (s\<lparr>ts_locks := locks\<rparr>) = (Inr tk, s1)" and s': "s' = s1\<lparr>ts_locks := written\<rparr>"
    using int by (auto simp: run_interval_def act_bind_def finish_def split: sum.splits prod.splits option.splits)
  have "list_all (\<lambda>(j, c). j = i \<longrightarrow> c = tg_cron_expr t) (map (\<lambda>t. (tg_id t, tg_cron_expr t)) (ts_rows s))"
    using ids find_SomeD [OF row] by (auto simp: list.pred_map list_all_iff distinct_map inj_on_def)
  then have "list_all (\<lambda>(j, c). j = i \<longrightarrow> c = tg_cron_expr t) (map (\<lambda>t. (tg_id t, tg_cron_expr t)) (ts_rows s1))"
    using submit_rest [OF sub] by simp
  moreover have "find (\<lambda>(j, _). j = i) written = Some (i, Some at)" using acq out acquired_marks by blast
  ultimately show ?thesis using row s' by (auto simp: interval_done_def list.pred_map comp_def)
qed

section \<open>Examples\<close>

definition ex_trigger :: trigger where
  "ex_trigger =
     \<lparr>tg_id = ''g1'', tg_name = ''nightly'', tg_trigger_type = ''cron'', tg_trigger_config = emptyTriggerConfig, tg_cron_expr = ''@daily'',
      tg_prompt = ''check'', tg_git_url = None, tg_git_ref = None, tg_agent_image = Some ''img'', tg_agent = None, tg_provider_id = None,
      tg_model_id = None, tg_variant_id = None, tg_harness = None, tg_skills = [], tg_timeout_sec = 600, tg_enabled = True,
      tg_created_at = 0, tg_updated_at = 0, tg_last_run_at = None, tg_next_run_at = None, tg_team_id = Some ''a'', tg_source_id = None\<rparr>"

definition ex_trigger_input :: store_trigger where
  "ex_trigger_input =
     \<lparr>in_TeamID = [], in_TeamName = [], in_ID = [], in_Name = ''weekly'', in_TriggerType = [], in_TriggerConfig = NoConfig, in_CronExpr = ''@weekly'',
      in_Prompt = ''check'', in_GitURL = [], in_GitRef = [], in_AgentImage = ''img'', in_Agent = [], in_ProviderID = [], in_ModelID = [],
      in_VariantID = [], in_Harness = [], in_Skills = [], in_TimeoutSec = 0\<rparr>"

definition ex_trigger_env :: trigger_env where
  "ex_trigger_env =
     \<lparr>te_cfg = \<lparr>MaxPendingTasks = 0, DefaultAgentImage = ''img'', AgentImagePrefix = [], DefaultTaskTimeoutSec = 600,
        AllowUnisolated = True, cfg_TaskLimits = DefaultTaskLimits, EnvValidation = Defaults, CallbackMaxDepth = 5\<rparr>,
      te_submit = \<lparr>sv_now = second, sv_dbnow = second, sv_task_id = Some ''t9'', sv_session_id = Some ''s9'',
        sv_prompt_id = Some ''p9'', sv_attempt_id = Some ''x9'', sv_event_id = Some ''e9'', sv_run_id = Some ''run9'',
        sv_scope = None, sv_team_by_name = (\<lambda>_. None),
        sv_identity = (\<lambda>agent team url. Inr \<lparr>gi_ID = [], gi_AuthorName = ''bot'', gi_AuthorEmail = ''b''\<rparr>),
        sv_endpoints = (\<lambda>names team. Inr ()), sv_trigger_by_name = (\<lambda>_. None), sv_lock_err = None\<rparr>,
      te_replica = 0, te_now = second, te_id = Some ''g2'', te_parse = (\<lambda>e. Some (\<lambda>t. t + 10)), te_next = (\<lambda>e. Some 15),
      te_fail = (\<lambda>_. None)\<rparr>"

definition ex_trigger_sys :: trigger_sys where
  "ex_trigger_sys =
     \<lparr>ts_rows = [ex_trigger], ts_locks = [], ts_tasks = (\<lparr>heartbeatSeen = (\<lambda>_. None), redactSets = (\<lambda>_. None)\<rparr>, empty_db),
      ts_entries = (\<lambda>k i. if i = ''g1'' then Some ''@daily'' else None)\<rparr>"

definition ex_team_env :: "string \<Rightarrow> trigger_env" where
  "ex_team_env team =
     ex_trigger_env\<lparr>te_submit := (te_submit ex_trigger_env)\<lparr>sv_scope :=
       Some \<lparr>TeamID = team, TeamIDs = [], TokenID = ''tok'', TokenName = ''n'', Admin = False\<rparr>\<rparr>\<rparr>"

lemma ex_trigger_rows: "triggers_ok (te_parse ex_trigger_env) (ts_rows ex_trigger_sys)"
  by (simp add: ex_trigger_sys_def ex_trigger_def ex_trigger_env_def triggers_ok_def trigger_ok_def emptyTriggerConfig_def valid_json_def)

definition ex_trigger_submit :: submit_env where
  "ex_trigger_submit = (te_submit ex_trigger_env)\<lparr>sv_trigger_by_name :=
     \<lambda>n. map_option tg_id (find (\<lambda>r. tg_name r = n) (ts_rows ex_trigger_sys))\<rparr>"

definition ex_trigger_ready :: SubmitTaskRequest where
  "ex_trigger_ready =
     (case submit_defaults (te_cfg ex_trigger_env) (with_primary_repo (trigger_request ex_trigger)) of
        Inl _ \<Rightarrow> trigger_request ex_trigger | Inr i \<Rightarrow> i)"

lemma ex_trigger_checks:
  "submit_defaults (te_cfg ex_trigger_env) (with_primary_repo (trigger_request ex_trigger)) = Inr ex_trigger_ready"
  "submit_checks (te_cfg ex_trigger_env) (with_primary_repo (trigger_request ex_trigger)) = Inr ()"
proof -
  have "\<not> isl (submit_defaults (te_cfg ex_trigger_env) (with_primary_repo (trigger_request ex_trigger)))" by code_simp
  then show "submit_defaults (te_cfg ex_trigger_env) (with_primary_repo (trigger_request ex_trigger)) = Inr ex_trigger_ready"
    unfolding not_isl_iff ex_trigger_ready_def by auto
  have "\<not> isl (submit_checks (te_cfg ex_trigger_env) (with_primary_repo (trigger_request ex_trigger)))" by code_simp
  then show "submit_checks (te_cfg ex_trigger_env) (with_primary_repo (trigger_request ex_trigger)) = Inr ()" unfolding not_isl_iff by simp
qed

lemma ex_trigger_fields:
  "rq_Prompt (trigger_request ex_trigger) \<noteq> []"
  "resolveOwnerTeamID (sv_scope ex_trigger_submit) (sv_team_by_name ex_trigger_submit) (rq_TeamID ex_trigger_ready) (rq_TeamName ex_trigger_ready) = Inr ''a''"
  "taskGitHubMetadata ex_trigger_ready = Inr ([], 0)" "rq_McpEndpoints ex_trigger_ready = []" "rq_ExplicitTaskID ex_trigger_ready = []"
  by code_simp+

lemma ex_trigger_submits:
  "\<exists>t st d. SubmitTask (te_cfg ex_trigger_env) ex_trigger_submit (trigger_request ex_trigger) (ts_tasks ex_trigger_sys) = Inr (t, st, d) \<and> length (tasks d) = 1"
proof -
  obtain st0 where sys: "ts_tasks ex_trigger_sys = (st0, empty_db)" by (simp add: ex_trigger_sys_def)
  have "\<exists>t st d. SubmitTask (te_cfg ex_trigger_env) ex_trigger_submit (trigger_request ex_trigger) (st0, empty_db) = Inr (t, st, d)"
    by (rule SubmitTask_accepts [OF wf_empty_db ex_trigger_fields(1) ex_trigger_checks(2,1) ex_trigger_fields(2,3)])
      (simp_all add: ex_trigger_fields ex_trigger_submit_def ex_trigger_env_def normalizeMcpEndpointNames_def empty_db_def)
  then obtain t st d where sub: "SubmitTask (te_cfg ex_trigger_env) ex_trigger_submit (trigger_request ex_trigger) (st0, empty_db) = Inr (t, st, d)"
    by blast
  from SubmitTask_row [OF this] have "length (tasks d) = 1" by (auto simp: empty_db_def)
  with sub show ?thesis unfolding sys by auto
qed

section \<open>Properties\<close>



fun tool_op :: "trigger_op \<Rightarrow> bool" where
  "tool_op (OpRun i at) = False"
| "tool_op OpLoad = False"
| "tool_op _ = True"

lemma triple_foreign:
  assumes "triple (framed env F) m (\<lambda>_. framed env F) (framed env F)" and "framed env F s"
  shows "foreign (scope_of env) (ts_rows (snd (m s))) = F"
proof (cases "m s")
  case (Pair r s')
  then have "framed env F s'" using assms unfolding triple_def by (cases r) force+
  then show ?thesis using Pair by (simp add: framed_def)
qed

lemma triple_void: "triple P m (\<lambda>_. Q) E \<Longrightarrow> triple P (void m) (\<lambda>_. Q) E"
  unfolding void_def by (rule triple_bind, assumption, rule triple_done)

text \<open>
  C23. A caller with a scope that is not an administrator's changes no trigger of another team, and
  no trigger of no team, by creating, updating, deleting or running triggers, whatever names and
  ids it gives.
\<close>

theorem trigger_tools_stay_in_team:
  assumes "scope_of env = Some scope" and "\<not> Admin scope" and "[] \<notin> set (Teams scope)"
    and "triggers_ok (te_parse env) (ts_rows s)" and "tool_op op"
  shows "foreign (Some scope) (ts_rows (snd (trigger_step env op s))) = foreign (Some scope) (ts_rows s)"
proof -
  define F where "F = foreign (scope_of env) (ts_rows s)"
  have pre: "framed env F s" using assms(4) by (simp add: framed_def sys_ok_def F_def)
  have "triple (framed env F) (trigger_step env op) (\<lambda>_. framed env F) (framed env F)"
    using assms(5) by (cases op)
      (simp_all add: triple_void create_framed [OF assms(1-3)] update_framed delete_framed run_now_framed)
  from triple_foreign [OF this pre] show ?thesis by (simp add: F_def assms(1))
qed

theorem trigger_tools_stay_in_team_witness:
  "foreign (scope_of (ex_team_env ''b'')) (ts_rows (snd (trigger_step (ex_team_env ''b'') (OpDelete ''nightly'') ex_trigger_sys))) = [ex_trigger] \<and>
   ts_rows (snd (trigger_step (ex_team_env ''a'') (OpDelete ''nightly'') ex_trigger_sys)) = []"
proof
  let ?scope = "\<lparr>TeamID = ''b'', TeamIDs = [], TokenID = ''tok'', TokenName = ''n'', Admin = False\<rparr>"
  have scope: "scope_of (ex_team_env ''b'') = Some ?scope" by (simp add: scope_of_def ex_team_env_def)
  have rows: "triggers_ok (te_parse (ex_team_env ''b'')) (ts_rows ex_trigger_sys)" using ex_trigger_rows by (simp add: ex_team_env_def)
  have before: "foreign (Some ?scope) (ts_rows ex_trigger_sys) = [ex_trigger]" by code_simp
  show "foreign (scope_of (ex_team_env ''b'')) (ts_rows (snd (trigger_step (ex_team_env ''b'') (OpDelete ''nightly'') ex_trigger_sys))) = [ex_trigger]"
    using trigger_tools_stay_in_team [OF scope _ _ rows, of "OpDelete ''nightly''"] before by (simp add: scope Teams_def)
  show "ts_rows (snd (trigger_step (ex_team_env ''a'') (OpDelete ''nightly'') ex_trigger_sys)) = []" by code_simp
qed

text \<open>
  C1. After a run of an interval at \<open>at\<close> that submitted its task and returned success, commit of the
  interval included, no run of the same trigger on any replica before the next interval is due
  submits one, when only such runs, deletions of triggers and reloads of the schedules lie in between,
  whichever of their statements fail. A run that submitted its task and then failed does not count:
  it gives the interval back (\<open>next_run_failure_repeats_interval\<close>).
\<close>

theorem interval_submits_once:
  assumes "runTrigger env i at s = (Inr (), s')" and "ts_tasks s' \<noteq> ts_tasks s" and "triggers_ok parse (ts_rows s)"
    and "find (\<lambda>t. tg_id t = i) (ts_rows s) = Some t" and "parse (tg_cron_expr t) = Some nxt"
    and "\<And>env' op. (env', op) \<in> set ops \<Longrightarrow> te_parse env' = parse \<and> before_next i (nxt at) op"
  shows "ts_tasks (run_ops ops s') = ts_tasks s'"
proof -
  have "interval_done i (tg_cron_expr t) at (ts_tasks s') s'"
    using run_marks_interval [OF assms(1,2)] assms(3,4) by (simp add: triggers_ok_def)
  with run_ops_keeps [of ops "interval_done i (tg_cron_expr t) at (ts_tasks s')" s'] assms(5,6) before_next_keeps
  have "interval_done i (tg_cron_expr t) at (ts_tasks s') (run_ops ops s')" by metis
  then show ?thesis by (simp add: interval_done_def)
qed

theorem interval_submits_once_witness:
  "\<exists>s'. runTrigger ex_trigger_env ''g1'' 5 ex_trigger_sys = (Inr (), s') \<and> length (tasks (snd (ts_tasks s'))) = 1 \<and>
     ts_tasks (run_ops [(ex_trigger_env\<lparr>te_replica := 1\<rparr>, OpRun ''g1'' 14), (ex_trigger_env\<lparr>te_replica := 2\<rparr>, OpLoad),
       (ex_trigger_env\<lparr>te_replica := 2\<rparr>, OpRun ''g1'' 14)] s') = ts_tasks s'"
proof -
  obtain t st d where sub: "SubmitTask (te_cfg ex_trigger_env) ex_trigger_submit (trigger_request ex_trigger) (ts_tasks ex_trigger_sys) = Inr (t, st, d)"
    and one: "length (tasks d) = 1" using ex_trigger_submits by blast
  have env: "te_fail ex_trigger_env = (\<lambda>_. None)" "te_parse ex_trigger_env = (\<lambda>e. Some (\<lambda>t. t + 10))" "te_next ex_trigger_env = (\<lambda>e. Some 15)"
      "ts_locks ex_trigger_sys = []" "tg_enabled ex_trigger" "tg_id ex_trigger = ''g1''" "tg_cron_expr ex_trigger = ''@daily''"
    by (simp_all add: ex_trigger_env_def ex_trigger_sys_def ex_trigger_def)
  define s' where "s' = snd (runTrigger ex_trigger_env ''g1'' 5 ex_trigger_sys)"
  have rows: "ts_rows ex_trigger_sys = [ex_trigger]" "ts_entries ex_trigger_sys k ''g1'' = Some ''@daily''" for k by (simp_all add: ex_trigger_sys_def)
  have lock: "acquireTriggerLock (te_parse ex_trigger_env) ''g1'' ''@daily'' 5 [] = ([(''g1'', None)], Acquired [(''g1'', Some 5)])"
    by (simp add: acquireTriggerLock_def ensure_lock_row_def env)
  have res: "fst (runTrigger ex_trigger_env ''g1'' 5 ex_trigger_sys) = Inr () \<and> ts_tasks s' = (st, d)"
    using sub unfolding s'_def ex_trigger_submit_def
    by (simp add: runTrigger_def GetTriggerByID_def sql_one_def env lock [unfolded env] run_interval_def submitTriggerTask_def rows record_next_run_def
        run_stmt_def on_rows_def SetTriggerNextRun_def act_simps)
  then have run: "runTrigger ex_trigger_env ''g1'' 5 ex_trigger_sys = (Inr (), s')" by (metis prod.collapse s'_def)
  have none: "snd (ts_tasks ex_trigger_sys) = empty_db" by (simp add: ex_trigger_sys_def)
  have "tasks (snd (ts_tasks s')) \<noteq> tasks (snd (ts_tasks ex_trigger_sys))" unfolding none using one res by (auto simp: empty_db_def)
  then have new: "ts_tasks s' \<noteq> ts_tasks ex_trigger_sys" by auto
  have row: "find (\<lambda>t. tg_id t = ''g1'') (ts_rows ex_trigger_sys) = Some ex_trigger" by (simp add: ex_trigger_sys_def ex_trigger_def)
  have parse: "te_parse ex_trigger_env (tg_cron_expr ex_trigger) = Some (\<lambda>t. t + 10)" by (simp add: ex_trigger_env_def)
  have "ts_tasks (run_ops [(ex_trigger_env\<lparr>te_replica := 1\<rparr>, OpRun ''g1'' 14), (ex_trigger_env\<lparr>te_replica := 2\<rparr>, OpLoad),
       (ex_trigger_env\<lparr>te_replica := 2\<rparr>, OpRun ''g1'' 14)] s') = ts_tasks s'"
    by (rule interval_submits_once [OF run new ex_trigger_rows row parse]) auto
  with run res one show ?thesis by auto
qed

text \<open>
  The interval is given back when the task of a run was submitted but its next run could not be
  recorded: the run reports the error, the task exists, and a later run of the same interval submits
  again.
\<close>

theorem next_run_failure_repeats_interval:
  assumes "find (\<lambda>t. tg_id t = i) (ts_rows s) = Some t" and "tg_enabled t"
    and "acquireTriggerLock (te_parse env) i (tg_cron_expr t) at (ts_locks s) = (locks, Acquired written)"
    and "SubmitTask (te_cfg env) ((te_submit env)\<lparr>sv_trigger_by_name := \<lambda>n. map_option tg_id (find (\<lambda>r. tg_name r = n) (ts_rows s))\<rparr>)
      (trigger_request t) (ts_tasks s) = Inr (tk, tasks')"
    and "ts_entries s (te_replica env) i = Some cron" and "te_next env cron = Some n"
    and "te_fail env = (\<lambda>_. None)(''SetTriggerNextRun'' := Some e)"
  shows "runTrigger env i at s = (Inl e, s\<lparr>ts_locks := locks, ts_tasks := tasks'\<rparr>) \<and>
    acquireTriggerLock (te_parse env) i (tg_cron_expr t) at locks = (locks, Acquired written)"
proof
  have i: "tg_id t = i" using find_SomeD [OF assms(1)] by simp
  show "runTrigger env i at s = (Inl e, s\<lparr>ts_locks := locks, ts_tasks := tasks'\<rparr>)"
    using assms by (simp add: runTrigger_def run_stmt_def GetTriggerByID_def sql_one_def run_interval_def submitTriggerTask_def
        record_next_run_def act_simps i)
  show "acquireTriggerLock (te_parse env) i (tg_cron_expr t) at locks = (locks, Acquired written)"
    using assms(3) ensure_lock_row_present [of i "ts_locks s"] by (auto simp: acquireTriggerLock_def Let_def ensure_lock_row_id)
qed

theorem next_run_failure_repeats_interval_witness:
  "\<exists>s'. runTrigger (ex_trigger_env\<lparr>te_fail := (\<lambda>_. None)(''SetTriggerNextRun'' := Some (Errorf ''gone''))\<rparr>) ''g1'' 5 ex_trigger_sys = (Inl (Errorf ''gone''), s') \<and>
     length (tasks (snd (ts_tasks s'))) = 1 \<and>
     acquireTriggerLock (te_parse ex_trigger_env) ''g1'' ''@daily'' 5 (ts_locks s') = ([(''g1'', None)], Acquired [(''g1'', Some 5)])"
proof -
  let ?env = "ex_trigger_env\<lparr>te_fail := (\<lambda>_. None)(''SetTriggerNextRun'' := Some (Errorf ''gone''))\<rparr>"
  let ?sub = "SubmitTask (te_cfg ?env) ((te_submit ?env)\<lparr>sv_trigger_by_name :=
      \<lambda>n. map_option tg_id (find (\<lambda>r. tg_name r = n) (ts_rows ex_trigger_sys))\<rparr>) (trigger_request ex_trigger) (ts_tasks ex_trigger_sys)"
  have row: "find (\<lambda>t. tg_id t = ''g1'') (ts_rows ex_trigger_sys) = Some ex_trigger" by (simp add: ex_trigger_sys_def ex_trigger_def)
  obtain tk st d where sub: "?sub = Inr (tk, st, d)" and one: "length (tasks d) = 1"
    using ex_trigger_submits by (auto simp: ex_trigger_submit_def)
  have lock: "acquireTriggerLock (te_parse ?env) ''g1'' (tg_cron_expr ex_trigger) 5 (ts_locks ex_trigger_sys) = ([(''g1'', None)], Acquired [(''g1'', Some 5)])"
    by (simp add: acquireTriggerLock_def ensure_lock_row_def ex_trigger_sys_def ex_trigger_env_def)
  have "tg_enabled ex_trigger" "ts_entries ex_trigger_sys (te_replica ?env) ''g1'' = Some ''@daily''" "te_next ?env ''@daily'' = Some 15"
    by (simp_all add: ex_trigger_def ex_trigger_sys_def ex_trigger_env_def)
  from next_run_failure_repeats_interval [OF row this(1) lock sub this(2,3), of "Errorf ''gone''"] one
  show ?thesis by (simp add: ex_trigger_def)
qed

text \<open>
  An update whose statement fails leaves the stored trigger enabled and as it was, but takes its entry
  out of this replica's schedule.
\<close>

theorem failed_update_unschedules:
  assumes "update_input env inp0 = Inr inp" and "find (\<lambda>t. tg_name t = name) (ts_rows s) = Some t"
    and "may_access (scope_of env) (tg_team_id t)" and "te_fail env = (\<lambda>_. None)(''UpdateTrigger'' := Some e)"
  shows "UpdateTrigger env name inp0 enabled s = (Inl (Wrap ''update trigger'' e), set_entry (te_replica env) (tg_id t) None s)"
  using assms by (simp add: UpdateTrigger_def triggerForToolAccess_def authorizeTriggerAccess_def run_stmt_def GetTriggerByName_def
      sql_one_def act_simps)

theorem failed_update_unschedules_witness:
  "\<exists>s'. UpdateTrigger (ex_trigger_env\<lparr>te_fail := (\<lambda>_. None)(''UpdateTrigger'' := Some (Errorf ''gone''))\<rparr>) ''nightly'' ex_trigger_input True ex_trigger_sys =
       (Inl (Wrap ''update trigger'' (Errorf ''gone'')), s') \<and>
     map tg_enabled (ts_rows s') = [True] \<and> ts_entries ex_trigger_sys 0 ''g1'' = Some ''@daily'' \<and> ts_entries s' 0 ''g1'' = None"
proof -
  let ?env = "ex_trigger_env\<lparr>te_fail := (\<lambda>_. None)(''UpdateTrigger'' := Some (Errorf ''gone''))\<rparr>"
  have "isl (update_input ?env ex_trigger_input) = False" by code_simp
  then obtain inp where inp: "update_input ?env ex_trigger_input = Inr inp" by (cases "update_input ?env ex_trigger_input") auto
  have row: "find (\<lambda>t. tg_name t = ''nightly'') (ts_rows ex_trigger_sys) = Some ex_trigger" by (simp add: ex_trigger_sys_def ex_trigger_def)
  have acc: "may_access (scope_of ?env) (tg_team_id ex_trigger)" by code_simp
  from failed_update_unschedules [OF inp row acc, of "Errorf ''gone''" True]
  show ?thesis by (simp add: set_entry_def ex_trigger_sys_def ex_trigger_def ex_trigger_env_def)
qed

end
