(* ===== verification/Spec2Isabelle.thy ===== *)
theory Spec2Isabelle
  imports Chetter_Examples Chetter_Lifecycle Chetter_Endpoint_Sync Chetter_Ssrf Chetter_Runner_Cleanup Chetter_Runner_Heartbeat Chetter_Webhook_Deliveries Chetter_Runner_GitHub Chetter_Triggers
begin

text \<open>
  \<^bold>\<open>Chetter: the control plane of an agent fleet, verified\<close>

  Chetter queues tasks for coding agents and hands them to a fleet of runners. The server under
  \<^verbatim>\<open>src/internal\<close> keeps all shared state in a MySQL-compatible database and may run in several
  replicas; runners under \<^verbatim>\<open>src/runner\<close> poll it over RPC, execute what they claim and report
  events. This development models the server: its rows, the SQL statements it uses, the operations
  that change the state and the pure functions they rest on; and of the runner the process around
  an agent: claiming, admission, supervision, reporting and cleaning up.

  \<^bold>\<open>Parts and theories.\<close>
  \<^item> \<open>Chetter_Prelude\<close>, \<open>Chetter_Strings\<close>, \<open>Chetter_Time\<close>, \<open>Chetter_Json\<close>: the vocabulary. Errors
    are values of the type \<open>error\<close> with the constructors the code distinguishes; an operation that can
    fail returns \<open>error + 'a\<close>. \<open>sql_update\<close>, \<open>sql_insert\<close>, \<open>sql_one\<close> and friends give the meaning of
    statements on lists of rows. Strings are lists of bytes; letters change case as in ASCII. Times
    are integers in nanoseconds. Numbers are unbounded integers except where the code converts to
    \<^verbatim>\<open>int32\<close>, where \<open>to_int32\<close> wraps around.
  \<^item> \<open>Chetter_Store\<close>: the rows of \<^verbatim>\<open>internal/repository/models.go\<close> as records, the database \<open>db\<close>,
    and its well-formedness \<open>wf_db\<close> (keys, references, isolation). \<open>Chetter_Attempt_Queries\<close> and
    \<open>Chetter_Task_Queries\<close>: one definition per statement of \<^verbatim>\<open>internal/repository/*.sql.go\<close>, with
    the name of the generated function. \<open>Chetter_Evolution\<close>: how rows may change (\<open>db_later\<close>,
    \<open>good_update\<close>, \<open>advances\<close>), proved for every statement.
  \<^item> \<open>Chetter_Classify\<close>, \<open>Chetter_Redact\<close>, \<open>Chetter_Claim\<close>, \<open>Chetter_Events\<close>, \<open>Chetter_Heartbeat\<close>: the
    runner protocol of \<^verbatim>\<open>internal/service/runner_rpc.go\<close> (\<open>claimOnce\<close>, \<open>ClaimTask\<close>,
    \<open>recordTaskEvent\<close>, \<open>Heartbeat\<close>, \<open>PruneWorkspaces\<close>) and \<^verbatim>\<open>internal/redact\<close>.
  \<^item> \<open>Chetter_Tx\<close>, \<open>Chetter_Coordination\<close>: retried transactions (\<^verbatim>\<open>tx.go\<close>, \<^verbatim>\<open>store/retry.go\<close>) and
    what replicas share (\<^verbatim>\<open>coordination.go\<close>).
  \<^item> \<open>Chetter_Reaper\<close>, \<open>Chetter_Retention\<close>: the background cycle of \<^verbatim>\<open>service.go\<close> and the pruning of
    \<^verbatim>\<open>store/store.go\<close>.
  \<^item> \<open>Chetter_Validation\<close>, \<open>Chetter_Auth\<close>, \<open>Chetter_Repos\<close>, \<open>Chetter_GitHub\<close>: the checks and
    normalizations on the way in.
  \<^item> \<open>Chetter_Submit\<close>: \<open>SubmitTask\<close>, \<open>RecoverTask\<close>, \<open>RerunTask\<close>, \<open>ResumeAgentSession\<close>, \<open>CancelTask\<close>,
    \<open>ExtendTaskTimeout\<close>, \<open>ClearQueue\<close> with the admission gate.
  \<^item> \<open>Chetter_Lease\<close>: tables whose rows a worker claims for the time of a lease, the contract of both
    delivery queues. \<open>Chetter_Callbacks\<close>, \<open>Chetter_Delivery\<close>: the outbox of event callbacks and the
    worker that drains it (\<^verbatim>\<open>callback_deliveries.go\<close>, \<^verbatim>\<open>event_callbacks.go\<close>).
  \<^item> \<open>Chetter_Inbound\<close>, \<open>Chetter_Inbound_Worker\<close>: the receiver of third-party webhooks
    (\<^verbatim>\<open>internal/inbound/handler.go\<close>, \<open>ServeHTTP\<close>) over its store, and the worker that turns stored
    deliveries into tasks (\<^verbatim>\<open>inbound_deliveries.go\<close>, \<^verbatim>\<open>inbound_webhooks.go\<close>).
    \<open>Chetter_Endpoint_Sync\<close>: parsing of endpoint definitions (\<^verbatim>\<open>pkg/definitions/inbound_webhook.go\<close>)
    and their reconciliation with the endpoint rows (\<^verbatim>\<open>inbound_materialize.go\<close>).
  \<^item> \<open>Chetter_Webhook_Events\<close>, \<open>Chetter_Webhook_Deliveries\<close>: the webhooks of GitHub
    (\<^verbatim>\<open>internal/webhook\<close>): the dispatch of events to sessions, artifacts and tasks, and the receiver,
    the delivery table and its retry worker (\<^verbatim>\<open>webhook_deliveries.go\<close>) as a step relation.
    \<open>Chetter_Runner_GitHub\<close>: what runners may do on GitHub (\<^verbatim>\<open>runner_github_rpc.go\<close>,
    \<^verbatim>\<open>github_tools.go\<close>), as actions over a record of the calls made.
  \<^item> \<open>Chetter_Triggers\<close>: the administration of triggers, the schedules of the replicas and the runs
    of intervals (\<^verbatim>\<open>service.go\<close>).
  \<^item> \<open>Chetter_Ssrf\<close>: the policy on destinations of outgoing requests and the client that enforces it
    when it dials (\<^verbatim>\<open>internal/ssrf\<close>), with addresses as words of 32 and 128 bits.
  \<^item> \<open>Chetter_Runner\<close>: the runner process of \<^verbatim>\<open>runner/internal/controller\<close> as a step relation (the claim
    loop, the slots, the gate of \<open>runTask\<close>, cancellation, drain) with admission and isolation policy.
    \<open>Chetter_Watchdog\<close>: the supervision of an agent (\<^verbatim>\<open>progress_watchdog.go\<close>).
    \<open>Chetter_Runner_Report\<close>: status reports, their delivery with retries, token accounting, drain
    deadlines. \<open>Chetter_Runner_Cleanup\<close>, \<open>Chetter_Runner_Heartbeat\<close>: the removal of orphaned workspaces
    and containers, and the heartbeat, each put together with the server's side of the call.
  \<^item> \<open>Chetter_Lifecycle\<close>: the server as a labelled step relation with one rule for every operation,
    its runs, and the abstract queue the attempt table implements.
  \<^item> \<open>Chetter_Examples\<close>: the small deployment on which the theorems are tried out.

  \<^bold>\<open>State, effects and interleaving.\<close> A transaction is a function from the database to an error or
  a result with the new database; a failed one leaves the database alone. Statements lock the rows
  they read for update, so transactions take effect one after the other: an interleaving of
  replicas is a sequence of steps of \<open>Chetter_Lifecycle\<close>. Rows locked by another transaction are
  skipped where the statement says so (\<open>locked\<close>). The clock, the random identifiers (\<open>None\<close> when the
  source fails), the answers of lookups in tables that are not modelled, the HTTP client, the
  template engine, the cron library and SHA-256 are fields of environment records, arguments of the
  operations. The locale \<open>callback_dispatcher\<close> is the interface between the operations that write
  events and the outbox: what a dispatcher must keep; it is interpreted for the outbox and for the
  server without callbacks, and the lemmas on claims, reports, reaping and recovery are proved in it.
  The locale \<open>leased_queue\<close> is the contract of a table claimed under leases, interpreted for the outbox
  and the inbox; \<open>inbound_store\<close> is the interface the webhook receiver calls, interpreted for the
  store of the server, and \<open>delivery_store\<close> the one the GitHub receiver calls. The inbox tables, the
  table of GitHub deliveries, the triggers with the schedules of the replicas, and the artifacts and
  audit rows of GitHub operations are states of their own beside the database, since no other
  modelled component writes them. Actions with errors and state compose with \<open>act_bind\<close>; the calls to GitHub
  are recorded in the state, so that theorems speak of what is asked and when. On the runner, the goroutines of one process interleave as the steps of
  \<open>runner_step\<close>, with the claim loop as a program counter and the answers of the server as labels.

  \<^bold>\<open>What the theorems show.\<close> In any run in which retention deletes no agent sessions, an attempt is
  claimed at most once, its reports come from the holder of the claim, the database stays well-formed
  and attempts only move forward; claims and reports refine an abstract queue. Claims take the oldest
  attempt the runner may execute, record it, and succeed when one waits; live reports are accepted
  and write what they report, heartbeats once a minute; the summaries, errors, exports and payloads
  they store hold no plain secret registered for the session. At most one run of a retried
  transaction takes effect, and exactly one when it succeeds. Events put exactly the matching
  deliveries into the outbox; deliveries of both queues are leased exclusively, never stranded, and
  create a task at most once. A webhook is accepted only with proof of the secret and only when it is
  stored; endpoint rows follow their definitions. GitHub events that are handled were signed, have one
  row each and, with one server process, are handled at most three times; what an author without
  write access says resumes nothing and submits nothing. A runner acts on GitHub only if it held its
  execution when the operation began and only on the repository of its task it asked for, gets a
  credential only if it held the execution before and after the token was issued, and uses one
  installation for the primary repository; the footers it signs with are read back by the webhooks.
  Triggers keep their names, types and schedules valid, stay out of reach of other teams, and after a
  successful run submit nothing more in the interval. The client of outgoing requests dials no blocked
  address of a host with at most one zone. The pending queue is bounded, valid submissions are stored
  with all their rows, heartbeats renew what the runner holds and only that, drains exclude, retention
  that meets no fault is a filter, scoped tokens stay within their teams, repository names round-trip.
  A runner runs no task twice at a time, keeps to its slots, delivers a terminal report or gives up in
  bounded time, reports usage once and no token of its tool server, stops silent agents it can
  continue and only those, and destroys nothing that the server's tables still need. Further theorems, which the components keep
  for themselves, cover pruning, trigger locks, polling, checkout directories, environments, rate
  limits and callback depth. Some theorems pin down behaviour that is not what the code means to do:
  an over-limit attempt at the head of the queue blocks claims, the pruning of agent sessions breaks
  the references of live tasks, the reaper fails recovered tasks,
  default settings reject every \<open>create_task\<close> callback, a full queue dead-letters deliveries, a literal
  with two zones escapes the destination policy, a restart or an outage loses GitHub deliveries, issue
  triggers lose their isolation, a failed bookkeeping statement makes a trigger submit twice or
  takes it off a schedule, a runner executes one task more than configured,
  refusals for isolation and exhausted prompts are filed under other categories, and the last pause
  of a report can outlast a forced drain.

  \<^bold>\<open>Where the model is narrower than the code.\<close> The rule of \<open>Chetter_Lifecycle\<close> for retention covers
  configurations that keep agent sessions (\<open>ArtifactRetentionDays\<close> not positive);
  \<open>session_pruning_breaks_references\<close> shows what the others do to well-formedness. \<open>github_step\<close> is one
  server process: a cycle of the retry worker is one step, replicas do not run cycles of their own and
  rows are not pruned; the code takes no lock there. \<open>trigger_step\<close> takes an operation on triggers,
  the check of the access and the statement included, as one step, while the code addresses the row
  by name in both. \<open>acquireTriggerLock\<close> and \<open>Heartbeat\<close> leave out errors of the driver and time-outs of
  locks; a statement of an endpoint synchronization or of the inbox that reports an error is taken to
  have changed nothing. Retention keeps its faults: the batches of \<open>execPruneBatches\<close> may end at any
  pass, before or after its statement took effect.

  \<^bold>\<open>Loops and bounds.\<close> The retry loops recurse on the attempts left, three as in the code. The
  polling loop of a claim takes the sequence of its polls as a list, bounded by the wait. Deletion in
  batches terminates because each full batch removes rows; the search for a free directory
  name because only finitely many numbered names are taken; the eviction of remembered deliveries
  because each round removes the oldest one. The delivery of a report ends because
  every failed attempt costs a pause of its remaining time or two seconds. No definition uses fuel.

  \<^bold>\<open>Not modelled.\<close> The promotion and the test run of triggers, the synchronization of definitions other than inbound endpoints, model catalog, git identities and endpoint
  definitions of tools, tokens and single sign-on, listings, the audit log except for GitHub operations, metrics and configuration;
  the reply of a claim, which only reads; the PostgreSQL variants of the statements; and of the
  runner the starting of containers, pods and agents, checkouts, networks and tool relays. They are
  I/O, views, external clients, or left for later.
\<close>

definition ex_claim_env :: claim_env where
  "ex_claim_env = \<lparr>ce_now = 10 * second, ce_event_id = Some ''e1'', ce_claim_id = Some ''c'',
     ce_locked = (\<lambda>_. False), ce_peek_err = None\<rparr>"

definition ex_callback_env :: callback_env where
  "ex_callback_env = \<lparr>cbe_now = 10 * second, cbe_id = (\<lambda>cb. Some (''d-'' @ cb_id cb)),
     cbe_render = (\<lambda>s ev. Inr s), cbe_dest_ok = (\<lambda>u. True)\<rparr>"

section \<open>Claiming\<close>

text \<open>
  C7. A successful claim takes, among the pending attempts of pending tasks that the runner may
  execute (not pinned to another runner, isolation only on a runner that has it) and that no
  concurrent claim holds, one that was created first; the runner was not asked to drain; the task
  is within its attempt limit. Afterwards the row of the attempt is running, with the runner, the
  claim id drawn and a lease from now on it, the task is running, and every other attempt is as it
  was.
\<close>

theorem claim_takes_oldest_eligible:
  assumes "wf_db d" and "claimOnce env (live_outbox cbe) runner lease d = Inr (c, d')"
  shows "\<exists>a p t claim. (a, p, t) \<in> set (attempt_task_joins d) \<and>
     a_id (c_Attempt c) = a_id a \<and> t_id (c_Task c) = t_id t \<and>
     may_execute runner d (a, p, t) \<and> \<not> ce_locked env a \<and>
     (\<forall>b q u. (b, q, u) \<in> set (attempt_task_joins d) \<longrightarrow>
        may_execute runner d (b, q, u) \<longrightarrow> \<not> ce_locked env b \<longrightarrow>
        a_created_at a \<le> a_created_at b) \<and>
     CountExecutionAttemptsByTask (t_id t) d \<le> t_max_attempts t \<and>
     (ce_peek_err env = None \<longrightarrow> \<not> peekRunnerDrainDB runner d) \<and>
     ce_claim_id env = Some claim \<and>
     (\<exists>a'\<in>set (execution_attempts d'). a_id a' = a_id a \<and> a_status a' = ''running'' \<and> a_runner_id a' = Some runner \<and>
        a_claim_id a' = claim \<and> a_lease_expires_at a' = Some (ce_now env + lease)) \<and>
     (\<exists>t'\<in>set (tasks d'). t_id t' = t_id t \<and> t_status t' = ''running'') \<and>
     filter (\<lambda>b. a_id b \<noteq> a_id a) (execution_attempts d') = filter (\<lambda>b. a_id b \<noteq> a_id a) (execution_attempts d)"
  using assms(2,1)
proof (rule outbox.claimOnce_effect)
  fix a p t claim
  assume j: "(a, p, t) \<in> set (attempt_task_joins d)" "claimable runner (isolation_of runner d) d (a, p, t)" "\<not> ce_locked env a"
    and old: "\<And>b q u. (b, q, u) \<in> set (attempt_task_joins d) \<Longrightarrow> claimable runner (isolation_of runner d) d (b, q, u) \<Longrightarrow>
       \<not> ce_locked env b \<Longrightarrow> a_created_at a \<le> a_created_at b"
    and r: "runner \<noteq> []" "ce_peek_err env = None \<Longrightarrow> \<not> peekRunnerDrainDB runner d"
      "CountExecutionAttemptsByTask (t_id t) d \<le> t_max_attempts t" "ce_claim_id env = Some claim"
      "c_Attempt c = claimed_attempt (ce_now env) lease runner claim a" "t_id (c_Task c) = t_id t"
    and rows: "execution_attempts d' = sql_update (\<lambda>b. a_id b = a_id a \<and> a_status b = ''pending'')
       (claim_row (ce_now env) lease runner claim) (execution_attempts d)"
    and task: "tasks d' = sql_update (\<lambda>u. t_id u = t_id t \<and> t_status u = ''pending'') (run_row (ce_now env)) (tasks d)"
  have mem: "a \<in> set (execution_attempts d)" "t \<in> set (tasks d)" "a_status a = ''pending''" "t_status t = ''pending''"
    using j by (simp_all add: attempt_task_joins_iff claimable_def)
  have "claim_row (ce_now env) lease runner claim a \<in> set (execution_attempts d')" "run_row (ce_now env) t \<in> set (tasks d')"
    using mem unfolding rows task in_sql_update_iff by force+
  moreover have "a_lease_expires_at (claim_row (ce_now env) lease runner claim a) = Some (ce_now env + lease)"
    "t_id (run_row (ce_now env) t) = t_id t" "t_status (run_row (ce_now env) t) = ''running''" "nullString runner = Some runner"
    using r(1) by (simp_all add: claim_row_def claimed_attempt_def run_row_def nullString_def)
  ultimately have "\<exists>a'\<in>set (execution_attempts d'). a_id a' = a_id a \<and> a_status a' = ''running'' \<and> a_runner_id a' = Some runner \<and>
        a_claim_id a' = claim \<and> a_lease_expires_at a' = Some (ce_now env + lease)"
      "\<exists>t'\<in>set (tasks d'). t_id t' = t_id t \<and> t_status t' = ''running''"
    by (metis claim_row_fields)+
  moreover have "filter (\<lambda>b. a_id b \<noteq> a_id a) (execution_attempts d') = filter (\<lambda>b. a_id b \<noteq> a_id a) (execution_attempts d)"
    unfolding rows by (rule filter_sql_update) simp
  moreover have "a_id (c_Attempt c) = a_id a" using r(5) by (simp add: claimed_attempt_def)
  ultimately show ?thesis
    using j(1,3) r(2-4,6) old j(2) unfolding claimable_may_execute [OF assms(1)]
    by (intro exI [of _ a] exI [of _ p] exI [of _ t] exI [of _ claim]) simp
qed

lemma ex_claim_runs:
  "\<exists>c d'. claimOnce ex_claim_env (live_outbox ex_callback_env) ''r1'' (120 * second) ex_db = Inr (c, d')"
proof -
  have "\<not> isl (claimOnce ex_claim_env (live_outbox ex_callback_env) ''r1'' (120 * second) ex_db)" by code_simp
  then show ?thesis by (cases "claimOnce ex_claim_env (live_outbox ex_callback_env) ''r1'' (120 * second) ex_db") auto
qed

theorem claim_takes_oldest_eligible_witness:
  "\<exists>c d' a p t. claimOnce ex_claim_env (live_outbox ex_callback_env) ''r1'' (120 * second) ex_db = Inr (c, d') \<and>
     (a, p, t) \<in> set (attempt_task_joins ex_db) \<and> a_id (c_Attempt c) = a_id a \<and>
     may_execute ''r1'' ex_db (a, p, t) \<and>
     (\<exists>a'\<in>set (execution_attempts d'). a_id a' = a_id a \<and> a_status a' = ''running'' \<and> a_runner_id a' = Some ''r1'')"
proof -
  obtain c d' where run: "claimOnce ex_claim_env (live_outbox ex_callback_env) ''r1'' (120 * second) ex_db = Inr (c, d')"
    using ex_claim_runs by blast
  with claim_takes_oldest_eligible [OF ex_db_wf(1) run] show ?thesis by blast
qed

section \<open>Runs\<close>

definition ex_cfg :: svc_config where
  "ex_cfg = \<lparr>MaxPendingTasks = 0, DefaultAgentImage = ''img'', AgentImagePrefix = [], DefaultTaskTimeoutSec = 600,
     AllowUnisolated = True, cfg_TaskLimits = DefaultTaskLimits, EnvValidation = Defaults, CallbackMaxDepth = 5\<rparr>"

definition ex_state :: rpc_state where
  "ex_state = \<lparr>heartbeatSeen = (\<lambda>_. None), redactSets = (\<lambda>_. None)\<rparr>"

text \<open>The report that the execution claimed in \<^const>\<open>ex_running_db\<close> is done.\<close>

definition ex_msg :: task_event_msg where
  "ex_msg = \<lparr>TaskId = ''t1'', Status = ''done'', Summary = ''ok'', Error = [], ProviderId = [], ModelId = [],
     VariantId = [], OpencodeSessionId = [], RunnerImageDigest = [], StartedAt = [], EndedAt = [],
     PayloadJson = [], SessionExport = [], CheckpointPath = [], WorkspacePath = [], ErrorCategory = [],
     TokenUsage = None, ExecutionId = ''x1'', AgentSessionId = ''s1'', UserPromptId = ''p1'', ClaimId = ''c''\<rparr>"

definition ex_event_env :: event_env where
  "ex_event_env = \<lparr>ee_now = 20 * second, ee_dbnow = 20 * second, ee_event_id = Some ''e2'', ee_checkpoint_id = Some ''k1''\<rparr>"

definition ex_claimed_db :: db where
  "ex_claimed_db =
     (case claimOnce ex_claim_env (live_outbox ex_callback_env) ''r1'' (120 * second) ex_db of Inl e \<Rightarrow> ex_db | Inr (c, d) \<Rightarrow> d)"

lemma ex_claim_label:
  "step ex_cfg (ex_state, ex_db) (Claimed ''x1'' ''r1'' ''c'') (ex_state, ex_claimed_db)"
proof -
  let ?r = "claimOnce ex_claim_env (live_outbox ex_callback_env) ''r1'' (120 * second) ex_db"
  obtain c d where r: "?r = Inr (c, d)" using ex_claim_runs by blast
  have "case ?r of Inl e \<Rightarrow> False | Inr (c, d) \<Rightarrow> a_id (c_Attempt c) = ''x1'' \<and> a_claim_id (c_Attempt c) = ''c''"
    by code_simp
  then have "a_id (c_Attempt c) = ''x1''" "a_claim_id (c_Attempt c) = ''c''" unfolding r by simp_all
  then show ?thesis using step.claim [OF r, of ex_cfg ex_state] by (simp add: ex_claimed_db_def r)
qed

lemma ex_dispatch: "\<not> isl (dispatch (live_outbox ex_callback_env) ev d)"
  by (rule dispatch_total) (simp add: ex_callback_env_def)

lemma ex_claimed_rows:
  "execution_attempts ex_claimed_db = [claim_row (10 * second) (120 * second) ''r1'' ''c'' ex_attempt]"
  "user_prompts ex_claimed_db = [ex_prompt\<lparr>p_status := ''running'', p_started_at := Some (10 * second), p_updated_at := 10 * second\<rparr>]"
  "tasks ex_claimed_db = [run_row (10 * second) ex_task]"
  "map e_id (task_events ex_claimed_db) = [''e1'']" "checkpoints ex_claimed_db = []"
  by code_simp+

lemma ex_claimed_wf: "wf_db ex_claimed_db"
  using step_advances [OF ex_claim_label] ex_db_wf(1) by (simp add: advances_def)

lemma ex_report_premises:
  "(hd (execution_attempts ex_claimed_db), hd (user_prompts ex_claimed_db), hd (tasks ex_claimed_db))
     \<in> set (attempt_task_joins ex_claimed_db)"
  "holds_claim (ee_dbnow ex_event_env) ''r1'' ex_msg (hd (execution_attempts ex_claimed_db))"
  "''e2'' \<notin> e_id ` set (task_events ex_claimed_db)"
proof -
  show "''e2'' \<notin> e_id ` set (task_events ex_claimed_db)"
    using arg_cong [OF ex_claimed_rows(4), of set] by simp
qed (simp_all add: attempt_task_joins_iff holds_claim_def ex_claimed_rows run_row_def claim_row_def claimed_attempt_def
    ex_row_defs ex_event_env_def ex_msg_def lease_live_def nullString_def second_def)

lemma ex_report_fields:
  "TaskId ex_msg \<noteq> []" "ExecutionId ex_msg \<noteq> []" "t_id (hd (tasks ex_claimed_db)) = TaskId ex_msg"
  "p_agent_session_id (hd (user_prompts ex_claimed_db)) = AgentSessionId ex_msg"
  "p_id (hd (user_prompts ex_claimed_db)) = UserPromptId ex_msg" "t_status (hd (tasks ex_claimed_db)) = ''running''"
  "a_updated_at (hd (execution_attempts ex_claimed_db)) \<noteq> ee_now ex_event_env"
  "t_updated_at (hd (tasks ex_claimed_db)) \<noteq> ee_now ex_event_env" "ee_event_id ex_event_env = Some ''e2''"
  "str_of (ee_checkpoint_id ex_event_env) \<notin> k_id ` set (checkpoints ex_claimed_db)"
  by (simp_all add: ex_claimed_rows run_row_def claim_row_def claimed_attempt_def
      ex_row_defs ex_event_env_def ex_msg_def second_def)

lemma ex_report_runs:
  "\<exists>st d. recordTaskEvent ex_event_env (live_outbox ex_callback_env) ''r1'' (Some ex_msg) (ex_state, ex_claimed_db)
     = (Inr (), st, d)"
  by (rule recordTaskEvent_accepts [OF ex_claimed_wf ex_report_premises(1,2) _ ex_report_fields(1-9) ex_report_premises(3)
        ex_report_fields(10) ex_dispatch]) simp

lemma ex_report_label:
  "\<exists>st d. step ex_cfg (ex_state, ex_claimed_db) (Reported ''x1'' ''r1'' ''c'') (st, d)"
proof -
  obtain st d where
    "recordTaskEvent ex_event_env (live_outbox ex_callback_env) ''r1'' (Some ex_msg) (ex_state, ex_claimed_db) = (Inr (), st, d)"
    using ex_report_runs by blast
  from step.report [OF this, of ex_cfg] show ?thesis by (auto simp: ex_msg_def)
qed

lemma ex_run: "\<exists>s. run ex_cfg (ex_state, ex_db) [Claimed ''x1'' ''r1'' ''c'', Reported ''x1'' ''r1'' ''c''] s"
proof -
  obtain st d where "step ex_cfg (ex_state, ex_claimed_db) (Reported ''x1'' ''r1'' ''c'') (st, d)"
    using ex_report_label by blast
  then show ?thesis using run.more [OF run.more [OF run.start ex_claim_label]] by fastforce
qed

text \<open>
  C1. Whatever requests, reports and background jobs interleave, and on however many replicas, no
  execution attempt is claimed twice. (In the runs of this section retention does not delete agent
  sessions; see \<open>session_pruning_breaks_references\<close> for what happens when it does.)
\<close>

theorem attempt_claimed_at_most_once:
  assumes "run cfg (st, d) ls (st', d')" and "wf_db d"
  shows "distinct (claims ls)"
  using run_claims_distinct [OF assms(1)] assms(2) by simp

theorem attempt_claimed_at_most_once_witness:
  "\<exists>ls s. run ex_cfg (ex_state, ex_db) ls s \<and> claims ls = [''x1''] \<and> distinct (claims ls)"
proof -
  obtain st d where "run ex_cfg (ex_state, ex_db) [Claimed ''x1'' ''r1'' ''c'', Reported ''x1'' ''r1'' ''c''] (st, d)"
    using ex_run by fastforce
  with attempt_claimed_at_most_once [OF this ex_db_wf(1)] show ?thesis by (intro exI conjI) auto
qed

text \<open>
  C2. In a run, the reports accepted for an execution attempt come from the runner that claimed it,
  under the claim id that claim drew: a runner that lost an attempt, or never had it, cannot write.
\<close>

theorem reports_come_from_claim_holder:
  assumes "run cfg (st, d) ls (st', d')" and "wf_db d"
    and "Claimed i runner claim \<in> set ls" and "Reported i runner' claim' \<in> set ls"
  shows "runner' = runner \<and> claim' = claim"
  using run_owner_unique [OF assms(1) _ assms(3,4)] assms(2) by simp

theorem reports_come_from_claim_holder_witness:
  "\<exists>ls s. run ex_cfg (ex_state, ex_db) ls s \<and> Claimed ''x1'' ''r1'' ''c'' \<in> set ls \<and>
     (\<forall>r c. Reported ''x1'' r c \<in> set ls \<longrightarrow> r = ''r1'' \<and> c = ''c'')"
proof -
  let ?ls = "[Claimed ''x1'' ''r1'' ''c'', Reported ''x1'' ''r1'' ''c'']"
  obtain st d where run: "run ex_cfg (ex_state, ex_db) ?ls (st, d)" using ex_run by fastforce
  have "r = ''r1'' \<and> c = ''c''" if "Reported ''x1'' r c \<in> set ?ls" for r c
    using reports_come_from_claim_holder [OF run ex_db_wf(1) _ that] by simp
  with run show ?thesis by (intro exI conjI) auto
qed

text \<open>
  C3. As long as the retention of artifacts is switched off, so that no agent session is deleted,
  every state a run reaches from a well-formed database is well formed: keys are unique,
  every session, prompt and attempt refers to an existing row, the prompt's task is its session's,
  and all sessions of a task agree on whether they need isolation.
\<close>

theorem runs_keep_database_well_formed:
  assumes "run cfg (st, d) ls (st', d')" and "wf_db d"
  shows "wf_db d'"
  using run_advances [OF assms(1)] assms(2) by (simp add: advances_def)

theorem runs_keep_database_well_formed_witness:
  "\<exists>ls st d. run ex_cfg (ex_state, ex_db) ls (st, d) \<and> ls \<noteq> [] \<and> wf_db d"
proof -
  obtain st d where run: "run ex_cfg (ex_state, ex_db) [Claimed ''x1'' ''r1'' ''c'', Reported ''x1'' ''r1'' ''c''] (st, d)"
    using ex_run by fastforce
  with runs_keep_database_well_formed [OF run ex_db_wf(1)] show ?thesis by (intro exI conjI) auto
qed

text \<open>
  C1. Execution attempts only move forward. In a run, an attempt keeps its id, prompt, sequence
  number, required runner and creation time; once it has left \<open>pending\<close> it does not return, and
  keeps its runner and claim; once it has ended nothing but its session export and the time of the
  last update changes.
\<close>

theorem attempts_move_forward:
  assumes "run cfg (st, d) ls (st', d')" and "a \<in> set (execution_attempts d)"
  shows "\<exists>a'\<in>set (execution_attempts d'). a_fixed a' = a_fixed a \<and>
     (a_status a \<noteq> ''pending'' \<longrightarrow> a_status a' \<noteq> ''pending'' \<and> a_runner_id a' = a_runner_id a \<and> a_claim_id a' = a_claim_id a) \<and>
     (a_status a \<noteq> ''pending'' \<and> a_status a \<noteq> ''running'' \<longrightarrow> a_core a' = a_core a)"
proof -
  have "db_later d d'" using run_advances [OF assms(1)] by (simp add: advances_def)
  from db_later_attempt [OF this assms(2)] show ?thesis
    by (auto simp: attempt_later_def active_attempt_def)
qed

theorem attempts_move_forward_witness:
  "\<exists>ls st d. run ex_cfg (ex_state, ex_db) ls (st, d) \<and> ls \<noteq> [] \<and>
     (\<exists>a\<in>set (execution_attempts d). a_fixed a = a_fixed ex_attempt)"
proof -
  obtain st d where run: "run ex_cfg (ex_state, ex_db) [Claimed ''x1'' ''r1'' ''c'', Reported ''x1'' ''r1'' ''c''] (st, d)"
    using ex_run by fastforce
  have "ex_attempt \<in> set (execution_attempts ex_db)" by (simp add: ex_db_def)
  from attempts_move_forward [OF run this] run show ?thesis by (intro exI conjI) auto
qed

section \<open>The attempt table as a queue\<close>

text \<open>
  C5. Claiming implements the abstract queue: the attempt waits, and afterwards it is held by the
  runner under the claim id that the response carries; no other job of the queue changes.
\<close>

theorem claim_implements_queue:
  assumes "wf_db d" and "claimOnce env (live_outbox cbe) runner lease d = Inr (c, d')"
  shows "queue_claim (a_id (c_Attempt c)) runner (a_claim_id (c_Attempt c)) (queue_of d) = Some (queue_of d')"
  using assms(2,1) by (rule claim_refines)

theorem claim_implements_queue_witness:
  "queue_of ex_db ''x1'' = Some Waiting \<and> queue_of ex_claimed_db ''x1'' = Some (Held ''r1'' ''c'')"
proof -
  obtain c d' where run: "claimOnce ex_claim_env (live_outbox ex_callback_env) ''r1'' (120 * second) ex_db = Inr (c, d')"
    using ex_claim_runs by blast
  then have d': "d' = ex_claimed_db" by (simp add: ex_claimed_db_def)
  have "queue_of ex_claimed_db ''x1'' = Some (Held ''r1'' ''c'')"
    by (simp add: queue_of_def ex_claimed_rows phase_of_def ex_attempt_def nullString_def str_of_def claim_row_def claimed_attempt_def)
  moreover have "queue_of ex_db ''x1'' = Some Waiting"
    by (simp add: queue_of_def ex_db_def phase_of_def ex_attempt_def)
  moreover have "queue_claim (a_id (c_Attempt c)) ''r1'' (a_claim_id (c_Attempt c)) (queue_of ex_db) = Some (queue_of d')"
    by (rule claim_implements_queue [OF ex_db_wf(1) run])
  ultimately show ?thesis by blast
qed

text \<open>
  C6. Recording an event implements the abstract queue: it is accepted only from the holder of the
  job, which ends when the reported status is final and stays with its holder otherwise.
\<close>

theorem report_implements_queue:
  assumes "wf_db d"
    and "recordTaskEvent env (live_outbox cbe) runner (Some ev) (st, d) = (Inr (), st', d')"
  shows "queue_report (ExecutionId ev) runner (ClaimId ev) (sessionTerminalStatuses (event_status ev) \<noteq> None) (queue_of d)
    = Some (queue_of d')"
  using report_refines [OF assms(2,1)] by (simp add: attempt_running_iff_not_terminal)

theorem report_implements_queue_witness:
  "\<exists>st d. recordTaskEvent ex_event_env (live_outbox ex_callback_env) ''r1'' (Some ex_msg) (ex_state, ex_claimed_db) = (Inr (), st, d) \<and>
     queue_of d ''x1'' = Some Ended"
proof -
  obtain st d where run: "recordTaskEvent ex_event_env (live_outbox ex_callback_env) ''r1'' (Some ex_msg)
      (ex_state, ex_claimed_db) = (Inr (), st, d)" using ex_report_runs by blast
  have "sessionTerminalStatuses (event_status ex_msg) \<noteq> None" by code_simp
  then have "queue_report ''x1'' ''r1'' ''c'' True (queue_of ex_claimed_db) = Some (queue_of d)"
    using report_implements_queue [OF ex_claimed_wf run] by (simp add: ex_msg_def)
  then have "(queue_of ex_claimed_db)(''x1'' \<mapsto> Ended) = queue_of d" by (simp add: queue_report_def split: if_split_asm)
  then have "queue_of d ''x1'' = Some Ended" by (metis fun_upd_same)
  with run show ?thesis by blast
qed

section \<open>Progress\<close>

text \<open>
  Work that can be done is done: when a runner that is not draining asks, an eligible attempt
  exists that no concurrent claim holds, and no pending task is past its attempt limit, the claim
  succeeds (fresh identifiers granted).
\<close>

theorem claim_succeeds_when_work_waits:
  assumes "wf_db d" and "runner \<noteq> []" and "\<not> peekRunnerDrainDB runner d"
    and "ce_claim_id env = Some claimID" and "ce_event_id env = Some event_id" "event_id \<notin> e_id ` set (task_events d)"
    and "\<And>cb. cbe_id cbe cb \<noteq> None"
    and "(a, p, t) \<in> set (attempt_task_joins d)" "claimable runner (isolation_of runner d) d (a, p, t)" "\<not> ce_locked env a"
    and "\<And>u. u \<in> set (tasks d) \<Longrightarrow> t_status u = ''pending'' \<Longrightarrow> CountExecutionAttemptsByTask (t_id u) d \<le> t_max_attempts u"
  shows "\<exists>c d'. claimOnce env (live_outbox cbe) runner lease d = Inr (c, d')"
proof -
  have "claimOnce env (live_outbox cbe) runner lease d =
      claim_tx env (live_outbox cbe) runner lease event_id (isolation_of runner d) d"
    using assms(2,3,5) by (rule claimOnce_tx_eq)
  moreover have "\<exists>d'. dispatch (live_outbox cbe) ev x = Inr d'" for ev x
    using dispatch_total [OF assms(7)] not_isl_iff by blast
  ultimately show ?thesis
    using claim_tx_succeeds [OF assms(1,4,6,8,9,10,11)] by simp
qed

theorem claim_succeeds_when_work_waits_witness:
  "\<exists>c d'. claimOnce ex_claim_env (live_outbox ex_callback_env) ''r1'' (120 * second) ex_db = Inr (c, d')"
proof (rule claim_succeeds_when_work_waits [OF ex_db_wf(1), where a = ex_attempt and p = ex_prompt and t = ex_task])
  show "claimable ''r1'' (isolation_of ''r1'' ex_db) ex_db (ex_attempt, ex_prompt, ex_task)" by code_simp
  show "CountExecutionAttemptsByTask (t_id u) ex_db \<le> t_max_attempts u" if "u \<in> set (tasks ex_db)" for u
  proof -
    have "CountExecutionAttemptsByTask (t_id ex_task) ex_db \<le> t_max_attempts ex_task" by code_simp
    with that show ?thesis by (simp add: ex_db_def)
  qed
qed (simp_all add: ex_claim_env_def ex_callback_env_def attempt_task_joins_iff ex_db_def empty_db_def
    peekRunnerDrainDB_def ex_row_defs)

text \<open>
  A live claim is heard: a report from the runner that holds the attempt, under its claim and
  within its lease, for the running task, is accepted (fresh identifiers and a moving clock granted).
\<close>

theorem live_report_is_accepted:
  assumes "wf_db d" and "(a, p, t) \<in> set (attempt_task_joins d)" and "holds_claim (ee_dbnow env) runner ev a"
    and "runner \<noteq> []" "TaskId ev \<noteq> []" "ExecutionId ev \<noteq> []"
    and "t_id t = TaskId ev" "p_agent_session_id p = AgentSessionId ev" "p_id p = UserPromptId ev"
    and "t_status t = ''running''" and "a_updated_at a \<noteq> ee_now env" "t_updated_at t \<noteq> ee_now env"
    and "ee_event_id env = Some event_id" "event_id \<notin> e_id ` set (task_events d)"
    and "str_of (ee_checkpoint_id env) \<notin> k_id ` set (checkpoints d)" and "\<And>cb. cbe_id cbe cb \<noteq> None"
  shows "\<exists>st' d'. recordTaskEvent env (live_outbox cbe) runner (Some ev) (st, d) = (Inr (), st', d')"
  using assms(1-15) dispatch_total [OF assms(16)] by (rule recordTaskEvent_accepts)

theorem live_report_is_accepted_witness:
  "\<exists>st d. recordTaskEvent ex_event_env (live_outbox ex_callback_env) ''r1'' (Some ex_msg) (ex_state, ex_claimed_db)
     = (Inr (), st, d)"
  by (rule live_report_is_accepted [OF ex_claimed_wf ex_report_premises(1,2) _ ex_report_fields(1-9)
        ex_report_premises(3) ex_report_fields(10)]) (simp_all add: ex_callback_env_def)

text \<open>
  C40. A task past its limit of execution attempts blocks the queue of every runner that may take
  it: while its pending attempt is the oldest eligible one, each claim is the same error, and
  nothing in the database changes.
\<close>

theorem over_limit_attempt_blocks_claims:
  assumes "wf_db d" and "runner \<noteq> []" and "\<not> peekRunnerDrainDB runner d" and "ce_event_id env = Some event_id"
    and "GetClaimableExecutionAttemptForUpdate (ce_locked env) runner (isolation_of runner d) d = Inr (a, p, t)"
    and "t_max_attempts t < CountExecutionAttemptsByTask (t_id t) d"
  shows "claimOnce env cbs runner lease d = Inl (Errorf (''task '' @ t_id t @ '' exceeded its execution attempt limit''))"
  using claimOnce_tx_eq [OF assms(2) _ assms(4), of d cbs lease] assms(3) claim_tx_over_limit [OF assms(1,5,6)] by simp

text \<open>The same task with a limit of no attempts at all.\<close>

definition ex_limit_db :: db where
  "ex_limit_db = ex_db\<lparr>tasks := [ex_task\<lparr>t_max_attempts := 0\<rparr>]\<rparr>"

lemma ex_limit_wf: "wf_db ex_limit_db"
  by (simp add: wf_db_def keys_ok_def refs_ok_def isolation_ok_def ex_limit_db_def ex_defs)

theorem over_limit_attempt_blocks_claims_witness:
  "claimOnce ex_claim_env (live_outbox ex_callback_env) ''r1'' (120 * second) ex_limit_db =
     Inl (Errorf ''task t1 exceeded its execution attempt limit'')"
proof -
  let ?d = ex_limit_db
  have "\<not> isl (GetClaimableExecutionAttemptForUpdate (ce_locked ex_claim_env) ''r1'' (isolation_of ''r1'' ?d) ?d)" by code_simp
  then obtain a p t where g: "GetClaimableExecutionAttemptForUpdate (ce_locked ex_claim_env) ''r1'' (isolation_of ''r1'' ?d) ?d = Inr (a, p, t)"
    unfolding not_isl_iff by auto
  have "case GetClaimableExecutionAttemptForUpdate (ce_locked ex_claim_env) ''r1'' (isolation_of ''r1'' ?d) ?d of
      Inl _ \<Rightarrow> False | Inr (a, p, t) \<Rightarrow> t_id t = ''t1'' \<and> t_max_attempts t < CountExecutionAttemptsByTask (t_id t) ?d"
    by code_simp
  then have t: "t_id t = ''t1''" "t_max_attempts t < CountExecutionAttemptsByTask (t_id t) ?d"
    unfolding g sum.case prod.case by blast+
  have "\<not> peekRunnerDrainDB ''r1'' ?d" by code_simp
  then show ?thesis
    using over_limit_attempt_blocks_claims [OF ex_limit_wf _ _ _ g t(2), of "''e1''"] t(1) by (simp add: ex_claim_env_def)
qed

text \<open>
  The long poll of a claim returns: once the clock of some round is past the deadline, that
  round or an earlier one ends the request with a claim, with no work, or with an error.
\<close>

theorem claim_poll_ends:
  assumes "ce_now (snd (world n)) > deadline" and "n < fuel"
  shows "\<exists>r. claim_poll world woken cbs runner lease deadline fuel 0 = Some r"
  using claim_poll_returns [of deadline world 0 n fuel] assms by simp

theorem claim_poll_ends_witness:
  "\<exists>r. claim_poll (\<lambda>i. (empty_db, ex_claim_env\<lparr>ce_now := int i * claimPollInterval\<rparr>)) (\<lambda>_. Some ()) None ''r1'' second
     (30 * second) 4 0 = Some r"
  by (rule claim_poll_ends [where n = 3]) (simp_all add: claimPollInterval_def second_def)

section \<open>Events\<close>



definition ex_secret_state :: rpc_state where
  "ex_secret_state = RegisterRedactSet ''s1'' (Some (NewSet [(''API_TOKEN'', ''hunter2'')])) ex_state"

definition ex_leak :: task_event_msg where
  "ex_leak = ex_msg\<lparr>Summary := ''used hunter2 twice''\<rparr>"


section \<open>Transactions\<close>

text \<open>
  C1. Whatever a call of \<open>withTxRetry\<close> meets, at most one of its runs takes effect, an ambiguous commit
  included; and a call that succeeds returns what its function computed in one transaction that
  committed, on the state that transaction read, with the writes of that run applied once and those
  of no other, the function having run at most three times.
\<close>

theorem tx_success_is_one_commit:
  "length (tx_applied (withTxRetry env fn)) \<le> 1 \<and>
   (\<forall>x. tx_res (withTxRetry env fn) = Inr x \<longrightarrow>
      (\<exists>j<txMaxAttempts. \<exists>d'. fn (snapshot (env j)) = Inr (x, d') \<and> commit_err (env j) = None \<and>
         tx_applied (withTxRetry env fn) = [d'] \<and> tx_runs (withTxRetry env fn) \<le> 3))"
  using withTxRetry_success [of env fn txMaxAttempts 0 "Errorf []"] withTxRetry_runs [of env fn txMaxAttempts 0 "Errorf []"]
    withTxRetry_once [of env fn txMaxAttempts 0 "Errorf []"]
  by (auto simp: withTxRetry_def txMaxAttempts_def)

definition ex_tx_env :: "nat \<Rightarrow> tx_env" where
  "ex_tx_env i = \<lparr>ctx_err = None, begin_err = (if i = 0 then Some (MySQLError 1213 ''Deadlock found'') else None),
     snapshot = ex_db, commit_err = None, commit_applied = True\<rparr>"

theorem tx_success_is_one_commit_witness:
  "tx_res (withTxRetry ex_tx_env (\<lambda>d. Inr (CountPendingTasks d, d\<lparr>tasks := []\<rparr>))) = Inr 1 \<and>
   (\<exists>d'. tx_applied (withTxRetry ex_tx_env (\<lambda>d. Inr (CountPendingTasks d, d\<lparr>tasks := []\<rparr>))) = [d'] \<and> tasks d' = [])"
proof -
  let ?fn = "\<lambda>d. Inr (CountPendingTasks d, d\<lparr>tasks := []\<rparr>)"
  have "case tx_res (withTxRetry ex_tx_env ?fn) of Inl _ \<Rightarrow> False | Inr n \<Rightarrow> n = 1" by code_simp
  then have r: "tx_res (withTxRetry ex_tx_env ?fn) = Inr 1" by (cases "tx_res (withTxRetry ex_tx_env ?fn)") auto
  with tx_success_is_one_commit [of ex_tx_env ?fn] show ?thesis by auto
qed

text \<open>
  C1. \<open>RetryTransient\<close> rides out an outage: if the context lives and the operation fails with
  transient errors at most as often as there are retries and then works, the call succeeds, having
  tried exactly once more than it failed.
\<close>

theorem retry_recovers_from_outage:
  assumes "\<And>i. ctx i = None \<and> cancelled i = None"
    and "\<And>i. i < m \<Longrightarrow> \<exists>e. fn i = Some e \<and> IsTransientError e" and "fn m = None" and "m \<le> transientMaxRetries"
  shows "fst (RetryTransient ctx cancelled fn) = None \<and> fst (snd (RetryTransient ctx cancelled fn)) = Suc m"
  unfolding RetryTransient_def
  using assms by (intro retryTransient_recovers [where k = 0 and m = m]) auto

theorem retry_recovers_from_outage_witness:
  "fst (RetryTransient (\<lambda>_. None) (\<lambda>_. None) (\<lambda>i. if i < 2 then Some (NetOpError ''dial'') else None)) = None"
proof -
  have "IsTransientError (NetOpError ''dial'')" by code_simp
  then show ?thesis
    using retry_recovers_from_outage [of "\<lambda>_. None" "\<lambda>_. None" 2 "\<lambda>i. if i < 2 then Some (NetOpError ''dial'') else None"]
    by (simp add: transientMaxRetries_def)
qed

section \<open>The callback outbox\<close>

text \<open>
  No event is lost for a callback: when the enqueueing that runs inside the transaction of an
  event succeeds, every enabled callback of the event's team or of no team whose pattern matches
  the event type has its delivery row, unless the destination policy refuses its URL. (The random
  identifiers drawn are new and distinct.)
\<close>

theorem outbox_covers_matching_callbacks:
  assumes "EnqueueTaskEventCallbackDeliveries env ev d = Inr d'"
    and "cb \<in> set (ListEnabledEventCallbacksForEvent (nullString (ev_team_id ev)) (ev_event_type ev) d)"
    and "cb_action_type cb = ''webhook'' \<or> cb_action_type cb = ''slack'' \<or> cb_action_type cb = ''create_task''"
    and "\<not> destination_rejected env cb"
    and "distinct (event_callbacks d)" and "inj_on (cbe_id env) (set (event_callbacks d))"
    and "\<And>c. c \<in> set (event_callbacks d) \<Longrightarrow> fresh_id env c d"
  shows "has_delivery cb ev d'"
proof (rule enqueue_all_covers)
  let ?cs = "ListEnabledEventCallbacksForEvent (nullString (ev_team_id ev)) (ev_event_type ev) d"
  have sub: "set ?cs \<subseteq> set (event_callbacks d)" by (auto simp: ListEnabledEventCallbacksForEvent_def sql_order_asc_def)
  show "enqueue_all env ev ?cs d = Inr d'" using assms(1) by (simp add: EnqueueTaskEventCallbackDeliveries_def)
  show "distinct ?cs" using assms(5) by (simp add: ListEnabledEventCallbacksForEvent_def sql_order_asc_def)
  show "inj_on (cbe_id env) (set ?cs)" using assms(6) sub by (rule inj_on_subset)
  show "fresh_id env c d" if "c \<in> set ?cs" for c using assms(7) sub that by blast
qed (use assms in auto)

definition ex_event :: callback_event where
  "ex_event = \<lparr>ev_id = ''e1'', ev_task_id = ''t1'', ev_team_id = [], ev_subject = [], ev_status = ''running'',
     ev_event_type = ''task.claimed'', ev_summary = [], ev_error = [], ev_error_category = [],
     ev_payload = RawJson [], ev_created_at = 0\<rparr>"

theorem outbox_covers_matching_callbacks_witness:
  "\<exists>d'. EnqueueTaskEventCallbackDeliveries ex_callback_env ex_event ex_db = Inr d' \<and> has_delivery ex_callback ex_event d'"
proof -
  have "\<not> isl (EnqueueTaskEventCallbackDeliveries ex_callback_env ex_event ex_db)"
    using ex_dispatch [of ex_event ex_db] by (simp add: dispatch_def)
  then obtain d' where d': "EnqueueTaskEventCallbackDeliveries ex_callback_env ex_event ex_db = Inr d'"
    unfolding not_isl_iff by blast
  have "has_delivery ex_callback ex_event d'"
  proof (rule outbox_covers_matching_callbacks [OF d'])
    show "ex_callback \<in> set (ListEnabledEventCallbacksForEvent (nullString (ev_team_id ex_event)) (ev_event_type ex_event) ex_db)"
      by (simp add: ListEnabledEventCallbacksForEvent_def sql_order_asc_def ex_db_def ex_callback_def ex_event_def event_type_matches_def)
  qed (simp_all add: ex_db_def empty_db_def fresh_id_def delivery_ids_def destination_rejected_def ex_callback_def ex_callback_env_def)
  with d' show ?thesis by blast
qed

text \<open>
  C10. Two workers do not hold the same delivery, of the outbox or of the inbox: what one claim
  returned, none of any number of later claims returns again until the lease of sixty seconds has
  passed, as long as nothing settles the row in between.
\<close>

theorem delivery_lease_is_exclusive:
  assumes "claim_outbox locked now d = (items, d1)" and "claim_all claim_outbox cs d1 = (got, d2)"
    and "distinct (map d_id (callback_deliveries d))" and "list_all (\<lambda>c. snd c \<le> now + callbackDeliveryLease) cs"
    and "claimDueInboundDeliveries locked' now' b = (items', b1)" and "claim_all claimDueInboundDeliveries cs' b1 = (got', b2)"
    and "distinct (map i_id (inbound_deliveries b))" and "list_all (\<lambda>c. snd c \<le> now' + inboundDeliveryLease) cs'"
  shows "list_all (\<lambda>later. d_id ` set items \<inter> d_id ` set later = {}) got \<and>
    list_all (\<lambda>later. i_id ` set items' \<inter> i_id ` set later = {}) got'"
  using outbox_queue.lease_is_exclusive [OF assms(1-4)] inbox_queue.lease_is_exclusive [OF assms(5-8)]
  unfolding list_all_iff by blast

definition ex_delivery :: callback_delivery where
  "ex_delivery = (delivery_row 0 ''d1'' ex_callback ex_event ''webhook'')\<lparr>d_endpoint_url := ''https://h''\<rparr>"

definition ex_outbox_db :: db where
  "ex_outbox_db = ex_db\<lparr>callback_deliveries := [ex_delivery]\<rparr>"

definition ex_inbound_row :: inbound_delivery where
  "ex_inbound_row = inbound_row 0 ''ibd_1'' \<lparr>di_EndpointID = ''inb_1'', di_TeamID = [], di_DeliveryID = ''42'', di_EventType = [],
     di_SourceIP = [], di_Payload = ''{}''\<rparr>"

definition ex_full_inbox :: inbox where
  "ex_full_inbox = \<lparr>webhook_endpoints = [ex_endpoint\<lparr>w_team_id := None\<rparr>], inbound_deliveries = [ex_inbound_row]\<rparr>"

theorem delivery_lease_is_exclusive_witness:
  "map d_id (fst (claim_outbox (\<lambda>_. False) second ex_outbox_db)) = [''d1''] \<and>
   list_all (\<lambda>later. ''d1'' \<notin> d_id ` set later)
     (fst (claim_all claim_outbox [((\<lambda>_. False), 30 * second), ((\<lambda>_. False), 61 * second)]
       (snd (claim_outbox (\<lambda>_. False) second ex_outbox_db))))"
proof -
  let ?cs = "[((\<lambda>_. False), 30 * second), ((\<lambda>_. False), 61 * second)]"
  obtain items d1 where c: "claim_outbox (\<lambda>_. False) second ex_outbox_db = (items, d1)" by fastforce
  obtain got d2 where l: "claim_all claim_outbox ?cs d1 = (got, d2)" by fastforce
  obtain items' b1 where i: "claimDueInboundDeliveries (\<lambda>_. False) second ex_full_inbox = (items', b1)" by fastforce
  have "map d_id (fst (claim_outbox (\<lambda>_. False) second ex_outbox_db)) = [''d1'']" by code_simp
  then have ids: "map d_id items = [''d1'']" by (simp add: c)
  have "list_all (\<lambda>later. d_id ` set items \<inter> d_id ` set later = {}) got"
    using delivery_lease_is_exclusive [OF c l _ _ i, of "[]" "[]" b1]
    by (simp add: ex_outbox_db_def callbackDeliveryLease_def ex_full_inbox_def)
  moreover have "d_id ` set items = {''d1''}" unfolding list.set_map [symmetric] ids by simp
  ultimately show ?thesis unfolding c l fst_conv snd_conv ids by simp
qed

text \<open>
  A cycle of the worker settles what it claimed: afterwards no row of its batch is in flight.
\<close>

theorem cycle_settles_its_claims:
  assumes "claimDueCallbackDeliveries locked now d = Inr (items, d1)"
    and "processDueCallbackDeliveries cfg envs locked now (st, d) = (st', d')"
    and "r \<in> set (callback_deliveries d')" and "d_id r \<in> set (map d_id items)"
  shows "d_status r \<noteq> ''in_flight''"
  using assms deliver_all_settles [of cfg envs items st d1 st' d' r]
  by (simp add: processDueCallbackDeliveries_def)

definition ex_submit_env :: submit_env where
  "ex_submit_env = \<lparr>sv_now = 3 * second, sv_dbnow = 3 * second, sv_task_id = Some ''t9'', sv_session_id = Some ''s9'',
     sv_prompt_id = Some ''p9'', sv_attempt_id = Some ''x9'', sv_event_id = Some ''e8'', sv_run_id = Some ''run9'',
     sv_scope = None, sv_team_by_name = (\<lambda>_. None),
     sv_identity = (\<lambda>agent team url. Inr \<lparr>gi_ID = [], gi_AuthorName = ''bot'', gi_AuthorEmail = ''b''\<rparr>),
     sv_endpoints = (\<lambda>names team. Inr ()), sv_trigger_by_name = (\<lambda>_. None), sv_lock_err = None\<rparr>"

definition ex_delivery_env :: delivery_env where
  "ex_delivery_env = \<lparr>dv_now = 2 * second, dv_submit = ex_submit_env, dv_event_id = Some ''e9'',
     dv_render = (\<lambda>s ev. Inr s), dv_sha256_hex = (\<lambda>s. s), dv_new_request = (\<lambda>m u. None),
     dv_do = (\<lambda>req. StatusCode 200)\<rparr>"

theorem cycle_settles_its_claims_witness:
  "\<exists>st d r. processDueCallbackDeliveries ex_cfg (\<lambda>_. ex_delivery_env) (\<lambda>_. False) second (ex_state, ex_outbox_db) = (st, d) \<and>
     r \<in> set (callback_deliveries d) \<and> d_id r = ''d1'' \<and> d_status r \<noteq> ''in_flight''"
proof -
  obtain items d1 where c: "claimDueCallbackDeliveries (\<lambda>_. False) second ex_outbox_db = Inr (items, d1)"
    by (simp add: claimDueCallbackDeliveries_def Let_def)
  let ?p = "processDueCallbackDeliveries ex_cfg (\<lambda>_. ex_delivery_env) (\<lambda>_. False) second (ex_state, ex_outbox_db)"
  obtain st d where p: "?p = (st, d)" by fastforce
  have "map d_id (due_deliveries (\<lambda>_. False) second ex_outbox_db) = [''d1'']" by code_simp
  with c have ids: "map d_id items = [''d1'']" by (simp add: claimDueCallbackDeliveries_def Let_def)
  have "map d_id (callback_deliveries (snd ?p)) = [''d1'']" by code_simp
  then obtain r where "callback_deliveries d = [r]" "d_id r = ''d1''" unfolding p by auto
  with cycle_settles_its_claims [OF c p, of r] p ids show ?thesis by auto
qed

text \<open>
  C1. A \<open>create_task\<close> delivery spawns at most one task. A delivery that reports success has its
  child task in the database, under the id derived from the row; and delivering the same row
  again, in any later state of the database and with whatever outcome, adds no task.
\<close>

theorem create_task_spawns_once:
  assumes "deliverCreateTaskCallback cfg env r (st, d) = (None, st1, d1)" and "db_later d1 d2"
    and "dv_sha256_hex env' = dv_sha256_hex env"
    and "deliverCreateTaskCallback cfg' env' r (st2, d2) = (e, st3, d3)"
  shows "callbackDeliveryTaskID (dv_sha256_hex env) (d_id r) \<in> t_id ` set (tasks d1) \<and> tasks d3 = tasks d2"
proof -
  let ?child = "callbackDeliveryTaskID (dv_sha256_hex env) (d_id r)"
  have in1: "?child \<in> t_id ` set (tasks d1)"
    using deliver_create_tasks [OF assms(1)] by auto
  then have "?child \<in> t_id ` set (tasks d2)" using later_keys [OF assms(2)] by blast
  then show ?thesis using in1 deliver_create_tasks [OF assms(4)] assms(3) by auto
qed

text \<open>The delivery of a \<open>create_task\<close> callback, in a configuration without reserved prefixes.\<close>

definition ex_create_config :: callbackCreateTaskConfig where
  "ex_create_config = \<lparr>ct_Prompt = ''fix it'', ct_GitURL = [], ct_GitRef = [], ct_AgentImage = [], ct_Agent = [],
     ct_ProviderID = [], ct_ModelID = [], ct_VariantID = [], ct_Harness = [], ct_Skills = [], ct_Env = [], ct_TimeoutSec = 0\<rparr>"

definition ex_create_delivery :: callback_delivery where
  "ex_create_delivery = (delivery_row 0 ''d2'' ex_callback ex_event ''create_task'')
     \<lparr>d_payload := Snapshot ''notify'' ex_create_config ex_event, d_status := ''in_flight'',
      d_lease_expires_at := Some (60 * second)\<rparr>"

definition ex_create_db :: db where
  "ex_create_db = ex_db\<lparr>callback_deliveries := [ex_create_delivery]\<rparr>"

definition ex_open_cfg :: svc_config where
  "ex_open_cfg = ex_cfg\<lparr>EnvValidation := Defaults\<lparr>BlockedPrefixes := []\<rparr>\<rparr>"

definition ex_spawn :: SubmitTaskRequest where
  "ex_spawn = spawn_request ex_create_config ex_event ''notify'' ''fix it'' ex_task 1 (callbackDeliveryTaskID (\<lambda>s. s) ''d2'')"

definition ex_spawn_ready :: SubmitTaskRequest where
  "ex_spawn_ready = (case submit_defaults ex_open_cfg (with_primary_repo ex_spawn) of Inl _ \<Rightarrow> ex_spawn | Inr i \<Rightarrow> i)"

lemma ex_spawn_defaults: "submit_defaults ex_open_cfg (with_primary_repo ex_spawn) = Inr ex_spawn_ready"
proof -
  have "\<not> isl (submit_defaults ex_open_cfg (with_primary_repo ex_spawn))" by code_simp
  then show ?thesis unfolding not_isl_iff ex_spawn_ready_def by auto
qed

lemma ex_spawn_checks: "submit_checks ex_open_cfg (with_primary_repo ex_spawn) = Inr ()"
proof -
  have "\<not> isl (submit_checks ex_open_cfg (with_primary_repo ex_spawn))" by code_simp
  then show ?thesis unfolding not_isl_iff by simp
qed

lemma ex_spawn_fields:
  "resolveOwnerTeamID (sv_scope ex_submit_env) (sv_team_by_name ex_submit_env) (rq_TeamID ex_spawn_ready) (rq_TeamName ex_spawn_ready) = Inr []"
  "taskGitHubMetadata ex_spawn_ready = Inr ([], 0)" "rq_McpEndpoints ex_spawn_ready = []"
  "rq_ExplicitTaskID ex_spawn_ready = callbackDeliveryTaskID (\<lambda>s. s) ''d2''"
  by code_simp+

lemma ex_create_wf: "wf_db ex_create_db"
  using ex_db_wf(1) wf_db_same_tables [of ex_create_db ex_db] by (simp add: ex_create_db_def)

lemma ex_spawn_premises:
  "rq_Prompt ex_spawn \<noteq> []"
  "sv_identity ex_submit_env (rq_Agent ex_spawn_ready) [] (rq_GitURL ex_spawn_ready) =
     Inr \<lparr>gi_ID = [], gi_AuthorName = ''bot'', gi_AuthorEmail = ''b''\<rparr>"
  "callbackDeliveryTaskID (\<lambda>s. s) ''d2'' = (if rq_ExplicitTaskID ex_spawn_ready \<noteq> [] then rq_ExplicitTaskID ex_spawn_ready
     else the (sv_task_id ex_submit_env))"
  "rq_ExplicitTaskID ex_spawn_ready \<noteq> [] \<or> sv_task_id ex_submit_env \<noteq> None"
  "sv_session_id ex_submit_env = Some ''s9''" "sv_prompt_id ex_submit_env = Some ''p9''" "sv_attempt_id ex_submit_env = Some ''x9''"
  "normalizeMcpEndpointNames (rq_McpEndpoints ex_spawn_ready) = [] \<or>
     sv_endpoints ex_submit_env (normalizeMcpEndpointNames (rq_McpEndpoints ex_spawn_ready)) [] = Inr ()"
proof -
  show "rq_Prompt ex_spawn \<noteq> []" by code_simp
qed (simp_all add: ex_spawn_fields ex_submit_env_def normalizeMcpEndpointNames_def)

lemma ex_spawn_fresh:
  "callbackDeliveryTaskID (\<lambda>s. s) ''d2'' \<notin> t_id ` set (tasks ex_create_db)"
  "''s9'' \<notin> s_id ` set (agent_sessions ex_create_db)" "''p9'' \<notin> p_id ` set (user_prompts ex_create_db)"
  "''x9'' \<notin> a_id ` set (execution_attempts ex_create_db)"
proof -
  have "list_all (\<lambda>t. t_id t \<noteq> callbackDeliveryTaskID (\<lambda>s. s) ''d2'') (tasks ex_create_db)" by code_simp
  then show "callbackDeliveryTaskID (\<lambda>s. s) ''d2'' \<notin> t_id ` set (tasks ex_create_db)" by (auto simp: list_all_iff)
qed (simp_all add: ex_create_db_def ex_db_def ex_row_defs)

lemma ex_open_admits: "MaxPendingTasks ex_open_cfg \<le> 0 \<or>
    (sv_lock_err ex_submit_env = None \<and> CountPendingTasks ex_create_db < MaxPendingTasks ex_open_cfg)"
  by (simp add: ex_open_cfg_def ex_cfg_def)

lemmas ex_submit_premises = ex_spawn_premises(1) ex_spawn_checks ex_spawn_defaults ex_spawn_fields(1,2) ex_spawn_premises(2-8)

lemma ex_spawn_submits: "\<exists>t st d. SubmitTask ex_open_cfg ex_submit_env ex_spawn (ex_state, ex_create_db) = Inr (t, st, d)"
  by (rule SubmitTask_accepts [OF ex_create_wf ex_submit_premises ex_open_admits ex_spawn_fresh])

lemma ex_spawn_runs:
  "\<exists>st d. spawnCreateTaskFromEvent ex_open_cfg ex_delivery_env ex_event ''notify'' ex_create_config
     (callbackDeliveryTaskID (\<lambda>s. s) ''d2'') (ex_state, ex_create_db) = (None, st, d)"
proof -
  obtain t st d where sub: "SubmitTask ex_open_cfg ex_submit_env ex_spawn (ex_state, ex_create_db) = Inr (t, st, d)"
    using ex_spawn_submits by blast
  have src: "GetTaskByID (ev_task_id ex_event) ex_create_db = Inr ex_task"
    by (simp add: GetTaskByID_def sql_one_def ex_create_db_def ex_db_def ex_event_def ex_task_def)
  have n: "to_int32 (t_callback_depth ex_task + 1) = 1" "\<not> depth_exceeded ex_open_cfg 1" by code_simp+
  show ?thesis
    using sub unfolding spawnCreateTaskFromEvent_def
    by (simp add: src n Let_def ex_delivery_env_def ex_create_config_def ex_spawn_def)
qed

lemma ex_create_delivers:
  "\<exists>st d. deliverCreateTaskCallback ex_open_cfg ex_delivery_env ex_create_delivery (ex_state, ex_create_db) = (None, st, d)"
proof -
  obtain st d where sp: "spawnCreateTaskFromEvent ex_open_cfg ex_delivery_env ex_event ''notify'' ex_create_config
     (callbackDeliveryTaskID (\<lambda>s. s) ''d2'') (ex_state, ex_create_db) = (None, st, d)" using ex_spawn_runs by blast
  have fields: "d_payload ex_create_delivery = Snapshot ''notify'' ex_create_config ex_event" "d_id ex_create_delivery = ''d2''"
    by (simp_all add: ex_create_delivery_def)
  have sha: "dv_sha256_hex ex_delivery_env = (\<lambda>s. s)" by (simp add: ex_delivery_env_def)
  show ?thesis unfolding deliverCreateTaskCallback_def by (simp add: fields sha sp Let_def)
qed

theorem create_task_spawns_once_witness:
  "\<exists>st1 d1 e st2 d2.
     deliverCreateTaskCallback ex_open_cfg ex_delivery_env ex_create_delivery (ex_state, ex_create_db) = (None, st1, d1) \<and>
     deliverCreateTaskCallback ex_open_cfg ex_delivery_env ex_create_delivery (st1, d1) = (e, st2, d2) \<and>
     callbackDeliveryTaskID (\<lambda>s. s) ''d2'' \<in> t_id ` set (tasks d1) \<and> tasks d2 = tasks d1"
proof -
  obtain st1 d1 where one: "deliverCreateTaskCallback ex_open_cfg ex_delivery_env ex_create_delivery (ex_state, ex_create_db)
      = (None, st1, d1)" using ex_create_delivers by blast
  obtain e st2 d2 where two: "deliverCreateTaskCallback ex_open_cfg ex_delivery_env ex_create_delivery (st1, d1) = (e, st2, d2)"
    by (cases "deliverCreateTaskCallback ex_open_cfg ex_delivery_env ex_create_delivery (st1, d1)") auto
  have "d_id ex_create_delivery = ''d2''" "dv_sha256_hex ex_delivery_env = (\<lambda>s. s)"
    by (simp_all add: ex_create_delivery_def ex_delivery_env_def)
  with create_task_spawns_once [OF one db_later_refl refl two] one two show ?thesis by auto
qed

text \<open>
  The chain of tasks that callbacks spawn from callbacks is bounded: with a positive limit, no
  spawn creates a task deeper than the limit, whatever the event and the callback.
\<close>

theorem callback_depth_stays_bounded:
  assumes "depth_ok cfg d" and "0 < CallbackMaxDepth cfg" and "CallbackMaxDepth cfg < 2 ^ 31 - 1"
  shows "depth_ok cfg (snd (snd (spawnCreateTaskFromEvent cfg env ev name ct eid (st, d))))"
  using assms spawn_depth [of cfg env ev name ct eid st d]
  by (cases "spawnCreateTaskFromEvent cfg env ev name ct eid (st, d)") auto

theorem callback_depth_stays_bounded_witness:
  "\<exists>st d. spawnCreateTaskFromEvent ex_open_cfg ex_delivery_env ex_event ''notify'' ex_create_config
     (callbackDeliveryTaskID (\<lambda>s. s) ''d2'') (ex_state, ex_create_db) = (None, st, d) \<and> depth_ok ex_open_cfg d"
proof -
  obtain st d where sp: "spawnCreateTaskFromEvent ex_open_cfg ex_delivery_env ex_event ''notify'' ex_create_config
     (callbackDeliveryTaskID (\<lambda>s. s) ''d2'') (ex_state, ex_create_db) = (None, st, d)" using ex_spawn_runs by blast
  have ok: "depth_ok ex_open_cfg ex_create_db" "0 < CallbackMaxDepth ex_open_cfg" "CallbackMaxDepth ex_open_cfg < 2 ^ 31 - 1"
    by (simp_all add: depth_ok_def ex_open_cfg_def ex_cfg_def ex_create_db_def ex_db_def ex_task_def)
  with callback_depth_stays_bounded [OF ok, where env = ex_delivery_env and ev = ex_event and name = "''notify''"
      and ct = ex_create_config and eid = "callbackDeliveryTaskID (\<lambda>s. s) ''d2''" and st = ex_state] sp show ?thesis by auto
qed

text \<open>
  C1. With the default blocked prefixes no \<open>create_task\<close> callback can ever spawn a task: the
  variables the worker itself adds to the environment carry the reserved prefix \<open>CHETTER_\<close>, which
  the validation of the submission rejects.
\<close>

theorem default_prefixes_block_create_task:
  assumes "EnvValidation cfg = Defaults"
  shows "case spawnCreateTaskFromEvent cfg env ev name ct eid (st, d) of (e, st', d') \<Rightarrow> e \<noteq> None \<and> tasks d' = tasks d"
proof -
  have "''CHETTER_'' \<in> set (BlockedPrefixes (EnvValidation cfg))" using assms by (simp add: Defaults_def)
  then show ?thesis
    using spawn_blocked by (cases "spawnCreateTaskFromEvent cfg env ev name ct eid (st, d)") blast
qed

theorem default_prefixes_block_create_task_witness:
  "EnvValidation ex_cfg = Defaults \<and>
   fst (spawnCreateTaskFromEvent ex_cfg ex_delivery_env ex_event ''notify'' ex_create_config ''t2'' (ex_state, ex_create_db)) \<noteq> None"
proof -
  have e: "EnvValidation ex_cfg = Defaults" by (simp add: ex_cfg_def)
  with default_prefixes_block_create_task [OF e, where env = ex_delivery_env and ev = ex_event and name = "''notify''"
      and ct = ex_create_config and eid = "''t2''" and st = ex_state and d = ex_create_db]
  show ?thesis by (auto split: prod.split_asm)
qed

text \<open>
  Retention never removes work: whatever the configuration, the jobs keep every task, prompt and
  attempt, and every delivery that is not settled.
\<close>

theorem retention_keeps_live_work:
  assumes "r \<in> set (callback_deliveries d)" and "\<not> callback_terminal (d_status r)"
  shows "r \<in> set (callback_deliveries (pruneRetainedRows faults now cfg d)) \<and>
    tasks (pruneRetainedRows faults now cfg d) = tasks d \<and> user_prompts (pruneRetainedRows faults now cfg d) = user_prompts d \<and>
    execution_attempts (pruneRetainedRows faults now cfg d) = execution_attempts d"
  using run_prune_live [OF assms] prune_keeps by (simp add: pruneRetainedRows_def)

theorem retention_keeps_live_work_witness:
  "ex_delivery \<in> set (callback_deliveries (pruneRetainedRows (\<lambda>_ _. None) (500 * 24 * hour)
       \<lparr>EventsRetentionDays = 30, AuditRetentionDays = 30, ArtifactRetentionDays = 30, DeliveryRetentionDays = 30\<rparr>
       (ex_db\<lparr>callback_deliveries := [ex_delivery]\<rparr>)))"
proof -
  have m: "ex_delivery \<in> set (callback_deliveries (ex_db\<lparr>callback_deliveries := [ex_delivery]\<rparr>))" by simp
  have n: "\<not> callback_terminal (d_status ex_delivery)" by (simp add: ex_delivery_def delivery_row_def callback_terminal_def)
  from retention_keeps_live_work [OF m n, where faults = "\<lambda>_ _. None"] show ?thesis by blast
qed

text \<open>
  With the retention of artifacts switched on, pruning breaks references: it deletes every agent
  session created before the cutoff, whatever its status, so a prompt of such a session, also of a
  task that still runs, refers to nothing afterwards.
\<close>

theorem session_pruning_breaks_references:
  assumes "0 < ArtifactRetentionDays cfg" and "s \<in> set (agent_sessions d)" and "distinct (map s_id (agent_sessions d))"
    and "s_created_at s < now - days (ArtifactRetentionDays cfg)" and "p \<in> set (user_prompts d)" and "p_agent_session_id p = s_id s"
  shows "s_id s \<notin> s_id ` set (agent_sessions (pruneRetainedRows (\<lambda>_ _. None) now cfg d)) \<and>
    p \<in> set (user_prompts (pruneRetainedRows (\<lambda>_ _. None) now cfg d)) \<and> \<not> wf_db (pruneRetainedRows (\<lambda>_ _. None) now cfg d)"
proof -
  let ?d = "pruneRetainedRows (\<lambda>_ _. None) now cfg d"
  have "\<lparr>pj_table = ''agent_sessions'', pj_ttl = days (ArtifactRetentionDays cfg), pj_terminalOnly = False\<rparr> \<in> set (pruneJobs cfg)"
    "0 < days (ArtifactRetentionDays cfg)"
    using assms(1) by (simp_all add: pruneJobs_def days_def hour_def second_def)
  then have "s' \<notin> set (agent_sessions ?d)" if "s_created_at s' < now - days (ArtifactRetentionDays cfg)" for s'
    using that unfolding pruneRetainedRows_def pruned_sessions by fastforce
  moreover have "set (agent_sessions ?d) \<subseteq> set (agent_sessions d)" unfolding pruneRetainedRows_def pruned_sessions by auto
  ultimately have gone: "s_id s \<notin> s_id ` set (agent_sessions ?d)"
    using assms(2-4) by (auto simp: distinct_map dest!: subsetD dest: inj_onD)
  moreover have stays: "p \<in> set (user_prompts ?d)" using assms(5) prune_keeps by (simp add: pruneRetainedRows_def)
  moreover have "\<not> wf_db ?d" using gone stays assms(6) unfolding wf_db_def refs_ok_def by (metis imageI)
  ultimately show ?thesis by blast
qed

theorem session_pruning_breaks_references_witness:
  "wf_db ex_db \<and> t_status ex_task = ''pending'' \<and>
   \<not> wf_db (pruneRetainedRows (\<lambda>_ _. None) (500 * 24 * hour)
       \<lparr>EventsRetentionDays = 0, AuditRetentionDays = 0, ArtifactRetentionDays = 30, DeliveryRetentionDays = 0\<rparr> ex_db)"
proof -
  let ?cfg = "\<lparr>EventsRetentionDays = 0, AuditRetentionDays = 0, ArtifactRetentionDays = 30, DeliveryRetentionDays = 0\<rparr>"
  let ?s = "hd (agent_sessions ex_db)" and ?p = "hd (user_prompts ex_db)"
  have rows: "?s \<in> set (agent_sessions ex_db)" "?p \<in> set (user_prompts ex_db)" "p_agent_session_id ?p = s_id ?s"
    "s_created_at ?s < 500 * 24 * hour - days (ArtifactRetentionDays ?cfg)" "0 < ArtifactRetentionDays ?cfg" "t_status ex_task = ''pending''"
    by (simp_all add: ex_db_def ex_row_defs days_def hour_def second_def)
  have "distinct (map s_id (agent_sessions ex_db))" using ex_db_wf(1) by (simp add: wf_db_def keys_ok_def)
  from session_pruning_breaks_references [OF rows(5,1) this rows(4,2,3)] ex_db_wf(1) rows(6) show ?thesis by blast
qed

text \<open>
  A drained runner gets no work: from the moment its drain is requested, whatever is pending, a
  claim of that runner finds nothing and leaves the database alone, while the claims of the other
  runners do not see the request.
\<close>

theorem drained_runner_claims_nothing:
  assumes "runner \<noteq> []" and "ce_peek_err env = None"
  shows "claimOnce env cbs runner lease (requestRunnerDrainDB now runner d) = Inl ErrNoClaimableTask \<and>
    (runner' \<noteq> runner \<longrightarrow> peekRunnerDrainDB runner' (requestRunnerDrainDB now runner d) = peekRunnerDrainDB runner' d)"
  using claim_drained [OF assms peek_after_request] peek_request_other by blast

theorem drained_runner_claims_nothing_witness:
  "claimOnce ex_claim_env (live_outbox ex_callback_env) ''r1'' (120 * second) (requestRunnerDrainDB 0 ''r1'' ex_db) = Inl ErrNoClaimableTask \<and>
   (\<exists>c d'. claimOnce ex_claim_env (live_outbox ex_callback_env) ''r1'' (120 * second) ex_db = Inr (c, d'))"
proof -
  have p: "ce_peek_err ex_claim_env = None" by (simp add: ex_claim_env_def)
  from drained_runner_claims_nothing [OF _ p, where runner = "''r1''"] ex_claim_runs show ?thesis by simp
qed

section \<open>Submissions\<close>

text \<open>
  C13. A valid submission is stored: when the checks pass, the ids drawn are fresh and the queue is not
  full, the submission succeeds. It appends one task row, the one it returns, pending, under the id
  chosen (the explicit one, if any), with the prompt of the submission (preceded by the note on
  checked out repositories) and the team resolved; one session of that task; one pending prompt of
  that session; and one pending attempt of that prompt for a runner to claim. The database stays
  well-formed.
\<close>

theorem valid_submission_is_stored:
  assumes "wf_db d" and "rq_Prompt inp \<noteq> []"
    and "submit_checks cfg (with_primary_repo inp) = Inr ()" and "submit_defaults cfg (with_primary_repo inp) = Inr inp2"
    and "resolveOwnerTeamID (sv_scope env) (sv_team_by_name env) (rq_TeamID inp2) (rq_TeamName inp2) = Inr team"
    and "taskGitHubMetadata inp2 = Inr meta"
    and "sv_identity env (rq_Agent inp2) team (rq_GitURL inp2) = Inr identity"
    and "tid = (if rq_ExplicitTaskID inp2 \<noteq> [] then rq_ExplicitTaskID inp2 else the (sv_task_id env))"
      "rq_ExplicitTaskID inp2 \<noteq> [] \<or> sv_task_id env \<noteq> None"
    and "sv_session_id env = Some sid" "sv_prompt_id env = Some pid" "sv_attempt_id env = Some aid"
    and "normalizeMcpEndpointNames (rq_McpEndpoints inp2) = [] \<or>
         sv_endpoints env (normalizeMcpEndpointNames (rq_McpEndpoints inp2)) team = Inr ()"
    and "MaxPendingTasks cfg \<le> 0 \<or> (sv_lock_err env = None \<and> CountPendingTasks d < MaxPendingTasks cfg)"
    and "tid \<notin> t_id ` set (tasks d)" "sid \<notin> s_id ` set (agent_sessions d)"
      "pid \<notin> p_id ` set (user_prompts d)" "aid \<notin> a_id ` set (execution_attempts d)"
  shows "\<exists>t s p a st' d'. SubmitTask cfg env inp (st, d) = Inr (t, st', d') \<and> wf_db d' \<and>
    tasks d' = tasks d @ [t] \<and> t_id t = tid \<and> t_status t = ''pending'' \<and> t_prompt t = submit_prompt tid inp2 \<and>
      t_team_id t = nullString team \<and>
    agent_sessions d' = agent_sessions d @ [s] \<and> s_id s = sid \<and> s_task_id s = tid \<and>
    user_prompts d' = user_prompts d @ [p] \<and> p_id p = pid \<and> p_agent_session_id p = sid \<and> p_task_id p = tid \<and>
      p_prompt p = submit_prompt tid inp2 \<and> p_status p = ''pending'' \<and>
    execution_attempts d' = execution_attempts d @ [a] \<and> a_id a = aid \<and> a_user_prompt_id a = pid \<and> a_status a = ''pending''"
proof -
  obtain t st' d' where run: "SubmitTask cfg env inp (st, d) = Inr (t, st', d')"
    using SubmitTask_accepts [OF assms] by blast
  then have "wf_db d'" using SubmitTask_advances assms(1) unfolding advances_def by blast
  moreover obtain d1 where tx: "submit_tx cfg (sv_now env) tid sid pid aid team (fst meta) (snd meta) identity
      (inp2\<lparr>rq_Prompt := submit_prompt tid inp2\<rparr>) d = Inr (t, d1)"
    and d': "d' = record_trigger_run env tid team (inp2\<lparr>rq_Prompt := submit_prompt tid inp2\<rparr>) (notifyTaskClaimable d1)"
    using SubmitTask_stores [OF assms(2-13) run] by blast
  moreover have "tasks d' = tasks d1"
    unfolding d' by (simp add: record_trigger_run_def InsertTriggerRun_def notifyTaskClaimable_def bumpClaimNotifyCounter_def split: option.splits)
  ultimately show ?thesis using run submit_tx_rows [OF tx] unfolding d' after_commit_frame by auto
qed

theorem valid_submission_is_stored_witness:
  "\<exists>t st' d' a. SubmitTask ex_open_cfg ex_submit_env ex_spawn (ex_state, ex_create_db) = Inr (t, st', d') \<and>
     tasks d' = [ex_task, t] \<and> t_status t = ''pending'' \<and> execution_attempts d' = [ex_attempt, a] \<and> a_status a = ''pending'' \<and> wf_db d'"
  using valid_submission_is_stored [OF ex_create_wf ex_submit_premises ex_open_admits ex_spawn_fresh, of ex_state]
  by (auto simp: ex_create_db_def ex_db_def)

text \<open>
  C14. The queue of pending tasks never grows past the configured limit: after a submission, a rerun, a
  resumed session or a recovered task that succeeds, at most that many tasks are pending.
\<close>

theorem pending_queue_is_bounded:
  assumes "0 < MaxPendingTasks cfg" and "wf_db d"
  shows "(SubmitTask cfg env inp (st, d) = Inr (t, st', d') \<longrightarrow> CountPendingTasks d' \<le> MaxPendingTasks cfg)
    \<and> (RerunTask cfg env tid d = Inr (newID, d') \<longrightarrow> CountPendingTasks d' \<le> MaxPendingTasks cfg)
    \<and> (ResumeAgentSession cfg env sid prompt timeout d = Inr (r, d') \<longrightarrow> CountPendingTasks d' \<le> MaxPendingTasks cfg)
    \<and> (RecoverTask cfg env (live_outbox cenv) tid custom d = Inr (u, d') \<longrightarrow> CountPendingTasks d' \<le> MaxPendingTasks cfg)"
  by (intro conjI impI) (erule SubmitTask_bound RerunTask_bound ResumeAgentSession_bound outbox.RecoverTask_bound; rule assms)+

definition ex_two_cfg :: svc_config where
  "ex_two_cfg = ex_open_cfg\<lparr>MaxPendingTasks := 2\<rparr>"

lemma ex_limit_irrelevant:
  "submit_checks (ex_open_cfg\<lparr>MaxPendingTasks := n\<rparr>) (with_primary_repo ex_spawn) = Inr ()"
  "submit_defaults (ex_open_cfg\<lparr>MaxPendingTasks := n\<rparr>) (with_primary_repo ex_spawn) = Inr ex_spawn_ready"
proof -
  have "submit_checks (ex_open_cfg\<lparr>MaxPendingTasks := n\<rparr>) r = submit_checks ex_open_cfg r"
    "submit_defaults (ex_open_cfg\<lparr>MaxPendingTasks := n\<rparr>) r = submit_defaults ex_open_cfg r" for r
    by (simp_all add: submit_checks_def submit_defaults_def cong: option.case_cong)
  then show "submit_checks (ex_open_cfg\<lparr>MaxPendingTasks := n\<rparr>) (with_primary_repo ex_spawn) = Inr ()"
    "submit_defaults (ex_open_cfg\<lparr>MaxPendingTasks := n\<rparr>) (with_primary_repo ex_spawn) = Inr ex_spawn_ready"
    using ex_spawn_checks ex_spawn_defaults by simp_all
qed

lemmas ex_limit_premises = ex_spawn_premises(1) ex_limit_irrelevant ex_spawn_fields(1,2) ex_spawn_premises(2-8)

theorem pending_queue_is_bounded_witness:
  "\<exists>t st d. SubmitTask ex_two_cfg ex_submit_env ex_spawn (ex_state, ex_create_db) = Inr (t, st, d) \<and> CountPendingTasks d \<le> 2"
proof -
  have adm: "MaxPendingTasks ex_two_cfg \<le> 0 \<or>
    (sv_lock_err ex_submit_env = None \<and> CountPendingTasks ex_create_db < MaxPendingTasks ex_two_cfg)" by code_simp
  obtain t st d where run: "SubmitTask ex_two_cfg ex_submit_env ex_spawn (ex_state, ex_create_db) = Inr (t, st, d)"
    using SubmitTask_accepts [OF ex_create_wf ex_limit_premises adm [unfolded ex_two_cfg_def] ex_spawn_fresh]
    unfolding ex_two_cfg_def by blast
  have m: "MaxPendingTasks ex_two_cfg = 2" by (simp add: ex_two_cfg_def)
  with run pending_queue_is_bounded [of ex_two_cfg, OF _ ex_create_wf] show ?thesis by auto
qed

text \<open>
  C1. A full queue loses \<open>create_task\<close> deliveries: the error that asks the caller to retry when
  capacity frees up counts as permanent, so the worker moves the delivery to the dead letters on
  its first attempt.
\<close>

theorem full_queue_dead_letters_delivery:
  assumes "d_action_type r = ''create_task''" and "d_payload r = Snapshot name ct ev"
    and "fst (spawnCreateTaskFromEvent cfg env ev name ct (callbackDeliveryTaskID (dv_sha256_hex env) (d_id r)) (st, d))
       = Some (PendingTaskCapacity limit current)"
    and "x \<in> set (callback_deliveries d)" and "d_id x = d_id r" and "d_status x = ''in_flight''"
  shows "\<exists>y\<in>set (callback_deliveries (snd (snd (deliverCallbackDelivery cfg env r (st, d))))).
    d_id y = d_id r \<and> d_status y = ''dead_letter'' \<and> d_next_attempt_at y = None"
proof -
  let ?f = "failed r (dv_now env) True (PendingTaskCapacity limit current)"
  have "?f x \<in> set (callback_deliveries (snd (snd (deliverCallbackDelivery cfg env r (st, d)))))"
    unfolding full_queue_rows [OF assms(1-3)] using assms(4-6) by (auto simp: sql_update_def)
  moreover have "d_id (?f x) = d_id r" "d_status (?f x) = ''dead_letter''" "d_next_attempt_at (?f x) = None"
    using assms(5) by (simp_all add: failed_def Let_def)
  ultimately show ?thesis by blast
qed

lemma ex_full_queue:
  "fst (spawnCreateTaskFromEvent (ex_open_cfg\<lparr>MaxPendingTasks := 1\<rparr>) ex_delivery_env ex_event ''notify'' ex_create_config
     (callbackDeliveryTaskID (\<lambda>s. s) ''d2'') (ex_state, ex_create_db)) = Some (PendingTaskCapacity 1 1)"
proof -
  let ?cfg = "ex_open_cfg\<lparr>MaxPendingTasks := 1\<rparr>"
  have full: "CountPendingTasks ex_create_db = 1" "sv_lock_err ex_submit_env = None" by code_simp+
  have sub: "SubmitTask ?cfg ex_submit_env ex_spawn (ex_state, ex_create_db) = Inl (PendingTaskCapacity 1 1)"
    using SubmitTask_eq [OF ex_limit_premises, of 1 ex_state ex_create_db] full by (auto simp: withPendingTaskAdmission_def)
  have src: "GetTaskByID (ev_task_id ex_event) ex_create_db = Inr ex_task"
    by (simp add: GetTaskByID_def sql_one_def ex_create_db_def ex_db_def ex_event_def ex_task_def)
  have n: "to_int32 (t_callback_depth ex_task + 1) = 1" "\<not> depth_exceeded ?cfg 1" by code_simp+
  show ?thesis
    using sub unfolding spawnCreateTaskFromEvent_def
    by (simp add: src n Let_def ex_delivery_env_def ex_create_config_def ex_spawn_def)
qed

theorem full_queue_dead_letters_delivery_witness:
  "\<exists>y\<in>set (callback_deliveries (snd (snd (deliverCallbackDelivery (ex_open_cfg\<lparr>MaxPendingTasks := 1\<rparr>) ex_delivery_env
      ex_create_delivery (ex_state, ex_create_db))))). d_id y = ''d2'' \<and> d_status y = ''dead_letter''"
proof -
  have f: "d_payload ex_create_delivery = Snapshot ''notify'' ex_create_config ex_event" "d_id ex_create_delivery = ''d2''"
    "d_action_type ex_create_delivery = ''create_task''" "d_status ex_create_delivery = ''in_flight''"
    "ex_create_delivery \<in> set (callback_deliveries ex_create_db)" "dv_sha256_hex ex_delivery_env = (\<lambda>s. s)"
    by (simp_all add: ex_create_delivery_def ex_create_db_def ex_delivery_env_def delivery_row_def)
  from full_queue_dead_letters_delivery [OF f(3,1) _ f(5) refl f(4), of "ex_open_cfg\<lparr>MaxPendingTasks := 1\<rparr>" ex_delivery_env ex_state 1 1]
    ex_full_queue f(2,6) show ?thesis by auto
qed

section \<open>Inbound webhooks\<close>

text \<open>
  C25. An inbound delivery creates at most one task. Processing it adds no task, or one pending
  task under the id derived from the row, which no task had; and once that task is in the
  database, processing the row again in any later state, by any worker, adds nothing.
\<close>

theorem inbound_delivery_creates_one_task:
  assumes "processInboundDelivery cfg env r (st, d, b) = (e, st1, d1, b1)" and "db_later d1 d2"
    and "iw_sha256_hex env' = iw_sha256_hex env" and "i_id r' = i_id r"
    and "processInboundDelivery cfg' env' r' (st2, d2, b2) = (e', st3, d3, b3)"
    and "tid = inboundDeliveryTaskID (iw_sha256_hex env) (i_id r)"
  shows "(tasks d1 = tasks d \<or> (\<exists>row. tasks d1 = tasks d @ [row] \<and> t_id row = tid \<and> t_status row = ''pending'' \<and> tid \<notin> t_id ` set (tasks d))) \<and>
    (tid \<in> t_id ` set (tasks d1) \<longrightarrow> tasks d3 = tasks d2)"
proof -
  have "inbound_task env r = tid" "inbound_task env' r' = tid" using assms(3,4,6) by (simp_all add: inbound_task_def)
  with process_tasks [OF assms(1)] process_tasks [OF assms(5)] later_keys [OF assms(2)] show ?thesis by auto
qed

definition ex_inbound_env :: "unit inbound_env" where
  "ex_inbound_env = \<lparr>iw_now = 2 * second, iw_submit = ex_submit_env, iw_object = (\<lambda>_. None), iw_value = (\<lambda>_. ()),
     iw_render = (\<lambda>s d. Inr s), iw_sha256_hex = (\<lambda>s. s), iw_load_err = None, iw_mark_err = None\<rparr>"

definition ex_inbound_task :: string where
  "ex_inbound_task = inboundDeliveryTaskID (\<lambda>s. s) ''ibd_1''"

definition ex_inbound_request :: SubmitTaskRequest where
  "ex_inbound_request = inbound_request (ex_endpoint\<lparr>w_team_id := None\<rparr>) ''fix'' ex_inbound_task"

definition ex_inbound_ready :: SubmitTaskRequest where
  "ex_inbound_ready = (case submit_defaults ex_open_cfg (with_primary_repo ex_inbound_request) of Inl _ \<Rightarrow> ex_inbound_request | Inr i \<Rightarrow> i)"

lemma ex_inbound_checks:
  "submit_checks ex_open_cfg (with_primary_repo ex_inbound_request) = Inr ()"
  "submit_defaults ex_open_cfg (with_primary_repo ex_inbound_request) = Inr ex_inbound_ready"
proof -
  have "\<not> isl (submit_checks ex_open_cfg (with_primary_repo ex_inbound_request))"
    "\<not> isl (submit_defaults ex_open_cfg (with_primary_repo ex_inbound_request))" by code_simp+
  then show "submit_checks ex_open_cfg (with_primary_repo ex_inbound_request) = Inr ()"
    "submit_defaults ex_open_cfg (with_primary_repo ex_inbound_request) = Inr ex_inbound_ready"
    unfolding not_isl_iff ex_inbound_ready_def by auto
qed

lemma ex_inbound_fields:
  "resolveOwnerTeamID (sv_scope ex_submit_env) (sv_team_by_name ex_submit_env) (rq_TeamID ex_inbound_ready) (rq_TeamName ex_inbound_ready) = Inr []"
  "taskGitHubMetadata ex_inbound_ready = Inr ([], 0)" "rq_McpEndpoints ex_inbound_ready = []"
  "rq_ExplicitTaskID ex_inbound_ready = ex_inbound_task" "rq_Prompt ex_inbound_request \<noteq> []" "ex_inbound_task \<noteq> []"
  "list_all (\<lambda>t. t_id t \<noteq> ex_inbound_task) (tasks ex_create_db)"
  by code_simp+

lemma ex_inbound_submits:
  "\<exists>t st d. SubmitTask ex_open_cfg ex_submit_env ex_inbound_request (ex_state, ex_create_db) = Inr (t, st, d)"
proof (rule SubmitTask_accepts [OF ex_create_wf ex_inbound_fields(5) ex_inbound_checks ex_inbound_fields(1,2) _ _ _ _ _ _ _ ex_open_admits])
  show "ex_inbound_task \<notin> t_id ` set (tasks ex_create_db)" using ex_inbound_fields(7) by (auto simp: list_all_iff)
qed (use ex_spawn_fresh in \<open>simp_all add: ex_inbound_fields ex_submit_env_def normalizeMcpEndpointNames_def\<close>)

theorem inbound_delivery_creates_one_task_witness:
  "\<exists>e st1 d1 b1 e' st3 d3 b3 row.
     processInboundDelivery ex_open_cfg ex_inbound_env ex_inbound_row (ex_state, ex_create_db, ex_full_inbox) = (e, st1, d1, b1) \<and>
     processInboundDelivery ex_open_cfg ex_inbound_env ex_inbound_row (st1, d1, b1) = (e', st3, d3, b3) \<and>
     tasks d1 = tasks ex_create_db @ [row] \<and> t_id row = ex_inbound_task \<and> tasks d3 = tasks d1"
proof -
  let ?one = "processInboundDelivery ex_open_cfg ex_inbound_env ex_inbound_row (ex_state, ex_create_db, ex_full_inbox)"
  obtain e st1 d1 b1 where one: "?one = (e, st1, d1, b1)" by (cases ?one) auto
  obtain e' st3 d3 b3 where two: "processInboundDelivery ex_open_cfg ex_inbound_env ex_inbound_row (st1, d1, b1) = (e', st3, d3, b3)"
    by (cases "processInboundDelivery ex_open_cfg ex_inbound_env ex_inbound_row (st1, d1, b1)") auto
  obtain t st d where sub: "SubmitTask ex_open_cfg ex_submit_env ex_inbound_request (ex_state, ex_create_db) = Inr (t, st, d)"
    using ex_inbound_submits by blast
  have load: "loadInboundEndpoint ex_inbound_env (i_endpoint_id ex_inbound_row) ex_full_inbox = Inr (Some (ex_endpoint\<lparr>w_team_id := None\<rparr>))"
    "renderInboundPrompt ex_inbound_env (ex_endpoint\<lparr>w_team_id := None\<rparr>) ex_inbound_row = Inr ''fix''"
    "iw_sha256_hex ex_inbound_env = (\<lambda>s. s)" "i_id ex_inbound_row = ''ibd_1''" "worker_submit ex_inbound_env = ex_submit_env"
    by (simp_all add: loadInboundEndpoint_def renderInboundPrompt_def ex_inbound_env_def ex_full_inbox_def ex_inbound_row_def
        inbound_row_def ex_endpoint_def worker_submit_def ex_submit_env_def trim_space_def is_space_def)
  have w: "w_enabled ex_endpoint" "w_accepted_events ex_endpoint = None" "w_action_type ex_endpoint = ''create_task''"
    by (simp_all add: ex_endpoint_def)
  have "snd ?one = (st, d, snd (markInboundDeliverySucceeded ex_inbound_env ex_inbound_row ex_inbound_task ex_full_inbox))"
    using sub by (simp add: processInboundDelivery_def load w Let_def ex_inbound_request_def ex_inbound_task_def case_prod_unfold)
  then have d1: "d1 = d" using one by simp
  obtain row where row: "tasks d = tasks ex_create_db @ [row]" "t_id row = ex_inbound_task"
    using SubmitTask_row [OF sub] ex_inbound_fields(6) by (auto simp: ex_inbound_request_def)
  from inbound_delivery_creates_one_task [OF one db_later_refl refl refl two refl] row have "tasks d3 = tasks d1"
    by (simp add: d1 load ex_inbound_task_def)
  with one two row d1 show ?thesis by blast
qed

text \<open>
  C11. Neither queue of deliveries strands a row. Enqueueing an event, a cycle of the callback worker
  and an operator's retry keep every row of the outbox either final, or with attempts left and a
  time at which the next claim takes it. Receiving a request, a claim, a cycle of the inbound worker
  and an operator's retry keep the keys of the inbox unique and every row of it either settled or
  with a time at which a claim takes it: the next attempt while it waits, the end of the lease while
  a worker holds it.
\<close>

theorem delivery_rows_stay_claimable:
  assumes "deliveries_ok d" and "inbox_rows_ok b"
  shows "(case EnqueueTaskEventCallbackDeliveries cbe ev d of Inl _ \<Rightarrow> True | Inr d' \<Rightarrow> deliveries_ok d') \<and>
    deliveries_ok (snd (processDueCallbackDeliveries cfg envs locked now (st, d))) \<and>
    (case RetryCallbackDelivery admin now i d of Inl _ \<Rightarrow> True | Inr (r, d') \<Rightarrow> deliveries_ok d') \<and>
    (case InsertDelivery (inboundStore env) di b of Inl _ \<Rightarrow> True | Inr (c, b') \<Rightarrow> inbox_rows_ok b') \<and>
    inbox_rows_ok (snd (claimDueInboundDeliveries locked' now b)) \<and>
    inbox_rows_ok (snd (snd (processDueInboundDeliveries cfg envs' locked' now (st, d, b)))) \<and>
    (case RetryInboundDelivery ctx now j b of Inl _ \<Rightarrow> True | Inr (r, b') \<Rightarrow> inbox_rows_ok b')"
proof (intro conjI)
  show "deliveries_ok (snd (processDueCallbackDeliveries cfg envs locked now (st, d)))"
    using process_ok [of cfg envs locked now st d "fst (processDueCallbackDeliveries cfg envs locked now (st, d))"] assms(1) by simp
  show "inbox_rows_ok (snd (claimDueInboundDeliveries locked' now b))"
    using claim_inbound_ok [of locked' now b] assms(2) by (metis prod.collapse)
qed (use assms Enqueue_ok Retry_ok insert_rows_ok cycle_rows_ok retry_rows_ok in \<open>auto split: sum.split\<close>)

theorem delivery_rows_stay_claimable_witness:
  "deliveries_ok ex_outbox_db \<and> inbox_rows_ok ex_full_inbox \<and>
   (case EnqueueTaskEventCallbackDeliveries ex_callback_env ex_event ex_outbox_db of Inl _ \<Rightarrow> True | Inr d' \<Rightarrow> deliveries_ok d') \<and>
   inbox_rows_ok (snd (snd (processDueInboundDeliveries ex_open_cfg (\<lambda>_. ex_inbound_env) (\<lambda>_. False) second (ex_state, ex_outbox_db, ex_full_inbox))))"
proof -
  have d: "deliveries_ok ex_outbox_db"
    by (simp add: deliveries_ok_def ex_outbox_db_def ex_delivery_def delivery_ok_def delivery_row_def defaultCallbackDeliveryMaxAttempts_def)
  have b: "inbox_rows_ok ex_full_inbox"
    by (simp add: inbox_rows_ok_def inbox_ok_def inbound_row_ok_def ex_full_inbox_def ex_inbound_row_def inbound_row_def ex_endpoint_def)
  note all = delivery_rows_stay_claimable [OF d b]
  from all [THEN conjunct1] all [THEN conjunct2, THEN conjunct2, THEN conjunct2, THEN conjunct2, THEN conjunct2, THEN conjunct1] d b
  show ?thesis by blast
qed

end
